(* ===== verification/Kam_Prelude.thy ===== *)
theory Kam_Prelude
  imports Main "HOL-Library.Word" "HOL-Library.Multiset" "HOL-Library.Sublist"
begin

text \<open>
  What every component of the development shares: the machine integers of the Rust sources
  (\<open>u8\<close> to \<open>u64\<close> as words, so that \<open>+\<close> wraps the way a release build does), byte
  slices with Rust's \<open>get(a..b)\<close>, little-endian integers, decimal text, the shared
  \<open>Error\<close> type of kam-core, and the generic lemmas the component proofs use. Paths and
  other text are \<open>string\<close>s read as the UTF-8 bytes of the Rust \<open>String\<close>; Unicode
  lower-casing (\<open>str::to_lowercase\<close>) is a function argument \<open>lower\<close> of the definitions
  that use it, with \<open>ascii_lower\<close> as its restriction to ASCII.
\<close>

named_theorems kam_defs
named_theorems kam_simps

section \<open>Machine integers and text\<close>

type_synonym u8 = "8 word"
type_synonym u16 = "16 word"
type_synonym u32 = "32 word"
type_synonym u64 = "64 word"
type_synonym i64 = "64 word"
type_synonym bytes = "8 word list"
type_synonym str = string

text \<open>
  \<open>x << n\<close> on a 64-bit operand. A release build, which the workspace's profile does not
  compile with overflow checks, masks the shift count to the width of the operand.
\<close>

definition shl64 :: "u64 \<Rightarrow> nat \<Rightarrow> u64" where
  "shl64 x n = push_bit (n mod 64) x"

definition saturating_sub :: "'a::len word \<Rightarrow> 'a word \<Rightarrow> 'a word" where
  "saturating_sub a b = (if b \<le> a then a - b else 0)"

definition saturating_add :: "'a::len word \<Rightarrow> 'a word \<Rightarrow> 'a word" where
  "saturating_add a b = (if unat a + unat b < 2 ^ LENGTH('a) then a + b else - 1)"

lemma unat_bound: "unat (w :: 'a::len word) < 2 ^ LENGTH('a)"
  by (rule unsigned_less)

lemma unat_saturating_sub: "unat (saturating_sub a b) = unat a - unat b"
  by (simp add: saturating_sub_def unat_sub word_le_nat_alt)

lemma unat_minus_1_word: "unat (- 1 :: 'a::len word) = 2 ^ LENGTH('a) - 1"
  by (simp add: unsigned_minus_1_eq_mask mask_eq_exp_minus_1)

lemma unat_saturating_add:
  "unat (saturating_add (a :: 'a::len word) b) = min (unat a + unat b) (2 ^ LENGTH('a) - 1)"
  using unat_bound [of a]
  by (auto simp: saturating_add_def unat_word_ariths unat_minus_1_word min_def)

lemma unat_plus_no_overflow:
  "unat (a :: 'a::len word) + unat b < 2 ^ LENGTH('a) \<Longrightarrow> unat (a + b) = unat a + unat b"
  by (simp add: unat_word_ariths)

section \<open>Byte slices\<close>

text \<open>\<open>buffer.get(a..b)\<close>: the bytes of a range, or nothing when the range leaves the buffer.\<close>

definition get_slice :: "'a list \<Rightarrow> nat \<Rightarrow> nat \<Rightarrow> 'a list option" where
  "get_slice bs a b = (if a \<le> b \<and> b \<le> length bs then Some (take (b - a) (drop a bs)) else None)"

text \<open>\<open>buffer.get(i)\<close>.\<close>

definition get_at :: "'a list \<Rightarrow> nat \<Rightarrow> 'a option" where
  "get_at bs i = (if i < length bs then Some (bs ! i) else None)"

text \<open>\<open>buffer[at..at + n].copy_from_slice(new)\<close> where the range is inside the buffer.\<close>

definition write_at :: "'a list \<Rightarrow> nat \<Rightarrow> 'a list \<Rightarrow> 'a list" where
  "write_at bs i new = take i bs @ new @ drop (i + length new) bs"

lemma length_write_at [simp]: "i + length new \<le> length bs \<Longrightarrow> length (write_at bs i new) = length bs"
  by (simp add: write_at_def)

lemma get_slice_Some:
  "get_slice bs a b = Some s \<longleftrightarrow> a \<le> b \<and> b \<le> length bs \<and> s = take (b - a) (drop a bs)"
  by (auto simp: get_slice_def)

lemma length_get_slice: "get_slice bs a b = Some s \<Longrightarrow> length s = b - a"
  by (auto simp: get_slice_def split: if_splits)

lemma get_slice_write_same:
  "i + length new \<le> length bs \<Longrightarrow> get_slice (write_at bs i new) i (i + length new) = Some new"
  by (simp add: get_slice_def write_at_def)

lemma get_slice_write_before:
  "i + length new \<le> length bs \<Longrightarrow> b \<le> i \<Longrightarrow>
     get_slice (write_at bs i new) a b = get_slice bs a b"
  by (auto simp: get_slice_def write_at_def take_drop)

lemma get_slice_write_after:
  assumes "i + length new \<le> length bs" and "i + length new \<le> a"
  shows "get_slice (write_at bs i new) a b = get_slice bs a b"
proof -
  have "drop a (write_at bs i new) = drop a bs"
  proof -
    have "drop a (take i bs @ new @ drop (i + length new) bs) = drop a bs"
      using assms by simp
    then show ?thesis by (simp add: write_at_def)
  qed
  then show ?thesis using assms by (simp add: get_slice_def)
qed

lemma get_slice_append_left [simp]:
  "b \<le> length xs \<Longrightarrow> get_slice (xs @ ys) a b = get_slice xs a b"
  by (auto simp: get_slice_def)

text \<open>\<open>Option::unwrap_or\<close>.\<close>

definition unwrap_or :: "'a \<Rightarrow> 'a option \<Rightarrow> 'a" where
  "unwrap_or d x = (case x of None \<Rightarrow> d | Some v \<Rightarrow> v)"

lemma unwrap_or_simps [simp]: "unwrap_or d None = d" "unwrap_or d (Some v) = v"
  by (simp_all add: unwrap_or_def)

section \<open>Little-endian integers\<close>

primrec le_nat :: "bytes \<Rightarrow> nat" where
  "le_nat [] = 0"
| "le_nat (b # bs) = unat b + 256 * le_nat bs"

primrec le_bytes :: "nat \<Rightarrow> nat \<Rightarrow> bytes" where
  "le_bytes 0 v = []"
| "le_bytes (Suc n) v = word_of_nat (v mod 256) # le_bytes n (v div 256)"

lemma le_bytes_numeral [simp]:
  "le_bytes (numeral k) v = word_of_nat (v mod 256) # le_bytes (pred_numeral k) (v div 256)"
  unfolding numeral_eq_Suc [of k] by simp

lemma replicate_numeral [simp]: "replicate (numeral k) x = x # replicate (pred_numeral k) x"
  unfolding numeral_eq_Suc [of k] by simp

lemma length_le_bytes [simp]: "length (le_bytes n v) = n"
  by (induction n arbitrary: v) auto

lemma le_nat_bound: "le_nat bs < 256 ^ length bs"
proof (induction bs)
  case Nil
  then show ?case by simp
next
  case (Cons b bs)
  have "unat b < 256" using unat_bound [of b] by simp
  with Cons.IH show ?case by simp
qed

lemma le_nat_le_bytes: "le_nat (le_bytes n v) = v mod 256 ^ n"
proof (induction n arbitrary: v)
  case 0
  then show ?case by simp
next
  case (Suc n)
  have "unat (word_of_nat (v mod 256) :: u8) = v mod 256"
    by (simp add: unat_of_nat)
  moreover have "v mod 256 ^ Suc n = v mod 256 + 256 * (v div 256 mod 256 ^ n)"
    by (simp add: mod_mult2_eq)
  ultimately show ?case by (simp add: Suc.IH)
qed

lemma le_bytes_le_nat: "le_bytes (length bs) (le_nat bs) = bs"
proof (induction bs)
  case Nil
  then show ?case by simp
next
  case (Cons b bs)
  have b: "unat b < 256" using unat_bound [of b] by simp
  then have "(unat b + 256 * le_nat bs) mod 256 = unat b"
    and "(unat b + 256 * le_nat bs) div 256 = le_nat bs" by simp_all
  with Cons.IH show ?case by simp
qed

text \<open>\<open>uN::to_le_bytes\<close> and \<open>uN::from_le_bytes\<close> for an integer of \<open>n\<close> bytes.\<close>

definition to_le :: "nat \<Rightarrow> 'a::len word \<Rightarrow> bytes" where
  "to_le n w = le_bytes n (unat w)"

definition from_le :: "bytes \<Rightarrow> 'a::len word" where
  "from_le bs = word_of_nat (le_nat bs)"

lemma length_to_le [simp]: "length (to_le n w) = n"
  by (simp add: to_le_def)

text \<open>The equations that evaluate byte operations on concrete buffers.\<close>

lemmas byte_eval = get_slice_def get_at_def from_le_def to_le_def write_at_def

text \<open>
  The interface the frame codec and the table reader rely on: an integer of a fixed number
  of bytes, written and read back without loss.
\<close>

locale le_int =
  fixes width :: nat
    and enc :: "'a::len word \<Rightarrow> bytes"
    and dec :: "bytes \<Rightarrow> 'a word"
  assumes enc_length: "length (enc w) = width"
    and dec_enc: "dec (enc w) = w"
    and enc_dec: "length bs = width \<Longrightarrow> enc (dec bs) = bs"
begin

lemma enc_inject: "enc v = enc w \<longleftrightarrow> v = w"
  using dec_enc by metis

lemma dec_inject: "length bs = width \<Longrightarrow> length cs = width \<Longrightarrow> dec bs = dec cs \<longleftrightarrow> bs = cs"
  using enc_dec by metis

text \<open>What is read at a position after an integer was written there.\<close>

lemma read_after_write:
  assumes "i + width \<le> length bs"
  shows "map_option dec (get_slice (write_at bs i (enc w)) i (i + width)) = Some w"
proof -
  have "get_slice (write_at bs i (enc w)) i (i + width) = Some (enc w)"
    using get_slice_write_same [of i "enc w" bs] assms by (simp add: enc_length)
  then show ?thesis by (simp add: dec_enc)
qed

lemma dec_prefix: "dec (take width (enc w @ rest)) = w"
  by (simp add: enc_length dec_enc)

end

lemma to_from_le_laws:
  assumes "256 ^ n = (2 :: nat) ^ LENGTH('a::len)"
  shows "length (to_le n (w :: 'a word)) = n"
    and "from_le (to_le n w) = w"
    and "length bs = n \<Longrightarrow> to_le n (from_le bs :: 'a word) = bs"
proof -
  show "length (to_le n w) = n" by (simp add: to_le_def)
  show "from_le (to_le n w) = w"
    using unat_bound [of w] by (simp add: to_le_def from_le_def le_nat_le_bytes assms)
  assume l: "length bs = n"
  have "le_nat bs < 2 ^ LENGTH('a)" using le_nat_bound [of bs] l assms by simp
  then have "unat (word_of_nat (le_nat bs) :: 'a word) = le_nat bs"
    by (simp add: unat_of_nat)
  then show "to_le n (from_le bs :: 'a word) = bs"
    using l le_bytes_le_nat [of bs] by (simp add: to_le_def from_le_def)
qed

interpretation le16: le_int 2 "to_le 2 :: u16 \<Rightarrow> bytes" from_le
  by unfold_locales (simp_all add: to_from_le_laws)

interpretation le32: le_int 4 "to_le 4 :: u32 \<Rightarrow> bytes" from_le
  by unfold_locales (simp_all add: to_from_le_laws)

interpretation le64: le_int 8 "to_le 8 :: u64 \<Rightarrow> bytes" from_le
  by unfold_locales (simp_all add: to_from_le_laws)

section \<open>Decimal text\<close>

text \<open>\<open>{n}\<close> and \<open>{n:0w}\<close> of Rust's formatting for an unsigned integer.\<close>

definition digit_char :: "nat \<Rightarrow> char" where
  "digit_char d = char_of (48 + d)"

lemma digit_chars [simp]:
  "digit_char 0 = CHR ''0''" "digit_char 1 = CHR ''1''" "digit_char (Suc 0) = CHR ''1''" "digit_char 2 = CHR ''2''"
  "digit_char 3 = CHR ''3''" "digit_char 4 = CHR ''4''" "digit_char 5 = CHR ''5''"
  "digit_char 6 = CHR ''6''" "digit_char 7 = CHR ''7''" "digit_char 8 = CHR ''8''" "digit_char 9 = CHR ''9''"
  by (simp_all add: digit_char_def char_of_def bit_iff_odd)

fun show_nat :: "nat \<Rightarrow> str" where
  "show_nat n = (if n < 10 then [digit_char n] else show_nat (n div 10) @ [digit_char (n mod 10)])"

declare show_nat.simps [simp del]

definition pad0 :: "nat \<Rightarrow> str \<Rightarrow> str" where
  "pad0 w s = replicate (w - length s) CHR ''0'' @ s"

definition is_digit :: "char \<Rightarrow> bool" where
  "is_digit c \<longleftrightarrow> 48 \<le> (of_char c :: nat) \<and> (of_char c :: nat) \<le> 57"

definition digit_val :: "char \<Rightarrow> nat" where
  "digit_val c = of_char c - 48"

definition read_nat :: "str \<Rightarrow> nat" where
  "read_nat s = foldl (\<lambda>acc c. acc * 10 + digit_val c) 0 s"

lemma digit_char_props [simp]:
  assumes "d < 10"
  shows "is_digit (digit_char d)" and "digit_val (digit_char d) = d"
  using assms by (simp_all add: is_digit_def digit_val_def digit_char_def of_char_of take_bit_eq_mod)

lemma show_nat_digits: "\<forall>c \<in> set (show_nat n). is_digit c"
proof (induction n rule: show_nat.induct)
  case (1 n)
  then show ?case by (subst show_nat.simps) auto
qed

lemma show_nat_nonempty [simp]: "show_nat n \<noteq> []"
  by (subst show_nat.simps) simp

lemma read_nat_append: "read_nat (s @ [c]) = read_nat s * 10 + digit_val c"
  by (simp add: read_nat_def)

lemma read_show_nat [simp]: "read_nat (show_nat n) = n"
proof (induction n rule: show_nat.induct)
  case (1 n)
  show ?case
  proof (cases "n < 10")
    case True
    then show ?thesis by (subst show_nat.simps) (simp add: read_nat_def)
  next
    case False
    with 1 have "read_nat (show_nat (n div 10)) = n div 10" by simp
    with False show ?thesis by (subst show_nat.simps) (simp add: read_nat_append)
  qed
qed

lemma show_nat_inject [simp]: "show_nat m = show_nat n \<longleftrightarrow> m = n"
  using read_show_nat by metis

lemma length_show_nat: "0 < k \<Longrightarrow> n < 10 ^ k \<Longrightarrow> length (show_nat n) \<le> k"
proof (induction n arbitrary: k rule: show_nat.induct)
  case (1 n)
  show ?case
  proof (cases "n < 10")
    case True
    with 1 show ?thesis by (subst show_nat.simps) simp
  next
    case False
    with "1.prems" obtain j where j: "k = Suc j" "0 < j" by (cases k; cases "k - 1") auto
    have "n div 10 < 10 ^ j" using "1.prems"(2) j by (simp add: less_mult_imp_div_less mult.commute)
    with "1.IH" False j have "length (show_nat (n div 10)) \<le> j" by simp
    with False j show ?thesis by (subst show_nat.simps) simp
  qed
qed

lemma read_nat_replicate0: "read_nat (replicate k CHR ''0'' @ s) = read_nat s"
  by (induction k) (simp_all add: read_nat_def digit_val_def)

lemma read_pad0 [simp]: "read_nat (pad0 w (show_nat n)) = n"
  by (simp add: pad0_def read_nat_replicate0)

lemma length_pad0: "length (pad0 w s) = max w (length s)"
  by (simp add: pad0_def)

lemma length_pad0_show: "0 < w \<Longrightarrow> n < 10 ^ w \<Longrightarrow> length (pad0 w (show_nat n)) = w"
  using length_show_nat [of w n] by (simp add: length_pad0)

lemma pad0_digits: "c \<in> set (pad0 w (show_nat n)) \<Longrightarrow> is_digit c"
  using show_nat_digits [of n] by (auto simp: pad0_def is_digit_def)

section \<open>ASCII case\<close>

definition ascii_lower_char :: "char \<Rightarrow> char" where
  "ascii_lower_char c =
     (let n = (of_char c :: nat) in if 65 \<le> n \<and> n \<le> 90 then char_of (n + 32) else c)"

definition ascii_lower :: "str \<Rightarrow> str" where
  "ascii_lower s = map ascii_lower_char s"

definition is_ascii_alphabetic :: "char \<Rightarrow> bool" where
  "is_ascii_alphabetic c =
     (let n = (of_char c :: nat) in (65 \<le> n \<and> n \<le> 90) \<or> (97 \<le> n \<and> n \<le> 122))"

definition to_ascii_uppercase :: "char \<Rightarrow> char" where
  "to_ascii_uppercase c =
     (let n = (of_char c :: nat) in if 97 \<le> n \<and> n \<le> 122 then char_of (n - 32) else c)"

section \<open>Text operations\<close>

text \<open>\<open>str::trim_end_matches\<close> and \<open>str::trim_start_matches\<close> with a predicate.\<close>

definition trim_end_matches :: "('a \<Rightarrow> bool) \<Rightarrow> 'a list \<Rightarrow> 'a list" where
  "trim_end_matches p s = rev (dropWhile p (rev s))"

definition trim_start_matches :: "('a \<Rightarrow> bool) \<Rightarrow> 'a list \<Rightarrow> 'a list" where
  "trim_start_matches p s = dropWhile p s"

text \<open>
  \<open>str::chars\<close>: a character is the bytes of its UTF-8 form, a leading byte and the
  continuation bytes behind it.
\<close>

definition is_continuation :: "char \<Rightarrow> bool" where
  "is_continuation c \<longleftrightarrow> 128 \<le> (of_char c :: nat) \<and> (of_char c :: nat) < 192"

function utf8_chars :: "str \<Rightarrow> str list" where
  "utf8_chars [] = []"
| "utf8_chars (c # cs) = (c # takeWhile is_continuation cs) # utf8_chars (dropWhile is_continuation cs)"
  by pat_completeness auto
termination
  by (relation "measure length") (auto simp: le_imp_less_Suc length_dropWhile_le)

text \<open>\<open>char::is_whitespace\<close>, the White_Space property of Unicode, and \<open>str::trim\<close>.\<close>

definition is_whitespace :: "str \<Rightarrow> bool" where
  "is_whitespace u =
     (case map (of_char :: char \<Rightarrow> nat) u of
        [a] \<Rightarrow> a = 32 \<or> (9 \<le> a \<and> a \<le> 13)
      | [a, b] \<Rightarrow> a = 0xC2 \<and> (b = 0x85 \<or> b = 0xA0)
      | [a, b, c] \<Rightarrow>
          (a = 0xE1 \<and> b = 0x9A \<and> c = 0x80)
          \<or> (a = 0xE2 \<and> b = 0x80 \<and> ((0x80 \<le> c \<and> c \<le> 0x8A) \<or> c = 0xA8 \<or> c = 0xA9 \<or> c = 0xAF))
          \<or> (a = 0xE2 \<and> b = 0x81 \<and> c = 0x9F)
          \<or> (a = 0xE3 \<and> b = 0x80 \<and> c = 0x80)
      | _ \<Rightarrow> False)"

definition trim :: "str \<Rightarrow> str" where
  "trim s = concat (trim_end_matches is_whitespace (trim_start_matches is_whitespace (utf8_chars s)))"

lemma trim_end_append:
  "trim_end_matches p (a @ b) = (if list_all p b then trim_end_matches p a else a @ trim_end_matches p b)"
proof -
  have "dropWhile p (rev b @ rev a) = (if list_all p b then dropWhile p (rev a) else dropWhile p (rev b) @ rev a)"
  proof (cases "list_all p b")
    case True
    then show ?thesis using dropWhile_append2 [of "rev b" p "rev a"] by (simp add: list_all_iff)
  next
    case False
    then obtain x where "x \<in> set (rev b)" "\<not> p x" by (auto simp: list_all_iff)
    with dropWhile_append1 [of x "rev b" p "rev a"] False show ?thesis by simp
  qed
  then show ?thesis by (simp add: trim_end_matches_def)
qed

lemma utf8_chars_append:
  assumes "b = [] \<or> \<not> is_continuation (hd b)"
  shows "utf8_chars (a @ b) = utf8_chars a @ utf8_chars b"
proof (induction a rule: utf8_chars.induct)
  case (2 c cs)
  have "takeWhile is_continuation (cs @ b) = takeWhile is_continuation cs
      \<and> dropWhile is_continuation (cs @ b) = dropWhile is_continuation cs @ b"
    using assms by (induction cs) (cases b; auto)+
  with 2 show ?case by simp
qed simp

lemma utf8_chars_nonempty: "u \<in> set (utf8_chars s) \<Longrightarrow> u \<noteq> []"
  by (induction s rule: utf8_chars.induct) auto

lemma concat_utf8_chars [simp]: "concat (utf8_chars s) = s"
  by (induction s rule: utf8_chars.induct) auto

lemma utf8_chars_eq_Nil [simp]: "utf8_chars s = [] \<longleftrightarrow> s = []"
  by (cases s) auto

lemma last_utf8_chars: "s \<noteq> [] \<Longrightarrow> last (last (utf8_chars s)) = last s"
proof -
  assume "s \<noteq> []"
  then have n: "utf8_chars s \<noteq> []" by simp
  then have "last (utf8_chars s) \<noteq> []" using utf8_chars_nonempty [OF last_in_set] by blast
  moreover have "s = concat (butlast (utf8_chars s)) @ last (utf8_chars s)"
    using n concat_utf8_chars [of s] append_butlast_last_id [OF n] by (metis concat.simps concat_append append_Nil2)
  ultimately show ?thesis by (metis last_append)
qed

text \<open>A list of characters, the first of which may lack its leading byte, is cut the same way again.\<close>

definition whole_char :: "str \<Rightarrow> bool" where
  "whole_char u \<longleftrightarrow> u \<noteq> [] \<and> list_all is_continuation (tl u)"

lemma utf8_chars_whole: "u \<in> set (utf8_chars s) \<Longrightarrow> whole_char u"
  by (induction s rule: utf8_chars.induct) (auto simp: whole_char_def list_all_iff dest: set_takeWhileD)

lemma utf8_chars_leading: "u \<in> set (tl (utf8_chars s)) \<Longrightarrow> \<not> is_continuation (hd u)"
proof (induction s rule: utf8_chars.induct)
  case (2 c cs)
  show ?case
  proof (cases "dropWhile is_continuation cs")
    case (Cons d ds)
    then have "\<not> is_continuation d" using hd_dropWhile [of is_continuation cs] by simp
    with 2 Cons show ?thesis by auto
  qed (use 2 in \<open>simp del: dropWhile_eq_Nil_conv\<close>)
qed simp

lemma utf8_chars_one: "whole_char u \<Longrightarrow> utf8_chars u = [u]"
proof (cases u)
  case (Cons c cs)
  assume "whole_char u"
  then have "takeWhile is_continuation cs = cs" "dropWhile is_continuation cs = []"
    using Cons by (auto simp: whole_char_def list_all_iff takeWhile_eq_all_conv)
  then show ?thesis by (simp add: Cons)
qed (simp add: whole_char_def)

lemma utf8_chars_concat:
  assumes "list_all whole_char us" and "list_all (\<lambda>u. \<not> is_continuation (hd u)) (tl us)"
  shows "utf8_chars (concat us) = us"
  using assms
proof (induction us)
  case (Cons u us)
  have "concat us = [] \<or> \<not> is_continuation (hd (concat us))"
    using Cons.prems by (cases us) (auto simp: whole_char_def)
  moreover have "list_all (\<lambda>u. \<not> is_continuation (hd u)) (tl us)" using Cons.prems by (cases us) auto
  ultimately show ?case using Cons by (simp add: utf8_chars_append utf8_chars_one)
qed simp

lemma trim_Nil: "trim s = [] \<longleftrightarrow> list_all is_whitespace (utf8_chars s)"
proof -
  have "trim s = [] \<longleftrightarrow> trim_end_matches is_whitespace (trim_start_matches is_whitespace (utf8_chars s)) = []"
  proof -
    have "u \<noteq> []" if "u \<in> set (trim_end_matches is_whitespace (trim_start_matches is_whitespace (utf8_chars s)))" for u
      using that utf8_chars_nonempty [of u s]
      by (auto simp: trim_end_matches_def trim_start_matches_def dest!: set_dropWhileD)
    then show ?thesis unfolding trim_def concat_eq_Nil_conv by (metis list.set_intros(1) neq_Nil_conv list.set(1) empty_iff)
  qed
  also have "\<dots> \<longleftrightarrow> (\<forall>u \<in> set (dropWhile is_whitespace (utf8_chars s)). is_whitespace u)"
    by (simp add: trim_end_matches_def trim_start_matches_def dropWhile_eq_Nil_conv)
  also have "\<dots> \<longleftrightarrow> dropWhile is_whitespace (utf8_chars s) = []"
    by (metis hd_dropWhile hd_in_set list.set(1) empty_iff)
  also have "\<dots> \<longleftrightarrow> list_all is_whitespace (utf8_chars s)"
    by (simp add: dropWhile_eq_Nil_conv list_all_iff)
  finally show ?thesis .
qed

text \<open>\<open>str::split\<close> at every character that satisfies a predicate.\<close>

fun split_on :: "('a \<Rightarrow> bool) \<Rightarrow> 'a list \<Rightarrow> 'a list list" where
  "split_on p [] = [[]]"
| "split_on p (c # cs) =
     (if p c then [] # split_on p cs
      else (case split_on p cs of [] \<Rightarrow> [[c]] | w # ws \<Rightarrow> (c # w) # ws))"

lemma split_on_nonempty [simp]: "split_on p s \<noteq> []"
  by (induction s) (auto split: list.splits)

lemma split_on_parts: "w \<in> set (split_on p s) \<Longrightarrow> c \<in> set w \<Longrightarrow> \<not> p c"
proof (induction s arbitrary: w)
  case Nil
  then show ?case by simp
next
  case (Cons d s)
  then show ?case by (cases "split_on p s") (auto split: if_splits, metis)
qed

text \<open>The dash of the program's sentences, as UTF-8.\<close>

definition em_dash :: str where "em_dash = [CHR 0xE2, CHR 0x80, CHR 0x94]"

text \<open>\<open>[str]::join\<close>, \<open>str::find\<close> with a text (what is before and behind its first occurrence) and
  \<open>str::replace\<close>.\<close>

fun join_with :: "str \<Rightarrow> str list \<Rightarrow> str" where
  "join_with sep [] = []"
| "join_with sep [x] = x"
| "join_with sep (x # xs) = x @ sep @ join_with sep xs"

fun split_sub :: "'a list \<Rightarrow> 'a list \<Rightarrow> ('a list \<times> 'a list) option" where
  "split_sub pat [] = (if pat = [] then Some ([], []) else None)"
| "split_sub pat (c # cs) =
     (if prefix pat (c # cs) then Some ([], drop (length pat) (c # cs))
      else map_option (\<lambda>(a, b). (c # a, b)) (split_sub pat cs))"

lemma split_sub_Some: "split_sub pat s = Some (a, b) \<Longrightarrow> s = a @ pat @ b"
proof (induction s arbitrary: a b)
  case (Cons c cs)
  show ?case
  proof (cases "prefix pat (c # cs)")
    case True
    with Cons.prems show ?thesis by (auto simp: prefix_def)
  next
    case False
    with Cons show ?thesis by (auto split: option.splits)
  qed
qed (auto split: if_splits)

function replace_sub :: "'a list \<Rightarrow> 'a list \<Rightarrow> 'a list \<Rightarrow> 'a list" where
  "replace_sub pat by [] = []"
| "replace_sub pat by (c # cs) =
     (if pat \<noteq> [] \<and> prefix pat (c # cs) then by @ replace_sub pat by (drop (length pat) (c # cs))
      else c # replace_sub pat by cs)"
  by pat_completeness auto
termination
  by (relation "measure (\<lambda>(pat, by, s). length s)")
    (auto simp: Suc_diff_le less_Suc_eq_le neq_Nil_conv)

text \<open>\<open>str::contains\<close>, \<open>str::strip_prefix\<close> and \<open>str::split_once\<close> with one character.\<close>

definition contains :: "'a list \<Rightarrow> 'a list \<Rightarrow> bool" where
  "contains s w \<longleftrightarrow> sublist w s"

definition strip_prefix :: "'a list \<Rightarrow> 'a list \<Rightarrow> 'a list option" where
  "strip_prefix p s = (if prefix p s then Some (drop (length p) s) else None)"

definition split_once :: "'a \<Rightarrow> 'a list \<Rightarrow> ('a list \<times> 'a list) option" where
  "split_once c s =
     (let a = takeWhile (\<lambda>d. d \<noteq> c) s in
      if length a < length s then Some (a, drop (Suc (length a)) s) else None)"

lemma split_once_Some:
  assumes "split_once c s = Some (a, b)"
  shows "s = a @ c # b" and "c \<notin> set a"
proof -
  let ?a = "takeWhile (\<lambda>d. d \<noteq> c) s"
  from assms have l: "length ?a < length s" and a: "a = ?a" and b: "b = drop (Suc (length ?a)) s"
    by (auto simp: split_once_def Let_def split: if_splits)
  have "s ! length ?a = c" using nth_length_takeWhile [OF l] by simp
  then have "drop (length ?a) s = c # b"
    using l b by (metis Cons_nth_drop_Suc)
  then show "s = a @ c # b"
    using a by (metis append_take_drop_id takeWhile_eq_take)
  show "c \<notin> set a" using a set_takeWhileD by force
qed

lemma split_once_None: "split_once c s = None \<longleftrightarrow> c \<notin> set s"
proof
  assume "split_once c s = None"
  then have "length (takeWhile (\<lambda>d. d \<noteq> c) s) = length s"
    using length_takeWhile_le [of "\<lambda>d. d \<noteq> c" s] by (auto simp: split_once_def Let_def split: if_splits)
  then show "c \<notin> set s" by (metis set_takeWhileD takeWhile_eq_take take_all_iff order_refl)
next
  assume "c \<notin> set s"
  then have t: "takeWhile (\<lambda>d. d \<noteq> c) s = s" by (auto simp: takeWhile_eq_all_conv)
  show "split_once c s = None" unfolding split_once_def t by simp
qed

lemma split_once_append: "c \<notin> set a \<Longrightarrow> split_once c (a @ c # b) = Some (a, b)"
proof -
  assume "c \<notin> set a"
  then have "takeWhile (\<lambda>d. d \<noteq> c) (a @ c # b) = a" by (induction a) auto
  then show ?thesis by (simp add: split_once_def)
qed

lemma join_split_on [simp]: "join_with [c] (split_on (\<lambda>d. d = c) s) = s"
proof (induction s)
  case (Cons d s)
  then show ?case by (cases "split_on (\<lambda>d. d = c) s" rule: list.exhaust [case_names Nil Cons'])
      (auto, (metis join_with.simps(2,3) neq_Nil_conv append_Cons)+)
qed simp

lemma strip_prefix_Some: "strip_prefix p s = Some r \<longleftrightarrow> s = p @ r"
  by (auto simp: strip_prefix_def prefix_def)

text \<open>\<open>str::rsplit_once\<close> with one character and \<open>str::ends_with\<close>.\<close>

definition rsplit_once :: "'a \<Rightarrow> 'a list \<Rightarrow> ('a list \<times> 'a list) option" where
  "rsplit_once c s = map_option (\<lambda>(a, b). (rev b, rev a)) (split_once c (rev s))"

lemma rsplit_once_Some:
  assumes "rsplit_once c s = Some (a, b)"
  shows "s = a @ c # b" and "c \<notin> set b"
proof -
  have r: "split_once c (rev s) = Some (rev b, rev a)" using assms by (auto simp: rsplit_once_def)
  from split_once_Some(1) [OF r] show "s = a @ c # b" by (simp add: rev_swap)
  from split_once_Some(2) [OF r] show "c \<notin> set b" by simp
qed

lemma rsplit_once_None: "rsplit_once c s = None \<longleftrightarrow> c \<notin> set s"
  by (simp add: rsplit_once_def split_once_None)

lemma rsplit_once_append: "c \<notin> set b \<Longrightarrow> rsplit_once c (a @ c # b) = Some (a, b)"
  using split_once_append [of c "rev b" "rev a"] by (simp add: rsplit_once_def)

definition ends_with :: "str \<Rightarrow> str \<Rightarrow> bool" where
  "ends_with s w \<longleftrightarrow> prefix (rev w) (rev s)"

section \<open>UTF-16 names\<close>

text \<open>
  \<open>String::from_utf16_lossy\<close>: surrogate pairs are combined, an unpaired surrogate becomes
  U+FFFD, and the code points are written out in UTF-8.
\<close>

definition is_high_surrogate :: "u16 \<Rightarrow> bool" where
  "is_high_surrogate u \<longleftrightarrow> 0xD800 \<le> u \<and> u < 0xDC00"

definition is_low_surrogate :: "u16 \<Rightarrow> bool" where
  "is_low_surrogate u \<longleftrightarrow> 0xDC00 \<le> u \<and> u < 0xE000"

fun decode_utf16 :: "u16 list \<Rightarrow> nat list" where
  "decode_utf16 [] = []"
| "decode_utf16 (u # us) =
     (if is_low_surrogate u then 0xFFFD # decode_utf16 us
      else if is_high_surrogate u then
        (case us of
           [] \<Rightarrow> [0xFFFD]
         | v # vs \<Rightarrow>
             if is_low_surrogate v
             then (0x10000 + (unat u - 0xD800) * 0x400 + (unat v - 0xDC00)) # decode_utf16 vs
             else 0xFFFD # decode_utf16 us)
      else unat u # decode_utf16 us)"

definition utf8_of :: "nat \<Rightarrow> str" where
  "utf8_of cp =
     (if cp < 0x80 then [char_of cp]
      else if cp < 0x800 then [char_of (0xC0 + cp div 64), char_of (0x80 + cp mod 64)]
      else if cp < 0x10000 then
        [char_of (0xE0 + cp div 4096), char_of (0x80 + cp div 64 mod 64), char_of (0x80 + cp mod 64)]
      else
        [char_of (0xF0 + cp div 262144), char_of (0x80 + cp div 4096 mod 64),
         char_of (0x80 + cp div 64 mod 64), char_of (0x80 + cp mod 64)])"

definition from_utf16_lossy :: "u16 list \<Rightarrow> str" where
  "from_utf16_lossy us = concat (map utf8_of (decode_utf16 us))"

section \<open>The shared error type\<close>

text \<open>
  \<open>kam_core::Error\<close>. An I/O error is its kind and its text, the two things the sources
  look at.
\<close>

datatype io_kind = AlreadyExists | NotFound | UnexpectedEof | OtherKind

datatype io_error = IoError (io_error_kind: io_kind) (io_error_text: str)

datatype kam_error =
    Io io_error
  | Refused str
  | Privileged str
  | Protocol str
  | Database str
  | NotImplemented str

text \<open>\<open>Error::to_string\<close>.\<close>

fun show_error :: "kam_error \<Rightarrow> str" where
  "show_error (Io e) = ''i/o error: '' @ io_error_text e"
| "show_error (Refused m) = ''refused: '' @ m"
| "show_error (Privileged m) = ''privileged operation failed: '' @ m"
| "show_error (Protocol m) = ''protocol error: '' @ m"
| "show_error (Database m) = ''database error: '' @ m"
| "show_error (NotImplemented m) = ''not implemented yet: '' @ m"

section \<open>Order-preserving selection\<close>

text \<open>\<open>sort_by_key(Reverse(key))\<close>: a stable sort with the largest key first.\<close>

definition sort_desc_by :: "('a \<Rightarrow> nat) \<Rightarrow> 'a list \<Rightarrow> 'a list" where
  "sort_desc_by f xs = rev (sort_key f (rev xs))"

lemma mset_sort_desc_by [simp]: "mset (sort_desc_by f xs) = mset xs"
  by (simp add: sort_desc_by_def)

lemma set_sort_desc_by [simp]: "set (sort_desc_by f xs) = set xs"
  by (simp add: sort_desc_by_def)

lemma length_sort_desc_by [simp]: "length (sort_desc_by f xs) = length xs"
  by (simp add: sort_desc_by_def)

lemma sorted_sort_desc_by: "sorted_wrt (\<lambda>x y. f y \<le> f x) (sort_desc_by f xs)"
proof -
  have "sorted (map f (sort_key f (rev xs)))" by simp
  then have "sorted_wrt (\<lambda>x y. f x \<le> f y) (sort_key f (rev xs))"
    by (simp add: sorted_map)
  then show ?thesis by (simp add: sort_desc_by_def sorted_wrt_rev)
qed

text \<open>Stability: items with the same key keep the order they came in.\<close>

lemma filter_sort_desc_by: "filter (\<lambda>x. f x = k) (sort_desc_by f xs) = filter (\<lambda>x. f x = k) xs"
proof -
  have "filter (\<lambda>x. f x = k) (sort_key f (rev xs)) = filter (\<lambda>x. f x = k) (rev xs)"
    by (rule sort_key_stable)
  then show ?thesis by (simp add: sort_desc_by_def flip: rev_filter)
qed

lemma take_sort_desc_by_top:
  assumes "x \<in> set (take n (sort_desc_by f xs))" and "y \<in> set (drop n (sort_desc_by f xs))"
  shows "f y \<le> f x"
proof -
  have "sorted_wrt (\<lambda>x y. f y \<le> f x) (take n (sort_desc_by f xs) @ drop n (sort_desc_by f xs))"
    using sorted_sort_desc_by by simp
  with assms show ?thesis unfolding sorted_wrt_append by blast
qed

text \<open>Sorting commutes with a map that carries the key along.\<close>

lemma insort_key_map: "insort_key f (h x) (map h xs) = map h (insort_key (\<lambda>a. f (h a)) x xs)"
  by (induction xs) simp_all

lemma sort_key_map: "sort_key f (map h xs) = map h (sort_key (\<lambda>a. f (h a)) xs)"
  by (induction xs) (simp_all add: insort_key_map)

lemma sort_desc_by_map: "sort_desc_by f (map h xs) = map h (sort_desc_by (\<lambda>a. f (h a)) xs)"
  by (simp add: sort_desc_by_def sort_key_map rev_map)

text \<open>A stable descending sort is the only descending list that keeps equal keys in order.\<close>

lemma sort_desc_by_unique:
  assumes "mset ys = mset xs" and "sorted_wrt (\<lambda>x y. f y \<le> f x) ys"
    and "\<And>k. filter (\<lambda>x. f x = k) ys = filter (\<lambda>x. f x = k) xs"
  shows "sort_desc_by f xs = ys"
proof -
  have "sort_key f (rev xs) = rev ys"
  proof (rule properties_for_sort_key)
    show "mset (rev ys) = mset (rev xs)" using assms(1) by simp
    show "filter (\<lambda>x. f k = f x) (rev ys) = filter (\<lambda>x. f k = f x) (rev xs)" for k
      using assms(3) [of "f k"] by (simp add: eq_commute flip: rev_filter)
    show "sorted (map f (rev ys))"
      using assms(2) by (simp add: sorted_map sorted_wrt_rev)
  qed
  then show ?thesis by (simp add: sort_desc_by_def)
qed

text \<open>An item with \<open>n\<close> items before it that are no smaller does not reach the first \<open>n\<close>.\<close>

lemma sort_desc_by_insert:
  shows "\<exists>l r. sort_desc_by f (xs @ ys) = l @ r \<and> sort_desc_by f (xs @ d # ys) = l @ d # r
     \<and> length (filter (\<lambda>x. f d \<le> f x) xs) \<le> length l"
proof -
  let ?z = "sort_desc_by f (xs @ ys)"
  let ?l = "filter (\<lambda>x. f d < f x) ?z @ filter (\<lambda>x. f x = f d) xs"
  let ?r = "filter (\<lambda>x. f x = f d) ys @ filter (\<lambda>x. f x < f d) ?z"
  have above: "filter (\<lambda>x. f x = k) (filter (\<lambda>x. f d < f x) ?z) =
      (if f d < k then filter (\<lambda>x. f x = k) (xs @ ys) else [])" for k
    using filter_sort_desc_by [of f k "xs @ ys"] by (auto simp: filter_filter filter_empty_conv conj_commute cong: conj_cong)
  have below: "filter (\<lambda>x. f x = k) (filter (\<lambda>x. f x < f d) ?z) =
      (if k < f d then filter (\<lambda>x. f x = k) (xs @ ys) else [])" for k
    using filter_sort_desc_by [of f k "xs @ ys"] by (auto simp: filter_filter filter_empty_conv conj_commute cong: conj_cong)
  have same: "filter (\<lambda>x. f x = k) (filter (\<lambda>x. f x = f d) zs) =
      (if k = f d then filter (\<lambda>x. f x = k) zs else [])" for k zs
    by (auto simp: filter_filter filter_empty_conv cong: conj_cong)
  have parts: "filter (\<lambda>x. f x = k) (?l @ ?r) = filter (\<lambda>x. f x = k) (xs @ ys)"
    and parts_d: "filter (\<lambda>x. f x = k) (?l @ d # ?r) = filter (\<lambda>x. f x = k) (xs @ d # ys)" for k
    by (cases k "f d" rule: linorder_cases; simp add: above below same filter_sort_desc_by del: filter_filter)+
  have ms: "mset (filter (\<lambda>x. f d < f x) ?z) + mset (filter (\<lambda>x. f x = f d) (xs @ ys))
      + mset (filter (\<lambda>x. f x < f d) ?z) = mset (xs @ ys)"
  proof (rule multiset_eqI)
    fix x
    show "count (mset (filter (\<lambda>x. f d < f x) ?z) + mset (filter (\<lambda>x. f x = f d) (xs @ ys))
        + mset (filter (\<lambda>x. f x < f d) ?z)) x = count (mset (xs @ ys)) x"
      by (cases "f x < f d"; cases "f x = f d") simp_all
  qed
  have srt: "sorted_wrt (\<lambda>x y. f y \<le> f x) (filter P ?z)" for P
    using sorted_sort_desc_by by (rule sorted_wrt_filter)
  have eqs: "sorted_wrt (\<lambda>x y. f y \<le> f x) (filter (\<lambda>x. f x = f d) zs)" for zs
    by (induction zs) auto
  have "sort_desc_by f (xs @ ys) = ?l @ ?r"
    by (rule sort_desc_by_unique [OF _ _ parts])
      (use ms in \<open>simp add: ac_simps\<close>, auto simp: sorted_wrt_append srt eqs)
  moreover have "sort_desc_by f (xs @ d # ys) = ?l @ d # ?r"
    by (rule sort_desc_by_unique [OF _ _ parts_d])
      (use ms in \<open>simp add: ac_simps\<close>, auto simp: sorted_wrt_append srt eqs)
  moreover have "length (filter (\<lambda>x. f d \<le> f x) xs) \<le> length ?l"
  proof -
    have "length (filter (\<lambda>x. f d < f x) xs) \<le> length (filter (\<lambda>x. f d < f x) ?z)"
    proof -
      have "mset (filter (\<lambda>x. f d < f x) ?z) = mset (filter (\<lambda>x. f d < f x) (xs @ ys))" by simp
      then have "length (filter (\<lambda>x. f d < f x) ?z) = length (filter (\<lambda>x. f d < f x) (xs @ ys))"
        by (rule mset_eq_length)
      then show ?thesis by simp
    qed
    moreover have "length (filter (\<lambda>x. f d \<le> f x) xs) =
        length (filter (\<lambda>x. f d < f x) xs) + length (filter (\<lambda>x. f x = f d) xs)"
      by (induction xs) auto
    ultimately show ?thesis by simp
  qed
  ultimately show ?thesis by blast
qed

text \<open>
  Two lists of candidates are interchangeable for a top \<open>n\<close> when no context tells them
  apart; cutting a list down to its own top \<open>n\<close> is such an exchange.
\<close>

definition same_top :: "('a \<Rightarrow> nat) \<Rightarrow> nat \<Rightarrow> 'a list \<Rightarrow> 'a list \<Rightarrow> bool" where
  "same_top f n xs ys \<longleftrightarrow>
     (\<forall>a b. take n (sort_desc_by f (a @ xs @ b)) = take n (sort_desc_by f (a @ ys @ b)))"

lemma same_top_refl [simp]: "same_top f n xs xs"
  by (simp add: same_top_def)

lemma same_top_trans: "same_top f n xs ys \<Longrightarrow> same_top f n ys zs \<Longrightarrow> same_top f n xs zs"
  by (simp add: same_top_def)

lemma same_top_append:
  assumes "same_top f n xs xs'" and "same_top f n ys ys'"
  shows "same_top f n (xs @ ys) (xs' @ ys')"
  unfolding same_top_def
proof (intro allI)
  fix a b
  have "take n (sort_desc_by f (a @ xs @ (ys @ b))) = take n (sort_desc_by f (a @ xs' @ (ys @ b)))"
    using assms(1) unfolding same_top_def by blast
  also have "\<dots> = take n (sort_desc_by f ((a @ xs') @ ys @ b))" by simp
  also have "\<dots> = take n (sort_desc_by f ((a @ xs') @ ys' @ b))"
    using assms(2) unfolding same_top_def by blast
  finally show "take n (sort_desc_by f (a @ (xs @ ys) @ b)) = take n (sort_desc_by f (a @ (xs' @ ys') @ b))"
    by simp
qed

lemma same_top_concat:
  "list_all2 (same_top f n) xss yss \<Longrightarrow> same_top f n (concat xss) (concat yss)"
  by (induction rule: list_all2_induct) (simp_all add: same_top_append)

lemma same_top_whole: "same_top f n xs ys \<Longrightarrow> take n (sort_desc_by f xs) = take n (sort_desc_by f ys)"
  unfolding same_top_def by (metis append_Nil append_Nil2)

lemma same_top_sort: "same_top f n (sort_desc_by f xs) xs"
proof -
  have "sort_desc_by f (a @ xs @ b) = sort_desc_by f (a @ sort_desc_by f xs @ b)" for a b
    by (rule sort_desc_by_unique) (simp_all add: sorted_sort_desc_by filter_sort_desc_by)
  then show ?thesis by (simp add: same_top_def)
qed

lemma same_top_drop_one:
  assumes "n \<le> length ts" and "\<And>t. t \<in> set ts \<Longrightarrow> f d \<le> f t"
  shows "same_top f n (ts @ d # ys) (ts @ ys)"
  unfolding same_top_def
proof (intro allI)
  fix a b
  obtain l r where lr: "sort_desc_by f ((a @ ts) @ (ys @ b)) = l @ r"
      "sort_desc_by f ((a @ ts) @ d # (ys @ b)) = l @ d # r"
      "length (filter (\<lambda>x. f d \<le> f x) (a @ ts)) \<le> length l"
    using sort_desc_by_insert [of f "a @ ts" "ys @ b" d] by blast
  have "filter (\<lambda>x. f d \<le> f x) ts = ts" using assms(2) by (simp add: filter_id_conv)
  with lr(3) assms(1) have "n \<le> length l" by simp
  then show "take n (sort_desc_by f (a @ (ts @ d # ys) @ b)) = take n (sort_desc_by f (a @ (ts @ ys) @ b))"
    using lr(1,2) by simp
qed

lemma same_top_drop:
  "n \<le> length ts \<Longrightarrow> (\<And>d t. d \<in> set ds \<Longrightarrow> t \<in> set ts \<Longrightarrow> f d \<le> f t) \<Longrightarrow> same_top f n (ts @ ds) ts"
proof (induction ds)
  case Nil
  then show ?case by simp
next
  case (Cons d ds)
  have "same_top f n (ts @ d # ds) (ts @ ds)" using Cons.prems by (intro same_top_drop_one) simp_all
  moreover have "same_top f n (ts @ ds) ts" using Cons by simp
  ultimately show ?case by (rule same_top_trans)
qed

lemma same_top_take: "same_top f n (take n (sort_desc_by f xs)) xs"
proof -
  let ?s = "sort_desc_by f xs"
  have "same_top f n (take n ?s @ drop n ?s) (take n ?s)"
  proof (cases "n \<le> length xs")
    case True
    then show ?thesis by (intro same_top_drop) (simp, metis take_sort_desc_by_top)
  qed simp
  then have "\<And>a b. take n (sort_desc_by f (a @ take n ?s @ b)) = take n (sort_desc_by f (a @ ?s @ b))"
    by (simp add: same_top_def)
  with same_top_sort [of f n xs] show ?thesis by (simp add: same_top_def)
qed

end
