(* ===== verification/Kam_Mft.thy ===== *)
theory Kam_Mft
  imports Kam_Prelude "HOL-Library.AList"
begin

text \<open>
  The master file table reader, \<open>crates/kam-storage/src/mft.rs\<close>: the boot sector, the
  mapping pairs of a non-resident attribute, the update-sequence fixups, one record, one
  block of records, the framing of a stream of reads into blocks, and the merge of what the
  parser threads return. The volume is a function from a byte offset and a wanted length to
  the bytes read or an error. A hash map is an association list with distinct keys in an
  arbitrary order. \<open>None\<close> of \<open>parse_block\<close> is a panic of the slice indexing.
\<close>

unbundle bit_operations_syntax

section \<open>Data\<close>

definition ROOT_RECORD :: u64 where "ROOT_RECORD = 5"
definition ATTR_STANDARD_INFORMATION :: u32 where "ATTR_STANDARD_INFORMATION = 0x10"
definition ATTR_FILE_NAME :: u32 where "ATTR_FILE_NAME = 0x30"
definition ATTR_DATA :: u32 where "ATTR_DATA = 0x80"
definition ATTR_END :: u32 where "ATTR_END = 0xFFFFFFFF"
definition FLAG_IN_USE :: u16 where "FLAG_IN_USE = 0x0001"
definition FLAG_DIRECTORY :: u16 where "FLAG_DIRECTORY = 0x0002"
definition NAMESPACE_DOS :: u8 where "NAMESPACE_DOS = 2"
definition CHUNK_BYTES :: nat where "CHUNK_BYTES = 4 * 1024 * 1024"

lemmas mft_consts [simp] =
  ROOT_RECORD_def ATTR_STANDARD_INFORMATION_def ATTR_FILE_NAME_def ATTR_DATA_def ATTR_END_def
  FLAG_IN_USE_def FLAG_DIRECTORY_def NAMESPACE_DOS_def

text \<open>The bytes of \<open>NTFS\<close> with four blanks, and of \<open>FILE\<close>.\<close>

definition NTFS_MAGIC :: bytes where "NTFS_MAGIC = [0x4E, 0x54, 0x46, 0x53, 0x20, 0x20, 0x20, 0x20]"
definition FILE_MAGIC :: bytes where "FILE_MAGIC = [0x46, 0x49, 0x4C, 0x45]"

record mft_entry =
  parent :: u32
  ename :: str
  is_directory :: bool
  ebytes :: u64
  modified :: u64
  created :: u64
  accessed :: u64

record mft_stats =
  records_seen :: u64
  stat_in_use :: u64
  nameless :: u64
  extensions :: u64
  sizes_from_extensions :: u64
  sizeless_files :: u64
  io_millis :: u64
  bytes_read :: u64

record mft_snapshot =
  entries :: "(u32 \<times> mft_entry) list"
  root :: u32
  skipped :: u64
  stats :: mft_stats

definition default_stats :: mft_stats where
  "default_stats = \<lparr>records_seen = 0, stat_in_use = 0, nameless = 0, extensions = 0,
     sizes_from_extensions = 0, sizeless_files = 0, io_millis = 0, bytes_read = 0\<rparr>"

record geometry =
  bytes_per_sector :: u64
  bytes_per_cluster :: u64
  record_bytes :: u64
  mft_start_cluster :: u64

record run =
  start_cluster :: u64
  clusters :: u64

record raw_record =
  in_use :: bool
  raw_is_directory :: bool
  base :: "u32 option"
  name :: "(u8 \<times> str \<times> u32) option"
  data :: "u64 option"
  raw_modified :: u64
  raw_created :: u64
  raw_accessed :: u64

record block =
  sequence :: nat
  first_record :: u32
  block_bytes :: bytes

record parsed =
  parsed_entries :: "(u32 \<times> mft_entry) list"
  extension_sizes :: "(u32 \<times> u64) list"
  parsed_stats :: mft_stats
  parsed_skipped :: u64

definition default_parsed :: parsed where
  "default_parsed = \<lparr>parsed_entries = [], extension_sizes = [],
     parsed_stats = default_stats, parsed_skipped = 0\<rparr>"

section \<open>Reading integers out of a buffer\<close>

definition read_u16 :: "bytes \<Rightarrow> nat \<Rightarrow> u16 option" where
  "read_u16 buffer i = map_option from_le (get_slice buffer i (i + 2))"

definition read_u32 :: "bytes \<Rightarrow> nat \<Rightarrow> u32 option" where
  "read_u32 buffer i = map_option from_le (get_slice buffer i (i + 4))"

definition read_u64 :: "bytes \<Rightarrow> nat \<Rightarrow> u64 option" where
  "read_u64 buffer i = map_option from_le (get_slice buffer i (i + 8))"

section \<open>The boot sector\<close>

definition parse_boot_sector :: "bytes \<Rightarrow> kam_error + geometry" where
  "parse_boot_sector boot =
     (let truncated = Inl (Refused ''truncated boot sector'') in
      if get_slice boot 3 11 \<noteq> Some NTFS_MAGIC then Inl (Refused ''this volume is not NTFS'')
      else (case read_u16 boot 0x0B of None \<Rightarrow> truncated | Some sector16 \<Rightarrow>
        (case get_at boot 0x0D of None \<Rightarrow> truncated | Some sectors_raw \<Rightarrow>
          (case read_u64 boot 0x30 of None \<Rightarrow> truncated | Some mft_start \<Rightarrow>
            (case get_at boot 0x40 of None \<Rightarrow> truncated | Some per_record \<Rightarrow>
              (let sector = (ucast sector16 :: u64);
                   sectors_per_cluster =
                     (if sectors_raw \<le> 0x80 then ucast sectors_raw
                      else shl64 1 (256 - unat sectors_raw));
                   cluster = sector * sectors_per_cluster;
                   record_size =
                     (if 0 < sint per_record then ucast per_record * cluster
                      else shl64 1 (unat (scast (- per_record) :: u32)))
               in if sector = 0 \<or> cluster = 0 \<or> record_size = 0
                  then Inl (Refused ''the boot sector describes an unusable geometry'')
                  else Inr \<lparr>bytes_per_sector = sector, bytes_per_cluster = cluster,
                            record_bytes = record_size, mft_start_cluster = mft_start\<rparr>))))))"

section \<open>Mapping pairs\<close>

text \<open>The loop \<open>for index in 0..n { value |= mapping[cursor + index] << (index * 8) }\<close>.\<close>

definition or_bytes :: "bytes \<Rightarrow> nat \<Rightarrow> nat \<Rightarrow> u64" where
  "or_bytes mapping cursor n =
     foldl (\<lambda>value index. value OR shl64 (ucast (mapping ! (cursor + index))) (index * 8)) 0 [0..<n]"

text \<open>The offset field, sign-extended from its top byte.\<close>

definition signed_offset :: "bytes \<Rightarrow> nat \<Rightarrow> nat \<Rightarrow> i64" where
  "signed_offset mapping cursor n =
     (let offset = or_bytes mapping cursor n;
          sign_bit = shl64 1 (n * 8 - 1)
      in if offset AND sign_bit \<noteq> 0 then offset - shl64 1 (n * 8) else offset)"

function parse_runs_from :: "bytes \<Rightarrow> nat \<Rightarrow> i64 \<Rightarrow> run list" where
  "parse_runs_from mapping cursor previous_lcn =
     (if length mapping \<le> cursor then []
      else (let header = mapping ! cursor;
                length_bytes = unat (header AND 0x0F);
                offset_bytes = unat (drop_bit 4 header) in
        if header = 0 then []
        else if length_bytes = 0 \<or> length mapping < cursor + 1 + length_bytes + offset_bytes then []
        else (let count = or_bytes mapping (cursor + 1) length_bytes;
                  at_offset = cursor + 1 + length_bytes in
          if offset_bytes = 0 then parse_runs_from mapping at_offset previous_lcn
          else (let lcn = previous_lcn + signed_offset mapping at_offset offset_bytes in
            (if 0 \<le> sint lcn \<and> 0 < count
             then [\<lparr>start_cluster = lcn, clusters = count\<rparr>] else [])
            @ parse_runs_from mapping (at_offset + offset_bytes) lcn))))"
  by pat_completeness auto
termination
  by (relation "measure (\<lambda>(mapping, cursor, lcn). length mapping - cursor)") auto

declare parse_runs_from.simps [simp del]

definition parse_runs :: "bytes \<Rightarrow> run list" where
  "parse_runs mapping = parse_runs_from mapping 0 0"

section \<open>Fixups\<close>

fun fixup_sectors :: "nat \<Rightarrow> u16 \<Rightarrow> nat \<Rightarrow> nat list \<Rightarrow> bytes \<Rightarrow> bytes option" where
  "fixup_sectors offset signature sector_size [] rec = Some rec"
| "fixup_sectors offset signature sector_size (sector # sectors) rec =
     (let tail = (sector + 1) * sector_size in
      if tail < 2 \<or> length rec < tail then None
      else if read_u16 rec (tail - 2) \<noteq> Some signature then None
      else (case read_u16 rec (offset + 2 + sector * 2) of
        None \<Rightarrow> None
      | Some replacement \<Rightarrow>
          fixup_sectors offset signature sector_size sectors
            (write_at rec (tail - 2) (to_le 2 replacement))))"

definition apply_fixups :: "bytes \<Rightarrow> u64 \<Rightarrow> bytes option" where
  "apply_fixups rec sector_bytes =
     (case read_u16 rec 0x04 of None \<Rightarrow> None | Some offset16 \<Rightarrow>
      (case read_u16 rec 0x06 of None \<Rightarrow> None | Some count16 \<Rightarrow>
       if count16 = 0 then None
       else (case read_u16 rec (unat offset16) of None \<Rightarrow> None | Some signature \<Rightarrow>
         fixup_sectors (unat offset16) signature (unat sector_bytes)
           [0..<unat count16 - 1] rec)))"

section \<open>One record\<close>

record attr_state =
  best_name :: "(u8 \<times> str \<times> u32) option"
  data_size :: "u64 option"
  at_modified :: u64
  at_created :: u64
  at_accessed :: u64

definition standard_information :: "bytes \<Rightarrow> nat \<Rightarrow> attr_state \<Rightarrow> attr_state option" where
  "standard_information rec cursor st =
     (case read_u16 rec (cursor + 0x14) of None \<Rightarrow> None | Some value_offset \<Rightarrow>
      (let value = cursor + unat value_offset in
       Some (st\<lparr>at_created := unwrap_or 0 (read_u64 rec value),
                at_modified := unwrap_or 0 (read_u64 rec (value + 0x08)),
                at_accessed := unwrap_or 0 (read_u64 rec (value + 0x18))\<rparr>)))"

text \<open>The low 48 bits of a file reference, cut to the 32 bits a record number is kept in.\<close>

definition reference_index :: "u64 \<Rightarrow> u32" where
  "reference_index r = ucast (r AND 0x0000FFFFFFFFFFFF)"

text \<open>Whether a name replaces the one held: there is none yet, or the one held is a DOS alias
  and this one is not.\<close>

definition better_name :: "(u8 \<times> str \<times> u32) option \<Rightarrow> u8 \<Rightarrow> bool" where
  "better_name held namespace =
     (case held of None \<Rightarrow> True
      | Some (existing, _, _) \<Rightarrow> existing = NAMESPACE_DOS \<and> namespace \<noteq> NAMESPACE_DOS)"

definition file_name_attribute :: "bytes \<Rightarrow> nat \<Rightarrow> attr_state \<Rightarrow> attr_state option" where
  "file_name_attribute rec cursor st =
     (case read_u16 rec (cursor + 0x14) of None \<Rightarrow> None | Some value_offset \<Rightarrow>
      (let value = cursor + unat value_offset in
       (case read_u64 rec value of None \<Rightarrow> None | Some parent_reference \<Rightarrow>
        (case get_at rec (value + 0x40) of None \<Rightarrow> None | Some name_length \<Rightarrow>
         (case get_at rec (value + 0x41) of None \<Rightarrow> None | Some namespace \<Rightarrow>
          (let start = value + 0x42;
               units = List.map_filter (\<lambda>index. read_u16 rec (start + index * 2)) [0..<unat name_length]
           in Some (if better_name (best_name st) namespace
                    then st\<lparr>best_name :=
                      Some (namespace, from_utf16_lossy units, reference_index parent_reference)\<rparr>
                    else st)))))))"

definition data_attribute :: "bytes \<Rightarrow> nat \<Rightarrow> bool \<Rightarrow> attr_state \<Rightarrow> attr_state option" where
  "data_attribute rec cursor non_resident st =
     (case get_at rec (cursor + 0x09) of None \<Rightarrow> None | Some name_length \<Rightarrow>
      if name_length \<noteq> 0 then Some st
      else if non_resident then
        (case read_u64 rec (cursor + 0x10) of None \<Rightarrow> None | Some lowest_vcn \<Rightarrow>
         if lowest_vcn = 0 \<and> data_size st = None
         then map_option (\<lambda>rsize. st\<lparr>data_size := Some rsize\<rparr>) (read_u64 rec (cursor + 0x30))
         else Some st)
      else if data_size st = None
      then map_option (\<lambda>rsize. st\<lparr>data_size := Some (ucast rsize)\<rparr>) (read_u32 rec (cursor + 0x10))
      else Some st)"

definition attribute_step ::
  "bytes \<Rightarrow> nat \<Rightarrow> u32 \<Rightarrow> bool \<Rightarrow> attr_state \<Rightarrow> attr_state option" where
  "attribute_step rec cursor attribute_type non_resident st =
     (if attribute_type = ATTR_STANDARD_INFORMATION \<and> \<not> non_resident
      then standard_information rec cursor st
      else if attribute_type = ATTR_FILE_NAME \<and> \<not> non_resident
      then file_name_attribute rec cursor st
      else if attribute_type = ATTR_DATA then data_attribute rec cursor non_resident st
      else Some st)"

function parse_attributes :: "bytes \<Rightarrow> nat \<Rightarrow> nat \<Rightarrow> attr_state \<Rightarrow> attr_state option" where
  "parse_attributes rec limit cursor st =
     (if limit < cursor + 8 then Some st
      else (case read_u32 rec cursor of None \<Rightarrow> None | Some attribute_type \<Rightarrow>
        if attribute_type = ATTR_END then Some st
        else (case read_u32 rec (cursor + 4) of None \<Rightarrow> None | Some length32 \<Rightarrow>
          if unat length32 < 8 \<or> limit < cursor + unat length32 then Some st
          else (case get_at rec (cursor + 0x08) of None \<Rightarrow> None | Some resident_flag \<Rightarrow>
            (case attribute_step rec cursor attribute_type (resident_flag \<noteq> 0) st of
               None \<Rightarrow> None
             | Some st' \<Rightarrow> parse_attributes rec limit (cursor + unat length32) st')))))"
  by pat_completeness auto
termination
  by (relation "measure (\<lambda>(rec, limit, cursor, st). limit - cursor)") auto

declare parse_attributes.simps [simp del]

definition initial_attr_state :: attr_state where
  "initial_attr_state =
     \<lparr>best_name = None, data_size = None, at_modified = 0, at_created = 0, at_accessed = 0\<rparr>"

definition parse_record :: "bytes \<Rightarrow> raw_record option" where
  "parse_record rec =
     (if get_slice rec 0 4 \<noteq> Some FILE_MAGIC then None
      else (case read_u16 rec 0x16 of None \<Rightarrow> None | Some flags \<Rightarrow>
       (case read_u64 rec 0x20 of None \<Rightarrow> None | Some base_reference \<Rightarrow>
        (case read_u16 rec 0x14 of None \<Rightarrow> None | Some first_attribute \<Rightarrow>
         (case read_u32 rec 0x18 of None \<Rightarrow> None | Some used \<Rightarrow>
          (let limit = min (unat used) (length rec);
               index = reference_index base_reference in
           (case parse_attributes rec limit (unat first_attribute) initial_attr_state of
              None \<Rightarrow> None
            | Some st \<Rightarrow>
                Some \<lparr>in_use = (flags AND FLAG_IN_USE \<noteq> 0),
                      raw_is_directory = (flags AND FLAG_DIRECTORY \<noteq> 0),
                      base = (if index = 0 then None else Some index),
                      name = best_name st, data = data_size st,
                      raw_modified = at_modified st, raw_created = at_created st,
                      raw_accessed = at_accessed st\<rparr>)))))))"

section \<open>One block of records\<close>

text \<open>
  \<open>for start in (0..len).step_by(record_bytes)\<close> with the slice
  \<open>bytes[start..start + record_bytes]\<close>: a panic when the step is zero or the last slice runs
  past the end.
\<close>

definition block_records :: "nat \<Rightarrow> bytes \<Rightarrow> bytes list option" where
  "block_records rsize bs =
     (if rsize = 0 \<or> \<not> rsize dvd length bs then None
      else Some (map (\<lambda>k. take rsize (drop (k * rsize) bs)) [0..<length bs div rsize]))"

definition bump :: "(u64 \<Rightarrow> u64)" where
  "bump n = n + 1"

definition parsed_raw :: "u32 \<Rightarrow> raw_record \<Rightarrow> parsed \<Rightarrow> parsed" where
  "parsed_raw record_index raw p =
     (if \<not> in_use raw then p
      else (let p = p\<lparr>parsed_stats := (parsed_stats p)\<lparr>stat_in_use := bump (stat_in_use (parsed_stats p))\<rparr>\<rparr> in
       (case base raw of
          Some b \<Rightarrow>
            (let p = p\<lparr>parsed_stats := (parsed_stats p)\<lparr>extensions := bump (extensions (parsed_stats p))\<rparr>\<rparr> in
             (case data raw of
                Some rsize \<Rightarrow> p\<lparr>extension_sizes := extension_sizes p @ [(b, rsize)]\<rparr>
              | None \<Rightarrow> p))
        | None \<Rightarrow>
            (case name raw of
               Some (_, n, par) \<Rightarrow>
                 p\<lparr>parsed_entries := parsed_entries p @ [(record_index,
                   \<lparr>parent = par, ename = n, is_directory = raw_is_directory raw,
                    ebytes = (if raw_is_directory raw then 0 else unwrap_or 0 (data raw)),
                    modified = raw_modified raw, created = raw_created raw,
                    accessed = raw_accessed raw\<rparr>)]\<rparr>
             | None \<Rightarrow>
                 p\<lparr>parsed_stats := (parsed_stats p)\<lparr>nameless := bump (nameless (parsed_stats p))\<rparr>\<rparr>))))"

definition record_step :: "u64 \<Rightarrow> u32 \<Rightarrow> bytes \<Rightarrow> parsed \<Rightarrow> parsed" where
  "record_step sector_bytes record_index rec p =
     (let is_file_record = (get_slice rec 0 4 = Some FILE_MAGIC);
          p = (if is_file_record
               then p\<lparr>parsed_stats := (parsed_stats p)\<lparr>records_seen := bump (records_seen (parsed_stats p))\<rparr>\<rparr>
               else p)
      in (case apply_fixups rec sector_bytes of
            Some fixed \<Rightarrow>
              (case parse_record fixed of Some raw \<Rightarrow> parsed_raw record_index raw p | None \<Rightarrow> p)
          | None \<Rightarrow> if is_file_record then p\<lparr>parsed_skipped := bump (parsed_skipped p)\<rparr> else p))"

fun parse_records :: "u64 \<Rightarrow> u32 \<Rightarrow> bytes list \<Rightarrow> parsed \<Rightarrow> parsed" where
  "parse_records sector_bytes record_index [] p = p"
| "parse_records sector_bytes record_index (rec # recs) p =
     parse_records sector_bytes (saturating_add record_index 1) recs
       (record_step sector_bytes record_index rec p)"

definition parse_block :: "block \<Rightarrow> nat \<Rightarrow> u64 \<Rightarrow> parsed option" where
  "parse_block blk rsize sector_bytes =
     map_option (\<lambda>recs. parse_records sector_bytes (first_record blk) recs default_parsed)
       (block_records rsize (block_bytes blk))"

section \<open>The buffer pool\<close>

record buffer_pool =
  spare :: "bytes list"
  pool_limit :: nat

definition pool_new :: "nat \<Rightarrow> buffer_pool" where
  "pool_new limit = \<lparr>spare = [], pool_limit = limit\<rparr>"

text \<open>The spare buffers are a stack: \<open>pop\<close> takes the last one pushed. A buffer is cleared and
  resized, so it goes out as \<open>want\<close> zero bytes.\<close>

definition pool_take :: "buffer_pool \<Rightarrow> nat \<Rightarrow> bytes \<times> buffer_pool" where
  "pool_take pool want = (replicate want 0, pool\<lparr>spare := butlast (spare pool)\<rparr>)"

definition pool_give_back :: "buffer_pool \<Rightarrow> bytes \<Rightarrow> buffer_pool" where
  "pool_give_back pool buffer =
     (if length (spare pool) < pool_limit pool then pool\<lparr>spare := spare pool @ [buffer]\<rparr> else pool)"

section \<open>Reading the table\<close>

type_synonym volume = "u64 \<Rightarrow> nat \<Rightarrow> kam_error + bytes"

text \<open>\<open>volume.read_at(offset, &mut buffer)\<close>: at most as many bytes as the buffer holds.\<close>

definition read_at :: "volume \<Rightarrow> u64 \<Rightarrow> nat \<Rightarrow> kam_error + bytes" where
  "read_at vol offset want =
     (case vol offset want of Inl e \<Rightarrow> Inl e | Inr got \<Rightarrow> Inr (take want got))"

text \<open>The same into a zeroed buffer whose fill count is not looked at.\<close>

definition read_into :: "volume \<Rightarrow> u64 \<Rightarrow> nat \<Rightarrow> kam_error + bytes" where
  "read_into vol offset want =
     (case read_at vol offset want of
        Inl e \<Rightarrow> Inl e
      | Inr got \<Rightarrow> Inr (got @ replicate (want - length got) 0))"

text \<open>
  The loop \<open>while remaining > 0\<close> over one run: the buffers read, and the error that ended it.
\<close>

function read_run :: "volume \<Rightarrow> u64 \<Rightarrow> u64 \<Rightarrow> kam_error option \<times> bytes list" where
  "read_run vol offset remaining =
     (if remaining = 0 then (None, [])
      else (case read_at vol offset (min (unat remaining) CHUNK_BYTES) of
        Inl e \<Rightarrow> (Some e, [])
      | Inr buffer \<Rightarrow>
          if buffer = [] then (None, [])
          else (let n = word_of_nat (length buffer);
                    (e, rest) = read_run vol (offset + n) (remaining - n)
                in (e, buffer # rest))))"
  by pat_completeness auto
termination
proof (relation "measure (\<lambda>(vol, offset, remaining). unat remaining)", goal_cases)
  case 1
  then show ?case by simp
next
  case (2 vol offset remaining buffer n)
  have len: "length buffer \<le> unat remaining"
    using 2(2) by (auto simp: read_at_def split: sum.splits)
  have "0 < length buffer" using 2(3) by simp
  moreover have "unat (word_of_nat (length buffer) :: u64) = length buffer"
    using len unat_bound [of remaining] by (simp add: unat_of_nat)
  moreover have "unat (remaining - n) = unat remaining - length buffer"
    using calculation len 2(4) by (simp add: unat_sub word_le_nat_alt)
  ultimately have "unat (remaining - n) < unat remaining" using len by linarith
  then show ?case by simp
qed

declare read_run.simps [simp del]

fun read_all_runs :: "volume \<Rightarrow> u64 \<Rightarrow> run list \<Rightarrow> kam_error option \<times> bytes list" where
  "read_all_runs vol cluster [] = (None, [])"
| "read_all_runs vol cluster (r # rs) =
     (case read_run vol (start_cluster r * cluster) (clusters r * cluster) of
        (Some e, buffers) \<Rightarrow> (Some e, buffers)
      | (None, buffers) \<Rightarrow>
          (case read_all_runs vol cluster rs of (e, later) \<Rightarrow> (e, buffers @ later)))"

text \<open>The framing of the buffers into blocks of whole records.\<close>

record frame_state =
  carry :: bytes
  frame_index :: u32
  next_sequence :: nat
  sent :: "block list"

definition initial_frame :: frame_state where
  "initial_frame = \<lparr>carry = [], frame_index = 0, next_sequence = 0, sent = []\<rparr>"

definition frame_step :: "nat \<Rightarrow> bytes \<Rightarrow> frame_state \<Rightarrow> frame_state" where
  "frame_step rsize buffer st =
     (let buffer = carry st @ buffer;
          whole = length buffer div rsize
      in if whole = 0 then st\<lparr>carry := buffer\<rparr>
         else (let cut = whole * rsize in
           st\<lparr>carry := drop cut buffer,
              frame_index := saturating_add (frame_index st) (word_of_nat whole),
              next_sequence := next_sequence st + 1,
              sent := sent st @ [\<lparr>sequence = next_sequence st, first_record = frame_index st,
                                  block_bytes = take cut buffer\<rparr>]\<rparr>))"

fun frame_buffers :: "nat \<Rightarrow> bytes list \<Rightarrow> frame_state \<Rightarrow> frame_state" where
  "frame_buffers rsize [] st = st"
| "frame_buffers rsize (b # bs) st = frame_buffers rsize bs (frame_step rsize b st)"

section \<open>Merging what the parsers return\<close>

text \<open>\<open>HashMap::extend\<close>: a later pair replaces the value of an earlier one.\<close>

fun hash_extend :: "('k \<times> 'v) list \<Rightarrow> ('k \<times> 'v) list \<Rightarrow> ('k \<times> 'v) list" where
  "hash_extend m [] = m"
| "hash_extend m ((k, v) # kvs) = hash_extend (AList.update k v m) kvs"

record merged =
  merged_entries :: "(u32 \<times> mft_entry) list"
  merged_sizes :: "(u32 \<times> u64) list"
  merged_stats :: mft_stats
  merged_skipped :: u64

definition merge_one :: "merged \<Rightarrow> parsed \<Rightarrow> merged" where
  "merge_one m p =
     (let s = merged_stats m; t = parsed_stats p in
      m\<lparr>merged_entries := hash_extend (merged_entries m) (parsed_entries p),
        merged_sizes := hash_extend (merged_sizes m) (extension_sizes p),
        merged_skipped := merged_skipped m + parsed_skipped p,
        merged_stats := s\<lparr>records_seen := records_seen s + records_seen t,
                          stat_in_use := stat_in_use s + stat_in_use t,
                          nameless := nameless s + nameless t,
                          extensions := extensions s + extensions t\<rparr>\<rparr>)"

definition merge_blocks :: "(nat \<times> parsed) list \<Rightarrow> merged" where
  "merge_blocks blocks =
     foldl merge_one
       \<lparr>merged_entries = [], merged_sizes = [], merged_stats = default_stats, merged_skipped = 0\<rparr>
       (map snd (sort_key fst blocks))"

text \<open>The last pass: every file that came up empty takes the size its extension record holds.\<close>

fun fill_sizes ::
  "(u32 \<times> u64) list \<Rightarrow> (u32 \<times> mft_entry) list \<Rightarrow> mft_stats \<Rightarrow> (u32 \<times> mft_entry) list \<times> mft_stats" where
  "fill_sizes sizes [] st = ([], st)"
| "fill_sizes sizes ((index, entry) # rest) st =
     (let (entry, st) =
        (if is_directory entry \<or> ebytes entry \<noteq> 0 then (entry, st)
         else (case map_of sizes index of
                 Some n \<Rightarrow> (entry\<lparr>ebytes := n\<rparr>,
                           st\<lparr>sizes_from_extensions := bump (sizes_from_extensions st)\<rparr>)
               | None \<Rightarrow> (entry, st\<lparr>sizeless_files := bump (sizeless_files st)\<rparr>)));
          (rest, st) = fill_sizes sizes rest st
      in ((index, entry) # rest, st))"

definition snapshot_of :: "(nat \<times> parsed) list \<Rightarrow> u64 \<Rightarrow> u64 \<Rightarrow> mft_snapshot" where
  "snapshot_of blocks io_ms total_read =
     (let m = merge_blocks blocks;
          st = (merged_stats m)\<lparr>io_millis := io_ms, bytes_read := total_read\<rparr>;
          (es, st) = fill_sizes (merged_sizes m) (merged_entries m) st
      in \<lparr>entries = es, root = ucast ROOT_RECORD, skipped = merged_skipped m, stats = st\<rparr>)"

section \<open>The table's own record\<close>

function mft_runs_from :: "bytes \<Rightarrow> nat \<Rightarrow> nat \<Rightarrow> run list option" where
  "mft_runs_from rec limit cursor =
     (if limit < cursor + 8 then None
      else (case read_u32 rec cursor of None \<Rightarrow> None | Some attribute_type \<Rightarrow>
        if attribute_type = ATTR_END then None
        else (case read_u32 rec (cursor + 4) of None \<Rightarrow> None | Some length32 \<Rightarrow>
          if unat length32 < 8 \<or> limit < cursor + unat length32 then None
          else if attribute_type = ATTR_DATA then
            (case get_at rec (cursor + 0x08) of None \<Rightarrow> None | Some resident_flag \<Rightarrow>
              if resident_flag \<noteq> 0 then
                (case read_u16 rec (cursor + 0x20) of None \<Rightarrow> None | Some mapping_offset \<Rightarrow>
                  map_option parse_runs
                    (get_slice rec (cursor + unat mapping_offset) (cursor + unat length32)))
              else mft_runs_from rec limit (cursor + unat length32))
          else mft_runs_from rec limit (cursor + unat length32))))"
  by pat_completeness auto
termination
  by (relation "measure (\<lambda>(rec, limit, cursor). limit - cursor)") auto

declare mft_runs_from.simps [simp del]

definition mft_runs :: "bytes \<Rightarrow> kam_error + run list" where
  "mft_runs rec =
     (let malformed = Inl (Refused ''the $MFT record could not be parsed'') in
      (case read_u16 rec 0x14 of None \<Rightarrow> malformed | Some first_attribute \<Rightarrow>
       (case read_u32 rec 0x18 of None \<Rightarrow> malformed | Some used \<Rightarrow>
        (case mft_runs_from rec (min (unat used) (length rec)) (unat first_attribute) of
           None \<Rightarrow> malformed
         | Some runs \<Rightarrow> Inr runs))))"

text \<open>
  The whole read. \<open>schedule\<close> is the order in which the parser threads hand their blocks
  back: a permutation of the results. \<open>io_ms\<close> is the measured time. A parser that panicked
  would lose what it had parsed; \<open>framed_blocks_parse\<close> below shows that none does.
\<close>

definition parse_all :: "nat \<Rightarrow> u64 \<Rightarrow> block list \<Rightarrow> (nat \<times> parsed) list" where
  "parse_all rsize sector_bytes blocks =
     List.map_filter (\<lambda>b. map_option (Pair (sequence b)) (parse_block b rsize sector_bytes)) blocks"

definition mft_read ::
  "volume \<Rightarrow> ((nat \<times> parsed) list \<Rightarrow> (nat \<times> parsed) list) \<Rightarrow> u64 \<Rightarrow> kam_error + mft_snapshot" where
  "mft_read vol schedule io_ms =
     (case read_into vol 0 512 of Inl e \<Rightarrow> Inl e | Inr boot \<Rightarrow>
      (case parse_boot_sector boot of Inl e \<Rightarrow> Inl e | Inr g \<Rightarrow>
       (case read_into vol (mft_start_cluster g * bytes_per_cluster g) (unat (record_bytes g)) of
          Inl e \<Rightarrow> Inl e
        | Inr first \<Rightarrow>
        (case apply_fixups first (bytes_per_sector g) of
           None \<Rightarrow> Inl (Refused ''the $MFT record failed its fixup check'')
         | Some first \<Rightarrow>
         (case mft_runs first of Inl e \<Rightarrow> Inl e | Inr runs \<Rightarrow>
          if runs = [] then Inl (Refused ''the $MFT reported no data runs'')
          else (case read_all_runs vol (bytes_per_cluster g) runs of
             (Some e, _) \<Rightarrow> Inl e
           | (None, buffers) \<Rightarrow>
               (let blocks = sent (frame_buffers (unat (record_bytes g)) buffers initial_frame);
                    results = parse_all (unat (record_bytes g)) (bytes_per_sector g) blocks
                in Inr (snapshot_of (schedule results) io_ms
                          (word_of_nat (sum_list (map length buffers)))))))))))"

end
