(* ===== verification/Kam_Mft_Format.thy ===== *)
theory Kam_Mft_Format
  imports Kam_Mft
begin

text \<open>
  The on-disk formats the table reader decodes: mapping pairs against the encoding NTFS
  writes, the update-sequence fixups, and the choice of name and size in one record.
\<close>

unbundle bit_operations_syntax

section \<open>Integers assembled byte by byte\<close>

lemma le_nat_snoc: "le_nat (bs @ [b]) = le_nat bs + 256 ^ length bs * unat b"
  by (induction bs) (simp_all add: algebra_simps)

lemma bit_word_of_nat_bound:
  assumes "v < 2 ^ k" and "bit (word_of_nat v :: u64) i"
  shows "i < k"
proof (rule ccontr)
  assume "\<not> i < k"
  then have "v < 2 ^ i" using assms(1) by (meson less_le_trans not_le_imp_less nat_less_le one_le_numeral power_increasing)
  then have "\<not> bit v i" by (simp add: bit_iff_odd)
  with assms(2) show False by (simp add: bit_of_nat_iff)
qed

lemma or_push_bit_add:
  assumes "v < 2 ^ k"
  shows "(word_of_nat v :: u64) OR push_bit k w = word_of_nat v + push_bit k w"
proof -
  have "\<not> bit (word_of_nat v :: u64) i \<or> \<not> bit (push_bit k w) i" for i
    using bit_word_of_nat_bound [OF assms, of i] by (auto simp: bit_push_bit_iff)
  then have "(word_of_nat v :: u64) AND push_bit k w = 0" by (intro bit_eqI) (auto simp: bit_and_iff)
  then show ?thesis by (simp add: disjunctive_add_eq_or)
qed

lemma or_bytes_le_nat:
  "n \<le> 8 \<Longrightarrow> cursor + n \<le> length m \<Longrightarrow>
     or_bytes m cursor n = word_of_nat (le_nat (take n (drop cursor m)))"
proof (induction n)
  case 0
  then show ?case by (simp add: or_bytes_def)
next
  case (Suc n)
  let ?v = "le_nat (take n (drop cursor m))" and ?b = "m ! (cursor + n)"
  have tk: "take (Suc n) (drop cursor m) = take n (drop cursor m) @ [?b]"
    using Suc.prems by (simp add: take_Suc_conv_app_nth)
  have len: "length (take n (drop cursor m)) = n" using Suc.prems by simp
  have v: "?v < 2 ^ (8 * n)"
    using le_nat_bound [of "take n (drop cursor m)"] len by (simp add: power_mult)
  have sh: "shl64 (ucast ?b) (n * 8) = push_bit (8 * n) (ucast ?b)"
    using Suc.prems by (simp add: shl64_def mult.commute)
  have "or_bytes m cursor (Suc n) = or_bytes m cursor n OR shl64 (ucast ?b) (n * 8)"
    by (simp add: or_bytes_def)
  also have "\<dots> = word_of_nat ?v + push_bit (8 * n) (ucast ?b)"
    using Suc sh or_push_bit_add [OF v] by simp
  also have "push_bit (8 * n) (ucast ?b :: u64) = word_of_nat (256 ^ n * unat ?b)"
  proof -
    have "(ucast ?b :: u64) = word_of_nat (unat ?b)" by simp
    then show ?thesis by (simp add: push_bit_eq_mult power_mult)
  qed
  finally show ?case unfolding tk le_nat_snoc len by simp
qed

section \<open>Mapping pairs\<close>

text \<open>
  One mapping pair as NTFS writes it: the run's length in clusters in \<open>mp_len_bytes\<close> bytes,
  and its start as a signed distance from the previous run in \<open>mp_off_bytes\<close> bytes, none for
  a sparse run.
\<close>

record mapping_pair =
  mp_len_bytes :: nat
  mp_clusters :: nat
  mp_off_bytes :: nat
  mp_delta :: int

definition mp_wf :: "mapping_pair \<Rightarrow> bool" where
  "mp_wf p \<longleftrightarrow> 1 \<le> mp_len_bytes p \<and> mp_len_bytes p \<le> 8 \<and> mp_clusters p < 256 ^ mp_len_bytes p
     \<and> mp_off_bytes p \<le> 7
     \<and> (0 < mp_off_bytes p \<longrightarrow>
          - (2 ^ (8 * mp_off_bytes p - 1)) \<le> mp_delta p \<and> mp_delta p < 2 ^ (8 * mp_off_bytes p - 1))"

definition mp_encode :: "mapping_pair \<Rightarrow> bytes" where
  "mp_encode p =
     word_of_nat (mp_off_bytes p * 16 + mp_len_bytes p)
     # le_bytes (mp_len_bytes p) (mp_clusters p)
     @ le_bytes (mp_off_bytes p) (nat (mp_delta p mod 256 ^ mp_off_bytes p))"

text \<open>The runs the pairs describe, from the cluster the previous run started at.\<close>

fun runs_spec :: "i64 \<Rightarrow> mapping_pair list \<Rightarrow> run list" where
  "runs_spec lcn [] = []"
| "runs_spec lcn (p # ps) =
     (if mp_off_bytes p = 0 then runs_spec lcn ps
      else (let lcn' = lcn + word_of_int (mp_delta p) in
        (if 0 \<le> sint lcn' \<and> 0 < mp_clusters p
         then [\<lparr>start_cluster = lcn', clusters = word_of_nat (mp_clusters p)\<rparr>] else [])
        @ runs_spec lcn' ps))"

lemma header_nibbles:
  assumes "l \<le> 15" and "h \<le> 15"
  shows "unat ((word_of_nat (h * 16 + l) :: u8) AND 0x0F) = l"
    and "unat (drop_bit 4 (word_of_nat (h * 16 + l) :: u8)) = h"
proof -
  have u: "unat (word_of_nat (h * 16 + l) :: u8) = h * 16 + l"
    using assms by (simp add: unat_of_nat del: of_nat_add of_nat_mult)
  have "unat ((word_of_nat (h * 16 + l) :: u8) AND 0x0F) = (h * 16 + l) AND mask 4"
    by (simp only: unsigned_and_eq u) (simp add: mask_eq_exp_minus_1)
  also have "\<dots> = (h * 16 + l) mod 16" by (simp only: take_bit_eq_mask [symmetric] take_bit_eq_mod) simp
  finally show "unat ((word_of_nat (h * 16 + l) :: u8) AND 0x0F) = l" using assms by simp
  show "unat (drop_bit 4 (word_of_nat (h * 16 + l) :: u8)) = h"
    by (simp only: unsigned_drop_bit_eq u) (use assms in \<open>simp add: drop_bit_eq_div take_bit_eq_mod\<close>)
qed

lemma signed_offset_value:
  assumes "1 \<le> n" and "n \<le> 7" and "cursor + n \<le> length m"
    and "take n (drop cursor m) = le_bytes n (nat (d mod 256 ^ n))"
    and "- (2 ^ (8 * n - 1)) \<le> d" and "d < 2 ^ (8 * n - 1)"
  shows "signed_offset m cursor n = word_of_int d"
proof -
  let ?M = "(2 :: int) ^ (8 * n)" and ?H = "(2 :: int) ^ (8 * n - 1)"
  let ?v = "nat (d mod ?M)"
  have M: "(256 :: int) ^ n = ?M" and Mn: "(256 :: nat) ^ n = 2 ^ (8 * n)" by (simp_all add: power_mult)
  have MH: "?M = 2 * ?H" using assms(1) by (simp flip: power_Suc)
  have vlt: "?v < 2 ^ (8 * n)"
    using pos_mod_bound [of ?M d] by (simp add: nat_less_iff)
  have off: "or_bytes m cursor n = word_of_nat ?v"
    using or_bytes_le_nat [of n cursor m] assms(2-4) vlt by (simp add: le_nat_le_bytes M Mn)
  have sign: "shl64 1 (n * 8 - 1) = push_bit (8 * n - 1) 1"
    using assms(2) by (simp add: shl64_def mult.commute)
  have top: "shl64 1 (n * 8) = word_of_int ?M"
    using assms(2) by (simp add: shl64_def mult.commute push_bit_eq_mult)
  have bitv: "(word_of_nat ?v :: u64) AND push_bit (8 * n - 1) 1 \<noteq> 0 \<longleftrightarrow> ?H \<le> d mod ?M"
  proof -
    have lt: "8 * n - 1 < 64" using assms(2) by simp
    have "(word_of_nat ?v :: u64) AND push_bit (8 * n - 1) 1 \<noteq> 0 \<longleftrightarrow> bit (word_of_nat ?v :: u64) (8 * n - 1)"
      using lt by (simp add: and_exp_eq_0_iff_not_bit push_bit_of_1)
    also have "\<dots> \<longleftrightarrow> bit ?v (8 * n - 1)"
      using lt by (simp only: bit_of_nat_iff possible_bit_word) simp
    also have "\<dots> \<longleftrightarrow> odd (?v div 2 ^ (8 * n - 1))" by (simp add: bit_iff_odd)
    also have "\<dots> \<longleftrightarrow> 2 ^ (8 * n - 1) \<le> ?v"
    proof -
      have "?v < 2 * 2 ^ (8 * n - 1)" using vlt assms(1) by (simp flip: power_Suc)
      then have "?v div 2 ^ (8 * n - 1) < 2" by (simp add: div_less_iff_less_mult)
      then have "odd (?v div 2 ^ (8 * n - 1)) \<longleftrightarrow> ?v div 2 ^ (8 * n - 1) \<noteq> 0" by (auto simp: less_2_cases_iff)
      also have "\<dots> \<longleftrightarrow> 2 ^ (8 * n - 1) \<le> ?v" by (auto simp: div_eq_0_iff not_less)
      finally show ?thesis .
    qed
    also have "\<dots> \<longleftrightarrow> ?H \<le> d mod ?M" by (simp add: le_nat_iff)
    finally show ?thesis .
  qed
  have eq: "signed_offset m cursor n
      = (if ?H \<le> d mod ?M then word_of_int (d mod ?M) - word_of_int ?M else word_of_int (d mod ?M))"
  proof -
    have "(word_of_nat ?v :: u64) = word_of_int (d mod ?M)" by simp
    then show ?thesis unfolding signed_offset_def Let_def off sign top bitv by simp
  qed
  show ?thesis
  proof (cases "0 \<le> d")
    case True
    then have "d mod ?M = d" using assms(6) MH by (intro mod_pos_pos_trivial) simp_all
    then show ?thesis using assms(6) unfolding eq by simp
  next
    case False
    have "(d + ?M) mod ?M = d + ?M"
      using False assms(5) MH by (intro mod_pos_pos_trivial) simp_all
    then have "d mod ?M = d + ?M" by simp
    then show ?thesis using assms(5) MH unfolding eq by simp
  qed
qed

lemma parse_runs_from_pair:
  assumes wf: "mp_wf p" and m: "drop cursor m = mp_encode p @ rest"
  shows "parse_runs_from m cursor lcn =
     (if mp_off_bytes p = 0 then parse_runs_from m (cursor + length (mp_encode p)) lcn
      else (let lcn' = lcn + word_of_int (mp_delta p) in
        (if 0 \<le> sint lcn' \<and> 0 < mp_clusters p
         then [\<lparr>start_cluster = lcn', clusters = word_of_nat (mp_clusters p)\<rparr>] else [])
        @ parse_runs_from m (cursor + length (mp_encode p)) lcn'))"
proof -
  let ?l = "mp_len_bytes p" and ?o = "mp_off_bytes p" and ?c = "mp_clusters p"
  let ?off = "le_bytes ?o (nat (mp_delta p mod 256 ^ ?o))"
  have b: "1 \<le> ?l" "?l \<le> 8" "?c < 256 ^ ?l" "?o \<le> 7" using wf by (auto simp: mp_wf_def)
  have len: "length (mp_encode p) = 1 + ?l + ?o" by (simp add: mp_encode_def)
  have "0 < length (drop cursor m)" unfolding m using len by simp
  then have cur: "cursor < length m" by simp
  have total: "cursor + 1 + ?l + ?o \<le> length m"
    using arg_cong [OF m, of length] len cur by simp
  have "m ! cursor = hd (drop cursor m)" using cur by (simp add: hd_drop_conv_nth)
  then have hd: "m ! cursor = word_of_nat (?o * 16 + ?l)" unfolding m by (simp add: mp_encode_def)
  have "drop (cursor + 1) m = tl (drop cursor m)" by (simp add: drop_Suc tl_drop)
  then have d1: "drop (cursor + 1) m = le_bytes ?l ?c @ ?off @ rest"
    unfolding m by (simp add: mp_encode_def)
  have d2: "drop (cursor + 1 + ?l) m = ?off @ rest"
    using arg_cong [OF d1, of "drop ?l"] by (simp add: add.commute)
  have nib: "unat (m ! cursor AND 0x0F) = ?l" "unat (drop_bit 4 (m ! cursor)) = ?o"
    unfolding hd using b by (simp_all only: header_nibbles)
  have nz: "m ! cursor \<noteq> 0" using nib(1) b(1) by force
  have cl: "or_bytes m (cursor + 1) ?l = word_of_nat ?c"
    using or_bytes_le_nat [of ?l "cursor + 1" m] b total unfolding d1 by (simp add: le_nat_le_bytes)
  have pos: "0 < (word_of_nat ?c :: u64) \<longleftrightarrow> 0 < ?c"
  proof -
    have "(256 :: nat) ^ ?l \<le> 256 ^ 8" using b(2) by (intro power_increasing) simp_all
    then have "?c < 2 ^ 64" using b(3) by simp
    then have "unat (word_of_nat ?c :: u64) = ?c" by (simp add: unat_of_nat)
    then show ?thesis by (simp add: word_less_nat_alt)
  qed
  have so: "signed_offset m (cursor + 1 + ?l) ?o = word_of_int (mp_delta p)" if "?o \<noteq> 0"
  proof (rule signed_offset_value)
    show "take ?o (drop (cursor + 1 + ?l) m) = ?off" unfolding d2 by simp
  qed (use that b wf total in \<open>auto simp: mp_wf_def\<close>)
  show ?thesis
    unfolding parse_runs_from.simps [of m cursor lcn] Let_def nib
    using cur nz b(1) total cl so pos by (simp add: len add.assoc)
qed

lemma parse_runs_from_stop:
  "drop cursor m = [] \<or> (\<exists>rest. drop cursor m = 0 # rest) \<Longrightarrow> parse_runs_from m cursor lcn = []"
  by (subst parse_runs_from.simps) (auto simp: Let_def nth_via_drop)

lemma parse_runs_from_encode:
  assumes "list_all mp_wf ps" and "drop cursor m = concat (map mp_encode ps) @ rest"
    and "rest = [] \<or> hd rest = 0"
  shows "parse_runs_from m cursor lcn = runs_spec lcn ps"
  using assms(1,2)
proof (induction ps arbitrary: cursor lcn)
  case Nil
  then show ?case using assms(3) parse_runs_from_stop [of cursor m lcn] by (cases rest) auto
next
  case (Cons p ps)
  have wf: "mp_wf p" and m: "drop cursor m = mp_encode p @ concat (map mp_encode ps) @ rest"
    using Cons.prems by simp_all
  have "drop (cursor + length (mp_encode p)) m = concat (map mp_encode ps) @ rest"
    using arg_cong [OF m, of "drop (length (mp_encode p))"] by (simp add: add.commute)
  then have "\<And>l. parse_runs_from m (cursor + length (mp_encode p)) l = runs_spec l ps"
    using Cons by simp
  then show ?case using parse_runs_from_pair [OF wf m, of lcn] by (simp add: Let_def)
qed

section \<open>Fixups\<close>

lemma read_u16_write_same:
  "t + 2 \<le> length rec \<Longrightarrow> read_u16 (write_at rec t (to_le 2 v)) t = Some v"
  using le16.read_after_write [of t rec v] by (simp add: read_u16_def)

lemma read_u16_write_other:
  "t + 2 \<le> length rec \<Longrightarrow> j + 2 \<le> t \<or> t + 2 \<le> j \<Longrightarrow>
     read_u16 (write_at rec t (to_le 2 v)) j = read_u16 rec j"
  using get_slice_write_before [of t "to_le 2 v" rec "j + 2" j]
    get_slice_write_after [of t "to_le 2 v" rec j "j + 2"]
  by (auto simp: read_u16_def)

lemma nth_write_other:
  assumes "t + 2 \<le> length rec" and "i \<noteq> t" and "i \<noteq> Suc t" and "i < length rec"
  shows "write_at rec t (to_le 2 v) ! i = rec ! i"
proof (cases "i < t")
  case True
  then show ?thesis using assms by (simp add: write_at_def nth_append)
next
  case False
  then obtain k where "i = t + 2 + k" using assms(2,3) le_Suc_ex [of "t + 2" i] by force
  then show ?thesis using assms by (simp add: write_at_def nth_append min_def)
qed

text \<open>Where sector \<open>s\<close> keeps the two bytes the sequence number replaced.\<close>

definition sector_tail :: "nat \<Rightarrow> nat \<Rightarrow> nat" where
  "sector_tail sector_size s = (s + 1) * sector_size - 2"

lemma sector_tails_apart:
  assumes "2 \<le> ss" and "s \<noteq> s'"
  shows "sector_tail ss s + 2 \<le> sector_tail ss s' \<or> sector_tail ss s' + 2 \<le> sector_tail ss s"
proof -
  have "sector_tail ss a + 2 \<le> sector_tail ss b" if "a < b" for a b
  proof -
    have "(a + 2) * ss \<le> (b + 1) * ss" using that by (intro mult_le_mono1) simp
    then show ?thesis using assms(1) by (simp add: sector_tail_def algebra_simps)
  qed
  with assms(2) show ?thesis by (meson linorder_neqE_nat)
qed

lemma fixup_sectors_Cons:
  assumes "fixup_sectors off sig ss (k # ks) rec = Some out"
  obtains r where "sector_tail ss k + 2 \<le> length rec" "(k + 1) * ss \<le> length rec" "2 \<le> (k + 1) * ss"
    "read_u16 rec (sector_tail ss k) = Some sig"
    "read_u16 rec (off + 2 + k * 2) = Some r"
    "fixup_sectors off sig ss ks (write_at rec (sector_tail ss k) (to_le 2 r)) = Some out"
  using assms
  by (auto simp: Let_def sector_tail_def not_less split: if_splits option.splits)

lemma fixup_sectors_length:
  "fixup_sectors off sig ss ks rec = Some out \<Longrightarrow> length out = length rec"
proof (induction ks arbitrary: rec)
  case (Cons k ks)
  from Cons.prems show ?case
    by (rule fixup_sectors_Cons) (auto dest!: Cons.IH)
qed simp

lemma fixup_sectors_frame:
  "fixup_sectors off sig ss ks rec = Some out \<Longrightarrow> i < length rec \<Longrightarrow>
     \<forall>s \<in> set ks. i \<noteq> sector_tail ss s \<and> i \<noteq> Suc (sector_tail ss s) \<Longrightarrow> out ! i = rec ! i"
proof (induction ks arbitrary: rec)
  case (Cons k ks)
  from Cons.prems(1) show ?case
  proof (rule fixup_sectors_Cons)
    fix r
    assume t: "sector_tail ss k + 2 \<le> length rec"
      and rest: "fixup_sectors off sig ss ks (write_at rec (sector_tail ss k) (to_le 2 r)) = Some out"
    from Cons.IH [OF rest] t Cons.prems(2,3) show "out ! i = rec ! i"
      by (simp add: nth_write_other)
  qed
qed simp

lemma fixup_sectors_read_other:
  "fixup_sectors off sig ss ks rec = Some out \<Longrightarrow>
     \<forall>s \<in> set ks. j + 2 \<le> sector_tail ss s \<or> sector_tail ss s + 2 \<le> j \<Longrightarrow>
     read_u16 out j = read_u16 rec j"
proof (induction ks arbitrary: rec)
  case (Cons k ks)
  from Cons.prems(1) show ?case
  proof (rule fixup_sectors_Cons)
    fix r
    assume t: "sector_tail ss k + 2 \<le> length rec"
      and rest: "fixup_sectors off sig ss ks (write_at rec (sector_tail ss k) (to_le 2 r)) = Some out"
    from Cons.IH [OF rest] t Cons.prems(2) show "read_u16 out j = read_u16 rec j"
      by (simp add: read_u16_write_other)
  qed
qed simp

lemma fixup_sectors_signature:
  "2 \<le> ss \<Longrightarrow> fixup_sectors off sig ss ks rec = Some out \<Longrightarrow> distinct ks \<Longrightarrow> s \<in> set ks \<Longrightarrow>
     (s + 1) * ss \<le> length rec \<and> read_u16 rec (sector_tail ss s) = Some sig"
proof (induction ks arbitrary: rec)
  case (Cons k ks)
  from Cons.prems(2) show ?case
  proof (rule fixup_sectors_Cons)
    fix r
    assume t: "sector_tail ss k + 2 \<le> length rec" "(k + 1) * ss \<le> length rec"
      "read_u16 rec (sector_tail ss k) = Some sig"
      and rest: "fixup_sectors off sig ss ks (write_at rec (sector_tail ss k) (to_le 2 r)) = Some out"
    show ?thesis
    proof (cases "s = k")
      case False
      then have "s \<in> set ks" "sector_tail ss s + 2 \<le> sector_tail ss k \<or> sector_tail ss k + 2 \<le> sector_tail ss s"
        using Cons.prems sector_tails_apart [of ss s k] by auto
      with Cons.IH [OF Cons.prems(1) rest] t Cons.prems(3) show ?thesis
        by (simp add: read_u16_write_other)
    qed (use t in simp)
  qed
qed simp

lemma fixup_sectors_restored:
  "2 \<le> ss \<Longrightarrow> fixup_sectors off sig ss ks rec = Some out \<Longrightarrow> distinct ks \<Longrightarrow> s \<in> set ks \<Longrightarrow>
     \<forall>k \<in> set ks. off + 2 + s * 2 + 2 \<le> sector_tail ss k \<Longrightarrow>
     read_u16 out (sector_tail ss s) = read_u16 rec (off + 2 + s * 2)"
proof (induction ks arbitrary: rec)
  case (Cons k ks)
  from Cons.prems(2) show ?case
  proof (rule fixup_sectors_Cons)
    fix r
    assume t: "sector_tail ss k + 2 \<le> length rec" and r: "read_u16 rec (off + 2 + k * 2) = Some r"
      and rest: "fixup_sectors off sig ss ks (write_at rec (sector_tail ss k) (to_le 2 r)) = Some out"
    show ?thesis
    proof (cases "s = k")
      case True
      have "read_u16 out (sector_tail ss k) = read_u16 (write_at rec (sector_tail ss k) (to_le 2 r)) (sector_tail ss k)"
      proof (rule fixup_sectors_read_other [OF rest], intro ballI)
        fix l
        assume "l \<in> set ks"
        then have "k \<noteq> l" using Cons.prems(3) by auto
        then show "sector_tail ss k + 2 \<le> sector_tail ss l \<or> sector_tail ss l + 2 \<le> sector_tail ss k"
          by (rule sector_tails_apart [OF Cons.prems(1)])
      qed
      with t r True show ?thesis by (simp add: read_u16_write_same)
    next
      case False
      with Cons.IH [OF Cons.prems(1) rest] Cons.prems(3-5) t show ?thesis
        by (simp add: read_u16_write_other)
    qed
  qed
qed simp

lemma fixup_sectors_size:
  "fixup_sectors off sig ss [0..<n] rec = Some out \<Longrightarrow> 0 < n \<Longrightarrow> 2 \<le> ss"
  by (auto simp: upt_conv_Cons Let_def split: if_splits)

lemma apply_fixups_sectors:
  assumes "read_u16 rec 4 = Some off" and "read_u16 rec 6 = Some cnt" and "read_u16 rec (unat off) = Some sig"
  shows "apply_fixups rec sb =
    (if cnt = 0 then None else fixup_sectors (unat off) sig (unat sb) [0..<unat cnt - 1] rec)"
  using assms by (simp add: apply_fixups_def)

section \<open>Names and sizes of one record\<close>

text \<open>
  The attributes of a record as a list: type, whether non-resident, and where it starts. The
  walk stops where the reader stops.
\<close>

function attr_walk :: "bytes \<Rightarrow> nat \<Rightarrow> nat \<Rightarrow> (u32 \<times> bool \<times> nat) list" where
  "attr_walk rec limit cursor =
     (if limit < cursor + 8 then []
      else (case (read_u32 rec cursor, read_u32 rec (cursor + 4), get_at rec (cursor + 8)) of
        (Some ty, Some len, Some flag) \<Rightarrow>
          if ty = ATTR_END \<or> unat len < 8 \<or> limit < cursor + unat len then []
          else (ty, flag \<noteq> 0, cursor) # attr_walk rec limit (cursor + unat len)
      | _ \<Rightarrow> []))"
  by pat_completeness auto
termination
  by (relation "measure (\<lambda>(rec, limit, cursor). limit - cursor)") auto

declare attr_walk.simps [simp del]

definition record_attributes :: "bytes \<Rightarrow> (u32 \<times> bool \<times> nat) list" where
  "record_attributes rec =
     attr_walk rec (min (unat (unwrap_or 0 (read_u32 rec 0x18))) (length rec))
       (unat (unwrap_or 0 (read_u16 rec 0x14)))"

text \<open>The name a resident \<open>$FILE_NAME\<close> attribute holds, with its namespace and parent.\<close>

definition name_at :: "bytes \<Rightarrow> u32 \<times> bool \<times> nat \<Rightarrow> (u8 \<times> str \<times> u32) option" where
  "name_at rec a = (case a of (ty, non_resident, cursor) \<Rightarrow>
     if ty = ATTR_FILE_NAME \<and> \<not> non_resident
     then (case file_name_attribute rec cursor initial_attr_state of
             None \<Rightarrow> None | Some st \<Rightarrow> best_name st)
     else None)"

text \<open>The size an unnamed \<open>$DATA\<close> attribute knows: resident, or the fragment at cluster 0.\<close>

definition size_at :: "bytes \<Rightarrow> u32 \<times> bool \<times> nat \<Rightarrow> u64 option" where
  "size_at rec a = (case a of (ty, non_resident, cursor) \<Rightarrow>
     if ty = ATTR_DATA \<and> get_at rec (cursor + 0x09) = Some 0
     then (if non_resident
           then (if read_u64 rec (cursor + 0x10) = Some 0 then read_u64 rec (cursor + 0x30) else None)
           else map_option ucast (read_u32 rec (cursor + 0x10)))
     else None)"

definition first_of :: "'a list \<Rightarrow> 'a option" where
  "first_of xs = (case xs of [] \<Rightarrow> None | x # _ \<Rightarrow> Some x)"

definition preferred_name :: "(u8 \<times> str \<times> u32) list \<Rightarrow> (u8 \<times> str \<times> u32) option" where
  "preferred_name names =
     (case find (\<lambda>n. fst n \<noteq> NAMESPACE_DOS) names of Some n \<Rightarrow> Some n | None \<Rightarrow> first_of names)"

fun run_attrs :: "bytes \<Rightarrow> (u32 \<times> bool \<times> nat) list \<Rightarrow> attr_state \<Rightarrow> attr_state option" where
  "run_attrs rec [] st = Some st"
| "run_attrs rec ((ty, nr, c) # as) st =
     (case attribute_step rec c ty nr st of None \<Rightarrow> None | Some st' \<Rightarrow> run_attrs rec as st')"

lemma parse_attributes_run:
  "parse_attributes rec limit cursor st = Some st' \<Longrightarrow>
     run_attrs rec (attr_walk rec limit cursor) st = Some st'"
proof (induction rec limit cursor st rule: parse_attributes.induct)
  case (1 rec limit cursor st)
  show ?case
  proof (cases "limit < cursor + 8")
    case True
    with "1.prems" show ?thesis
      by (simp add: attr_walk.simps [of rec limit cursor] parse_attributes.simps [of rec limit cursor])
  next
    case False
    with "1.prems" "1.IH" show ?thesis
      by (auto simp: attr_walk.simps [of rec limit cursor] parse_attributes.simps [of rec limit cursor]
          split: option.splits if_splits)
  qed
qed

lemma attribute_step_name:
  assumes "attribute_step rec c ty nr st = Some st'"
  shows "best_name st' = (case name_at rec (ty, nr, c) of
     None \<Rightarrow> best_name st
   | Some n \<Rightarrow> if better_name (best_name st) (fst n) then Some n else best_name st)"
  using assms
  by (auto simp: attribute_step_def name_at_def standard_information_def file_name_attribute_def
      data_attribute_def Let_def initial_attr_state_def better_name_def
      split: if_splits option.splits)

lemma attribute_step_size:
  assumes "attribute_step rec c ty nr st = Some st'"
  shows "data_size st' = (case data_size st of None \<Rightarrow> size_at rec (ty, nr, c) | Some v \<Rightarrow> Some v)"
  using assms
  by (auto simp: attribute_step_def size_at_def standard_information_def file_name_attribute_def
      data_attribute_def Let_def split: if_splits option.splits)

lemma run_attrs_size:
  "run_attrs rec as st = Some st' \<Longrightarrow>
     data_size st' = (case data_size st of None \<Rightarrow> first_of (List.map_filter (size_at rec) as) | Some v \<Rightarrow> Some v)"
proof (induction rec as st rule: run_attrs.induct)
  case (2 rec ty nr c as st)
  then obtain s1 where s1: "attribute_step rec c ty nr st = Some s1" "run_attrs rec as s1 = Some st'"
    by (auto split: option.splits)
  from "2.IH" [OF s1] attribute_step_size [OF s1(1)] show ?case
    by (cases "data_size st"; cases "size_at rec (ty, nr, c)") (simp_all add: map_filter_simps first_of_def)
qed (simp add: map_filter_simps first_of_def split: option.split)

lemma run_attrs_name:
  "run_attrs rec as st = Some st' \<Longrightarrow>
     best_name st' = preferred_name ((case best_name st of None \<Rightarrow> [] | Some n \<Rightarrow> [n]) @ List.map_filter (name_at rec) as)"
proof (induction rec as st rule: run_attrs.induct)
  case (1 rec st)
  then show ?case
    by (cases "best_name st") (auto simp: map_filter_simps preferred_name_def first_of_def)
next
  case (2 rec ty nr c as st)
  then obtain s1 where s1: "attribute_step rec c ty nr st = Some s1" "run_attrs rec as s1 = Some st'"
    by (auto split: option.splits)
  let ?names = "List.map_filter (name_at rec) as"
  have drop_held: "preferred_name (n # m # ns) = preferred_name ((if better_name (Some n) (fst m) then m else n) # ns)" for n m ns
    by (cases n) (auto simp: preferred_name_def better_name_def first_of_def split: option.splits)
  from "2.IH" [OF s1] attribute_step_name [OF s1(1)] show ?case
    by (cases "best_name st"; cases "name_at rec (ty, nr, c)")
       (simp_all add: map_filter_simps drop_held better_name_def)
qed

section \<open>Samples\<close>

text \<open>A record of two sixteen-byte sectors protected by the sequence number \<open>0xBEEF\<close>, before and
  after its fixups are undone.\<close>

definition fixup_sample :: bytes where
  "fixup_sample =
     [0x46, 0x49, 0x4C, 0x45, 8, 0, 3, 0, 0xEF, 0xBE, 0x11, 0x11, 0x22, 0x22, 0xEF, 0xBE]
     @ replicate 14 7 @ [0xEF, 0xBE]"

definition fixup_sample_out :: bytes where
  "fixup_sample_out =
     [0x46, 0x49, 0x4C, 0x45, 8, 0, 3, 0, 0xEF, 0xBE, 0x11, 0x11, 0x22, 0x22, 0x11, 0x11]
     @ replicate 14 7 @ [0x22, 0x22]"

text \<open>A record with a DOS name, a Win32 name, a fragment of \<open>$DATA\<close> past cluster 0 and a
  resident \<open>$DATA\<close> of 42 bytes.\<close>

definition name_attr_sample :: "u8 \<Rightarrow> u16 list \<Rightarrow> bytes" where
  "name_attr_sample ns units =
     [0x30, 0, 0, 0, 0x68, 0, 0, 0, 0] @ replicate 11 0 @ [0x18, 0, 0, 0]
     @ [5, 0, 0, 0, 0, 0, 1, 0] @ replicate 56 0
     @ [word_of_nat (length units), ns] @ concat (map (to_le 2) units)
     @ replicate (14 - 2 * length units) 0"

definition record_sample :: bytes where
  "record_sample =
     [0x46, 0x49, 0x4C, 0x45] @ replicate 16 0 @ [0x30, 0, 1, 0] @ [0x78, 1, 0, 0]
     @ replicate 20 0
     @ name_attr_sample 2 [0x4C, 0x7E] @ name_attr_sample 1 [0x6C, 0x6F, 0x6E, 0x67]
     @ [0x80, 0, 0, 0, 0x40, 0, 0, 0, 1, 0] @ replicate 6 0 @ [9, 0, 0, 0, 0, 0, 0, 0] @ replicate 40 0
     @ [0x80, 0, 0, 0, 0x18, 0, 0, 0, 0, 0] @ replicate 6 0 @ [0x2A, 0, 0, 0, 0, 0, 0, 0]
     @ [0xFF, 0xFF, 0xFF, 0xFF, 0, 0, 0, 0]"

lemmas read_eval = byte_eval read_u16_def read_u32_def read_u64_def
  fixup_sample_def fixup_sample_out_def record_sample_def name_attr_sample_def

lemma record_sample_attributes:
  "record_attributes record_sample =
     [(0x30, False, 0x30), (0x30, False, 0x98), (0x80, True, 0x100), (0x80, False, 0x140)]"
  by (simp add: read_eval record_attributes_def attr_walk.simps)

lemma record_sample_sizes:
  "List.map_filter (size_at record_sample) (record_attributes record_sample) = [0x2A]"
  unfolding record_sample_attributes by (simp add: read_eval size_at_def map_filter_simps)

lemma record_sample_names:
  "List.map_filter (name_at record_sample) (record_attributes record_sample)
     = [(2, ''L~'', 5), (1, ''long'', 5)]"
  unfolding record_sample_attributes
  by (simp add: read_eval name_at_def map_filter_simps file_name_attribute_def initial_attr_state_def
      better_name_def upt_rec reference_index_def from_utf16_lossy_def utf8_of_def
      is_low_surrogate_def is_high_surrogate_def char_of_eq_iff)

lemma record_sample_parses: "parse_record record_sample \<noteq> None"
  by (simp add: read_eval parse_record_def FILE_MAGIC_def parse_attributes.simps attribute_step_def
      file_name_attribute_def data_attribute_def initial_attr_state_def better_name_def upt_rec
      map_filter_simps Let_def)

definition boot_sample :: bytes where
  "boot_sample =
     [0xEB, 0x52, 0x90] @ NTFS_MAGIC @ [0, 2, 8] @ replicate 34 0
     @ [0, 0, 0x0C, 0, 0, 0, 0, 0] @ replicate 8 0 @ [0xF6] @ replicate 447 0"

definition boot_sample_geometry :: geometry where
  "boot_sample_geometry =
     \<lparr>bytes_per_sector = 512, bytes_per_cluster = 4096, record_bytes = 1024, mft_start_cluster = 786432\<rparr>"

section \<open>Properties\<close>

text \<open>\<open>parse_runs\<close> decodes the mapping pairs NTFS writes. For every list of pairs whose
  lengths take one to eight bytes and whose signed distances take at most seven, the bytes of
  the pairs followed by the terminator come back as exactly the runs they describe: distances
  are relative and may be negative, and sparse runs move nothing and produce nothing.\<close>

theorem parse_runs_decodes:
  assumes "list_all mp_wf ps"
  shows "parse_runs (concat (map mp_encode ps) @ 0 # rest) = runs_spec 0 ps"
  using parse_runs_from_encode [OF assms, of 0 _ "0 # rest"] by (simp add: parse_runs_def)

theorem parse_runs_decodes_witness:
  "parse_runs [0x21, 0x18, 0x33, 0x02, 0x01, 0x05, 0x11, 0x08, 0xF0, 0x00] =
     [\<lparr>start_cluster = 0x233, clusters = 0x18\<rparr>, \<lparr>start_cluster = 0x223, clusters = 0x08\<rparr>]"
proof -
  let ?ps = "[\<lparr>mp_len_bytes = 1, mp_clusters = 0x18, mp_off_bytes = 2, mp_delta = 0x233\<rparr>,
              \<lparr>mp_len_bytes = 1, mp_clusters = 5, mp_off_bytes = 0, mp_delta = 0\<rparr>,
              \<lparr>mp_len_bytes = 1, mp_clusters = 8, mp_off_bytes = 1, mp_delta = - 16\<rparr>]"
  have wf: "list_all mp_wf ?ps" by (simp add: mp_wf_def)
  have enc: "concat (map mp_encode ?ps) @ [0] =
      [0x21, 0x18, 0x33, 0x02, 0x01, 0x05, 0x11, 0x08, 0xF0, 0x00]"
    by (simp add: mp_encode_def numeral_2_eq_2)
  have spec: "runs_spec 0 ?ps =
      [\<lparr>start_cluster = 0x233, clusters = 0x18\<rparr>, \<lparr>start_cluster = 0x223, clusters = 0x08\<rparr>]"
    by (simp add: Let_def)
  show ?thesis using parse_runs_decodes [OF wf, of "[]"] unfolding enc spec .
qed

text \<open>An eight-byte distance is misread when it is negative. The code subtracts
  \<open>1 << 64\<close>, which a release build computes as \<open>1 << 0\<close>, so the run starts one cluster
  before the place the mapping pair names.\<close>

theorem signed_offset_eight_bytes:
  assumes "cursor + 8 \<le> length m" and "2 ^ 63 \<le> le_nat (take 8 (drop cursor m))"
  shows "signed_offset m cursor 8 = word_of_nat (le_nat (take 8 (drop cursor m))) - 1"
proof -
  let ?v = "le_nat (take 8 (drop cursor m))"
  have v: "?v < 2 ^ 64" using le_nat_bound [of "take 8 (drop cursor m)"] assms(1) by simp
  have off: "or_bytes m cursor 8 = word_of_nat ?v" using assms(1) by (simp add: or_bytes_le_nat)
  have "odd (?v div 2 ^ 63)"
  proof -
    have "?v div 2 ^ 63 < 2" using v by (simp add: div_less_iff_less_mult)
    moreover have "?v div 2 ^ 63 \<noteq> 0" using assms(2) by (auto simp: div_eq_0_iff)
    ultimately show ?thesis by (auto simp: less_2_cases_iff)
  qed
  then have "bit ?v 63" by (simp only: bit_iff_odd not_False_eq_True)
  then have "bit (word_of_nat ?v :: u64) 63" by (simp only: bit_of_nat_iff possible_bit_word) simp
  then have sign: "(word_of_nat ?v :: u64) AND shl64 1 (8 * 8 - 1) \<noteq> 0"
    using and_exp_eq_0_iff_not_bit [of "word_of_nat ?v :: u64" 63] by (simp add: shl64_def)
  have "shl64 1 (8 * 8) = 1" by (simp add: shl64_def)
  with sign show ?thesis unfolding signed_offset_def off Let_def by simp
qed

theorem signed_offset_eight_bytes_witness:
  "signed_offset [0xF0, 0xFF, 0xFF, 0xFF, 0xFF, 0xFF, 0xFF, 0xFF] 0 8 = word_of_int (- 17)"
proof -
  let ?m = "[0xF0, 0xFF, 0xFF, 0xFF, 0xFF, 0xFF, 0xFF, 0xFF] :: bytes"
  have v: "le_nat (take 8 (drop 0 ?m)) = 2 ^ 64 - 16" by simp
  have "signed_offset ?m 0 8 = word_of_nat (le_nat (take 8 (drop 0 ?m))) - 1"
    by (rule signed_offset_eight_bytes) simp_all
  then show ?thesis unfolding v by simp
qed

text \<open>C19: undoing the update sequence. When \<open>apply_fixups\<close> accepts a record whose
  replacement array lies before the first protected tail, every protected sector carried the
  signature, its last two bytes now hold the replacement kept for it, and nothing else in the
  record changed.\<close>

theorem apply_fixups_restores:
  assumes "apply_fixups rec sb = Some out"
    and "read_u16 rec 4 = Some off" and "read_u16 rec 6 = Some cnt"
    and "read_u16 rec (unat off) = Some sig"
    and "unat off + 2 * unat cnt + 2 \<le> unat sb"
  shows "length out = length rec
    \<and> (\<forall>s < unat cnt - 1.
         read_u16 rec (sector_tail (unat sb) s) = Some sig
         \<and> read_u16 out (sector_tail (unat sb) s) = read_u16 rec (unat off + 2 + s * 2))
    \<and> (\<forall>i < length rec.
         (\<forall>s < unat cnt - 1. i \<noteq> sector_tail (unat sb) s \<and> i \<noteq> Suc (sector_tail (unat sb) s))
         \<longrightarrow> out ! i = rec ! i)"
proof -
  let ?n = "unat cnt - 1" and ?ss = "unat sb"
  have run: "fixup_sectors (unat off) sig ?ss [0..<?n] rec = Some out"
    using assms(1) apply_fixups_sectors [OF assms(2-4), of sb] by (auto split: if_splits)
  have ss: "2 \<le> ?ss" using assms(5) by simp
  have arr: "unat off + 2 + s * 2 + 2 \<le> sector_tail ?ss k" if "s < ?n" for s k
  proof -
    have "?ss \<le> (k + 1) * ?ss" by simp
    then have "unat off + 2 * unat cnt \<le> (k + 1) * ?ss - 2" using assms(5) by linarith
    then show ?thesis using that unfolding sector_tail_def by linarith
  qed
  show ?thesis
    using fixup_sectors_length [OF run] fixup_sectors_signature [OF ss run]
      fixup_sectors_restored [OF ss run] fixup_sectors_frame [OF run] arr
    by (simp add: Ball_def)
qed

theorem apply_fixups_restores_witness:
  "length fixup_sample_out = length fixup_sample
   \<and> read_u16 fixup_sample (sector_tail 16 0) = Some 0xBEEF
   \<and> read_u16 fixup_sample_out (sector_tail 16 0) = read_u16 fixup_sample 10
   \<and> read_u16 fixup_sample (sector_tail 16 1) = Some 0xBEEF
   \<and> read_u16 fixup_sample_out (sector_tail 16 1) = read_u16 fixup_sample 12
   \<and> fixup_sample_out ! 0 = fixup_sample ! 0"
proof -
  have run: "apply_fixups fixup_sample 16 = Some fixup_sample_out"
    by (simp add: read_eval apply_fixups_def upt_rec)
  have h: "read_u16 fixup_sample 4 = Some 8" "read_u16 fixup_sample 6 = Some 3"
    "read_u16 fixup_sample (unat (8 :: u16)) = Some 0xBEEF" by (simp_all add: read_eval)
  have "0 < length fixup_sample" "\<forall>s < unat (3 :: u16) - 1. (0 :: nat) \<noteq> sector_tail (unat (16 :: u64)) s
      \<and> 0 \<noteq> Suc (sector_tail (unat (16 :: u64)) s)"
    by (simp_all add: fixup_sample_def sector_tail_def)
  with apply_fixups_restores [OF run h]
  have all: "length fixup_sample_out = length fixup_sample"
      "\<And>s. s < 2 \<Longrightarrow> read_u16 fixup_sample (sector_tail 16 s) = Some 0xBEEF
          \<and> read_u16 fixup_sample_out (sector_tail 16 s) = read_u16 fixup_sample (10 + s * 2)"
      "fixup_sample_out ! 0 = fixup_sample ! 0" by simp_all
  from all(1,3) all(2) [of 0] all(2) [of 1] show ?thesis by simp
qed

text \<open>A torn record is rejected. If any protected sector of the record does not end with the
  record's own signature, \<open>apply_fixups\<close> returns nothing.\<close>

theorem apply_fixups_rejects_torn:
  assumes "read_u16 rec 4 = Some off" and "read_u16 rec 6 = Some cnt"
    and "read_u16 rec (unat off) = Some sig"
    and "s < unat cnt - 1" and "read_u16 rec (sector_tail (unat sb) s) \<noteq> Some sig"
  shows "apply_fixups rec sb = None"
proof (rule ccontr)
  assume "apply_fixups rec sb \<noteq> None"
  then obtain out where run: "fixup_sectors (unat off) sig (unat sb) [0..<unat cnt - 1] rec = Some out"
    using apply_fixups_sectors [OF assms(1-3), of sb] by (auto split: if_splits)
  then have "2 \<le> unat sb" using fixup_sectors_size assms(4) by fastforce
  from fixup_sectors_signature [OF this run] assms(4,5) show False by simp
qed

theorem apply_fixups_rejects_torn_witness:
  "apply_fixups (fixup_sample[30 := 0xAD, 31 := 0xDE]) 16 = None"
proof (rule apply_fixups_rejects_torn)
  let ?rec = "fixup_sample[30 := 0xAD, 31 := 0xDE]"
  show "read_u16 ?rec 4 = Some 8" "read_u16 ?rec 6 = Some 3"
    "read_u16 ?rec (unat (8 :: u16)) = Some 0xBEEF" by (simp_all add: read_eval)
  show "1 < unat (3 :: u16) - 1" by simp
  show "read_u16 ?rec (sector_tail (unat (16 :: u64)) 1) \<noteq> Some 0xBEEF"
    by (simp add: read_eval sector_tail_def)
qed

text \<open>Which name and size a record gets. The name is the first that is not a DOS 8.3 alias,
  or the first of all when every one is; the size comes from the first unnamed \<open>$DATA\<close>
  attribute that is resident or starts at virtual cluster 0, whatever fragments precede it.\<close>

theorem parse_record_name_and_size:
  assumes "parse_record rec = Some raw"
  shows "name raw = preferred_name (List.map_filter (name_at rec) (record_attributes rec))
       \<and> data raw = first_of (List.map_filter (size_at rec) (record_attributes rec))"
proof -
  from assms obtain st first used where st:
      "parse_attributes rec (min (unat used) (length rec)) (unat first) initial_attr_state = Some st"
      "read_u16 rec 0x14 = Some first" "read_u32 rec 0x18 = Some used"
      "name raw = best_name st" "data raw = data_size st"
    by (auto simp: parse_record_def Let_def split: if_splits option.splits)
  have run: "run_attrs rec (record_attributes rec) initial_attr_state = Some st"
    using parse_attributes_run [OF st(1)] st(2,3) by (simp add: record_attributes_def)
  from run_attrs_name [OF run] run_attrs_size [OF run] st(4,5) show ?thesis
    by (simp add: initial_attr_state_def)
qed

theorem parse_record_name_and_size_witness:
  "\<exists>raw. parse_record record_sample = Some raw
     \<and> name raw = Some (1, ''long'', 5) \<and> data raw = Some 0x2A"
proof -
  obtain raw where raw: "parse_record record_sample = Some raw"
    using option.exhaust [of "parse_record record_sample"] record_sample_parses by blast
  from raw parse_record_name_and_size [OF raw] show ?thesis
    by (simp add: record_sample_names record_sample_sizes preferred_name_def first_of_def)
qed

text \<open>A boot sector that is accepted is NTFS, is long enough to hold every field read from it,
  and describes sectors, clusters and records that are not empty.\<close>

theorem parse_boot_sector_usable:
  assumes "parse_boot_sector boot = Inr g"
  shows "get_slice boot 3 11 = Some NTFS_MAGIC \<and> 0x40 < length boot
    \<and> bytes_per_sector g \<noteq> 0 \<and> bytes_per_cluster g \<noteq> 0 \<and> record_bytes g \<noteq> 0"
  using assms
  by (auto simp: parse_boot_sector_def Let_def get_at_def split: if_splits option.splits)

theorem parse_boot_sector_usable_witness:
  "bytes_per_sector boot_sample_geometry \<noteq> 0 \<and> bytes_per_cluster boot_sample_geometry \<noteq> 0
   \<and> record_bytes boot_sample_geometry = 1024 \<and> 0x40 < length boot_sample"
proof -
  have "parse_boot_sector boot_sample = Inr boot_sample_geometry"
    by (simp add: read_eval parse_boot_sector_def boot_sample_def boot_sample_geometry_def
        NTFS_MAGIC_def shl64_def)
  from parse_boot_sector_usable [OF this] show ?thesis
    by (simp add: boot_sample_geometry_def)
qed

end
