(* ===== verification/Kam_Mft_Stream.thy ===== *)
theory Kam_Mft_Stream
  imports Kam_Mft
begin

text \<open>
  The streaming side of the table reader: framing reads into blocks, parsing the blocks on
  several threads and merging the results gives what one sequential parse of the whole stream
  gives, whatever the sizes of the reads and whatever the order in which the threads finish.
\<close>

section \<open>Whole records of a stream\<close>

definition records_of :: "nat \<Rightarrow> bytes \<Rightarrow> bytes list" where
  "records_of rsize bs = map (\<lambda>k. take rsize (drop (k * rsize) bs)) [0..<length bs div rsize]"

lemma block_records_eq:
  "0 < rsize \<Longrightarrow> rsize dvd length bs \<Longrightarrow> block_records rsize bs = Some (records_of rsize bs)"
  by (simp add: block_records_def records_of_def)

lemma length_records_of [simp]: "length (records_of rsize bs) = length bs div rsize"
  by (simp add: records_of_def)

lemma records_of_short [simp]: "length bs < rsize \<Longrightarrow> records_of rsize bs = []"
  by (simp add: records_of_def)

lemma records_of_append:
  assumes "0 < rsize" and "rsize dvd length a"
  shows "records_of rsize (a @ b) = records_of rsize a @ records_of rsize b"
proof -
  obtain n where n: "length a = n * rsize" using assms(2) by (metis dvd_def mult.commute)
  have len: "length (a @ b) div rsize = n + length b div rsize" and la: "length a div rsize = n"
    using assms(1) n by simp_all
  have split: "[0..<n + length b div rsize] = [0..<n] @ map (\<lambda>k. k + n) [0..<length b div rsize]"
    using upt_add_eq_append [of 0 n "length b div rsize"] map_add_upt [of n "length b div rsize"]
    by (simp add: add.commute)
  have low: "take rsize (drop (k * rsize) (a @ b)) = take rsize (drop (k * rsize) a)" if "k < n" for k
  proof -
    have "k * rsize + rsize \<le> n * rsize"
      using that by (metis Suc_leI mult_Suc add.commute mult_le_mono1)
    then show ?thesis using n by simp
  qed
  have high: "take rsize (drop ((k + n) * rsize) (a @ b)) = take rsize (drop (k * rsize) b)" for k
    using n by (simp add: add_mult_distrib)
  show ?thesis
    unfolding records_of_def len la split
    by (auto simp: low high simp del: drop_append take_append)
qed

section \<open>Parsing is additive\<close>

definition stats_add :: "mft_stats \<Rightarrow> mft_stats \<Rightarrow> mft_stats" where
  "stats_add s t =
     \<lparr>records_seen = records_seen s + records_seen t, stat_in_use = stat_in_use s + stat_in_use t,
      nameless = nameless s + nameless t, extensions = extensions s + extensions t,
      sizes_from_extensions = sizes_from_extensions s + sizes_from_extensions t,
      sizeless_files = sizeless_files s + sizeless_files t, io_millis = io_millis s + io_millis t,
      bytes_read = bytes_read s + bytes_read t\<rparr>"

definition parsed_append :: "parsed \<Rightarrow> parsed \<Rightarrow> parsed" where
  "parsed_append p q =
     \<lparr>parsed_entries = parsed_entries p @ parsed_entries q,
      extension_sizes = extension_sizes p @ extension_sizes q,
      parsed_stats = stats_add (parsed_stats p) (parsed_stats q),
      parsed_skipped = parsed_skipped p + parsed_skipped q\<rparr>"

lemma parsed_append_default [simp]:
  "parsed_append p default_parsed = p" "parsed_append default_parsed p = p"
  by (simp_all add: parsed_append_def default_parsed_def stats_add_def default_stats_def)

lemma parsed_append_assoc: "parsed_append (parsed_append p q) r = parsed_append p (parsed_append q r)"
  by (simp add: parsed_append_def stats_add_def add.assoc)

lemma foldl_parsed_append:
  "foldl parsed_append q ps = parsed_append q (foldl parsed_append default_parsed ps)"
  by (induction ps rule: rev_induct) (simp_all add: parsed_append_assoc)

lemma parsed_raw_additive:
  "parsed_raw i raw (parsed_append p q) = parsed_append p (parsed_raw i raw q)"
  by (simp add: parsed_raw_def parsed_append_def stats_add_def bump_def add.assoc Let_def
      split: option.splits)

lemma record_step_additive:
  "record_step sb i rec (parsed_append p q) = parsed_append p (record_step sb i rec q)"
proof -
  let ?seen = "\<lambda>p. p\<lparr>parsed_stats := (parsed_stats p)\<lparr>records_seen := bump (records_seen (parsed_stats p))\<rparr>\<rparr>"
  let ?skip = "\<lambda>p. p\<lparr>parsed_skipped := bump (parsed_skipped p)\<rparr>"
  have seen: "?seen (parsed_append p q) = parsed_append p (?seen q)" for p q :: parsed
    by (simp add: parsed_append_def stats_add_def bump_def add.assoc)
  have skip: "?skip (parsed_append p q) = parsed_append p (?skip q)" for p q :: parsed
    by (simp add: parsed_append_def bump_def add.assoc)
  show ?thesis
    unfolding record_step_def Let_def
    by (auto simp only: seen skip parsed_raw_additive split: option.splits if_splits)
qed

lemma parse_records_additive:
  "parse_records sb i recs (parsed_append p q) = parsed_append p (parse_records sb i recs q)"
  by (induction recs arbitrary: i q) (simp_all add: record_step_additive)

lemma parse_records_from_default:
  "parse_records sb i recs p = parsed_append p (parse_records sb i recs default_parsed)"
  using parse_records_additive [of sb i recs p default_parsed] by simp

lemma saturating_add_Suc:
  assumes "Suc n < 2 ^ 32"
  shows "saturating_add (saturating_add (i :: u32) 1) (word_of_nat n) = saturating_add i (word_of_nat (Suc n))"
  using assms by (simp add: word_unat_eq_iff unat_saturating_add unat_of_nat del: of_nat_Suc)

lemma saturating_add_zero [simp]: "saturating_add (i :: u32) 0 = i"
  using unat_bound [of i] by (simp add: word_unat_eq_iff unat_saturating_add)

lemma parse_records_append:
  "length recs < 2 ^ 32 \<Longrightarrow>
   parse_records sb i (recs @ recs') p =
     parse_records sb (saturating_add i (word_of_nat (length recs))) recs' (parse_records sb i recs p)"
proof (induction recs arbitrary: i p)
  case Nil
  then show ?case by simp
next
  case (Cons r recs)
  then show ?case using saturating_add_Suc [of "length recs" i] by (simp del: of_nat_Suc)
qed

section \<open>Framing\<close>

text \<open>
  Blocks that follow one another from record number \<open>i\<close> and sequence number \<open>n\<close>, each a
  positive whole number of records.
\<close>

fun chained :: "nat \<Rightarrow> u32 \<Rightarrow> nat \<Rightarrow> block list \<Rightarrow> bool" where
  "chained rsize i n [] = True"
| "chained rsize i n (b # bs) =
     (sequence b = n \<and> first_record b = i \<and> rsize dvd length (block_bytes b) \<and>
      0 < length (block_bytes b) div rsize \<and> length (block_bytes b) div rsize < 2 ^ 32 \<and>
      chained rsize (saturating_add i (word_of_nat (length (block_bytes b) div rsize))) (Suc n) bs)"

definition stream_of :: "block list \<Rightarrow> bytes" where
  "stream_of bs = concat (map block_bytes bs)"

lemma frame_step_shape:
  assumes "0 < rsize" and "length (carry st) < rsize" and "length buffer \<le> CHUNK_BYTES"
  shows "\<exists>new. sent (frame_step rsize buffer st) = sent st @ new
    \<and> chained rsize (frame_index st) (next_sequence st) new
    \<and> stream_of new @ carry (frame_step rsize buffer st) = carry st @ buffer
    \<and> length (carry (frame_step rsize buffer st)) < rsize
    \<and> (\<forall>rest. chained rsize (frame_index (frame_step rsize buffer st))
                (next_sequence (frame_step rsize buffer st)) rest
          \<longrightarrow> chained rsize (frame_index st) (next_sequence st) (new @ rest))"
proof (cases "length (carry st @ buffer) div rsize = 0")
  case True
  then have "length (carry st @ buffer) < rsize" using assms(1) by (simp add: div_eq_0_iff)
  with True show ?thesis by (intro exI [of _ "[]"]) (simp add: frame_step_def stream_of_def)
next
  case False
  let ?all = "carry st @ buffer"
  let ?whole = "length ?all div rsize"
  let ?b = "\<lparr>sequence = next_sequence st, first_record = frame_index st,
             block_bytes = take (?whole * rsize) ?all\<rparr>"
  have cut: "?whole * rsize \<le> length ?all" by (simp add: div_times_less_eq_dividend)
  have len: "length (block_bytes ?b) = ?whole * rsize"
    using cut by (simp del: take_append length_append)
  have "length ?all < rsize + CHUNK_BYTES + 1" using assms by simp
  also have "\<dots> \<le> (2 ^ 32) * rsize"
  proof -
    have "CHUNK_BYTES + 1 \<le> (2 ^ 32 - 1) * rsize"
      using assms(1) by (cases rsize) (auto simp: CHUNK_BYTES_def)
    then show ?thesis by (simp add: algebra_simps diff_mult_distrib)
  qed
  finally have big: "?whole < 2 ^ 32" using assms(1) by (simp add: div_less_iff_less_mult)
  have rest: "length (drop (?whole * rsize) ?all) < rsize"
    using assms(1) by (simp add: minus_div_mult_eq_mod del: length_append drop_append)
  have fs: "frame_step rsize buffer st =
     st\<lparr>carry := drop (?whole * rsize) ?all,
        frame_index := saturating_add (frame_index st) (word_of_nat ?whole),
        next_sequence := next_sequence st + 1, sent := sent st @ [?b]\<rparr>"
    using False by (simp add: frame_step_def Let_def)
  have dvd: "rsize dvd length (block_bytes ?b)" unfolding len by simp
  have q: "length (block_bytes ?b) div rsize = ?whole" unfolding len using assms(1) by simp
  have strm: "stream_of [?b] @ drop (?whole * rsize) ?all = ?all"
    by (simp add: stream_of_def del: take_append drop_append)
  show ?thesis
    unfolding fs using False big rest dvd q strm
    by (intro exI [of _ "[?b]"]) (simp del: take_append drop_append length_append length_take)
qed

lemma frame_buffers_shape:
  assumes "0 < rsize"
  shows "length (carry st) < rsize \<Longrightarrow> \<forall>b \<in> set bufs. length b \<le> CHUNK_BYTES \<Longrightarrow>
    \<exists>new. sent (frame_buffers rsize bufs st) = sent st @ new
      \<and> chained rsize (frame_index st) (next_sequence st) new
      \<and> stream_of new @ carry (frame_buffers rsize bufs st) = carry st @ concat bufs
      \<and> length (carry (frame_buffers rsize bufs st)) < rsize"
proof (induction bufs arbitrary: st)
  case Nil
  then show ?case by (simp add: stream_of_def)
next
  case (Cons b bufs)
  let ?st = "frame_step rsize b st"
  obtain new where new: "sent ?st = sent st @ new"
      "stream_of new @ carry ?st = carry st @ b" "length (carry ?st) < rsize"
      "\<And>rest. chained rsize (frame_index ?st) (next_sequence ?st) rest
          \<Longrightarrow> chained rsize (frame_index st) (next_sequence st) (new @ rest)"
    using frame_step_shape [OF assms Cons.prems(1), of b] Cons.prems(2) by auto
  obtain later where later: "sent (frame_buffers rsize bufs ?st) = sent ?st @ later"
      "chained rsize (frame_index ?st) (next_sequence ?st) later"
      "stream_of later @ carry (frame_buffers rsize bufs ?st) = carry ?st @ concat bufs"
      "length (carry (frame_buffers rsize bufs ?st)) < rsize"
    using Cons.IH [OF new(3)] Cons.prems(2) by auto
  have "stream_of (new @ later) @ carry (frame_buffers rsize bufs ?st) = carry st @ b @ concat bufs"
    using new(2) later(3) by (simp add: stream_of_def)
  then show ?case
    using new later by (intro exI [of _ "new @ later"]) simp
qed

lemma chained_parse:
  assumes "0 < rsize"
  shows "chained rsize i n bs \<Longrightarrow>
    \<exists>ps. parse_all rsize sb bs = zip [n..<n + length bs] ps \<and> length ps = length bs
      \<and> foldl parsed_append default_parsed ps
          = parse_records sb i (records_of rsize (stream_of bs)) default_parsed"
proof (induction bs arbitrary: i n)
  case Nil
  then show ?case by (simp add: parse_all_def stream_of_def map_filter_simps assms)
next
  case (Cons b bs)
  let ?k = "length (block_bytes b) div rsize"
  let ?i = "saturating_add i (word_of_nat ?k)"
  let ?p = "parse_records sb i (records_of rsize (block_bytes b)) default_parsed"
  have b: "sequence b = n" "first_record b = i" "rsize dvd length (block_bytes b)" "?k < 2 ^ 32"
    and rest: "chained rsize ?i (Suc n) bs" using Cons.prems by auto
  obtain ps where ps: "parse_all rsize sb bs = zip [Suc n..<Suc n + length bs] ps"
      "length ps = length bs"
      "foldl parsed_append default_parsed ps
         = parse_records sb ?i (records_of rsize (stream_of bs)) default_parsed"
    using Cons.IH [OF rest] by blast
  have pb: "parse_block b rsize sb = Some ?p"
    using b assms by (simp add: parse_block_def block_records_eq)
  have "foldl parsed_append default_parsed (?p # ps) = parsed_append ?p (foldl parsed_append default_parsed ps)"
    using foldl_parsed_append [of ?p ps] by simp
  also have "\<dots> = parse_records sb i (records_of rsize (block_bytes b) @ records_of rsize (stream_of bs)) default_parsed"
    using ps(3) b(4) parse_records_from_default [of sb ?i "records_of rsize (stream_of bs)" ?p]
    by (simp add: parse_records_append)
  also have "records_of rsize (block_bytes b) @ records_of rsize (stream_of bs)
      = records_of rsize (stream_of (b # bs))"
    using records_of_append [OF assms b(3)] by (simp add: stream_of_def)
  finally have eq: "foldl parsed_append default_parsed (?p # ps) =
    parse_records sb i (records_of rsize (stream_of (b # bs))) default_parsed" .
  have "parse_all rsize sb (b # bs) = (n, ?p) # zip [Suc n..<Suc n + length bs] ps"
    using ps(1) pb b(1) by (simp add: parse_all_def map_filter_simps)
  then have "parse_all rsize sb (b # bs) = zip [n..<n + length (b # bs)] (?p # ps)"
    by (simp add: upt_conv_Cons del: upt_Suc)
  with eq ps(2) show ?case by (intro exI [of _ "?p # ps"]) simp
qed

section \<open>Merging\<close>

lemma hash_extend_append: "hash_extend m (a @ b) = hash_extend (hash_extend m a) b"
  by (induction m a rule: hash_extend.induct) auto

lemma merge_one_append: "merge_one (merge_one m p) q = merge_one m (parsed_append p q)"
  by (simp add: merge_one_def parsed_append_def stats_add_def hash_extend_append Let_def add.assoc)

lemma merge_one_default [simp]: "merge_one m default_parsed = m"
  by (simp add: merge_one_def default_parsed_def default_stats_def)

lemma foldl_merge_one: "foldl merge_one m ps = merge_one m (foldl parsed_append default_parsed ps)"
proof (induction ps rule: rev_induct)
  case Nil
  then show ?case by simp
next
  case (snoc p ps)
  then show ?case by (simp add: merge_one_append)
qed

lemma sort_key_zip_upt:
  assumes "mset xs = mset (zip [n..<n + length ps] ps)"
  shows "sort_key fst xs = zip [n..<n + length ps] ps"
proof (rule sort_key_inj_key_eq)
  show "mset xs = mset (zip [n..<n + length ps] ps)" by (rule assms)
  show "inj_on fst (set xs)"
  proof -
    have "set xs = set (zip [n..<n + length ps] ps)" using assms by (metis set_mset_mset)
    moreover have "distinct (map fst (zip [n..<n + length ps] ps))" by simp
    ultimately show ?thesis by (metis distinct_map)
  qed
  show "sorted (map fst (zip [n..<n + length ps] ps))" by simp
qed

lemma framed_merge:
  assumes "0 < rsize" and "\<forall>b \<in> set bufs. length b \<le> CHUNK_BYTES"
    and "mset (schedule (parse_all rsize sb (sent (frame_buffers rsize bufs initial_frame))))
       = mset (parse_all rsize sb (sent (frame_buffers rsize bufs initial_frame)))"
  shows "merge_blocks (schedule (parse_all rsize sb (sent (frame_buffers rsize bufs initial_frame))))
       = merge_blocks [(0, parse_records sb 0 (records_of rsize (concat bufs)) default_parsed)]"
proof -
  let ?st = "frame_buffers rsize bufs initial_frame"
  obtain new where new: "sent ?st = new" "chained rsize 0 0 new"
      "stream_of new @ carry ?st = concat bufs" "length (carry ?st) < rsize"
    using frame_buffers_shape [OF assms(1), of initial_frame bufs] assms(1,2)
    by (auto simp: initial_frame_def)
  obtain ps where ps: "parse_all rsize sb new = zip [0..<0 + length new] ps" "length ps = length new"
      "foldl parsed_append default_parsed ps = parse_records sb 0 (records_of rsize (stream_of new)) default_parsed"
    using chained_parse [OF assms(1) new(2)] by blast
  have "sort_key fst (schedule (parse_all rsize sb (sent ?st))) = zip [0..<0 + length ps] ps"
    by (rule sort_key_zip_upt) (use assms(3) new(1) ps in simp)
  then have sorted: "map snd (sort_key fst (schedule (parse_all rsize sb (sent ?st)))) = ps" by simp
  have "rsize dvd length (stream_of new)"
  proof -
    have "chained rsize i n bs \<Longrightarrow> rsize dvd length (stream_of bs)" for i n bs
      by (induction bs arbitrary: i n) (auto simp: stream_of_def)
    with new(2) show ?thesis by blast
  qed
  then have "records_of rsize (stream_of new) = records_of rsize (concat bufs)"
    using records_of_append [OF assms(1), of "stream_of new" "carry ?st"] new(3,4) by simp
  then show ?thesis
    unfolding merge_blocks_def sorted foldl_merge_one ps(3) by simp
qed

section \<open>The read loop\<close>

lemma read_at_length: "read_at vol off want = Inr buf \<Longrightarrow> length buf \<le> want"
  by (auto simp: read_at_def split: sum.splits)

lemma read_run_chunks: "b \<in> set (snd (read_run vol off remaining)) \<Longrightarrow> length b \<le> CHUNK_BYTES"
proof (induction vol off remaining rule: read_run.induct)
  case (1 vol off remaining)
  then show ?case
    by (auto simp: read_run.simps [of vol off remaining] Let_def
        dest!: read_at_length split: sum.splits if_splits prod.splits)
qed

lemma read_all_runs_chunks: "b \<in> set (snd (read_all_runs vol cluster rs)) \<Longrightarrow> length b \<le> CHUNK_BYTES"
proof (induction rs)
  case (Cons r rs)
  then show ?case
    using read_run_chunks [of b vol "start_cluster r * cluster" "clusters r * cluster"]
    by (auto split: prod.splits option.splits)
qed simp

lemma snapshot_of_cong: "merge_blocks a = merge_blocks b \<Longrightarrow> snapshot_of a io n = snapshot_of b io n"
  by (simp add: snapshot_of_def)

text \<open>A volume that holds the bytes of a disk and answers every read inside it in full.\<close>

definition disk_volume :: "bytes \<Rightarrow> volume" where
  "disk_volume disk off want = Inr (take want (drop (unat off) disk))"

lemma read_run_disk_aux:
  "unat off + unat remaining \<le> length disk \<Longrightarrow> unat off + unat remaining < 2 ^ 64 \<Longrightarrow>
     fst (read_run (disk_volume disk) off remaining) = None
     \<and> concat (snd (read_run (disk_volume disk) off remaining))
         = take (unat remaining) (drop (unat off) disk)"
proof (induction "unat remaining" arbitrary: off remaining rule: less_induct)
  case less
  show ?case
  proof (cases "remaining = 0")
    case True
    then show ?thesis by (simp add: read_run.simps)
  next
    case False
    let ?want = "min (unat remaining) CHUNK_BYTES"
    let ?buf = "take ?want (drop (unat off) disk)"
    let ?n = "word_of_nat ?want :: u64"
    have pos: "0 < ?want" using False by (simp add: unat_gt_0 CHUNK_BYTES_def)
    have len: "length ?buf = ?want" using less.prems(1) by simp
    have n: "unat ?n = ?want" using unat_bound [of remaining] by (simp add: unat_of_nat)
    have rem: "unat (remaining - ?n) = unat remaining - ?want" using n by (simp add: unat_sub word_le_nat_alt)
    have off: "unat (off + ?n) = unat off + ?want"
      using less.prems(2) n by (subst unat_plus_no_overflow) simp_all
    have rd: "read_at (disk_volume disk) off ?want = Inr ?buf"
      by (simp add: read_at_def disk_volume_def)
    have ne: "?buf \<noteq> []" using len pos by (metis length_0_conv less_numeral_extra(3))
    have IH: "fst (read_run (disk_volume disk) (off + ?n) (remaining - ?n)) = None
        \<and> concat (snd (read_run (disk_volume disk) (off + ?n) (remaining - ?n)))
            = take (unat remaining - ?want) (drop (unat off + ?want) disk)"
      using less.hyps [of "remaining - ?n" "off + ?n"] less.prems rem off pos by simp
    have step: "read_run (disk_volume disk) off remaining =
        (fst (read_run (disk_volume disk) (off + ?n) (remaining - ?n)),
         ?buf # snd (read_run (disk_volume disk) (off + ?n) (remaining - ?n)))"
      using False ne unfolding read_run.simps [of _ off remaining] rd sum.case len Let_def
      by (simp add: case_prod_unfold)
    have "take (unat remaining) (drop (unat off) disk)
        = ?buf @ take (unat remaining - ?want) (drop (unat off + ?want) disk)"
      using take_add [of ?want "unat remaining - ?want" "drop (unat off) disk"]
      by (simp add: add.commute)
    with IH show ?thesis unfolding step by simp
  qed
qed

section \<open>Properties\<close>

text \<open>Framing loses nothing and hands out whole records only. Whatever the sizes of the reads
  (each at most \<open>CHUNK_BYTES\<close>), the blocks' bytes followed by the remainder carried over are
  exactly the bytes read, the remainder is shorter than a record, and no block makes
  \<open>parse_block\<close> index past its end.\<close>

theorem framed_blocks_parse:
  assumes "0 < rsize" and "\<forall>b \<in> set bufs. length b \<le> CHUNK_BYTES"
  shows "concat (map block_bytes (sent (frame_buffers rsize bufs initial_frame)))
           @ carry (frame_buffers rsize bufs initial_frame) = concat bufs
    \<and> length (carry (frame_buffers rsize bufs initial_frame)) < rsize
    \<and> (\<forall>b \<in> set (sent (frame_buffers rsize bufs initial_frame)). parse_block b rsize sb \<noteq> None)"
proof -
  let ?st = "frame_buffers rsize bufs initial_frame"
  obtain new where new: "sent ?st = new" "chained rsize 0 0 new"
      "stream_of new @ carry ?st = concat bufs" "length (carry ?st) < rsize"
    using frame_buffers_shape [OF assms(1), of initial_frame bufs] assms(1,2)
    by (auto simp: initial_frame_def)
  have "parse_block b rsize sb \<noteq> None" if "b \<in> set bs" "chained rsize i n bs" for b bs i n
    using that
  proof (induction bs arbitrary: i n)
    case (Cons c bs)
    then show ?case using assms(1) by (auto simp: parse_block_def block_records_eq)
  qed simp
  with new show ?thesis by (auto simp: stream_of_def)
qed

theorem framed_blocks_parse_witness:
  "concat (map block_bytes (sent (frame_buffers 2 [[1, 2, 3], [4]] initial_frame)))
     @ carry (frame_buffers 2 [[1, 2, 3], [4]] initial_frame) = [1, 2, 3, 4]
   \<and> length (sent (frame_buffers 2 [[1, 2, 3], [4]] initial_frame)) = 2"
proof -
  have "\<forall>b \<in> set [[1, 2, 3], [4] :: bytes]. length b \<le> CHUNK_BYTES" by (simp add: CHUNK_BYTES_def)
  from framed_blocks_parse [OF _ this, of 2 512] show ?thesis
    by (simp add: frame_step_def initial_frame_def)
qed

text \<open>C1: reading in parallel is reading in sequence. The snapshot built from the blocks, in
  whatever order the parser threads return them, is the snapshot of one sequential parse of the
  whole records of the stream; how the reads were cut makes no difference.\<close>

theorem snapshot_is_sequential_parse:
  assumes "0 < rsize" and "\<forall>b \<in> set bufs. length b \<le> CHUNK_BYTES"
    and "\<forall>xs. mset (schedule xs) = mset xs"
  shows "snapshot_of (schedule (parse_all rsize sb (sent (frame_buffers rsize bufs initial_frame)))) io n
       = snapshot_of [(0, parse_records sb 0 (records_of rsize (concat bufs)) default_parsed)] io n"
  using assms framed_merge by (intro snapshot_of_cong) blast

theorem snapshot_is_sequential_parse_witness:
  "snapshot_of (rev (parse_all 2 512 (sent (frame_buffers 2 [[1, 2, 3], [4]] initial_frame)))) 0 4
   = snapshot_of [(0, parse_records 512 0 [[1, 2], [3, 4]] default_parsed)] 0 4"
proof -
  have r: "records_of 2 (concat [[1, 2, 3], [4 :: u8]]) = [[1, 2], [3, 4]]"
    by (simp add: records_of_def upt_rec)
  have "snapshot_of (rev (parse_all 2 512 (sent (frame_buffers 2 [[1, 2, 3], [4]] initial_frame)))) 0 4
      = snapshot_of [(0, parse_records 512 0 (records_of 2 (concat [[1, 2, 3], [4]])) default_parsed)] 0 4"
    by (rule snapshot_is_sequential_parse [of 2 "[[1, 2, 3], [4]]" rev]) (simp_all add: CHUNK_BYTES_def)
  then show ?thesis unfolding r .
qed

text \<open>The whole read of a volume does not depend on the thread schedule: any order in which the
  parsers hand back their results gives the result of the order they were sent in, errors
  included.\<close>

theorem mft_read_schedule_independent:
  assumes "\<forall>xs. mset (schedule xs) = mset xs"
  shows "mft_read vol schedule io = mft_read vol (\<lambda>xs. xs) io"
proof -
  have same: "snapshot_of (schedule (parse_all (unat (record_bytes g)) (bytes_per_sector g)
        (sent (frame_buffers (unat (record_bytes g)) bufs initial_frame)))) io n
      = snapshot_of (parse_all (unat (record_bytes g)) (bytes_per_sector g)
        (sent (frame_buffers (unat (record_bytes g)) bufs initial_frame))) io n"
    if "parse_boot_sector boot = Inr g" "read_all_runs vol (bytes_per_cluster g) runs = (None, bufs)"
    for boot g runs bufs n
  proof -
    have pos: "0 < unat (record_bytes g)"
      using that(1) by (auto simp: parse_boot_sector_def Let_def unat_gt_0 split: if_splits option.splits)
    have chunks: "\<forall>b \<in> set bufs. length b \<le> CHUNK_BYTES"
      using read_all_runs_chunks [of _ vol "bytes_per_cluster g" runs] that(2) by simp
    show ?thesis
      using framed_merge [OF pos chunks, of schedule] framed_merge [OF pos chunks, of "\<lambda>xs. xs"] assms
      by (intro snapshot_of_cong) simp
  qed
  show ?thesis
    unfolding mft_read_def Let_def by (auto simp: same split: sum.split option.split prod.split)
qed

theorem mft_read_schedule_independent_witness:
  "mft_read (disk_volume []) rev 0 = mft_read (disk_volume []) (\<lambda>xs. xs) 0"
  by (rule mft_read_schedule_independent) simp

text \<open>A run is read completely. On a volume that answers reads in full, the buffers of one run
  concatenate to exactly the run's bytes of the disk, in chunks of at most \<open>CHUNK_BYTES\<close>.\<close>

theorem read_run_disk:
  assumes "unat off + unat remaining \<le> length disk" and "length disk < 2 ^ 64"
  shows "fst (read_run (disk_volume disk) off remaining) = None
     \<and> concat (snd (read_run (disk_volume disk) off remaining))
         = take (unat remaining) (drop (unat off) disk)
     \<and> (\<forall>b \<in> set (snd (read_run (disk_volume disk) off remaining)). length b \<le> CHUNK_BYTES)"
  using assms read_run_disk_aux [of off remaining disk] read_run_chunks by force

theorem read_run_disk_witness:
  "concat (snd (read_run (disk_volume [1, 2, 3, 4]) 1 2)) = [2, 3]"
  using read_run_disk [of 1 2 "[1, 2, 3, 4]"] by simp

end
