(* ===== verification/Kam_Index.thy ===== *)
theory Kam_Index
  imports Kam_Mft
begin

text \<open>
  The queryable view over a table snapshot, \<open>crates/kam-storage/src/index.rs\<close>: building the
  parent and child structure, totalling every directory bottom-up with an explicit stack,
  resolving a path to a record and rebuilding a record's path. Lookups in hash maps are partial
  functions; the entries keep the arbitrary order a hash map iterates in. Lower-casing
  (\<open>str::to_lowercase\<close>) is the argument \<open>lower\<close>.
\<close>

section \<open>Building the index\<close>

type_synonym child_map = "u32 \<rightharpoonup> u32 list"

record volume_index =
  snapshot :: mft_snapshot
  directories :: child_map
  children :: child_map
  totals :: "u32 \<rightharpoonup> u64"
  direct_files :: "u32 \<rightharpoonup> u64"
  vi_file_count :: u64
  vi_directory_count :: u64
  vi_total_bytes :: u64

text \<open>\<open>map.entry(key).or_default().push(value)\<close>.\<close>

definition push_entry :: "child_map \<Rightarrow> u32 \<Rightarrow> u32 \<Rightarrow> child_map" where
  "push_entry m k v = m(k \<mapsto> unwrap_or [] (m k) @ [v])"

record build_state =
  bs_children :: child_map
  bs_directories :: child_map
  bs_files :: u64
  bs_dirs :: u64
  bs_bytes :: u64

definition build_step :: "u32 \<Rightarrow> build_state \<Rightarrow> u32 \<times> mft_entry \<Rightarrow> build_state" where
  "build_step rt st ie =
     (case ie of (index, entry) \<Rightarrow>
      (let st = (if is_directory entry then st\<lparr>bs_dirs := bs_dirs st + 1\<rparr>
                 else st\<lparr>bs_files := bs_files st + 1, bs_bytes := bs_bytes st + ebytes entry\<rparr>)
       in if index = rt then st
          else (let st = st\<lparr>bs_children := push_entry (bs_children st) (parent entry) index\<rparr>
                in if is_directory entry
                   then st\<lparr>bs_directories := push_entry (bs_directories st) (parent entry) index\<rparr>
                   else st)))"

definition empty_build :: build_state where
  "empty_build = \<lparr>bs_children = Map.empty, bs_directories = Map.empty, bs_files = 0, bs_dirs = 0,
     bs_bytes = 0\<rparr>"

definition build_maps :: "u32 \<Rightarrow> (u32 \<times> mft_entry) list \<Rightarrow> build_state" where
  "build_maps rt es = foldl (build_step rt) empty_build es"

section \<open>Totalling the directories\<close>

definition is_dir_entry :: "(u32 \<times> mft_entry) list \<Rightarrow> u32 \<Rightarrow> bool" where
  "is_dir_entry es k = (case map_of es k of None \<Rightarrow> False | Some e \<Rightarrow> is_directory e)"

fun sum_children ::
  "(u32 \<times> mft_entry) list \<Rightarrow> (u32 \<rightharpoonup> u64) \<Rightarrow> u32 list \<Rightarrow> u64 \<Rightarrow> u64 \<Rightarrow> u64 \<times> u64" where
  "sum_children es tot [] s f = (s, f)"
| "sum_children es tot (c # cs) s f =
     (case map_of es c of
        Some entry \<Rightarrow>
          if is_directory entry then sum_children es tot cs (s + unwrap_or 0 (tot c)) f
          else sum_children es tot cs (s + ebytes entry) (f + 1)
      | None \<Rightarrow> sum_children es tot cs s f)"

fun push_children ::
  "(u32 \<times> mft_entry) list \<Rightarrow> u32 list \<Rightarrow> (u32 \<times> bool) list \<Rightarrow> u32 set \<Rightarrow> (u32 \<times> bool) list \<times> u32 set" where
  "push_children es [] stack visited = (stack, visited)"
| "push_children es (c # cs) stack visited =
     (if is_dir_entry es c \<and> c \<notin> visited
      then push_children es cs ((c, False) # stack) (insert c visited)
      else push_children es cs stack visited)"

text \<open>What bounds the loop: directories not yet visited, and what is left on the stack.\<close>

definition loop_measure :: "(u32 \<times> mft_entry) list \<Rightarrow> (u32 \<times> bool) list \<Rightarrow> u32 set \<Rightarrow> nat" where
  "loop_measure es stack visited =
     3 * card (set (map fst es) - visited) + (\<Sum>x \<leftarrow> stack. if snd x then 1 else 2)"

lemma push_children_measure:
  "push_children es cs stack visited = (stack', visited') \<Longrightarrow>
     loop_measure es stack' visited' \<le> loop_measure es stack visited"
proof (induction es cs stack visited rule: push_children.induct)
  case (1 es stack visited)
  then show ?case by simp
next
  case (2 es c cs stack visited)
  show ?case
  proof (cases "is_dir_entry es c \<and> c \<notin> visited")
    case True
    then have "c \<in> set (map fst es)"
      by (force simp: is_dir_entry_def dest: map_of_SomeD split: option.splits)
    then have "Suc (card (set (map fst es) - visited - {c})) = card (set (map fst es) - visited)"
      using True by (intro card_Suc_Diff1) simp_all
    moreover have "set (map fst es) - visited - {c} = set (map fst es) - insert c visited" by auto
    ultimately have "card (set (map fst es) - insert c visited) + 1 = card (set (map fst es) - visited)"
      by simp
    then have "loop_measure es ((c, False) # stack) (insert c visited) \<le> loop_measure es stack visited"
      by (simp add: loop_measure_def)
    with 2 True show ?thesis by fastforce
  next
    case False
    with 2 show ?thesis by auto
  qed
qed

function total_loop ::
  "(u32 \<times> mft_entry) list \<Rightarrow> child_map \<Rightarrow> (u32 \<times> bool) list \<Rightarrow> u32 set \<Rightarrow> (u32 \<rightharpoonup> u64) \<Rightarrow> (u32 \<rightharpoonup> u64)
     \<Rightarrow> (u32 \<rightharpoonup> u64) \<times> (u32 \<rightharpoonup> u64)" where
  "total_loop es ch [] visited tot files = (tot, files)"
| "total_loop es ch ((index, True) # stack) visited tot files =
     (case sum_children es tot (unwrap_or [] (ch index)) 0 0 of (s, files_here) \<Rightarrow>
       total_loop es ch stack visited (tot(index \<mapsto> s)) (files(index \<mapsto> files_here)))"
| "total_loop es ch ((index, False) # stack) visited tot files =
     (case push_children es (unwrap_or [] (ch index)) ((index, True) # stack) visited of
        (stack', visited') \<Rightarrow> total_loop es ch stack' visited' tot files)"
  by pat_completeness auto
termination
proof (relation "measure (\<lambda>(es, ch, stack, visited, tot, files). loop_measure es stack visited)", goal_cases)
  case (2 es ch index stack visited tot files x y)
  then show ?case by (simp add: loop_measure_def)
next
  case (3 es ch index stack visited tot files x y)
  then have "loop_measure es x y \<le> loop_measure es ((index, True) # stack) visited"
    by (intro push_children_measure) simp
  then show ?case by (simp add: loop_measure_def)
qed simp

definition total_directories ::
  "(u32 \<times> mft_entry) list \<Rightarrow> u32 \<Rightarrow> child_map \<Rightarrow> (u32 \<rightharpoonup> u64) \<times> (u32 \<rightharpoonup> u64)" where
  "total_directories es rt ch = total_loop es ch [(rt, False)] {rt} Map.empty Map.empty"

definition build :: "mft_snapshot \<Rightarrow> volume_index" where
  "build snap =
     (let st = build_maps (root snap) (entries snap);
          (tot, files) = total_directories (entries snap) (root snap) (bs_children st)
      in \<lparr>snapshot = snap, directories = bs_directories st, children = bs_children st,
          totals = tot, direct_files = files, vi_file_count = bs_files st,
          vi_directory_count = bs_dirs st, vi_total_bytes = bs_bytes st\<rparr>)"

section \<open>Queries\<close>

definition entry_at :: "volume_index \<Rightarrow> u32 \<Rightarrow> mft_entry option" where
  "entry_at vi index = map_of (entries (snapshot vi)) index"

definition children_of :: "volume_index \<Rightarrow> u32 \<Rightarrow> u32 list" where
  "children_of vi index = unwrap_or [] (children vi index)"

definition directories_in :: "volume_index \<Rightarrow> u32 \<Rightarrow> u32 list" where
  "directories_in vi index = unwrap_or [] (directories vi index)"

definition total_of :: "volume_index \<Rightarrow> u32 \<Rightarrow> u64" where
  "total_of vi index = unwrap_or 0 (totals vi index)"

definition direct_files_in :: "volume_index \<Rightarrow> u32 \<Rightarrow> u64" where
  "direct_files_in vi index = unwrap_or 0 (direct_files vi index)"

definition file_count :: "volume_index \<Rightarrow> u64" where "file_count vi = vi_file_count vi"
definition directory_count :: "volume_index \<Rightarrow> u64" where "directory_count vi = vi_directory_count vi"
definition total_bytes :: "volume_index \<Rightarrow> u64" where "total_bytes vi = vi_total_bytes vi"
definition index_skipped :: "volume_index \<Rightarrow> u64" where "index_skipped vi = skipped (snapshot vi)"
definition index_root :: "volume_index \<Rightarrow> u32" where "index_root vi = root (snapshot vi)"

definition is_separator :: "char \<Rightarrow> bool" where
  "is_separator c \<longleftrightarrow> c = CHR 0x5C \<or> c = CHR ''/''"

definition is_colon :: "char \<Rightarrow> bool" where
  "is_colon c \<longleftrightarrow> c = CHR '':''"

definition EXTENDED_PREFIX :: str where
  "EXTENDED_PREFIX = [CHR 0x5C, CHR 0x5C, CHR ''?'', CHR 0x5C]"

definition split_path :: "str \<Rightarrow> str list" where
  "split_path path =
     (let stripped = unwrap_or path (strip_prefix EXTENDED_PREFIX path);
          trimmed = trim_start_matches
            (\<lambda>c. is_ascii_alphabetic c \<and> get_slice path 1 2 = Some '':'') stripped
      in filter (\<lambda>part. part \<noteq> [])
           (map (trim_end_matches is_colon)
              (filter (\<lambda>part. part \<noteq> [] \<and> part \<noteq> '':'') (split_on is_separator trimmed))))"

fun resolve_components :: "(str \<Rightarrow> str) \<Rightarrow> volume_index \<Rightarrow> u32 \<Rightarrow> str list \<Rightarrow> u32 option" where
  "resolve_components lower vi current [] = Some current"
| "resolve_components lower vi current (component # rest) =
     (case find (\<lambda>index. case entry_at vi index of
                          None \<Rightarrow> False
                        | Some entry \<Rightarrow> lower (ename entry) = lower component)
            (children_of vi current) of
        None \<Rightarrow> None
      | Some next_index \<Rightarrow> resolve_components lower vi next_index rest)"

definition resolve :: "(str \<Rightarrow> str) \<Rightarrow> volume_index \<Rightarrow> str \<Rightarrow> u32 option" where
  "resolve lower vi path = resolve_components lower vi (root (snapshot vi)) (split_path path)"

text \<open>
  The bounded walk up the parent references: \<open>n\<close> rounds are left and \<open>parts\<close> holds the names
  met so far, outermost first.
\<close>

fun parent_walk ::
  "(u32 \<Rightarrow> mft_entry option) \<Rightarrow> u32 \<Rightarrow> nat \<Rightarrow> u32 \<Rightarrow> str list \<Rightarrow> str list option" where
  "parent_walk lookup rt 0 current parts = None"
| "parent_walk lookup rt (Suc n) current parts =
     (if current = rt then Some parts
      else (case lookup current of
              None \<Rightarrow> None
            | Some entry \<Rightarrow> parent_walk lookup rt n (parent entry) (ename entry # parts)))"

definition render_path :: "str \<Rightarrow> str list \<Rightarrow> str" where
  "render_path label parts =
     trim_end_matches is_separator label @ concat (map (\<lambda>part. CHR 0x5C # part) parts)"

definition path_of :: "volume_index \<Rightarrow> u32 \<Rightarrow> str \<Rightarrow> str option" where
  "path_of vi index root_label =
     map_option (render_path root_label)
       (parent_walk (entry_at vi) (root (snapshot vi)) 64 index [])"

definition size_of :: "(str \<Rightarrow> str) \<Rightarrow> volume_index \<Rightarrow> str \<Rightarrow> u64 option" where
  "size_of lower vi path =
     (case resolve lower vi path of None \<Rightarrow> None | Some index \<Rightarrow>
      (case entry_at vi index of None \<Rightarrow> None | Some entry \<Rightarrow>
        Some (if is_directory entry then total_of vi index else ebytes entry)))"

end
