(* ===== verification/Kam_Index_Totals.thy ===== *)
theory Kam_Index_Totals
  imports Kam_Index
begin

text \<open>
  Totalling directories bottom-up is correct: the stack loop gives every directory that hangs
  from the root the sum of the files below it and the number of files in it, whatever the rest
  of the table holds. The only thing the loop needs to know of its caller is which children a
  record has; that is the locale \<open>dir_forest\<close>, interpreted for the map \<open>build\<close> makes.
\<close>

section \<open>The tree a table describes\<close>

definition dir_edge :: "(u32 \<times> mft_entry) list \<Rightarrow> u32 \<Rightarrow> (u32 \<times> u32) set" where
  "dir_edge es rt = {(k, p). \<exists>e. (k, e) \<in> set es \<and> is_directory e \<and> k \<noteq> rt \<and> parent e = p}"

text \<open>The directories in or below \<open>d\<close>.\<close>

definition subtree :: "(u32 \<times> mft_entry) list \<Rightarrow> u32 \<Rightarrow> u32 \<Rightarrow> u32 set" where
  "subtree es rt d = {x. (x, d) \<in> (dir_edge es rt)\<^sup>*}"

text \<open>The files whose parent is in or below \<open>d\<close>, their total, and the files directly in \<open>d\<close>.\<close>

definition files_below :: "(u32 \<times> mft_entry) list \<Rightarrow> u32 \<Rightarrow> u32 \<Rightarrow> (u32 \<times> mft_entry) set" where
  "files_below es rt d = {(k, e) \<in> set es. k \<noteq> rt \<and> \<not> is_directory e \<and> parent e \<in> subtree es rt d}"

definition total_spec :: "(u32 \<times> mft_entry) list \<Rightarrow> u32 \<Rightarrow> u32 \<Rightarrow> u64" where
  "total_spec es rt d = (\<Sum>(k, e) \<in> files_below es rt d. ebytes e)"

definition files_in :: "(u32 \<times> mft_entry) list \<Rightarrow> u32 \<Rightarrow> u32 \<Rightarrow> (u32 \<times> mft_entry) set" where
  "files_in es rt d = {(k, e) \<in> set es. k \<noteq> rt \<and> \<not> is_directory e \<and> parent e = d}"

definition files_spec :: "(u32 \<times> mft_entry) list \<Rightarrow> u32 \<Rightarrow> u32 \<Rightarrow> u64" where
  "files_spec es rt d = word_of_nat (card (files_in es rt d))"

definition over :: "('a \<rightharpoonup> 'b) \<Rightarrow> 'a set \<Rightarrow> ('a \<Rightarrow> 'b) \<Rightarrow> ('a \<rightharpoonup> 'b)" where
  "over m A f = (\<lambda>x. if x \<in> A then Some (f x) else m x)"

lemma over_over: "over (over m A f) B f = over m (A \<union> B) f"
  by (auto simp: over_def fun_eq_iff)

lemma dir_edge_right_unique:
  assumes "distinct (map fst es)" and "(k, p) \<in> dir_edge es rt" and "(k, q) \<in> dir_edge es rt"
  shows "p = q"
  using assms by (auto simp: dir_edge_def) (metis eq_key_imp_eq_value)

lemma root_no_edge: "(rt, p) \<notin> dir_edge es rt"
  by (simp add: dir_edge_def)

lemma finite_subtree: "finite (subtree es rt d)"
proof (rule finite_subset)
  show "subtree es rt d \<subseteq> insert d (fst ` set es)"
  proof
    fix x
    assume "x \<in> subtree es rt d"
    then have "(x, d) \<in> (dir_edge es rt)\<^sup>*" by (simp add: subtree_def)
    then show "x \<in> insert d (fst ` set es)"
      by (cases rule: converse_rtranclE) (force simp: dir_edge_def)+
  qed
qed simp

lemma subtree_refl [simp]: "d \<in> subtree es rt d"
  by (simp add: subtree_def)

lemma anchored_acyclic:
  assumes "distinct (map fst es)" and "(d, rt) \<in> (dir_edge es rt)\<^sup>*"
  shows "(d, d) \<notin> (dir_edge es rt)\<^sup>+"
  using assms(2)
proof (induction rule: converse_rtrancl_induct)
  case base
  then show ?case using root_no_edge by (metis tranclD)
next
  case (step y z)
  show ?case
  proof
    assume "(y, y) \<in> (dir_edge es rt)\<^sup>+"
    then obtain z' where z': "(y, z') \<in> dir_edge es rt" "(z', y) \<in> (dir_edge es rt)\<^sup>*"
      by (metis tranclD)
    then have "z' = z" using dir_edge_right_unique [OF assms(1)] step(1) by blast
    with z'(2) step(1) have "(z, z) \<in> (dir_edge es rt)\<^sup>+" by (meson rtrancl_into_trancl1)
    with step.IH show False by blast
  qed
qed

lemma chain_linear:
  assumes "distinct (map fst es)" and "(x, a) \<in> (dir_edge es rt)\<^sup>*" and "(x, b) \<in> (dir_edge es rt)\<^sup>*"
  shows "(a, b) \<in> (dir_edge es rt)\<^sup>* \<or> (b, a) \<in> (dir_edge es rt)\<^sup>*"
  using assms(2,3)
proof (induction rule: converse_rtrancl_induct)
  case base
  then show ?case by blast
next
  case (step x y)
  from step.prems show ?case
  proof (cases rule: converse_rtranclE)
    case base
    then show ?thesis using step(1,2) by (meson converse_rtrancl_into_rtrancl)
  next
    case (step z)
    then have "z = y" using dir_edge_right_unique [OF assms(1)] \<open>(x, y) \<in> dir_edge es rt\<close> by blast
    then show ?thesis using step(2) step.IH by blast
  qed
qed

lemma parent_not_below:
  assumes "distinct (map fst es)" and "(d, rt) \<in> (dir_edge es rt)\<^sup>*" and "(c, d) \<in> dir_edge es rt"
  shows "d \<notin> subtree es rt c"
  using anchored_acyclic [OF assms(1,2)] assms(3) by (auto simp: subtree_def) (meson rtrancl_into_trancl1)

lemma siblings_disjoint:
  assumes "distinct (map fst es)" and "(d, rt) \<in> (dir_edge es rt)\<^sup>*"
    and "(a, d) \<in> dir_edge es rt" and "(b, d) \<in> dir_edge es rt" and "a \<noteq> b"
  shows "subtree es rt a \<inter> subtree es rt b = {}"
proof (rule ccontr)
  have no: "(c, c') \<notin> (dir_edge es rt)\<^sup>*" if "(c, d) \<in> dir_edge es rt" "(c', d) \<in> dir_edge es rt" "c \<noteq> c'" for c c'
  proof
    assume "(c, c') \<in> (dir_edge es rt)\<^sup>*"
    then obtain z where "(c, z) \<in> dir_edge es rt" "(z, c') \<in> (dir_edge es rt)\<^sup>*"
      using \<open>c \<noteq> c'\<close> by (metis converse_rtranclE)
    then have "(d, c') \<in> (dir_edge es rt)\<^sup>*" using dir_edge_right_unique [OF assms(1)] that(1) by blast
    then have "d \<in> subtree es rt c'" by (simp add: subtree_def)
    with parent_not_below [OF assms(1,2) that(2)] show False by blast
  qed
  assume "subtree es rt a \<inter> subtree es rt b \<noteq> {}"
  then obtain x where "(x, a) \<in> (dir_edge es rt)\<^sup>*" "(x, b) \<in> (dir_edge es rt)\<^sup>*"
    by (auto simp: subtree_def)
  with chain_linear [OF assms(1)] no assms(3-5) show False by metis
qed

definition subdirs :: "(u32 \<times> mft_entry) list \<Rightarrow> u32 \<Rightarrow> u32 \<Rightarrow> u32 set" where
  "subdirs es rt d = {c. (c, d) \<in> dir_edge es rt}"

lemma subtree_unfold: "subtree es rt d = insert d (\<Union>c \<in> subdirs es rt d. subtree es rt c)"
proof (rule set_eqI)
  fix x
  show "x \<in> subtree es rt d \<longleftrightarrow> x \<in> insert d (\<Union>c \<in> subdirs es rt d. subtree es rt c)"
    by (auto simp: subtree_def subdirs_def elim: rtranclE intro: rtrancl_into_rtrancl)
qed

lemma finite_subdirs: "finite (subdirs es rt d)"
  by (rule finite_subset [OF _ finite_subtree [of es rt d]])
     (auto simp: subdirs_def subtree_def)

lemma total_spec_unfold:
  assumes "distinct (map fst es)" and "(d, rt) \<in> (dir_edge es rt)\<^sup>*"
  shows "total_spec es rt d =
     (\<Sum>(k, e) \<in> files_in es rt d. ebytes e) + (\<Sum>c \<in> subdirs es rt d. total_spec es rt c)"
proof -
  let ?C = "subdirs es rt d"
  have split: "files_below es rt d = files_in es rt d \<union> (\<Union>c \<in> ?C. files_below es rt c)"
    using subtree_unfold [of es rt d] by (auto simp: files_below_def files_in_def)
  have fin: "finite (files_below es rt x)" for x
    by (rule finite_subset [of _ "set es"]) (auto simp: files_below_def)
  have fin': "finite (files_in es rt d)"
    by (rule finite_subset [of _ "set es"]) (auto simp: files_in_def)
  have dis: "files_in es rt d \<inter> (\<Union>c \<in> ?C. files_below es rt c) = {}"
    using parent_not_below [OF assms] by (auto simp: files_below_def files_in_def subdirs_def)
  have pair: "\<forall>a \<in> ?C. \<forall>b \<in> ?C. a \<noteq> b \<longrightarrow> files_below es rt a \<inter> files_below es rt b = {}"
    using siblings_disjoint [OF assms] by (fastforce simp: files_below_def subdirs_def)
  have "total_spec es rt d = (\<Sum>(k, e) \<in> files_in es rt d. ebytes e)
      + (\<Sum>(k, e) \<in> (\<Union>c \<in> ?C. files_below es rt c). ebytes e)"
    unfolding total_spec_def split using fin fin' dis finite_subdirs by (intro sum.union_disjoint) auto
  also have "(\<Sum>(k, e) \<in> (\<Union>c \<in> ?C. files_below es rt c). ebytes e) = (\<Sum>c \<in> ?C. total_spec es rt c)"
    unfolding total_spec_def using fin finite_subdirs pair by (intro sum.UNION_disjoint) auto
  finally show ?thesis .
qed

section \<open>The loop\<close>

lemma push_children_all:
  "distinct cs \<Longrightarrow> \<forall>c \<in> set cs. is_dir_entry es c \<longrightarrow> c \<notin> V \<Longrightarrow>
     push_children es cs stk V =
       (map (\<lambda>c. (c, False)) (rev (filter (is_dir_entry es) cs)) @ stk, V \<union> set (filter (is_dir_entry es) cs))"
proof (induction cs arbitrary: stk V)
  case (Cons a cs)
  have "\<forall>c \<in> set cs. is_dir_entry es c \<longrightarrow> c \<notin> insert a V" using Cons.prems by auto
  then have "push_children es cs stk' (insert a V) =
      (map (\<lambda>c. (c, False)) (rev (filter (is_dir_entry es) cs)) @ stk',
       insert a V \<union> set (filter (is_dir_entry es) cs))" for stk'
    using Cons.prems(1) by (intro Cons.IH) simp_all
  then show ?case using Cons by auto
qed simp

lemma sum_children_eq:
  assumes "\<forall>c \<in> set cs. map_of es c \<noteq> None"
  shows "sum_children es tot cs s f =
    (s + (\<Sum>c \<leftarrow> cs. if is_dir_entry es c then unwrap_or 0 (tot c) else ebytes (the (map_of es c))),
     f + word_of_nat (length (filter (\<lambda>c. \<not> is_dir_entry es c) cs)))"
  using assms by (induction cs arbitrary: s f) (auto simp: is_dir_entry_def add.assoc split: option.splits)

locale dir_forest =
  fixes es :: "(u32 \<times> mft_entry) list" and rt :: u32 and ch :: child_map
  assumes children_law: "unwrap_or [] (ch p) = map fst (filter (\<lambda>(k, e). k \<noteq> rt \<and> parent e = p) es)"
begin

lemma distinct_children: "distinct (map fst es) \<Longrightarrow> distinct (unwrap_or [] (ch p))"
  unfolding children_law by (simp add: distinct_map_filter)

lemma dir_child_iff:
  "distinct (map fst es) \<Longrightarrow> c \<in> set (unwrap_or [] (ch d)) \<and> is_dir_entry es c \<longleftrightarrow> c \<in> subdirs es rt d"
  unfolding children_law
  by (auto simp: is_dir_entry_def subdirs_def dir_edge_def map_of_eq_Some_iff split: option.splits)
     (force dest: eq_key_imp_eq_value simp: image_iff)+

lemma children_sum:
  assumes "distinct (map fst es)" and "(d, rt) \<in> (dir_edge es rt)\<^sup>*"
    and "\<forall>c \<in> subdirs es rt d. tot c = Some (total_spec es rt c)"
  shows "sum_children es tot (unwrap_or [] (ch d)) 0 0 = (total_spec es rt d, files_spec es rt d)"
proof -
  let ?cs = "unwrap_or [] (ch d)"
  let ?val = "\<lambda>c. if is_dir_entry es c then unwrap_or 0 (tot c) else ebytes (the (map_of es c))"
  let ?files = "filter (\<lambda>c. \<not> is_dir_entry es c) ?cs"
  have known: "map_of es c \<noteq> None" if "c \<in> set ?cs" for c
    using that unfolding children_law by (auto simp: map_of_eq_None_iff)
  have D: "set (filter (is_dir_entry es) ?cs) = subdirs es rt d"
    using dir_child_iff [OF assms(1)] by auto
  have inj: "inj_on fst (files_in es rt d)"
    using assms(1) by (auto simp: inj_on_def files_in_def dest: eq_key_imp_eq_value)
  have F: "set ?files = fst ` files_in es rt d"
  proof -
    have dir: "is_dir_entry es k = is_directory e" if "(k, e) \<in> set es" for k e
      using that assms(1) by (simp add: is_dir_entry_def)
    have "c \<in> set ?files \<longleftrightarrow> (\<exists>e. (c, e) \<in> files_in es rt d)" for c
      unfolding children_law by (force simp: dir files_in_def)
    then show ?thesis by force
  qed
  have dist: "distinct ?cs" by (rule distinct_children [OF assms(1)])
  have cnt: "length ?files = card (files_in es rt d)"
  proof -
    have "length ?files = card (set ?files)" using dist by (simp only: distinct_card distinct_filter)
    also have "\<dots> = card (files_in es rt d)" unfolding F by (rule card_image [OF inj])
    finally show ?thesis .
  qed
  have "(\<Sum>c \<leftarrow> ?cs. ?val c) = (\<Sum>c \<in> set ?cs. ?val c)" by (rule sum_list_distinct_conv_sum_set [OF dist])
  also have "set ?cs = set ?files \<union> set (filter (is_dir_entry es) ?cs)" by auto
  also have "(\<Sum>c \<in> set ?files \<union> set (filter (is_dir_entry es) ?cs). ?val c)
      = (\<Sum>c \<in> set ?files. ?val c) + (\<Sum>c \<in> set (filter (is_dir_entry es) ?cs). ?val c)"
    by (rule sum.union_disjoint) auto
  also have "(\<Sum>c \<in> set (filter (is_dir_entry es) ?cs). ?val c) = (\<Sum>c \<in> subdirs es rt d. total_spec es rt c)"
  proof (rule sum.cong [OF D])
    fix c
    assume c: "c \<in> subdirs es rt d"
    then have "is_dir_entry es c" using D by auto
    with c assms(3) show "?val c = total_spec es rt c" by simp
  qed
  also have "(\<Sum>c \<in> set ?files. ?val c) = (\<Sum>(k, e) \<in> files_in es rt d. ebytes e)"
    unfolding F using inj assms(1)
    by (subst sum.reindex) (auto simp: files_in_def is_dir_entry_def intro!: sum.cong)
  finally have "(\<Sum>c \<leftarrow> ?cs. ?val c) = total_spec es rt d"
    using total_spec_unfold [OF assms(1,2)] by simp
  then show ?thesis using sum_children_eq [of ?cs es tot 0 0] known cnt by (simp add: files_spec_def)
qed

lemma loop_siblings:
  assumes "\<And>c V T F stk. c \<in> set ds \<Longrightarrow> c \<in> V \<Longrightarrow> (subtree es rt c - {c}) \<inter> V = {} \<Longrightarrow>
      total_loop es ch ((c, False) # stk) V T F =
      total_loop es ch stk (V \<union> subtree es rt c) (over T (subtree es rt c) (total_spec es rt))
        (over F (subtree es rt c) (files_spec es rt))"
    and "distinct ds" and "\<forall>a \<in> set ds. \<forall>b \<in> set ds. a \<noteq> b \<longrightarrow> subtree es rt a \<inter> subtree es rt b = {}"
    and "set ds \<subseteq> V" and "\<forall>c \<in> set ds. (subtree es rt c - {c}) \<inter> V = {}"
  shows "total_loop es ch (map (\<lambda>c. (c, False)) ds @ stk) V T F =
      total_loop es ch stk (V \<union> (\<Union>c \<in> set ds. subtree es rt c))
        (over T (\<Union>c \<in> set ds. subtree es rt c) (total_spec es rt))
        (over F (\<Union>c \<in> set ds. subtree es rt c) (files_spec es rt))"
  using assms
proof (induction ds arbitrary: V T F)
  case Nil
  then show ?case by (simp add: over_def)
next
  case (Cons c ds)
  let ?V = "V \<union> subtree es rt c"
  have "(subtree es rt b - {b}) \<inter> ?V = {}" if "b \<in> set ds" for b
  proof -
    have "b \<noteq> c" using that Cons.prems(2) by auto
    then have "subtree es rt b \<inter> subtree es rt c = {}" using that Cons.prems(3) by simp
    then show ?thesis using that Cons.prems(5) by auto
  qed
  then have "total_loop es ch (map (\<lambda>c. (c, False)) ds @ stk) ?V T' F' =
      total_loop es ch stk (?V \<union> (\<Union>c \<in> set ds. subtree es rt c))
        (over T' (\<Union>c \<in> set ds. subtree es rt c) (total_spec es rt))
        (over F' (\<Union>c \<in> set ds. subtree es rt c) (files_spec es rt))" for T' F'
    using Cons.prems by (intro Cons.IH) auto
  moreover have "total_loop es ch ((c, False) # map (\<lambda>c. (c, False)) ds @ stk) V T F =
      total_loop es ch (map (\<lambda>c. (c, False)) ds @ stk) ?V (over T (subtree es rt c) (total_spec es rt))
        (over F (subtree es rt c) (files_spec es rt))"
    using Cons.prems by (intro Cons.prems(1)) auto
  ultimately show ?case by (simp add: over_over Un_assoc)
qed

lemma loop_subtree:
  assumes "distinct (map fst es)"
  shows "(d, rt) \<in> (dir_edge es rt)\<^sup>* \<Longrightarrow> d \<in> V \<Longrightarrow> (subtree es rt d - {d}) \<inter> V = {} \<Longrightarrow>
    total_loop es ch ((d, False) # stk) V T F =
      total_loop es ch stk (V \<union> subtree es rt d) (over T (subtree es rt d) (total_spec es rt))
        (over F (subtree es rt d) (files_spec es rt))"
proof (induction "card (subtree es rt d)" arbitrary: d V T F stk rule: less_induct)
  case less
  let ?cs = "unwrap_or [] (ch d)" and ?C = "subdirs es rt d"
  let ?ds = "rev (filter (is_dir_entry es) ?cs)" and ?S = "\<Union>c \<in> ?C. subtree es rt c"
  have ds: "set ?ds = ?C" using dir_child_iff [OF assms] by auto
  have dist: "distinct ?cs" by (rule distinct_children [OF assms])
  have S: "subtree es rt d = insert d ?S" by (rule subtree_unfold)
  have dS: "d \<notin> ?S" using parent_not_below [OF assms less.prems(1)] by (auto simp: subdirs_def)
  have CS: "?C \<subseteq> ?S" using subtree_refl by blast
  have pair: "\<forall>a \<in> set ?ds. \<forall>b \<in> set ?ds. a \<noteq> b \<longrightarrow> subtree es rt a \<inter> subtree es rt b = {}"
    unfolding ds using siblings_disjoint [OF assms less.prems(1)] by (simp add: subdirs_def)
  have fresh: "?S \<inter> V = {}" using less.prems(3) S dS by auto
  have push: "push_children es ?cs ((d, True) # stk) V =
      (map (\<lambda>c. (c, False)) ?ds @ (d, True) # stk, V \<union> ?C)"
  proof -
    have "set (filter (is_dir_entry es) ?cs) = ?C" using ds by simp
    moreover have "\<forall>c \<in> set ?cs. is_dir_entry es c \<longrightarrow> c \<notin> V"
      using dir_child_iff [OF assms] CS fresh by blast
    ultimately show ?thesis using push_children_all [OF dist] by metis
  qed
  have anch: "(c, rt) \<in> (dir_edge es rt)\<^sup>*" "card (subtree es rt c) < card (subtree es rt d)" if "c \<in> ?C" for c
  proof -
    show "(c, rt) \<in> (dir_edge es rt)\<^sup>*"
      using that less.prems(1) by (simp add: subdirs_def converse_rtrancl_into_rtrancl)
    show "card (subtree es rt c) < card (subtree es rt d)"
    proof (rule psubset_card_mono [OF finite_subtree])
      show "subtree es rt c \<subset> subtree es rt d" using that S dS by blast
    qed
  qed
  have fr: "(subtree es rt c - {c}) \<inter> (V \<union> ?C) = {}" if "c \<in> ?C" for c
  proof -
    have "subtree es rt c \<inter> V = {}" using that fresh by blast
    moreover have "b \<notin> subtree es rt c" if "b \<in> ?C" "b \<noteq> c" for b
      using pair \<open>c \<in> ?C\<close> that unfolding ds by (metis disjoint_iff subtree_refl)
    ultimately show ?thesis by blast
  qed
  have sib: "total_loop es ch (map (\<lambda>c. (c, False)) ?ds @ (d, True) # stk) (V \<union> ?C) T F =
      total_loop es ch ((d, True) # stk) (V \<union> ?C \<union> (\<Union>c \<in> set ?ds. subtree es rt c))
        (over T (\<Union>c \<in> set ?ds. subtree es rt c) (total_spec es rt))
        (over F (\<Union>c \<in> set ?ds. subtree es rt c) (files_spec es rt))"
  proof (rule loop_siblings)
    show "distinct ?ds" using dist by simp
    show "set ?ds \<subseteq> V \<union> ?C" using ds by blast
    show "\<forall>c \<in> set ?ds. (subtree es rt c - {c}) \<inter> (V \<union> ?C) = {}" unfolding ds using fr by blast
  qed (use pair anch less.hyps ds in blast)+
  have V: "V \<union> ?C \<union> ?S = V \<union> subtree es rt d" using S CS less.prems(2) by auto
  let ?T = "over T ?S (total_spec es rt)" and ?F = "over F ?S (files_spec es rt)"
  have sum: "sum_children es ?T ?cs 0 0 = (total_spec es rt d, files_spec es rt d)"
    by (rule children_sum [OF assms less.prems(1)]) (use CS in \<open>auto simp: over_def\<close>)
  have fin: "?T(d \<mapsto> total_spec es rt d) = over T (subtree es rt d) (total_spec es rt)"
    "?F(d \<mapsto> files_spec es rt d) = over F (subtree es rt d) (files_spec es rt)"
    using S by (auto simp: over_def fun_eq_iff)
  show ?case
    using push sib sum unfolding ds by (simp add: V fin)
qed

lemma totals_correct:
  assumes "distinct (map fst es)"
  shows "total_directories es rt ch =
    (over Map.empty (subtree es rt rt) (total_spec es rt),
     over Map.empty (subtree es rt rt) (files_spec es rt))"
  unfolding total_directories_def by (subst loop_subtree [OF assms]) auto

end

section \<open>The map \<open>build\<close> makes\<close>

lemma push_entry_lookup: "unwrap_or [] (push_entry m k v p) = (if p = k then unwrap_or [] (m k) @ [v] else unwrap_or [] (m p))"
  by (simp add: push_entry_def)

lemma build_maps_children:
  "unwrap_or [] (bs_children (build_maps rt es) p) = map fst (filter (\<lambda>(k, e). k \<noteq> rt \<and> parent e = p) es)"
  unfolding build_maps_def
  by (induction es rule: rev_induct)
     (auto simp: empty_build_def build_step_def Let_def push_entry_lookup split: prod.splits)

lemma build_maps_directories:
  "unwrap_or [] (bs_directories (build_maps rt es) p)
     = map fst (filter (\<lambda>(k, e). k \<noteq> rt \<and> parent e = p \<and> is_directory e) es)"
  unfolding build_maps_def
  by (induction es rule: rev_induct)
     (auto simp: empty_build_def build_step_def Let_def push_entry_lookup split: prod.splits)

lemma build_maps_counts:
  "bs_files (build_maps rt es) = word_of_nat (length (filter (\<lambda>(k, e). \<not> is_directory e) es))
   \<and> bs_dirs (build_maps rt es) = word_of_nat (length (filter (\<lambda>(k, e). is_directory e) es))
   \<and> bs_bytes (build_maps rt es) = (\<Sum>(k, e) \<leftarrow> es. if is_directory e then 0 else ebytes e)"
  unfolding build_maps_def
  by (induction es rule: rev_induct)
     (auto simp: empty_build_def build_step_def Let_def split: prod.splits)

interpretation built: dir_forest es rt "bs_children (build_maps rt es)" for es rt
  by unfold_locales (rule build_maps_children)

lemma entry_at_build: "entry_at (build snap) k = map_of (entries snap) k"
  by (simp add: entry_at_def build_def Let_def split: prod.split)

lemma build_fields:
  "snapshot (build snap) = snap"
  "children (build snap) = bs_children (build_maps (root snap) (entries snap))"
  "directories (build snap) = bs_directories (build_maps (root snap) (entries snap))"
  "totals (build snap) = fst (total_directories (entries snap) (root snap) (children (build snap)))"
  "direct_files (build snap) = snd (total_directories (entries snap) (root snap) (children (build snap)))"
  "vi_file_count (build snap) = bs_files (build_maps (root snap) (entries snap))"
  "vi_directory_count (build snap) = bs_dirs (build_maps (root snap) (entries snap))"
  "vi_total_bytes (build snap) = bs_bytes (build_maps (root snap) (entries snap))"
  by (simp_all add: build_def Let_def split: prod.split)

section \<open>Properties\<close>

text \<open>C12: the total of a directory is the sum of the files below it. For a table whose record numbers
  are distinct, every directory that hangs from the root is given exactly the sum of the sizes of
  the files whose parent is that directory or one below it, and the number of files directly in
  it; a record that does not hang from the root is given nothing. Corrupted parent references
  elsewhere in the table, cycles included, change none of this, and the loop ends.\<close>

theorem build_totals_correct:
  assumes "distinct (map fst (entries snap))"
  shows "total_of (build snap) d =
      (if d \<in> subtree (entries snap) (root snap) (root snap)
       then (\<Sum>(k, e) \<in> files_below (entries snap) (root snap) d. ebytes e) else 0)
    \<and> direct_files_in (build snap) d =
      (if d \<in> subtree (entries snap) (root snap) (root snap)
       then word_of_nat (card (files_in (entries snap) (root snap) d)) else 0)"
  by (simp add: total_of_def direct_files_in_def build_fields built.totals_correct [OF assms]
      over_def total_spec_def files_spec_def)

definition index_sample :: mft_snapshot where
  "index_sample =
     \<lparr>entries =
       [(5, \<lparr>parent = 5, ename = ''.'', is_directory = True, ebytes = 0, modified = 0, created = 0, accessed = 0\<rparr>),
        (6, \<lparr>parent = 5, ename = ''Users'', is_directory = True, ebytes = 0, modified = 0, created = 0, accessed = 0\<rparr>),
        (7, \<lparr>parent = 6, ename = ''a.txt'', is_directory = False, ebytes = 10, modified = 0, created = 0, accessed = 0\<rparr>),
        (8, \<lparr>parent = 5, ename = ''b.bin'', is_directory = False, ebytes = 32, modified = 0, created = 0, accessed = 0\<rparr>),
        (9, \<lparr>parent = 9, ename = ''loop'', is_directory = True, ebytes = 0, modified = 0, created = 0, accessed = 0\<rparr>)],
      root = 5, skipped = 0, stats = default_stats\<rparr>"

lemma index_sample_distinct: "distinct (map fst (entries index_sample))"
  by (simp add: index_sample_def)

lemma index_sample_total: "total_of (build index_sample) 5 = 42"
  by (simp add: total_of_def build_fields index_sample_def total_directories_def build_maps_def
      build_step_def push_entry_def empty_build_def is_dir_entry_def)

theorem build_totals_correct_witness:
  "(\<Sum>(k, e) \<in> files_below (entries index_sample) 5 5. ebytes e) = 42
   \<and> total_of (build index_sample) 5 = 42"
proof -
  have r: "root index_sample = 5" by (simp add: index_sample_def)
  show ?thesis
    using build_totals_correct [OF index_sample_distinct, of 5] index_sample_total
    by (simp add: r)
qed

text \<open>The counters and child lists of the index. The counts are those of the files and of the
  directories of the table, the volume total is the sum of the file sizes, and the children of a
  record are the records other than the root that name it as their parent, in the order of the
  table, with the directory lists holding the directories among them.\<close>

theorem build_counts_and_children:
  "file_count (build snap) = word_of_nat (length (filter (\<lambda>(k, e). \<not> is_directory e) (entries snap)))
   \<and> directory_count (build snap) = word_of_nat (length (filter (\<lambda>(k, e). is_directory e) (entries snap)))
   \<and> total_bytes (build snap) = (\<Sum>(k, e) \<leftarrow> entries snap. if is_directory e then 0 else ebytes e)
   \<and> children_of (build snap) p =
       map fst (filter (\<lambda>(k, e). k \<noteq> root snap \<and> parent e = p) (entries snap))
   \<and> directories_in (build snap) p =
       map fst (filter (\<lambda>(k, e). k \<noteq> root snap \<and> parent e = p \<and> is_directory e) (entries snap))"
  using build_maps_counts [of "root snap" "entries snap"]
  by (simp add: file_count_def directory_count_def total_bytes_def children_of_def directories_in_def
      build_fields build_maps_children build_maps_directories)

end
