(* ===== verification/Kam_Index_Paths.thy ===== *)
theory Kam_Index_Paths
  imports Kam_Index_Totals
begin

text \<open>
  Paths of the index: a path rebuilt by \<open>path_of\<close> resolves to the record it was rebuilt for,
  the walk up the parents ends within its bound and fails exactly where the root is not met
  within it, and a path with the extended-length prefix keeps its drive letter.
\<close>

section \<open>Splitting a rendered path\<close>

lemma split_on_plain: "\<forall>c \<in> set w. \<not> p c \<Longrightarrow> split_on p (w @ rest) =
    (case split_on p rest of [] \<Rightarrow> [w] | v # vs \<Rightarrow> (w @ v) # vs)"
  by (induction w) (auto split: list.splits)

lemma split_on_rendered:
  assumes "p s" and "\<forall>c \<in> set w. \<not> p c" and "\<forall>part \<in> set parts. \<forall>c \<in> set part. \<not> p c"
  shows "split_on p (w @ concat (map (\<lambda>part. s # part) parts)) = w # parts"
  using assms(2,3)
proof (induction parts arbitrary: w)
  case Nil
  then show ?case using split_on_plain [of w p "[]"] by simp
next
  case (Cons q parts)
  then have "split_on p (q @ concat (map (\<lambda>part. s # part) parts)) = q # parts" by simp
  then show ?case using split_on_plain [OF Cons.prems(1)] assms(1) by simp
qed

definition clean_name :: "str \<Rightarrow> bool" where
  "clean_name n \<longleftrightarrow> n \<noteq> [] \<and> (\<forall>c \<in> set n. \<not> is_separator c \<and> \<not> is_colon c)"

lemma trim_end_clean: "clean_name n \<Longrightarrow> trim_end_matches is_colon n = n"
  by (cases n rule: rev_cases) (auto simp: clean_name_def trim_end_matches_def)

lemma split_path_rendered:
  assumes "is_ascii_alphabetic letter" and "\<forall>part \<in> set parts. clean_name part"
  shows "split_path ([letter, CHR '':''] @ concat (map (\<lambda>part. CHR 0x5C # part) parts)) = parts"
proof -
  let ?rest = "concat (map (\<lambda>part. CHR 0x5C # part) parts)"
  let ?path = "[letter, CHR '':''] @ ?rest"
  have "letter \<noteq> CHR 0x5C" using assms(1) by (auto simp: is_ascii_alphabetic_def)
  then have strip: "strip_prefix EXTENDED_PREFIX ?path = None"
    by (simp add: strip_prefix_def EXTENDED_PREFIX_def)
  have second: "get_slice ?path 1 2 = Some '':''" by (simp add: get_slice_def)
  have notalpha: "\<not> is_ascii_alphabetic (CHR '':'')" by (simp add: is_ascii_alphabetic_def)
  have trim: "trim_start_matches (\<lambda>c. is_ascii_alphabetic c \<and> get_slice ?path 1 2 = Some '':'') ?path
      = '':'' @ ?rest"
    unfolding second using assms(1) notalpha by (simp add: trim_start_matches_def)
  have split: "split_on is_separator ('':'' @ ?rest) = '':'' # parts"
  proof (rule split_on_rendered)
    show "is_separator (CHR 0x5C)" by (simp add: is_separator_def)
    show "\<forall>c \<in> set '':''. \<not> is_separator c" by (simp add: is_separator_def)
    show "\<forall>part \<in> set parts. \<forall>c \<in> set part. \<not> is_separator c"
      using assms(2) by (simp add: clean_name_def)
  qed
  have keep: "filter (\<lambda>part. part \<noteq> [] \<and> part \<noteq> '':'') ('':'' # parts) = parts"
  proof -
    have "part \<noteq> [] \<and> part \<noteq> '':''" if "part \<in> set parts" for part
      using assms(2) that unfolding clean_name_def is_colon_def by fastforce
    then show ?thesis by (simp add: filter_id_conv)
  qed
  have same: "map (trim_end_matches is_colon) parts = parts"
    using assms(2) by (simp add: map_idI trim_end_clean)
  have "filter (\<lambda>part. part \<noteq> []) parts = parts" using assms(2) by (auto simp: clean_name_def filter_id_conv)
  then show ?thesis unfolding split_path_def Let_def strip unwrap_or_simps trim split keep same .
qed

section \<open>Walking up and resolving down\<close>

definition names_wf :: "(str \<Rightarrow> str) \<Rightarrow> mft_snapshot \<Rightarrow> bool" where
  "names_wf lower snap \<longleftrightarrow>
     distinct (map fst (entries snap)) \<and>
     list_all (\<lambda>(k, e). clean_name (ename e)) (entries snap) \<and>
     list_all (\<lambda>(k, e). list_all (\<lambda>(k', e'). k \<noteq> root snap \<and> k' \<noteq> root snap \<and> parent e = parent e'
         \<and> lower (ename e) = lower (ename e') \<longrightarrow> k = k') (entries snap)) (entries snap)"

lemma names_wf_lookup:
  assumes "names_wf lower snap" and "map_of (entries snap) k = Some e"
  shows "clean_name (ename e)"
  using assms by (fastforce simp: names_wf_def list_all_iff dest: map_of_SomeD)

lemma resolve_child:
  assumes wf: "names_wf lower snap" and k: "map_of (entries snap) k = Some e" "k \<noteq> root snap"
  shows "resolve_components lower (build snap) (parent e) [ename e] = Some k"
proof -
  let ?P = "\<lambda>i. case entry_at (build snap) i of None \<Rightarrow> False | Some x \<Rightarrow> lower (ename x) = lower (ename e)"
  let ?cs = "children_of (build snap) (parent e)"
  have cs: "?cs = map fst (filter (\<lambda>(j, x). j \<noteq> root snap \<and> parent x = parent e) (entries snap))"
    by (simp add: children_of_def build_fields build_maps_children)
  have kin: "k \<in> set ?cs" using k unfolding cs by (force dest: map_of_SomeD)
  have kP: "?P k" using k(1) by (simp add: entry_at_build)
  obtain x where x: "find ?P ?cs = Some x"
    using kin kP by (metis (no_types, lifting) find_None_iff option.exhaust)
  then have "x \<in> set ?cs" and xP: "?P x" by (auto simp: find_Some_iff)
  then obtain y where y: "(x, y) \<in> set (entries snap)" "x \<noteq> root snap" "parent y = parent e"
    unfolding cs by auto
  have dist: "distinct (map fst (entries snap))" using wf by (simp add: names_wf_def)
  have "lower (ename y) = lower (ename e)" using xP y(1) dist by (simp add: entry_at_build)
  then have "x = k"
    using wf y k map_of_SomeD [OF k(1)] by (fastforce simp: names_wf_def list_all_iff)
  with x show ?thesis by simp
qed

lemma resolve_append:
  "resolve_components lower vi c (as @ bs) =
     (case resolve_components lower vi c as of None \<Rightarrow> None | Some d \<Rightarrow> resolve_components lower vi d bs)"
  by (induction as arbitrary: c) (auto split: option.splits)

lemma parent_walk_resolves:
  assumes wf: "names_wf lower snap"
  shows "parent_walk (entry_at (build snap)) (root snap) n k acc = Some parts \<Longrightarrow>
    \<exists>names. parts = names @ acc \<and> list_all clean_name names
      \<and> resolve_components lower (build snap) (root snap) names = Some k"
proof (induction n arbitrary: k acc)
  case 0
  then show ?case by simp
next
  case (Suc n)
  show ?case
  proof (cases "k = root snap")
    case True
    then show ?thesis using Suc.prems by (intro exI [of _ "[]"]) simp
  next
    case False
    with Suc.prems obtain e where e': "entry_at (build snap) k = Some e"
        and walk: "parent_walk (entry_at (build snap)) (root snap) n (parent e) (ename e # acc) = Some parts"
      by (auto split: option.splits)
    from e' have e: "map_of (entries snap) k = Some e" by (simp add: entry_at_build)
    then obtain names where names: "parts = names @ ename e # acc" "list_all clean_name names"
        "resolve_components lower (build snap) (root snap) names = Some (parent e)"
      using Suc.IH [OF walk] by blast
    have "resolve_components lower (build snap) (root snap) (names @ [ename e]) = Some k"
      using names(3) resolve_child [OF wf e False] by (simp add: resolve_append del: resolve_components.simps)
    then show ?thesis
      using names names_wf_lookup [OF wf e] by (intro exI [of _ "names @ [ename e]"]) simp
  qed
qed

text \<open>The record \<open>k\<close> meets the root after exactly \<open>n\<close> steps up, every record on the way known.\<close>

fun hops :: "(u32 \<Rightarrow> mft_entry option) \<Rightarrow> u32 \<Rightarrow> nat \<Rightarrow> u32 \<Rightarrow> bool" where
  "hops lookup rt 0 k \<longleftrightarrow> k = rt"
| "hops lookup rt (Suc n) k \<longleftrightarrow>
     k \<noteq> rt \<and> (case lookup k of None \<Rightarrow> False | Some e \<Rightarrow> hops lookup rt n (parent e))"

lemma parent_walk_iff:
  "parent_walk lookup rt n k acc \<noteq> None \<longleftrightarrow> (\<exists>m < n. hops lookup rt m k)"
proof (induction n arbitrary: k acc)
  case 0
  then show ?case by simp
next
  case (Suc n)
  show ?case
  proof (cases "k = rt")
    case True
    then show ?thesis by (auto intro: exI [of _ 0])
  next
    case False
    then have "(\<exists>m < Suc n. hops lookup rt m k) \<longleftrightarrow> (\<exists>m < n. hops lookup rt (Suc m) k)"
      by (metis Suc_less_eq hops.simps(1) not0_implies_Suc)
    with False Suc.IH show ?thesis by (auto split: option.splits)
  qed
qed

lemma parent_walk_numeral [simp]:
  "parent_walk lookup rt (numeral v) current parts =
     (if current = rt then Some parts
      else (case lookup current of
              None \<Rightarrow> None
            | Some entry \<Rightarrow> parent_walk lookup rt (pred_numeral v) (parent entry) (ename entry # parts)))"
  unfolding numeral_eq_Suc [of v] by simp

section \<open>Properties\<close>

text \<open>A path the index rebuilds is a path the index resolves. On a table whose names hold no
  separator or colon and whose siblings differ after lower-casing, every record for which
  \<open>path_of\<close> gives a path under a drive letter is the record \<open>resolve\<close> finds for that path.\<close>

theorem resolve_path_of:
  assumes "names_wf lower snap" and "is_ascii_alphabetic letter"
    and "path_of (build snap) k [letter, CHR '':'', CHR 0x5C] = Some path"
  shows "resolve lower (build snap) path = Some k"
proof -
  obtain parts where walk: "parent_walk (entry_at (build snap)) (root snap) 64 k [] = Some parts"
      and path: "path = render_path [letter, CHR '':'', CHR 0x5C] parts"
    using assms(3) by (auto simp: path_of_def build_fields simp del: parent_walk_numeral)
  have parts: "list_all clean_name parts"
      "resolve_components lower (build snap) (root snap) parts = Some k"
    using parent_walk_resolves [OF assms(1) walk] by auto
  have label: "trim_end_matches is_separator [letter, CHR '':'', CHR 0x5C] = [letter, CHR '':'']"
    by (simp add: trim_end_matches_def is_separator_def)
  have "split_path path = parts"
    unfolding path render_path_def label using assms(2) parts(1)
    by (intro split_path_rendered) (simp_all add: list_all_iff)
  then show ?thesis using parts(2) by (simp add: resolve_def build_fields)
qed

lemma index_sample_names: "names_wf (\<lambda>s. s) index_sample"
  by (simp add: names_wf_def index_sample_def clean_name_def is_separator_def is_colon_def)

theorem resolve_path_of_witness:
  "resolve (\<lambda>s. s) (build index_sample) (''C:'' @ [CHR 0x5C] @ ''Users'' @ [CHR 0x5C] @ ''a.txt'') = Some 7"
proof (rule resolve_path_of [OF index_sample_names])
  show "is_ascii_alphabetic (CHR ''C'')" by (simp add: is_ascii_alphabetic_def)
  show "path_of (build index_sample) 7 [CHR ''C'', CHR '':'', CHR 0x5C]
      = Some (''C:'' @ [CHR 0x5C] @ ''Users'' @ [CHR 0x5C] @ ''a.txt'')"
    by (simp add: path_of_def build_fields entry_at_build index_sample_def render_path_def trim_end_matches_def is_separator_def)
qed

text \<open>Rebuilding a path always ends, and gives a path exactly for the records that meet the root
  in fewer than 64 steps up through known records. A cycle or a longer chain gives none.\<close>

theorem path_of_bounded:
  "path_of (build snap) k label \<noteq> None
     \<longleftrightarrow> (\<exists>m < 64. hops (map_of (entries snap)) (root snap) m k)"
proof -
  have "entry_at (build snap) = map_of (entries snap)" by (simp add: fun_eq_iff entry_at_build)
  then show ?thesis
    using parent_walk_iff [of "map_of (entries snap)" "root snap" 64 k "[]"]
    by (simp add: path_of_def build_fields del: parent_walk_numeral)
qed

text \<open>A path written with the extended-length prefix does not lose its drive letter. The prefix
  is removed, but whether a drive letter follows is asked of the unstripped path, so the letter
  stays as a first component and the path is looked up below a directory of that name.\<close>

theorem split_path_extended_keeps_drive:
  "split_path (EXTENDED_PREFIX @ ''C:'' @ [CHR 0x5C] @ ''Users'') = [''C'', ''Users'']
   \<and> split_path (''C:'' @ [CHR 0x5C] @ ''Users'') = [''Users'']"
  by (simp add: split_path_def EXTENDED_PREFIX_def strip_prefix_def get_slice_def trim_start_matches_def
      is_separator_def is_colon_def trim_end_matches_def is_ascii_alphabetic_def)

end
