(* ===== verification/Kam_Scan.thy ===== *)
theory Kam_Scan
  imports Kam_Index
begin

text \<open>
  Measuring where the space went, \<open>crates/kam-storage/src/scan.rs\<close>: the choice between the
  two routes, the tree built from a table snapshot, the directory walk with its worker threads,
  and the pruning of either tree for transport. The file system a walk meets is the argument: a
  tree of directory entries as \<open>read_dir\<close> and \<open>metadata\<close> report them. The atomic
  counters are the additions the walk performs, gathered as a list that the worker threads may
  execute in any order.
\<close>

section \<open>Data\<close>

definition DEFAULT_MAX_DEPTH :: nat where "DEFAULT_MAX_DEPTH = 4"
definition DEFAULT_MAX_CHILDREN :: nat where "DEFAULT_MAX_CHILDREN = 14"
definition LARGEST_FILES_KEPT :: nat where "LARGEST_FILES_KEPT = 25"
definition PARALLEL_DEPTH :: nat where "PARALLEL_DEPTH = 2"

definition BIG_FILE :: u64 where "BIG_FILE = 64 * 1024 * 1024"

datatype node =
  Node (node_name: str) (node_path: str) (node_bytes: u64) (node_files: u64)
    (node_children: "node list") (is_aggregate: bool)

datatype scan_method = MasterFileTable | DirectoryWalk

datatype file_entry = FileEntry (fe_path: str) (fe_bytes: u64)

record scan_result =
  scan_root :: str
  scan_how :: scan_method
  fallback_reason :: "str option"
  scan_total_bytes :: u64
  scan_file_count :: u64
  scan_directory_count :: u64
  unreadable :: u64
  elapsed_ms :: u64
  tree :: node
  largest :: "file_entry list"

record counters =
  c_bytes :: u64
  c_files :: u64
  c_directories :: u64
  c_unreadable :: u64

definition default_counters :: counters where
  "default_counters = \<lparr>c_bytes = 0, c_files = 0, c_directories = 0, c_unreadable = 0\<rparr>"

text \<open>One \<open>fetch_add\<close> on one of the counters.\<close>

datatype counter_add = AddBytes u64 | AddFiles u64 | AddDirectories u64 | AddUnreadable u64

fun fetch_add :: "counters \<Rightarrow> counter_add \<Rightarrow> counters" where
  "fetch_add c (AddBytes n) = c\<lparr>c_bytes := c_bytes c + n\<rparr>"
| "fetch_add c (AddFiles n) = c\<lparr>c_files := c_files c + n\<rparr>"
| "fetch_add c (AddDirectories n) = c\<lparr>c_directories := c_directories c + n\<rparr>"
| "fetch_add c (AddUnreadable n) = c\<lparr>c_unreadable := c_unreadable c + n\<rparr>"

section \<open>Choosing the route\<close>

definition volume_letter :: "str \<Rightarrow> char option" where
  "volume_letter path =
     (if (length path = 2 \<or> length path = 3)
         \<and> get_at path 1 = Some CHR '':''
         \<and> (case get_at path 0 of None \<Rightarrow> False | Some c \<Rightarrow> is_ascii_alphabetic c)
         \<and> (case get_at path 2 of None \<Rightarrow> True | Some c \<Rightarrow> c = CHR 0x5C \<or> c = CHR ''/'')
      then Some (to_ascii_uppercase (path ! 0)) else None)"

section \<open>Pruning\<close>

definition fold_tail :: "str \<Rightarrow> nat \<Rightarrow> node list \<Rightarrow> node list" where
  "fold_tail path max_children sorted_children =
     (if max_children < length sorted_children then
        (let tail = drop max_children sorted_children;
             kept = take max_children sorted_children;
             tail_bytes = (\<Sum>child \<leftarrow> tail. node_bytes child);
             tail_files = (\<Sum>child \<leftarrow> tail. node_files child)
         in if 0 < tail_bytes
            then kept @ [Node (show_nat (length tail) @ '' more'') path tail_bytes tail_files [] True]
            else kept)
      else sorted_children)"

function prune :: "node \<Rightarrow> nat \<Rightarrow> nat \<Rightarrow> nat \<Rightarrow> node" where
  "prune (Node nm path by files cs agg) depth max_depth max_children =
     (if max_depth \<le> depth \<or> cs = [] then Node nm path by files [] agg
      else Node nm path by files
        (map (\<lambda>child. prune child (depth + 1) max_depth max_children)
           (fold_tail path max_children (sort_desc_by (\<lambda>child. unat (node_bytes child)) cs)))
        agg)"
  by pat_completeness auto
termination by (relation "measure (\<lambda>(n, d, m, c). m - d)") auto

section \<open>From a table snapshot\<close>

definition join_path :: "str \<Rightarrow> str \<Rightarrow> str" where
  "join_path parent_path nm =
     (if parent_path \<noteq> [] \<and> is_separator (last parent_path) then parent_path @ nm
      else parent_path @ [CHR 0x5C] @ nm)"

text \<open>The first pass: the child lists and the counts.\<close>

definition scan_step :: "u32 \<Rightarrow> child_map \<times> u64 \<times> u64 \<times> u64 \<Rightarrow> u32 \<times> mft_entry
    \<Rightarrow> child_map \<times> u64 \<times> u64 \<times> u64" where
  "scan_step rt st ie =
     (case st of (ch, files, dirs, total_b) \<Rightarrow> (case ie of (index, entry) \<Rightarrow>
       (if index = rt then ch else push_entry ch (parent entry) index,
        if is_directory entry then files else files + 1,
        if is_directory entry then dirs + 1 else dirs,
        if is_directory entry then total_b else total_b + ebytes entry)))"

function build_branch ::
  "u32 \<Rightarrow> str \<Rightarrow> str \<Rightarrow> (u32 \<times> mft_entry) list \<Rightarrow> child_map \<Rightarrow> (u32 \<rightharpoonup> u64) \<Rightarrow> (u32 \<rightharpoonup> u64) \<Rightarrow> nat \<Rightarrow> node" where
  "build_branch index nm path es ch tot files depth =
     Node nm path (unwrap_or 0 (tot index)) (unwrap_or 0 (files index))
       (if DEFAULT_MAX_DEPTH < depth then []
        else concat (map (\<lambda>child. case map_of es child of
            None \<Rightarrow> []
          | Some entry \<Rightarrow>
              if is_directory entry
              then [build_branch child (ename entry) (join_path path (ename entry)) es ch tot files (depth + 1)]
              else []) (unwrap_or [] (ch index))))
       False"
  by pat_completeness auto
termination
  by (relation "measure (\<lambda>(i, n, p, es, ch, tot, files, depth). Suc DEFAULT_MAX_DEPTH - depth)") auto

declare build_branch.simps [simp del]

definition resolve_path :: "u32 \<Rightarrow> (u32 \<times> mft_entry) list \<Rightarrow> u32 \<Rightarrow> str \<Rightarrow> str option" where
  "resolve_path index es rt root_label =
     map_option (render_path root_label) (parent_walk (map_of es) rt 64 index [])"

definition largest_candidates :: "(u32 \<times> mft_entry) list \<Rightarrow> (u32 \<times> u64) list" where
  "largest_candidates es =
     take LARGEST_FILES_KEPT (sort_desc_by (\<lambda>c. unat (snd c))
       (map (\<lambda>(index, entry). (index, ebytes entry))
          (filter (\<lambda>(index, entry). \<not> is_directory entry \<and> BIG_FILE \<le> ebytes entry) es)))"

definition largest_files :: "(u32 \<times> mft_entry) list \<Rightarrow> u32 \<Rightarrow> str \<Rightarrow> file_entry list" where
  "largest_files es rt root_label =
     List.map_filter (\<lambda>(index, b). map_option (\<lambda>path. FileEntry path b) (resolve_path index es rt root_label))
       (largest_candidates es)"

definition from_master_file_table :: "mft_snapshot \<Rightarrow> str \<Rightarrow> u64 \<Rightarrow> scan_result" where
  "from_master_file_table snap root_path ms =
     (case foldl (scan_step (root snap)) (Map.empty, 0, 0, 0) (entries snap) of
        (ch, files, dirs, total_b) \<Rightarrow>
      (case total_loop (entries snap) ch [(root snap, False)] {root snap} Map.empty Map.empty of
         (tot, direct) \<Rightarrow>
         (let branch = build_branch (root snap) root_path root_path (entries snap) ch tot direct 0;
              big_files = take LARGEST_FILES_KEPT (sort_desc_by (\<lambda>e. unat (fe_bytes e))
                 (largest_files (entries snap) (root snap) root_path))
          in \<lparr>scan_root = root_path, scan_how = MasterFileTable, fallback_reason = None,
              scan_total_bytes = total_b, scan_file_count = files, scan_directory_count = dirs,
              unreadable = skipped snap, elapsed_ms = ms,
              tree = prune branch 0 DEFAULT_MAX_DEPTH DEFAULT_MAX_CHILDREN,
              largest = big_files\<rparr>)))"

section \<open>The directory walk\<close>

text \<open>
  What a walk meets below a directory: a file with its length, a directory that opens, a
  directory that does not, a junction or symbolic link, an entry without metadata, and an entry
  the listing fails to yield.
\<close>

datatype dirent =
    DirFile str u64
  | DirOpen str "dirent list"
  | DirClosed str
  | DirLink str
  | DirNoMetadata str
  | DirError

fun dirent_name :: "dirent \<Rightarrow> str" where
  "dirent_name (DirFile n _) = n"
| "dirent_name (DirOpen n _) = n"
| "dirent_name (DirClosed n) = n"
| "dirent_name (DirLink n) = n"
| "dirent_name (DirNoMetadata n) = n"
| "dirent_name DirError = []"

datatype big = Big (big_path: str) (big_bytes: u64)

datatype node_with_big = NodeWithBig (walked_node: node) (walked_big: "big list")

record listing =
  ls_bytes :: u64
  ls_files :: u64
  ls_big :: "big list"
  ls_subdirectories :: "dirent list"
  ls_adds :: "counter_add list"

definition empty_listing :: listing where
  "empty_listing = \<lparr>ls_bytes = 0, ls_files = 0, ls_big = [], ls_subdirectories = [], ls_adds = []\<rparr>"

fun list_step :: "str \<Rightarrow> listing \<Rightarrow> dirent \<Rightarrow> listing" where
  "list_step directory st (DirFile nm len) =
     st\<lparr>ls_bytes := ls_bytes st + len, ls_files := ls_files st + 1,
        ls_adds := ls_adds st @ [AddBytes len, AddFiles 1],
        ls_big := (if BIG_FILE \<le> len then ls_big st @ [Big (join_path directory nm) len] else ls_big st)\<rparr>"
| "list_step directory st (DirOpen nm es) =
     st\<lparr>ls_subdirectories := ls_subdirectories st @ [DirOpen nm es]\<rparr>"
| "list_step directory st (DirClosed nm) =
     st\<lparr>ls_subdirectories := ls_subdirectories st @ [DirClosed nm]\<rparr>"
| "list_step directory st (DirLink nm) = st"
| "list_step directory st (DirNoMetadata nm) = st\<lparr>ls_adds := ls_adds st @ [AddUnreadable 1]\<rparr>"
| "list_step directory st DirError = st"

definition list_directory :: "str \<Rightarrow> dirent list \<Rightarrow> listing" where
  "list_directory directory es = foldl (list_step directory) empty_listing es"

fun is_subdirectory :: "dirent \<Rightarrow> bool" where
  "is_subdirectory (DirOpen _ _) = True"
| "is_subdirectory (DirClosed _) = True"
| "is_subdirectory _ = False"

lemma list_step_subdirectories:
  "ls_subdirectories (list_step p st e) = ls_subdirectories st @ (if is_subdirectory e then [e] else [])"
  by (cases e) simp_all

lemma list_directory_subdirectories: "ls_subdirectories (list_directory p es) = filter is_subdirectory es"
proof -
  have "ls_subdirectories (foldl (list_step p) st es) = ls_subdirectories st @ filter is_subdirectory es" for st
    by (induction es arbitrary: st) (simp_all add: list_step_subdirectories)
  then show ?thesis by (simp add: list_directory_def empty_listing_def)
qed

text \<open>\<open>slice::chunks\<close>.\<close>

function chunks :: "nat \<Rightarrow> 'a list \<Rightarrow> 'a list list" where
  "chunks n [] = []"
| "chunks n (x # xs) = (if n = 0 then [] else take n (x # xs) # chunks n (drop n (x # xs)))"
  by pat_completeness auto
termination by (relation "measure (\<lambda>(n, xs). length xs)") auto

lemma concat_chunks: "0 < n \<Longrightarrow> concat (chunks n xs) = xs"
proof (induction n xs rule: chunks.induct)
  case (1 n)
  then show ?case by simp
next
  case (2 n x xs)
  then have "concat (chunks n (x # xs)) = take n (x # xs) @ drop n (x # xs)"
    by (simp del: take_append drop_append append_take_drop_id)
  then show ?case by (simp only: append_take_drop_id)
qed

text \<open>
  The children of a directory: one chunk of the subdirectories per thread near the root, one
  after the other below. The handles are joined in the order they were spawned in.
\<close>

definition chunk_size :: "nat \<Rightarrow> nat \<Rightarrow> nat" where
  "chunk_size len threads = max 1 ((len + max threads 1 - 1) div max threads 1)"

definition walk_in_parallel :: "(dirent \<Rightarrow> 'b) \<Rightarrow> dirent list \<Rightarrow> nat \<Rightarrow> 'b list" where
  "walk_in_parallel walk_one subdirectories threads =
     concat (map (map walk_one) (chunks (chunk_size (length subdirectories) threads) subdirectories))"

lemma chunk_size_pos: "0 < chunk_size len threads"
  by (simp add: chunk_size_def)

lemma walk_in_parallel_eq: "walk_in_parallel f ds threads = map f ds"
proof -
  have "walk_in_parallel f ds threads = map f (concat (chunks (chunk_size (length ds) threads) ds))"
    by (simp add: walk_in_parallel_def map_concat)
  also have "\<dots> = map f ds" by (simp add: concat_chunks [OF chunk_size_pos])
  finally show ?thesis .
qed

lemma walk_in_parallel_cong [fundef_cong]:
  assumes "ds = ds'" and "threads = threads'" and "\<And>d. d \<in> set ds' \<Longrightarrow> f d = g d"
  shows "walk_in_parallel f ds threads = walk_in_parallel g ds' threads'"
  using assms by (simp add: walk_in_parallel_eq)

text \<open>The size limit on the list of candidates a subtree carries upward.\<close>

definition trim_big :: "big list \<Rightarrow> big list" where
  "trim_big bs =
     (if LARGEST_FILES_KEPT < length bs
      then take LARGEST_FILES_KEPT (sort_desc_by (\<lambda>b. unat (big_bytes b)) bs) else bs)"

text \<open>Adding the children to their directory.\<close>

definition adopt :: "str \<Rightarrow> str \<Rightarrow> listing \<Rightarrow> node_with_big list \<Rightarrow> node_with_big" where
  "adopt nm directory ls walked_children =
     NodeWithBig
       (Node nm directory
          (foldl (\<lambda>acc child. acc + node_bytes (walked_node child)) (ls_bytes ls) walked_children)
          (ls_files ls) (map walked_node walked_children) False)
       (trim_big (foldl (\<lambda>acc child. acc @ walked_big child) (ls_big ls) walked_children))"

text \<open>
  The walk of one directory given as its path and its contents: the node, and the additions to
  the counters in the order a single thread performs them.
\<close>

function walk :: "str \<Rightarrow> nat \<Rightarrow> nat \<Rightarrow> dirent \<Rightarrow> node_with_big \<times> counter_add list" where
  "walk directory depth threads (DirOpen nm es) =
     (let ls = list_directory directory es;
          subdirectories = ls_subdirectories ls;
          results =
            (if depth < PARALLEL_DEPTH \<and> 1 < length subdirectories
             then walk_in_parallel (\<lambda>d. walk (join_path directory (dirent_name d)) (depth + 1) threads d)
                    subdirectories threads
             else map (\<lambda>d. walk (join_path directory (dirent_name d)) (depth + 1) threads d) subdirectories)
      in (adopt nm directory ls (map fst results),
          ls_adds ls @ [AddDirectories (word_of_nat (length subdirectories))] @ concat (map snd results)))"
| "walk directory depth threads (DirClosed nm) =
     (NodeWithBig (Node nm directory 0 0 [] False) [], [AddUnreadable 1])"
| "walk directory depth threads (DirFile nm len) =
     (NodeWithBig (Node nm directory 0 0 [] False) [], [AddUnreadable 1])"
| "walk directory depth threads (DirLink nm) =
     (NodeWithBig (Node nm directory 0 0 [] False) [], [AddUnreadable 1])"
| "walk directory depth threads (DirNoMetadata nm) =
     (NodeWithBig (Node nm directory 0 0 [] False) [], [AddUnreadable 1])"
| "walk directory depth threads DirError =
     (NodeWithBig (Node [] directory 0 0 [] False) [], [AddUnreadable 1])"
  by pat_completeness auto
termination
proof (relation "measure (\<lambda>(p, d, t, e). size e)", goal_cases)
  case (2 directory depth threads nm es x xa z)
  then have "z \<in> set es" by (simp add: list_directory_subdirectories)
  then show ?case by (simp add: less_Suc_eq_le size_list_estimation')
next
  case (3 directory depth threads nm es x xa z)
  then have "z \<in> set es" by (simp add: list_directory_subdirectories)
  then show ?case by (simp add: less_Suc_eq_le size_list_estimation')
qed simp

text \<open>
  The whole walk. The counters are read after every thread has been joined; \<open>adds\<close> is the
  order in which the threads happened to perform the additions.
\<close>

definition rename_node :: "str \<Rightarrow> node \<Rightarrow> node" where
  "rename_node nm n =
     Node nm (node_path n) (node_bytes n) (node_files n) (node_children n) (is_aggregate n)"

definition walk_scan ::
  "str \<Rightarrow> dirent \<Rightarrow> nat \<Rightarrow> (counter_add list \<Rightarrow> counter_add list) \<Rightarrow> u64 \<Rightarrow> scan_result" where
  "walk_scan root_path dir threads schedule ms =
     (case walk root_path 0 threads dir of (walked, adds) \<Rightarrow>
      (let counts = foldl fetch_add default_counters (schedule adds);
           big_files = take LARGEST_FILES_KEPT (sort_desc_by (\<lambda>e. unat (fe_bytes e))
             (map (\<lambda>b. FileEntry (big_path b) (big_bytes b)) (walked_big walked)))
       in \<lparr>scan_root = root_path, scan_how = DirectoryWalk, fallback_reason = None,
           scan_total_bytes = c_bytes counts, scan_file_count = c_files counts,
           scan_directory_count = c_directories counts, unreadable = c_unreadable counts,
           elapsed_ms = ms,
           tree = prune (rename_node root_path (walked_node walked)) 0 DEFAULT_MAX_DEPTH DEFAULT_MAX_CHILDREN,
           largest = big_files\<rparr>))"

definition scan ::
  "(char \<Rightarrow> kam_error + mft_snapshot) \<Rightarrow> str \<Rightarrow> dirent \<Rightarrow> nat \<Rightarrow> (counter_add list \<Rightarrow> counter_add list) \<Rightarrow> u64
     \<Rightarrow> scan_result" where
  "scan read_table root_path dir threads schedule ms =
     (case volume_letter root_path of
        Some letter \<Rightarrow>
          (case read_table letter of
             Inr snap \<Rightarrow> from_master_file_table snap root_path ms
           | Inl e \<Rightarrow> (walk_scan root_path dir threads schedule ms)\<lparr>fallback_reason := Some (show_error e)\<rparr>)
      | None \<Rightarrow> walk_scan root_path dir threads schedule ms)"

end
