(* ===== verification/Kam_Scan_Totals.thy ===== *)
theory Kam_Scan_Totals
  imports Kam_Scan Kam_Index_Totals
begin

text \<open>
  What a scan reports: pruning keeps the byte counts and bounds the tree, a walk counts every
  file once whatever the worker threads do, cutting the candidate lists on the way up loses none
  of the largest files, and the tree of a table scan carries the totals of the index.
\<close>

section \<open>Pruning\<close>

text \<open>A tree of at most \<open>h\<close> levels below its root and at most \<open>w\<close> children per node.\<close>

primrec within :: "nat \<Rightarrow> nat \<Rightarrow> node \<Rightarrow> bool" where
  "within 0 w n \<longleftrightarrow> node_children n = []"
| "within (Suc h) w n \<longleftrightarrow> length (node_children n) \<le> w \<and> list_all (within h w) (node_children n)"

lemma within_leaf: "node_children n = [] \<Longrightarrow> within h w n"
  by (cases h) simp_all

lemma fold_tail_length: "length (fold_tail p m cs) \<le> Suc m"
  by (simp add: fold_tail_def Let_def)

lemma fold_tail_bytes: "(\<Sum>c \<leftarrow> fold_tail p m cs. node_bytes c) = (\<Sum>c \<leftarrow> cs. node_bytes c)"
proof -
  have "(\<Sum>c \<leftarrow> take m cs. node_bytes c) + (\<Sum>c \<leftarrow> drop m cs. node_bytes c) = (\<Sum>c \<leftarrow> cs. node_bytes c)"
    by (simp flip: sum_list_append map_append)
  then show ?thesis by (auto simp: fold_tail_def Let_def word_neq_0_conv [symmetric])
qed

lemma prune_node_fields:
  "node_bytes (prune n d m c) = node_bytes n" "node_name (prune n d m c) = node_name n"
  "node_path (prune n d m c) = node_path n" "node_files (prune n d m c) = node_files n"
  "is_aggregate (prune n d m c) = is_aggregate n"
  by (cases n; simp)+

lemma prune_children:
  "node_children (prune n d m c) =
     (if m \<le> d then [] else map (\<lambda>child. prune child (d + 1) m c)
        (if node_children n = [] then []
         else fold_tail (node_path n) c (sort_desc_by (\<lambda>x. unat (node_bytes x)) (node_children n))))"
  by (cases n) simp

lemma sum_list_sort_desc_by:
  "(\<Sum>x \<leftarrow> sort_desc_by f xs. (g x :: 'a::comm_monoid_add)) = (\<Sum>x \<leftarrow> xs. g x)"
  by (simp flip: sum_mset_sum_list)

lemma prune_within: "within (m - d) (Suc c) (prune n d m c)"
proof (induction "m - d" arbitrary: n d)
  case 0
  then show ?case by (simp add: prune_children)
next
  case (Suc h)
  then have less: "d < m" and h: "m - (d + 1) = h" by simp_all
  have "list_all (within h (Suc c)) (node_children (prune n d m c))"
    using less Suc.hyps(1) [of "d + 1"] h by (simp add: prune_children list_all_iff)
  moreover have "length (node_children (prune n d m c)) \<le> Suc c"
    using less fold_tail_length by (simp add: prune_children)
  ultimately show ?case using Suc.hyps(2) by (simp flip: Suc.hyps(2))
qed

section \<open>The counters\<close>

fun tree_bytes :: "dirent \<Rightarrow> nat" where
  "tree_bytes (DirFile nm len) = unat len"
| "tree_bytes (DirOpen nm es) = (\<Sum>e \<leftarrow> es. tree_bytes e)"
| "tree_bytes _ = 0"

fun tree_files :: "dirent \<Rightarrow> nat" where
  "tree_files (DirFile nm len) = 1"
| "tree_files (DirOpen nm es) = (\<Sum>e \<leftarrow> es. tree_files e)"
| "tree_files _ = 0"

fun tree_directories :: "dirent \<Rightarrow> nat" where
  "tree_directories (DirOpen nm es) = (\<Sum>e \<leftarrow> es. of_bool (is_subdirectory e) + tree_directories e)"
| "tree_directories _ = 0"

fun tree_unreadable :: "dirent \<Rightarrow> nat" where
  "tree_unreadable (DirOpen nm es) = (\<Sum>e \<leftarrow> es. tree_unreadable e)"
| "tree_unreadable (DirClosed nm) = 1"
| "tree_unreadable (DirNoMetadata nm) = 1"
| "tree_unreadable _ = 0"

fun bytes_part :: "counter_add \<Rightarrow> u64" where
  "bytes_part (AddBytes n) = n"
| "bytes_part _ = 0"

fun files_part :: "counter_add \<Rightarrow> u64" where
  "files_part (AddFiles n) = n"
| "files_part _ = 0"

fun directories_part :: "counter_add \<Rightarrow> u64" where
  "directories_part (AddDirectories n) = n"
| "directories_part _ = 0"

fun unreadable_part :: "counter_add \<Rightarrow> u64" where
  "unreadable_part (AddUnreadable n) = n"
| "unreadable_part _ = 0"

lemmas add_parts = bytes_part.simps files_part.simps directories_part.simps unreadable_part.simps

lemma fetch_adds:
  "c_bytes (foldl fetch_add c adds) = c_bytes c + (\<Sum>a \<leftarrow> adds. bytes_part a)"
  "c_files (foldl fetch_add c adds) = c_files c + (\<Sum>a \<leftarrow> adds. files_part a)"
  "c_directories (foldl fetch_add c adds) = c_directories c + (\<Sum>a \<leftarrow> adds. directories_part a)"
  "c_unreadable (foldl fetch_add c adds) = c_unreadable c + (\<Sum>a \<leftarrow> adds. unreadable_part a)"
proof (induction adds arbitrary: c)
  case (Cons a adds)
  case 1 show ?case using Cons.IH by (cases a) (simp_all add: add.assoc)
  case 2 show ?case using Cons.IH by (cases a) (simp_all add: add.assoc)
  case 3 show ?case using Cons.IH by (cases a) (simp_all add: add.assoc)
  case 4 show ?case using Cons.IH by (cases a) (simp_all add: add.assoc)
qed simp_all

lemma sum_schedule:
  assumes "mset xs = mset ys"
  shows "(\<Sum>x \<leftarrow> xs. (g x :: u64)) = (\<Sum>x \<leftarrow> ys. g x)"
proof -
  have "sum_mset (image_mset g (mset xs)) = sum_mset (image_mset g (mset ys))" using assms by simp
  then show ?thesis by (simp add: sum_mset_sum_list flip: mset_map)
qed

section \<open>One directory\<close>

definition own_bytes :: "dirent \<Rightarrow> u64" where
  "own_bytes e = (case e of DirFile nm len \<Rightarrow> len | _ \<Rightarrow> 0)"

definition own_files :: "dirent \<Rightarrow> u64" where
  "own_files e = (case e of DirFile nm len \<Rightarrow> 1 | _ \<Rightarrow> 0)"

definition own_big :: "str \<Rightarrow> dirent \<Rightarrow> big list" where
  "own_big p e = (case e of
      DirFile nm len \<Rightarrow> if BIG_FILE \<le> len then [Big (join_path p nm) len] else [] | _ \<Rightarrow> [])"

definition own_unreadable :: "dirent \<Rightarrow> u64" where
  "own_unreadable e = (case e of DirNoMetadata nm \<Rightarrow> 1 | _ \<Rightarrow> 0)"

lemmas own_defs = own_bytes_def own_files_def own_big_def own_unreadable_def

lemma list_directory_from:
  "ls_bytes (foldl (list_step p) st es) = ls_bytes st + (\<Sum>e \<leftarrow> es. own_bytes e)"
  "ls_files (foldl (list_step p) st es) = ls_files st + (\<Sum>e \<leftarrow> es. own_files e)"
  "ls_big (foldl (list_step p) st es) = ls_big st @ concat (map (own_big p) es)"
  "(\<Sum>a \<leftarrow> ls_adds (foldl (list_step p) st es). bytes_part a) =
     (\<Sum>a \<leftarrow> ls_adds st. bytes_part a) + (\<Sum>e \<leftarrow> es. own_bytes e)"
  "(\<Sum>a \<leftarrow> ls_adds (foldl (list_step p) st es). files_part a) =
     (\<Sum>a \<leftarrow> ls_adds st. files_part a) + (\<Sum>e \<leftarrow> es. own_files e)"
  "(\<Sum>a \<leftarrow> ls_adds (foldl (list_step p) st es). directories_part a) = (\<Sum>a \<leftarrow> ls_adds st. directories_part a)"
  "(\<Sum>a \<leftarrow> ls_adds (foldl (list_step p) st es). unreadable_part a) =
     (\<Sum>a \<leftarrow> ls_adds st. unreadable_part a) + (\<Sum>e \<leftarrow> es. own_unreadable e)"
proof (induction es arbitrary: st)
  case (Cons e es)
  case 1 show ?case using Cons.IH by (cases e) (simp_all add: own_defs add.assoc)
  case 2 show ?case using Cons.IH by (cases e) (simp_all add: own_defs add.assoc)
  case 3 show ?case using Cons.IH by (cases e) (simp_all add: own_defs)
  case 4 show ?case using Cons.IH by (cases e) (simp_all add: own_defs add.assoc)
  case 5 show ?case using Cons.IH by (cases e) (simp_all add: own_defs add.assoc)
  case 6 show ?case using Cons.IH by (cases e) (simp_all add: own_defs)
  case 7 show ?case using Cons.IH by (cases e) (simp_all add: own_defs add.assoc)
qed simp_all

lemmas list_directory_facts =
  list_directory_from [of p empty_listing for p, folded list_directory_def, unfolded empty_listing_def, simplified]

text \<open>A sum over a directory is its own part and the part of its subdirectories.\<close>

lemma split_sum:
  assumes "\<And>e. \<not> is_subdirectory e \<Longrightarrow> (of_nat (g e) :: u64) = h e" and "\<And>e. is_subdirectory e \<Longrightarrow> h e = 0"
  shows "(\<Sum>e \<leftarrow> es. h e) + (\<Sum>e \<leftarrow> filter is_subdirectory es. of_nat (g e)) = (of_nat (\<Sum>e \<leftarrow> es. g e) :: u64)"
  using assms by (induction es) (auto simp: ac_simps)

lemma walk_results:
  "walk p depth threads (DirOpen nm es) =
     (let results = map (\<lambda>d. walk (join_path p (dirent_name d)) (depth + 1) threads d) (filter is_subdirectory es)
      in (adopt nm p (list_directory p es) (map fst results),
          ls_adds (list_directory p es)
            @ [AddDirectories (word_of_nat (length (filter is_subdirectory es)))]
            @ concat (map snd results)))"
  by (simp add: walk_in_parallel_eq list_directory_subdirectories Let_def)

text \<open>Induction over the directories of a tree, as the walk meets them.\<close>

lemma directory_induct [consumes 1, case_names Closed Open]:
  assumes "is_subdirectory d"
    and "\<And>p depth nm. P p depth (DirClosed nm)"
    and "\<And>p depth nm es. (\<And>d q. d \<in> set es \<Longrightarrow> is_subdirectory d \<Longrightarrow> P q (depth + 1) d) \<Longrightarrow> P p depth (DirOpen nm es)"
  shows "P p (depth :: nat) d"
  using assms(1)
proof (induction "size d" arbitrary: d p depth rule: less_induct)
  case less
  show ?case
  proof (cases d)
    case (DirOpen nm es)
    have "P q (depth + 1) c" if "c \<in> set es" "is_subdirectory c" for c q
      using that DirOpen by (intro less) (simp_all add: less_Suc_eq_le size_list_estimation')
    then show ?thesis using assms(3) DirOpen by simp
  qed (use less assms in simp_all)
qed

lemma sum_concat: "(\<Sum>x \<leftarrow> concat xss. g x) = (\<Sum>xs \<leftarrow> xss. \<Sum>x \<leftarrow> xs. (g x :: u64))"
  by (induction xss) simp_all

lemma walk_sums:
  assumes "is_subdirectory d"
  shows "(\<Sum>a \<leftarrow> snd (walk p depth threads d). bytes_part a) = of_nat (tree_bytes d)
    \<and> (\<Sum>a \<leftarrow> snd (walk p depth threads d). files_part a) = of_nat (tree_files d)
    \<and> (\<Sum>a \<leftarrow> snd (walk p depth threads d). directories_part a) = of_nat (tree_directories d)
    \<and> (\<Sum>a \<leftarrow> snd (walk p depth threads d). unreadable_part a) = of_nat (tree_unreadable d)
    \<and> node_bytes (walked_node (fst (walk p depth threads d))) = of_nat (tree_bytes d)"
  using assms
proof (induction p depth d rule: directory_induct)
  case (Closed p depth nm)
  then show ?case by simp
next
  case (Open p depth nm es)
  let ?w = "\<lambda>d. walk (join_path p (dirent_name d)) (depth + 1) threads d"
  let ?subs = "filter is_subdirectory es"
  have IH: "(\<Sum>d \<leftarrow> ?subs. \<Sum>a \<leftarrow> snd (?w d). bytes_part a) = (\<Sum>d \<leftarrow> ?subs. of_nat (tree_bytes d))"
    "(\<Sum>d \<leftarrow> ?subs. \<Sum>a \<leftarrow> snd (?w d). files_part a) = (\<Sum>d \<leftarrow> ?subs. of_nat (tree_files d))"
    "(\<Sum>d \<leftarrow> ?subs. \<Sum>a \<leftarrow> snd (?w d). directories_part a) = (\<Sum>d \<leftarrow> ?subs. of_nat (tree_directories d))"
    "(\<Sum>d \<leftarrow> ?subs. \<Sum>a \<leftarrow> snd (?w d). unreadable_part a) = (\<Sum>d \<leftarrow> ?subs. of_nat (tree_unreadable d))"
    "(\<Sum>d \<leftarrow> ?subs. node_bytes (walked_node (fst (?w d)))) = (\<Sum>d \<leftarrow> ?subs. of_nat (tree_bytes d))"
    using Open by (auto intro!: arg_cong [where f = sum_list] map_cong)
  have bytes: "(\<Sum>e \<leftarrow> es. own_bytes e) + (\<Sum>e \<leftarrow> ?subs. of_nat (tree_bytes e)) = (of_nat (\<Sum>e \<leftarrow> es. tree_bytes e) :: u64)"
    by (rule split_sum) (auto simp: own_defs elim: is_subdirectory.elims split: dirent.splits)
  have files: "(\<Sum>e \<leftarrow> es. own_files e) + (\<Sum>e \<leftarrow> ?subs. of_nat (tree_files e)) = (of_nat (\<Sum>e \<leftarrow> es. tree_files e) :: u64)"
    by (rule split_sum) (auto simp: own_defs elim: is_subdirectory.elims split: dirent.splits)
  have unread: "(\<Sum>e \<leftarrow> es. own_unreadable e) + (\<Sum>e \<leftarrow> ?subs. of_nat (tree_unreadable e)) = (of_nat (\<Sum>e \<leftarrow> es. tree_unreadable e) :: u64)"
    by (rule split_sum) (auto simp: own_defs elim: is_subdirectory.elims split: dirent.splits)
  have dirs: "of_nat (length ?subs) + (\<Sum>e \<leftarrow> ?subs. of_nat (tree_directories e)) =
      (of_nat (\<Sum>e \<leftarrow> es. of_bool (is_subdirectory e) + tree_directories e) :: u64)"
  proof (induction es)
    case (Cons e es)
    then show ?case by (cases e) (simp_all add: ac_simps)
  qed simp
  have node: "node_bytes (walked_node (adopt nm p ls ws)) = ls_bytes ls + (\<Sum>w \<leftarrow> ws. node_bytes (walked_node w))" for ls ws
    by (simp add: adopt_def) (induction ws arbitrary: ls rule: rev_induct, simp_all add: add.assoc)
  show ?case
    using IH bytes files unread dirs
    by (simp add: walk_results Let_def sum_concat comp_def list_directory_facts node del: walk.simps)
qed

section \<open>The largest files\<close>

fun all_big :: "str \<Rightarrow> dirent \<Rightarrow> big list" where
  "all_big p (DirOpen nm es) =
     concat (map (own_big p) es)
     @ concat (map (\<lambda>d. if is_subdirectory d then all_big (join_path p (dirent_name d)) d else []) es)"
| "all_big p _ = []"

lemma concat_map_filter: "concat (map f (filter P xs)) = concat (map (\<lambda>x. if P x then f x else []) xs)"
  by (induction xs) simp_all

lemma trim_big_same: "same_top (\<lambda>b. unat (big_bytes b)) LARGEST_FILES_KEPT (trim_big bs) bs"
  by (simp add: trim_big_def same_top_take)

lemma walk_big:
  assumes "is_subdirectory d"
  shows "same_top (\<lambda>b. unat (big_bytes b)) LARGEST_FILES_KEPT (walked_big (fst (walk p depth threads d))) (all_big p d)"
  using assms
proof (induction p depth d rule: directory_induct)
  case (Closed p depth nm)
  then show ?case by simp
next
  case (Open p depth nm es)
  let ?w = "\<lambda>d. walk (join_path p (dirent_name d)) (depth + 1) threads d"
  let ?subs = "filter is_subdirectory es"
  have fold: "foldl (\<lambda>acc child. acc @ walked_big child) bs ws = bs @ concat (map walked_big ws)" for bs ws
    by (induction ws arbitrary: bs) simp_all
  have "same_top (\<lambda>b. unat (big_bytes b)) LARGEST_FILES_KEPT
      (concat (map (\<lambda>d. walked_big (fst (?w d))) ?subs))
      (concat (map (\<lambda>d. all_big (join_path p (dirent_name d)) d) ?subs))"
    using Open by (intro same_top_concat) (simp add: list_all2_map1 list_all2_map2 list_all2_same)
  then have "same_top (\<lambda>b. unat (big_bytes b)) LARGEST_FILES_KEPT
      (ls_big (list_directory p es) @ concat (map (\<lambda>d. walked_big (fst (?w d))) ?subs)) (all_big p (DirOpen nm es))"
    unfolding all_big.simps(1) concat_map_filter [of "\<lambda>d. all_big (join_path p (dirent_name d)) d", symmetric]
    by (intro same_top_append) (simp_all add: list_directory_facts)
  from same_top_trans [OF trim_big_same this] show ?case
    by (simp add: walk_results Let_def adopt_def fold comp_def del: walk.simps)
qed

section \<open>Properties\<close>

text \<open>Pruning reconciles and bounds the tree. At every level above the depth limit the bytes of
  the children of a node add up to what they added up to before, the folded tail included; every
  node keeps its own figures; and the result has at most \<open>max_depth\<close> levels with at most
  one child more than \<open>max_children\<close> at each.\<close>

theorem prune_reconciles:
  assumes "depth < max_depth"
  shows "(\<Sum>c \<leftarrow> node_children (prune n depth max_depth max_children). node_bytes c)
       = (\<Sum>c \<leftarrow> node_children n. node_bytes c)
    \<and> node_bytes (prune n depth max_depth max_children) = node_bytes n
    \<and> node_files (prune n depth max_depth max_children) = node_files n
    \<and> within (max_depth - depth) (max_children + 1) (prune n depth max_depth max_children)"
proof -
  have "(\<Sum>c \<leftarrow> node_children (prune n depth max_depth max_children). node_bytes c)
      = (\<Sum>c \<leftarrow> node_children n. node_bytes c)"
    using assms
    by (simp add: prune_children comp_def prune_node_fields fold_tail_bytes sum_list_sort_desc_by)
  then show ?thesis using prune_within by (simp add: prune_node_fields)
qed

definition prune_sample :: node where
  "prune_sample = Node ''r'' ''r'' 6 0
     [Node ''a'' ''r'' 1 1 [] False, Node ''b'' ''r'' 3 1 [] False, Node ''c'' ''r'' 2 1 [] False] False"

theorem prune_reconciles_witness:
  "(\<Sum>c \<leftarrow> node_children (prune prune_sample 0 4 1). node_bytes c) = 6
   \<and> length (node_children (prune prune_sample 0 4 1)) = 2"
  using prune_reconciles [of 0 4 prune_sample 1]
  by (simp add: prune_sample_def fold_tail_def sort_desc_by_def)

text \<open>C20: a walk counts every file once, whatever the threads do. For any number of threads and any
  order in which they perform their additions to the shared counters, the bytes, files,
  directories and unreadable entries reported are those of the tree below the root, junctions
  left out, and the root of the transmitted tree carries the reported total.\<close>

theorem walk_scan_counts:
  assumes "\<And>adds. mset (schedule adds) = mset adds"
  shows "scan_total_bytes (walk_scan p (DirOpen nm es) threads schedule ms) = word_of_nat (tree_bytes (DirOpen nm es))
    \<and> scan_file_count (walk_scan p (DirOpen nm es) threads schedule ms) = word_of_nat (tree_files (DirOpen nm es))
    \<and> scan_directory_count (walk_scan p (DirOpen nm es) threads schedule ms) = word_of_nat (tree_directories (DirOpen nm es))
    \<and> unreadable (walk_scan p (DirOpen nm es) threads schedule ms) = word_of_nat (tree_unreadable (DirOpen nm es))
    \<and> node_bytes (tree (walk_scan p (DirOpen nm es) threads schedule ms))
        = scan_total_bytes (walk_scan p (DirOpen nm es) threads schedule ms)"
proof -
  have sums: "(\<Sum>a \<leftarrow> schedule adds. g a) = (\<Sum>a \<leftarrow> adds. (g a :: u64))" for adds g
    by (rule sum_schedule) (rule assms)
  have "is_subdirectory (DirOpen nm es)" by simp
  from walk_sums [OF this, of p 0 threads] show ?thesis
    by (simp add: walk_scan_def Let_def fetch_adds default_counters_def sums prune_node_fields rename_node_def
        case_prod_beta del: walk.simps tree_bytes.simps tree_files.simps tree_directories.simps
        tree_unreadable.simps prune.simps)
qed

definition walk_sample :: "dirent list" where
  "walk_sample =
     [DirFile ''a'' 1000, DirOpen ''n'' [DirFile ''b'' 2000, DirLink ''j''], DirClosed ''x'',
      DirNoMetadata ''y'', DirError]"

theorem walk_scan_counts_witness:
  "scan_total_bytes (walk_scan ''C:'' (DirOpen ''r'' walk_sample) 8 rev 0) = 3000
   \<and> scan_directory_count (walk_scan ''C:'' (DirOpen ''r'' walk_sample) 8 rev 0) = 2
   \<and> unreadable (walk_scan ''C:'' (DirOpen ''r'' walk_sample) 8 rev 0) = 2"
  using walk_scan_counts [of rev "''C:''" "''r''" walk_sample 8 0]
  by (simp add: walk_sample_def)

text \<open>No large file is lost on the way up. Although every subtree passes only its own 25 largest
  candidates to its parent, the list a walk reports is exactly the 25 largest of all the files of
  at least 64 MiB in the tree, equal sizes in the order the walk meets them.\<close>

theorem walk_scan_largest:
  "largest (walk_scan p (DirOpen nm es) threads schedule ms) =
     take LARGEST_FILES_KEPT (sort_desc_by (\<lambda>e. unat (fe_bytes e))
       (map (\<lambda>b. FileEntry (big_path b) (big_bytes b)) (all_big p (DirOpen nm es))))"
proof -
  have "is_subdirectory (DirOpen nm es)" by simp
  from same_top_whole [OF walk_big [OF this, of p 0 threads]] show ?thesis
    by (simp add: walk_scan_def Let_def sort_desc_by_map take_map case_prod_beta
        del: walk.simps all_big.simps)
qed

lemma scan_fold:
  "foldl (scan_step rt) (bs_children st, bs_files st, bs_dirs st, bs_bytes st) es =
     (case foldl (build_step rt) st es of st' \<Rightarrow> (bs_children st', bs_files st', bs_dirs st', bs_bytes st'))"
proof (induction es arbitrary: st)
  case (Cons e es)
  have "scan_step rt (bs_children st, bs_files st, bs_dirs st, bs_bytes st) e =
      (bs_children (build_step rt st e), bs_files (build_step rt st e), bs_dirs (build_step rt st e),
       bs_bytes (build_step rt st e))"
    by (cases e) (simp add: scan_step_def build_step_def Let_def)
  with Cons.IH show ?case by simp
qed simp

text \<open>A scan from the table agrees with the index over the same table: the counts and the volume
  total are the same, and the root of the transmitted tree carries the total and the direct file
  count the index has for the root record.\<close>

theorem table_scan_agrees_with_index:
  "scan_total_bytes (from_master_file_table snap p ms) = total_bytes (build snap)
   \<and> scan_file_count (from_master_file_table snap p ms) = file_count (build snap)
   \<and> scan_directory_count (from_master_file_table snap p ms) = directory_count (build snap)
   \<and> node_bytes (tree (from_master_file_table snap p ms)) = total_of (build snap) (root snap)
   \<and> node_files (tree (from_master_file_table snap p ms)) = direct_files_in (build snap) (root snap)"
proof -
  have "foldl (scan_step (root snap)) (Map.empty, 0, 0, 0) (entries snap) =
      (bs_children (build_maps (root snap) (entries snap)), bs_files (build_maps (root snap) (entries snap)),
       bs_dirs (build_maps (root snap) (entries snap)), bs_bytes (build_maps (root snap) (entries snap)))"
    using scan_fold [of "root snap" empty_build "entries snap"]
    by (simp add: build_maps_def empty_build_def)
  then show ?thesis
    by (simp add: from_master_file_table_def Let_def prune_node_fields build_branch.simps [of "root snap"]
        total_bytes_def file_count_def directory_count_def total_of_def direct_files_in_def build_fields
        total_directories_def split: prod.split del: prune.simps)
qed

end
