(* ===== verification/Kam_Files.thy ===== *)
theory Kam_Files
  imports Kam_Prelude
begin

text \<open>
  The part of the standard library's file system interface the sources use, on an explicit
  store: a path is text, the object it names is found by its normalised components, and every
  operation may fail with an injected I/O error. \<open>rename\<close> within the store moves a whole
  subtree and replaces a file at the destination, as \<open>MoveFileEx\<close> with replacement does.
\<close>

section \<open>Paths\<close>

definition is_path_separator :: "char \<Rightarrow> bool" where
  "is_path_separator c \<longleftrightarrow> c = CHR 0x5C \<or> c = CHR ''/''"

text \<open>
  The components of a path in order, \<open>.\<close> dropped and \<open>..\<close> resolved, which never
  leaves the drive. Letters are compared without case, as far as ASCII goes.
\<close>

fun normalise :: "str list \<Rightarrow> str list \<Rightarrow> str list" where
  "normalise acc [] = acc"
| "normalise acc (c # cs) =
     (if c = [] \<or> c = ''.'' then normalise acc cs
      else if c = ''..'' then normalise (if length acc \<le> 1 then acc else butlast acc) cs
      else normalise (acc @ [ascii_lower c]) cs)"

definition key_of :: "str \<Rightarrow> str list" where
  "key_of path = normalise [] (split_on is_path_separator path)"

definition has_drive :: "str \<Rightarrow> bool" where
  "has_drive s \<longleftrightarrow> (case s of a # b # rest \<Rightarrow> is_ascii_alphabetic a \<and> b = CHR '':'' | _ \<Rightarrow> False)"

definition has_root :: "str \<Rightarrow> bool" where
  "has_root s \<longleftrightarrow> (case s of a # rest \<Rightarrow> is_path_separator a | _ \<Rightarrow> False)"

text \<open>
  \<open>Path::join\<close> on Windows: a path with a drive replaces the base, a rooted one keeps only
  the base's drive, anything else is appended.
\<close>

definition path_join :: "str \<Rightarrow> str \<Rightarrow> str" where
  "path_join base s =
     (if has_drive s then s
      else if has_root s then (if has_drive base then take 2 base else []) @ s
      else if base = [] \<or> is_path_separator (last base) then base @ s
      else base @ [CHR 0x5C] @ s)"

text \<open>\<open>Path::parent\<close>.\<close>

definition path_parent :: "str \<Rightarrow> str option" where
  "path_parent s =
     (let t = trim_end_matches is_path_separator s;
          name_part = last (split_on is_path_separator t)
      in if t = [] then None
         else if length name_part = length t then (if last t = CHR '':'' then None else Some [])
         else (let p = take (length t - length name_part) t;
                   q = trim_end_matches is_path_separator p
               in Some (if q = [] then p else if last q = CHR '':'' then q @ [CHR 0x5C] else q)))"

section \<open>The store\<close>

datatype fnode = FileNode str | DirNode | LinkNode str

datatype fs_op = OpMetadata | OpExists | OpRead | OpWrite | OpCreateDir | OpRename | OpRemove | OpReadDir

record file_system =
  nodes :: "(str list \<times> fnode) list"
  fault :: "fs_op \<Rightarrow> str \<Rightarrow> io_error option"
  canonical :: "str \<Rightarrow> io_error + str"

definition look :: "file_system \<Rightarrow> str list \<Rightarrow> fnode option" where
  "look fs k = map_of (nodes fs) k"

definition set_node :: "str list \<Rightarrow> fnode \<Rightarrow> file_system \<Rightarrow> file_system" where
  "set_node k v fs = fs\<lparr>nodes := (k, v) # nodes fs\<rparr>"

definition remove_tree :: "str list \<Rightarrow> file_system \<Rightarrow> file_system" where
  "remove_tree k fs = fs\<lparr>nodes := filter (\<lambda>(j, v). \<not> prefix k j) (nodes fs)\<rparr>"

definition move_tree :: "str list \<Rightarrow> str list \<Rightarrow> file_system \<Rightarrow> file_system" where
  "move_tree src dst fs =
     fs\<lparr>nodes := map (\<lambda>(j, v). (if prefix src j then dst @ drop (length src) j else j, v))
          (filter (\<lambda>(j, v). \<not> prefix dst j) (nodes fs))\<rparr>"

text \<open>Following links, at most as many as the system follows.\<close>

fun follow :: "nat \<Rightarrow> file_system \<Rightarrow> str list \<Rightarrow> fnode option" where
  "follow 0 fs k = None"
| "follow (Suc n) fs k =
     (case look fs k of
        None \<Rightarrow> None
      | Some (LinkNode target) \<Rightarrow> follow n fs (key_of target)
      | Some v \<Rightarrow> Some v)"

definition resolve_node :: "file_system \<Rightarrow> str \<Rightarrow> fnode option" where
  "resolve_node fs path = follow 64 fs (key_of path)"

definition not_found :: io_error where
  "not_found = IoError NotFound ''not found''"

definition already_exists :: io_error where
  "already_exists = IoError AlreadyExists ''already exists''"

definition path_exists :: "file_system \<Rightarrow> str \<Rightarrow> bool" where
  "path_exists fs path \<longleftrightarrow> fault fs OpExists path = None \<and> resolve_node fs path \<noteq> None"

definition path_is_dir :: "file_system \<Rightarrow> str list \<Rightarrow> bool" where
  "path_is_dir fs k \<longleftrightarrow> follow 64 fs k = Some DirNode"

section \<open>Operations\<close>

definition symlink_metadata :: "file_system \<Rightarrow> str \<Rightarrow> io_error + fnode" where
  "symlink_metadata fs path =
     (case fault fs OpMetadata path of Some e \<Rightarrow> Inl e | None \<Rightarrow>
      (case look fs (key_of path) of None \<Rightarrow> Inl not_found | Some v \<Rightarrow> Inr v))"

definition read_to_string :: "file_system \<Rightarrow> str \<Rightarrow> io_error + str" where
  "read_to_string fs path =
     (case fault fs OpRead path of Some e \<Rightarrow> Inl e | None \<Rightarrow>
      (case resolve_node fs path of
         Some (FileNode contents) \<Rightarrow> Inr contents
       | Some v \<Rightarrow> Inl (IoError OtherKind ''not a file'')
       | None \<Rightarrow> Inl not_found))"

definition parent_ready :: "file_system \<Rightarrow> str list \<Rightarrow> bool" where
  "parent_ready fs k \<longleftrightarrow> k \<noteq> [] \<and> (butlast k = [] \<or> path_is_dir fs (butlast k))"

definition fs_write :: "str \<Rightarrow> str \<Rightarrow> file_system \<Rightarrow> (io_error + unit) \<times> file_system" where
  "fs_write path contents fs =
     (case fault fs OpWrite path of Some e \<Rightarrow> (Inl e, fs) | None \<Rightarrow>
      if \<not> parent_ready fs (key_of path) then (Inl not_found, fs)
      else if look fs (key_of path) = Some DirNode then (Inl (IoError OtherKind ''is a directory''), fs)
      else (Inr (), set_node (key_of path) (FileNode contents) fs))"

definition create_dir :: "str \<Rightarrow> file_system \<Rightarrow> (io_error + unit) \<times> file_system" where
  "create_dir path fs =
     (case fault fs OpCreateDir path of Some e \<Rightarrow> (Inl e, fs) | None \<Rightarrow>
      if look fs (key_of path) \<noteq> None then (Inl already_exists, fs)
      else if \<not> parent_ready fs (key_of path) then (Inl not_found, fs)
      else (Inr (), set_node (key_of path) DirNode fs))"

text \<open>Creating every missing directory on the way down; \<open>done\<close> is the part already there.\<close>

fun create_missing :: "str list \<Rightarrow> str list \<Rightarrow> file_system \<Rightarrow> (io_error + unit) \<times> file_system" where
  "create_missing base [] fs = (Inr (), fs)"
| "create_missing base (c # cs) fs =
     (if path_is_dir fs (base @ [c]) then create_missing (base @ [c]) cs fs
      else if look fs (base @ [c]) = None
      then create_missing (base @ [c]) cs (set_node (base @ [c]) DirNode fs)
      else (Inl already_exists, fs))"

definition create_dir_all :: "str \<Rightarrow> file_system \<Rightarrow> (io_error + unit) \<times> file_system" where
  "create_dir_all path fs =
     (case fault fs OpCreateDir path of Some e \<Rightarrow> (Inl e, fs) | None \<Rightarrow>
      create_missing [] (key_of path) fs)"

definition fs_rename :: "str \<Rightarrow> str \<Rightarrow> file_system \<Rightarrow> (io_error + unit) \<times> file_system" where
  "fs_rename from_path to_path fs =
     (case fault fs OpRename from_path of Some e \<Rightarrow> (Inl e, fs) | None \<Rightarrow>
      if look fs (key_of from_path) = None then (Inl not_found, fs)
      else if \<not> parent_ready fs (key_of to_path) then (Inl not_found, fs)
      else if key_of from_path = key_of to_path then (Inr (), fs)
      else if prefix (key_of from_path) (key_of to_path)
        then (Inl (IoError OtherKind ''moved into itself''), fs)
      else if look fs (key_of to_path) = Some DirNode then (Inl (IoError OtherKind ''access denied''), fs)
      else (Inr (), move_tree (key_of from_path) (key_of to_path) fs))"

definition remove_dir_all :: "str \<Rightarrow> file_system \<Rightarrow> (io_error + unit) \<times> file_system" where
  "remove_dir_all path fs =
     (case fault fs OpRemove path of Some e \<Rightarrow> (Inl e, fs) | None \<Rightarrow>
      (case look fs (key_of path) of
         Some DirNode \<Rightarrow> (Inr (), remove_tree (key_of path) fs)
       | Some v \<Rightarrow> (Inl (IoError OtherKind ''not a directory''), fs)
       | None \<Rightarrow> (Inl not_found, fs)))"

definition remove_file :: "str \<Rightarrow> file_system \<Rightarrow> (io_error + unit) \<times> file_system" where
  "remove_file path fs =
     (case fault fs OpRemove path of Some e \<Rightarrow> (Inl e, fs) | None \<Rightarrow>
      (case look fs (key_of path) of
         Some (FileNode contents) \<Rightarrow> (Inr (), remove_tree (key_of path) fs)
       | Some v \<Rightarrow> (Inl (IoError OtherKind ''not a file''), fs)
       | None \<Rightarrow> (Inl not_found, fs)))"

text \<open>The names in a directory, each with whether it is a directory itself.\<close>

definition read_dir :: "file_system \<Rightarrow> str \<Rightarrow> io_error + str list" where
  "read_dir fs path =
     (case fault fs OpReadDir path of Some e \<Rightarrow> Inl e | None \<Rightarrow>
      if \<not> path_is_dir fs (key_of path) then Inl not_found
      else Inr (remdups (map last (filter (\<lambda>k. k \<noteq> [] \<and> butlast k = key_of path) (map fst (nodes fs))))))"

text \<open>\<open>remove_dir\<close> takes a directory only when there is nothing in it.\<close>

definition remove_dir :: "str \<Rightarrow> file_system \<Rightarrow> (io_error + unit) \<times> file_system" where
  "remove_dir path fs =
     (case fault fs OpRemove path of Some e \<Rightarrow> (Inl e, fs) | None \<Rightarrow>
      (case look fs (key_of path) of
         Some DirNode \<Rightarrow>
           if list_ex (\<lambda>k. strict_prefix (key_of path) k) (map fst (nodes fs))
           then (Inl (IoError OtherKind ''not empty''), fs)
           else (Inr (), remove_tree (key_of path) fs)
       | Some v \<Rightarrow> (Inl (IoError OtherKind ''not a directory''), fs)
       | None \<Rightarrow> (Inl not_found, fs)))"

text \<open>Sequencing with the error passed on, and the conversion of an I/O error.\<close>

definition bind_fs ::
  "(file_system \<Rightarrow> (kam_error + 'a) \<times> file_system) \<Rightarrow> ('a \<Rightarrow> file_system \<Rightarrow> (kam_error + 'b) \<times> file_system)
     \<Rightarrow> file_system \<Rightarrow> (kam_error + 'b) \<times> file_system" where
  "bind_fs m f fs = (case m fs of (Inl e, fs') \<Rightarrow> (Inl e, fs') | (Inr a, fs') \<Rightarrow> f a fs')"

definition lift_io :: "(io_error \<Rightarrow> kam_error) \<Rightarrow> (file_system \<Rightarrow> (io_error + 'a) \<times> file_system)
    \<Rightarrow> file_system \<Rightarrow> (kam_error + 'a) \<times> file_system" where
  "lift_io wrap m fs = (case m fs of (Inl e, fs') \<Rightarrow> (Inl (wrap e), fs') | (Inr a, fs') \<Rightarrow> (Inr a, fs'))"

definition refuse :: "str \<Rightarrow> file_system \<Rightarrow> (kam_error + 'a) \<times> file_system" where
  "refuse why fs = (Inl (Refused why), fs)"

section \<open>What the operations do to lookups\<close>

lemma look_set_node: "look (set_node k v fs) j = (if j = k then Some v else look fs j)"
  by (simp add: look_def set_node_def)

lemma map_of_filter_keys: "map_of (filter (\<lambda>(j, v). P j) xs) k = (if P k then map_of xs k else None)"
  by (induction xs) auto

lemma look_remove_tree: "look (remove_tree k fs) j = (if prefix k j then None else look fs j)"
  by (simp add: look_def remove_tree_def map_of_filter_keys [of "\<lambda>j. \<not> prefix k j"])

lemma look_move_tree:
  assumes "\<not> prefix src dst" and "\<not> prefix dst src"
  shows "look (move_tree src dst fs) j =
    (if prefix dst j then look fs (src @ drop (length dst) j) else if prefix src j then None else look fs j)"
proof -
  let ?g = "\<lambda>(j, v :: fnode). (if prefix src j then dst @ drop (length src) j else j, v)"
  have apart: "\<not> prefix dst (src @ x)" "\<not> prefix src (dst @ x)" for x
    using assms by (metis prefix_def prefix_same_cases)+
  have "map_of (map ?g (filter (\<lambda>(j, v). \<not> prefix dst j) xs)) j =
      (if prefix dst j then map_of xs (src @ drop (length dst) j)
       else if prefix src j then None else map_of xs j)" for xs
  proof (induction xs)
    case (Cons x xs)
    obtain k v where x: "x = (k, v)" by (cases x)
    consider (dst) "prefix dst k" | (src) "prefix src k" "\<not> prefix dst k" | (other) "\<not> prefix src k" "\<not> prefix dst k"
      by blast
    then show ?case
    proof cases
      case dst
      then have "\<forall>y. k \<noteq> src @ y \<and> src @ y \<noteq> k" using apart by blast
      with dst Cons.IH show ?thesis by (auto simp: x)
    next
      case src
      then obtain y where k: "k = src @ y" by (auto simp: prefix_def)
      have "src \<noteq> dst" using assms(1) by auto
      show ?thesis
      proof (cases "prefix dst j")
        case True
        then obtain z where "j = dst @ z" by (auto simp: prefix_def)
        then show ?thesis using Cons.IH by (auto simp: x k apart)
      next
        case False
        then have "dst @ y \<noteq> j" and "prefix src j \<or> src @ y \<noteq> j" by auto
        then show ?thesis using Cons.IH False by (auto simp: x k apart)
      qed
    next
      case other
      then have "\<forall>y. k \<noteq> src @ y \<and> src @ y \<noteq> k" by auto
      with other Cons.IH show ?thesis by (auto simp: x)
    qed
  qed simp
  then show ?thesis by (simp add: look_def move_tree_def)
qed

lemma fs_fields [simp]:
  "fault (set_node k v fs) = fault fs" "fault (remove_tree k fs) = fault fs"
  "fault (move_tree s d fs) = fault fs"
  "canonical (set_node k v fs) = canonical fs" "canonical (remove_tree k fs) = canonical fs"
  "canonical (move_tree s d fs) = canonical fs"
  by (simp_all add: set_node_def remove_tree_def move_tree_def)

lemma follow_plain: "look fs k = Some v \<Longrightarrow> \<forall>t. v \<noteq> LinkNode t \<Longrightarrow> follow (Suc n) fs k = Some v"
  by (cases v) simp_all

lemma path_is_dir_plain: "look fs k = Some DirNode \<Longrightarrow> path_is_dir fs k"
  using follow_plain [of fs k DirNode 63] by (simp add: path_is_dir_def numeral_eq_Suc)

lemma follow_none: "look fs k = None \<Longrightarrow> follow n fs k = None"
  by (cases n) simp_all

text \<open>Creating directories that are all there changes nothing.\<close>

lemma create_missing_there:
  "(\<And>j. prefix j (base @ cs) \<Longrightarrow> strict_prefix base j \<Longrightarrow> look fs j = Some DirNode) \<Longrightarrow>
     create_missing base cs fs = (Inr (), fs)"
proof (induction cs arbitrary: base)
  case (Cons c cs)
  have "path_is_dir fs (base @ [c])"
    by (rule path_is_dir_plain, rule Cons.prems) (simp_all add: strict_prefix_def)
  moreover have "create_missing (base @ [c]) cs fs = (Inr (), fs)"
    by (rule Cons.IH, rule Cons.prems) (auto simp: strict_prefix_def prefix_def)
  ultimately show ?case by simp
qed simp

lemma create_missing_keeps:
  "create_missing base cs fs = (r, fs') \<Longrightarrow> look fs k = Some v \<Longrightarrow> look fs' k = Some v"
proof (induction cs arbitrary: base fs)
  case (Cons c cs)
  have "look (set_node (base @ [c]) DirNode fs) k = Some v" if "look fs (base @ [c]) = None"
    using that Cons.prems(2) by (auto simp: look_set_node)
  with Cons show ?case by (auto split: if_splits)
qed simp

section \<open>Keys of joined paths\<close>

lemma normalise_append: "normalise acc (xs @ ys) = normalise (normalise acc xs) ys"
  by (induction xs arbitrary: acc) simp_all

lemma split_on_snoc:
  "p c \<Longrightarrow> split_on p (s @ c # t) = split_on p s @ split_on p t"
proof (induction s)
  case (Cons d s)
  then show ?case by (cases "split_on p s") (auto split: list.splits)
qed simp

text \<open>A name that is a plain component: it has no separator or colon and is not a dot name.\<close>

definition plain_name :: "str \<Rightarrow> bool" where
  "plain_name n \<longleftrightarrow> n \<noteq> [] \<and> n \<noteq> ''.'' \<and> n \<noteq> ''..'' \<and> ascii_lower n = n
     \<and> list_all (\<lambda>c. \<not> is_path_separator c \<and> c \<noteq> CHR '':'') n"

lemma split_on_no_sep: "list_all (\<lambda>c. \<not> p c) n \<Longrightarrow> split_on p n = [n]"
  by (induction n) simp_all

lemma key_of_snoc:
  assumes "plain_name n" and "is_path_separator c"
  shows "key_of (base @ c # n) = key_of base @ [n]"
proof -
  have "list_all (\<lambda>c. \<not> is_path_separator c) n" using assms(1) by (simp add: plain_name_def list_all_iff)
  then have "split_on is_path_separator (base @ c # n) = split_on is_path_separator base @ [n]"
    using assms(2) by (simp add: split_on_snoc split_on_no_sep)
  with assms(1) show ?thesis by (simp add: key_of_def normalise_append plain_name_def)
qed

lemma key_of_join:
  assumes "plain_name n" and "base \<noteq> []"
  shows "key_of (path_join base n) = key_of base @ [n]"
proof -
  obtain a m where n: "n = a # m" using assms(1) by (cases n) (simp_all add: plain_name_def)
  have rel: "\<not> has_drive n" "\<not> has_root n"
    using assms(1) by (auto simp: n plain_name_def has_drive_def has_root_def split: list.splits)
  show ?thesis
  proof (cases "is_path_separator (last base)")
    case True
    have b: "base = butlast base @ [last base]" using assms(2) by simp
    have "split_on is_path_separator base = split_on is_path_separator (butlast base) @ [[]]"
      by (subst b, subst split_on_snoc) (simp_all add: True)
    then have "key_of base = key_of (butlast base)"
      by (simp add: key_of_def normalise_append)
    moreover have "base @ n = butlast base @ last base # n"
      using arg_cong [OF b, of "\<lambda>x. x @ n"] by simp
    ultimately have "key_of (base @ n) = key_of base @ [n]"
      using key_of_snoc [OF assms(1) True, of "butlast base"] by (simp only:)
    then show ?thesis using rel True assms(2) by (simp add: path_join_def)
  next
    case False
    then show ?thesis using rel assms key_of_snoc [OF assms(1), of "CHR 0x5C" base]
      by (simp add: path_join_def is_path_separator_def)
  qed
qed

lemma path_join_nonempty: "base \<noteq> [] \<Longrightarrow> plain_name n \<Longrightarrow> path_join base n \<noteq> []"
  by (auto simp: path_join_def plain_name_def)

text \<open>A path spelled as a directory and a name in it, and what \<open>Path::parent\<close> makes of it.\<close>

definition component :: "str \<Rightarrow> bool" where
  "component n \<longleftrightarrow> n \<noteq> [] \<and> n \<noteq> ''.'' \<and> n \<noteq> ''..'' \<and> list_all (\<lambda>c. \<not> is_path_separator c) n"

definition directory_text :: "str \<Rightarrow> bool" where
  "directory_text d \<longleftrightarrow> d \<noteq> [] \<and> \<not> is_path_separator (last d)"

lemma split_at_component:
  assumes "component n"
  shows "split_on is_path_separator (dir @ CHR 0x5C # n) = split_on is_path_separator dir @ [n]"
  using assms by (simp add: component_def split_on_snoc split_on_no_sep is_path_separator_def)

lemma key_of_component: "component n \<Longrightarrow> key_of (dir @ CHR 0x5C # n) = key_of dir @ [ascii_lower n]"
  by (simp add: key_of_def split_at_component normalise_append) (simp add: component_def)

lemma trim_end_directory: "directory_text d \<Longrightarrow> trim_end_matches is_path_separator d = d"
  by (cases d rule: rev_cases) (simp_all add: directory_text_def trim_end_matches_def)

lemma key_of_trailing: "key_of (d @ [CHR 0x5C]) = key_of d"
  by (simp add: key_of_def split_on_snoc is_path_separator_def normalise_append)

lemma path_parent_component:
  assumes "component n" and "directory_text d"
  shows "\<exists>q. path_parent (d @ CHR 0x5C # n) = Some q \<and> key_of q = key_of d"
proof -
  let ?t = "d @ CHR 0x5C # n"
  have n: "n \<noteq> []" "\<not> is_path_separator (last n)" using assms(1) by (auto simp: component_def list_all_iff)
  have t: "trim_end_matches is_path_separator ?t = ?t"
    using n by (intro trim_end_directory) (simp add: directory_text_def)
  have nm: "last (split_on is_path_separator ?t) = n" by (simp add: split_at_component [OF assms(1)])
  have cut: "take (length ?t - length n) ?t = d @ [CHR 0x5C]" by simp
  have q: "trim_end_matches is_path_separator (d @ [CHR 0x5C]) = d"
    using trim_end_directory [OF assms(2)] by (simp add: trim_end_matches_def is_path_separator_def)
  have "d \<noteq> []" using assms(2) by (simp add: directory_text_def)
  then have "path_parent ?t = Some (if last d = CHR '':'' then d @ [CHR 0x5C] else d)"
    unfolding path_parent_def t nm cut q Let_def by simp
  then show ?thesis by (simp add: key_of_trailing)
qed

end
