(* ===== verification/Kam_Quarantine.thy ===== *)
theory Kam_Quarantine
  imports Kam_Files
begin

text \<open>
  The quarantine store, \<open>crates/kam-quarantine/src/lib.rs\<close>: staging an item by a rename,
  putting it back, purging and deleting it, and the recorded moves. The file system is the state
  of the operations; the JSON codec (serde) and \<open>str::to_lowercase\<close> are arguments, and so
  is every reading of the clock.
\<close>

section \<open>Data\<close>

definition RETENTION_DAYS :: u64 where "RETENTION_DAYS = 30"
definition PAYLOAD :: str where "PAYLOAD = ''payload''"
definition MANIFEST :: str where "MANIFEST = ''manifest.json''"

datatype item_kind = KindFile | KindDirectory

record manifest =
  man_id :: str
  original_path :: str
  man_kind :: item_kind
  man_bytes :: u64
  quarantined_at :: u64
  reason :: str
  restored :: bool

record move_record =
  mv_id :: str
  mv_from :: str
  mv_to :: str
  mv_bytes :: u64
  moved_at :: u64
  undone :: bool

text \<open>What the store uses of serde: writing may fail, and so may reading, with a message.\<close>

record codec =
  manifest_to_json :: "manifest \<Rightarrow> str + str"
  manifest_from_json :: "str \<Rightarrow> str + manifest"
  move_to_json :: "move_record \<Rightarrow> str + str"
  move_from_json :: "str \<Rightarrow> str + move_record"

record store =
  store_root :: str
  store_codec :: codec
  store_lower :: "str \<Rightarrow> str"

definition retention_remaining :: "manifest \<Rightarrow> u64 \<Rightarrow> u64" where
  "retention_remaining man now = saturating_sub (quarantined_at man + RETENTION_DAYS * 86400) now"

section \<open>Comparing paths\<close>

definition UNC_PREFIX :: str where
  "UNC_PREFIX = [CHR 0x5C, CHR 0x5C, CHR ''?'', CHR 0x5C] @ ''unc'' @ [CHR 0x5C]"

definition VERBATIM_PREFIX :: str where
  "VERBATIM_PREFIX = [CHR 0x5C, CHR 0x5C, CHR ''?'', CHR 0x5C]"

definition comparable :: "(str \<Rightarrow> str) \<Rightarrow> str \<Rightarrow> str" where
  "comparable lower path =
     (let folded = lower (map (\<lambda>c. if c = CHR ''/'' then CHR 0x5C else c) path)
      in case strip_prefix UNC_PREFIX folded of
           Some rest \<Rightarrow> [CHR 0x5C, CHR 0x5C] @ rest
         | None \<Rightarrow> (case strip_prefix VERBATIM_PREFIX folded of Some rest \<Rightarrow> rest | None \<Rightarrow> folded))"

definition volume_of :: "str \<Rightarrow> char option" where
  "volume_of path =
     (case path of [] \<Rightarrow> None
      | c # rest \<Rightarrow> if is_ascii_alphabetic c then Some (to_ascii_uppercase c) else None)"

text \<open>The components \<open>Path::starts_with\<close> compares: whether the path is rooted, and its parts.\<close>

definition path_components :: "str \<Rightarrow> bool \<times> str list" where
  "path_components s =
     (has_root s, filter (\<lambda>c. c \<noteq> [] \<and> c \<noteq> ''.'') (split_on is_path_separator s))"

definition path_starts_with :: "str \<Rightarrow> str \<Rightarrow> bool" where
  "path_starts_with s base \<longleftrightarrow>
     fst (path_components s) = fst (path_components base)
     \<and> prefix (snd (path_components base)) (snd (path_components s))"

definition or_as_written :: "str \<Rightarrow> io_error + str \<Rightarrow> str" where
  "or_as_written written r = (case r of Inl e \<Rightarrow> written | Inr p \<Rightarrow> p)"

definition overlaps :: "store \<Rightarrow> file_system \<Rightarrow> str \<Rightarrow> bool" where
  "overlaps st fs path =
     (let rootc = comparable (store_lower st) (or_as_written (store_root st) (canonical fs (store_root st)));
          target = comparable (store_lower st) (or_as_written path (canonical fs path))
      in path_starts_with target rootc \<or> path_starts_with rootc target)"

section \<open>Identifiers\<close>

definition is_issued_id :: "str \<Rightarrow> bool" where
  "is_issued_id item =
     (case split_once CHR ''-'' item of
        None \<Rightarrow> False
      | Some (seconds, sfx) \<Rightarrow>
          (seconds \<noteq> [] \<and> length seconds \<le> 20 \<and> list_all is_digit seconds)
          \<and> (sfx = ''overflow'' \<or> (length sfx = 4 \<and> list_all is_digit sfx)))"

definition item_directory :: "store \<Rightarrow> str \<Rightarrow> kam_error + str" where
  "item_directory st item =
     (if is_issued_id item then Inr (path_join (store_root st) item)
      else Inl (Refused (item @ '' is not an identifier this store issued'')))"

definition format_id :: "u64 \<Rightarrow> nat \<Rightarrow> str" where
  "format_id seconds sfx = show_nat (unat seconds) @ ''-'' @ pad0 4 (show_nat sfx)"

fun claim_from :: "store \<Rightarrow> u64 \<Rightarrow> nat list \<Rightarrow> file_system \<Rightarrow> (kam_error + str \<times> str) \<times> file_system" where
  "claim_from st seconds [] fs =
     refuse ''the quarantine store has run out of identifiers for this second'' fs"
| "claim_from st seconds (sfx # rest) fs =
     (let item = format_id seconds sfx;
          directory = path_join (store_root st) item
      in case create_dir directory fs of
           (Inr u, fs') \<Rightarrow> (Inr (item, directory), fs')
         | (Inl e, fs') \<Rightarrow>
             if io_error_kind e = AlreadyExists then claim_from st seconds rest fs'
             else (Inl (Io e), fs'))"

definition claim_id :: "store \<Rightarrow> u64 \<Rightarrow> file_system \<Rightarrow> (kam_error + str \<times> str) \<times> file_system" where
  "claim_id st seconds =
     bind_fs (lift_io Io (create_dir_all (store_root st))) (\<lambda>u. claim_from st seconds [0..<10000])"

definition allocate_id :: "store \<Rightarrow> u64 \<Rightarrow> file_system \<Rightarrow> str" where
  "allocate_id st seconds fs =
     (case find (\<lambda>sfx. \<not> path_exists fs (path_join (store_root st) (format_id seconds sfx))) [0..<10000] of
        Some sfx \<Rightarrow> format_id seconds sfx
      | None \<Rightarrow> show_nat (unat seconds) @ ''-overflow'')"

section \<open>The manifests\<close>

definition from_sum :: "kam_error + 'a \<Rightarrow> file_system \<Rightarrow> (kam_error + 'a) \<times> file_system" where
  "from_sum r fs = (r, fs)"

definition write_manifest :: "store \<Rightarrow> manifest \<Rightarrow> file_system \<Rightarrow> (kam_error + unit) \<times> file_system" where
  "write_manifest st man =
     bind_fs (from_sum (item_directory st (man_id man))) (\<lambda>directory fs.
       case manifest_to_json (store_codec st) man of
         Inl e \<Rightarrow> refuse (''could not write a manifest: '' @ e) fs
       | Inr contents \<Rightarrow> lift_io Io (fs_write (path_join directory MANIFEST) contents) fs)"

definition read_manifest :: "store \<Rightarrow> file_system \<Rightarrow> str \<Rightarrow> kam_error + manifest" where
  "read_manifest st fs item =
     (case item_directory st item of
        Inl e \<Rightarrow> Inl e
      | Inr directory \<Rightarrow>
        (case read_to_string fs (path_join directory MANIFEST) of
           Inl e \<Rightarrow> Inl (Refused (''no quarantined item '' @ item @ '': '' @ io_error_text e))
         | Inr contents \<Rightarrow>
           (case manifest_from_json (store_codec st) contents of
              Inl e \<Rightarrow> Inl (Refused (item @ '' has an unreadable manifest: '' @ e))
            | Inr man \<Rightarrow> Inr man)))"

section \<open>Taking and restoring\<close>

definition stage :: "store \<Rightarrow> str \<Rightarrow> str \<Rightarrow> manifest \<Rightarrow> file_system \<Rightarrow> (kam_error + manifest) \<times> file_system" where
  "stage st path directory man fs =
     (case fs_rename path (path_join directory PAYLOAD) fs of
        (Inr u, fs') \<Rightarrow> (Inr man, fs')
      | (Inl e, fs') \<Rightarrow>
          refuse (path @ '' could not be moved into quarantine: '' @ io_error_text e)
            (snd (remove_dir_all directory fs')))"

definition take_item ::
  "store \<Rightarrow> str \<Rightarrow> u64 \<Rightarrow> str \<Rightarrow> u64 \<Rightarrow> u64 \<Rightarrow> file_system \<Rightarrow> (kam_error + manifest) \<times> file_system" where
  "take_item st path b why now_claim now_stamp fs =
     (case symlink_metadata fs path of
        Inl e \<Rightarrow> refuse (path @ '' cannot be read: '' @ io_error_text e) fs
      | Inr metadata \<Rightarrow>
        if (case metadata of LinkNode t \<Rightarrow> True | _ \<Rightarrow> False)
        then refuse (path @ '' is a junction or symbolic link; quarantining it would move the link rather than what it points at'') fs
        else if volume_of path \<noteq> volume_of (store_root st)
        then refuse (path @ '' is on a different volume from the quarantine store; a cross-volume move would have to copy and re-apply permissions, which this deliberately does not do'') fs
        else if overlaps st fs path
        then refuse (path @ '' is part of the quarantine store or holds it, so it cannot be quarantined'') fs
        else bind_fs (claim_id st now_claim) (\<lambda>(item, directory).
          let man = \<lparr>man_id = item, original_path = path,
                man_kind = (if metadata = DirNode then KindDirectory else KindFile),
                man_bytes = b, quarantined_at = now_stamp, reason = why, restored = False\<rparr>
          in bind_fs (write_manifest st man) (\<lambda>u. stage st path directory man)) fs)"

definition create_parent :: "str \<Rightarrow> file_system \<Rightarrow> (kam_error + unit) \<times> file_system" where
  "create_parent path =
     (case path_parent path of
        None \<Rightarrow> from_sum (Inr ())
      | Some directory \<Rightarrow> lift_io Io (create_dir_all directory))"

definition restore :: "store \<Rightarrow> str \<Rightarrow> file_system \<Rightarrow> (kam_error + manifest) \<times> file_system" where
  "restore st item fs =
     (case read_manifest st fs item of
        Inl e \<Rightarrow> (Inl e, fs)
      | Inr man \<Rightarrow>
        if restored man then refuse (item @ '' has already been restored'') fs
        else if path_exists fs (original_path man)
        then refuse (original_path man @ '' exists again; restoring would overwrite it'') fs
        else bind_fs (create_parent (original_path man)) (\<lambda>u.
          bind_fs (from_sum (item_directory st item)) (\<lambda>directory.
          bind_fs (lift_io (\<lambda>e. Refused (item @ '' could not be restored to '' @ original_path man @ '': '' @ io_error_text e))
              (fs_rename (path_join directory PAYLOAD) (original_path man))) (\<lambda>u.
          let man = man\<lparr>restored := True\<rparr>
          in bind_fs (write_manifest st man) (\<lambda>u. from_sum (Inr man))))) fs)"

section \<open>Removing\<close>

definition remove_item :: "store \<Rightarrow> str \<Rightarrow> u64 \<Rightarrow> file_system \<Rightarrow> (kam_error + u64) \<times> file_system" where
  "remove_item st item b =
     bind_fs (from_sum (item_directory st item)) (\<lambda>directory fs.
       let held = path_exists fs (path_join directory PAYLOAD)
       in bind_fs (lift_io Io (remove_dir_all directory))
            (\<lambda>u. from_sum (Inr (if held then b else 0))) fs)"

text \<open>\<open>remaining.div_ceil(86_400)\<close>.\<close>

definition days_remaining :: "u64 \<Rightarrow> nat" where
  "days_remaining remaining = (unat remaining + 86399) div 86400"

definition purge :: "store \<Rightarrow> str \<Rightarrow> u64 \<Rightarrow> file_system \<Rightarrow> (kam_error + u64) \<times> file_system" where
  "purge st item now fs =
     (case read_manifest st fs item of
        Inl e \<Rightarrow> (Inl e, fs)
      | Inr man \<Rightarrow>
        (let remaining = retention_remaining man now
         in if 0 < remaining \<and> \<not> restored man
            then refuse (item @ '' is still within its 30-day retention, ''
                   @ show_nat (days_remaining remaining) @ '' days remaining'') fs
            else remove_item st item (man_bytes man) fs))"

definition delete_now :: "store \<Rightarrow> str \<Rightarrow> file_system \<Rightarrow> (kam_error + u64) \<times> file_system" where
  "delete_now st item fs =
     (case read_manifest st fs item of
        Inl e \<Rightarrow> (Inl e, fs)
      | Inr man \<Rightarrow> remove_item st item (man_bytes man) fs)"

definition list_items :: "store \<Rightarrow> file_system \<Rightarrow> manifest list" where
  "list_items st fs =
     (case read_dir fs (store_root st) of
        Inl e \<Rightarrow> []
      | Inr names \<Rightarrow>
          sort_desc_by (\<lambda>man. unat (quarantined_at man))
            (List.map_filter (\<lambda>item. case read_manifest st fs item of Inl e \<Rightarrow> None | Inr man \<Rightarrow> Some man)
               (filter (\<lambda>item. path_is_dir fs (key_of (path_join (store_root st) item))) names)))"

section \<open>Recorded moves\<close>

definition moves_directory :: "store \<Rightarrow> str" where
  "moves_directory st = path_join (store_root st) ''moves''"

definition move_path :: "store \<Rightarrow> str \<Rightarrow> str" where
  "move_path st item = path_join (moves_directory st) (item @ ''.json'')"

definition write_move :: "store \<Rightarrow> move_record \<Rightarrow> file_system \<Rightarrow> (kam_error + unit) \<times> file_system" where
  "write_move st mv =
     bind_fs (lift_io Io (create_dir_all (moves_directory st))) (\<lambda>u fs.
       case move_to_json (store_codec st) mv of
         Inl e \<Rightarrow> refuse (''could not write a move record: '' @ e) fs
       | Inr contents \<Rightarrow> lift_io Io (fs_write (move_path st (mv_id mv)) contents) fs)"

definition read_move :: "store \<Rightarrow> file_system \<Rightarrow> str \<Rightarrow> kam_error + move_record" where
  "read_move st fs item =
     (case read_to_string fs (move_path st item) of
        Inl e \<Rightarrow> Inl (Refused (''no recorded move '' @ item @ '': '' @ io_error_text e))
      | Inr contents \<Rightarrow>
        (case move_from_json (store_codec st) contents of
           Inl e \<Rightarrow> Inl (Refused (item @ '' has an unreadable record: '' @ e))
         | Inr mv \<Rightarrow> Inr mv))"

definition move_file ::
  "store \<Rightarrow> str \<Rightarrow> str \<Rightarrow> u64 \<Rightarrow> u64 \<Rightarrow> u64 \<Rightarrow> file_system \<Rightarrow> (kam_error + move_record) \<times> file_system" where
  "move_file st from_path to_path b now_id now_stamp fs =
     (case symlink_metadata fs from_path of
        Inl e \<Rightarrow> refuse (from_path @ '' cannot be read: '' @ io_error_text e) fs
      | Inr (LinkNode t) \<Rightarrow> refuse (from_path @ '' is a link; moving it would move the link and not the file'') fs
      | Inr DirNode \<Rightarrow> refuse (from_path @ '' is not a file'') fs
      | Inr (FileNode contents) \<Rightarrow>
        if path_exists fs to_path then refuse (to_path @ '' already exists; moving would overwrite it'') fs
        else if volume_of from_path \<noteq> volume_of to_path
        then refuse ''moving between drives would copy rather than rename, which this does not do'' fs
        else bind_fs (create_parent to_path) (\<lambda>u.
          bind_fs (lift_io Io (create_dir_all (moves_directory st))) (\<lambda>u fs.
          let mv = \<lparr>mv_id = allocate_id st now_id fs, mv_from = from_path, mv_to = to_path, mv_bytes = b,
                moved_at = now_stamp, undone = False\<rparr>
          in bind_fs (write_move st mv) (\<lambda>u fs.
             case fs_rename from_path to_path fs of
               (Inr u, fs') \<Rightarrow> (Inr mv, fs')
             | (Inl e, fs') \<Rightarrow>
                 refuse (from_path @ '' could not be moved to '' @ to_path @ '': '' @ io_error_text e)
                   (snd (remove_file (move_path st (mv_id mv)) fs'))) fs)) fs)"

definition undo_move :: "store \<Rightarrow> str \<Rightarrow> file_system \<Rightarrow> (kam_error + move_record) \<times> file_system" where
  "undo_move st item fs =
     (case read_move st fs item of
        Inl e \<Rightarrow> (Inl e, fs)
      | Inr mv \<Rightarrow>
        if undone mv then refuse (item @ '' has already been undone'') fs
        else if path_exists fs (mv_from mv)
        then refuse (mv_from mv @ '' exists again; putting the file back would overwrite it'') fs
        else bind_fs (create_parent (mv_from mv)) (\<lambda>u.
          bind_fs (lift_io (\<lambda>e. Refused (mv_to mv @ '' could not be put back: '' @ io_error_text e))
              (fs_rename (mv_to mv) (mv_from mv))) (\<lambda>u.
          let mv = mv\<lparr>undone := True\<rparr>
          in bind_fs (write_move st mv) (\<lambda>u. from_sum (Inr mv)))) fs)"

definition list_moves :: "store \<Rightarrow> file_system \<Rightarrow> move_record list" where
  "list_moves st fs =
     (case read_dir fs (moves_directory st) of
        Inl e \<Rightarrow> []
      | Inr names \<Rightarrow>
          sort_desc_by (\<lambda>mv. unat (moved_at mv))
            (List.map_filter (\<lambda>file_name. case read_to_string fs (path_join (moves_directory st) file_name) of
                 Inl e \<Rightarrow> None
               | Inr contents \<Rightarrow>
                   (case move_from_json (store_codec st) contents of Inl e \<Rightarrow> None | Inr mv \<Rightarrow> Some mv)) names))"

definition open_store :: "str \<Rightarrow> codec \<Rightarrow> (str \<Rightarrow> str) \<Rightarrow> file_system \<Rightarrow> (kam_error + store) \<times> file_system" where
  "open_store root_path cd lower =
     bind_fs (lift_io Io (create_dir_all root_path))
       (\<lambda>u. from_sum (Inr \<lparr>store_root = root_path, store_codec = cd, store_lower = lower\<rparr>))"

end
