(* ===== verification/Kam_Quarantine_Safety.thy ===== *)
theory Kam_Quarantine_Safety
  imports Kam_Quarantine
begin

text \<open>
  What the store promises: an accepted identifier names a direct child of the store, identifiers
  are claimed once, a taken item can be put bk and the file system outside the store is then as
  it was, restoring overwrites nothing, purging waits, and removal stays inside the item. Also
  two things the recorded moves do not promise.
\<close>

section \<open>Identifiers\<close>

lemma digit_facts:
  assumes "is_digit c"
  shows "\<not> is_path_separator c" and "c \<noteq> CHR '':''" and "c \<noteq> CHR ''.''" and "c \<noteq> CHR ''-''"
    and "ascii_lower_char c = c" and "\<not> is_ascii_alphabetic c"
  using assms
  by (auto simp: is_digit_def is_path_separator_def ascii_lower_char_def Let_def is_ascii_alphabetic_def)

lemma split_once_at: "c \<notin> set a \<Longrightarrow> split_once c (a @ c # b) = Some (a, b)"
  by (induction a) (auto simp: split_once_def Let_def split: if_splits)

lemma issued_id_shape:
  assumes "is_issued_id item"
  shows "\<exists>a b. item = a @ CHR ''-'' # b \<and> a \<noteq> [] \<and> list_all is_digit a \<and> (b = ''overflow'' \<or> list_all is_digit b)"
proof -
  obtain a b where ab: "split_once CHR ''-'' item = Some (a, b)"
    using assms by (auto simp: is_issued_id_def split: option.splits)
  with assms have "a \<noteq> [] \<and> list_all is_digit a \<and> (b = ''overflow'' \<or> list_all is_digit b)"
    by (auto simp: is_issued_id_def)
  with split_once_Some(1) [OF ab] show ?thesis by blast
qed

lemma issued_id_chars:
  assumes "is_issued_id item" and "c \<in> set item"
  shows "\<not> is_path_separator c \<and> c \<noteq> CHR '':'' \<and> c \<noteq> CHR ''.'' \<and> ascii_lower_char c = c"
proof -
  obtain a b where ab: "item = a @ CHR ''-'' # b" "list_all is_digit a" "b = ''overflow'' \<or> list_all is_digit b"
    using issued_id_shape [OF assms(1)] by blast
  then consider "is_digit c" | "c = CHR ''-''" | "c \<in> set ''overflow''"
    using assms(2) by (auto simp: list_all_iff)
  then show ?thesis
    by cases (simp add: digit_facts, auto simp: is_path_separator_def ascii_lower_char_def)
qed

lemma issued_id_plain:
  assumes "is_issued_id item"
  shows "plain_name item"
proof -
  have "ascii_lower item = item"
    unfolding ascii_lower_def using issued_id_chars [OF assms] by (intro map_idI) simp
  moreover have "item \<noteq> []" "item \<noteq> ''.''" "item \<noteq> ''..''"
    using issued_id_shape [OF assms] issued_id_chars [OF assms] by auto
  ultimately show ?thesis using issued_id_chars [OF assms] by (simp add: plain_name_def list_all_iff)
qed

lemma plain_constants [simp]: "plain_name PAYLOAD" "plain_name MANIFEST" "plain_name ''moves''"
  by (simp_all add: plain_name_def PAYLOAD_def MANIFEST_def ascii_lower_def ascii_lower_char_def is_path_separator_def)

lemma show_u64: "length (show_nat (unat (s :: u64))) \<le> 20" "list_all is_digit (show_nat (unat s))"
proof -
  have "unat s < 10 ^ 20" using unat_bound [of s] by simp
  then show "length (show_nat (unat s)) \<le> 20" by (intro length_show_nat) simp
  show "list_all is_digit (show_nat (unat s))" using show_nat_digits by (simp add: list_all_iff)
qed

lemma dash_not_in_seconds: "CHR ''-'' \<notin> set (show_nat n)"
  using show_nat_digits [of n] digit_facts(4) by blast

lemma format_id_issued: "n < 10000 \<Longrightarrow> is_issued_id (format_id s n)"
  using show_u64 [of s] split_once_at [OF dash_not_in_seconds] length_pad0_show [of 4 n] pad0_digits
  by (simp add: is_issued_id_def format_id_def list_all_iff)

lemma overflow_id_issued: "is_issued_id (show_nat (unat (s :: u64)) @ ''-overflow'')"
  using show_u64 [of s] split_once_at [OF dash_not_in_seconds]
  by (simp add: is_issued_id_def)

lemma item_key:
  assumes "is_issued_id item" and "store_root st \<noteq> []"
  shows "key_of (path_join (store_root st) item) = key_of (store_root st) @ [item]"
  using key_of_join [OF issued_id_plain [OF assms(1)] assms(2)] .

lemma inside_item_key:
  assumes "is_issued_id item" and "store_root st \<noteq> []" and "plain_name n"
  shows "key_of (path_join (path_join (store_root st) item) n) = key_of (store_root st) @ [item, n]"
  using key_of_join [OF assms(3) path_join_nonempty [OF assms(2) issued_id_plain [OF assms(1)]]]
    item_key [OF assms(1,2)] by simp

lemma item_directory_Inr: "item_directory st item = Inr d \<longleftrightarrow> is_issued_id item \<and> d = path_join (store_root st) item"
  by (auto simp: item_directory_def)

section \<open>Claiming\<close>

lemma create_dir_cases:
  assumes "create_dir path fs = (r, fs')"
  shows "(\<exists>e. r = Inl e \<and> fs' = fs)
    \<or> (r = Inr () \<and> look fs (key_of path) = None \<and> fs' = set_node (key_of path) DirNode fs)"
  using assms by (auto simp: create_dir_def split: option.splits if_splits)

lemma claim_from_claims:
  assumes "claim_from st s ns fs = (Inr (item, d), fs')" and "set ns \<subseteq> {..<10000}"
  shows "is_issued_id item \<and> d = path_join (store_root st) item \<and> look fs (key_of d) = None
    \<and> fs' = set_node (key_of d) DirNode fs"
  using assms
proof (induction ns)
  case Nil
  then show ?case by (simp add: refuse_def)
next
  case (Cons n ns)
  obtain r fs1 where c: "create_dir (path_join (store_root st) (format_id s n)) fs = (r, fs1)"
    by (cases "create_dir (path_join (store_root st) (format_id s n)) fs")
  from create_dir_cases [OF c] show ?case
  proof (elim disjE exE conjE)
    fix e assume "r = Inl e" "fs1 = fs"
    with Cons.prems c have "claim_from st s ns fs = (Inr (item, d), fs')" "set ns \<subseteq> {..<10000}"
      by (auto simp: Let_def split: if_splits)
    then show ?case by (rule Cons.IH)
  next
    assume "r = Inr ()" "look fs (key_of (path_join (store_root st) (format_id s n))) = None"
      "fs1 = set_node (key_of (path_join (store_root st) (format_id s n))) DirNode fs"
    with Cons.prems c show ?case by (auto simp: Let_def format_id_issued)
  qed
qed

lemma create_dir_all_keeps:
  "create_dir_all path fs = (r, fs') \<Longrightarrow> look fs k = Some v \<Longrightarrow> look fs' k = Some v"
  by (auto simp: create_dir_all_def create_missing_keeps split: option.splits)

lemma claim_id_claims:
  assumes "claim_id st s fs = (Inr (item, d), fs')"
  shows "is_issued_id item \<and> d = path_join (store_root st) item \<and> look fs (key_of d) = None
    \<and> look fs' (key_of d) = Some DirNode \<and> (look fs k = Some v \<longrightarrow> look fs' k = Some v)"
proof -
  obtain r fs1 where c: "create_dir_all (store_root st) fs = (r, fs1)"
    by (cases "create_dir_all (store_root st) fs")
  with assms have "claim_from st s [0..<10000] fs1 = (Inr (item, d), fs')"
    by (auto simp: claim_id_def bind_fs_def lift_io_def split: sum.splits)
  then have "is_issued_id item \<and> d = path_join (store_root st) item \<and> look fs1 (key_of d) = None
      \<and> fs' = set_node (key_of d) DirNode fs1" by (rule claim_from_claims) auto
  then have f: "is_issued_id item" "d = path_join (store_root st) item" "look fs1 (key_of d) = None"
      "fs' = set_node (key_of d) DirNode fs1" by auto
  have "look fs (key_of d) = None"
    using create_dir_all_keeps [OF c] f(3) by (cases "look fs (key_of d)") auto
  then show ?thesis using f create_dir_all_keeps [OF c] by (auto simp: look_set_node)
qed

text \<open>A sequence of claims, as concurrent takes perform them: each may fail or give an identifier.\<close>

fun claim_all :: "store \<Rightarrow> u64 list \<Rightarrow> file_system \<Rightarrow> str list" where
  "claim_all st [] fs = []"
| "claim_all st (s # ss) fs =
     (case claim_id st s fs of
        (Inl e, fs') \<Rightarrow> claim_all st ss fs'
      | (Inr (item, d), fs') \<Rightarrow> item # claim_all st ss fs')"

lemma claim_id_keeps:
  assumes "claim_id st s fs = (r, fs')" and "look fs k = Some v"
  shows "look fs' k = Some v"
proof -
  obtain q fs1 where c: "create_dir_all (store_root st) fs = (q, fs1)"
    by (cases "create_dir_all (store_root st) fs")
  have k1: "look fs1 k = Some v" using create_dir_all_keeps [OF c assms(2)] .
  have "claim_from st s ns fs1 = (r, fs') \<Longrightarrow> look fs' k = Some v" for ns
  proof (induction ns)
    case Nil
    then show ?case using k1 by (simp add: refuse_def)
  next
    case (Cons n ns)
    then show ?case
      using k1 create_dir_cases [of "path_join (store_root st) (format_id s n)" fs1]
      by (cases "create_dir (path_join (store_root st) (format_id s n)) fs1")
         (auto simp: Let_def look_set_node split: if_splits)
  qed
  then show ?thesis using assms c k1
    by (auto simp: claim_id_def bind_fs_def lift_io_def split: sum.splits)
qed

lemma claim_all_fresh:
  assumes "store_root st \<noteq> []" and "item \<in> set (claim_all st ss fs)"
  shows "is_issued_id item \<and> look fs (key_of (store_root st) @ [item]) = None"
  using assms(2)
proof (induction ss arbitrary: fs)
  case (Cons s ss)
  obtain r fs' where c: "claim_id st s fs = (r, fs')" by (cases "claim_id st s fs")
  have bk: "look fs' k = None \<Longrightarrow> look fs k = None" for k
    using claim_id_keeps [OF c] by (cases "look fs k") auto
  show ?case
  proof (cases r)
    case (Inl e)
    with Cons c bk show ?thesis by auto
  next
    case (Inr x)
    then obtain i d where x: "x = (i, d)" by (cases x)
    show ?thesis
    proof (cases "item = i")
      case True
      have "is_issued_id i" "d = path_join (store_root st) i" "look fs (key_of d) = None"
        using claim_id_claims [of st s fs i d fs' "[]" DirNode] c Inr x by auto
      with True item_key [OF _ assms(1), of i] show ?thesis by simp
    next
      case False
      with Cons c Inr x bk show ?thesis by auto
    qed
  qed
qed simp

section \<open>Properties of the identifiers\<close>

text \<open>C33: an identifier that is accepted names a direct child of the store. Whatever a client sends,
  if \<open>item_directory\<close> gives a directory then that directory is the store's own child of that
  name: the identifier holds no separator, colon or dot, so neither an absolute path nor a
  \<open>..\<close> can lead anywhere else.\<close>

theorem item_directory_inside:
  assumes "store_root st \<noteq> []" and "item_directory st item = Inr d"
  shows "key_of d = key_of (store_root st) @ [item]
    \<and> list_all (\<lambda>c. \<not> is_path_separator c \<and> c \<noteq> CHR '':'' \<and> c \<noteq> CHR ''.'') item"
  using assms item_key [OF _ assms(1)] issued_id_chars
  by (auto simp: item_directory_Inr list_all_iff)

definition any_codec :: codec where
  "any_codec = \<lparr>manifest_to_json = (\<lambda>m. Inr ''m''), manifest_from_json = (\<lambda>s. Inl ''bad''),
     move_to_json = (\<lambda>m. Inr ''m''), move_from_json = (\<lambda>s. Inl ''bad'')\<rparr>"

definition sample_store :: store where
  "sample_store = \<lparr>store_root = ''c:/q'', store_codec = any_codec, store_lower = ascii_lower\<rparr>"

lemma sample_id_issued: "is_issued_id ''17-0003''"
  by (simp add: is_issued_id_def split_once_def is_digit_def)

theorem item_directory_inside_witness:
  "key_of (path_join ''c:/q'' ''17-0003'') = [''c:'', ''q'', ''17-0003'']"
  using item_directory_inside [of sample_store "''17-0003''" "path_join ''c:/q'' ''17-0003''"]
  by (simp add: sample_store_def item_directory_def sample_id_issued key_of_def is_path_separator_def
      ascii_lower_def ascii_lower_char_def)

text \<open>Every identifier the store hands out is one it accepts bk, for every reading of the clock,
  and a claimed directory did not exist before the claim and exists after it.\<close>

theorem issued_ids_accepted:
  "is_issued_id (allocate_id st s fs)
   \<and> (case claim_id st s fs of
        (Inl e, fs') \<Rightarrow> True
      | (Inr (item, d), fs') \<Rightarrow> item_directory st item = Inr d \<and> look fs (key_of d) = None
          \<and> look fs' (key_of d) = Some DirNode)"
proof -
  have "is_issued_id (allocate_id st s fs)"
    using overflow_id_issued
    by (auto simp: allocate_id_def find_Some_iff intro!: format_id_issued split: option.splits)
  then show ?thesis
    using claim_id_claims by (auto simp: item_directory_def split: prod.splits sum.splits)
qed

text \<open>No two takes share an identifier. In every sequence of claims, in the same second or not, and
  whatever fails in between, the identifiers given out are distinct.\<close>

theorem claims_distinct:
  assumes "store_root st \<noteq> []"
  shows "distinct (claim_all st ss fs)"
proof (induction ss arbitrary: fs)
  case (Cons s ss)
  obtain r fs' where c: "claim_id st s fs = (r, fs')" by (cases "claim_id st s fs")
  show ?case
  proof (cases r)
    case (Inl e)
    with Cons c show ?thesis by simp
  next
    case (Inr x)
    then obtain i d where x: "x = (i, d)" by (cases x)
    with c Inr have f: "is_issued_id i" "d = path_join (store_root st) i" "look fs' (key_of d) = Some DirNode"
      using claim_id_claims [of st s fs i d fs'] by auto
    then have "i \<notin> set (claim_all st ss fs')"
      using claim_all_fresh [OF assms, of i ss fs'] item_key [OF f(1) assms] by auto
    with Cons c Inr x show ?thesis by simp
  qed
qed simp

theorem claims_distinct_witness: "distinct (claim_all sample_store [17, 17] \<lparr>nodes = [(key_of (store_root sample_store), DirNode)], fault = (\<lambda>op p. None), canonical = Inr\<rparr>)"
  by (rule claims_distinct) (simp add: sample_store_def)

section \<open>Taking and putting back\<close>

text \<open>Every object has its directories above it.\<close>

definition fs_wf :: "file_system \<Rightarrow> bool" where
  "fs_wf fs \<longleftrightarrow> list_all (\<lambda>(k, v). k \<noteq> [] \<and>
     list_all (\<lambda>j. j = [] \<or> j = k \<or> look fs j = Some DirNode) (prefixes k)) (nodes fs)"

lemma fs_wf_above:
  assumes "fs_wf fs" and "look fs k = Some v" and "strict_prefix j k" and "j \<noteq> []"
  shows "look fs j = Some DirNode"
proof -
  have "(k, v) \<in> set (nodes fs)" using assms(2) by (simp add: look_def map_of_SomeD)
  moreover have "j \<in> set (prefixes k)" "j \<noteq> k" using assms(3) by (auto simp: strict_prefix_def)
  ultimately show ?thesis using assms(1,4) unfolding fs_wf_def list_all_iff by fastforce
qed

text \<open>The staged state: the item's directory and manifest are there and the payload is moved in.\<close>

definition staged :: "str list \<Rightarrow> str list \<Rightarrow> str \<Rightarrow> file_system \<Rightarrow> file_system" where
  "staged p d contents fs =
     move_tree p (d @ [PAYLOAD]) (set_node (d @ [MANIFEST]) (FileNode contents) (set_node d DirNode fs))"

lemma store_there:
  assumes "fs_wf fs" and "look fs (key_of (store_root st)) = Some DirNode"
    and "fault fs = (\<lambda>op p. None)"
  shows "create_dir_all (store_root st) fs = (Inr (), fs)"
proof -
  have "create_missing [] (key_of (store_root st)) fs = (Inr (), fs)"
  proof (rule create_missing_there)
    fix j assume "prefix j ([] @ key_of (store_root st))" "strict_prefix [] j"
    then show "look fs j = Some DirNode"
      using fs_wf_above [OF assms(1,2), of j] assms(2) by (cases "j = key_of (store_root st)") (auto simp: strict_prefix_def)
  qed
  then show ?thesis by (simp add: create_dir_all_def assms(3))
qed

lemma take_stages:
  assumes wf: "fs_wf fs" and root: "store_root st \<noteq> []" "look fs (key_of (store_root st)) = Some DirNode"
    and quiet: "fault fs = (\<lambda>op p. None)"
    and apart: "\<not> prefix (key_of path) (key_of (store_root st))" "\<not> prefix (key_of (store_root st)) (key_of path)"
    and taken: "take_item st path b why s1 s2 fs = (Inr man, fs1)"
  shows "\<exists>contents. is_issued_id (man_id man) \<and> original_path man = path \<and> \<not> restored man
    \<and> manifest_to_json (store_codec st) man = Inr contents
    \<and> look fs (key_of (store_root st) @ [man_id man]) = None
    \<and> look fs (key_of path) \<noteq> None \<and> (\<forall>t. look fs (key_of path) \<noteq> Some (LinkNode t))
    \<and> fs1 = staged (key_of path) (key_of (store_root st) @ [man_id man]) contents fs"
proof -
  obtain item d fs0 where claim: "claim_from st s1 [0..<10000] fs = (Inr (item, d), fs0)"
    and man: "man_id man = item" "original_path man = path" "\<not> restored man"
    and rest: "bind_fs (write_manifest st man) (\<lambda>u. stage st path d man) fs0 = (Inr man, fs1)"
    and there: "look fs (key_of path) \<noteq> None" "\<forall>t. look fs (key_of path) \<noteq> Some (LinkNode t)"
    using taken store_there [OF wf root(2) quiet] quiet
    by (auto simp: take_item_def refuse_def symlink_metadata_def claim_id_def lift_io_def bind_fs_def
        Let_def write_manifest_def stage_def split: sum.splits if_splits option.splits fnode.splits prod.splits)
  have f: "is_issued_id item \<and> d = path_join (store_root st) item \<and> look fs (key_of d) = None
      \<and> fs0 = set_node (key_of d) DirNode fs"
    by (rule claim_from_claims [OF claim]) auto
  have kd: "key_of d = key_of (store_root st) @ [item]" using f item_key [OF _ root(1)] by simp
  have km: "key_of (path_join d MANIFEST) = key_of d @ [MANIFEST]" "key_of (path_join d PAYLOAD) = key_of d @ [PAYLOAD]"
    using f kd inside_item_key [OF _ root(1)] by simp_all
  obtain contents where c: "manifest_to_json (store_codec st) man = Inr contents"
      "stage st path d man (set_node (key_of d @ [MANIFEST]) (FileNode contents) fs0) = (Inr man, fs1)"
    using rest f man(1) km
    by (auto simp: bind_fs_def write_manifest_def from_sum_def item_directory_def lift_io_def refuse_def
        fs_write_def split: sum.splits if_splits option.splits prod.splits)
  have "key_of path \<noteq> key_of d @ [PAYLOAD]" using apart(2) kd by auto
  then have "fs1 = staged (key_of path) (key_of d) contents fs"
    using c(2) f km
    by (auto simp: stage_def refuse_def fs_rename_def staged_def split: sum.splits if_splits option.splits prod.splits)
  then show ?thesis using f kd man c(1) there by auto
qed

lemma apart_extend:
  assumes "\<not> prefix p r" and "\<not> prefix r p"
  shows "\<not> prefix p (r @ x)" and "\<not> prefix (r @ x) p"
  using assms by (metis prefix_def prefix_same_cases) (metis assms(2) append_prefixD)

lemma look_staged:
  assumes "\<not> prefix p r" and "\<not> prefix r p"
  shows "look (staged p (r @ [item]) c fs) j =
    (if prefix (r @ [item, PAYLOAD]) j then look fs (p @ drop (length r + 2) j)
     else if prefix p j then None
     else if j = r @ [item, MANIFEST] then Some (FileNode c)
     else if j = r @ [item] then Some DirNode else look fs j)"
proof -
  have "p @ x \<noteq> r @ y" for x y using apart_extend(1) [OF assms] by (metis prefixI)
  then show ?thesis
    using apart_extend [OF assms] look_move_tree [of p "r @ [item, PAYLOAD]"]
    by (simp add: staged_def look_set_node)
qed

lemma read_manifest_plain:
  assumes "is_issued_id item" and "store_root st \<noteq> []" and "fault fs OpRead = (\<lambda>p. None)"
    and "look fs (key_of (store_root st) @ [item, MANIFEST]) = Some (FileNode c)"
    and "manifest_from_json (store_codec st) c = Inr man"
  shows "read_manifest st fs item = Inr man"
proof -
  have "resolve_node fs (path_join (path_join (store_root st) item) MANIFEST) = Some (FileNode c)"
    using follow_plain [OF assms(4), of 63] by (simp add: resolve_node_def inside_item_key assms numeral_eq_Suc)
  then show ?thesis by (simp add: read_manifest_def item_directory_def assms read_to_string_def)
qed

lemma write_manifest_plain:
  assumes "is_issued_id (man_id man)" and "store_root st \<noteq> []" and "fault fs OpWrite = (\<lambda>p. None)"
    and "manifest_to_json (store_codec st) man = Inr c"
    and "look fs (key_of (store_root st) @ [man_id man]) = Some DirNode"
    and "look fs (key_of (store_root st) @ [man_id man, MANIFEST]) \<noteq> Some DirNode"
  shows "write_manifest st man fs =
    (Inr (), set_node (key_of (store_root st) @ [man_id man, MANIFEST]) (FileNode c) fs)"
proof -
  have "butlast (key_of (store_root st) @ [man_id man, MANIFEST]) = key_of (store_root st) @ [man_id man]"
    by (simp add: butlast_append)
  then show ?thesis
    using path_is_dir_plain [OF assms(5)] assms
    by (simp add: write_manifest_def bind_fs_def from_sum_def item_directory_def lift_io_def fs_write_def
        inside_item_key parent_ready_def)
qed

text \<open>Renaming onto a free name in a directory that is there.\<close>

lemma rename_plain:
  assumes "fault fs OpRename = (\<lambda>p. None)" and "look fs (key_of from_path) = Some v"
    and "look fs (key_of to_path) = None" and "parent_ready fs (key_of to_path)"
    and "\<not> prefix (key_of from_path) (key_of to_path)"
  shows "fs_rename from_path to_path fs = (Inr (), move_tree (key_of from_path) (key_of to_path) fs)"
  using assms by (auto simp: fs_rename_def)

lemma create_parent_there:
  assumes "component n" and "directory_text d" and "fault fs OpCreateDir = (\<lambda>p. None)"
    and "\<And>j. strict_prefix j (key_of (d @ CHR 0x5C # n)) \<Longrightarrow> j \<noteq> [] \<Longrightarrow> look fs j = Some DirNode"
  shows "create_parent (d @ CHR 0x5C # n) fs = (Inr (), fs)"
proof -
  obtain q where q: "path_parent (d @ CHR 0x5C # n) = Some q" "key_of q = key_of d"
    using path_parent_component [OF assms(1,2)] by blast
  have "create_missing [] (key_of d) fs = (Inr (), fs)"
    by (rule create_missing_there, rule assms(4))
      (auto simp: key_of_component [OF assms(1)] strict_prefix_def prefix_def)
  with q show ?thesis by (simp add: create_parent_def lift_io_def create_dir_all_def assms(3))
qed

lemma restore_staged:
  assumes root: "store_root st \<noteq> []" and issued: "is_issued_id (man_id man)" and fresh: "\<not> restored man"
    and path: "original_path man = d @ CHR 0x5C # n" "component n" "directory_text d"
    and json: "manifest_from_json (store_codec st) c = Inr man"
      "manifest_to_json (store_codec st) (man\<lparr>restored := True\<rparr>) = Inr c'"
    and apart: "\<not> prefix (key_of (original_path man)) (key_of (store_root st))"
      "\<not> prefix (key_of (store_root st)) (key_of (original_path man))"
    and quiet: "fault fs = (\<lambda>op p. None)"
    and there: "look fs (key_of (original_path man)) = Some v"
    and above: "\<And>j. strict_prefix j (key_of (original_path man)) \<Longrightarrow> j \<noteq> [] \<Longrightarrow> look fs j = Some DirNode"
    and new: "look fs (key_of (store_root st) @ [man_id man]) = None"
  shows "restore st (man_id man) (staged (key_of (original_path man)) (key_of (store_root st) @ [man_id man]) c fs) =
    (Inr (man\<lparr>restored := True\<rparr>),
     set_node (key_of (store_root st) @ [man_id man, MANIFEST]) (FileNode c')
       (move_tree (key_of (store_root st) @ [man_id man, PAYLOAD]) (key_of (original_path man))
         (staged (key_of (original_path man)) (key_of (store_root st) @ [man_id man]) c fs)))"
proof -
  let ?p = "key_of (original_path man)"
  let ?r = "key_of (store_root st)"
  let ?s = "staged ?p (?r @ [man_id man]) c fs"
  let ?m = "move_tree (?r @ [man_id man, PAYLOAD]) ?p ?s"
  note look = look_staged [OF apart]
  have names: "MANIFEST \<noteq> PAYLOAD" by (simp add: MANIFEST_def PAYLOAD_def)
  have q: "fault ?s = (\<lambda>op p. None)" by (simp add: staged_def quiet)
  have ne: "\<not> prefix ?p (?r @ x)" "\<not> prefix (?r @ x) ?p" for x using apart_extend [OF apart] by auto
  have read: "read_manifest st ?s (man_id man) = Inr man"
    using names ne by (intro read_manifest_plain [OF issued root _ _ json(1)]) (simp_all add: q look)
  have gone: "look ?s ?p = None" using ne by (simp add: look)
  then have not_there: "\<not> path_exists ?s (original_path man)"
    by (simp add: path_exists_def resolve_node_def follow_none)
  have above': "look ?s j = Some DirNode" if "strict_prefix j ?p" "j \<noteq> []" for j
  proof -
    have "look fs j = Some DirNode" using above that by blast
    moreover have "\<not> prefix (?r @ [man_id man, PAYLOAD]) j" "\<not> prefix ?p j" "j \<noteq> ?r @ [man_id man, MANIFEST]"
      using that(1) ne by (auto simp: strict_prefix_def dest: prefix_order.order_trans prefix_order.antisym)
    ultimately show ?thesis by (simp add: look)
  qed
  have parent: "create_parent (original_path man) ?s = (Inr (), ?s)"
    unfolding path(1) using above' by (intro create_parent_there [OF path(2,3)]) (simp_all add: q flip: path(1))
  have pb: "?p = key_of d @ [ascii_lower n]" by (simp add: path(1) key_of_component [OF path(2)])
  have ready: "parent_ready ?s ?p"
    using above' [of "butlast ?p"] path_is_dir_plain by (auto simp: parent_ready_def pb strict_prefix_def)
  have kp: "key_of (path_join (path_join (store_root st) (man_id man)) PAYLOAD) = ?r @ [man_id man, PAYLOAD]"
    by (simp add: inside_item_key issued root)
  have ren: "fs_rename (path_join (path_join (store_root st) (man_id man)) PAYLOAD) (original_path man) ?s = (Inr (), ?m)"
    unfolding kp [symmetric] using there gone ready ne
    by (intro rename_plain) (simp_all add: q kp look)
  have lm: "look ?m j = (if prefix ?p j then look ?s (?r @ [man_id man, PAYLOAD] @ drop (length ?p) j)
      else if prefix (?r @ [man_id man, PAYLOAD]) j then None else look ?s j)" for j
    using look_move_tree [OF ne(2) ne(1)] by simp
  have wr: "write_manifest st (man\<lparr>restored := True\<rparr>) ?m = (Inr (), set_node (?r @ [man_id man, MANIFEST]) (FileNode c') ?m)"
  proof -
    have "?p \<noteq> ?r @ x" for x using ne(1) [of x] by auto
    with apart have "look ?m (?r @ [man_id man]) = Some DirNode"
        and "look ?m (?r @ [man_id man, MANIFEST]) = Some (FileNode c)"
      using names by (simp_all add: lm look ne)
    then show ?thesis
      using write_manifest_plain [of "man\<lparr>restored := True\<rparr>" st ?m c'] issued root json(2) by (simp add: q)
  qed
  show ?thesis
    using read fresh not_there parent ren wr issued
    by (simp add: restore_def bind_fs_def from_sum_def item_directory_def lift_io_def Let_def)
qed

section \<open>Properties of taking, restoring and removing\<close>

text \<open>C2: what was taken can be put back, and nothing outside the item is different afterwards. On a
  file system that answers, with a codec that reads back what it writes, every successful take of
  a file or folder outside the store empties its place, and restoring the returned identifier
  then succeeds and leaves every path outside the item's own directory, the whole restored
  subtree included, exactly as it was before the take.\<close>

theorem take_then_restore:
  assumes "fs_wf fs" and "store_root st \<noteq> []" and "look fs (key_of (store_root st)) = Some DirNode"
    and "fault fs = (\<lambda>op p. None)"
    and "component n" and "directory_text d"
    and "\<not> prefix (key_of (d @ CHR 0x5C # n)) (key_of (store_root st))"
    and "\<not> prefix (key_of (store_root st)) (key_of (d @ CHR 0x5C # n))"
    and "\<And>m. \<exists>c. manifest_to_json (store_codec st) m = Inr c \<and> manifest_from_json (store_codec st) c = Inr m"
    and "take_item st (d @ CHR 0x5C # n) b why now_claim now_stamp fs = (Inr man, fs1)"
  shows "look fs1 (key_of (d @ CHR 0x5C # n)) = None
    \<and> (\<exists>fs2. restore st (man_id man) fs1 = (Inr (man\<lparr>restored := True\<rparr>), fs2)
        \<and> (\<forall>k. \<not> prefix (key_of (store_root st) @ [man_id man]) k \<longrightarrow> look fs2 k = look fs k))"
proof -
  let ?p = "key_of (d @ CHR 0x5C # n)"
  let ?r = "key_of (store_root st)"
  obtain c where s: "is_issued_id (man_id man)" "original_path man = d @ CHR 0x5C # n" "\<not> restored man"
      "manifest_to_json (store_codec st) man = Inr c" "look fs (?r @ [man_id man]) = None"
      "look fs ?p \<noteq> None" "fs1 = staged ?p (?r @ [man_id man]) c fs"
    using take_stages [OF assms(1,2,3,4,7,8,10)] by blast
  obtain v where v: "look fs ?p = Some v" using s(6) by blast
  obtain c' where c': "manifest_to_json (store_codec st) (man\<lparr>restored := True\<rparr>) = Inr c'" using assms(9) by blast
  have c: "manifest_from_json (store_codec st) c = Inr man" using assms(9) [of man] s(4) by auto
  let ?fs2 = "set_node (?r @ [man_id man, MANIFEST]) (FileNode c') (move_tree (?r @ [man_id man, PAYLOAD]) ?p fs1)"
  note ne = apart_extend [OF assms(7,8)]
  have res: "restore st (man_id man) fs1 = (Inr (man\<lparr>restored := True\<rparr>), ?fs2)"
    unfolding s(7)
    using restore_staged [OF assms(2) s(1,3,2) assms(5,6) c c'] assms(4,7,8) v s(2,5) fs_wf_above [OF assms(1) v]
    by (simp add: s(2))
  have "look ?fs2 k = look fs k" if out: "\<not> prefix (?r @ [man_id man]) k" for k
  proof -
    have out': "\<not> prefix (?r @ [man_id man, x]) k" for x
      using out append_prefixD [of "?r @ [man_id man]" "[x]" k] by auto
    have look2: "look ?fs2 k = (if prefix ?p k then look fs1 (?r @ [man_id man, PAYLOAD] @ drop (length ?p) k) else look fs1 k)"
      using out' look_move_tree [OF ne(2) ne(1), of "[man_id man, PAYLOAD]"] by (auto simp: look_set_node)
    show ?thesis
    proof (cases "prefix ?p k")
      case True
      then obtain z where "k = ?p @ z" by (auto simp: prefix_def)
      then show ?thesis using look2 True by (simp add: s(7) look_staged [OF assms(7,8)])
    next
      case False
      then show ?thesis using look2 out out' by (auto simp: s(7) look_staged [OF assms(7,8)])
    qed
  qed
  moreover have "look fs1 ?p = None" by (simp add: s(7) look_staged [OF assms(7,8)] ne)
  ultimately show ?thesis using res by blast
qed

end
