(* ===== verification/Kam_Quarantine_Removal.thy ===== *)
theory Kam_Quarantine_Removal
  imports Kam_Quarantine_Safety
begin

text \<open>
  A codec that reads back what it writes and a small file system, on which the properties of the
  store are exercised; then restoring over an occupied place, retention, the reach of a removal,
  and the two weaknesses of the recorded moves.
\<close>

section \<open>A codec with its round trip\<close>

definition enc_str :: "str \<Rightarrow> str" where
  "enc_str s = concat (map (\<lambda>c. [CHR ''x'', c]) s) @ ''.''"

fun dec_str :: "str \<Rightarrow> (str \<times> str) option" where
  "dec_str (x # c # rest) =
     (if x = CHR ''x'' then map_option (\<lambda>(s, r). (c # s, r)) (dec_str rest)
      else if x = CHR ''.'' then Some ([], c # rest) else None)"
| "dec_str [x] = (if x = CHR ''.'' then Some ([], []) else None)"
| "dec_str [] = None"

lemma dec_enc_str [simp]: "dec_str (enc_str s @ r) = Some (s, r)"
proof (induction s)
  case Nil
  then show ?case by (cases r) (simp_all add: enc_str_def)
qed (simp add: enc_str_def)

definition enc_fields :: "str list \<Rightarrow> str" where
  "enc_fields fs = concat (map enc_str fs)"

fun dec_fields :: "nat \<Rightarrow> str \<Rightarrow> str list option" where
  "dec_fields 0 s = Some []"
| "dec_fields (Suc n) s =
     (case dec_str s of None \<Rightarrow> None | Some (f, r) \<Rightarrow> map_option (\<lambda>fs. f # fs) (dec_fields n r))"

lemma dec_enc_fields: "dec_fields (length fs) (enc_fields fs) = Some fs"
  by (induction fs) (simp_all add: enc_fields_def)

definition flag :: "bool \<Rightarrow> str" where
  "flag b = (if b then ''t'' else ''f'')"

definition manifest_fields :: "manifest \<Rightarrow> str list" where
  "manifest_fields m = [man_id m, original_path m, flag (man_kind m = KindDirectory), show_nat (unat (man_bytes m)),
     show_nat (unat (quarantined_at m)), reason m, flag (restored m)]"

definition manifest_of :: "str list \<Rightarrow> manifest" where
  "manifest_of fs = \<lparr>man_id = fs ! 0, original_path = fs ! 1,
     man_kind = (if fs ! 2 = ''t'' then KindDirectory else KindFile),
     man_bytes = word_of_nat (read_nat (fs ! 3)), quarantined_at = word_of_nat (read_nat (fs ! 4)),
     reason = fs ! 5, restored = (fs ! 6 = ''t'')\<rparr>"

definition move_fields :: "move_record \<Rightarrow> str list" where
  "move_fields m = [mv_id m, mv_from m, mv_to m, show_nat (unat (mv_bytes m)), show_nat (unat (moved_at m)), flag (undone m)]"

definition move_of :: "str list \<Rightarrow> move_record" where
  "move_of fs = \<lparr>mv_id = fs ! 0, mv_from = fs ! 1, mv_to = fs ! 2, mv_bytes = word_of_nat (read_nat (fs ! 3)),
     moved_at = word_of_nat (read_nat (fs ! 4)), undone = (fs ! 5 = ''t'')\<rparr>"

definition sample_codec :: codec where
  "sample_codec =
     \<lparr>manifest_to_json = (\<lambda>m. Inr (enc_fields (manifest_fields m))),
      manifest_from_json = (\<lambda>s. case dec_fields 7 s of None \<Rightarrow> Inl ''bad'' | Some fs \<Rightarrow> Inr (manifest_of fs)),
      move_to_json = (\<lambda>m. Inr (enc_fields (move_fields m))),
      move_from_json = (\<lambda>s. case dec_fields 6 s of None \<Rightarrow> Inl ''bad'' | Some fs \<Rightarrow> Inr (move_of fs))\<rparr>"

lemma flag_simps [simp]: "flag b = ''t'' \<longleftrightarrow> b"
  by (simp add: flag_def)

lemma manifest_roundtrip:
  "manifest_to_json sample_codec m = Inr (enc_fields (manifest_fields m))"
  "manifest_from_json sample_codec (enc_fields (manifest_fields m)) = Inr m"
proof -
  show "manifest_to_json sample_codec m = Inr (enc_fields (manifest_fields m))" by (simp add: sample_codec_def)
  have "dec_fields 7 (enc_fields (manifest_fields m)) = Some (manifest_fields m)"
  proof -
    have "length (manifest_fields m) = 7" by (simp add: manifest_fields_def)
    with dec_enc_fields [of "manifest_fields m"] show ?thesis by (simp only:)
  qed
  moreover have "manifest_of (manifest_fields m) = m"
    by (cases "man_kind m") (simp_all add: manifest_of_def manifest_fields_def)
  ultimately show "manifest_from_json sample_codec (enc_fields (manifest_fields m)) = Inr m"
    by (simp add: sample_codec_def)
qed

lemma move_roundtrip:
  "move_to_json sample_codec m = Inr (enc_fields (move_fields m))"
  "move_from_json sample_codec (enc_fields (move_fields m)) = Inr m"
proof -
  show "move_to_json sample_codec m = Inr (enc_fields (move_fields m))" by (simp add: sample_codec_def)
  have "dec_fields 6 (enc_fields (move_fields m)) = Some (move_fields m)"
  proof -
    have "length (move_fields m) = 6" by (simp add: move_fields_def)
    with dec_enc_fields [of "move_fields m"] show ?thesis by (simp only:)
  qed
  moreover have "move_of (move_fields m) = m"
    by (simp add: move_of_def move_fields_def)
  ultimately show "move_from_json sample_codec (enc_fields (move_fields m)) = Inr m"
    by (simp add: sample_codec_def)
qed

definition q_store :: store where
  "q_store = \<lparr>store_root = ''c:/q'', store_codec = sample_codec, store_lower = ascii_lower\<rparr>"

definition q_files :: file_system where
  "q_files = \<lparr>nodes = [([''c:''], DirNode), ([''c:'', ''q''], DirNode), ([''c:'', ''a''], FileNode ''hello''),
       ([''c:'', ''b''], FileNode ''bye'')],
     fault = (\<lambda>op p. None), canonical = Inr\<rparr>"

lemma key_samples:
  "key_of ''c:/q'' = [''c:'', ''q'']" "key_of [CHR ''c'', CHR '':'', CHR 0x5C, CHR ''a''] = [''c:'', ''a'']"
  "key_of ''c:/a'' = [''c:'', ''a'']" "key_of ''c:/b'' = [''c:'', ''b'']"
  "key_of ''c:/x'' = [''c:'', ''x'']" "key_of ''c:/y'' = [''c:'', ''y'']"
  by (simp_all add: key_of_def is_path_separator_def ascii_lower_def ascii_lower_char_def)

lemma q_files_wf: "fs_wf q_files"
  by (simp add: fs_wf_def q_files_def look_def)

lemma upt_first: "[0..<10000] = 0 # [1..<(10000::nat)]"
  by (subst upt_conv_Cons) simp_all

lemma format_17: "format_id 17 0 = ''17-0000''"
  by (simp add: format_id_def show_nat.simps pad0_def)

lemma q_take:
  "fst (take_item q_store (''c:'' @ CHR 0x5C # ''a'') 5 ''why'' 17 18 q_files) =
     Inr \<lparr>man_id = ''17-0000'', original_path = ''c:'' @ CHR 0x5C # ''a'', man_kind = KindFile, man_bytes = 5,
       quarantined_at = 18, reason = ''why'', restored = False\<rparr>"
proof -
  have issued: "is_issued_id ''17-0000''" using format_id_issued [of 0 17] by (simp add: format_17)
  have st: "store_root q_store = ''c:/q''" "store_codec q_store = sample_codec" by (simp_all add: q_store_def)
  have look_q: "look q_files [''c:'', ''q''] = Some DirNode" "look q_files [''c:''] = Some DirNode"
      "look q_files [''c:'', ''a''] = Some (FileNode ''hello'')" "fault q_files = (\<lambda>op p. None)"
    by (simp_all add: q_files_def look_def)
  let ?d = "path_join ''c:/q'' ''17-0000''"
  have keys: "key_of ?d = [''c:'', ''q'', ''17-0000'']"
      "key_of (path_join ?d MANIFEST) = [''c:'', ''q'', ''17-0000'', MANIFEST]"
      "key_of (path_join ?d PAYLOAD) = [''c:'', ''q'', ''17-0000'', PAYLOAD]"
    using item_key [OF issued, of q_store] inside_item_key [OF issued, of q_store]
    by (simp_all add: st key_samples)
  have "look q_files [''c:'', ''q'', ''17-0000''] = None" by (simp add: q_files_def look_def)
  then have claim: "claim_id q_store 17 q_files = (Inr (''17-0000'', ?d), set_node [''c:'', ''q'', ''17-0000''] DirNode q_files)"
    using store_there [OF q_files_wf, of q_store] path_is_dir_plain [OF look_q(1)] look_q
    by (simp add: claim_id_def bind_fs_def lift_io_def st key_samples upt_first format_17 create_dir_def
        keys parent_ready_def Let_def)
  have ov: "\<not> overlaps q_store q_files (''c:'' @ CHR 0x5C # ''a'')"
    by (simp add: overlaps_def q_store_def q_files_def or_as_written_def comparable_def ascii_lower_def
        ascii_lower_char_def strip_prefix_def UNC_PREFIX_def VERBATIM_PREFIX_def path_starts_with_def
        path_components_def has_root_def is_path_separator_def)
  have vol: "volume_of (''c:'' @ CHR 0x5C # ''a'') = volume_of ''c:/q''" by (simp add: volume_of_def)
  let ?fs0 = "set_node [''c:'', ''q'', ''17-0000''] DirNode q_files"
  have dir: "path_is_dir (set_node k v ?fs0) [''c:'', ''q'', ''17-0000'']" if "k \<noteq> [''c:'', ''q'', ''17-0000'']" for k v
    using that by (intro path_is_dir_plain) (simp add: look_set_node)
  have dir0: "path_is_dir ?fs0 [''c:'', ''q'', ''17-0000'']" by (intro path_is_dir_plain) (simp add: look_set_node)
  have none: "look q_files [''c:'', ''q'', ''17-0000'', x] = None" for x by (simp add: q_files_def look_def)
  have names: "MANIFEST \<noteq> PAYLOAD" by (simp add: MANIFEST_def PAYLOAD_def)
  show ?thesis
    using ov vol look_q dir dir0 issued none names
    by (simp add: take_item_def symlink_metadata_def key_samples st claim bind_fs_def Let_def write_manifest_def
        from_sum_def item_directory_def manifest_roundtrip lift_io_def fs_write_def keys parent_ready_def
        look_set_node stage_def fs_rename_def)
qed

theorem take_then_restore_witness:
  "\<exists>man fs1 fs2. take_item q_store (''c:'' @ CHR 0x5C # ''a'') 5 ''why'' 17 18 q_files = (Inr man, fs1)
     \<and> look fs1 [''c:'', ''a''] = None
     \<and> restore q_store ''17-0000'' fs1 = (Inr (man\<lparr>restored := True\<rparr>), fs2)
     \<and> look fs2 [''c:'', ''a''] = Some (FileNode ''hello'')"
proof -
  obtain man fs1 where t: "take_item q_store (''c:'' @ CHR 0x5C # ''a'') 5 ''why'' 17 18 q_files = (Inr man, fs1)"
      "man_id man = ''17-0000''"
    using q_take by (cases "take_item q_store (''c:'' @ CHR 0x5C # ''a'') 5 ''why'' 17 18 q_files") simp
  have st: "store_root q_store = ''c:/q''" "store_codec q_store = sample_codec" by (simp_all add: q_store_def)
  have "look fs1 (key_of (''c:'' @ CHR 0x5C # ''a'')) = None
    \<and> (\<exists>fs2. restore q_store (man_id man) fs1 = (Inr (man\<lparr>restored := True\<rparr>), fs2)
        \<and> (\<forall>k. \<not> prefix (key_of (store_root q_store) @ [man_id man]) k \<longrightarrow> look fs2 k = look q_files k))"
  proof (rule take_then_restore [OF q_files_wf _ _ _ _ _ _ _ _ t(1)])
    show "\<exists>c. manifest_to_json (store_codec q_store) m = Inr c \<and> manifest_from_json (store_codec q_store) c = Inr m" for m
      using manifest_roundtrip [of m] by (simp add: st)
  qed (simp_all add: st key_samples q_files_def look_def component_def directory_text_def is_path_separator_def)
  then obtain fs2 where "look fs1 [''c:'', ''a''] = None"
      "restore q_store ''17-0000'' fs1 = (Inr (man\<lparr>restored := True\<rparr>), fs2)"
      and same: "\<forall>k. \<not> prefix [''c:'', ''q'', ''17-0000''] k \<longrightarrow> look fs2 k = look q_files k"
    by (auto simp: t(2) st key_samples)
  moreover have "look fs2 [''c:'', ''a''] = Some (FileNode ''hello'')"
    using same by (simp add: q_files_def look_def)
  ultimately show ?thesis using t(1) by blast
qed

section \<open>Restoring over something\<close>

lemma look_move_tree_other: "\<not> prefix src k \<Longrightarrow> \<not> prefix dst k \<Longrightarrow> look (move_tree src dst fs) k = look fs k"
proof -
  assume a: "\<not> prefix src k" "\<not> prefix dst k"
  have "map_of (map (\<lambda>(j, v). (if prefix src j then dst @ drop (length src) j else j, v))
      (filter (\<lambda>(j, v). \<not> prefix dst j) xs)) k = map_of xs k" for xs :: "(str list \<times> fnode) list"
    using a by (induction xs) auto
  then show ?thesis by (simp add: look_def move_tree_def)
qed

lemma fs_rename_cases:
  assumes "fs_rename a b fs = (r, fs')"
  shows "fs' = fs \<or> fs' = move_tree (key_of a) (key_of b) fs"
  using assms by (auto simp: fs_rename_def split: option.splits if_splits)

lemma write_manifest_other:
  assumes "write_manifest st man fs = (r, fs')" and "store_root st \<noteq> []" and "\<not> prefix (key_of (store_root st)) k"
  shows "look fs' k = look fs k"
proof -
  have "k \<noteq> key_of (store_root st) @ [man_id man, MANIFEST]" using assms(3) by auto
  with assms(1,2) show ?thesis
    by (auto simp: write_manifest_def bind_fs_def from_sum_def item_directory_def lift_io_def refuse_def fs_write_def
        inside_item_key look_set_node split: sum.splits if_splits option.splits prod.splits)
qed

lemma create_parent_keeps:
  "create_parent p fs = (r, fs') \<Longrightarrow> look fs k = Some v \<Longrightarrow> look fs' k = Some v"
  using create_dir_all_keeps
  by (fastforce simp: create_parent_def from_sum_def lift_io_def split: option.splits sum.splits prod.splits)

text \<open>Restoring overwrites nothing. If anything stands at the original path the item is refused and
  the file system is untouched; and however far a restore gets, everything outside the store and
  outside the empty place it restores into is still there.\<close>

theorem restore_never_overwrites:
  assumes "store_root st \<noteq> []" and "read_manifest st fs item = Inr man"
    and "fault fs OpExists (original_path man) = None"
    and "\<And>t. look fs (key_of (original_path man)) \<noteq> Some (LinkNode t)"
    and "restore st item fs = (r, fs')"
  shows "(look fs (key_of (original_path man)) \<noteq> None \<longrightarrow> fs' = fs \<and> (\<exists>why. r = Inl (Refused why)))
    \<and> (\<forall>k v. look fs k = Some v \<and> \<not> prefix (key_of (store_root st)) k
         \<and> \<not> prefix (key_of (original_path man)) k \<longrightarrow> look fs' k = Some v)"
proof -
  have occupied: "path_exists fs (original_path man)" if "look fs (key_of (original_path man)) = Some v" for v
    using that assms(3,4) follow_plain [OF that, of 63]
    by (simp add: path_exists_def resolve_node_def numeral_eq_Suc)
  have issued: "is_issued_id item"
    using assms(2) by (auto simp: read_manifest_def item_directory_def split: if_splits)
  have "look fs' k = Some v" if k: "look fs k = Some v" "\<not> prefix (key_of (store_root st)) k"
      "\<not> prefix (key_of (original_path man)) k" for k v
  proof -
    obtain q fs1 where c: "create_parent (original_path man) fs = (q, fs1)" by (cases "create_parent (original_path man) fs")
    have k1: "look fs1 k = Some v" using create_parent_keeps [OF c k(1)] .
    let ?from = "path_join (path_join (store_root st) item) PAYLOAD"
    obtain q2 fs2 where m: "fs_rename ?from (original_path man) fs1 = (q2, fs2)"
      by (cases "fs_rename ?from (original_path man) fs1")
    have "\<not> prefix (key_of ?from) k"
      using k(2) by (auto simp: inside_item_key issued assms(1) dest: append_prefixD)
    then have k2: "look fs2 k = Some v"
      using fs_rename_cases [OF m] k(3) k1 by (auto simp: look_move_tree_other)
    have k3: "write_manifest st man' fs2 = (q3, fs3) \<Longrightarrow> look fs3 k = Some v" for man' q3 fs3
      using write_manifest_other [OF _ assms(1) k(2)] k2 by metis
    show ?thesis
      using assms(2,5) c m k k1 k2 k3 issued
      by (auto simp: restore_def refuse_def bind_fs_def from_sum_def item_directory_def lift_io_def Let_def
          split: if_splits sum.splits prod.splits)
  qed
  moreover have "fs' = fs \<and> (\<exists>why. r = Inl (Refused why))" if "look fs (key_of (original_path man)) \<noteq> None"
  proof -
    obtain v where "look fs (key_of (original_path man)) = Some v" using \<open>look fs (key_of (original_path man)) \<noteq> None\<close> by auto
    with assms(2,5) occupied show ?thesis by (auto simp: restore_def refuse_def split: if_splits)
  qed
  ultimately show ?thesis by blast
qed

definition q_manifest :: manifest where
  "q_manifest = \<lparr>man_id = ''17-0000'', original_path = ''c:/a'', man_kind = KindFile, man_bytes = 5,
     quarantined_at = 18, reason = ''why'', restored = False\<rparr>"

definition q_held :: file_system where
  "q_held = set_node [''c:'', ''q'', ''17-0000'', MANIFEST] (FileNode (enc_fields (manifest_fields q_manifest)))
     (set_node [''c:'', ''q'', ''17-0000'', PAYLOAD] (FileNode ''old'')
       (set_node [''c:'', ''q'', ''17-0000''] DirNode q_files))"

lemma id_17: "is_issued_id ''17-0000''"
  using format_id_issued [of 0 17] by (simp add: format_17)

lemma q_held_manifest: "read_manifest q_store q_held ''17-0000'' = Inr q_manifest"
  by (rule read_manifest_plain [OF id_17, where c = "enc_fields (manifest_fields q_manifest)"])
    (simp_all add: q_store_def key_samples q_held_def look_set_node manifest_roundtrip q_files_def)

lemma q_held_a: "look q_held [''c:'', ''a''] = Some (FileNode ''hello'')"
  by (simp add: q_held_def look_set_node) (simp add: q_files_def look_def)

theorem restore_never_overwrites_witness:
  "snd (restore q_store ''17-0000'' q_held) = q_held \<and> look q_held [''c:'', ''a''] = Some (FileNode ''hello'')"
proof -
  obtain r fs' where r: "restore q_store ''17-0000'' q_held = (r, fs')" by (cases "restore q_store ''17-0000'' q_held")
  have p: "key_of (original_path q_manifest) = [''c:'', ''a'']" by (simp add: q_manifest_def key_samples)
  have "fs' = q_held"
    using restore_never_overwrites [OF _ q_held_manifest _ _ r] q_held_a
    by (simp add: p) (simp add: q_store_def q_held_def q_files_def)
  with r q_held_a show ?thesis by simp
qed

section \<open>Removal\<close>

text \<open>The automatic path waits. An item that has not been restored is refused by \<open>purge\<close>, with the
  file system untouched, until thirty days after it was quarantined.\<close>

theorem purge_waits:
  assumes "read_manifest st fs item = Inr man" and "\<not> restored man"
    and "unat (quarantined_at man) + 30 * 86400 < 2 ^ 64"
    and "unat now < unat (quarantined_at man) + 30 * 86400"
  shows "\<exists>why. purge st item now fs = (Inl (Refused why), fs)"
proof -
  have "unat (quarantined_at man + RETENTION_DAYS * 86400) = unat (quarantined_at man) + 30 * 86400"
    using assms(3) by (simp add: RETENTION_DAYS_def unat_plus_no_overflow)
  then have "unat (retention_remaining man now) = unat (quarantined_at man) + 30 * 86400 - unat now"
    by (simp add: retention_remaining_def unat_saturating_sub)
  with assms(4) have "0 < retention_remaining man now"
    by (simp add: word_less_nat_alt)
  with assms(1,2) show ?thesis by (simp add: purge_def refuse_def)
qed

theorem purge_waits_witness: "\<exists>why. purge q_store ''17-0000'' 1000 q_held = (Inl (Refused why), q_held)"
  by (rule purge_waits [OF q_held_manifest]) (simp_all add: q_manifest_def)

lemma remove_item_confined:
  assumes "store_root st \<noteq> []" and "\<not> prefix (key_of (store_root st) @ [item]) k"
  shows "look (snd (remove_item st item b fs)) k = look fs k"
  using assms item_key [of item st]
  by (auto simp: remove_item_def bind_fs_def from_sum_def item_directory_def Let_def lift_io_def remove_dir_all_def
      look_remove_tree split: option.splits fnode.splits)

lemma remove_item_frees:
  assumes "store_root st \<noteq> []" and "fst (remove_item st item b fs) = Inr n" and "prefix (key_of (store_root st) @ [item]) k"
  shows "look (snd (remove_item st item b fs)) k = None"
  using assms item_key [of item st]
  by (auto simp: remove_item_def bind_fs_def from_sum_def item_directory_def Let_def lift_io_def remove_dir_all_def
      look_remove_tree split: option.splits fnode.splits if_splits)

text \<open>Deletion stays inside the item. Whatever identifier is given and whatever fails, purging or
  deleting changes nothing outside that item's own directory in the store; and a deletion that
  reports success has removed all of it.\<close>

theorem removal_confined:
  assumes "store_root st \<noteq> []"
  shows "(\<forall>k. \<not> prefix (key_of (store_root st) @ [item]) k \<longrightarrow>
       look (snd (purge st item now fs)) k = look fs k \<and> look (snd (delete_now st item fs)) k = look fs k)
    \<and> (\<forall>n k. fst (delete_now st item fs) = Inr n \<and> prefix (key_of (store_root st) @ [item]) k \<longrightarrow>
       look (snd (delete_now st item fs)) k = None)"
  using remove_item_confined [OF assms] remove_item_frees [OF assms]
  by (auto simp: purge_def delete_now_def refuse_def Let_def split: sum.splits)

theorem removal_confined_witness:
  "look (snd (delete_now q_store ''17-0000'' q_held)) [''c:'', ''a''] = Some (FileNode ''hello'')"
proof -
  have root: "store_root q_store \<noteq> []" "\<not> prefix (key_of (store_root q_store) @ [''17-0000'']) [''c:'', ''a'']"
    by (simp_all add: q_store_def key_samples)
  from removal_confined [OF root(1), of "''17-0000''" 0 q_held] root(2) show ?thesis by (simp add: q_held_a)
qed

section \<open>Recorded moves\<close>

text \<open>The identifier of a recorded move is not checked. An identifier that starts with a drive
  replaces the directory it is joined to, so \<open>undo_move\<close> reads the record from any file on the
  machine that ends in \<open>.json\<close>, and then renames the two paths that file names.\<close>

theorem move_record_path_unchecked:
  assumes "has_drive item"
  shows "move_path st item = item @ ''.json''
    \<and> read_move st fs item =
        (case read_to_string fs (item @ ''.json'') of
           Inl e \<Rightarrow> Inl (Refused (''no recorded move '' @ item @ '': '' @ io_error_text e))
         | Inr contents \<Rightarrow>
             (case move_from_json (store_codec st) contents of
                Inl e \<Rightarrow> Inl (Refused (item @ '' has an unreadable record: '' @ e))
              | Inr mv \<Rightarrow> Inr mv))"
proof -
  have "has_drive (item @ ''.json'')"
    using assms by (auto simp: has_drive_def split: list.splits)
  then have "move_path st item = item @ ''.json''" by (simp add: move_path_def path_join_def)
  then show ?thesis by (simp add: read_move_def)
qed

theorem move_record_path_unchecked_witness: "move_path q_store ''c:/users/x'' = ''c:/users/x.json''"
  using move_record_path_unchecked [of "''c:/users/x''" q_store]
  by (simp add: has_drive_def is_ascii_alphabetic_def)

lemma allocate_first:
  assumes "store_root st \<noteq> []" and "look fs (key_of (store_root st) @ [format_id s 0]) = None"
  shows "allocate_id st s fs = format_id s 0"
proof -
  have "\<not> path_exists fs (path_join (store_root st) (format_id s 0))"
    using assms item_key [OF format_id_issued [of 0 s] assms(1)]
    by (simp add: path_exists_def resolve_node_def follow_none)
  then show ?thesis by (simp add: allocate_id_def upt_first)
qed

text \<open>Recorded moves of the same second share their identifier. As long as no quarantined item holds
  the first identifier of a second, every move in that second is given it, because the records are
  kept under \<open>moves\<close> and \<open>allocate_id\<close> looks for the name in the store's own directory: what
  is written under \<open>moves\<close>, the earlier record included, never makes it choose another. The
  later record therefore replaces the earlier one, whose move can no longer be undone.\<close>

theorem moves_share_identifier:
  assumes "store_root st \<noteq> []" and "look fs (key_of (store_root st) @ [format_id s 0]) = None"
  shows "allocate_id st s fs = format_id s 0
    \<and> allocate_id st s (set_node (key_of (moves_directory st) @ x # xs) v fs) = format_id s 0"
proof -
  have k: "key_of (moves_directory st) = key_of (store_root st) @ [''moves'']"
    using key_of_join [OF _ assms(1), of "''moves''"] by (simp add: moves_directory_def)
  have "look (set_node (key_of (moves_directory st) @ x # xs) v fs) (key_of (store_root st) @ [format_id s 0]) = None"
    using assms(2) by (simp add: look_set_node k)
  then show ?thesis using allocate_first assms by simp
qed

theorem moves_share_identifier_witness:
  "allocate_id q_store 17 q_files = ''17-0000''
   \<and> allocate_id q_store 17 (set_node (key_of (moves_directory q_store) @ [''17-0000.json'']) (FileNode ''r'') q_files) = ''17-0000''"
proof -
  have "store_root q_store \<noteq> []" "look q_files (key_of (store_root q_store) @ [format_id 17 0]) = None"
    by (simp_all add: q_store_def key_samples format_17 q_files_def look_def)
  from moves_share_identifier [OF this, of "''17-0000.json''" "[]" "FileNode ''r''"] show ?thesis
    by (simp add: format_17)
qed

end
