(* ===== verification/Kam_Firewall.thy ===== *)
theory Kam_Firewall
  imports Kam_Files "HOL-Library.Product_Lexorder" "HOL-Library.List_Lexorder" "HOL-Library.Char_ord"
begin

text \<open>
  Reading and changing the Windows firewall, \<open>crates/kam-firewall/src/policy.rs\<close>. The COM
  interface is a record: what each property read gives, how the rule collection is enumerated,
  what adding and removing does. Lower-casing and the lookup of indirect strings are arguments.
\<close>

section \<open>Data\<close>

definition OUR_GROUP :: str where "OUR_GROUP = ''KAM Security''"
definition RULE_PREFIX :: str where "RULE_PREFIX = ''KAM Security: block ''"

datatype profile = Domain | Private | Public

text \<open>The profile bits of the interface, and the mask that stands for every profile.\<close>

fun profile_bits :: "profile \<Rightarrow> u32" where
  "profile_bits Domain = 1"
| "profile_bits Private = 2"
| "profile_bits Public = 4"

fun profile_label :: "profile \<Rightarrow> str" where
  "profile_label Domain = ''Domain''"
| "profile_label Private = ''Private''"
| "profile_label Public = ''Public''"

definition profile_all :: "profile list" where
  "profile_all = [Domain, Private, Public]"

definition ALL_PROFILES :: u32 where "ALL_PROFILES = 0x7FFFFFFF"

datatype fw_default = AllowAction | BlockAction | UnknownAction

datatype net_action = NetAllow | NetBlock | NetActionOther int

fun default_from :: "net_action \<Rightarrow> fw_default" where
  "default_from NetAllow = AllowAction"
| "default_from NetBlock = BlockAction"
| "default_from (NetActionOther _) = UnknownAction"

record profile_state =
  ps_profile :: profile
  ps_enabled :: "bool option"
  ps_active :: "bool option"
  inbound_default :: fw_default
  outbound_default :: fw_default

definition profile_concerns :: "profile_state \<Rightarrow> str list" where
  "profile_concerns p =
     (let nm = profile_label (ps_profile p)
      in (if ps_enabled p = Some False
          then [if ps_active p = Some True
                then ''The firewall is off for the '' @ nm @ '' profile, which is the one in force on this network right now.''
                else ''The firewall is off for the '' @ nm @ '' profile.'']
          else [])
       @ (if ps_enabled p = Some True \<and> inbound_default p = AllowAction
          then [''The '' @ nm @ '' profile allows unsolicited incoming connections by default, which is the opposite of how Windows ships.'']
          else []))"

datatype fw_direction = DirectionIn | DirectionOut | DirectionUnknown

datatype net_direction = NetIn | NetOut | NetDirectionOther int

fun direction_from :: "net_direction \<Rightarrow> fw_direction" where
  "direction_from NetIn = DirectionIn"
| "direction_from NetOut = DirectionOut"
| "direction_from (NetDirectionOther _) = DirectionUnknown"

fun direction_label :: "fw_direction \<Rightarrow> str" where
  "direction_label DirectionIn = ''incoming''"
| "direction_label DirectionOut = ''outgoing''"
| "direction_label DirectionUnknown = ''unspecified''"

record fw_rule =
  rule_name :: str
  rule_description :: "str option"
  application :: "str option"
  service :: "str option"
  direction :: fw_direction
  action :: fw_default
  rule_enabled :: bool
  grouping :: "str option"
  rule_profiles :: "profile list"
  protocol :: "int option"
  local_ports :: "str option"
  remote_ports :: "str option"
  remote_addresses :: "str option"
  ours :: bool

definition protocol_label :: "fw_rule \<Rightarrow> str" where
  "protocol_label r =
     (case protocol r of
        None \<Rightarrow> ''any protocol''
      | Some p \<Rightarrow> if p = 6 then ''TCP'' else if p = 17 then ''UDP'' else if p = 1 then ''ICMP''
          else if p = 58 then ''ICMPv6'' else if p = 256 then ''any protocol'' else ''other'')"

record firewall_report =
  report_profiles :: "profile_state list"
  report_rules :: "fw_rule list"
  concerns :: "str list"
  total_rules :: nat
  enabled_rules :: nat
  blocking_rules :: nat
  our_rules :: nat
  unread :: "str list"

section \<open>The COM interface\<close>

text \<open>A rule object: every property read gives a value or an error.\<close>

record com_rule =
  cr_name :: "str + str"
  cr_description :: "str + str"
  cr_application :: "str + str"
  cr_service :: "str + str"
  cr_direction :: "str + net_direction"
  cr_action :: "str + net_action"
  cr_enabled :: "str + bool"
  cr_grouping :: "str + str"
  cr_profiles :: "str + u32"
  cr_protocol :: "str + int"
  cr_local_ports :: "str + str"
  cr_remote_ports :: "str + str"
  cr_remote_addresses :: "str + str"

datatype setter =
    SetName | SetDescription | SetApplicationName | SetDirection | SetAction | SetEnabled | SetProfiles
  | SetGrouping

text \<open>
  The policy. \<open>fw_items\<close> is the rule collection (an entry that is no rule object is
  \<open>None\<close>); \<open>fw_batches\<close> is how the enumerator hands it out, each batch with the error it
  ended with, if any.
\<close>

record firewall =
  fw_items :: "com_rule option list"
  fw_com_error :: "str option"
  fw_open_error :: "str option"
  fw_rules_error :: "str option"
  fw_enum_error :: "str option"
  fw_batches :: "com_rule option list \<Rightarrow> (com_rule option list \<times> str option) list"
  fw_new :: "str + com_rule"
  fw_setter_ok :: "setter \<Rightarrow> bool"
  fw_add_error :: "str option"
  fw_remove :: "str \<Rightarrow> com_rule option list \<Rightarrow> str + com_rule option list"
  fw_current_types :: "str + u32"
  fw_enabled :: "profile \<Rightarrow> str + bool"
  fw_inbound :: "profile \<Rightarrow> str + net_action"
  fw_outbound :: "profile \<Rightarrow> str + net_action"

definition ok_of :: "'e + 'a \<Rightarrow> 'a option" where
  "ok_of r = (case r of Inl e \<Rightarrow> None | Inr a \<Rightarrow> Some a)"

section \<open>Reading\<close>

definition text_of :: "str \<Rightarrow> str option" where
  "text_of s = (if trim s = [] then None else Some s)"

definition profiles_from_mask :: "u32 \<Rightarrow> profile list" where
  "profiles_from_mask msk = filter (\<lambda>p. and msk (profile_bits p) \<noteq> 0 \<or> msk = ALL_PROFILES) profile_all"

definition com_enter :: "firewall \<Rightarrow> kam_error + unit" where
  "com_enter fw = (case fw_com_error fw of None \<Rightarrow> Inr () | Some e \<Rightarrow> Inl (Refused (''COM could not be started: '' @ e)))"

definition open_policy :: "firewall \<Rightarrow> kam_error + unit" where
  "open_policy fw =
     (case fw_open_error fw of
        None \<Rightarrow> Inr ()
      | Some e \<Rightarrow> Inl (Refused (''the Windows Firewall service did not answer: '' @ e
          @ ''. It may be stopped, or another security product may have taken it over.'')))"

definition read_profile :: "firewall \<Rightarrow> u32 option \<Rightarrow> profile \<Rightarrow> profile_state \<times> str list" where
  "read_profile fw active_mask p =
     (let nm = profile_label p;
          (enabled_here, u1) = (case fw_enabled fw p of
             Inr b \<Rightarrow> (Some b, [])
           | Inl e \<Rightarrow> (None, [''Whether the firewall is on for the '' @ nm @ '' profile could not be read: '' @ e]));
          (inb, u2) = (case fw_inbound fw p of
             Inr a \<Rightarrow> (default_from a, [])
           | Inl e \<Rightarrow> (UnknownAction, [''What the '' @ nm @ '' profile does with incoming connections by default could not be read: '' @ e]));
          (outb, u3) = (case fw_outbound fw p of
             Inr a \<Rightarrow> (default_from a, [])
           | Inl e \<Rightarrow> (UnknownAction, [''What the '' @ nm @ '' profile does with outgoing connections by default could not be read: '' @ e]))
      in (\<lparr>ps_profile = p, ps_enabled = enabled_here,
           ps_active = map_option (\<lambda>msk. and msk (profile_bits p) \<noteq> 0) active_mask,
           inbound_default = inb, outbound_default = outb\<rparr>, u1 @ u2 @ u3))"

definition read_profiles :: "firewall \<Rightarrow> profile_state list \<times> str list" where
  "read_profiles fw =
     (let (active_mask, u) = (case fw_current_types fw of
            Inr msk \<Rightarrow> (Some msk, [])
          | Inl e \<Rightarrow> (None, [''Which profile is in force on this network could not be read: '' @ e]));
          states = map (read_profile fw active_mask) profile_all
      in (map fst states, u @ concat (map snd states)))"

text \<open>\<open>kam_core::mui::resolve\<close>, with the system's lookup of an indirect string as an argument.\<close>

definition mui_resolve :: "(str \<Rightarrow> str option) \<Rightarrow> str \<Rightarrow> str \<Rightarrow> str" where
  "mui_resolve indirect nm fallback =
     (case nm of
        c # rest \<Rightarrow>
          if c \<noteq> CHR ''@'' then nm
          else (case indirect nm of
                  Some found \<Rightarrow>
                    (let trimmed = trim found
                     in if trimmed \<noteq> [] then trimmed else fallback)
                | None \<Rightarrow> fallback)
      | [] \<Rightarrow> nm)"

definition read_rule :: "(str \<Rightarrow> str option) \<Rightarrow> com_rule \<Rightarrow> fw_rule option" where
  "read_rule indirect r =
     (case cr_name r of
        Inl e \<Rightarrow> None
      | Inr raw \<Rightarrow>
        (let group_text = Option.bind (ok_of (cr_grouping r)) text_of
         in Some \<lparr>rule_name = mui_resolve indirect raw raw,
              rule_description = Option.bind (ok_of (cr_description r)) text_of,
              application = Option.bind (ok_of (cr_application r)) text_of,
              service = Option.bind (ok_of (cr_service r)) text_of,
              direction = unwrap_or DirectionUnknown (map_option direction_from (ok_of (cr_direction r))),
              action = unwrap_or UnknownAction (map_option default_from (ok_of (cr_action r))),
              rule_enabled = unwrap_or False (ok_of (cr_enabled r)),
              grouping = group_text,
              rule_profiles = profiles_from_mask (unwrap_or 0 (ok_of (cr_profiles r))),
              protocol = ok_of (cr_protocol r),
              local_ports = Option.bind (ok_of (cr_local_ports r)) text_of,
              remote_ports = Option.bind (ok_of (cr_remote_ports r)) text_of,
              remote_addresses = Option.bind (ok_of (cr_remote_addresses r)) text_of,
              ours = (group_text = Some OUR_GROUP)\<rparr>))"

text \<open>The enumeration loop: what it visited, and what stopped it before the end.\<close>

fun walk_batches :: "(com_rule option list \<times> str option) list \<Rightarrow> com_rule option list \<times> str option" where
  "walk_batches [] = ([], None)"
| "walk_batches ((batch, outcome) # rest) =
     (case outcome of
        Some e \<Rightarrow> (batch, Some e)
      | None \<Rightarrow> if batch = [] then ([], None)
                else (case walk_batches rest of (seen, stopped) \<Rightarrow> (batch @ seen, stopped)))"

definition walk_rules :: "firewall \<Rightarrow> kam_error + (com_rule option list \<times> str option)" where
  "walk_rules fw =
     (case fw_enum_error fw of
        Some e \<Rightarrow> Inl (Refused (''the rule list could not be enumerated: '' @ e))
      | None \<Rightarrow> Inr (walk_batches (fw_batches fw (fw_items fw))))"

definition read_rules :: "(str \<Rightarrow> str option) \<Rightarrow> firewall \<Rightarrow> kam_error + (fw_rule list \<times> str list)" where
  "read_rules indirect fw =
     (case walk_rules fw of
        Inl e \<Rightarrow> Inl e
      | Inr (seen, stopped) \<Rightarrow>
        (let reads = map (\<lambda>item. Option.bind item (read_rule indirect)) seen;
             unreadable = length (filter (\<lambda>r. r = None) reads)
         in Inr (List.map_filter (\<lambda>r. r) reads,
             (if 0 < unreadable
              then [if unreadable = 1 then ''1 rule could not be read, so it is not listed or counted''
                    else show_nat unreadable @ '' rules could not be read, so they are not listed or counted'']
              else [])
             @ (case stopped of
                  None \<Rightarrow> []
                | Some why \<Rightarrow> [''The list of rules could not be read to the end ('' @ why
                    @ ''), so there may be rules that are not listed or counted'']))))"

text \<open>Ours first, then blocking rules, then by name.\<close>

definition rule_order :: "(str \<Rightarrow> str) \<Rightarrow> fw_rule \<Rightarrow> bool \<times> bool \<times> str" where
  "rule_order lower r = (\<not> ours r, action r \<noteq> BlockAction, lower (rule_name r))"

definition survey :: "(str \<Rightarrow> str) \<Rightarrow> (str \<Rightarrow> str option) \<Rightarrow> firewall \<Rightarrow> kam_error + firewall_report" where
  "survey lower indirect fw =
     (case com_enter fw of Inl e \<Rightarrow> Inl e | Inr u \<Rightarrow>
      (case open_policy fw of Inl e \<Rightarrow> Inl e | Inr u \<Rightarrow>
       (let (profs, unread1) = read_profiles fw
        in case fw_rules_error fw of
             Some e \<Rightarrow> Inl (Refused (''the firewall's rules could not be opened: '' @ e))
           | None \<Rightarrow>
             (case read_rules indirect fw of Inl e \<Rightarrow> Inl e | Inr (found, unread2) \<Rightarrow>
              (let rs = sort_key (rule_order lower) found
               in Inr \<lparr>report_profiles = profs, report_rules = rs,
                    concerns = concat (map profile_concerns profs),
                    total_rules = length rs,
                    enabled_rules = length (filter rule_enabled rs),
                    blocking_rules = length (filter (\<lambda>r. rule_enabled r \<and> action r = BlockAction) rs),
                    our_rules = length (filter ours rs),
                    unread = unread1 @ unread2\<rparr>)))))"

section \<open>Changing\<close>

definition block_rule_name :: "str \<Rightarrow> str" where
  "block_rule_name program = RULE_PREFIX @ last (split_on is_path_separator program)"

text \<open>A setter that fails is ignored.\<close>

definition set_if :: "firewall \<Rightarrow> setter \<Rightarrow> (com_rule \<Rightarrow> com_rule) \<Rightarrow> com_rule \<Rightarrow> com_rule" where
  "set_if fw s f r = (if fw_setter_ok fw s then f r else r)"

definition filled_rule :: "firewall \<Rightarrow> str \<Rightarrow> com_rule \<Rightarrow> com_rule" where
  "filled_rule fw path r =
     set_if fw SetGrouping (\<lambda>r. r\<lparr>cr_grouping := Inr OUR_GROUP\<rparr>)
     (set_if fw SetProfiles (\<lambda>r. r\<lparr>cr_profiles := Inr ALL_PROFILES\<rparr>)
     (set_if fw SetEnabled (\<lambda>r. r\<lparr>cr_enabled := Inr True\<rparr>)
     (set_if fw SetAction (\<lambda>r. r\<lparr>cr_action := Inr NetBlock\<rparr>)
     (set_if fw SetDirection (\<lambda>r. r\<lparr>cr_direction := Inr NetOut\<rparr>)
     (set_if fw SetApplicationName (\<lambda>r. r\<lparr>cr_application := Inr path\<rparr>)
     (set_if fw SetDescription (\<lambda>r. r\<lparr>cr_description := Inr (''Added by KAM Security to stop '' @ path @ '' reaching the network.'')\<rparr>)
     (set_if fw SetName (\<lambda>r. r\<lparr>cr_name := Inr (block_rule_name path)\<rparr>) r)))))))"

definition block_program :: "file_system \<Rightarrow> str \<Rightarrow> firewall \<Rightarrow> (kam_error + str) \<times> firewall" where
  "block_program fs path fw =
     (if trim path = [] then (Inl (Refused ''no program was given to block''), fw)
      else if (case resolve_node fs path of Some (FileNode c) \<Rightarrow> False | _ \<Rightarrow> True)
      then (Inl (Refused (path @ '' is not a program on this machine'')), fw)
      else (case com_enter fw of Inl e \<Rightarrow> (Inl e, fw) | Inr u \<Rightarrow>
       (case open_policy fw of Inl e \<Rightarrow> (Inl e, fw) | Inr u \<Rightarrow>
        (case fw_rules_error fw of
           Some e \<Rightarrow> (Inl (Refused (''the rules could not be opened: '' @ e)), fw)
         | None \<Rightarrow>
           (case fw_new fw of
              Inl e \<Rightarrow> (Inl (Refused (''a firewall rule could not be created: '' @ e)), fw)
            | Inr r \<Rightarrow>
              (case fw_add_error fw of
                 Some e \<Rightarrow> (Inl (Privileged (''the rule could not be added: '' @ e
                     @ ''. Changing firewall rules needs administrative rights.'')), fw)
               | None \<Rightarrow> (Inr (block_rule_name path), fw\<lparr>fw_items := fw_items fw @ [Some (filled_rule fw path r)]\<rparr>)))))))"

definition may_remove :: "str \<Rightarrow> str option list \<Rightarrow> kam_error + unit" where
  "may_remove nm groups =
     (case groups of
        [] \<Rightarrow> Inl (Refused (''there is no firewall rule called '' @ nm))
      | [only] \<Rightarrow>
          if only = Some OUR_GROUP then Inr ()
          else Inl (Refused (nm @ '' was not created by KAM Security, so it will not be removed here. Use Windows Firewall to change rules this product did not add.''))
      | several \<Rightarrow> Inl (Refused (show_nat (length several) @ '' firewall rules are called '' @ nm
          @ ''. Windows removes rules by name, so removing it here could remove a rule other than the one you mean, and nothing was removed. Use Windows Firewall, which lists each of them separately, to remove the one you mean.'')))"

text \<open>The closure of \<open>remove_our_rule\<close>: the groups of the rules with the name, and how many entries would not read.\<close>

fun count_named :: "(str \<Rightarrow> str) \<Rightarrow> str \<Rightarrow> com_rule option list \<Rightarrow> str option list \<times> nat" where
  "count_named lower wanted [] = ([], 0)"
| "count_named lower wanted (item # rest) =
     (case count_named lower wanted rest of (groups, unreadable) \<Rightarrow>
      (case item of
         None \<Rightarrow> (groups, unreadable + 1)
       | Some r \<Rightarrow>
         (case cr_name r of
            Inl e \<Rightarrow> (groups, unreadable + 1)
          | Inr raw \<Rightarrow>
              if lower raw = wanted then (Option.bind (ok_of (cr_grouping r)) text_of # groups, unreadable)
              else (groups, unreadable))))"

definition remove_our_rule :: "(str \<Rightarrow> str) \<Rightarrow> str \<Rightarrow> firewall \<Rightarrow> (kam_error + unit) \<times> firewall" where
  "remove_our_rule lower nm fw =
     (case com_enter fw of Inl e \<Rightarrow> (Inl e, fw) | Inr u \<Rightarrow>
      (case open_policy fw of Inl e \<Rightarrow> (Inl e, fw) | Inr u \<Rightarrow>
       (case fw_rules_error fw of
          Some e \<Rightarrow> (Inl (Refused (''the rules could not be opened: '' @ e)), fw)
        | None \<Rightarrow>
          (case walk_rules fw of
             Inl e \<Rightarrow> (Inl e, fw)
           | Inr (seen, stopped) \<Rightarrow>
             (case count_named lower (lower nm) seen of (groups, unreadable) \<Rightarrow>
              if stopped \<noteq> None \<or> 0 < unreadable
              then (Inl (Refused (''Not every firewall rule could be read, so whether '' @ nm
                     @ '' is the only rule with that name is not known. Nothing was removed. Use Windows Firewall to remove it.'')), fw)
              else (case may_remove nm groups of
                      Inl e \<Rightarrow> (Inl e, fw)
                    | Inr u \<Rightarrow>
                      (case fw_remove fw nm (fw_items fw) of
                         Inl e \<Rightarrow> (Inl (Privileged (''the rule could not be removed: '' @ e)), fw)
                       | Inr items \<Rightarrow> (Inr (), fw\<lparr>fw_items := items\<rparr>))))))))"

section \<open>Counting by name\<close>

lemma may_remove_Inr: "may_remove nm groups = Inr () \<longleftrightarrow> groups = [Some OUR_GROUP]"
  by (auto simp: may_remove_def split: list.splits if_splits)

definition named :: "(str \<Rightarrow> str) \<Rightarrow> str \<Rightarrow> com_rule option \<Rightarrow> bool" where
  "named lower wanted item \<longleftrightarrow> (case item of Some r \<Rightarrow> (case cr_name r of Inr raw \<Rightarrow> lower raw = wanted | Inl e \<Rightarrow> False) | None \<Rightarrow> False)"

definition group_of :: "com_rule option \<Rightarrow> str option" where
  "group_of item = (case item of Some r \<Rightarrow> Option.bind (ok_of (cr_grouping r)) text_of | None \<Rightarrow> None)"

definition readable :: "com_rule option \<Rightarrow> bool" where
  "readable item \<longleftrightarrow> (case item of Some r \<Rightarrow> (case cr_name r of Inr raw \<Rightarrow> True | Inl e \<Rightarrow> False) | None \<Rightarrow> False)"

lemma count_named_eq:
  "count_named lower wanted items =
     (map group_of (filter (named lower wanted) items), length (filter (\<lambda>i. \<not> readable i) items))"
proof (induction items)
  case (Cons item items)
  then show ?case by (cases item) (auto simp: named_def group_of_def readable_def split: sum.splits)
qed simp

text \<open>
  What is relied on of the system: an enumeration that ends without an error has handed out
  every rule, and \<open>INetFwRules::Remove\<close>, when it succeeds, takes away nothing with another name
  and something with this one, where there is any.
\<close>

definition enumerates_all :: "firewall \<Rightarrow> bool" where
  "enumerates_all fw \<longleftrightarrow> (\<forall>seen. walk_batches (fw_batches fw (fw_items fw)) = (seen, None) \<longrightarrow> mset seen = mset (fw_items fw))"

definition removes_by_name :: "(str \<Rightarrow> str) \<Rightarrow> firewall \<Rightarrow> bool" where
  "removes_by_name lower fw \<longleftrightarrow>
     (\<forall>nm items items'. fw_remove fw nm items = Inr items' \<longrightarrow>
        filter (\<lambda>i. \<not> named lower (lower nm) i) items' = filter (\<lambda>i. \<not> named lower (lower nm) i) items
        \<and> (length (filter (named lower (lower nm)) items') < length (filter (named lower (lower nm)) items)
           \<or> filter (named lower (lower nm)) items = []))"

lemma removes_the_only_one:
  assumes "removes_by_name lower fw" and "fw_remove fw nm items = Inr items'"
    and "filter (named lower (lower nm)) items = [item]"
  shows "items' = filter (\<lambda>i. \<not> named lower (lower nm) i) items"
proof -
  have rest: "filter (\<lambda>i. \<not> named lower (lower nm) i) items' = filter (\<lambda>i. \<not> named lower (lower nm) i) items"
    and "length (filter (named lower (lower nm)) items') < 1"
    using assms by (fastforce simp: removes_by_name_def)+
  then have "filter (\<lambda>i. \<not> named lower (lower nm) i) items' = items'"
    by (simp add: filter_empty_conv filter_id_conv less_Suc_eq)
  with rest show ?thesis by simp
qed

text \<open>C4: removing a rule never touches a rule this product did not create. When \<open>remove_our_rule\<close>
  succeeds, exactly one rule bore the name, compared without case, that rule carried this product's
  group, every entry of the collection could be read, and what is left is every other rule, in its
  place: that rule is gone and no other. When it answers anything else, whatever the reason, the firewall is as it was.\<close>

theorem remove_only_ours:
  assumes "enumerates_all fw" and "removes_by_name lower fw"
    and "remove_our_rule lower nm fw = (r, fw')"
  shows "case r of
      Inr u \<Rightarrow> (\<exists>item. filter (named lower (lower nm)) (fw_items fw) = [item] \<and> group_of item = Some OUR_GROUP)
        \<and> list_all readable (fw_items fw)
        \<and> fw' = fw\<lparr>fw_items := filter (\<lambda>i. \<not> named lower (lower nm) i) (fw_items fw)\<rparr>
    | Inl e \<Rightarrow> fw' = fw"
proof (cases r)
  case (Inl e)
  then show ?thesis using assms(3)
    by (auto simp: remove_our_rule_def split: sum.splits option.splits if_splits prod.splits)
next
  case (Inr u)
  obtain seen items' where walk: "walk_batches (fw_batches fw (fw_items fw)) = (seen, None)"
    and all: "filter (\<lambda>i. \<not> readable i) seen = []"
    and ok: "may_remove nm (map group_of (filter (named lower (lower nm)) seen)) = Inr ()"
    and rem: "fw_remove fw nm (fw_items fw) = Inr items'" "fw' = fw\<lparr>fw_items := items'\<rparr>"
    using assms(3) Inr
    by (auto simp: remove_our_rule_def walk_rules_def count_named_eq split: sum.splits option.splits if_splits prod.splits)
  have same: "mset seen = mset (fw_items fw)" using assms(1) walk by (auto simp: enumerates_all_def)
  have "mset (filter (named lower (lower nm)) (fw_items fw)) = mset (filter (named lower (lower nm)) seen)"
    using same by simp
  moreover obtain item where one: "filter (named lower (lower nm)) seen = [item]" "group_of item = Some OUR_GROUP"
    using ok by (auto simp: may_remove_Inr)
  ultimately have "mset (filter (named lower (lower nm)) (fw_items fw)) = mset [item]" by (simp only:)
  then have hit: "filter (named lower (lower nm)) (fw_items fw) = [item]" by (simp only: mset.simps add_0_left mset_single_iff)
  moreover have "list_all readable (fw_items fw)"
    using all same by (metis (mono_tags, lifting) filter_empty_conv list_all_iff mset_eq_setD)
  ultimately show ?thesis using one(2) rem removes_the_only_one [OF assms(2) rem(1) hit] by (simp add: Inr)
qed

text \<open>A policy with one rule of ours and one of the system, enumerated one rule at a time.\<close>

definition com_sample :: "str \<Rightarrow> str \<Rightarrow> com_rule" where
  "com_sample nm g = \<lparr>cr_name = Inr nm, cr_description = Inr [], cr_application = Inr [], cr_service = Inr [],
     cr_direction = Inr NetOut, cr_action = Inr NetBlock, cr_enabled = Inr True, cr_grouping = Inr g,
     cr_profiles = Inr ALL_PROFILES, cr_protocol = Inr 256, cr_local_ports = Inr [], cr_remote_ports = Inr [],
     cr_remote_addresses = Inr []\<rparr>"

definition fw_sample :: "com_rule option list \<Rightarrow> firewall" where
  "fw_sample items = \<lparr>fw_items = items, fw_com_error = None, fw_open_error = None, fw_rules_error = None,
     fw_enum_error = None, fw_batches = map (\<lambda>i. ([i], None)), fw_new = Inr (com_sample [] []),
     fw_setter_ok = (\<lambda>s. True), fw_add_error = None,
     fw_remove = (\<lambda>nm items. Inr (filter (\<lambda>i. \<not> named ascii_lower (ascii_lower nm) i) items)),
     fw_current_types = Inr 4, fw_enabled = (\<lambda>p. Inr True), fw_inbound = (\<lambda>p. Inr NetBlock),
     fw_outbound = (\<lambda>p. Inr NetAllow)\<rparr>"

lemma walk_singletons: "walk_batches (map (\<lambda>i. ([i], None)) items) = (items, None)"
  by (induction items) simp_all

lemma fw_sample_laws: "enumerates_all (fw_sample items)" "removes_by_name ascii_lower (fw_sample items)"
  by (auto simp: enumerates_all_def removes_by_name_def fw_sample_def walk_singletons filter_filter)

definition fw_two :: firewall where
  "fw_two = fw_sample [Some (com_sample ''kam block a'' OUR_GROUP), Some (com_sample ''dns'' ''core'')]"

lemma fw_two_removal:
  "remove_our_rule ascii_lower ''kam block a'' fw_two = (Inr (), fw_two\<lparr>fw_items := [Some (com_sample ''dns'' ''core'')]\<rparr>)"
  by (simp add: fw_two_def fw_sample_def remove_our_rule_def com_enter_def open_policy_def walk_rules_def
      count_named_eq named_def com_sample_def group_of_def readable_def ok_of_def text_of_def OUR_GROUP_def
      may_remove_def trim_Nil is_whitespace_def ascii_lower_def ascii_lower_char_def)

theorem remove_only_ours_witness:
  "remove_our_rule ascii_lower ''kam block a'' fw_two = (Inr (), fw_two\<lparr>fw_items := [Some (com_sample ''dns'' ''core'')]\<rparr>)
   \<and> (\<exists>item. filter (named ascii_lower (ascii_lower ''kam block a'')) (fw_items fw_two) = [item] \<and> group_of item = Some OUR_GROUP)
   \<and> [Some (com_sample ''dns'' ''core'')] = filter (\<lambda>i. \<not> named ascii_lower (ascii_lower ''kam block a'') i) (fw_items fw_two)"
proof -
  have "enumerates_all fw_two" "removes_by_name ascii_lower fw_two"
    unfolding fw_two_def by (rule fw_sample_laws)+
  note holds = remove_only_ours [OF this fw_two_removal, unfolded sum.case]
  have "[Some (com_sample ''dns'' ''core'')] = filter (\<lambda>i. \<not> named ascii_lower (ascii_lower ''kam block a'') i) (fw_items fw_two)"
    using arg_cong [OF holds [THEN conjunct2, THEN conjunct2], of fw_items] by simp
  with holds fw_two_removal show ?thesis by blast
qed

section \<open>Blocking a program\<close>

text \<open>Blocking and unblocking a program. When the setters succeed, a successful
  \<open>block_program\<close> adds exactly one rule, at the end, that is outgoing, blocking, enabled, for
  every profile, for the given path and marked as ours; and if no other rule has its name and the
  collection reads to its end, \<open>remove_our_rule\<close> on the returned name goes through to the
  removal.\<close>

theorem block_then_remove:
  assumes "\<And>s. fw_setter_ok fw s" and "block_program fs path fw = (Inr nm, fw1)"
    and "enumerates_all fw1" and "list_all readable (fw_items fw)"
    and "filter (named lower (lower nm)) (fw_items fw) = []"
    and "fw_enum_error fw = None" and "snd (walk_batches (fw_batches fw1 (fw_items fw1))) = None"
    and "fw_remove fw1 nm (fw_items fw1) = Inr items"
  shows "(\<exists>r. fw_items fw1 = fw_items fw @ [Some r] \<and> cr_name r = Inr nm \<and> cr_application r = Inr path
        \<and> cr_direction r = Inr NetOut \<and> cr_action r = Inr NetBlock \<and> cr_enabled r = Inr True
        \<and> cr_profiles r = Inr ALL_PROFILES \<and> group_of (Some r) = Some OUR_GROUP)
    \<and> remove_our_rule lower nm fw1 = (Inr (), fw1\<lparr>fw_items := items\<rparr>)"
proof -
  obtain r0 where r0: "com_enter fw = Inr ()" "open_policy fw = Inr ()" "fw_rules_error fw = None"
      "nm = block_rule_name path" "fw1 = fw\<lparr>fw_items := fw_items fw @ [Some (filled_rule fw path r0)]\<rparr>"
    using assms(2) by (auto simp: block_program_def split: if_splits sum.splits option.splits)
  let ?r = "filled_rule fw path r0"
  have r: "cr_name ?r = Inr nm" "cr_application ?r = Inr path" "cr_direction ?r = Inr NetOut"
      "cr_action ?r = Inr NetBlock" "cr_enabled ?r = Inr True" "cr_profiles ?r = Inr ALL_PROFILES"
      "cr_grouping ?r = Inr OUR_GROUP"
    using assms(1) by (simp_all add: filled_rule_def set_if_def r0(4))
  have g: "group_of (Some ?r) = Some OUR_GROUP"
    by (simp add: group_of_def ok_of_def r(7) text_of_def OUR_GROUP_def trim_Nil is_whitespace_def)
  obtain seen where seen: "walk_batches (fw_batches fw1 (fw_items fw1)) = (seen, None)"
    using assms(7) by (cases "walk_batches (fw_batches fw1 (fw_items fw1))") simp
  have same: "mset seen = mset (fw_items fw1)" using assms(3) seen by (auto simp: enumerates_all_def)
  have "named lower (lower nm) (Some ?r)" by (simp add: named_def r(1))
  then have one: "filter (named lower (lower nm)) (fw_items fw1) = [Some ?r]" using assms(5) by (simp add: r0(5))
  have "mset (filter (named lower (lower nm)) seen) = mset [Some ?r]"
    using one same by (metis mset_filter)
  then have hit: "filter (named lower (lower nm)) seen = [Some ?r]" by (simp only: mset.simps add_0_left mset_single_iff)
  have "readable (Some ?r)" by (simp add: readable_def r(1))
  then have "list_all readable (fw_items fw1)" using assms(4) by (simp add: r0(5))
  then have "filter (\<lambda>i. \<not> readable i) seen = []"
    using same by (metis (mono_tags, lifting) filter_empty_conv list_all_iff mset_eq_setD)
  then have "remove_our_rule lower nm fw1 = (Inr (), fw1\<lparr>fw_items := items\<rparr>)"
    using seen assms(6,8) hit g r0
    by (simp add: remove_our_rule_def walk_rules_def count_named_eq may_remove_def com_enter_def open_policy_def
        split: option.splits)
  then show ?thesis using r g r0(5) by auto
qed

definition program_files :: file_system where
  "program_files = \<lparr>nodes = [([''c:''], DirNode), ([''c:'', ''t.exe''], FileNode ''x'')], fault = (\<lambda>op p. None), canonical = Inr\<rparr>"

definition fw_one :: firewall where
  "fw_one = fw_sample [Some (com_sample ''dns'' ''core'')]"

lemma blocked_sample:
  "fst (block_program program_files ''c:/t.exe'' fw_one) = Inr ''KAM Security: block t.exe''"
proof -
  have "key_of ''c:/t.exe'' = [''c:'', ''t.exe'']"
    by (simp add: key_of_def is_path_separator_def ascii_lower_def ascii_lower_char_def)
  then have "resolve_node program_files ''c:/t.exe'' = Some (FileNode ''x'')"
    using follow_plain [of program_files "[''c:'', ''t.exe'']" "FileNode ''x''" 63]
    by (simp add: resolve_node_def program_files_def look_def numeral_eq_Suc)
  then show ?thesis
    by (simp add: block_program_def fw_one_def fw_sample_def com_enter_def open_policy_def block_rule_name_def
        RULE_PREFIX_def trim_Nil is_whitespace_def is_path_separator_def)
qed

theorem block_then_remove_witness:
  "\<exists>fw1 items. block_program program_files ''c:/t.exe'' fw_one = (Inr ''KAM Security: block t.exe'', fw1)
     \<and> length (fw_items fw1) = 2
     \<and> remove_our_rule ascii_lower ''KAM Security: block t.exe'' fw1 = (Inr (), fw1\<lparr>fw_items := items\<rparr>)"
proof -
  obtain fw1 where b: "block_program program_files ''c:/t.exe'' fw_one = (Inr ''KAM Security: block t.exe'', fw1)"
    using blocked_sample by (cases "block_program program_files ''c:/t.exe'' fw_one") simp
  then have same: "fw1 = fw_sample (fw_items fw1)"
    by (auto simp: block_program_def fw_one_def fw_sample_def split: if_splits sum.splits option.splits)
  have nm: "filter (named ascii_lower (ascii_lower ''KAM Security: block t.exe'')) (fw_items fw_one) = []"
    by (simp add: fw_one_def fw_sample_def named_def com_sample_def ascii_lower_def)
  obtain items where rem: "fw_remove fw1 ''KAM Security: block t.exe'' (fw_items fw1) = Inr items"
    using same by (metis (no_types, lifting) fw_sample_def firewall.select_convs(10))
  have "(\<exists>r. fw_items fw1 = fw_items fw_one @ [Some r] \<and> cr_name r = Inr ''KAM Security: block t.exe''
        \<and> cr_application r = Inr ''c:/t.exe''
        \<and> cr_direction r = Inr NetOut \<and> cr_action r = Inr NetBlock \<and> cr_enabled r = Inr True
        \<and> cr_profiles r = Inr ALL_PROFILES \<and> group_of (Some r) = Some OUR_GROUP)
    \<and> remove_our_rule ascii_lower ''KAM Security: block t.exe'' fw1 = (Inr (), fw1\<lparr>fw_items := items\<rparr>)"
  proof (rule block_then_remove [OF _ b _ _ nm _ _ rem])
    show "enumerates_all fw1" by (subst same) (rule fw_sample_laws)
    show "snd (walk_batches (fw_batches fw1 (fw_items fw1))) = None"
      by (subst same) (simp add: fw_sample_def walk_singletons)
  qed (simp_all add: fw_one_def fw_sample_def readable_def com_sample_def)
  then show ?thesis using b by (auto simp: fw_one_def fw_sample_def)
qed

section \<open>The survey\<close>

text \<open>A survey drops nothing in silence. When it reports nothing unread, every entry of the rule
  collection is in the report, read, the four counts are those of the listed rules, and the list
  is in the order described: ours first, then blocking, then by name.\<close>

theorem survey_complete:
  assumes "enumerates_all fw" and "survey lower indirect fw = Inr report" and "unread report = []"
  shows "image_mset Some (mset (report_rules report))
        = image_mset (\<lambda>item. Option.bind item (read_rule indirect)) (mset (fw_items fw))
    \<and> total_rules report = length (fw_items fw)
    \<and> our_rules report = length (filter ours (report_rules report))
    \<and> sorted (map (rule_order lower) (report_rules report))"
proof -
  obtain seen found where walk: "walk_batches (fw_batches fw (fw_items fw)) = (seen, None)"
    and none: "filter (\<lambda>r. r = None) (map (\<lambda>item. Option.bind item (read_rule indirect)) seen) = []"
    and found: "found = List.map_filter (\<lambda>r. r) (map (\<lambda>item. Option.bind item (read_rule indirect)) seen)"
    and rep: "report_rules report = sort_key (rule_order lower) found" "total_rules report = length (report_rules report)"
      "our_rules report = length (filter ours (report_rules report))"
    using assms(2,3)
    by (auto simp: survey_def read_rules_def walk_rules_def Let_def split: sum.splits option.splits prod.splits if_splits)
  have all: "map Some (List.map_filter (\<lambda>r. r) xs) = xs" if "filter (\<lambda>r. r = None) xs = []" for xs :: "fw_rule option list"
    using that by (induction xs) (auto simp: List.map_filter_def split: if_splits)
  have f: "map Some found = map (\<lambda>item. Option.bind item (read_rule indirect)) seen"
    unfolding found by (rule all [OF none])
  have same: "mset seen = mset (fw_items fw)" using assms(1) walk by (auto simp: enumerates_all_def)
  have "image_mset Some (mset found) = image_mset (\<lambda>item. Option.bind item (read_rule indirect)) (mset (fw_items fw))"
    using arg_cong [OF f, of mset] same by simp
  moreover have "length found = length (fw_items fw)"
    using arg_cong [OF f, of length] mset_eq_length [OF same] by simp
  ultimately show ?thesis using rep by simp
qed

theorem survey_complete_witness:
  "\<exists>report. survey ascii_lower (\<lambda>s. None) fw_two = Inr report \<and> total_rules report = 2"
proof -
  have "\<exists>report. survey ascii_lower (\<lambda>s. None) fw_two = Inr report \<and> unread report = []"
    by (simp add: survey_def com_enter_def open_policy_def read_profiles_def read_profile_def Let_def profile_all_def
        read_rules_def walk_rules_def fw_two_def fw_sample_def read_rule_def com_sample_def)
  then obtain report where r: "survey ascii_lower (\<lambda>s. None) fw_two = Inr report" "unread report = []" by blast
  have "enumerates_all fw_two" by (simp add: fw_two_def fw_sample_laws)
  from survey_complete [OF this r] r(1) show ?thesis by (auto simp: fw_two_def fw_sample_def)
qed

end
