(* ===== verification/Kam_Changes.thy ===== *)
theory Kam_Changes
  imports Kam_Prelude "HOL-Library.Product_Lexorder" "HOL-Library.List_Lexorder" "HOL-Library.Char_ord"
begin

text \<open>
  What changed on the machine since last time: the vocabulary of
  \<open>crates/kam-core/src/changes.rs\<close> and the store of \<open>crates/kam-core/src/db.rs\<close> with its
  sweep, its settings, its audit log and its migrations. The SQLite tables are lists of rows in
  insertion order; each statement is the function its SQL denotes. Lower-casing a character is
  an argument, and so are the clock and the error a statement fails with.
\<close>

section \<open>Vocabulary\<close>

record sighting =
  s_kind :: str
  s_scope :: str
  s_name :: str
  s_detail :: str
  s_trust :: str

datatype change = Appeared | Altered | Vanished | Recurring

fun change_stored :: "change \<Rightarrow> str" where
  "change_stored Appeared = ''appeared''"
| "change_stored Altered = ''altered''"
| "change_stored Vanished = ''vanished''"
| "change_stored Recurring = ''recurring''"

definition change_from_stored :: "str \<Rightarrow> change" where
  "change_from_stored s =
     (if s = ''appeared'' then Appeared else if s = ''vanished'' then Vanished
      else if s = ''recurring'' then Recurring else Altered)"

fun change_label :: "change \<Rightarrow> str" where
  "change_label Appeared = ''appeared''"
| "change_label Altered = ''changed''"
| "change_label Vanished = ''is gone''"
| "change_label Recurring = ''comes and goes''"

fun rank :: "change \<Rightarrow> nat" where
  "rank Vanished = 3"
| "rank Appeared = 2"
| "rank Altered = 1"
| "rank Recurring = 0"

record difference =
  d_at :: str
  d_change :: change
  d_kind :: str
  d_scope :: str
  d_name :: str
  d_detail :: str
  d_first_seen :: str
  d_last_seen :: str
  d_times_seen :: int
  d_trust :: str
  d_was_trusted :: "str option"

definition SIGNED_BY :: str where "SIGNED_BY = ''signed by ''"
definition NOT_A_FILE :: str where "NOT_A_FILE = ''not a file''"
definition FLAPS_BEFORE_RECURRING :: int where "FLAPS_BEFORE_RECURRING = 3"

definition vouched_for :: "str \<Rightarrow> bool" where "vouched_for trust \<longleftrightarrow> prefix SIGNED_BY trust"
definition is_a_file :: "str \<Rightarrow> bool" where "is_a_file trust \<longleftrightarrow> trust \<noteq> NOT_A_FILE"

section \<open>Places\<close>

definition is_place_separator :: "str \<Rightarrow> bool" where
  "is_place_separator u \<longleftrightarrow> u = [CHR 0x5C] \<or> u = ''/''"

text \<open>The loop of \<open>as_place\<close>: \<open>last\<close> says whether a separator was just written.\<close>

fun place_chars :: "(str \<Rightarrow> str) \<Rightarrow> bool \<Rightarrow> str list \<Rightarrow> str" where
  "place_chars lower_char was_separator [] = []"
| "place_chars lower_char was_separator (c # cs) =
     (if is_place_separator c
      then (if was_separator then [] else [CHR 0x5C]) @ place_chars lower_char True cs
      else lower_char c @ place_chars lower_char False cs)"

definition as_place :: "(str \<Rightarrow> str) \<Rightarrow> str \<Rightarrow> str" where
  "as_place lower_char scope = trim_end_matches (\<lambda>c. c = CHR 0x5C) (place_chars lower_char False (utf8_chars scope))"

definition under :: "(str \<Rightarrow> str) \<Rightarrow> str \<Rightarrow> str \<Rightarrow> bool" where
  "under lower_char scope place =
     (let s = as_place lower_char scope
      in if s = place then True
         else (case strip_prefix place s of None \<Rightarrow> False | Some rest \<Rightarrow> prefix [CHR 0x5C] rest))"

record unreadable_source =
  u_kinds :: "str list"
  u_scopes :: "str list"
  u_what :: str

definition unreadable_of :: "str \<Rightarrow> str \<Rightarrow> unreadable_source" where
  "unreadable_of kind what = \<lparr>u_kinds = [kind], u_scopes = [], u_what = what\<rparr>"

definition unreadable_within :: "(str \<Rightarrow> str) \<Rightarrow> str \<Rightarrow> str \<Rightarrow> str \<Rightarrow> unreadable_source" where
  "unreadable_within lower_char kind scope what =
     \<lparr>u_kinds = [kind], u_scopes = [as_place lower_char scope], u_what = what\<rparr>"

definition unreadable_covering :: "(str \<Rightarrow> str) \<Rightarrow> str list \<Rightarrow> str list \<Rightarrow> str \<Rightarrow> unreadable_source" where
  "unreadable_covering lower_char kinds scopes what =
     \<lparr>u_kinds = kinds, u_scopes = map (as_place lower_char) scopes, u_what = what\<rparr>"

definition covers :: "(str \<Rightarrow> str) \<Rightarrow> unreadable_source \<Rightarrow> str \<Rightarrow> str \<Rightarrow> bool" where
  "covers lower_char u kind scope \<longleftrightarrow>
     list_ex (\<lambda>held. held = kind) (u_kinds u)
     \<and> (u_scopes u = [] \<or> list_ex (\<lambda>place. under lower_char scope place) (u_scopes u))"

section \<open>The store\<close>

record sighting_row =
  r_kind :: str
  r_scope :: str
  r_name :: str
  r_detail :: str
  r_first_seen :: str
  r_last_seen :: str
  r_times_seen :: int
  r_flaps :: int
  r_present :: bool
  r_trust :: str

record change_row =
  ch_at :: str
  ch_change :: str
  ch_kind :: str
  ch_scope :: str
  ch_name :: str
  ch_detail :: str

datatype effect = Observed | Changed | EffectRefused

fun effect_as_str :: "effect \<Rightarrow> str" where
  "effect_as_str Observed = ''observed''"
| "effect_as_str Changed = ''changed''"
| "effect_as_str EffectRefused = ''refused''"

definition effect_parse :: "str \<Rightarrow> effect option" where
  "effect_parse s =
     (if s = ''observed'' then Some Observed else if s = ''changed'' then Some Changed
      else if s = ''refused'' then Some EffectRefused else None)"

record audit_entry =
  e_module :: str
  e_action :: str
  e_effect :: effect
  e_detail :: str
  e_undo_token :: "str option"

record audit_row =
  a_id :: int
  a_at :: str
  a_module :: str
  a_action :: str
  a_effect :: str
  a_detail :: str
  a_undo_token :: "str option"

record audit_record =
  rec_id :: int
  rec_at :: str
  rec_module :: str
  rec_action :: str
  rec_effect :: effect
  rec_detail :: str
  rec_undo_token :: "str option"

record db =
  sightings :: "sighting_row list"
  sweeps :: "(str \<times> str) list"
  change_rows :: "change_row list"
  audit :: "audit_row list"
  settings :: "(str \<times> str) list"
  user_version :: int

definition empty_db :: db where
  "empty_db = \<lparr>sightings = [], sweeps = [], change_rows = [], audit = [], settings = [], user_version = 0\<rparr>"

section \<open>Settings and the audit log\<close>

definition PROTECTION_SETTING :: str where "PROTECTION_SETTING = ''protection_enabled''"

definition setting :: "db \<Rightarrow> str \<Rightarrow> str option" where
  "setting d key = map_of (settings d) key"

definition set_setting :: "db \<Rightarrow> str \<Rightarrow> str \<Rightarrow> db" where
  "set_setting d key v =
     (if map_of (settings d) key = None then d\<lparr>settings := settings d @ [(key, v)]\<rparr>
      else d\<lparr>settings := map (\<lambda>(k, w). (k, if k = key then v else w)) (settings d)\<rparr>)"

definition protection_enabled :: "(kam_error + str option) \<Rightarrow> bool" where
  "protection_enabled r = (case r of Inr (Some v) \<Rightarrow> v \<noteq> ''off'' | _ \<Rightarrow> True)"

definition set_protection_enabled :: "db \<Rightarrow> bool \<Rightarrow> db" where
  "set_protection_enabled d enabled_now = set_setting d PROTECTION_SETTING (if enabled_now then ''on'' else ''off'')"

text \<open>\<open>char::is_control\<close>: the C0 controls, DEL, and the C1 controls, which are two bytes long.\<close>

definition is_control :: "str \<Rightarrow> bool" where
  "is_control u =
     (case map (of_char :: char \<Rightarrow> nat) u of
        [a] \<Rightarrow> a < 32 \<or> a = 127
      | [a, b] \<Rightarrow> a = 0xC2 \<and> 0x80 \<le> b \<and> b < 0xA0
      | _ \<Rightarrow> False)"

definition one_line :: "str \<Rightarrow> str" where
  "one_line detail = concat (map (\<lambda>u. if is_control u then '' '' else u) (utf8_chars detail))"

definition record_audit :: "db \<Rightarrow> str \<Rightarrow> audit_entry \<Rightarrow> db" where
  "record_audit d now e =
     d\<lparr>audit := audit d @ [\<lparr>a_id = int (length (audit d)) + 1, a_at = now, a_module = e_module e,
        a_action = e_action e, a_effect = effect_as_str (e_effect e), a_detail = one_line (e_detail e),
        a_undo_token = e_undo_token e\<rparr>]\<rparr>"

text \<open>\<open>"unknown effect in row {id}: {effect}"\<close>; identifiers count up from one.\<close>

fun read_audit_rows :: "audit_row list \<Rightarrow> kam_error + audit_record list" where
  "read_audit_rows [] = Inr []"
| "read_audit_rows (r # rs) =
     (case effect_parse (a_effect r) of
        None \<Rightarrow> Inl (Database (''unknown effect in row '' @ show_nat (nat (a_id r)) @ '': '' @ a_effect r))
      | Some eff \<Rightarrow>
        (case read_audit_rows rs of
           Inl e \<Rightarrow> Inl e
         | Inr records \<Rightarrow> Inr (\<lparr>rec_id = a_id r, rec_at = a_at r, rec_module = a_module r, rec_action = a_action r,
              rec_effect = eff, rec_detail = a_detail r, rec_undo_token = a_undo_token r\<rparr> # records)))"

definition recent_audit :: "db \<Rightarrow> nat \<Rightarrow> kam_error + audit_record list" where
  "recent_audit d limit = read_audit_rows (take limit (rev (audit d)))"

section \<open>Migrations\<close>

definition SCHEMA_VERSION :: int where "SCHEMA_VERSION = 5"

text \<open>
  One step is the function its schema denotes, or the error it fails with; a failed step is
  rolled back.
\<close>

fun migrate_steps :: "int \<Rightarrow> (int \<times> (db \<Rightarrow> str + db)) list \<Rightarrow> db \<Rightarrow> (kam_error + unit) \<times> db" where
  "migrate_steps current [] d = (Inr (), d)"
| "migrate_steps current ((version, schema) # steps) d =
     (if version \<le> current then migrate_steps current steps d
      else if version \<le> user_version d then migrate_steps current steps d
      else (case schema d of
              Inr d' \<Rightarrow> migrate_steps current steps (d'\<lparr>user_version := version\<rparr>)
            | Inl e \<Rightarrow> (Inl (Database (''the store could not be brought up to schema ''
                @ show_nat (nat version) @ '': '' @ e)), d)))"

definition migrate_through :: "(int \<times> (db \<Rightarrow> str + db)) list \<Rightarrow> db \<Rightarrow> (kam_error + unit) \<times> db" where
  "migrate_through steps d =
     (let current = user_version d
      in if current = SCHEMA_VERSION then (Inr (), d)
         else if SCHEMA_VERSION < current
         then (Inl (Database (''store was written by a newer version (schema '' @ show_nat (nat current)
                @ '', this build understands 5)'')), d)
         else migrate_steps current steps d)"

section \<open>The sweep\<close>

type_synonym sighting_key = "str \<times> str \<times> str"

definition row_key :: "sighting_row \<Rightarrow> sighting_key" where
  "row_key r = (r_kind r, r_scope r, r_name r)"

definition sighting_key :: "sighting \<Rightarrow> sighting_key" where
  "sighting_key s = (s_kind s, s_scope s, s_name s)"

definition difference_key :: "difference \<Rightarrow> sighting_key" where
  "difference_key d = (d_kind d, d_scope d, d_name d)"

definition find_row :: "sighting_key \<Rightarrow> sighting_row list \<Rightarrow> sighting_row option" where
  "find_row k rows = find (\<lambda>r. row_key r = k) rows"

definition update_row :: "sighting_key \<Rightarrow> (sighting_row \<Rightarrow> sighting_row) \<Rightarrow> sighting_row list \<Rightarrow> sighting_row list" where
  "update_row k f rows = map (\<lambda>r. if row_key r = k then f r else r) rows"

record sweep_state =
  w_rows :: "sighting_row list"
  w_differences :: "difference list"
  w_unvouched :: "difference list"

definition appeared_now :: "str \<Rightarrow> sighting \<Rightarrow> difference" where
  "appeared_now now s =
     \<lparr>d_at = now, d_change = Appeared, d_kind = s_kind s, d_scope = s_scope s, d_name = s_name s,
      d_detail = s_detail s, d_first_seen = now, d_last_seen = now, d_times_seen = 1, d_trust = s_trust s,
      d_was_trusted = None\<rparr>"

definition new_row :: "str \<Rightarrow> sighting \<Rightarrow> sighting_row" where
  "new_row now s =
     \<lparr>r_kind = s_kind s, r_scope = s_scope s, r_name = s_name s, r_detail = s_detail s, r_first_seen = now,
      r_last_seen = now, r_times_seen = 1, r_flaps = 0, r_present = True, r_trust = s_trust s\<rparr>"

text \<open>The match on what came back, whether it flaps, and whether it is different.\<close>

definition classify :: "bool \<Rightarrow> bool \<Rightarrow> bool \<Rightarrow> change option" where
  "classify returned recurring altered =
     (if returned \<and> recurring \<and> \<not> altered then Some Recurring
      else if returned \<and> \<not> recurring then Some Appeared
      else if altered then Some Altered
      else None)"

definition see_again :: "str \<Rightarrow> int \<Rightarrow> sighting \<Rightarrow> sighting_row \<Rightarrow> sighting_row" where
  "see_again now flaps s r =
     r\<lparr>r_detail := s_detail s, r_last_seen := now, r_times_seen := r_times_seen r + 1, r_flaps := flaps,
       r_present := True, r_trust := s_trust s\<rparr>"

definition see_one :: "bool \<Rightarrow> str \<Rightarrow> sweep_state \<Rightarrow> sighting \<Rightarrow> sweep_state" where
  "see_one baseline now st s =
     (case find_row (sighting_key s) (w_rows st) of
        None \<Rightarrow>
          (let st = st\<lparr>w_rows := w_rows st @ [new_row now s]\<rparr>
           in if \<not> baseline then st\<lparr>w_differences := w_differences st @ [appeared_now now s]\<rparr>
              else if \<not> vouched_for (s_trust s) \<and> is_a_file (s_trust s)
              then st\<lparr>w_unvouched := w_unvouched st @ [appeared_now now s]\<rparr>
              else st)
      | Some r \<Rightarrow>
          (let returned = (\<not> r_present r);
               flaps = (if returned then r_flaps r + 1 else r_flaps r);
               st = st\<lparr>w_rows := update_row (sighting_key s) (see_again now flaps s) (w_rows st)\<rparr>
           in if baseline then st
              else (let trust_moved = (r_trust r \<noteq> [] \<and> r_trust r \<noteq> s_trust s);
                        altered = (r_detail r \<noteq> s_detail s \<or> trust_moved);
                        recurring = (FLAPS_BEFORE_RECURRING \<le> flaps)
                    in case classify returned recurring altered of
                         None \<Rightarrow> st
                       | Some c \<Rightarrow> st\<lparr>w_differences := w_differences st @
                           [\<lparr>d_at = now, d_change = c, d_kind = s_kind s, d_scope = s_scope s, d_name = s_name s,
                             d_detail = s_detail s, d_first_seen = [], d_last_seen = now,
                             d_times_seen = r_times_seen r + 1, d_trust = s_trust s,
                             d_was_trusted = (if trust_moved then Some (r_trust r) else None)\<rparr>]\<rparr>)))"

definition is_readable :: "(str \<Rightarrow> str) \<Rightarrow> unreadable_source list \<Rightarrow> str \<Rightarrow> str \<Rightarrow> bool" where
  "is_readable lower_char sources kind scope \<longleftrightarrow> \<not> list_ex (\<lambda>u. covers lower_char u kind scope) sources"

definition vanished_now :: "str \<Rightarrow> sighting_row \<Rightarrow> difference" where
  "vanished_now now r =
     \<lparr>d_at = now, d_change = (if FLAPS_BEFORE_RECURRING \<le> r_flaps r then Recurring else Vanished),
      d_kind = r_kind r, d_scope = r_scope r, d_name = r_name r, d_detail = r_detail r,
      d_first_seen = r_first_seen r, d_last_seen = r_last_seen r, d_times_seen = r_times_seen r,
      d_trust = r_trust r, d_was_trusted = None\<rparr>"

definition miss_one ::
  "(str \<Rightarrow> str) \<Rightarrow> unreadable_source list \<Rightarrow> sighting list \<Rightarrow> bool \<Rightarrow> str \<Rightarrow> sweep_state \<Rightarrow> sighting_row \<Rightarrow> sweep_state" where
  "miss_one lower_char sources seen baseline now st r =
     (if list_ex (\<lambda>s. sighting_key s = row_key r) seen then st
      else if \<not> is_readable lower_char sources (r_kind r) (r_scope r) then st
      else (let st = st\<lparr>w_rows := update_row (row_key r) (\<lambda>x. x\<lparr>r_present := False\<rparr>) (w_rows st)\<rparr>
            in if baseline then st else st\<lparr>w_differences := w_differences st @ [vanished_now now r]\<rparr>))"

definition sort_differences :: "difference list \<Rightarrow> difference list" where
  "sort_differences ds = sort_key (\<lambda>d. (3 - rank (d_change d), d_kind d, d_name d)) ds"

record sweep_result =
  sw_differences :: "difference list"
  sw_unreadable :: "str list"
  sw_baseline :: bool
  sw_previous_at :: "str option"
  sw_at :: str
  sw_history :: "difference list"
  sw_swept :: "str list"
  sw_unvouched :: "difference list"

definition change_row_of :: "difference \<Rightarrow> change_row" where
  "change_row_of d =
     \<lparr>ch_at = d_at d, ch_change = change_stored (d_change d), ch_kind = d_kind d, ch_scope = d_scope d,
      ch_name = d_name d, ch_detail = d_detail d\<rparr>"

definition history_of :: "change_row \<Rightarrow> difference" where
  "history_of c =
     \<lparr>d_at = ch_at c, d_change = change_from_stored (ch_change c), d_kind = ch_kind c, d_scope = ch_scope c,
      d_name = ch_name c, d_detail = ch_detail c, d_first_seen = [], d_last_seen = [], d_times_seen = 0,
      d_trust = [], d_was_trusted = None\<rparr>"

fun join_lines :: "str list \<Rightarrow> str" where
  "join_lines [] = []"
| "join_lines [l] = l"
| "join_lines (l # ls) = l @ [char_of (10 :: nat)] @ join_lines ls"

text \<open>
  The transaction: \<open>now\<close> is the database's clock, \<open>cutoff\<close> its \<open>datetime('now', '-84 days')\<close>,
  and \<open>failure\<close> the error of the first statement that fails, on which everything is rolled back.
\<close>

definition sweep ::
  "(str \<Rightarrow> str) \<Rightarrow> sighting list \<Rightarrow> unreadable_source list \<Rightarrow> str \<Rightarrow> str \<Rightarrow> str option \<Rightarrow> db
     \<Rightarrow> (kam_error + sweep_result) \<times> db" where
  "sweep lower_char seen sources now cutoff failure d =
     (case failure of
        Some e \<Rightarrow> (Inl (Database e), d)
      | None \<Rightarrow>
        (let previous = (if sweeps d = [] then None else Some (fst (last (sweeps d))));
             baseline = (previous = None);
             seen_state = foldl (see_one baseline now)
               \<lparr>w_rows = sightings d, w_differences = [], w_unvouched = []\<rparr> seen;
             candidates = filter r_present (w_rows seen_state);
             final = foldl (miss_one lower_char sources seen baseline now) seen_state candidates;
             differences = sort_differences (w_differences final);
             d' = d\<lparr>sightings := w_rows final, sweeps := sweeps d @ [(now, join_lines (map u_what sources))],
                    change_rows := change_rows d @ map change_row_of differences\<rparr>
         in (Inr \<lparr>sw_differences = differences, sw_unreadable = map u_what sources, sw_baseline = baseline,
                  sw_previous_at = previous, sw_at = now,
                  sw_history = map history_of (take 2000 (rev (sort_key ch_at
                     (filter (\<lambda>c. cutoff \<le> ch_at c) (change_rows d'))))),
                  sw_swept = rev (map fst (filter (\<lambda>(at, u). cutoff \<le> at) (tl (sweeps d')))),
                  sw_unvouched = w_unvouched final\<rparr>, d')))"

end
