(* ===== verification/Kam_Sweep.thy ===== *)
theory Kam_Sweep
  imports Kam_Changes
begin

text \<open>
  What a sweep may conclude: nothing about a place it could not read, nothing on the first run,
  nothing when nothing moved, and everything that did move. Also the audit log's promises and
  the places a gap covers.
\<close>

section \<open>Rows\<close>

lemma find_row_Some: "find_row k rows = Some r \<Longrightarrow> r \<in> set rows \<and> row_key r = k"
  by (auto simp: find_row_def find_Some_iff)

lemma find_row_None: "find_row k rows = None \<longleftrightarrow> k \<notin> row_key ` set rows"
  by (auto simp: find_row_def find_None_iff)

lemma find_row_append: "find_row k (rows @ [r]) =
    (case find_row k rows of None \<Rightarrow> if row_key r = k then Some r else None | Some x \<Rightarrow> Some x)"
  by (induction rows) (auto simp: find_row_def)

definition keeps_key :: "(sighting_row \<Rightarrow> sighting_row) \<Rightarrow> bool" where
  "keeps_key f \<longleftrightarrow> (\<forall>r. row_key (f r) = row_key r)"

lemma keeps_key_simps [simp]:
  "keeps_key (see_again now flaps s)" "keeps_key (\<lambda>x. x\<lparr>r_present := False\<rparr>)"
  by (simp_all add: keeps_key_def see_again_def row_key_def)

lemma find_row_update: "keeps_key f \<Longrightarrow>
    find_row k (update_row j f rows) = (if k = j then map_option f (find_row k rows) else find_row k rows)"
  by (induction rows) (auto simp: find_row_def update_row_def keeps_key_def)

lemma row_keys_update: "keeps_key f \<Longrightarrow> map row_key (update_row k f rows) = map row_key rows"
  by (simp add: update_row_def keeps_key_def)

lemma find_row_member:
  assumes "distinct (map row_key rows)" and "r \<in> set rows"
  shows "find_row (row_key r) rows = Some r"
proof (cases "find_row (row_key r) rows")
  case None
  then show ?thesis using assms(2) by (auto simp: find_row_None)
next
  case (Some x)
  then have "x \<in> set rows" "row_key x = row_key r" by (auto dest: find_row_Some)
  then show ?thesis using assms Some by (metis distinct_map inj_onD)
qed

section \<open>Seeing\<close>

lemma row_key_new [simp]: "row_key (new_row now s) = sighting_key s"
  by (simp add: new_row_def row_key_def sighting_key_def)

lemma difference_key_appeared [simp]: "difference_key (appeared_now now s) = sighting_key s"
  by (simp add: appeared_now_def difference_key_def sighting_key_def)

lemma difference_key_vanished [simp]: "difference_key (vanished_now now r) = row_key r"
  by (simp add: vanished_now_def difference_key_def row_key_def)

lemma see_one_rows:
  "find_row k (w_rows (see_one b now st s)) =
     (if k \<noteq> sighting_key s then find_row k (w_rows st)
      else (case find_row k (w_rows st) of
              None \<Rightarrow> Some (new_row now s)
            | Some r \<Rightarrow> Some (see_again now (if r_present r then r_flaps r else r_flaps r + 1) s r)))"
  by (auto simp: see_one_def Let_def find_row_append find_row_update split: option.splits)

lemma see_one_distinct:
  "distinct (map row_key (w_rows st)) \<Longrightarrow> distinct (map row_key (w_rows (see_one b now st s)))"
  using find_row_None [of "sighting_key s" "w_rows st"]
  by (auto simp: see_one_def Let_def row_keys_update split: option.splits)

lemma see_all_other:
  "k \<notin> sighting_key ` set seen \<Longrightarrow> find_row k (w_rows (foldl (see_one b now) st seen)) = find_row k (w_rows st)"
  by (induction seen arbitrary: st) (auto simp: see_one_rows)

lemma see_all_distinct:
  "distinct (map row_key (w_rows st)) \<Longrightarrow> distinct (map row_key (w_rows (foldl (see_one b now) st seen)))"
  by (induction seen arbitrary: st) (simp_all add: see_one_distinct)

text \<open>What a sighting's row says after it has been seen.\<close>

definition recorded_as :: "sighting \<Rightarrow> sighting_row \<Rightarrow> bool" where
  "recorded_as s r \<longleftrightarrow> r_present r \<and> r_detail r = s_detail s \<and> r_trust r = s_trust s"

lemma see_one_recorded: "\<exists>r. find_row (sighting_key s) (w_rows (see_one b now st s)) = Some r \<and> recorded_as s r"
  by (simp add: see_one_rows recorded_as_def new_row_def see_again_def split: option.split)

lemma see_all_recorded:
  assumes "distinct (map sighting_key seen)" and "s \<in> set seen"
  shows "\<exists>r. find_row (sighting_key s) (w_rows (foldl (see_one b now) st seen)) = Some r \<and> recorded_as s r"
  using assms
proof (induction seen arbitrary: st)
  case (Cons x seen)
  show ?case
  proof (cases "s = x")
    case True
    then have "sighting_key s \<notin> sighting_key ` set seen" using Cons.prems(1) by simp
    then show ?thesis using see_all_other see_one_recorded True by (simp add: see_all_other)
  next
    case False
    then show ?thesis using Cons by simp
  qed
qed simp

lemma see_differences:
  "\<exists>ds. w_differences (see_one b now st s) = w_differences st @ ds \<and> (\<forall>d \<in> set ds. difference_key d = sighting_key s)
     \<and> (b \<longrightarrow> ds = [])"
  by (auto simp: see_one_def Let_def difference_key_def sighting_key_def appeared_now_def split: option.splits)

lemma see_all_differences:
  "\<exists>ds. w_differences (foldl (see_one b now) st seen) = w_differences st @ ds
     \<and> (\<forall>d \<in> set ds. difference_key d \<in> sighting_key ` set seen) \<and> (b \<longrightarrow> ds = [])"
proof (induction seen arbitrary: st)
  case (Cons s seen)
  obtain ds where ds: "w_differences (see_one b now st s) = w_differences st @ ds"
      "\<forall>d \<in> set ds. difference_key d = sighting_key s" "b \<longrightarrow> ds = []"
    using see_differences by blast
  obtain es where "w_differences (foldl (see_one b now) (see_one b now st s) seen) = w_differences (see_one b now st s) @ es"
      "\<forall>d \<in> set es. difference_key d \<in> sighting_key ` set seen" "b \<longrightarrow> es = []"
    using Cons.IH by blast
  with ds show ?case by (intro exI [of _ "ds @ es"]) auto
qed simp

section \<open>Missing\<close>

text \<open>The rows the second loop concludes to be gone.\<close>

definition concluded :: "(str \<Rightarrow> str) \<Rightarrow> unreadable_source list \<Rightarrow> sighting list \<Rightarrow> sighting_row \<Rightarrow> bool" where
  "concluded lower_char sources seen r \<longleftrightarrow>
     row_key r \<notin> sighting_key ` set seen \<and> is_readable lower_char sources (r_kind r) (r_scope r)"

lemma miss_one_eq:
  "miss_one lc sources seen b now st r =
     (if concluded lc sources seen r
      then st\<lparr>w_rows := update_row (row_key r) (\<lambda>x. x\<lparr>r_present := False\<rparr>) (w_rows st),
              w_differences := w_differences st @ (if b then [] else [vanished_now now r])\<rparr>
      else st)"
  by (auto simp: miss_one_def concluded_def list_ex_iff Let_def image_iff)

lemma miss_all_differences:
  "w_differences (foldl (miss_one lc sources seen b now) st rs) =
     w_differences st @ (if b then [] else map (vanished_now now) (filter (concluded lc sources seen) rs))"
  by (induction rs arbitrary: st) (simp_all add: miss_one_eq)

lemma miss_all_rows:
  "find_row k (w_rows (foldl (miss_one lc sources seen b now) st rs)) =
     (if k \<in> row_key ` set (filter (concluded lc sources seen) rs)
      then map_option (\<lambda>x. x\<lparr>r_present := False\<rparr>) (find_row k (w_rows st)) else find_row k (w_rows st))"
proof (induction rs arbitrary: st)
  case (Cons r rs)
  have twice: "map_option (\<lambda>x. x\<lparr>r_present := False\<rparr>) (map_option (\<lambda>x. x\<lparr>r_present := False\<rparr>) y) =
      map_option (\<lambda>x. x\<lparr>r_present := False\<rparr>) y" for y :: "sighting_row option"
    by (cases y) simp_all
  show ?case using Cons.IH by (simp add: miss_one_eq find_row_update twice)
qed simp

lemma miss_all_distinct:
  "distinct (map row_key (w_rows st)) \<Longrightarrow>
     distinct (map row_key (w_rows (foldl (miss_one lc sources seen b now) st rs)))"
  by (induction rs arbitrary: st) (simp_all add: miss_one_eq row_keys_update)

lemma set_sort_differences [simp]: "set (sort_differences ds) = set ds"
  by (simp add: sort_differences_def)

section \<open>A whole sweep\<close>

text \<open>The state after the first loop of a sweep over a store.\<close>

definition after_seen :: "db \<Rightarrow> str \<Rightarrow> sighting list \<Rightarrow> sweep_state" where
  "after_seen d now seen =
     foldl (see_one (sweeps d = []) now) \<lparr>w_rows = sightings d, w_differences = [], w_unvouched = []\<rparr> seen"

definition after_missed :: "(str \<Rightarrow> str) \<Rightarrow> unreadable_source list \<Rightarrow> db \<Rightarrow> str \<Rightarrow> sighting list \<Rightarrow> sweep_state" where
  "after_missed lc sources d now seen =
     foldl (miss_one lc sources seen (sweeps d = []) now) (after_seen d now seen)
       (filter r_present (w_rows (after_seen d now seen)))"

lemma sweep_Inr:
  assumes "sweep lc seen sources now cutoff failure d = (Inr sw, d')"
  shows "set (sw_differences sw) = set (w_differences (after_missed lc sources d now seen))"
    and "sightings d' = w_rows (after_missed lc sources d now seen)" and "sweeps d' \<noteq> []"
    and "sw_baseline sw = (sweeps d = [])"
proof -
  have first: "((if sweeps d = [] then None else Some at) = None) = (sweeps d = [])" for at :: str by simp
  have "failure = None" using assms by (cases failure) (simp_all add: sweep_def)
  note it = assms [unfolded this sweep_def Let_def first option.case prod.inject sum.inject,
      folded after_seen_def after_missed_def]
  have sw: "sw_differences sw = sort_differences (w_differences (after_missed lc sources d now seen))"
    "sw_baseline sw = (sweeps d = [])"
    and d': "sightings d' = w_rows (after_missed lc sources d now seen)" "sweeps d' = sweeps d @ [(now, join_lines (map u_what sources))]"
    by (simp_all add: it [THEN conjunct1, symmetric] it [THEN conjunct2, symmetric])
  show "set (sw_differences sw) = set (w_differences (after_missed lc sources d now seen))"
    "sightings d' = w_rows (after_missed lc sources d now seen)" "sweeps d' \<noteq> []" "sw_baseline sw = (sweeps d = [])"
    by (simp_all add: sw d')
qed

lemma after_missed_row:
  "find_row k (w_rows (after_missed lc sources d now seen)) =
     (if k \<in> row_key ` {r \<in> set (w_rows (after_seen d now seen)). r_present r \<and> concluded lc sources seen r}
      then map_option (\<lambda>x. x\<lparr>r_present := False\<rparr>) (find_row k (w_rows (after_seen d now seen)))
      else find_row k (w_rows (after_seen d now seen)))"
  by (simp add: after_missed_def miss_all_rows conj_commute Collect_conj_eq)

lemma after_missed_differences:
  "set (w_differences (after_missed lc sources d now seen)) =
     set (w_differences (after_seen d now seen))
     \<union> (if sweeps d = [] then {} else
         vanished_now now ` {r \<in> set (w_rows (after_seen d now seen)). r_present r \<and> concluded lc sources seen r})"
  by (auto simp: after_missed_def miss_all_differences)

lemma after_seen_row: "k \<notin> sighting_key ` set seen \<Longrightarrow> find_row k (w_rows (after_seen d now seen)) = find_row k (sightings d)"
  by (simp add: after_seen_def see_all_other)

lemma after_seen_distinct:
  "distinct (map row_key (sightings d)) \<Longrightarrow> distinct (map row_key (w_rows (after_seen d now seen)))"
  by (simp add: after_seen_def see_all_distinct)

lemma after_seen_keys:
  assumes "d \<in> set (w_differences (after_seen db now seen))"
  shows "difference_key d \<in> sighting_key ` set seen" and "sweeps db \<noteq> []"
proof -
  obtain ds where "w_differences (after_seen db now seen) = ds" "\<forall>d \<in> set ds. difference_key d \<in> sighting_key ` set seen"
      "sweeps db = [] \<longrightarrow> ds = []"
    using see_all_differences [of "sweeps db = []" now "\<lparr>w_rows = sightings db, w_differences = [], w_unvouched = []\<rparr>" seen]
    by (auto simp: after_seen_def)
  with assms show "difference_key d \<in> sighting_key ` set seen" "sweeps db \<noteq> []" by auto
qed

section \<open>Properties of a sweep\<close>

lemma covered_unconcluded:
  assumes "sweep lc seen sources now cutoff failure d = (Inr sw, d')"
    and "u \<in> set sources" and "covers lc u kind scope"
    and "(kind, scope, nm) \<notin> sighting_key ` set seen"
  shows "find_row (kind, scope, nm) (sightings d') = find_row (kind, scope, nm) (sightings d)
    \<and> (\<forall>x \<in> set (sw_differences sw). difference_key x \<noteq> (kind, scope, nm))"
proof -
  have no: "\<not> concluded lc sources seen r" if "row_key r = (kind, scope, nm)" for r
    using that assms(2,3) by (auto simp: concluded_def is_readable_def list_ex_iff row_key_def)
  then have "(kind, scope, nm) \<notin> row_key ` {r \<in> set (w_rows (after_seen d now seen)). r_present r \<and> concluded lc sources seen r}"
    by auto
  then have row: "find_row (kind, scope, nm) (sightings d') = find_row (kind, scope, nm) (sightings d)"
    using sweep_Inr(2) [OF assms(1)] after_seen_row [OF assms(4)] by (simp only: after_missed_row if_False)
  have "difference_key x \<noteq> (kind, scope, nm)" if x: "x \<in> set (sw_differences sw)" for x
  proof -
    have "x \<in> set (w_differences (after_seen d now seen))
        \<or> (\<exists>r. x = vanished_now now r \<and> concluded lc sources seen r)"
      using x by (auto simp: sweep_Inr(1) [OF assms(1)] after_missed_differences split: if_splits)
    then show ?thesis
    proof (elim disjE exE conjE)
      assume "x \<in> set (w_differences (after_seen d now seen))"
      then show ?thesis using after_seen_keys(1) assms(4) by metis
    next
      fix r assume "x = vanished_now now r" "concluded lc sources seen r"
      then show ?thesis using no [of r] by auto
    qed
  qed
  with row show ?thesis by blast
qed

text \<open>C3: absence is not concluded from a place that could not be read. If a source that this sweep
  could not read covers the kind and scope of a thing that was not seen, then the thing's row is
  left exactly as it was, still present, and no reported difference is about it.\<close>

theorem unreadable_concludes_nothing:
  assumes "sweep lc seen sources now cutoff failure d = (Inr sw, d')"
    and "u \<in> set sources" and "covers lc u kind scope"
    and "(kind, scope, nm) \<notin> sighting_key ` set seen"
  shows "find_row (kind, scope, nm) (sightings d') = find_row (kind, scope, nm) (sightings d)
    \<and> (\<forall>x \<in> set (sw_differences sw). difference_key x \<noteq> (kind, scope, nm))"
  by (rule covered_unconcluded [OF assms])

text \<open>The first sweep reports nothing. A store that has never been swept gives no differences,
  whatever is seen, and says that it took a baseline.\<close>

theorem first_sweep_is_silent:
  assumes "sweeps d = []" and "sweep lc seen sources now cutoff failure d = (Inr sw, d')"
  shows "sw_differences sw = [] \<and> sw_baseline sw \<and> change_rows d' = change_rows d"
proof -
  have "set (w_differences (after_seen d now seen)) = {}"
  proof (rule equals0I)
    fix x assume "x \<in> set (w_differences (after_seen d now seen))"
    from after_seen_keys(2) [OF this] assms(1) show False by simp
  qed
  then have "set (sw_differences sw) = {}"
    using sweep_Inr(1) [OF assms(2)] assms(1) by (simp add: after_missed_differences)
  then have "sw_differences sw = []" by simp
  moreover have "change_rows d' = change_rows d @ map change_row_of (sw_differences sw)"
    using assms(2) by (auto simp: sweep_def Let_def split: option.splits)
  ultimately show ?thesis using sweep_Inr(4) [OF assms(2)] assms(1) by simp
qed

lemma see_all_quiet:
  assumes "distinct (map sighting_key seen)"
    and "\<And>s. s \<in> set seen \<Longrightarrow> \<exists>r. find_row (sighting_key s) (w_rows st) = Some r \<and> recorded_as s r"
  shows "w_differences (foldl (see_one b now) st seen) = w_differences st"
  using assms
proof (induction seen arbitrary: st)
  case (Cons s seen)
  obtain r where r: "find_row (sighting_key s) (w_rows st) = Some r" "recorded_as s r" using Cons.prems(2) by auto
  then have same: "w_differences (see_one b now st s) = w_differences st"
    by (auto simp: see_one_def Let_def recorded_as_def classify_def)
  have "\<exists>r. find_row (sighting_key x) (w_rows (see_one b now st s)) = Some r \<and> recorded_as x r" if "x \<in> set seen" for x
  proof -
    have "sighting_key x \<noteq> sighting_key s" using imageI [OF that, of sighting_key] Cons.prems(1) by auto
    then show ?thesis using that Cons.prems(2) [of x] by (simp add: see_one_rows)
  qed
  then show ?case using Cons.IH [of "see_one b now st s"] Cons.prems(1) same by simp
qed simp

lemma after_missed_recorded:
  assumes "distinct (map sighting_key seen)" and "s \<in> set seen"
  shows "\<exists>r. find_row (sighting_key s) (w_rows (after_missed lc sources d now seen)) = Some r \<and> recorded_as s r"
proof -
  have "sighting_key s \<notin> row_key ` {r \<in> set (w_rows (after_seen d now seen)). r_present r \<and> concluded lc sources seen r}"
    using imageI [OF assms(2), of sighting_key] by (auto simp: concluded_def)
  then show ?thesis
    using see_all_recorded [OF assms] by (simp only: after_missed_row if_False after_seen_def)
qed

text \<open>A sweep in which nothing moved says nothing. Sweeping again with the same sightings and the
  same gaps reports no difference and records no change, so the history measures what happened
  and not how often somebody looked.\<close>

theorem repeated_sweep_is_silent:
  assumes "distinct (map row_key (sightings d))" and "distinct (map sighting_key seen)"
    and "sweep lc seen sources now cutoff failure d = (Inr sw, d')"
    and "sweep lc seen sources now' cutoff' failure' d' = (Inr sw', d'')"
  shows "sw_differences sw' = [] \<and> change_rows d'' = change_rows d'"
proof -
  note rows = sweep_Inr(2) [OF assms(3)]
  have "w_differences (after_seen d' now' seen) = []"
    using see_all_quiet [OF assms(2), of "\<lparr>w_rows = sightings d', w_differences = [], w_unvouched = []\<rparr>" "sweeps d' = []" now']
      after_missed_recorded [OF assms(2)] by (simp add: after_seen_def rows)
  moreover have "\<not> (r_present r \<and> concluded lc sources seen r)" if r: "r \<in> set (w_rows (after_seen d' now' seen))" for r
  proof
    assume c: "r_present r \<and> concluded lc sources seen r"
    then have out: "row_key r \<notin> sighting_key ` set seen" by (simp add: concluded_def)
    have dist1: "distinct (map row_key (w_rows (after_seen d now seen)))" by (rule after_seen_distinct [OF assms(1)])
    then have "distinct (map row_key (sightings d'))"
      unfolding rows after_missed_def by (rule miss_all_distinct)
    then have "find_row (row_key r) (w_rows (after_seen d' now' seen)) = Some r"
      using r by (intro find_row_member after_seen_distinct)
    then have found: "find_row (row_key r) (w_rows (after_missed lc sources d now seen)) = Some r"
      using after_seen_row [OF out] rows by simp
    then obtain r0 where r0: "find_row (row_key r) (w_rows (after_seen d now seen)) = Some r0"
      by (auto simp: after_missed_row split: if_splits)
    have key: "row_key r0 = row_key r" and mem: "r0 \<in> set (w_rows (after_seen d now seen))"
      using find_row_Some [OF r0] by auto
    have "concluded lc sources seen r0" using c key by (simp add: concluded_def row_key_def)
    then have "\<not> r_present r"
      using found r0 mem key by (cases "r_present r0") (auto simp: after_missed_row split: if_splits)
    with c show False by simp
  qed
  ultimately have "set (sw_differences sw') = {}"
    by (auto simp: sweep_Inr(1) [OF assms(4)] after_missed_differences)
  moreover have "change_rows d'' = change_rows d' @ map change_row_of (sw_differences sw')"
    using assms(4) by (auto simp: sweep_def Let_def split: option.splits)
  ultimately show ?thesis by simp
qed

lemma see_all_reports:
  assumes "distinct (map sighting_key seen)" and "s \<in> set seen"
    and "\<And>st'. find_row (sighting_key s) (w_rows st') = find_row (sighting_key s) (w_rows st) \<Longrightarrow>
           \<exists>x \<in> set (w_differences (see_one b now st' s)). P x"
  shows "\<exists>x \<in> set (w_differences (foldl (see_one b now) st seen)). P x"
  using assms
proof (induction seen arbitrary: st)
  case (Cons y seen)
  show ?case
  proof (cases "s = y")
    case True
    then obtain x where x: "x \<in> set (w_differences (see_one b now st y))" "P x" using Cons.prems(3) by blast
    then show ?thesis using see_all_differences [of b now "see_one b now st y" seen] by auto
  next
    case False
    then have mem: "s \<in> set seen" using Cons.prems(2) by simp
    have "sighting_key s \<noteq> sighting_key y"
    proof
      assume "sighting_key s = sighting_key y"
      with imageI [OF mem, of sighting_key] have "sighting_key y \<in> sighting_key ` set seen" by (simp only:)
      with Cons.prems(1) show False by simp
    qed
    then have "find_row (sighting_key s) (w_rows (see_one b now st y)) = find_row (sighting_key s) (w_rows st)"
      by (simp add: see_one_rows)
    then show ?thesis using Cons.IH [OF _ mem] Cons.prems(1,3) by simp
  qed
qed simp

text \<open>What moved is reported. After the first sweep, a sighting whose identity was never recorded
  is reported as appeared; one that was present and now runs something else is reported as
  altered, however often it has come and gone; and a recorded thing that was present, was not
  seen, and whose place was read is reported gone and is no longer marked present.\<close>

theorem sweep_reports_changes:
  assumes "sweeps d \<noteq> []" and "distinct (map row_key (sightings d))" and "distinct (map sighting_key seen)"
    and "sweep lc seen sources now cutoff failure d = (Inr sw, d')"
  shows "(\<forall>s \<in> set seen. find_row (sighting_key s) (sightings d) = None \<longrightarrow>
        (\<exists>x \<in> set (sw_differences sw). difference_key x = sighting_key s \<and> d_change x = Appeared))
    \<and> (\<forall>s \<in> set seen. \<forall>r. find_row (sighting_key s) (sightings d) = Some r \<and> r_present r \<and> r_detail r \<noteq> s_detail s \<longrightarrow>
        (\<exists>x \<in> set (sw_differences sw). difference_key x = sighting_key s \<and> d_change x = Altered))
    \<and> (\<forall>r \<in> set (sightings d). r_present r \<and> row_key r \<notin> sighting_key ` set seen
          \<and> is_readable lc sources (r_kind r) (r_scope r) \<longrightarrow>
        vanished_now now r \<in> set (sw_differences sw)
        \<and> find_row (row_key r) (sightings d') = Some (r\<lparr>r_present := False\<rparr>))"
proof (intro conjI ballI impI allI)
  let ?st = "\<lparr>w_rows = sightings d, w_differences = [], w_unvouched = []\<rparr>"
  have sub: "set (w_differences (after_seen d now seen)) \<subseteq> set (sw_differences sw)"
    by (auto simp: sweep_Inr(1) [OF assms(4)] after_missed_differences)
  fix s assume s: "s \<in> set seen" "find_row (sighting_key s) (sightings d) = None"
  have "\<exists>x \<in> set (w_differences (foldl (see_one False now) ?st seen)). difference_key x = sighting_key s \<and> d_change x = Appeared"
    by (rule see_all_reports [OF assms(3) s(1)])
      (use s(2) in \<open>auto simp: see_one_def Let_def appeared_now_def difference_key_def sighting_key_def\<close>)
  then show "\<exists>x \<in> set (sw_differences sw). difference_key x = sighting_key s \<and> d_change x = Appeared"
    using sub assms(1) by (auto simp: after_seen_def)
next
  let ?st = "\<lparr>w_rows = sightings d, w_differences = [], w_unvouched = []\<rparr>"
  have sub: "set (w_differences (after_seen d now seen)) \<subseteq> set (sw_differences sw)"
    by (auto simp: sweep_Inr(1) [OF assms(4)] after_missed_differences)
  fix s r assume s: "s \<in> set seen"
    and r: "find_row (sighting_key s) (sightings d) = Some r \<and> r_present r \<and> r_detail r \<noteq> s_detail s"
  have "\<exists>x \<in> set (w_differences (foldl (see_one False now) ?st seen)). difference_key x = sighting_key s \<and> d_change x = Altered"
    by (rule see_all_reports [OF assms(3) s])
      (use r in \<open>auto simp: see_one_def Let_def classify_def difference_key_def sighting_key_def\<close>)
  then show "\<exists>x \<in> set (sw_differences sw). difference_key x = sighting_key s \<and> d_change x = Altered"
    using sub assms(1) by (auto simp: after_seen_def)
next
  fix r assume r: "r \<in> set (sightings d)" and c: "r_present r \<and> row_key r \<notin> sighting_key ` set seen
          \<and> is_readable lc sources (r_kind r) (r_scope r)"
  have found: "find_row (row_key r) (w_rows (after_seen d now seen)) = Some r"
    using c find_row_member [OF assms(2) r] by (simp add: after_seen_row)
  then have mem: "r \<in> {r \<in> set (w_rows (after_seen d now seen)). r_present r \<and> concluded lc sources seen r}"
    using c find_row_Some [OF found] by (simp add: concluded_def)
  then show "vanished_now now r \<in> set (sw_differences sw)"
    using assms(1) by (auto simp: sweep_Inr(1) [OF assms(4)] after_missed_differences)
  have "row_key r \<in> row_key ` {r \<in> set (w_rows (after_seen d now seen)). r_present r \<and> concluded lc sources seen r}"
    using mem by (rule imageI)
  then show "find_row (row_key r) (sightings d') = Some (r\<lparr>r_present := False\<rparr>)"
    using found by (simp only: sweep_Inr(2) [OF assms(4)] after_missed_row if_True option.map)
qed

end
