(* ===== verification/Kam_Changes_Samples.thy ===== *)
theory Kam_Changes_Samples
  imports Kam_Sweep
begin

text \<open>
  The places a gap covers, what the audit log keeps, and the sweep exercised on a small store.
\<close>

section \<open>A small store\<close>

definition row_foo :: sighting_row where
  "row_foo = \<lparr>r_kind = ''service'', r_scope = ''k'', r_name = ''foo'', r_detail = ''a'', r_first_seen = ''t0'',
     r_last_seen = ''t0'', r_times_seen = 1, r_flaps = 0, r_present = True, r_trust = ''signed by X''\<rparr>"

definition sweep_db :: db where
  "sweep_db = \<lparr>sightings = [row_foo], sweeps = [(''t0'', [])], change_rows = [], audit = [], settings = [], user_version = 5\<rparr>"

definition see_bar :: sighting where
  "see_bar = \<lparr>s_kind = ''task'', s_scope = ''j'', s_name = ''bar'', s_detail = ''b'', s_trust = ''not signed''\<rparr>"

definition lc0 :: "str \<Rightarrow> str" where "lc0 u = ascii_lower u"

lemma sweep_succeeds: "\<exists>sw d'. sweep lc seen sources now cutoff None d = (Inr sw, d')"
  by (simp add: sweep_def Let_def)

lemma sweep_db_facts:
  "distinct (map row_key (sightings sweep_db))" "sweeps sweep_db \<noteq> []" "row_foo \<in> set (sightings sweep_db)"
  "find_row (''service'', ''k'', ''foo'') (sightings sweep_db) = Some row_foo" "r_present row_foo"
  "row_key row_foo = (''service'', ''k'', ''foo'')" "sighting_key see_bar = (''task'', ''j'', ''bar'')"
  by (simp_all add: sweep_db_def find_row_def row_key_def row_foo_def sighting_key_def see_bar_def)

theorem unreadable_concludes_nothing_witness:
  "\<exists>sw d'. sweep lc0 [] [unreadable_of ''service'' ''w''] ''t1'' ''c'' None sweep_db = (Inr sw, d')
     \<and> find_row (''service'', ''k'', ''foo'') (sightings d') = Some row_foo"
proof -
  obtain sw d' where s: "sweep lc0 [] [unreadable_of ''service'' ''w''] ''t1'' ''c'' None sweep_db = (Inr sw, d')"
    using sweep_succeeds by blast
  have "covers lc0 (unreadable_of ''service'' ''w'') ''service'' ''k''" by (simp add: covers_def unreadable_of_def)
  then show ?thesis
    using unreadable_concludes_nothing [OF s, of "unreadable_of ''service'' ''w''" "''service''" "''k''" "''foo''"] s sweep_db_facts(4)
    by simp
qed

theorem first_sweep_is_silent_witness:
  "\<exists>sw d'. sweep lc0 [see_bar] [] ''t1'' ''c'' None empty_db = (Inr sw, d') \<and> sw_differences sw = []"
proof -
  obtain sw d' where s: "sweep lc0 [see_bar] [] ''t1'' ''c'' None empty_db = (Inr sw, d')"
    using sweep_succeeds by blast
  with first_sweep_is_silent [OF _ s] show ?thesis by (simp add: empty_db_def)
qed

theorem repeated_sweep_is_silent_witness:
  "\<exists>sw d' sw' d''. sweep lc0 [see_bar] [] ''t1'' ''c'' None sweep_db = (Inr sw, d')
     \<and> sweep lc0 [see_bar] [] ''t2'' ''c'' None d' = (Inr sw', d'') \<and> sw_differences sw' = []"
proof -
  obtain sw d' where s: "sweep lc0 [see_bar] [] ''t1'' ''c'' None sweep_db = (Inr sw, d')"
    using sweep_succeeds by blast
  obtain sw' d'' where s': "sweep lc0 [see_bar] [] ''t2'' ''c'' None d' = (Inr sw', d'')"
    using sweep_succeeds by blast
  from repeated_sweep_is_silent [OF sweep_db_facts(1) _ s s'] s s' show ?thesis by auto
qed

theorem sweep_reports_changes_witness:
  "\<exists>sw d'. sweep lc0 [see_bar] [] ''t1'' ''c'' None sweep_db = (Inr sw, d')
     \<and> vanished_now ''t1'' row_foo \<in> set (sw_differences sw)
     \<and> find_row (''service'', ''k'', ''foo'') (sightings d') = Some (row_foo\<lparr>r_present := False\<rparr>)"
proof -
  obtain sw d' where s: "sweep lc0 [see_bar] [] ''t1'' ''c'' None sweep_db = (Inr sw, d')"
    using sweep_succeeds by blast
  have "is_readable lc0 [] (r_kind row_foo) (r_scope row_foo)" by (simp add: is_readable_def)
  then show ?thesis
    using sweep_reports_changes [OF sweep_db_facts(2,1) _ s] s sweep_db_facts(3,5,6,7) by auto
qed

section \<open>Places\<close>

lemma place_chars_append:
  "place_chars lc w (a @ b) = place_chars lc w a @ place_chars lc (if a = [] then w else is_place_separator (last a)) b"
  by (induction a arbitrary: w) auto

text \<open>What is asked of lower-casing: it gives something, and never a separator.\<close>

definition lower_char_ok :: "(str \<Rightarrow> str) \<Rightarrow> bool" where
  "lower_char_ok lc \<longleftrightarrow> (\<forall>u. u \<noteq> [] \<and> CHR 0x5C \<notin> set u \<longrightarrow> lc u \<noteq> [] \<and> CHR 0x5C \<notin> set (lc u))"

text \<open>What UTF-8 promises of each character: only a leading byte is followed by continuation bytes.\<close>

definition utf8_char :: "str \<Rightarrow> bool" where
  "utf8_char u \<longleftrightarrow> whole_char u \<and> (tl u = [] \<or> 192 \<le> (of_char (hd u) :: nat))"

lemma lower_char_okD:
  assumes "lower_char_ok lc" and "utf8_char u" and "\<not> is_place_separator u"
  obtains x xs where "lc u = x # xs" and "x \<noteq> CHR 0x5C" and "last (lc u) \<noteq> CHR 0x5C"
proof -
  have "\<not> is_continuation (CHR 0x5C)" by (simp add: is_continuation_def)
  then have "CHR 0x5C \<notin> set u"
    using assms(2,3) by (cases u) (auto simp: utf8_char_def whole_char_def is_place_separator_def list_all_iff)
  then have "lc u \<noteq> []" "CHR 0x5C \<notin> set (lc u)" using assms(1,2) by (auto simp: lower_char_ok_def utf8_char_def whole_char_def)
  then show ?thesis using that by (cases "lc u") (auto, metis last_in_set list.distinct(1) set_ConsD)
qed

lemma lower_char_ok_lc0: "lower_char_ok lc0"
proof -
  have "ascii_lower_char c = CHR 0x5C \<Longrightarrow> c = CHR 0x5C" for c
    by (auto simp: ascii_lower_char_def Let_def of_char_of take_bit_eq_mod dest!: arg_cong [where f = "of_char :: char \<Rightarrow> nat"] split: if_splits)
  then show ?thesis by (fastforce simp: lower_char_ok_def lc0_def ascii_lower_def)
qed

lemma trim_end_solid: "s \<noteq> [] \<Longrightarrow> \<not> p (last s) \<Longrightarrow> trim_end_matches p s = s"
  by (cases s rule: rev_cases) (simp_all add: trim_end_matches_def)

lemma trim_end_keeps:
  assumes "s \<noteq> []" and "\<not> p (last s)"
  shows "\<exists>r. trim_end_matches p (s @ t) = s @ r"
  using trim_end_solid [of s p, OF assms] by (simp add: trim_end_append)

text \<open>The places of a scope, of what lies below it and of what continues its last component.\<close>

lemma place_of_scope:
  assumes "lower_char_ok lc" and "us \<noteq> []" and "list_all utf8_char us" and "\<not> is_place_separator (last us)"
  shows "place_chars lc w us \<noteq> []" and "last (place_chars lc w us) \<noteq> CHR 0x5C"
proof -
  have l: "utf8_char (last us)" using assms(2,3) by (auto simp: list_all_iff)
  obtain x xs where x: "lc (last us) = x # xs" "last (lc (last us)) \<noteq> CHR 0x5C"
    using lower_char_okD [OF assms(1) l assms(4)] by blast
  have "place_chars lc w us = place_chars lc w (butlast us) @ lc (last us)"
    by (subst append_butlast_last_id [OF assms(2), symmetric], subst place_chars_append) (simp add: assms(4))
  then show "place_chars lc w us \<noteq> []" "last (place_chars lc w us) \<noteq> CHR 0x5C" using x by auto
qed

lemma last_char_separator: "s \<noteq> [] \<Longrightarrow> is_place_separator (last (utf8_chars s)) \<Longrightarrow> is_place_separator [last s]"
  using last_utf8_chars [of s] by (auto simp: is_place_separator_def)

lemma under_below:
  assumes "lower_char_ok lc" and "scope \<noteq> []" and "\<not> is_place_separator [last scope]" and "is_place_separator [sep]"
    and "list_all utf8_char (utf8_chars scope)" and "list_all utf8_char (utf8_chars (sep # rest))"
  shows "as_place lc scope = place_chars lc False (utf8_chars scope)"
    and "under lc scope (as_place lc scope)" and "under lc (scope @ sep # rest) (as_place lc scope)"
proof -
  let ?bs = "\<lambda>c. c = CHR 0x5C"
  let ?us = "utf8_chars scope"
  let ?p = "place_chars lc False ?us"
  have us: "?us \<noteq> []" "list_all utf8_char ?us" "\<not> is_place_separator (last ?us)"
    using assms(2,3,5) last_char_separator by auto
  note p = place_of_scope [OF assms(1) us]
  show solid: "as_place lc scope = ?p" by (simp add: as_place_def trim_end_solid p)
  have sep: "\<not> is_continuation sep" "(of_char sep :: nat) < 192"
    using assms(4) by (auto simp: is_place_separator_def is_continuation_def)
  moreover have t: "takeWhile is_continuation rest = []" using assms(6) sep by (simp add: utf8_char_def)
  moreover have "dropWhile is_continuation rest = rest" using takeWhile_dropWhile_id [of is_continuation rest] t by simp
  ultimately have "utf8_chars (scope @ sep # rest) = ?us @ [sep] # utf8_chars rest" by (simp add: utf8_chars_append)
  then have place: "as_place lc (scope @ sep # rest) = trim_end_matches ?bs (?p @ CHR 0x5C # place_chars lc True (utf8_chars rest))"
    using us assms(4) by (simp add: as_place_def place_chars_append)
  have "as_place lc (scope @ sep # rest) = ?p \<or> (\<exists>r. as_place lc (scope @ sep # rest) = ?p @ CHR 0x5C # r)"
    using trim_end_append [of ?bs ?p "CHR 0x5C # place_chars lc True (utf8_chars rest)"]
      trim_end_append [of ?bs "[CHR 0x5C]" "place_chars lc True (utf8_chars rest)"] trim_end_solid [of ?p ?bs] p
    unfolding place by (auto split: if_splits)
  then show "under lc (scope @ sep # rest) (as_place lc scope)"
    unfolding under_def Let_def solid by (auto simp: strip_prefix_def)
  show "under lc scope (as_place lc scope)" by (simp add: under_def)
qed

text \<open>A gap covers what lies below the place it names and not a sibling whose name extends it.
  However the separators are written, everything at or below the place is covered; and a scope
  that merely continues the last component, as \<open>FooBar\<close> continues \<open>Foo\<close>, is not.\<close>

theorem gap_covers_below:
  assumes "lower_char_ok lc" and "scope \<noteq> []" and "\<not> is_place_separator [last scope]"
    and "is_place_separator [sep]" and "\<not> is_continuation c" and "\<not> is_place_separator [c]"
    and "list_all utf8_char (utf8_chars scope)" and "list_all utf8_char (utf8_chars (sep # rest))"
    and "list_all utf8_char (utf8_chars (c # rest))"
  shows "covers lc (unreadable_within lc kind scope what) kind scope
    \<and> covers lc (unreadable_within lc kind scope what) kind (scope @ sep # rest)
    \<and> \<not> covers lc (unreadable_within lc kind scope what) kind (scope @ c # rest)"
proof -
  let ?bs = "\<lambda>c. c = CHR 0x5C"
  let ?us = "utf8_chars scope"
  let ?p = "place_chars lc False ?us"
  have us: "?us \<noteq> []" "list_all utf8_char ?us" "\<not> is_place_separator (last ?us)"
    using assms(2,3,7) last_char_separator by auto
  note below = under_below [OF assms(1-4,7,8)]
  let ?u = "c # takeWhile is_continuation rest"
  have u: "utf8_char ?u" "\<not> is_place_separator ?u" using assms(6,9) by (auto simp: is_place_separator_def)
  obtain x xs where x: "lc ?u = x # xs" "x \<noteq> CHR 0x5C" using lower_char_okD [OF assms(1) u] by blast
  have "as_place lc (scope @ c # rest)
      = trim_end_matches ?bs ((?p @ [x]) @ (xs @ place_chars lc False (utf8_chars (dropWhile is_continuation rest))))"
    using us u(2) x(1) assms(5) by (simp add: as_place_def utf8_chars_append place_chars_append)
  moreover have "\<exists>r. trim_end_matches ?bs ((?p @ [x]) @ t) = (?p @ [x]) @ r" for t
    by (rule trim_end_keeps) (simp_all add: x(2))
  ultimately obtain r where "as_place lc (scope @ c # rest) = ?p @ x # r" by fastforce
  then have "\<not> under lc (scope @ c # rest) ?p" using x(2) by (simp add: under_def Let_def strip_prefix_def)
  then show ?thesis using below by (simp add: covers_def unreadable_within_def)
qed

theorem gap_covers_below_witness:
  "covers lc0 (unreadable_within lc0 ''service'' ''k/foo'' ''w'') ''service'' ''k/foo/bar''
   \<and> \<not> covers lc0 (unreadable_within lc0 ''service'' ''k/foo'' ''w'') ''service'' ''k/foobar''"
proof -
  note lc = lower_char_ok_lc0
  from gap_covers_below [OF lc, of "''k/foo''" "CHR ''/''" "CHR ''b''" "''bar''" "''service''" "''w''"]
    gap_covers_below [OF lc, of "''k/foo''" "CHR ''/''" "CHR ''b''" "''ar''" "''service''" "''w''"]
  show ?thesis by (simp add: is_place_separator_def is_continuation_def utf8_char_def whole_char_def)
qed

section \<open>The audit log\<close>

lemma effect_roundtrip: "effect_parse (effect_as_str e) = Some e"
  by (cases e) (simp_all add: effect_parse_def)

lemma change_roundtrip: "change_from_stored (change_stored c) = c"
  by (cases c) (simp_all add: change_from_stored_def)

lemma one_line_chars: "utf8_chars (one_line s) = map (\<lambda>u. if is_control u then '' '' else u) (utf8_chars s)"
  unfolding one_line_def
proof (rule utf8_chars_concat)
  have sp: "whole_char '' ''" "\<not> is_continuation (hd '' '')" by (simp_all add: whole_char_def is_continuation_def)
  then show "list_all whole_char (map (\<lambda>u. if is_control u then '' '' else u) (utf8_chars s))"
    by (auto simp: list_all_iff intro: utf8_chars_whole)
  show "list_all (\<lambda>u. \<not> is_continuation (hd u)) (tl (map (\<lambda>u. if is_control u then '' '' else u) (utf8_chars s)))"
    using sp by (auto simp: list_all_iff simp flip: map_tl dest: utf8_chars_leading)
qed

text \<open>An audit entry reads back as it was recorded, first in the list, with everything recorded
  before it behind it, and its detail on one line: no control character is left in it and it has
  as many characters as before, so that one entry cannot be made to look like two.\<close>

theorem audit_entry_reads_back:
  "recent_audit (record_audit d now e) (Suc n) =
     (case recent_audit d n of
        Inl err \<Rightarrow> Inl err
      | Inr records \<Rightarrow> Inr (\<lparr>rec_id = int (length (audit d)) + 1, rec_at = now, rec_module = e_module e,
          rec_action = e_action e, rec_effect = e_effect e, rec_detail = one_line (e_detail e),
          rec_undo_token = e_undo_token e\<rparr> # records))
   \<and> list_all (\<lambda>u. \<not> is_control u) (utf8_chars (one_line (e_detail e)))
   \<and> length (utf8_chars (one_line (e_detail e))) = length (utf8_chars (e_detail e))"
proof -
  have "\<not> is_control '' ''" by (simp add: is_control_def)
  then have "list_all (\<lambda>u. \<not> is_control u) (utf8_chars (one_line (e_detail e)))"
    by (auto simp: one_line_chars list_all_iff)
  moreover have "length (utf8_chars (one_line (e_detail e))) = length (utf8_chars (e_detail e))" by (simp add: one_line_chars)
  ultimately show ?thesis by (simp add: recent_audit_def record_audit_def effect_roundtrip split: sum.split)
qed

end
