(* ===== verification/Kam_Frame.thy ===== *)
theory Kam_Frame
  imports Kam_Prelude
begin

text \<open>
  Length-prefixed framing, \<open>crates/kam-ipc/src/frame.rs\<close>. A reader is the bytes still to come;
  a writer is what it has taken, how much more it takes when it is bound to fail, and the error its
  flush gives, if it gives one. The JSON codec
  (serde) is the pair of arguments \<open>to_vec\<close> and \<open>from_slice\<close>. Reading also says how many bytes
  it allocated for a payload.
\<close>

section \<open>Readers and writers\<close>

definition MAX_FRAME_BYTES :: nat where "MAX_FRAME_BYTES = 8 * 1024 * 1024"

definition eof_error :: io_error where
  "eof_error = IoError UnexpectedEof ''failed to fill whole buffer''"

text \<open>\<open>Read::read_exact\<close>.\<close>

definition read_exact :: "nat \<Rightarrow> bytes \<Rightarrow> (io_error + bytes) \<times> bytes" where
  "read_exact n input = (if n \<le> length input then (Inr (take n input), drop n input) else (Inl eof_error, []))"

record writer =
  w_data :: bytes
  w_room :: "nat option"
  w_flush_error :: "io_error option"

definition pipe_error :: io_error where
  "pipe_error = IoError OtherKind ''the pipe is being closed''"

text \<open>\<open>Write::write_all\<close>: what fits is written before the error.\<close>

definition write_all :: "bytes \<Rightarrow> writer \<Rightarrow> (io_error + unit) \<times> writer" where
  "write_all bs w =
     (case w_room w of
        None \<Rightarrow> (Inr (), w\<lparr>w_data := w_data w @ bs\<rparr>)
      | Some room \<Rightarrow>
          if length bs \<le> room then (Inr (), w\<lparr>w_data := w_data w @ bs, w_room := Some (room - length bs)\<rparr>)
          else (Inl pipe_error, w\<lparr>w_data := w_data w @ take room bs, w_room := Some 0\<rparr>))"

text \<open>\<open>Write::flush\<close>.\<close>

definition flush :: "writer \<Rightarrow> (io_error + unit) \<times> writer" where
  "flush w = (case w_flush_error w of None \<Rightarrow> (Inr (), w) | Some e \<Rightarrow> (Inl e, w))"

section \<open>Frames\<close>

definition write_frame :: "('a \<Rightarrow> str + bytes) \<Rightarrow> 'a \<Rightarrow> writer \<Rightarrow> (kam_error + unit) \<times> writer" where
  "write_frame to_vec v w =
     (case to_vec v of
        Inl e \<Rightarrow> (Inl (Protocol (''could not serialise frame: '' @ e)), w)
      | Inr payload \<Rightarrow>
          if 2 ^ 32 \<le> length payload then (Inl (Protocol ''frame exceeds the maximum length''), w)
          else if MAX_FRAME_BYTES < length payload
          then (Inl (Protocol (''frame of '' @ show_nat (length payload) @ '' bytes exceeds the ''
                 @ show_nat MAX_FRAME_BYTES @ '' byte limit'')), w)
          else (case write_all (to_le 4 (word_of_nat (length payload) :: u32)) w of
                  (Inl e, w') \<Rightarrow> (Inl (Io e), w')
                | (Inr u, w') \<Rightarrow>
                  (case write_all payload w' of
                     (Inl e, w'') \<Rightarrow> (Inl (Io e), w'')
                   | (Inr u, w'') \<Rightarrow>
                     (case flush w'' of
                        (Inl e, w3) \<Rightarrow> (Inl (Io e), w3)
                      | (Inr u, w3) \<Rightarrow> (Inr (), w3)))))"

definition read_frame :: "(bytes \<Rightarrow> str + 'a) \<Rightarrow> bytes \<Rightarrow> (kam_error + 'a) \<times> bytes \<times> nat" where
  "read_frame from_slice input =
     (case read_exact 4 input of
        (Inl e, rest) \<Rightarrow> (Inl (Io e), rest, 0)
      | (Inr length_prefix, rest) \<Rightarrow>
        (let len = unat (from_le length_prefix :: u32)
         in if MAX_FRAME_BYTES < len
            then (Inl (Protocol (''peer announced a '' @ show_nat len @ '' byte frame, over the ''
                   @ show_nat MAX_FRAME_BYTES @ '' byte limit'')), rest, 0)
            else (case read_exact len rest of
                    (Inl e, rest') \<Rightarrow> (Inl (Io e), rest', len)
                  | (Inr payload, rest') \<Rightarrow>
                    (case from_slice payload of
                       Inl e \<Rightarrow> (Inl (Protocol (''could not deserialise frame: '' @ e)), rest', len)
                     | Inr v \<Rightarrow> (Inr v, rest', len)))))"

fun write_frames :: "('a \<Rightarrow> str + bytes) \<Rightarrow> 'a list \<Rightarrow> writer \<Rightarrow> (kam_error + unit) \<times> writer" where
  "write_frames to_vec [] w = (Inr (), w)"
| "write_frames to_vec (v # vs) w =
     (case write_frame to_vec v w of
        (Inl e, w') \<Rightarrow> (Inl e, w')
      | (Inr u, w') \<Rightarrow> write_frames to_vec vs w')"

fun read_frames :: "(bytes \<Rightarrow> str + 'a) \<Rightarrow> nat \<Rightarrow> bytes \<Rightarrow> (kam_error + 'a list) \<times> bytes" where
  "read_frames from_slice 0 input = (Inr [], input)"
| "read_frames from_slice (Suc n) input =
     (case read_frame from_slice input of
        (Inl e, rest, allocated) \<Rightarrow> (Inl e, rest)
      | (Inr v, rest, allocated) \<Rightarrow>
        (case read_frames from_slice n rest of
           (Inl e, rest') \<Rightarrow> (Inl e, rest')
         | (Inr vs, rest') \<Rightarrow> (Inr (v # vs), rest')))"

section \<open>Round trip\<close>

lemma write_all_Inr:
  assumes "write_all bs w = (Inr u, w')"
  shows "w_data w' = w_data w @ bs"
  using assms by (auto simp: write_all_def split: option.splits if_splits)

lemma flush_data: "flush w = (r, w') \<Longrightarrow> w' = w"
  by (auto simp: flush_def split: option.splits)

lemma write_frame_data:
  assumes "write_frame to_vec v w = (Inr u, w')"
  shows "\<exists>payload. to_vec v = Inr payload \<and> length payload \<le> MAX_FRAME_BYTES
    \<and> w_data w' = w_data w @ to_le 4 (word_of_nat (length payload) :: u32) @ payload"
  using assms
  by (auto simp: write_frame_def split: sum.splits if_splits prod.splits dest!: write_all_Inr flush_data)

lemma read_written:
  assumes "length payload \<le> MAX_FRAME_BYTES" and "from_slice payload = Inr v"
  shows "read_frame from_slice (to_le 4 (word_of_nat (length payload) :: u32) @ payload @ rest) = (Inr v, rest, length payload)"
proof -
  have len: "unat (word_of_nat (length payload) :: u32) = length payload"
    using assms(1) by (simp add: unat_of_nat MAX_FRAME_BYTES_def)
  have four: "length (to_le 4 (word_of_nat (length payload) :: u32)) = 4" by (rule le32.enc_length)
  have dec: "unat (from_le (to_le 4 (word_of_nat (length payload) :: u32)) :: u32) = length payload"
    by (simp add: le32.dec_enc len)
  show ?thesis using assms by (simp add: read_frame_def read_exact_def four dec)
qed

text \<open>C34: frames written one after the other are read back one after the other. Whatever sequence of
  values is written successfully, with a codec that reads back what it writes, the stream read
  from its start gives exactly those values in order and leaves what followed them unread.\<close>

theorem frames_roundtrip:
  assumes "\<And>v payload. to_vec v = Inr payload \<Longrightarrow> from_slice payload = Inr v"
    and "write_frames to_vec vs w = (Inr u, w')"
  shows "\<exists>stream. w_data w' = w_data w @ stream
    \<and> read_frames from_slice (length vs) (stream @ rest) = (Inr vs, rest)"
  using assms(2)
proof (induction vs arbitrary: w)
  case Nil
  then show ?case by simp
next
  case (Cons v vs)
  then obtain w1 where first: "write_frame to_vec v w = (Inr (), w1)" and more: "write_frames to_vec vs w1 = (Inr u, w')"
    by (auto split: sum.splits prod.splits)
  obtain payload where p: "to_vec v = Inr payload" "length payload \<le> MAX_FRAME_BYTES"
      "w_data w1 = w_data w @ to_le 4 (word_of_nat (length payload) :: u32) @ payload"
    using write_frame_data [OF first] by blast
  obtain stream where s: "w_data w' = w_data w1 @ stream"
      "read_frames from_slice (length vs) (stream @ rest) = (Inr vs, rest)"
    using Cons.IH [OF more] by blast
  have "read_frame from_slice (to_le 4 (word_of_nat (length payload) :: u32) @ payload @ stream @ rest)
      = (Inr v, stream @ rest, length payload)"
    using assms(1) [OF p(1)] p(2) by (intro read_written)
  with p(3) s show ?case
    by (intro exI [of _ "to_le 4 (word_of_nat (length payload) :: u32) @ payload @ stream"]) simp
qed

definition byte_codec :: "u8 \<Rightarrow> str + bytes" where "byte_codec b = Inr [b]"

definition byte_decode :: "bytes \<Rightarrow> str + u8" where
  "byte_decode bs = (case bs of [b] \<Rightarrow> Inr b | _ \<Rightarrow> Inl ''not one byte'')"

theorem frames_roundtrip_witness:
  "read_frames byte_decode 2 ([1, 0, 0, 0, 7, 1, 0, 0, 0, 9] @ [5]) = (Inr [7, 9], [5])"
proof -
  have w: "write_frames byte_codec [7, 9] \<lparr>w_data = [], w_room = None, w_flush_error = None\<rparr> =
      (Inr (), \<lparr>w_data = [1, 0, 0, 0, 7, 1, 0, 0, 0, 9], w_room = None, w_flush_error = None\<rparr>)"
    by (simp add: write_frame_def byte_codec_def MAX_FRAME_BYTES_def write_all_def flush_def to_le_def)
  have c: "byte_codec v = Inr payload \<Longrightarrow> byte_decode payload = Inr v" for v payload
    by (auto simp: byte_codec_def byte_decode_def)
  show ?thesis using frames_roundtrip [OF c w, where rest = "[5]"] by (simp add: numeral_2_eq_2)
qed

text \<open>C40: no input makes the reader allocate more than the limit, and every malformed frame is an
  error. Whatever the bytes, at most \<open>MAX_FRAME_BYTES\<close> are allocated. A length over the limit
  is a protocol error found before anything is allocated and before any of the payload is
  read; a stream that ends inside a frame, before or after its length, gives the I/O error of the
  short read; a complete payload that does not deserialise is a protocol error that carries the
  reason; and a value is returned only for a complete payload, being what that payload, and no
  other byte, deserialises to. What follows a complete frame is left unread.\<close>

theorem read_frame_bounded:
  "snd (snd (read_frame from_slice input)) \<le> MAX_FRAME_BYTES
   \<and> (if length input < 4 then read_frame from_slice input = (Inl (Io eof_error), [], 0)
      else (let len = unat (from_le (take 4 input) :: u32)
            in if MAX_FRAME_BYTES < len
               then (\<exists>why. read_frame from_slice input = (Inl (Protocol why), drop 4 input, 0))
               else if length input < 4 + len
               then read_frame from_slice input = (Inl (Io eof_error), [], len)
               else (case from_slice (take len (drop 4 input)) of
                       Inl why \<Rightarrow> read_frame from_slice input
                         = (Inl (Protocol (''could not deserialise frame: '' @ why)), drop (4 + len) input, len)
                     | Inr v \<Rightarrow> read_frame from_slice input = (Inr v, drop (4 + len) input, len))))"
  by (auto simp: read_frame_def read_exact_def Let_def add.commute split: sum.splits)

end
