(* ===== verification/Kam_Clock.thy ===== *)
theory Kam_Clock
  imports Kam_Prelude
begin

text \<open>
  Time as text: rendering a Unix time (\<open>crates/kam-core/src/clock.rs\<close>), reading it back
  (\<open>parse_time\<close> of \<open>crates/kam-core/src/attribution.rs\<close>) and the date of
  \<open>crates/kam-virustotal/src/lib.rs\<close>. The signed arithmetic is on \<open>int\<close>; Rust's division
  truncates towards zero and is written out where an operand can be negative.
\<close>

section \<open>Rendering and reading\<close>

text \<open>\<open>a / b\<close> on \<open>i64\<close> for a positive \<open>b\<close>.\<close>

definition trunc_div :: "int \<Rightarrow> int \<Rightarrow> int" where
  "trunc_div a b = (if 0 \<le> a then a div b else - ((- a) div b))"

definition civil_from_days :: "int \<Rightarrow> int \<times> int \<times> int" where
  "civil_from_days days =
     (let z = days + 719468;
          era = trunc_div (if 0 \<le> z then z else z - 146096) 146097;
          day_of_era = z - era * 146097;
          year_of_era = trunc_div (day_of_era - trunc_div day_of_era 1460 + trunc_div day_of_era 36524
             - trunc_div day_of_era 146096) 365;
          year = year_of_era + era * 400;
          day_of_year = day_of_era - (365 * year_of_era + trunc_div year_of_era 4 - trunc_div year_of_era 100);
          mp = trunc_div (5 * day_of_year + 2) 153;
          day = day_of_year - trunc_div (153 * mp + 2) 5 + 1;
          month = (if mp < 10 then mp + 3 else mp - 9)
      in (if month \<le> 2 then year + 1 else year, month, day))"

text \<open>\<open>{n:0w}\<close> for a number that is not negative.\<close>

definition fixed :: "nat \<Rightarrow> int \<Rightarrow> str" where
  "fixed w n = pad0 w (show_nat (nat n))"

definition iso_from_unix_millis :: "u64 \<Rightarrow> str" where
  "iso_from_unix_millis ms =
     (let seconds = int (unat ms) div 1000;
          millis = int (unat ms) mod 1000;
          days = seconds div 86400;
          remainder = seconds mod 86400
      in case civil_from_days days of (year, month, day) \<Rightarrow>
         fixed 4 year @ ''-'' @ fixed 2 month @ ''-'' @ fixed 2 day @ ''T''
         @ fixed 2 (remainder div 3600) @ '':'' @ fixed 2 ((remainder mod 3600) div 60) @ '':''
         @ fixed 2 (remainder mod 60) @ ''.'' @ fixed 3 millis @ ''Z'')"

text \<open>\<open>str::parse::<i64>\<close>: an optional sign and at least one digit.\<close>

definition parse_digits :: "str \<Rightarrow> int option" where
  "parse_digits s = (if s \<noteq> [] \<and> list_all is_digit s then Some (int (read_nat s)) else None)"

definition parse_i64 :: "str \<Rightarrow> int option" where
  "parse_i64 s =
     (case s of
        [] \<Rightarrow> None
      | c # rest \<Rightarrow> if c = CHR ''-'' then map_option uminus (parse_digits rest)
                   else if c = CHR ''+'' then parse_digits rest
                   else parse_digits s)"

definition number_at :: "str \<Rightarrow> nat \<Rightarrow> nat \<Rightarrow> int option" where
  "number_at s a b = Option.bind (get_slice s a b) parse_i64"

definition days_from_civil :: "int \<Rightarrow> int \<Rightarrow> int \<Rightarrow> int" where
  "days_from_civil year month day =
     (let year_adjusted = (if month \<le> 2 then year - 1 else year);
          era = trunc_div (if 0 \<le> year_adjusted then year_adjusted else year_adjusted - 399) 400;
          year_of_era = year_adjusted - era * 400;
          day_of_year = trunc_div (153 * (month + (if month > 2 then - 3 else 9)) + 2) 5 + day - 1;
          day_of_era = year_of_era * 365 + trunc_div year_of_era 4 - trunc_div year_of_era 100 + day_of_year
      in era * 146097 + day_of_era - 719468)"

definition parse_time :: "str \<Rightarrow> int option" where
  "parse_time s =
     (if length s < 19 \<or> s ! 4 \<noteq> CHR ''-'' \<or> s ! 10 \<noteq> CHR ''T'' then None
      else
       (case number_at s 0 4 of None \<Rightarrow> None | Some year \<Rightarrow>
        (case number_at s 5 7 of None \<Rightarrow> None | Some month \<Rightarrow>
        (case number_at s 8 10 of None \<Rightarrow> None | Some day \<Rightarrow>
        (case number_at s 11 13 of None \<Rightarrow> None | Some hour \<Rightarrow>
        (case number_at s 14 16 of None \<Rightarrow> None | Some minute \<Rightarrow>
        (case number_at s 17 19 of None \<Rightarrow> None | Some second \<Rightarrow>
         if \<not> (1 \<le> month \<and> month \<le> 12) \<or> \<not> (1 \<le> day \<and> day \<le> 31) then None
         else Some (days_from_civil year month day * 86400 + hour * 3600 + minute * 60 + second))))))))"

text \<open>The date of a VirusTotal report, with Euclidean division.\<close>

definition vt_civil :: "int \<Rightarrow> int \<times> int \<times> int" where
  "vt_civil epoch_seconds =
     (let days = epoch_seconds div 86400;
          z = days + 719468;
          era = z div 146097;
          doe = z mod 146097;
          yoe = trunc_div (doe - trunc_div doe 1460 + trunc_div doe 36524 - trunc_div doe 146096) 365;
          y = yoe + era * 400;
          doy = doe - (365 * yoe + trunc_div yoe 4 - trunc_div yoe 100);
          mp = trunc_div (5 * doy + 2) 153;
          d = doy - trunc_div (153 * mp + 2) 5 + 1;
          m = (if mp < 10 then mp + 3 else mp - 9)
      in (if m \<le> 2 then y + 1 else y, m, d))"

definition vt_date :: "int \<Rightarrow> str" where
  "vt_date epoch_seconds =
     (case vt_civil epoch_seconds of (y, m, d) \<Rightarrow> fixed 4 y @ ''-'' @ fixed 2 m @ ''-'' @ fixed 2 d)"

section \<open>The calendar\<close>

lemma trunc_div_nonneg [simp]: "0 \<le> a \<Longrightarrow> trunc_div a b = a div b"
  by (simp add: trunc_div_def)

text \<open>The year within a 400-year era, from the day within it.\<close>

definition yoe_of :: "int \<Rightarrow> int" where
  "yoe_of doe = (doe - doe div 1460 + doe div 36524 - doe div 146096) div 365"

definition year_start :: "int \<Rightarrow> int" where
  "year_start y = 365 * y + y div 4 - y div 100"

lemma div_bounds: "0 < b \<Longrightarrow> b * (a div b) \<le> a \<and> a < b * (a div b) + (b :: int)"
  using mult_div_mod_eq [of b a] pos_mod_sign [of b a] pos_mod_bound [of b a] by linarith

lemma year_in_century:
  assumes c: "0 \<le> c" "c \<le> 3" "36524 * c \<le> doe" "doe < 36524 * c + 36524"
    and q: "1460 * q \<le> doe" "doe < 1460 * q + 1460"
    and y: "365 * y \<le> doe - q + c" "doe - q + c < 365 * y + 365"
    and a: "4 * a \<le> y" "y < 4 * a + 4" and b: "100 * b \<le> y" "y < 100 * b + (100 :: int)"
  shows "365 * y + a - b \<le> doe \<and> doe \<le> 365 * y + a - b + 365 \<and> 0 \<le> y \<and> y \<le> 399"
proof -
  have qc: "25 * c \<le> q" "q \<le> 25 * c + 25" using c q by linarith+
  have y1: "100 * c \<le> y" "y < 100 * c + 100" using c q y by linarith+
  then have bc: "b = c" using b by linarith
  have aq: "a \<le> q" using q y a qc c by linarith
  have qa: "q \<le> a + 1"
  proof (rule ccontr)
    assume "\<not> q \<le> a + 1"
    then have "a + 2 \<le> q" by simp
    then show False using q y a qc c by linarith
  qed
  show ?thesis using bc aq qa y y1 c by linarith
qed

lemma yoe_bounds:
  assumes "0 \<le> doe" and "doe \<le> 146096"
  shows "0 \<le> yoe_of doe \<and> yoe_of doe \<le> 399 \<and> year_start (yoe_of doe) \<le> doe
    \<and> doe \<le> year_start (yoe_of doe) + 365"
proof (cases "doe = 146096")
  case True
  then show ?thesis by (simp add: yoe_of_def year_start_def)
next
  case False
  let ?c = "doe div 36524" and ?q = "doe div 1460" and ?y = "yoe_of doe"
  have z: "doe div 146096 = 0" using assms False by simp
  have c: "36524 * ?c \<le> doe" "doe < 36524 * ?c + 36524" using div_bounds [of 36524 doe] by simp_all
  have q: "1460 * ?q \<le> doe" "doe < 1460 * ?q + 1460" using div_bounds [of 1460 doe] by simp_all
  have y: "365 * ?y \<le> doe - ?q + ?c" "doe - ?q + ?c < 365 * ?y + 365"
    using div_bounds [of 365 "doe - ?q + ?c"] by (simp_all add: yoe_of_def z)
  have a: "4 * (?y div 4) \<le> ?y" "?y < 4 * (?y div 4) + 4" using div_bounds [of 4 ?y] by simp_all
  have b: "100 * (?y div 100) \<le> ?y" "?y < 100 * (?y div 100) + 100" using div_bounds [of 100 ?y] by simp_all
  have c0: "0 \<le> ?c" "?c \<le> 3" using assms False c by linarith+
  show ?thesis using year_in_century [OF c0 c q y a b] by (simp add: year_start_def)
qed

lemma month_bounds:
  assumes "0 \<le> doy" and "doy \<le> (365 :: int)"
  shows "0 \<le> (5 * doy + 2) div 153 \<and> (5 * doy + 2) div 153 \<le> 11
    \<and> 0 \<le> doy - (153 * ((5 * doy + 2) div 153) + 2) div 5
    \<and> doy - (153 * ((5 * doy + 2) div 153) + 2) div 5 \<le> 30"
proof -
  let ?m = "(5 * doy + 2) div 153"
  have m: "153 * ?m \<le> 5 * doy + 2" "5 * doy + 2 < 153 * ?m + 153" using div_bounds [of 153 "5 * doy + 2"] by simp_all
  have e: "5 * ((153 * ?m + 2) div 5) \<le> 153 * ?m + 2" "153 * ?m + 2 < 5 * ((153 * ?m + 2) div 5) + 5"
    using div_bounds [of 5 "153 * ?m + 2"] by simp_all
  show ?thesis using assms m e by linarith
qed

text \<open>The pieces of a rendered date, and that reading undoes rendering.\<close>

lemma civil_from_days_pieces:
  assumes "0 \<le> days"
  shows "\<exists>era yoe doy mp e. civil_from_days days =
      (if (if mp < 10 then mp + 3 else mp - 9) \<le> 2 then yoe + era * 400 + 1 else yoe + era * 400,
       if mp < 10 then mp + 3 else mp - 9, doy - e + 1)
    \<and> 0 \<le> era \<and> 0 \<le> yoe \<and> yoe \<le> 399 \<and> 0 \<le> doy \<and> doy \<le> 365 \<and> 0 \<le> mp \<and> mp \<le> 11
    \<and> 153 * mp \<le> 5 * doy + 2 \<and> e = (153 * mp + 2) div 5 \<and> 0 \<le> doy - e \<and> doy - e \<le> 30
    \<and> days + 719468 = era * 146097 + year_start yoe + doy"
proof -
  define z where "z = days + 719468"
  define era where "era = z div 146097"
  define doe where "doe = z mod 146097"
  define yoe where "yoe = yoe_of doe"
  define doy where "doy = doe - year_start yoe"
  define mp where "mp = (5 * doy + 2) div 153"
  define e where "e = (153 * mp + 2) div 5"
  have z: "0 \<le> z" using assms by (simp add: z_def)
  have era0: "0 \<le> era" unfolding era_def using z by (simp only: pos_imp_zdiv_nonneg_iff zero_less_numeral)
  have doe: "0 \<le> doe" "doe \<le> 146096" unfolding doe_def
    using pos_mod_sign [of 146097 z] pos_mod_bound [of 146097 z] by linarith+
  have split: "z - era * 146097 = doe" unfolding era_def doe_def by (rule minus_div_mult_eq_mod)
  have y: "0 \<le> yoe" "yoe \<le> 399" "0 \<le> doy" "doy \<le> 365"
    using yoe_bounds [OF doe] by (simp_all add: yoe_def doy_def)
  have mb: "0 \<le> mp" "mp \<le> 11" "0 \<le> doy - e" "doy - e \<le> 30"
    using month_bounds [OF y(3,4)] unfolding mp_def e_def by blast+
  have mp5: "153 * mp \<le> 5 * doy + 2" unfolding mp_def using div_bounds [of 153 "5 * doy + 2"] by linarith
  have num: "0 \<le> doe - doe div 1460 + doe div 36524 - doe div 146096"
    using doe div_bounds [of 1460 doe] div_bounds [of 36524 doe] div_bounds [of 146096 doe] by linarith
  have e1: "trunc_div (if 0 \<le> z then z else z - 146096) 146097 = era"
    using z by (simp only: if_True trunc_div_nonneg era_def)
  have e3: "trunc_div (doe - trunc_div doe 1460 + trunc_div doe 36524 - trunc_div doe 146096) 365 = yoe"
    unfolding yoe_def yoe_of_def using num by (simp only: trunc_div_nonneg doe)
  have e4: "doe - (365 * yoe + trunc_div yoe 4 - trunc_div yoe 100) = doy"
    unfolding doy_def year_start_def using y(1) by (simp only: trunc_div_nonneg)
  have "0 \<le> 5 * doy + 2" "0 \<le> 153 * mp + 2" using y(3) mb(1) by linarith+
  then have e5: "trunc_div (5 * doy + 2) 153 = mp" and e6: "trunc_div (153 * mp + 2) 5 = e"
    by (simp_all only: trunc_div_nonneg mp_def e_def)
  have "civil_from_days days =
      (if (if mp < 10 then mp + 3 else mp - 9) \<le> 2 then yoe + era * 400 + 1 else yoe + era * 400,
       if mp < 10 then mp + 3 else mp - 9, doy - e + 1)"
    unfolding civil_from_days_def Let_def z_def [symmetric] e1 split e3 e4 e5 e6 by (rule refl)
  moreover have "days + 719468 = era * 146097 + year_start yoe + doy"
    using split unfolding z_def [symmetric] doy_def by linarith
  ultimately show ?thesis using era0 y mb mp5 e_def by blast
qed

lemma days_roundtrip:
  assumes "0 \<le> days" and "civil_from_days days = (year, month, day)"
  shows "days_from_civil year month day = days \<and> 1 \<le> month \<and> month \<le> 12 \<and> 1 \<le> day \<and> day \<le> 31
    \<and> 0 \<le> year \<and> (days < 2932897 \<longrightarrow> year \<le> 9999)"
proof -
  obtain era yoe doy mp e where p: "civil_from_days days =
      (if (if mp < 10 then mp + 3 else mp - 9) \<le> 2 then yoe + era * 400 + 1 else yoe + era * 400,
       if mp < 10 then mp + 3 else mp - 9, doy - e + 1)"
    and b: "0 \<le> era" "0 \<le> yoe" "yoe \<le> 399" "0 \<le> doy" "doy \<le> 365" "0 \<le> mp" "mp \<le> 11"
      "153 * mp \<le> 5 * doy + 2" "e = (153 * mp + 2) div 5" "0 \<le> doy - e" "doy - e \<le> 30"
    and z: "days + 719468 = era * 146097 + year_start yoe + doy"
    using civil_from_days_pieces [OF assms(1)] by blast
  have month: "month = (if mp < 10 then mp + 3 else mp - 9)" and day: "day = doy - e + 1"
    and year: "year = (if month \<le> 2 then yoe + era * 400 + 1 else yoe + era * 400)"
    using p assms(2) by simp_all
  have m1: "1 \<le> month" "month \<le> 12" using month b(6,7) by auto
  have adj: "(if month \<le> 2 then year - 1 else year) = yoe + era * 400" using year by simp
  have adj0: "0 \<le> yoe + era * 400" using b(1,2) by simp
  have era: "(yoe + era * 400) div 400 = era" using b(2,3) by simp
  have mp: "month + (if month > 2 then - 3 else 9) = mp" using month b(6,7) by auto
  have e0: "trunc_div (153 * mp + 2) 5 = e" using b(6,9) by simp
  have "days_from_civil year month day =
      era * 146097 + (yoe * 365 + yoe div 4 - yoe div 100 + (e + day - 1)) - 719468"
    unfolding days_from_civil_def Let_def adj mp e0 using adj0 era b(2) by simp
  then have back_again: "days_from_civil year month day = days" using z day by (simp add: year_start_def)
  have start: "365 * yoe \<le> year_start yoe" "yoe = 399 \<Longrightarrow> year_start yoe = 145731"
    using b(2) by (simp_all add: year_start_def zdiv_mono2)
  have "year \<le> 9999" if "days < 2932897"
  proof (cases "month \<le> 2")
    case False
    have "era \<le> 24" using z that start(1) b(2,4) by linarith
    then show ?thesis using False year b(3) by auto
  next
    case True
    then have "10 \<le> mp" using month b(6,7) by (auto split: if_splits)
    then have "306 \<le> doy" using b(8) by linarith
    then have "era < 24 \<or> yoe < 399"
      using z that start b(1-4) by (cases "yoe = 399") auto
    moreover have "era \<le> 24" using z that start(1) b(2,4) by linarith
    ultimately show ?thesis using True year b(3) by auto
  qed
  with back_again m1 day b year show ?thesis by auto
qed

section \<open>The text\<close>

lemma length_fixed: "0 < w \<Longrightarrow> 0 \<le> n \<Longrightarrow> n < 10 ^ w \<Longrightarrow> length (fixed w n) = w"
  unfolding fixed_def by (intro length_pad0_show) (simp_all add: nat_less_iff)

lemma parse_fixed: "0 < w \<Longrightarrow> 0 \<le> n \<Longrightarrow> n < 10 ^ w \<Longrightarrow> parse_i64 (fixed w n) = Some n"
proof -
  assume w: "0 < w" "0 \<le> n" "n < 10 ^ w"
  have d: "list_all is_digit (fixed w n)" unfolding fixed_def list_all_iff using pad0_digits by blast
  have ne: "fixed w n \<noteq> []" using length_fixed [OF w] w(1) by auto
  then have "parse_i64 (fixed w n) = parse_digits (fixed w n)"
    using d by (cases "fixed w n") (auto simp: parse_i64_def is_digit_def)
  then show ?thesis using d ne w(2) by (simp add: parse_digits_def fixed_def)
qed

lemma slices:
  fixes rest :: str
  assumes "length a = 4" "length b = 2" "length c = 2" "length d = 2" "length e = 2" "length f = 2"
  defines "s \<equiv> a @ ''-'' @ b @ ''-'' @ c @ ''T'' @ d @ '':'' @ e @ '':'' @ f @ rest"
  shows "get_slice s 0 4 = Some a" "get_slice s 5 7 = Some b" "get_slice s 8 10 = Some c"
    "get_slice s 11 13 = Some d" "get_slice s 14 16 = Some e" "get_slice s 17 19 = Some f"
    "\<not> length s < 19" "s ! 4 = CHR ''-''" "s ! 10 = CHR ''T''"
  using assms by (simp_all add: get_slice_def nth_append)

text \<open>A time this software writes reads back as the same second. For every Unix time in
  milliseconds before the year 10000, \<open>parse_time\<close> accepts the rendered text and gives the whole
  seconds of that time: the calendar arithmetic of the two functions is inverse on every day.\<close>

theorem parse_time_iso:
  assumes "unat ms < 253402300800000"
  shows "parse_time (iso_from_unix_millis ms) = Some (int (unat ms) div 1000)"
proof -
  define n where "n = int (unat ms)"
  define seconds where "seconds = n div 1000"
  define days where "days = seconds div 86400"
  define r where "r = seconds mod 86400"
  have "0 \<le> n" "n < 253402300800000" unfolding n_def using assms by linarith+
  then have sec: "0 \<le> seconds" "seconds < 253402300800"
    using div_bounds [of 1000 n] unfolding seconds_def by linarith+
  have days: "0 \<le> days" "days < 2932897" using sec div_bounds [of 86400 seconds] by (simp_all add: days_def pos_imp_zdiv_nonneg_iff)
  have r: "0 \<le> r" "r < 86400" by (simp_all add: r_def)
  obtain year month day where civil: "civil_from_days days = (year, month, day)" by (cases "civil_from_days days")
  have d: "days_from_civil year month day = days" "1 \<le> month" "month \<le> 12" "1 \<le> day" "day \<le> 31" "0 \<le> year" "year \<le> 9999"
    using days_roundtrip [OF days(1) civil] days(2) by auto
  define h where "h = r div 3600"
  define mi where "mi = r mod 3600 div 60"
  define se where "se = r mod 60"
  have h: "0 \<le> h" "h < 24" using r div_bounds [of 3600 r] by (simp_all add: h_def pos_imp_zdiv_nonneg_iff)
  have mi: "0 \<le> mi" "mi < 60" using pos_mod_bound [of 3600 r] div_bounds [of 60 "r mod 3600"]
    by (simp_all add: mi_def pos_imp_zdiv_nonneg_iff)
  have se: "0 \<le> se" "se < 60" by (simp_all add: se_def)
  have whole: "h * 3600 + mi * 60 + se = r"
  proof -
    have "r mod 3600 mod 60 = r mod 60" by (rule mod_mod_cancel) simp
    then show ?thesis
      using div_mult_mod_eq [of r 3600] div_mult_mod_eq [of "r mod 3600" 60]
      unfolding h_def mi_def se_def by linarith
  qed
  have iso: "iso_from_unix_millis ms = fixed 4 year @ ''-'' @ fixed 2 month @ ''-'' @ fixed 2 day @ ''T''
      @ fixed 2 h @ '':'' @ fixed 2 mi @ '':'' @ fixed 2 se @ (''.'' @ fixed 3 (n mod 1000) @ ''Z'')"
    unfolding iso_from_unix_millis_def Let_def n_def [symmetric] seconds_def [symmetric] days_def [symmetric] r_def [symmetric]
      h_def [symmetric] mi_def [symmetric] se_def [symmetric] civil by simp
  have len: "length (fixed 4 year) = 4" "length (fixed 2 month) = 2" "length (fixed 2 day) = 2" "length (fixed 2 h) = 2"
      "length (fixed 2 mi) = 2" "length (fixed 2 se) = 2"
    using d h mi se by (simp_all add: length_fixed)
  have num: "parse_i64 (fixed 4 year) = Some year" "parse_i64 (fixed 2 month) = Some month" "parse_i64 (fixed 2 day) = Some day"
      "parse_i64 (fixed 2 h) = Some h" "parse_i64 (fixed 2 mi) = Some mi" "parse_i64 (fixed 2 se) = Some se"
    using d h mi se by (simp_all add: parse_fixed)
  have "parse_time (iso_from_unix_millis ms) = Some (days * 86400 + h * 3600 + mi * 60 + se)"
    unfolding parse_time_def number_at_def iso slices [OF len] using d(2-5) by (simp add: num d(1) len)
  also have "days * 86400 + h * 3600 + mi * 60 + se = seconds"
    using whole div_mult_mod_eq [of seconds 86400] unfolding days_def r_def by linarith
  finally show ?thesis unfolding seconds_def n_def .
qed

theorem parse_time_iso_witness: "parse_time (iso_from_unix_millis 1788703922417) = Some 1788703922"
  using parse_time_iso [of 1788703922417] by simp

text \<open>The two calendars of the code agree: for every time from the epoch on, the date of a
  VirusTotal report is the date the clock renders for that day.\<close>

theorem vt_date_is_clock_date:
  assumes "0 \<le> seconds"
  shows "vt_civil seconds = civil_from_days (seconds div 86400)"
proof -
  define z where "z = seconds div 86400 + 719468"
  have "0 \<le> seconds div 86400" using assms by (simp only: pos_imp_zdiv_nonneg_iff zero_less_numeral)
  then have z: "0 \<le> z" unfolding z_def by linarith
  have e1: "trunc_div (if 0 \<le> z then z else z - 146096) 146097 = z div 146097"
    using z by (simp only: if_True trunc_div_nonneg)
  have e2: "z - z div 146097 * 146097 = z mod 146097" by (rule minus_div_mult_eq_mod)
  show ?thesis
    unfolding vt_civil_def civil_from_days_def Let_def z_def [symmetric] e1 e2 by (rule refl)
qed

theorem vt_date_is_clock_date_witness: "vt_civil 1709164800 = civil_from_days 19782"
  using vt_date_is_clock_date [of 1709164800] by simp

end
