(* ===== verification/Kam_Attribution.thy ===== *)
theory Kam_Attribution
  imports Kam_Changes Kam_Clock
begin

text \<open>
  Saying which changes this software caused, \<open>crates/kam-core/src/attribution.rs\<close>: the changes
  that may never be explained away, and the audit entry that explains one of the others.
  Lower-casing is the argument \<open>lower\<close>.
\<close>

definition WINDOW_SECONDS :: int where "WINDOW_SECONDS = 15 * 60"

record attribution =
  at_action :: str
  at_at :: str
  at_reported :: str

definition PROTECTIVE :: "str list" where
  "PROTECTIVE = [''defender'', ''antivirus'', ''anti-virus'', ''security'', ''firewall'', ''backup'', ''wuauserv'',
     ''windowsupdate'', ''sense'', ''wdnissvc'', ''wdfilter'', ''wdboot'', ''mpssvc'', ''vss'', ''sophos'', ''mcafee'',
     ''norton'', ''kaspersky'', ''bitdefender'', ''eset'', ''malwarebytes'', ''crowdstrike'', ''sentinel'']"

definition is_protective :: "str \<Rightarrow> bool" where
  "is_protective nm \<longleftrightarrow> list_ex (\<lambda>word. contains nm word) PROTECTIVE"

definition never_attributable :: "(str \<Rightarrow> str) \<Rightarrow> difference \<Rightarrow> str option" where
  "never_attributable lower d =
     (let nm = lower (d_name d); detail = lower (d_detail d)
      in if d_kind d = ''service'' \<and> contains nm ''kamsecurity'' \<and> d_change d = Vanished
         then Some ''this is KAM Security's own service, and it is gone''
         else if (contains detail ''kam-agent.exe'' \<or> contains detail ''kam-shell.exe'') \<and> d_change d = Altered
         then Some ''this points at KAM Security's own program, and it has changed''
         else if (contains detail ''kam-agent.exe'' \<or> contains detail ''kam-shell.exe'') \<and> d_change d = Vanished
         then Some ''this pointed at KAM Security's own program, and it is gone''
         else if d_kind d = ''administrator''
         then Some ''who can administer this machine is never explained away''
         else if (d_change d = Vanished \<or> d_change d = Altered) \<and> is_protective nm
         then Some ''a protective thing changed, which is shown whoever caused it''
         else None)"

definition moves_things :: "str \<Rightarrow> bool" where
  "moves_things act \<longleftrightarrow> act = ''take'' \<or> act = ''take_copy'' \<or> act = ''delete'' \<or> act = ''recycle''
     \<or> act = ''move_file'' \<or> act = ''undo_move''"

text \<open>How far apart in time, when the entry's time reads and is inside the window.\<close>

definition within_window :: "int \<Rightarrow> audit_record \<Rightarrow> (int \<times> audit_record) option" where
  "within_window noticed r =
     (case parse_time (rec_at r) of
        None \<Rightarrow> None
      | Some w \<Rightarrow> if \<bar>noticed - w\<bar> \<le> WINDOW_SECONDS then Some (\<bar>noticed - w\<bar>, r) else None)"

text \<open>\<open>Iterator::min_by_key\<close>: the first of the smallest.\<close>

fun min_by_fst :: "(int \<times> 'a) list \<Rightarrow> (int \<times> 'a) option" where
  "min_by_fst [] = None"
| "min_by_fst (x # xs) =
     (case min_by_fst xs of None \<Rightarrow> Some x | Some y \<Rightarrow> if fst y < fst x then Some y else Some x)"

definition qualifying :: "(str \<Rightarrow> str) \<Rightarrow> str \<Rightarrow> int \<Rightarrow> audit_record list \<Rightarrow> (int \<times> audit_record) list" where
  "qualifying lower target noticed log =
     List.map_filter (within_window noticed)
       (filter (\<lambda>r. contains (lower (rec_detail r)) target) (filter (\<lambda>r. moves_things (rec_action r)) log))"

definition explain :: "(str \<Rightarrow> str) \<Rightarrow> difference \<Rightarrow> audit_record list \<Rightarrow> attribution option" where
  "explain lower d log =
     (if never_attributable lower d \<noteq> None then None
      else (let target = lower (d_detail d)
            in if target = [] then None
               else (case parse_time (d_at d) of
                       None \<Rightarrow> None
                     | Some noticed \<Rightarrow>
                         map_option (\<lambda>(apart, r). \<lparr>at_action = rec_module r @ '' / '' @ rec_action r, at_at = rec_at r,
                             at_reported = rec_detail r\<rparr>)
                           (min_by_fst (qualifying lower target noticed log)))))"

section \<open>What an attribution rests on\<close>

lemma min_by_fst_None: "min_by_fst xs = None \<longleftrightarrow> xs = []"
  by (cases xs) (auto split: option.splits)

lemma min_by_fst_Some: "min_by_fst xs = Some y \<Longrightarrow> y \<in> set xs \<and> (\<forall>x \<in> set xs. fst y \<le> fst x)"
  by (induction xs arbitrary: y) (fastforce split: option.splits if_splits simp: min_by_fst_None)+

lemma in_map_filter: "y \<in> set (List.map_filter f xs) \<longleftrightarrow> (\<exists>x \<in> set xs. f x = Some y)"
  by (induction xs) (auto simp: List.map_filter_def split: option.splits)

lemma qualifying_iff:
  "(apart, r) \<in> set (qualifying lower target noticed log) \<longleftrightarrow>
     r \<in> set log \<and> moves_things (rec_action r) \<and> contains (lower (rec_detail r)) target
     \<and> (\<exists>w. parse_time (rec_at r) = Some w \<and> apart = \<bar>noticed - w\<bar> \<and> \<bar>noticed - w\<bar> \<le> WINDOW_SECONDS)"
  by (auto simp: qualifying_def in_map_filter within_window_def split: option.splits if_splits)

text \<open>An attribution is tight. A change is explained only when none of the rules forbids it, and
  then only by an entry of the log whose action moves things, whose text holds the changed target,
  and whose time is within fifteen minutes; no other such entry is closer in time. And when such
  an entry exists for a change that may be explained, it is explained.\<close>

theorem explain_tight:
  assumes "lower (d_detail d) \<noteq> []" and "parse_time (d_at d) = Some noticed"
  shows "(\<forall>a. explain lower d log = Some a \<longrightarrow> never_attributable lower d = None
        \<and> (\<exists>r \<in> set log. \<exists>w. a = \<lparr>at_action = rec_module r @ '' / '' @ rec_action r, at_at = rec_at r,
              at_reported = rec_detail r\<rparr>
            \<and> moves_things (rec_action r) \<and> contains (lower (rec_detail r)) (lower (d_detail d))
            \<and> parse_time (rec_at r) = Some w \<and> \<bar>noticed - w\<bar> \<le> WINDOW_SECONDS
            \<and> (\<forall>x \<in> set (qualifying lower (lower (d_detail d)) noticed log). \<bar>noticed - w\<bar> \<le> fst x)))
    \<and> (never_attributable lower d = None \<and> qualifying lower (lower (d_detail d)) noticed log \<noteq> [] \<longrightarrow>
         explain lower d log \<noteq> None)"
proof (intro conjI allI impI)
  fix a assume e: "explain lower d log = Some a"
  then show "never_attributable lower d = None" by (auto simp: explain_def split: if_splits)
  obtain apart r where m: "min_by_fst (qualifying lower (lower (d_detail d)) noticed log) = Some (apart, r)"
      and a: "a = \<lparr>at_action = rec_module r @ '' / '' @ rec_action r, at_at = rec_at r, at_reported = rec_detail r\<rparr>"
    using e assms by (auto simp: explain_def Let_def split: if_splits)
  from min_by_fst_Some [OF m] have mem: "(apart, r) \<in> set (qualifying lower (lower (d_detail d)) noticed log)"
    and least: "\<forall>x \<in> set (qualifying lower (lower (d_detail d)) noticed log). apart \<le> fst x" by auto
  from mem obtain w where "r \<in> set log" "moves_things (rec_action r)" "contains (lower (rec_detail r)) (lower (d_detail d))"
      "parse_time (rec_at r) = Some w" "apart = \<bar>noticed - w\<bar>" "\<bar>noticed - w\<bar> \<le> WINDOW_SECONDS"
    by (auto simp: qualifying_iff)
  then show "\<exists>r \<in> set log. \<exists>w. a = \<lparr>at_action = rec_module r @ '' / '' @ rec_action r, at_at = rec_at r,
              at_reported = rec_detail r\<rparr>
            \<and> moves_things (rec_action r) \<and> contains (lower (rec_detail r)) (lower (d_detail d))
            \<and> parse_time (rec_at r) = Some w \<and> \<bar>noticed - w\<bar> \<le> WINDOW_SECONDS
            \<and> (\<forall>x \<in> set (qualifying lower (lower (d_detail d)) noticed log). \<bar>noticed - w\<bar> \<le> fst x)"
    using a least by blast
next
  assume "never_attributable lower d = None \<and> qualifying lower (lower (d_detail d)) noticed log \<noteq> []"
  then show "explain lower d log \<noteq> None"
    using assms min_by_fst_None [of "qualifying lower (lower (d_detail d)) noticed log"]
    by (auto simp: explain_def Let_def)
qed

definition gone_app :: difference where
  "gone_app = \<lparr>d_at = ''2026-09-10T12:00:00.000Z'', d_change = Vanished, d_kind = ''run_key'', d_scope = ''machine'',
     d_name = ''someapp'', d_detail = ''c:/app.exe'', d_first_seen = [], d_last_seen = [], d_times_seen = 1,
     d_trust = [], d_was_trusted = None\<rparr>"

definition took_app :: audit_record where
  "took_app = \<lparr>rec_id = 1, rec_at = ''2026-09-10T11:59:00.000Z'', rec_module = ''quarantine'', rec_action = ''take'',
     rec_effect = Changed, rec_detail = ''moved c:/app.exe.bak'', rec_undo_token = None\<rparr>"

lemma sample_times:
  "parse_time ''2026-09-10T12:00:00.000Z'' = Some 1789041600" "parse_time ''2026-09-10T11:59:00.000Z'' = Some 1789041540"
  by (simp_all add: parse_time_def number_at_def get_slice_def parse_i64_def parse_digits_def is_digit_def
      read_nat_def digit_val_def days_from_civil_def trunc_div_def)

lemma sublist_here: "contains (a @ s @ b) s"
  by (auto simp: contains_def)

lemma gone_app_free: "never_attributable ascii_lower gone_app = None"
  by (simp add: never_attributable_def gone_app_def contains_def is_protective_def PROTECTIVE_def ascii_lower_def
      ascii_lower_char_def sublist_code)

lemma took_app_qualifies:
  "qualifying ascii_lower (ascii_lower (d_detail gone_app)) 1789041600 [took_app] = [(60, took_app)]"
  by (simp add: qualifying_def took_app_def gone_app_def moves_things_def contains_def sublist_code ascii_lower_def
      ascii_lower_char_def List.map_filter_def within_window_def sample_times WINDOW_SECONDS_def)

text \<open>The entry names \<open>c:/app.exe.bak\<close>, and explains that \<open>c:/app.exe\<close> is gone: a substring is enough.\<close>

theorem explain_tight_witness:
  "explain ascii_lower gone_app [took_app] \<noteq> None"
proof -
  have "ascii_lower (d_detail gone_app) \<noteq> []" "parse_time (d_at gone_app) = Some 1789041600"
    by (simp_all add: gone_app_def ascii_lower_def sample_times)
  with explain_tight [of ascii_lower gone_app 1789041600 "[took_app]"] show ?thesis
    by (simp add: gone_app_free took_app_qualifies)
qed

text \<open>A substring of the recorded text is enough to explain a change, so an action on another file whose
  path extends the target's does.\<close>

lemma explained_by_longer_path:
  "explain ascii_lower gone_app [took_app] =
     Some \<lparr>at_action = ''quarantine / take'', at_at = ''2026-09-10T11:59:00.000Z'', at_reported = ''moved c:/app.exe.bak''\<rparr>"
proof -
  have "ascii_lower (d_detail gone_app) \<noteq> []" "parse_time (d_at gone_app) = Some 1789041600"
    by (simp_all add: gone_app_def ascii_lower_def sample_times)
  then show ?thesis
    by (simp add: explain_def Let_def gone_app_free took_app_qualifies) (simp add: took_app_def)
qed

end
