(* ===== verification/Kam_Trust.thy ===== *)
theory Kam_Trust
  imports Kam_Prelude
begin

text \<open>
  Whether the agent's own directory can be trusted, \<open>crates/kam-agent/src/trust.rs\<close>. A security
  descriptor as Windows hands it out is the argument: the owner, and the access control list or
  its absence, each entry with its type, its mask and its rendered SID where those can be read.
\<close>

unbundle bit_operations_syntax

section \<open>The check\<close>

definition DANGEROUS :: u32 where
  "DANGEROUS = 0x00000002 OR 0x00000004 OR 0x00000040 OR 0x00010000 OR 0x00040000 OR 0x00080000
     OR 0x10000000 OR 0x40000000"

definition OWNER_RIGHTS :: str where "OWNER_RIGHTS = ''S-1-3-4''"

definition is_expected :: "str \<Rightarrow> bool" where
  "is_expected sid \<longleftrightarrow> sid = ''S-1-5-18'' \<or> sid = ''S-1-5-32-544'' \<or> sid = ''S-1-3-0''
     \<or> sid = ''S-1-5-80-956008885-3418522649-1831038044-1853292631-2271478464''"

text \<open>One entry of the list; \<open>None\<close> stands for one that \<open>GetAce\<close> does not give.\<close>

record ace =
  ace_type :: nat
  ace_mask :: u32
  ace_sid :: "str option"

record security =
  sec_owner :: "str option"
  sec_dacl :: "ace option list option"

record ace_state =
  found :: "str list"
  owner_rights_listed :: bool

definition add_once :: "str list \<Rightarrow> str \<Rightarrow> str list" where
  "add_once xs sid = (if \<not> is_expected sid \<and> sid \<notin> set xs then xs @ [sid] else xs)"

definition judge_ace :: "ace_state \<Rightarrow> ace option \<Rightarrow> ace_state" where
  "judge_ace st item =
     (case item of
        None \<Rightarrow> st
      | Some entry \<Rightarrow>
          if 1 < ace_type entry then st
          else (case ace_sid entry of
                  None \<Rightarrow> st
                | Some sid \<Rightarrow>
                  (let st = (if sid = OWNER_RIGHTS then st\<lparr>owner_rights_listed := True\<rparr> else st)
                   in if ace_type entry \<noteq> 0 \<or> ace_mask entry AND DANGEROUS = 0 then st
                      else st\<lparr>found := add_once (found st) sid\<rparr>)))"

definition NO_LIST :: str where
  "NO_LIST = ''Everyone (this folder has no access control list at all)''"

definition writers_of :: "str \<Rightarrow> (str + security) \<Rightarrow> kam_error + str list" where
  "writers_of path descriptor =
     (case descriptor of
        Inl e \<Rightarrow> Inl (Privileged (''could not read the access control list of '' @ path @ '': '' @ e))
      | Inr sec \<Rightarrow>
        (case sec_dacl sec of
           None \<Rightarrow> Inr [NO_LIST]
         | Some aces \<Rightarrow>
           (let st = foldl judge_ace \<lparr>found = [], owner_rights_listed = False\<rparr> aces
            in Inr (if owner_rights_listed st then found st
                    else (case sec_owner sec of
                            None \<Rightarrow> found st
                          | Some owner_sid \<Rightarrow> add_once (found st) owner_sid)))))"

definition describe :: "str \<Rightarrow> str" where
  "describe sid =
     (if sid = ''S-1-1-0'' then ''Everyone''
      else if sid = ''S-1-5-11'' then ''Authenticated Users (every account that can sign in)''
      else if sid = ''S-1-5-32-545'' then ''Users (every ordinary account on this machine)''
      else if sid = ''S-1-5-32-547'' then ''Power Users''
      else if sid = ''S-1-5-4'' then ''Interactive (anyone signed in at the keyboard)''
      else sid)"

text \<open>The explanation that follows the names; the dash is the three bytes of its UTF-8 form.\<close>

definition WHAT_TO_DO :: str where
  "WHAT_TO_DO = [CHR 0x0A, CHR 0x0A]
     @ ''The agent serves any program that sits in its own directory, so a folder ''
     @ ''other people can write to is a folder where anyone can drop a program that ''
     @ ''drives this service as LocalSystem '' @ em_dash @ '' or replace the agent itself. That ''
     @ ''includes the account that owns the folder: Windows lets an owner change who ''
     @ ''may write whenever it likes.'' @ [CHR 0x0A, CHR 0x0A]
     @ ''Run setup.ps1, which secures the folder and hands it to Administrators, or ''
     @ ''move the whole folder somewhere only administrators can write, such as ''
     @ ''C:'' @ [CHR 0x5C] @ ''Program Files'' @ [CHR 0x5C] @ ''KAM Security, and install from there.''"

definition check_install_directory :: "str \<Rightarrow> (str + security) \<Rightarrow> kam_error + unit" where
  "check_install_directory path descriptor =
     (case writers_of path descriptor of
        Inl e \<Rightarrow> Inl e
      | Inr writers \<Rightarrow>
          if writers = [] then Inr ()
          else Inl (Refused (path @ '' can be written to by: '' @ join_with '', '' (map describe writers) @ ''.'' @ WHAT_TO_DO)))"

section \<open>What a passed check means\<close>

definition grants_replacing :: "ace option \<Rightarrow> str \<Rightarrow> bool" where
  "grants_replacing item sid \<longleftrightarrow>
     (case item of Some entry \<Rightarrow> ace_type entry = 0 \<and> ace_sid entry = Some sid \<and> ace_mask entry AND DANGEROUS \<noteq> 0
      | None \<Rightarrow> False)"

definition lists_owner_rights :: "ace option \<Rightarrow> bool" where
  "lists_owner_rights item \<longleftrightarrow>
     (case item of Some entry \<Rightarrow> ace_type entry \<le> 1 \<and> ace_sid entry = Some OWNER_RIGHTS | None \<Rightarrow> False)"

lemma set_add_once: "set (add_once xs sid) = set xs \<union> (if is_expected sid then {} else {sid})"
  by (auto simp: add_once_def)

lemma judge_ace_found:
  "set (found (judge_ace st item)) = set (found st) \<union> {sid. grants_replacing item sid \<and> \<not> is_expected sid}"
  by (cases item) (auto simp: judge_ace_def grants_replacing_def Let_def set_add_once split: option.splits)

lemma judge_ace_owner: "owner_rights_listed (judge_ace st item) \<longleftrightarrow> owner_rights_listed st \<or> lists_owner_rights item"
  by (cases item) (auto simp: judge_ace_def lists_owner_rights_def Let_def split: option.splits)

lemma judge_all:
  "set (found (foldl judge_ace st aces)) = set (found st) \<union> {sid. \<not> is_expected sid \<and> (\<exists>item \<in> set aces. grants_replacing item sid)}"
  "owner_rights_listed (foldl judge_ace st aces) \<longleftrightarrow> owner_rights_listed st \<or> (\<exists>item \<in> set aces. lists_owner_rights item)"
  by (induction aces arbitrary: st) (auto simp: judge_ace_found judge_ace_owner)

text \<open>The install check passes exactly when nobody unexpected can replace the agent, as far as plain
  entries say. It succeeds if and only if the descriptor could be read, there is an access
  control list, no allow entry with a readable SID grants a dangerous right to an account that is
  not expected to hold it, and the owner is expected, unreadable, or replaced by an
  \<open>OWNER RIGHTS\<close> entry.\<close>

theorem install_check_exact:
  "check_install_directory path descriptor = Inr () \<longleftrightarrow>
     (\<exists>sec aces. descriptor = Inr sec \<and> sec_dacl sec = Some aces
        \<and> (\<forall>item \<in> set aces. \<forall>sid. grants_replacing item sid \<longrightarrow> is_expected sid)
        \<and> ((\<exists>item \<in> set aces. lists_owner_rights item)
            \<or> (case sec_owner sec of None \<Rightarrow> True | Some owner_sid \<Rightarrow> is_expected owner_sid)))"
proof -
  have empty: "found (foldl judge_ace \<lparr>found = [], owner_rights_listed = False\<rparr> aces) = [] \<longleftrightarrow>
      (\<forall>item \<in> set aces. \<forall>sid. grants_replacing item sid \<longrightarrow> is_expected sid)" for aces
    using judge_all(1) [of "\<lparr>found = [], owner_rights_listed = False\<rparr>" aces] by (auto simp flip: set_empty)
  have add: "add_once xs sid = [] \<longleftrightarrow> xs = [] \<and> is_expected sid" for xs sid
    by (auto simp: add_once_def)
  show ?thesis
    by (auto simp: check_install_directory_def writers_of_def Let_def judge_all(2) empty add
        split: sum.splits option.splits if_splits)
qed

definition users_can_write :: security where
  "users_can_write = \<lparr>sec_owner = Some ''S-1-5-32-544'',
     sec_dacl = Some [Some \<lparr>ace_type = 0, ace_mask = 0x1301BF, ace_sid = Some ''S-1-5-11''\<rparr>]\<rparr>"

theorem install_check_exact_witness:
  "check_install_directory ''d'' (Inr users_can_write) \<noteq> Inr ()"
proof -
  have "\<not> is_expected ''S-1-5-11''" by (simp add: is_expected_def)
  moreover have "(0x1301BF :: u32) AND DANGEROUS \<noteq> 0" by (simp add: DANGEROUS_def)
  ultimately show ?thesis
    unfolding install_check_exact by (auto simp: users_can_write_def grants_replacing_def)
qed

end
