(* ===== verification/Kam_Env.thy ===== *)
theory Kam_Env
  imports Kam_Prelude
begin

text \<open>
  Whose data a request concerns and what \<open>%NAME%\<close> means for that person:
  \<open>crates/kam-core/src/user.rs\<close> and \<open>crates/kam-core/src/env.rs\<close>. The process environment is
  a list of names and values; opening registry keys is left to the components that read them.
  Literals are written with forward slashes and turned by \<open>slashes\<close>, which is also
  \<open>replace('/', "\\")\<close> of the sources.
\<close>

definition slashes :: "str \<Rightarrow> str" where
  "slashes s = map (\<lambda>c. if c = CHR ''/'' then CHR 0x5C else c) s"

definition is_backslash :: "char \<Rightarrow> bool" where
  "is_backslash c \<longleftrightarrow> c = CHR 0x5C"

section \<open>The person\<close>

record user_context =
  uc_sid :: "str option"
  uc_profile :: str

definition user_new :: "str option \<Rightarrow> str \<Rightarrow> user_context" where
  "user_new sid profile = \<lparr>uc_sid = sid, uc_profile = trim_end_matches is_backslash profile\<rparr>"

definition user_current :: "str option \<Rightarrow> user_context" where
  "user_current userprofile = user_new None (unwrap_or [] userprofile)"

definition local_app_data :: "user_context \<Rightarrow> str" where
  "local_app_data u = uc_profile u @ slashes ''/AppData/Local''"

definition roaming_app_data :: "user_context \<Rightarrow> str" where
  "roaming_app_data u = uc_profile u @ slashes ''/AppData/Roaming''"

definition user_temp :: "user_context \<Rightarrow> str" where
  "user_temp u = local_app_data u @ slashes ''/Temp''"

definition drive_split :: "user_context \<Rightarrow> (str \<times> str) option" where
  "drive_split u =
     (case uc_profile u of
        a # b # c # rest \<Rightarrow>
          if is_ascii_alphabetic a \<and> b = CHR '':'' \<and> is_backslash c then Some ([a, b], c # rest) else None
      | _ \<Rightarrow> None)"

definition home_drive :: "user_context \<Rightarrow> str option" where
  "home_drive u = map_option fst (drive_split u)"

definition home_path :: "user_context \<Rightarrow> str option" where
  "home_path u = map_option snd (drive_split u)"

definition user_folder :: "user_context \<Rightarrow> str \<Rightarrow> str" where
  "user_folder u nm = uc_profile u @ [CHR 0x5C] @ nm"

text \<open>The hives, the two views of the registry, and where the keys of a person hang.\<close>

datatype hive = HKEY_LOCAL_MACHINE | HKEY_CURRENT_USER | HKEY_USERS

datatype view = Native | Wow6432

definition user_hive :: "user_context \<Rightarrow> hive \<times> str" where
  "user_hive u = (case uc_sid u of None \<Rightarrow> (HKEY_CURRENT_USER, []) | Some sid \<Rightarrow> (HKEY_USERS, sid @ [CHR 0x5C]))"

section \<open>Expansion\<close>

type_synonym environment = "(str \<times> str) list"

definition ascii_upper :: "str \<Rightarrow> str" where
  "ascii_upper s = map to_ascii_uppercase s"

definition env_lookup :: "environment \<Rightarrow> str \<Rightarrow> str option" where
  "env_lookup env nm =
     (if nm = [] then None
      else (case map_of env nm of
              Some v \<Rightarrow> Some v
            | None \<Rightarrow> map_option snd (find (\<lambda>(k, v). ascii_lower k = ascii_lower nm) env)))"

definition per_user :: "user_context \<Rightarrow> str \<Rightarrow> str option" where
  "per_user u nm =
     (case uc_sid u of
        None \<Rightarrow> None
      | Some sid \<Rightarrow>
        (let upper = ascii_upper nm;
             v = (if upper = ''USERPROFILE'' then Some (uc_profile u)
                  else if upper = ''LOCALAPPDATA'' then Some (local_app_data u)
                  else if upper = ''APPDATA'' then Some (roaming_app_data u)
                  else if upper = ''TEMP'' \<or> upper = ''TMP'' then Some (user_temp u)
                  else if upper = ''HOMEDRIVE'' then home_drive u
                  else if upper = ''HOMEPATH'' then home_path u
                  else None)
         in case v of None \<Rightarrow> None | Some w \<Rightarrow> if w = [] then None else Some w))"

function expand_with :: "(str \<Rightarrow> str option) \<Rightarrow> str \<Rightarrow> str" where
  "expand_with get_var rest =
     (case split_once CHR ''%'' rest of
        None \<Rightarrow> rest
      | Some (before, after) \<Rightarrow>
        (case split_once CHR ''%'' after of
           None \<Rightarrow> before @ ''%'' @ after
         | Some (nm, tail) \<Rightarrow>
             before @ (case get_var nm of Some v \<Rightarrow> v | None \<Rightarrow> ''%'' @ nm @ ''%'') @ expand_with get_var tail))"
  by pat_completeness auto
termination
  by (relation "measure (\<lambda>(g, s). length s)") (auto dest!: split_once_Some(1))

declare expand_with.simps [simp del]

definition expand :: "environment \<Rightarrow> str \<Rightarrow> str" where
  "expand env s = expand_with (env_lookup env) s"

definition expand_for :: "environment \<Rightarrow> user_context \<Rightarrow> str \<Rightarrow> str" where
  "expand_for env u s =
     expand_with (\<lambda>nm. case per_user u nm of Some v \<Rightarrow> Some v | None \<Rightarrow> env_lookup env nm) s"

text \<open>\<open>for_sid\<close>, with the profile path the registry records for the account as an argument.\<close>

definition user_for_sid :: "environment \<Rightarrow> str \<Rightarrow> str option \<Rightarrow> user_context option" where
  "user_for_sid env sid recorded =
     (case recorded of
        None \<Rightarrow> None
      | Some p \<Rightarrow> (let profile = expand env p in if profile = [] then None else Some (user_new (Some sid) profile)))"

section \<open>What expansion does\<close>

text \<open>Text with no variable in it, and variables that are not set, stay as written.\<close>

lemma expand_unset: "(\<And>nm. get_var nm = None) \<Longrightarrow> expand_with get_var s = s"
proof (induction get_var s rule: expand_with.induct)
  case (1 get_var rest)
  show ?case
  proof (cases "split_once CHR ''%'' rest")
    case None
    then show ?thesis by (simp add: expand_with.simps)
  next
    case (Some ba)
    obtain before after where ba: "ba = (before, after)" by (cases ba)
    note rest = split_once_Some(1) [OF Some [unfolded ba]]
    show ?thesis
    proof (cases "split_once CHR ''%'' after")
      case None
      with Some ba rest show ?thesis by (simp add: expand_with.simps)
    next
      case inner: (Some nt)
      obtain nm tail where nt: "nt = (nm, tail)" by (cases nt)
      have "expand_with get_var tail = tail"
        by (rule 1(1) [OF Some [unfolded ba] refl inner [unfolded nt] refl 1(2)])
      moreover have "expand_with get_var rest = before @ (''%'' @ nm @ ''%'') @ expand_with get_var tail"
        by (subst expand_with.simps) (simp add: Some ba inner nt 1(2))
      ultimately show ?thesis using split_once_Some(1) [OF inner [unfolded nt]] rest by simp
    qed
  qed
qed

lemma expand_with_cong: "(\<And>nm. f nm = g nm) \<Longrightarrow> expand_with f s = expand_with g s"
  by (rule arg_cong [of f g]) (simp add: fun_eq_iff)

text \<open>The names whose value is the person's, and what it takes for each of them to have one.\<close>

definition is_per_user_name :: "str \<Rightarrow> bool" where
  "is_per_user_name nm \<longleftrightarrow>
     ascii_upper nm \<in> {''USERPROFILE'', ''LOCALAPPDATA'', ''APPDATA'', ''TEMP'', ''TMP'', ''HOMEDRIVE'', ''HOMEPATH''}"

lemma per_user_value:
  assumes "uc_sid u = Some sid" and "drive_split u \<noteq> None" and "is_per_user_name nm"
  shows "\<exists>v. per_user u nm = Some v \<and> v \<noteq> []"
proof -
  obtain d r where s: "drive_split u = Some (d, r)" "d \<noteq> []" "r \<noteq> []" "uc_profile u \<noteq> []"
    using assms(2) by (auto simp: drive_split_def split: list.splits if_splits)
  then show ?thesis
    using assms(1,3)
    by (auto simp: per_user_def Let_def is_per_user_name_def home_drive_def home_path_def local_app_data_def
        roaming_app_data_def user_temp_def)
qed

text \<open>A command stored for a person means what it means for that person. For an identified
  caller with a profile on a lettered drive, expansion does not depend on what the agent's own
  environment says for any of the per-user variables, whatever the case they are written in:
  two environments that agree on every other name expand every text alike.\<close>

theorem expand_for_ignores_own_profile:
  assumes "uc_sid u = Some sid" and "drive_split u \<noteq> None"
    and "\<And>nm. \<not> is_per_user_name nm \<Longrightarrow> env_lookup env nm = env_lookup env' nm"
  shows "expand_for env u s = expand_for env' u s"
  unfolding expand_for_def
proof (rule expand_with_cong)
  fix nm
  show "(case per_user u nm of Some v \<Rightarrow> Some v | None \<Rightarrow> env_lookup env nm)
      = (case per_user u nm of Some v \<Rightarrow> Some v | None \<Rightarrow> env_lookup env' nm)"
    using per_user_value [OF assms(1,2), of nm] assms(3) [of nm] by (cases "is_per_user_name nm") (auto split: option.splits)
qed

definition user_ari :: user_context where
  "user_ari = \<lparr>uc_sid = Some ''S-1-5-21-1'', uc_profile = slashes ''C:/Users/ari''\<rparr>"

theorem expand_for_ignores_own_profile_witness:
  "expand_for [(''TEMP'', ''C:/Windows/TEMP'')] user_ari ''%Temp%/upd.exe'' = expand_for [] user_ari ''%Temp%/upd.exe''"
proof (rule expand_for_ignores_own_profile)
  show "uc_sid user_ari = Some ''S-1-5-21-1''" by (simp add: user_ari_def)
  show "drive_split user_ari \<noteq> None"
    by (simp add: user_ari_def drive_split_def slashes_def is_backslash_def is_ascii_alphabetic_def)
  fix nm assume n: "\<not> is_per_user_name nm"
  have "ascii_upper ''TEMP'' = ''TEMP''" by (simp add: ascii_upper_def to_ascii_uppercase_def)
  moreover have up: "to_ascii_uppercase (ascii_lower_char c) = to_ascii_uppercase c" for c
    by (auto simp: to_ascii_uppercase_def ascii_lower_char_def Let_def of_char_of take_bit_eq_mod)
  then have "ascii_upper (ascii_lower s) = ascii_upper s" for s by (simp add: ascii_upper_def ascii_lower_def)
  ultimately have "ascii_lower ''TEMP'' = ascii_lower nm \<Longrightarrow> ascii_upper nm = ''TEMP''" by metis
  then show "env_lookup [(''TEMP'', ''C:/Windows/TEMP'')] nm = env_lookup [] nm"
    using n by (auto simp: env_lookup_def is_per_user_name_def ascii_upper_def to_ascii_uppercase_def)
qed

end
