(* ===== verification/Kam_Paths.thy ===== *)
theory Kam_Paths
  imports Kam_Env Kam_Files
begin

text \<open>
  What a path points at before anything is judged by it, \<open>crates/kam-storage/src/paths.rs\<close>:
  the plain text form of a path, and the form of the place it resolves to. Lower-casing is the
  argument \<open>lower\<close> and resolution is \<open>canonical\<close> of the file system.
\<close>

text \<open>The rest of a text behind the first of several beginnings that fits.\<close>

fun strip_first :: "str list \<Rightarrow> str \<Rightarrow> str option" where
  "strip_first [] s = None"
| "strip_first (p # ps) s = (case strip_prefix p s of Some rest \<Rightarrow> Some rest | None \<Rightarrow> strip_first ps s)"

definition plain :: "(str \<Rightarrow> str) \<Rightarrow> str \<Rightarrow> str" where
  "plain lower path =
     (let s = slashes path
      in case strip_first [slashes ''//?/UNC/'', slashes ''/??/UNC/''] s of
           Some rest \<Rightarrow> lower (slashes ''//'' @ rest)
         | None \<Rightarrow> lower (unwrap_or s (strip_first [slashes ''//?/'', slashes ''/??/'', slashes ''//./''] s)))"

definition has_relative_step :: "(str \<Rightarrow> str) \<Rightarrow> str \<Rightarrow> bool" where
  "has_relative_step lower path =
     list_ex (\<lambda>part. part = ''..'' \<or> part = ''.'') (split_on is_backslash (plain lower path))"

definition existing_plain :: "(str \<Rightarrow> str) \<Rightarrow> file_system \<Rightarrow> str \<Rightarrow> str option" where
  "existing_plain lower fs path = (case canonical fs path of Inl e \<Rightarrow> None | Inr real \<Rightarrow> Some (plain lower real))"

definition resolved_root :: "(str \<Rightarrow> str) \<Rightarrow> file_system \<Rightarrow> str \<Rightarrow> str option" where
  "resolved_root lower fs rt = existing_plain lower fs (trim_end_matches is_path_separator rt)"

section \<open>Spellings\<close>

lemma slashes_append [simp]: "slashes (a @ b) = slashes a @ slashes b"
  by (simp add: slashes_def)

lemma slashes_idem [simp]: "slashes (slashes s) = slashes s"
  by (simp add: slashes_def)

text \<open>
  The extended-length and object-manager spellings of a path on a drive, and forward slashes,
  all have the plain form of the path itself: none of them is a way past a rule on the text.
\<close>

lemma plain_slashes [simp]: "plain lower (slashes s) = plain lower s"
  by (simp add: plain_def)

lemma plain_spellings:
  assumes "is_ascii_alphabetic c" and "c \<noteq> CHR ''U'' \<or> rest = [] \<or> hd rest \<noteq> CHR ''N''"
  shows "plain lower (slashes ''//?/'' @ c # rest) = plain lower (c # rest)"
    and "plain lower (slashes ''/??/'' @ c # rest) = plain lower (c # rest)"
    and "plain lower (slashes ''//./'' @ c # rest) = plain lower (c # rest)"
proof -
  have c: "c \<noteq> CHR ''/''" "c \<noteq> CHR 0x5C" using assms(1) by (auto simp: is_ascii_alphabetic_def)
  have u: "\<not> (c = CHR ''U'' \<and> prefix (slashes ''NC/'') (slashes rest))"
    using assms(2) by (cases rest) (auto simp: slashes_def split: if_splits)
  show "plain lower (slashes ''//?/'' @ c # rest) = plain lower (c # rest)"
    "plain lower (slashes ''/??/'' @ c # rest) = plain lower (c # rest)"
    "plain lower (slashes ''//./'' @ c # rest) = plain lower (c # rest)"
    using c u by (auto simp: plain_def Let_def strip_prefix_def slashes_def)
qed

end
