(* ===== verification/Kam_Duplicates.thy ===== *)
theory Kam_Duplicates
  imports Kam_Paths "HOL-Library.Product_Lexorder"
begin

text \<open>
  Judging identical files and the fence around removing one,
  \<open>crates/kam-storage/src/duplicates.rs\<close>: who owns a copy, which copy to keep, what a group
  means, and whether the agent may move a copy a client names. Lower-casing is the argument
  \<open>lower\<close>; the registry's list of profiles and the environment are arguments.
\<close>

section \<open>Who owns a copy\<close>

datatype owner = OwnerWindows | OwnerServicing | OwnerProgram | OwnerProgramData | OwnerYours | OwnerDeleted | OwnerElsewhere

fun removable_owner :: "owner \<Rightarrow> bool" where
  "removable_owner OwnerYours = True"
| "removable_owner OwnerDeleted = True"
| "removable_owner _ = False"

fun owner_describes :: "owner \<Rightarrow> str" where
  "owner_describes OwnerWindows = ''one of Windows' own files''"
| "owner_describes OwnerServicing = ''held by Windows servicing or an installer''"
| "owner_describes OwnerProgram = ''inside a program's install folder''"
| "owner_describes OwnerProgramData = ''in a program's data folder''"
| "owner_describes OwnerYours = ''in a folder of yours''"
| "owner_describes OwnerDeleted = ''already in the recycle bin''"
| "owner_describes OwnerElsewhere = ''somewhere this cannot attribute''"

definition PERSONAL :: "str list" where
  "PERSONAL = [''desktop'', ''documents'', ''downloads'', ''music'', ''pictures'', ''videos'', ''saved games'']"

definition SERVICING :: "str list" where
  "SERVICING = map slashes [''/windows/winsxs/'', ''/windows/servicing/'', ''/windows/installer/'',
     ''/windows/softwaredistribution/'', ''/windows/assembly/'', ''/driverstore/'', ''/$patchcache$/'',
     ''/packagecache/'', ''/package cache/'', ''/downloaded installations/'']"

definition PROGRAM :: "str list" where
  "PROGRAM = map slashes [''/program files/'', ''/program files (x86)/'', ''/windowsapps/'', ''/steamapps/'',
     ''/epic games/'', ''/gog galaxy/'', ''/ea games/'', ''/ubisoft/'', ''/battle.net/'', ''/riot games/'']"

definition in_personal :: "str \<Rightarrow> bool" where
  "in_personal folder \<longleftrightarrow> folder \<in> set PERSONAL \<or> prefix ''onedrive'' folder \<or> prefix ''dropbox'' folder
     \<or> prefix ''google drive'' folder"

definition owner_of :: "(str \<Rightarrow> str) \<Rightarrow> user_context \<Rightarrow> str \<Rightarrow> owner" where
  "owner_of lower user path =
     (let lowered = plain lower path
      in if contains lowered (slashes ''/$recycle.bin/'') then OwnerDeleted
         else if list_ex (contains lowered) SERVICING then OwnerServicing
         else if prefix (slashes '':/windows/'') (drop 1 lowered) then OwnerWindows
         else if list_ex (contains lowered) PROGRAM then OwnerProgram
         else
          (let profile = lower (uc_profile user);
               inside = (if profile = [] then None else strip_prefix (profile @ [CHR 0x5C]) lowered);
               first = (case inside of None \<Rightarrow> None | Some rest \<Rightarrow> Some (hd (split_on is_backslash rest)))
           in if (case first of None \<Rightarrow> False | Some t \<Rightarrow> in_personal t) then OwnerYours
              else if first = Some ''appdata'' then OwnerProgramData
              else if contains lowered (slashes ''/appdata/'') \<or> contains lowered (slashes ''/programdata/'')
              then OwnerProgramData
              else OwnerElsewhere))"

section \<open>Judging a group\<close>

record file_copy =
  fc_path :: str
  fc_owner :: owner
  fc_removable :: bool

datatype verdict = Keep | Deliberate | Choose | Unclear

record duplicate_group =
  dg_bytes :: u64
  wasted_bytes :: u64
  reclaimable_bytes :: u64
  copies :: "file_copy list"
  dg_verdict :: verdict
  suggested_keep :: "nat option"
  dg_reasons :: "str list"

fun owner_rank :: "owner \<Rightarrow> nat" where
  "owner_rank OwnerWindows = 0"
| "owner_rank OwnerServicing = 0"
| "owner_rank OwnerProgram = 1"
| "owner_rank OwnerProgramData = 1"
| "owner_rank OwnerElsewhere = 2"
| "owner_rank OwnerYours = 3"
| "owner_rank OwnerDeleted = 9"

definition keep_rank :: "(str \<Rightarrow> str) \<Rightarrow> file_copy \<Rightarrow> nat \<times> nat" where
  "keep_rank lower c =
     (let lowered = lower (fc_path c);
          nm = last (split_on is_backslash lowered);
          looks_like_a_copy = (contains nm '' - copy'' \<or> contains nm '' (1)'' \<or> contains nm '' (2)'');
          in_downloads = contains lowered (slashes ''/downloads/'')
      in (owner_rank (fc_owner c) * 4 + (if looks_like_a_copy then 2 else 0) + (if in_downloads then 1 else 0),
          length (fc_path c)))"


definition is_executable_name :: "str \<Rightarrow> bool" where
  "is_executable_name lowered \<longleftrightarrow>
     list_ex (\<lambda>e. suffix e lowered) [''.exe'', ''.dll'', ''.sys'', ''.msi'', ''.pyd'']"

definition reason_choose :: "file_copy list \<Rightarrow> nat \<Rightarrow> str" where
  "reason_choose cs spare =
     (let where_it_stays = (case cs of [] \<Rightarrow> OwnerElsewhere | c # _ \<Rightarrow> fc_owner c)
      in if removable_owner where_it_stays
         then ''All '' @ show_nat (length cs) @ '' copies are in folders of yours, so keeping one and removing the rest loses nothing.''
         else (if spare + 1 = length cs then ''One'' else ''Some'') @ '' of these is '' @ owner_describes where_it_stays
            @ '', and would still be there. The rest are in folders of yours.'')"

definition explain_group :: "(str \<Rightarrow> str) \<Rightarrow> file_copy list \<Rightarrow> verdict \<Rightarrow> nat \<Rightarrow> str list" where
  "explain_group lower cs v spare =
     (let names = remdups (map (\<lambda>c. lower (last (split_on is_backslash (fc_path c)))) cs)
      in (case v of
            Keep \<Rightarrow> [''Windows keeps these copies deliberately. Servicing puts back anything removed from here, and usually breaks an update doing it.'']
          | Deliberate \<Rightarrow> [''Each copy sits inside a program's own folder. Programs ship their own libraries so they do not depend on each other's versions; removing one breaks that program rather than saving anything.'']
          | Unclear \<Rightarrow> [''These are outside every folder this recognises, so it cannot tell whether something needs them. Nothing is suggested.'']
          | Choose \<Rightarrow> [reason_choose cs spare,
              if length names = 1
              then ''Same name in both places, which usually means one was copied rather than saved twice.''
              else ''The names differ, so this is the same file saved under two names '' @ em_dash @ '' identical content regardless.''])
         @ (if list_ex (\<lambda>c. fc_owner c = OwnerDeleted) cs
            then [''One copy is already in the recycle bin and is still taking up the space until the bin is emptied.'']
            else [])
         @ (if list_ex (\<lambda>c. is_executable_name (lower (fc_path c))) cs \<and> v = Choose
            then [''These are program files. If one of them is a portable application you run from that folder, it is not spare.'']
            else []))"

definition as_copy :: "(str \<Rightarrow> str) \<Rightarrow> user_context \<Rightarrow> str \<Rightarrow> file_copy" where
  "as_copy lower user path =
     (let own = owner_of lower user path in \<lparr>fc_path = path, fc_owner = own, fc_removable = removable_owner own\<rparr>)"

definition judge_verdict :: "file_copy list \<Rightarrow> nat \<Rightarrow> verdict" where
  "judge_verdict cs spare =
     (if 0 < spare then Choose
      else if list_ex (\<lambda>c. fc_owner c = OwnerWindows \<or> fc_owner c = OwnerServicing) cs then Keep
      else if list_ex (\<lambda>c. fc_owner c = OwnerProgram \<or> fc_owner c = OwnerProgramData) cs then Deliberate
      else Unclear)"

definition judge :: "(str \<Rightarrow> str) \<Rightarrow> user_context \<Rightarrow> u64 \<Rightarrow> str list \<Rightarrow> duplicate_group" where
  "judge lower user each paths =
     (let cs = sort_key (keep_rank lower) (map (as_copy lower user) paths);
          total = length cs;
          removable = length (filter fc_removable cs);
          spare = min removable (total - 1);
          v = judge_verdict cs spare
      in \<lparr>dg_bytes = each,
          wasted_bytes = each * (word_of_nat total - 1),
          reclaimable_bytes = each * word_of_nat spare,
          copies = cs, dg_verdict = v,
          suggested_keep = (if v = Choose then Some 0 else None),
          dg_reasons = explain_group lower cs v spare\<rparr>)"

section \<open>The fence\<close>

datatype intent = Suggested | Chosen

definition SHARED_PROFILE :: str where "SHARED_PROFILE = ''public''"

record limits =
  l_sid :: "str option"
  l_own :: "str list"
  l_containers :: "str list"
  l_others :: "str list"
  l_store :: "str list"

definition both_spellings :: "(str \<Rightarrow> str) \<Rightarrow> file_system \<Rightarrow> str \<Rightarrow> str list" where
  "both_spellings lower fs path =
     (let written = trim_end_matches is_backslash (plain lower path)
      in if written = [] then []
         else written # (case existing_plain lower fs path of
                           None \<Rightarrow> []
                         | Some real \<Rightarrow> [trim_end_matches is_backslash real]))"

fun below_parts :: "str list \<Rightarrow> str list \<Rightarrow> str list option" where
  "below_parts parts [] = Some parts"
| "below_parts [] (expected # others) = None"
| "below_parts (part # parts) (expected # others) = (if part \<noteq> expected then None else below_parts parts others)"

definition below :: "str \<Rightarrow> str \<Rightarrow> str list option" where
  "below path directory = below_parts (split_on is_backslash path) (split_on is_backslash directory)"

text \<open>What the registry's \<open>ProfileList\<close> key holds: the profiles directory and each account's profile.\<close>

record profile_list =
  pl_directory :: "str option"
  pl_images :: "str option list"

definition PRODUCT_NAME :: str where "PRODUCT_NAME = ''KAM Security''"

definition for_caller ::
  "(str \<Rightarrow> str) \<Rightarrow> environment \<Rightarrow> file_system \<Rightarrow> profile_list option \<Rightarrow> user_context \<Rightarrow> limits" where
  "for_caller lower env fs registry user =
     (let own = both_spellings lower fs (uc_profile user);
          recorded = (case registry of
             None \<Rightarrow> []
           | Some key \<Rightarrow> (case pl_directory key of None \<Rightarrow> [] | Some d \<Rightarrow> both_spellings lower fs (expand env d)));
          images = (case registry of
             None \<Rightarrow> []
           | Some key \<Rightarrow> concat (map (\<lambda>image. both_spellings lower fs (expand env image))
               (List.map_filter (\<lambda>x. x) (pl_images key))));
          containers = (if recorded \<noteq> [] then recorded
             else (case path_parent (uc_profile user) of None \<Rightarrow> [] | Some parent \<Rightarrow> both_spellings lower fs parent));
          program_data = unwrap_or (slashes ''C:/ProgramData'') (map_of env ''ProgramData'')
      in \<lparr>l_sid = map_option lower (uc_sid user), l_own = own,
          l_containers = filter (\<lambda>c. CHR 0x5C \<in> set c) containers,
          l_others = filter (\<lambda>other. other \<notin> set own) images,
          l_store = both_spellings lower fs (program_data @ [CHR 0x5C] @ PRODUCT_NAME)\<rparr>)"

definition not_yours :: "limits \<Rightarrow> str list \<Rightarrow> bool" where
  "not_yours l parts \<longleftrightarrow>
     (case dropWhile (\<lambda>part. part \<noteq> ''$recycle.bin'') parts of
        [] \<Rightarrow> False
      | bin # rest \<Rightarrow>
          \<not> (case (l_sid l, rest) of (Some sid, folder # _) \<Rightarrow> folder = sid | _ \<Rightarrow> False))"

definition in_container :: "str \<Rightarrow> str \<Rightarrow> bool" where
  "in_container path container =
     (case below path container of
        None \<Rightarrow> False
      | Some rest \<Rightarrow> 2 \<le> length rest \<and> hd rest \<noteq> SHARED_PROFILE)"

definition refusal :: "limits \<Rightarrow> str \<Rightarrow> str \<Rightarrow> str \<Rightarrow> str option" where
  "refusal l plain_path asked resolved_path =
     (let path = trim_end_matches is_backslash plain_path;
          what = asked @ '' resolves to '' @ resolved_path @ '', which'';
          foreign = what @ '' is inside a profile folder that is not yours. The agent acts with the system's rights on your behalf, so it does not move another account's files, however it is asked.''
      in if list_ex (\<lambda>s. below path s \<noteq> None) (l_store l)
         then Some (what @ '' is inside KAM Security's own store, which holds what is in quarantine and the record of what was done. This is refused however it is asked for.'')
         else if not_yours l (split_on is_backslash path)
         then Some (what @ '' is in a Recycle Bin folder that is not yours. The agent acts with the system's rights on your behalf, so it does not move another account's files, however it is asked.'')
         else if list_ex (\<lambda>s. below path s \<noteq> None) (l_own l) then None
         else if list_ex (\<lambda>s. below path s \<noteq> None) (l_others l) then Some foreign
         else if list_ex (in_container path) (l_containers l) then Some foreign
         else None)"

definition is_system_owner :: "owner \<Rightarrow> bool" where
  "is_system_owner own \<longleftrightarrow> own = OwnerWindows \<or> own = OwnerServicing"

definition check_within ::
  "(str \<Rightarrow> str) \<Rightarrow> file_system \<Rightarrow> user_context \<Rightarrow> intent \<Rightarrow> limits \<Rightarrow> str \<Rightarrow> str + unit" where
  "check_within lower fs user intent l path =
     (let own = owner_of lower user path
      in if intent = Suggested \<and> \<not> removable_owner own
         then Inl (path @ '' is '' @ owner_describes own @ '' -- only a copy in a folder of yours may be removed this way'')
         else if intent = Chosen \<and> is_system_owner own
         then Inl (path @ '' is '' @ owner_describes own @ ''. Windows puts these back and removing one breaks an update, so this is refused however it is asked for.'')
         else
          (case canonical fs path of
             Inl e \<Rightarrow> Inl (path @ '' could not be located on disk ('' @ io_error_text e @ ''), so it will not be touched'')
           | Inr real \<Rightarrow>
             (let real_owner = owner_of lower user real
              in if is_system_owner real_owner
                 then Inl (path @ '' resolves to '' @ real @ '', which is '' @ owner_describes real_owner
                       @ ''. Windows puts these back and removing one breaks an update, so this is refused.'')
                 else if intent = Suggested \<and> \<not> removable_owner real_owner
                 then Inl (path @ '' resolves to '' @ real @ '', which is '' @ owner_describes real_owner
                       @ '' -- only a copy in a folder of yours may be removed this way'')
                 else
                  (case refusal l (plain lower real) path real of
                     Some why \<Rightarrow> Inl why
                   | None \<Rightarrow>
                     (case symlink_metadata fs path of
                        Inl e \<Rightarrow> Inl (path @ '' could not be read: '' @ io_error_text e)
                      | Inr DirNode \<Rightarrow> Inl (path @ '' is a directory, not a copy of a file'')
                      | Inr (LinkNode t) \<Rightarrow> Inl (path @ '' is a link rather than a file'')
                      | Inr (FileNode c) \<Rightarrow> Inr ())))))"

definition check_removable ::
  "(str \<Rightarrow> str) \<Rightarrow> environment \<Rightarrow> file_system \<Rightarrow> profile_list option \<Rightarrow> user_context \<Rightarrow> intent \<Rightarrow> str \<Rightarrow> str + unit" where
  "check_removable lower env fs registry user intent path =
     check_within lower fs user intent (for_caller lower env fs registry user) path"

end
