(* ===== verification/Kam_Fence.thy ===== *)
theory Kam_Fence
  imports Kam_Duplicates
begin

text \<open>
  What the fence around removing a copy lets through, and what the judgement of a group
  promises: the place a path really leads to is never Windows' own, never inside the product's
  store and never in somebody else's profile or bin, and one copy of every group stays.
\<close>

section \<open>Below a directory\<close>

lemma below_parts_iff: "below_parts parts expected = Some rest \<longleftrightarrow> parts = expected @ rest"
  by (induction parts expected rule: below_parts.induct) auto

lemma below_iff: "below path directory = Some rest \<longleftrightarrow> split_on is_backslash path = split_on is_backslash directory @ rest"
  by (simp add: below_def below_parts_iff)

definition is_below :: "str \<Rightarrow> str \<Rightarrow> bool" where
  "is_below path directory \<longleftrightarrow> prefix (split_on is_backslash directory) (split_on is_backslash path)"

lemma below_None: "below path directory = None \<longleftrightarrow> \<not> is_below path directory"
  by (cases "below path directory") (auto simp: is_below_def prefix_def below_iff, metis below_iff option.distinct(1))

lemma refusal_None:
  "refusal l plain_path asked resolved_path = None \<longleftrightarrow>
     (let path = trim_end_matches is_backslash plain_path
      in (\<forall>s \<in> set (l_store l). \<not> is_below path s)
       \<and> \<not> not_yours l (split_on is_backslash path)
       \<and> ((\<exists>s \<in> set (l_own l). is_below path s)
          \<or> ((\<forall>s \<in> set (l_others l). \<not> is_below path s) \<and> (\<forall>c \<in> set (l_containers l). \<not> in_container path c))))"
  by (auto simp: refusal_def Let_def list_ex_iff below_None simp del: not_None_eq)

lemma check_within_Inr:
  "check_within lower fs user intent l path = Inr () \<longleftrightarrow>
     (case intent of Suggested \<Rightarrow> removable_owner (owner_of lower user path)
      | Chosen \<Rightarrow> \<not> is_system_owner (owner_of lower user path))
     \<and> (\<exists>real contents. canonical fs path = Inr real
          \<and> \<not> is_system_owner (owner_of lower user real)
          \<and> (intent = Suggested \<longrightarrow> removable_owner (owner_of lower user real))
          \<and> refusal l (plain lower real) path real = None
          \<and> symlink_metadata fs path = Inr (FileNode contents))"
  by (auto simp: check_within_def Let_def split: intent.splits sum.splits option.splits fnode.splits if_splits)

section \<open>What the limits of a caller are\<close>

lemma own_spellings: "set (l_own (for_caller lower env fs registry user)) = set (both_spellings lower fs (uc_profile user))"
  by (simp add: for_caller_def Let_def)

lemma in_map_filter_id: "x \<in> set (List.map_filter (\<lambda>x. x) xs) \<longleftrightarrow> Some x \<in> set xs"
  by (induction xs) (auto simp: List.map_filter_def split: option.splits)

lemma other_spellings:
  assumes "registry = Some key" and "Some recorded \<in> set (pl_images key)"
    and "s \<in> set (both_spellings lower fs (expand env recorded))"
  shows "s \<in> set (l_others (for_caller lower env fs registry user)) \<or> s \<in> set (l_own (for_caller lower env fs registry user))"
  using assms by (auto simp: for_caller_def Let_def in_map_filter_id)

lemma store_spellings:
  "set (l_store (for_caller lower env fs registry user)) =
     set (both_spellings lower fs (unwrap_or (slashes ''C:/ProgramData'') (map_of env ''ProgramData'') @ [CHR 0x5C] @ PRODUCT_NAME))"
  by (simp add: for_caller_def Let_def)

section \<open>The fence\<close>

text \<open>C6: the fence holds whatever is asked for. When the agent agrees to move a copy, whether it was
  suggested or chosen: the path resolves; the place it resolves to is neither Windows' own nor
  held by servicing; that place is not inside the product's store, in either spelling; it is
  inside the caller's own profile or inside no profile Windows lists, in either spelling; and
  what is moved is a plain file, neither a directory nor a link. A copy that was only suggested
  is moreover in a folder of the caller's or in their bin, by its text and by where it leads.\<close>

theorem check_removable_safe:
  assumes "check_removable lower env fs (Some key) user intent path = Inr ()"
  shows "\<exists>real contents. canonical fs path = Inr real \<and> symlink_metadata fs path = Inr (FileNode contents)
    \<and> \<not> is_system_owner (owner_of lower user real)
    \<and> (intent = Suggested \<longrightarrow> removable_owner (owner_of lower user path) \<and> removable_owner (owner_of lower user real))
    \<and> (let place = trim_end_matches is_backslash (plain lower real)
       in (\<forall>s \<in> set (both_spellings lower fs
              (unwrap_or (slashes ''C:/ProgramData'') (map_of env ''ProgramData'') @ [CHR 0x5C] @ PRODUCT_NAME)).
             \<not> is_below place s)
        \<and> ((\<exists>s \<in> set (both_spellings lower fs (uc_profile user)). is_below place s)
           \<or> (\<forall>recorded s. Some recorded \<in> set (pl_images key)
                 \<and> s \<in> set (both_spellings lower fs (expand env recorded)) \<longrightarrow> \<not> is_below place s)))"
proof -
  let ?l = "for_caller lower env fs (Some key) user"
  from assms obtain real contents where r: "canonical fs path = Inr real" "symlink_metadata fs path = Inr (FileNode contents)"
      "\<not> is_system_owner (owner_of lower user real)" "refusal ?l (plain lower real) path real = None"
    and s: "intent = Suggested \<longrightarrow> removable_owner (owner_of lower user path) \<and> removable_owner (owner_of lower user real)"
    unfolding check_removable_def check_within_Inr by (auto split: intent.splits)
  have "(\<forall>recorded s. Some recorded \<in> set (pl_images key)
      \<and> s \<in> set (both_spellings lower fs (expand env recorded)) \<longrightarrow> \<not> is_below (trim_end_matches is_backslash (plain lower real)) s)"
    if "\<forall>s \<in> set (l_others ?l). \<not> is_below (trim_end_matches is_backslash (plain lower real)) s"
      "\<not> (\<exists>s \<in> set (l_own ?l). is_below (trim_end_matches is_backslash (plain lower real)) s)"
    using that other_spellings [of "Some key" key _ _ lower fs env user] by blast
  then show ?thesis
    using r s by (auto simp: refusal_None Let_def own_spellings store_spellings)
qed

text \<open>A machine with two profiles, on which everything resolves to itself.\<close>

definition two_profiles :: profile_list where
  "two_profiles = \<lparr>pl_directory = Some (slashes ''c:/users''), pl_images = [Some (slashes ''c:/users/ari''), Some (slashes ''c:/users/bo'')]\<rparr>"

definition ari :: user_context where
  "ari = \<lparr>uc_sid = Some ''s-1'', uc_profile = slashes ''c:/users/ari''\<rparr>"

definition ari_files :: file_system where
  "ari_files = \<lparr>nodes = [([''c:'', ''users'', ''ari'', ''music'', ''a''], FileNode ''x'')], fault = (\<lambda>op p. None), canonical = Inr\<rparr>"

lemma ari_may_move_music:
  "check_removable (\<lambda>s. s) [] ari_files (Some two_profiles) ari Suggested (slashes ''c:/users/ari/music/a'') = Inr ()"
  by code_simp

theorem check_removable_safe_witness:
  "symlink_metadata ari_files (slashes ''c:/users/ari/music/a'') = Inr (FileNode ''x'')
   \<and> removable_owner (owner_of (\<lambda>s. s) ari (slashes ''c:/users/ari/music/a''))"
proof -
  have "symlink_metadata ari_files (slashes ''c:/users/ari/music/a'') = Inr (FileNode ''x'')" by code_simp
  with check_removable_safe [OF ari_may_move_music] show ?thesis by auto
qed

section \<open>Judging a group\<close>

lemma copies_judge:
  "copies (judge lower user each paths) = sort_key (keep_rank lower) (map (as_copy lower user) paths)"
  by (simp add: judge_def Let_def)

lemma as_copy_fields [simp]:
  "fc_path (as_copy lower user p) = p" "fc_removable (as_copy lower user p) = removable_owner (fc_owner (as_copy lower user p))"
  by (simp_all add: as_copy_def Let_def)

lemma removable_rank: "removable_owner x \<longleftrightarrow> 3 \<le> owner_rank x"
  by (cases x) simp_all

lemma deleted_rank: "x = OwnerDeleted \<longleftrightarrow> 9 \<le> owner_rank x"
  by (cases x) simp_all

text \<open>The owner decides the order: nothing else in the rank outweighs it.\<close>

lemma keep_rank_owner:
  assumes "keep_rank lower a \<le> keep_rank lower b"
  shows "owner_rank (fc_owner a) \<le> owner_rank (fc_owner b)"
  using assms by (auto simp: keep_rank_def Let_def split: if_splits)

lemma first_copy_least:
  assumes "c \<in> set (copies (judge lower user each paths))"
  shows "owner_rank (fc_owner (copies (judge lower user each paths) ! 0)) \<le> owner_rank (fc_owner c)"
proof (rule keep_rank_owner)
  let ?cs = "copies (judge lower user each paths)"
  have "sorted (map (keep_rank lower) ?cs)" by (simp add: copies_judge)
  moreover obtain i where "i < length ?cs" "?cs ! i = c" using assms by (auto simp: in_set_conv_nth)
  moreover have "0 < length ?cs" using assms by (auto simp: in_set_conv_nth)
  ultimately show "keep_rank lower (?cs ! 0) \<le> keep_rank lower c"
    using sorted_nth_mono [of "map (keep_rank lower) ?cs" 0 i] nth_map [of 0 ?cs "keep_rank lower"] by auto
qed

lemma spare_positive:
  "0 < min (length (filter fc_removable cs)) (length cs - 1) \<longleftrightarrow> 2 \<le> length cs \<and> (\<exists>c \<in> set cs. fc_removable c)"
proof -
  have "0 < length (filter fc_removable cs) \<longleftrightarrow> (\<exists>c \<in> set cs. fc_removable c)" by (auto simp: filter_empty_conv)
  then show ?thesis by auto
qed

text \<open>One copy always stays, and what is said of a group is true of it. The copies judged are the
  paths given; what is offered never exceeds the space of every copy but one; there is a copy to
  choose exactly when one of several is removable; the copy to keep is in the bin only if every
  copy is; and if it is itself removable, as the text then says, every copy is.\<close>

theorem judge_keeps_one:
  fixes lower :: "str \<Rightarrow> str" and user :: user_context and each :: u64 and paths :: "str list"
  defines "g \<equiv> judge lower user each paths"
  assumes "paths \<noteq> []" and "unat each * length paths < 2 ^ 64"
  shows "mset (map fc_path (copies g)) = mset paths
    \<and> unat (wasted_bytes g) = unat each * (length paths - 1)
    \<and> unat (reclaimable_bytes g) \<le> unat (wasted_bytes g)
    \<and> (dg_verdict g = Choose \<longleftrightarrow> 2 \<le> length paths \<and> (\<exists>c \<in> set (copies g). fc_removable c))
    \<and> (suggested_keep g = (if dg_verdict g = Choose then Some 0 else None))
    \<and> (fc_owner (copies g ! 0) = OwnerDeleted \<longrightarrow> (\<forall>c \<in> set (copies g). fc_owner c = OwnerDeleted))
    \<and> (removable_owner (fc_owner (copies g ! 0)) \<longrightarrow> (\<forall>c \<in> set (copies g). removable_owner (fc_owner c)))"
proof -
  let ?cs = "copies g"
  let ?spare = "min (length (filter fc_removable ?cs)) (length ?cs - 1)"
  have len: "length ?cs = length paths" by (simp add: g_def copies_judge)
  have fields: "wasted_bytes g = each * (word_of_nat (length paths) - 1)" "reclaimable_bytes g = each * word_of_nat ?spare"
      "dg_verdict g = judge_verdict ?cs ?spare" "suggested_keep g = (if dg_verdict g = Choose then Some 0 else None)"
    using len by (simp_all add: g_def judge_def Let_def)
  have mul: "unat (each * word_of_nat n) = unat each * n" if "n \<le> length paths" "0 < unat each" for n
  proof -
    have "unat each * n \<le> unat each * length paths" using that by simp
    moreover have "1 * n \<le> unat each * n" using that(2) by (intro mult_le_mono1) simp
    ultimately have "n < 2 ^ 64" "unat each * n < 2 ^ 64" using assms(3) by linarith+
    then show ?thesis by (simp add: unat_word_ariths unat_of_nat)
  qed
  have one: "(word_of_nat (length paths) :: u64) - 1 = word_of_nat (length paths - 1)"
    using assms(2) by (cases paths) simp_all
  have "unat (each * word_of_nat n) = unat each * n" if "n \<le> length paths" for n
    using mul [OF that] by (cases "unat each = 0") (simp_all add: unat_eq_0)
  then have w: "unat (wasted_bytes g) = unat each * (length paths - 1)" "unat (reclaimable_bytes g) = unat each * ?spare"
    using len by (simp_all add: fields(1,2) one min_le_iff_disj)
  have v: "dg_verdict g = Choose \<longleftrightarrow> 2 \<le> length paths \<and> (\<exists>c \<in> set ?cs. fc_removable c)"
    using spare_positive [of ?cs] len by (simp add: fields(3) judge_verdict_def split: if_splits)
  have "map fc_path (map (as_copy lower user) paths) = paths" by (simp add: comp_def)
  then have "mset (map fc_path ?cs) = mset paths"
    by (metis (no_types, lifting) g_def copies_judge mset_map mset_sort)
  with w v fields(4) len show ?thesis
    using first_copy_least [of _ lower user each paths]
    by (fastforce simp: g_def removable_rank deleted_rank)
qed

theorem judge_keeps_one_witness:
  "unat (wasted_bytes (judge (\<lambda>s. s) ari 5 [slashes ''c:/users/ari/music/a'', slashes ''d:/b''])) = 5
   \<and> dg_verdict (judge (\<lambda>s. s) ari 5 [slashes ''c:/users/ari/music/a'', slashes ''d:/b'']) = Choose"
proof -
  have "removable_owner (owner_of (\<lambda>s. s) ari (slashes ''c:/users/ari/music/a''))" by code_simp
  then have "\<exists>c \<in> set (copies (judge (\<lambda>s. s) ari 5 [slashes ''c:/users/ari/music/a'', slashes ''d:/b''])). fc_removable c"
    by (auto simp: copies_judge as_copy_def Let_def)
  with judge_keeps_one [of "[slashes ''c:/users/ari/music/a'', slashes ''d:/b'']" 5 "\<lambda>s. s" ari] show ?thesis by simp
qed

end
