(* ===== verification/Kam_Duplicates_Find.thy ===== *)
theory Kam_Duplicates_Find
  imports Kam_Fence Kam_Index
begin

text \<open>
  Finding the identical files of an indexed volume, the passes of
  \<open>crates/kam-storage/src/duplicates.rs\<close>: by size from the table, by the first block, by the
  whole file. A file is its bytes together with how reads of it come out: each may be short and
  each may fail. blake3 is the argument \<open>hash\<close>, the order in which a hash map gives out its
  groups the arguments \<open>order_r\<close> and \<open>order_p\<close>, and the order in which the threads reserve
  the read budget is the argument \<open>sched\<close>.
\<close>

section \<open>Reading and hashing\<close>

definition MIN_SIZE :: u64 where "MIN_SIZE = 8 * 1024 * 1024"
definition HEAD_BYTES :: nat where "HEAD_BYTES = 64 * 1024"
definition MAX_FULL_HASH_BYTES :: u64 where "MAX_FULL_HASH_BYTES = 192 * 1024 * 1024 * 1024"
definition READ_BUFFER :: nat where "READ_BUFFER = 1024 * 1024"

record open_file =
  of_data :: bytes
  of_short :: "nat \<Rightarrow> nat"
  of_fault :: "nat \<Rightarrow> bool"

text \<open>\<open>Read::read\<close> at a position into a buffer: an error, nothing at the end, or at least one byte.\<close>

definition read_at :: "open_file \<Rightarrow> nat \<Rightarrow> nat \<Rightarrow> nat option" where
  "read_at f pos room =
     (if of_fault f pos then None
      else (let left = min room (length (of_data f) - pos)
            in Some (if left = 0 then 0 else min left (Suc (of_short f pos)))))"

function head_loop :: "open_file \<Rightarrow> nat \<Rightarrow> nat option" where
  "head_loop f filled =
     (if filled < HEAD_BYTES
      then (case read_at f filled (HEAD_BYTES - filled) of
              None \<Rightarrow> None
            | Some n \<Rightarrow> if n = 0 then Some filled else head_loop f (filled + n))
      else Some filled)"
  by pat_completeness auto
termination
  by (relation "measure (\<lambda>(f, filled). HEAD_BYTES - filled)") auto

lemma read_at_progress: "read_at f pos room = Some n \<Longrightarrow> n \<noteq> 0 \<Longrightarrow> pos + n \<le> length (of_data f) \<and> n \<le> room"
  by (auto simp: read_at_def Let_def split: if_splits)

function full_loop :: "open_file \<Rightarrow> nat \<Rightarrow> nat option" where
  "full_loop f pos =
     (case read_at f pos READ_BUFFER of
        None \<Rightarrow> None
      | Some n \<Rightarrow> if n = 0 then Some pos else full_loop f (pos + n))"
  by pat_completeness auto
termination
proof (relation "measure (\<lambda>(f, pos). length (of_data f) - pos)", goal_cases)
  case (2 f pos n)
  then show ?case using read_at_progress [of f pos READ_BUFFER n] by auto
qed simp

declare head_loop.simps [simp del] full_loop.simps [simp del]

type_synonym opener = "str \<Rightarrow> open_file option"

definition head_hash :: "(bytes \<Rightarrow> 'h) \<Rightarrow> opener \<Rightarrow> str \<Rightarrow> 'h option" where
  "head_hash hash files path =
     (case files path of None \<Rightarrow> None
      | Some f \<Rightarrow> map_option (\<lambda>filled. hash (take filled (of_data f))) (head_loop f 0))"

definition full_hash :: "(bytes \<Rightarrow> 'h) \<Rightarrow> opener \<Rightarrow> str \<Rightarrow> 'h option" where
  "full_hash hash files path =
     (case files path of None \<Rightarrow> None
      | Some f \<Rightarrow> map_option (\<lambda>pos. hash (take pos (of_data f))) (full_loop f 0))"

section \<open>Grouping\<close>

definition grouped :: "('k \<times> 'v) list \<Rightarrow> 'v list list" where
  "grouped pairs = map (\<lambda>k. map snd (filter (\<lambda>p. fst p = k) pairs)) (remdups (map fst pairs))"

definition keep_collisions :: "('v list list \<Rightarrow> 'v list list) \<Rightarrow> ('k \<times> 'v) list \<Rightarrow> 'v list list" where
  "keep_collisions order pairs = filter (\<lambda>g. 1 < length g) (order (grouped pairs))"

section \<open>One size group\<close>

text \<open>A step is one set of files that agree on size and head, to be read in full.\<close>

type_synonym hash_step = "u64 \<times> str list"

definition group_heads ::
  "(bytes \<Rightarrow> 'h) \<Rightarrow> opener \<Rightarrow> volume_index \<Rightarrow> str \<Rightarrow> u32 list \<Rightarrow> ('h \<times> str) list" where
  "group_heads hash files vi drive_root records =
     List.map_filter (\<lambda>r. case path_of vi r drive_root of
          None \<Rightarrow> None
        | Some path \<Rightarrow> map_option (\<lambda>h. (h, path)) (head_hash hash files path)) records"

definition group_size :: "volume_index \<Rightarrow> u32 list \<Rightarrow> u64 option" where
  "group_size vi records = (case records of [] \<Rightarrow> None | r # _ \<Rightarrow> map_option ebytes (entry_at vi r))"

definition group_steps ::
  "(str list list \<Rightarrow> str list list) \<Rightarrow> (bytes \<Rightarrow> 'h) \<Rightarrow> opener \<Rightarrow> volume_index \<Rightarrow> str \<Rightarrow> u32 list \<Rightarrow> hash_step list" where
  "group_steps order_p hash files vi drive_root records =
     (case group_size vi records of
        None \<Rightarrow> []
      | Some each \<Rightarrow> map (Pair each) (keep_collisions order_p (group_heads hash files vi drive_root records)))"

definition wanted :: "hash_step \<Rightarrow> u64" where
  "wanted s = fst s * word_of_nat (length (snd s))"

text \<open>
  Whether a step gets its reads: the budget reserved before it, by the steps that came first in
  the schedule, and its own, are within the ceiling.
\<close>

definition admitted :: "nat list \<Rightarrow> hash_step list \<Rightarrow> nat \<Rightarrow> bool" where
  "admitted sched steps i \<longleftrightarrow>
     \<not> MAX_FULL_HASH_BYTES < (\<Sum>j \<leftarrow> takeWhile (\<lambda>j. j \<noteq> i) sched. wanted (steps ! j)) + wanted (steps ! i)"

definition step_full :: "(bytes \<Rightarrow> 'h) \<Rightarrow> opener \<Rightarrow> hash_step \<Rightarrow> ('h \<times> str) list" where
  "step_full hash files s =
     List.map_filter (\<lambda>path. map_option (\<lambda>h. (h, path)) (full_hash hash files path)) (snd s)"

definition step_groups ::
  "(str \<Rightarrow> str) \<Rightarrow> user_context \<Rightarrow> (str list list \<Rightarrow> str list list) \<Rightarrow> (bytes \<Rightarrow> 'h) \<Rightarrow> opener \<Rightarrow> hash_step \<Rightarrow> duplicate_group list" where
  "step_groups lower user order_p hash files s =
     map (judge lower user (fst s)) (keep_collisions order_p (step_full hash files s))"

section \<open>The search\<close>

record duplicate_summary =
  ds_groups :: nat
  ds_wasted_bytes :: u64
  ds_reclaimable_bytes :: u64
  ds_actionable :: nat
  ds_examined :: nat
  ds_head_hashed :: nat
  ds_fully_hashed :: nat
  ds_truncated :: bool

definition by_size :: "volume_index \<Rightarrow> (u64 \<times> u32) list" where
  "by_size vi =
     List.map_filter (\<lambda>(r, e). if \<not> is_directory e \<and> MIN_SIZE \<le> ebytes e then Some (ebytes e, r) else None)
       (entries (snapshot vi))"

definition group_order :: "duplicate_group \<Rightarrow> int \<times> int" where
  "group_order g = (- int (unat (reclaimable_bytes g)), - int (unat (wasted_bytes g)))"

text \<open>\<open>stopped1\<close> and \<open>stopped2\<close> say what the two checks for a request to stop find.\<close>

definition find_duplicates ::
  "(str \<Rightarrow> str) \<Rightarrow> user_context \<Rightarrow> (u32 list list \<Rightarrow> u32 list list) \<Rightarrow> (str list list \<Rightarrow> str list list)
     \<Rightarrow> (bytes \<Rightarrow> 'h) \<Rightarrow> opener \<Rightarrow> nat list \<Rightarrow> bool \<Rightarrow> bool \<Rightarrow> volume_index \<Rightarrow> str
     \<Rightarrow> (duplicate_group list \<times> duplicate_summary) option" where
  "find_duplicates lower user order_r order_p hash files sched stopped1 stopped2 vi drive_root =
     (let sized = by_size vi;
          size_groups = keep_collisions order_r sized
      in if stopped1 then None
         else
          (let steps = concat (map (group_steps order_p hash files vi drive_root) size_groups);
               taken = filter (admitted sched steps) [0..<length steps];
               found = concat (map (\<lambda>i. step_groups lower user order_p hash files (steps ! i)) taken);
               groups = sort_key group_order found
           in if stopped2 then None
              else Some (groups,
                \<lparr>ds_groups = length groups,
                 ds_wasted_bytes = sum_list (map wasted_bytes groups),
                 ds_reclaimable_bytes = sum_list (map reclaimable_bytes groups),
                 ds_actionable = length (filter (\<lambda>g. dg_verdict g = Choose) groups),
                 ds_examined = length sized,
                 ds_head_hashed = (\<Sum>g \<leftarrow> size_groups.
                    if group_size vi g = None then 0 else length (group_heads hash files vi drive_root g)),
                 ds_fully_hashed = (\<Sum>i \<leftarrow> taken. length (step_full hash files (steps ! i))),
                 ds_truncated = (taken \<noteq> [0..<length steps])\<rparr>)))"

end
