(* ===== verification/Kam_Duplicates_Exact.thy ===== *)
theory Kam_Duplicates_Exact
  imports Kam_Duplicates_Find
begin

text \<open>
  The three passes find exactly the classes of identical files: every group reported holds at
  least two files of one size and one content, and, unless the search says that it stopped
  early, every such class is reported, whatever the order of the hash maps and of the threads and
  whatever reads fail. The digest is short, so files can share one without being alike; that no
  two files of the volume do is the condition, on the contents that are there and on no others.
\<close>

section \<open>Reading\<close>

lemma head_loop_Some:
  assumes "head_loop f k = Some n" and "k \<le> min HEAD_BYTES (length (of_data f))"
  shows "n = min HEAD_BYTES (length (of_data f))"
  using assms
proof (induction f k rule: head_loop.induct)
  case (1 f filled)
  show ?case
  proof (cases "filled < HEAD_BYTES")
    case True
    then obtain m where m: "read_at f filled (HEAD_BYTES - filled) = Some m"
      "n = filled \<and> m = 0 \<or> m \<noteq> 0 \<and> head_loop f (filled + m) = Some n"
      using "1.prems"(1) by (subst (asm) head_loop.simps) (auto split: option.splits if_splits)
    show ?thesis
    proof (cases "m = 0")
      case zero: True
      with m(1) True have "length (of_data f) \<le> filled"
        by (auto simp: read_at_def Let_def split: if_splits)
      with zero m(2) "1.prems"(2) show ?thesis by auto
    next
      case False
      with m read_at_progress [OF m(1)] show ?thesis by (intro "1.IH") (use True in auto)
    qed
  next
    case False
    with 1 show ?thesis by (subst (asm) head_loop.simps) auto
  qed
qed

lemma full_loop_Some:
  assumes "full_loop f k = Some n" and "k \<le> length (of_data f)"
  shows "n = length (of_data f)"
  using assms
proof (induction f k rule: full_loop.induct)
  case (1 f pos)
  then obtain m where m: "read_at f pos READ_BUFFER = Some m" "n = pos \<and> m = 0 \<or> m \<noteq> 0 \<and> full_loop f (pos + m) = Some n"
    by (subst (asm) (2) full_loop.simps) (auto split: option.splits if_splits)
  show ?case
  proof (cases "m = 0")
    case True
    with m(1) have "length (of_data f) \<le> pos"
      by (auto simp: read_at_def Let_def READ_BUFFER_def split: if_splits)
    with True m(2) "1.prems"(2) show ?thesis by auto
  next
    case False
    with m read_at_progress [OF m(1)] show ?thesis by (intro "1.IH") auto
  qed
qed

lemma head_loop_total: "(\<And>pos. \<not> of_fault f pos) \<Longrightarrow> \<exists>n. head_loop f k = Some n"
proof (induction f k rule: head_loop.induct)
  case (1 f filled)
  obtain m where "read_at f filled (HEAD_BYTES - filled) = Some m" using 1(2) by (simp add: read_at_def Let_def)
  with 1 show ?case by (subst head_loop.simps) auto
qed

lemma full_loop_total: "(\<And>pos. \<not> of_fault f pos) \<Longrightarrow> \<exists>n. full_loop f k = Some n"
proof (induction f k rule: full_loop.induct)
  case (1 f pos)
  obtain m where "read_at f pos READ_BUFFER = Some m" using 1(2) by (simp add: read_at_def Let_def)
  with 1 show ?case by (subst full_loop.simps) auto
qed

lemma head_hash_Some:
  "head_hash hash files p = Some h \<Longrightarrow> \<exists>f. files p = Some f \<and> h = hash (take HEAD_BYTES (of_data f))"
  by (auto simp: head_hash_def split: option.splits dest!: head_loop_Some) (metis min.commute take_all_iff take_take nle_le)

lemma full_hash_Some: "full_hash hash files p = Some h \<Longrightarrow> \<exists>f. files p = Some f \<and> h = hash (of_data f)"
  by (auto simp: full_hash_def split: option.splits dest!: full_loop_Some)

text \<open>A file both passes read to where they want: the faults of the file decide it.\<close>

definition reads_through :: "open_file \<Rightarrow> bool" where
  "reads_through f \<longleftrightarrow> head_loop f 0 \<noteq> None \<and> full_loop f 0 \<noteq> None"

lemma hashes_of_file:
  assumes "files p = Some f"
  shows "head_hash hash files p = (if head_loop f 0 = None then None else Some (hash (take HEAD_BYTES (of_data f))))"
    and "full_hash hash files p = (if full_loop f 0 = None then None else Some (hash (of_data f)))"
proof -
  have "head_hash hash files p = Some h \<Longrightarrow> h = hash (take HEAD_BYTES (of_data f))" for h
    using head_hash_Some assms by fastforce
  then show "head_hash hash files p = (if head_loop f 0 = None then None else Some (hash (take HEAD_BYTES (of_data f))))"
    using assms by (cases "head_loop f 0") (auto simp: head_hash_def)
  have "full_hash hash files p = Some h \<Longrightarrow> h = hash (of_data f)" for h
    using full_hash_Some assms by fastforce
  then show "full_hash hash files p = (if full_loop f 0 = None then None else Some (hash (of_data f)))"
    using assms by (cases "full_loop f 0") (auto simp: full_hash_def)
qed

lemma both_hashes:
  "head_hash hash files p = Some h \<and> full_hash hash files p = Some d \<longleftrightarrow>
     (\<exists>f. files p = Some f \<and> reads_through f \<and> h = hash (take HEAD_BYTES (of_data f)) \<and> d = hash (of_data f))"
proof (cases "files p")
  case None
  then show ?thesis by (simp add: head_hash_def)
next
  case (Some f)
  then show ?thesis by (auto simp: hashes_of_file reads_through_def)
qed

section \<open>Grouping\<close>

definition keyed :: "'k \<Rightarrow> ('k \<times> 'v) list \<Rightarrow> 'v list" where
  "keyed k pairs = map snd (filter (\<lambda>p. fst p = k) pairs)"

definition same_groups :: "('v list list \<Rightarrow> 'v list list) \<Rightarrow> bool" where
  "same_groups order \<longleftrightarrow> (\<forall>gs. mset (order gs) = mset gs)"

lemma keep_collisions_iff:
  assumes "same_groups order"
  shows "g \<in> set (keep_collisions order pairs) \<longleftrightarrow> 1 < length g \<and> (\<exists>k. g = keyed k pairs)"
proof -
  have "set (order (grouped pairs)) = set (grouped pairs)" using assms by (metis same_groups_def mset_eq_setD)
  moreover have "k \<in> fst ` set pairs" if "1 < length (keyed k pairs)" for k
  proof -
    from that obtain p where "p \<in> set (filter (\<lambda>p. fst p = k) pairs)"
      by (cases "filter (\<lambda>p. fst p = k) pairs") (auto simp: keyed_def)
    then show ?thesis by auto
  qed
  ultimately show ?thesis by (auto simp: keep_collisions_def grouped_def keyed_def)
qed

lemma set_keep_collisions:
  "same_groups order \<Longrightarrow> set (keep_collisions order pairs) = {g. 1 < length g \<and> (\<exists>k. g = keyed k pairs)}"
  by (auto simp: keep_collisions_iff)

lemma map_filter_Cons: "List.map_filter f (x # xs) = (case f x of None \<Rightarrow> [] | Some y \<Rightarrow> [y]) @ List.map_filter f xs"
  by (simp add: List.map_filter_def split: option.split)

lemma map_filter_Nil [simp]: "List.map_filter f [] = []"
  by (simp add: List.map_filter_def)

lemma keyed_map_filter:
  "keyed k (List.map_filter f xs) =
     List.map_filter (\<lambda>x. case f x of None \<Rightarrow> None | Some (k', v) \<Rightarrow> if k' = k then Some v else None) xs"
  by (induction xs) (auto simp: keyed_def map_filter_Cons split: option.splits)

lemma map_filter_map_filter:
  "List.map_filter f (List.map_filter g xs) = List.map_filter (\<lambda>x. Option.bind (g x) f) xs"
  by (induction xs) (auto simp: map_filter_Cons split: option.splits)

lemma map_filter_cong: "(\<And>x. x \<in> set xs \<Longrightarrow> f x = g x) \<Longrightarrow> List.map_filter f xs = List.map_filter g xs"
  by (induction xs) (auto simp: map_filter_Cons split: option.split)

lemma length_map_filter_le: "length (List.map_filter f xs) \<le> length xs"
  by (induction xs) (auto simp: map_filter_Cons split: option.splits)

section \<open>The classes\<close>

definition of_size :: "volume_index \<Rightarrow> u64 \<Rightarrow> u32 list" where
  "of_size vi s = keyed s (by_size vi)"

text \<open>What the three passes leave together: the files of one size, one head and one hash.\<close>

definition final_group ::
  "(bytes \<Rightarrow> 'h) \<Rightarrow> opener \<Rightarrow> volume_index \<Rightarrow> str \<Rightarrow> u64 \<Rightarrow> 'h \<Rightarrow> 'h \<Rightarrow> str list" where
  "final_group hash files vi drive_root s h d =
     List.map_filter (\<lambda>r. case path_of vi r drive_root of None \<Rightarrow> None
        | Some p \<Rightarrow> if head_hash hash files p = Some h \<and> full_hash hash files p = Some d then Some p else None)
       (of_size vi s)"

definition head_group ::
  "(bytes \<Rightarrow> 'h) \<Rightarrow> opener \<Rightarrow> volume_index \<Rightarrow> str \<Rightarrow> u64 \<Rightarrow> 'h \<Rightarrow> str list" where
  "head_group hash files vi drive_root s h = keyed h (group_heads hash files vi drive_root (of_size vi s))"

lemma final_group_keyed:
  "keyed d (step_full hash files (s, head_group hash files vi drive_root s h)) = final_group hash files vi drive_root s h d"
  unfolding step_full_def head_group_def group_heads_def final_group_def snd_conv keyed_map_filter map_filter_map_filter
  by (rule map_filter_cong) (auto split: option.splits)

lemma final_group_lengths:
  assumes "1 < length (final_group hash files vi drive_root s h d)"
  shows "1 < length (head_group hash files vi drive_root s h)" and "1 < length (of_size vi s)"
proof -
  have "length (final_group hash files vi drive_root s h d) \<le> length (step_full hash files (s, head_group hash files vi drive_root s h))"
    unfolding final_group_keyed [symmetric] by (simp add: keyed_def)
  also have "\<dots> \<le> length (head_group hash files vi drive_root s h)"
    by (simp add: step_full_def length_map_filter_le)
  finally show "1 < length (head_group hash files vi drive_root s h)" using assms by linarith
  have "length (final_group hash files vi drive_root s h d) \<le> length (of_size vi s)"
    by (simp add: final_group_def length_map_filter_le)
  then show "1 < length (of_size vi s)" using assms by linarith
qed

definition wf_index :: "volume_index \<Rightarrow> bool" where
  "wf_index vi \<longleftrightarrow> distinct (map fst (entries (snapshot vi)))"

lemma of_size_entry:
  assumes "wf_index vi" and "r \<in> set (of_size vi s)"
  shows "\<exists>e. entry_at vi r = Some e \<and> \<not> is_directory e \<and> ebytes e = s \<and> MIN_SIZE \<le> s"
proof -
  have in_mf: "y \<in> set (List.map_filter f xs) \<Longrightarrow> \<exists>x \<in> set xs. f x = Some y" for f :: "u32 \<times> mft_entry \<Rightarrow> (u64 \<times> u32) option" and y xs
    by (induction xs) (auto simp: map_filter_Cons split: option.splits)
  from assms(2) have "(s, r) \<in> set (by_size vi)" by (auto simp: of_size_def keyed_def)
  then obtain e where "(r, e) \<in> set (entries (snapshot vi))" "\<not> is_directory e" "ebytes e = s" "MIN_SIZE \<le> s"
    unfolding by_size_def by (auto dest!: in_mf split: if_splits)
  then show ?thesis using assms(1) by (auto simp: entry_at_def wf_index_def)
qed

lemma group_size_of_size: "wf_index vi \<Longrightarrow> 1 < length (of_size vi s) \<Longrightarrow> group_size vi (of_size vi s) = Some s"
  using of_size_entry [of vi _ s] by (cases "of_size vi s") (auto simp: group_size_def)

text \<open>The steps of the search, and the groups it reports.\<close>

lemma steps_iff:
  assumes "wf_index vi" and "same_groups order_r" and "same_groups order_p"
  shows "st \<in> set (concat (map (group_steps order_p hash files vi drive_root) (keep_collisions order_r (by_size vi)))) \<longleftrightarrow>
     (\<exists>s h. st = (s, head_group hash files vi drive_root s h) \<and> 1 < length (of_size vi s)
        \<and> 1 < length (head_group hash files vi drive_root s h))"
proof -
  have 2: "st \<in> set (group_steps order_p hash files vi drive_root (of_size vi s)) \<longleftrightarrow>
      (\<exists>h. st = (s, head_group hash files vi drive_root s h) \<and> 1 < length (head_group hash files vi drive_root s h))"
    if "1 < length (of_size vi s)" for s
    using group_size_of_size [OF assms(1) that]
    by (auto simp: group_steps_def set_keep_collisions [OF assms(3)] head_group_def)
  have "st \<in> set (concat (map (group_steps order_p hash files vi drive_root) (keep_collisions order_r (by_size vi)))) \<longleftrightarrow>
      (\<exists>s. 1 < length (of_size vi s) \<and> st \<in> set (group_steps order_p hash files vi drive_root (of_size vi s)))"
    by (auto simp: set_keep_collisions [OF assms(2)] of_size_def)
  then show ?thesis using 2 by (simp only: cong: conj_cong) blast
qed

lemma step_groups_iff:
  assumes "same_groups order_p"
  shows "g \<in> set (step_groups lower user order_p hash files (s, head_group hash files vi drive_root s h)) \<longleftrightarrow>
     (\<exists>d. g = judge lower user s (final_group hash files vi drive_root s h d)
        \<and> 1 < length (final_group hash files vi drive_root s h d))"
  by (auto simp: step_groups_def set_keep_collisions [OF assms] final_group_keyed)

lemma found_groups:
  assumes "wf_index vi" and "same_groups order_r" and "same_groups order_p"
    and "find_duplicates lower user order_r order_p hash files sched stopped1 stopped2 vi drive_root = Some (groups, summary)"
  shows "g \<in> set groups \<Longrightarrow> \<exists>s h d. g = judge lower user s (final_group hash files vi drive_root s h d)
        \<and> 1 < length (final_group hash files vi drive_root s h d)"
    and "\<not> ds_truncated summary \<Longrightarrow> 1 < length (final_group hash files vi drive_root s h d) \<Longrightarrow>
        judge lower user s (final_group hash files vi drive_root s h d) \<in> set groups"
proof -
  let ?steps = "concat (map (group_steps order_p hash files vi drive_root) (keep_collisions order_r (by_size vi)))"
  let ?taken = "filter (admitted sched ?steps) [0..<length ?steps]"
  from assms(4) have f: "set groups = (\<Union>i \<in> set ?taken. set (step_groups lower user order_p hash files (?steps ! i)))"
      "ds_truncated summary \<longleftrightarrow> ?taken \<noteq> [0..<length ?steps]"
    unfolding find_duplicates_def Let_def by (auto simp only: split: if_splits) auto
  show "\<exists>s h d. g = judge lower user s (final_group hash files vi drive_root s h d)
        \<and> 1 < length (final_group hash files vi drive_root s h d)" if "g \<in> set groups"
  proof -
    from that f(1) obtain i where i: "i < length ?steps" "g \<in> set (step_groups lower user order_p hash files (?steps ! i))"
      by auto
    then obtain s h where "?steps ! i = (s, head_group hash files vi drive_root s h)"
      using steps_iff [OF assms(1-3), of "?steps ! i" hash files drive_root] nth_mem [OF i(1)] by blast
    with i(2) show ?thesis using step_groups_iff [OF assms(3)] by metis
  qed
  show "judge lower user s (final_group hash files vi drive_root s h d) \<in> set groups"
    if "\<not> ds_truncated summary" "1 < length (final_group hash files vi drive_root s h d)"
  proof -
    note l = final_group_lengths [OF that(2)]
    have "(s, head_group hash files vi drive_root s h) \<in> set ?steps"
      using steps_iff [OF assms(1-3), of "(s, head_group hash files vi drive_root s h)" hash files drive_root] l by blast
    then obtain i where i: "i < length ?steps" "?steps ! i = (s, head_group hash files vi drive_root s h)"
      by (metis in_set_conv_nth)
    have "i \<in> set ?taken" using that(1) f(2) i(1) by (metis atLeastLessThan_upt atLeastLessThan_iff le0)
    moreover have "judge lower user s (final_group hash files vi drive_root s h d)
        \<in> set (step_groups lower user order_p hash files (?steps ! i))"
      unfolding i(2) step_groups_iff [OF assms(3)] using that(2) by blast
    ultimately show ?thesis using f(1) by blast
  qed
qed

section \<open>Exactness\<close>

text \<open>The reference: the files of one size in the table that can be read and whose bytes are \<open>c\<close>, in table order.\<close>

definition identical_files :: "opener \<Rightarrow> volume_index \<Rightarrow> str \<Rightarrow> u64 \<Rightarrow> bytes \<Rightarrow> str list" where
  "identical_files files vi drive_root s c =
     List.map_filter (\<lambda>(r, e).
        if \<not> is_directory e \<and> MIN_SIZE \<le> ebytes e \<and> ebytes e = s
        then (case path_of vi r drive_root of
                None \<Rightarrow> None
              | Some p \<Rightarrow> (case files p of None \<Rightarrow> None | Some f \<Rightarrow> if reads_through f \<and> of_data f = c then Some p else None))
        else None)
       (entries (snapshot vi))"

text \<open>The contents of the files of the table.\<close>

definition volume_contents :: "opener \<Rightarrow> volume_index \<Rightarrow> str \<Rightarrow> bytes set" where
  "volume_contents files vi drive_root =
     {of_data f | r e p f. (r, e) \<in> set (entries (snapshot vi)) \<and> path_of vi r drive_root = Some p \<and> files p = Some f}"

lemma in_map_filter_iff: "y \<in> set (List.map_filter f xs) \<longleftrightarrow> (\<exists>x \<in> set xs. f x = Some y)"
  by (induction xs) (auto simp: map_filter_Cons split: option.split)

lemma of_size_in_table: "r \<in> set (of_size vi s) \<Longrightarrow> \<exists>e. (r, e) \<in> set (entries (snapshot vi))"
  by (auto simp: of_size_def keyed_def by_size_def in_map_filter_iff split: if_splits)

text \<open>The files of one size, one head digest and one digest are those of one content, if that is told by its digest.\<close>

lemma final_group_identical:
  assumes "inj_on hash (volume_contents files vi drive_root)" and "c \<in> volume_contents files vi drive_root"
  shows "final_group hash files vi drive_root s (hash (take HEAD_BYTES c)) (hash c) = identical_files files vi drive_root s c"
proof -
  have same: "(head_hash hash files p = Some (hash (take HEAD_BYTES c)) \<and> full_hash hash files p = Some (hash c)) \<longleftrightarrow>
      (\<exists>f. files p = Some f \<and> reads_through f \<and> of_data f = c)"
    if "(r, e) \<in> set (entries (snapshot vi))" "path_of vi r drive_root = Some p" for r e p
  proof -
    have "of_data f = c" if f: "files p = Some f" "hash c = hash (of_data f)" for f
    proof -
      have "of_data f \<in> volume_contents files vi drive_root"
        using f(1) \<open>(r, e) \<in> _\<close> \<open>path_of vi r drive_root = Some p\<close> unfolding volume_contents_def by blast
      then show ?thesis using inj_onD [OF assms(1) _ assms(2)] f(2) by simp
    qed
    then show ?thesis unfolding both_hashes by auto
  qed
  have row: "(case path_of vi r drive_root of None \<Rightarrow> None
        | Some p \<Rightarrow> if head_hash hash files p = Some (hash (take HEAD_BYTES c)) \<and> full_hash hash files p = Some (hash c) then Some p else None)
      = (case path_of vi r drive_root of None \<Rightarrow> None
        | Some p \<Rightarrow> (case files p of None \<Rightarrow> None | Some f \<Rightarrow> if reads_through f \<and> of_data f = c then Some p else None))"
    if r: "(r, e) \<in> set (entries (snapshot vi))" for r e
    by (cases "path_of vi r drive_root") (auto simp: same [OF r] split: option.split)
  show ?thesis
    unfolding final_group_def of_size_def by_size_def identical_files_def keyed_map_filter map_filter_map_filter
    by (rule map_filter_cong) (auto simp: row)
qed

lemma final_group_content:
  assumes "p \<in> set (final_group hash files vi drive_root s h d)"
  shows "\<exists>f r. files p = Some f \<and> h = hash (take HEAD_BYTES (of_data f)) \<and> d = hash (of_data f)
    \<and> r \<in> set (of_size vi s) \<and> path_of vi r drive_root = Some p \<and> of_data f \<in> volume_contents files vi drive_root"
proof -
  from assms obtain r where r: "r \<in> set (of_size vi s)" "path_of vi r drive_root = Some p"
      "head_hash hash files p = Some h \<and> full_hash hash files p = Some d"
    unfolding final_group_def in_map_filter_iff by (auto split: option.splits if_splits)
  moreover obtain e where "(r, e) \<in> set (entries (snapshot vi))" using of_size_in_table [OF r(1)] by blast
  ultimately show ?thesis unfolding both_hashes volume_contents_def by blast
qed

lemma identical_content: "p \<in> set (identical_files files vi drive_root s c) \<Longrightarrow> c \<in> volume_contents files vi drive_root"
  unfolding identical_files_def in_map_filter_iff volume_contents_def
  by (fastforce split: option.splits if_splits)

text \<open>What is reported as identical is. Whatever the reads do, however many of them fail, in
  whatever order the threads run and even when the search stopped at its ceiling, as long as no two
  different files of the volume have one digest, every reported
  group has at least two copies, and all its copies are files of the table with the reported
  size whose bytes are the same.\<close>

theorem find_duplicates_sound:
  assumes "wf_index vi" and "same_groups order_r" and "same_groups order_p"
    and "inj_on hash (volume_contents files vi drive_root)"
    and "find_duplicates lower user order_r order_p hash files sched stopped1 stopped2 vi drive_root = Some (groups, summary)"
    and "g \<in> set groups"
  shows "2 \<le> length (copies g) \<and> (\<exists>c. \<forall>x \<in> set (copies g). \<exists>r e f.
      entry_at vi r = Some e \<and> \<not> is_directory e \<and> ebytes e = dg_bytes g
      \<and> path_of vi r drive_root = Some (fc_path x) \<and> files (fc_path x) = Some f \<and> of_data f = c)"
proof -
  obtain s h d where g: "g = judge lower user s (final_group hash files vi drive_root s h d)"
    and l: "1 < length (final_group hash files vi drive_root s h d)"
    using found_groups(1) [OF assms(1-3,5,6)] by blast
  let ?F = "final_group hash files vi drive_root s h d"
  have paths: "fc_path x \<in> set ?F" if "x \<in> set (copies g)" for x
    using that by (auto simp: g copies_judge)
  have bytes: "dg_bytes g = s" by (simp add: g judge_def Let_def)
  obtain p0 where "p0 \<in> set ?F" using l by (cases ?F) auto
  from final_group_content [OF this] obtain f0 :: open_file where
    f0: "d = hash (of_data f0)" "of_data f0 \<in> volume_contents files vi drive_root" by blast
  have "\<exists>r e f. entry_at vi r = Some e \<and> \<not> is_directory e \<and> ebytes e = dg_bytes g
      \<and> path_of vi r drive_root = Some (fc_path x) \<and> files (fc_path x) = Some f \<and> of_data f = of_data f0"
    if x: "x \<in> set (copies g)" for x
  proof -
    from final_group_content [OF paths [OF x]] obtain f r where
      f: "files (fc_path x) = Some f" "d = hash (of_data f)" "of_data f \<in> volume_contents files vi drive_root" and r: "r \<in> set (of_size vi s)" "path_of vi r drive_root = Some (fc_path x)"
      by blast
    have "of_data f = of_data f0" using inj_onD [OF assms(4) _ f(3) f0(2)] f(2) f0(1) by simp
    moreover obtain e where "entry_at vi r = Some e" "\<not> is_directory e" "ebytes e = s"
      using of_size_entry [OF assms(1) r(1)] by blast
    ultimately show ?thesis
      using f(1) r(2) bytes by (intro exI [of _ r] exI [of _ e] exI [of _ f]) simp
  qed
  moreover have "length (copies g) = length ?F" by (simp add: g copies_judge)
  ultimately show ?thesis using l by (intro conjI exI [of _ "of_data f0"]) auto
qed

text \<open>C11: the three passes find exactly the classes of identical files. When the search did not stop at
  its ceiling and no two different files of the volume have one digest, the groups reported, each by
  its size and the paths of its copies, are precisely the sets of two or more files of the table that
  can be read through, have one size, at least the smallest worth a row, and have the same bytes:
  the pass over sizes, the pass over heads, reads that come short or fail, the order of the hash maps
  and the schedule of the threads change nothing else.\<close>

theorem find_duplicates_exact:
  assumes "wf_index vi" and "same_groups order_r" and "same_groups order_p"
    and "inj_on hash (volume_contents files vi drive_root)"
    and "find_duplicates lower user order_r order_p hash files sched stopped1 stopped2 vi drive_root = Some (groups, summary)"
    and "\<not> ds_truncated summary"
  shows "(\<lambda>g. (dg_bytes g, mset (map fc_path (copies g)))) ` set groups
    = {(s, mset (identical_files files vi drive_root s c)) | s c. 1 < length (identical_files files vi drive_root s c)}"
    (is "?found = ?spec")
proof -
  have view: "(dg_bytes (judge lower user s ps), mset (map fc_path (copies (judge lower user s ps)))) = (s, mset ps)" for s ps
  proof -
    have "map fc_path (map (as_copy lower user) ps) = ps" by (simp add: comp_def)
    then have "mset (map fc_path (copies (judge lower user s ps))) = mset ps"
      by (metis (no_types, lifting) copies_judge mset_map mset_sort)
    then show ?thesis by (simp add: judge_def Let_def)
  qed
  have "y \<in> ?spec" if "y \<in> ?found" for y
  proof -
    from that obtain g where g: "g \<in> set groups" "y = (dg_bytes g, mset (map fc_path (copies g)))" by blast
    then obtain s h d where f: "g = judge lower user s (final_group hash files vi drive_root s h d)"
        "1 < length (final_group hash files vi drive_root s h d)"
      using found_groups(1) [OF assms(1-3,5)] by blast
    then obtain p where "p \<in> set (final_group hash files vi drive_root s h d)"
      by (cases "final_group hash files vi drive_root s h d") auto
    from final_group_content [OF this] obtain c where "h = hash (take HEAD_BYTES c)" "d = hash c"
      "c \<in> volume_contents files vi drive_root" by blast
    with f g(2) have "y = (s, mset (identical_files files vi drive_root s c))"
        "1 < length (identical_files files vi drive_root s c)"
      using view final_group_identical [OF assms(4)] by simp_all
    then show ?thesis by blast
  qed
  moreover have "(s, mset (identical_files files vi drive_root s c)) \<in> ?found"
    if l: "1 < length (identical_files files vi drive_root s c)" for s c
  proof -
    obtain p where "p \<in> set (identical_files files vi drive_root s c)" using l by (cases "identical_files files vi drive_root s c") auto
    then have "c \<in> volume_contents files vi drive_root" by (rule identical_content)
    note same = final_group_identical [OF assms(4) this]
    show ?thesis
      using found_groups(2) [OF assms(1-3,5,6), of s "hash (take HEAD_BYTES c)" "hash c"] view l
      unfolding same by (metis (no_types, lifting) image_eqI)
  qed
  ultimately show ?thesis by blast
qed

section \<open>Two copies and another file on a small volume\<close>

definition twin_entry :: "str \<Rightarrow> mft_entry" where
  "twin_entry n = \<lparr>parent = 5, ename = n, is_directory = False, ebytes = 16777216, modified = 0, created = 0, accessed = 0\<rparr>"

definition twin_index :: volume_index where
  "twin_index = build \<lparr>entries = [(7, twin_entry ''a''), (8, twin_entry ''b''), (9, twin_entry ''c'')], root = 5, skipped = 0,
     stats = default_stats\<rparr>"

definition twin_files :: opener where
  "twin_files path = Some \<lparr>of_data = (if path = slashes ''d:/c'' then [1, 2, 4] else [1, 2, 3]), of_short = (\<lambda>pos. 0), of_fault = (\<lambda>pos. False)\<rparr>"

text \<open>A digest of one byte.\<close>

definition small_digest :: "bytes \<Rightarrow> bytes" where
  "small_digest b = [sum_list b]"

definition twin_search :: "(duplicate_group list \<times> duplicate_summary) option" where
  "twin_search = find_duplicates (\<lambda>s. s) ari (\<lambda>gs. gs) (\<lambda>gs. gs) small_digest twin_files [0] False False twin_index ''d:''"

lemma twin_entries: "entries (snapshot twin_index) = [(7, twin_entry ''a''), (8, twin_entry ''b''), (9, twin_entry ''c'')]"
  "root (snapshot twin_index) = 5"
  by (simp_all add: twin_index_def build_def Let_def split: prod.split)

lemma twin_laws:
  "wf_index twin_index" "same_groups (\<lambda>gs. gs)" "inj_on small_digest (volume_contents twin_files twin_index ''d:'')"
proof -
  have "volume_contents twin_files twin_index ''d:'' \<subseteq> {[1, 2, 3], [1, 2, 4]}"
    by (auto simp: volume_contents_def twin_files_def)
  moreover have "inj_on small_digest {[1, 2, 3], [1, 2, 4]}" by (simp add: small_digest_def)
  ultimately show "inj_on small_digest (volume_contents twin_files twin_index ''d:'')" by (rule inj_on_subset [rotated])
qed (simp_all add: wf_index_def twin_entries same_groups_def)

lemma small_digest_collides: "small_digest [1, 2] = small_digest [3]" by (simp add: small_digest_def)

lemma twin_reads: "reads_through (the (twin_files p))" "head_hash small_digest twin_files p = Some (small_digest (of_data (the (twin_files p))))"
  "full_hash small_digest twin_files p = Some (small_digest (of_data (the (twin_files p))))"
proof -
  have f: "twin_files p = Some (the (twin_files p))" "length (of_data (the (twin_files p))) \<le> HEAD_BYTES"
    by (simp_all add: twin_files_def HEAD_BYTES_def)
  show t: "reads_through (the (twin_files p))"
    using head_loop_total [of "the (twin_files p)" 0] full_loop_total [of "the (twin_files p)" 0]
    by (auto simp: reads_through_def twin_files_def)
  show "head_hash small_digest twin_files p = Some (small_digest (of_data (the (twin_files p))))"
    "full_hash small_digest twin_files p = Some (small_digest (of_data (the (twin_files p))))"
    using t f(2) hashes_of_file [of twin_files p "the (twin_files p)" small_digest] f(1) by (simp_all add: reads_through_def)
qed

lemma twin_paths:
  "path_of twin_index 7 ''d:'' = Some (slashes ''d:/a'')" "path_of twin_index 8 ''d:'' = Some (slashes ''d:/b'')"
  "path_of twin_index 9 ''d:'' = Some (slashes ''d:/c'')"
proof -
  have n: "(64 :: nat) = Suc (Suc 62)" by simp
  show "path_of twin_index 7 ''d:'' = Some (slashes ''d:/a'')" "path_of twin_index 8 ''d:'' = Some (slashes ''d:/b'')"
    "path_of twin_index 9 ''d:'' = Some (slashes ''d:/c'')"
    unfolding path_of_def n parent_walk.simps
    by (simp_all add: twin_entries entry_at_def twin_entry_def render_path_def slashes_def trim_end_matches_def is_separator_def)
qed

lemma twin_by_size: "by_size twin_index = [(16777216, 7), (16777216, 8), (16777216, 9)]"
  by (simp add: by_size_def twin_entries map_filter_Cons twin_entry_def MIN_SIZE_def)

lemma twin_contents: "of_data (the (twin_files (slashes ''d:/a''))) = [1, 2, 3]" "of_data (the (twin_files (slashes ''d:/b''))) = [1, 2, 3]"
  "of_data (the (twin_files (slashes ''d:/c''))) = [1, 2, 4]"
  by (simp_all add: twin_files_def slashes_def)

lemma twin_found: "\<exists>groups summary. twin_search = Some (groups, summary) \<and> \<not> ds_truncated summary"
proof -
  have "entry_at twin_index 7 = Some (twin_entry ''a'')" by (simp add: twin_entries entry_at_def)
  then have "group_size twin_index [7, 8, 9] = Some 16777216" by (simp add: group_size_def twin_entry_def)
  then have "concat (map (group_steps (\<lambda>gs. gs) small_digest twin_files twin_index ''d:'')
      (keep_collisions (\<lambda>gs. gs) (by_size twin_index))) = [(16777216, [slashes ''d:/a'', slashes ''d:/b''])]"
    by (simp add: twin_by_size keep_collisions_def grouped_def group_steps_def group_heads_def map_filter_Cons twin_paths
        twin_reads twin_contents small_digest_def)
  then show ?thesis
    by (simp add: twin_search_def find_duplicates_def Let_def admitted_def wanted_def MAX_FULL_HASH_BYTES_def)
qed

lemma twin_chosen:
  "(case twin_files p of None \<Rightarrow> None | Some f \<Rightarrow> if reads_through f \<and> of_data f = c then Some p else None)
     = (if of_data (the (twin_files p)) = c then Some p else None)"
  using twin_reads(1) [of p] by (simp add: twin_files_def)

lemma twin_identical: "identical_files twin_files twin_index ''d:'' 16777216 [1, 2, 3] = [slashes ''d:/a'', slashes ''d:/b'']"
proof -
  have e: "\<not> is_directory (twin_entry n)" "ebytes (twin_entry n) = 16777216" for n
    by (simp_all add: twin_entry_def)
  show ?thesis
    unfolding identical_files_def twin_entries map_filter_Cons twin_chosen
    by (simp add: e twin_paths twin_contents) (simp add: MIN_SIZE_def)
qed

theorem find_duplicates_exact_witness:
  "\<exists>groups summary. twin_search = Some (groups, summary)
     \<and> (16777216, {#slashes ''d:/a'', slashes ''d:/b''#}) \<in> (\<lambda>g. (dg_bytes g, mset (map fc_path (copies g)))) ` set groups"
proof -
  obtain groups summary where t: "twin_search = Some (groups, summary)" "\<not> ds_truncated summary" using twin_found by blast
  have "(16777216, {#slashes ''d:/a'', slashes ''d:/b''#}) \<in> (\<lambda>g. (dg_bytes g, mset (map fc_path (copies g)))) ` set groups"
    unfolding find_duplicates_exact [OF twin_laws(1,2,2,3) t(1) [unfolded twin_search_def] t(2)]
    by (rule CollectI, intro exI [of _ 16777216] exI [of _ "[1, 2, 3]"]) (simp add: twin_identical)
  with t(1) show ?thesis by blast
qed

theorem find_duplicates_sound_witness:
  "\<exists>groups summary. twin_search = Some (groups, summary) \<and> (\<forall>g \<in> set groups. 2 \<le> length (copies g))"
proof -
  obtain groups summary where t: "twin_search = Some (groups, summary)" using twin_found by blast
  with find_duplicates_sound [OF twin_laws(1,2,2,3) t [unfolded twin_search_def]] show ?thesis by blast
qed

end
