(* ===== verification/Kam_Commands.thy ===== *)
theory Kam_Commands
  imports Kam_Env Kam_Files
begin

text \<open>
  What an auto-start command really runs, \<open>crates/kam-scanner/src/persistence.rs\<close>: the executable
  at the front of a command line, the arguments behind it, and, behind a program whose job is to
  run something else, the file it is told to run. A machine is its environment, its files and the
  lower-casing of text (\<open>str::to_lowercase\<close>).
\<close>

section \<open>Where an entry was found\<close>

datatype anchor = RunKey | RunOnceKey | StartupFolder | Service | ScheduledTask

primrec tenacity :: "anchor \<Rightarrow> nat" where
  "tenacity RunOnceKey = 1"
| "tenacity StartupFolder = 2"
| "tenacity RunKey = 3"
| "tenacity ScheduledTask = 4"
| "tenacity Service = 5"

primrec anchor_kind :: "anchor \<Rightarrow> str" where
  "anchor_kind RunKey = ''run_key''"
| "anchor_kind RunOnceKey = ''run_once_key''"
| "anchor_kind StartupFolder = ''startup_item''"
| "anchor_kind Service = ''service''"
| "anchor_kind ScheduledTask = ''scheduled_task''"

primrec anchor_label :: "anchor \<Rightarrow> str" where
  "anchor_label RunKey = ''a sign-in entry''"
| "anchor_label RunOnceKey = ''a run-once entry''"
| "anchor_label StartupFolder = ''a Startup folder item''"
| "anchor_label Service = ''a Windows service''"
| "anchor_label ScheduledTask = ''a scheduled task''"

record start_entry =
  se_name :: str
  se_anchor :: anchor
  se_location :: str
  se_command :: str
  se_executable :: "str option"
  se_payload :: "str option"
  se_host :: "str option"
  se_hidden :: bool
  se_machine_wide :: bool

definition entry_target :: "start_entry \<Rightarrow> str option" where
  "entry_target e = (case se_payload e of Some p \<Rightarrow> Some p | None \<Rightarrow> se_executable e)"

section \<open>The machine\<close>

record machine =
  mc_env :: environment
  mc_fs :: file_system
  mc_lower :: "str \<Rightarrow> str"

text \<open>\<open>Path::is_file\<close>, which follows links, and a path that ends in a separator names no file.\<close>

definition is_file :: "machine \<Rightarrow> str \<Rightarrow> bool" where
  "is_file mc path \<longleftrightarrow>
     path \<noteq> [] \<and> \<not> is_path_separator (last path) \<and> fault (mc_fs mc) OpMetadata path = None
     \<and> (case resolve_node (mc_fs mc) path of Some (FileNode contents) \<Rightarrow> True | _ \<Rightarrow> False)"

text \<open>
  \<open>Path::file_name\<close>: the last component, when it is a name. A drive is not part of it, and of
  a path that begins with two separators the server and the share are not.
\<close>

definition file_name :: "str \<Rightarrow> str option" where
  "file_name path =
     (let parts = split_on is_path_separator (if has_drive path then drop 2 path else path);
          inner = (if has_root path \<and> has_root (tl path) then drop 4 parts else parts)
      in case rev (filter (\<lambda>c. c \<noteq> [] \<and> c \<noteq> ''.'') inner) of
           [] \<Rightarrow> None
         | c # cs \<Rightarrow> if c = ''..'' then None else Some c)"

text \<open>\<open>Path::file_stem\<close> and \<open>Path::extension\<close>: the name before and behind its last dot, if it has one past the start.\<close>

definition split_extension :: "str \<Rightarrow> str \<times> str option" where
  "split_extension nm =
     (let ext = rev (takeWhile (\<lambda>c. c \<noteq> CHR ''.'') (rev nm)); stem = take (length nm - length ext - 1) nm
      in if length ext < length nm \<and> stem \<noteq> [] then (stem, Some ext) else (nm, None))"

definition file_stem :: "str \<Rightarrow> str option" where
  "file_stem path = map_option (fst \<circ> split_extension) (file_name path)"

definition extension :: "str \<Rightarrow> str option" where
  "extension path = (case file_name path of None \<Rightarrow> None | Some nm \<Rightarrow> snd (split_extension nm))"

definition file_name_lower :: "machine \<Rightarrow> str \<Rightarrow> str" where
  "file_name_lower mc path = (case file_name path of None \<Rightarrow> [] | Some n \<Rightarrow> mc_lower mc n)"

definition env_var :: "machine \<Rightarrow> str \<Rightarrow> str option" where
  "env_var mc nm = env_lookup (mc_env mc) nm"

section \<open>Programs that run other programs\<close>

definition HOSTS :: "str list" where
  "HOSTS = [''cmd.exe'', ''powershell.exe'', ''pwsh.exe'', ''wscript.exe'', ''cscript.exe'', ''mshta.exe'',
     ''rundll32.exe'', ''regsvr32.exe'', ''msbuild.exe'', ''msiexec.exe'', ''conhost.exe'', ''python.exe'',
     ''pythonw.exe'', ''node.exe'', ''java.exe'', ''javaw.exe'']"

definition is_host :: "machine \<Rightarrow> str \<Rightarrow> bool" where
  "is_host mc nm \<longleftrightarrow> mc_lower mc nm \<in> set HOSTS"

record resolved =
  rs_executable :: "str option"
  rs_host :: "str option"
  rs_payload :: "str option"

definition no_resolution :: resolved where
  "no_resolution = \<lparr>rs_executable = None, rs_host = None, rs_payload = None\<rparr>"

datatype expand_as = Machine | For user_context

primrec expand_apply :: "machine \<Rightarrow> expand_as \<Rightarrow> str \<Rightarrow> str" where
  "expand_apply mc Machine s = expand (mc_env mc) s"
| "expand_apply mc (For user) s = expand_for (mc_env mc) user s"

section \<open>The executable at the front\<close>

definition quote_char :: char where
  "quote_char = CHR 0x22"

definition system_dirs :: "str \<Rightarrow> str list" where
  "system_dirs rt =
     [path_join rt ''System32'', path_join rt (slashes ''System32/WindowsPowerShell/v1.0''),
      path_join rt ''SysWOW64'']"

definition locate :: "machine \<Rightarrow> str \<Rightarrow> str option" where
  "locate mc txt =
     (let t = trim txt
      in if t = [] then None
         else if is_file mc t then Some t
         else if list_ex is_path_separator t then None
         else (case env_var mc ''SystemRoot'' of
                 None \<Rightarrow> None
               | Some rt \<Rightarrow>
                   find (is_file mc)
                     (concat (map (\<lambda>nm. map (\<lambda>dir. path_join dir nm) (system_dirs rt)) [t, t @ ''.exe'']))))"

definition is_switch :: "str \<Rightarrow> bool" where
  "is_switch t \<longleftrightarrow> prefix ''/'' t \<or> prefix ''-'' t"

text \<open>The longer and longer beginnings of an unquoted command.\<close>

fun try_prefixes :: "machine \<Rightarrow> str list \<Rightarrow> str list \<Rightarrow> (str \<times> str) option" where
  "try_prefixes mc taken [] = None"
| "try_prefixes mc taken (t # ts) =
     (case locate mc (join_with '' '' (taken @ [t])) of
        Some candidate \<Rightarrow> Some (candidate, trim (join_with '' '' ts))
      | None \<Rightarrow> (if ts \<noteq> [] \<and> is_switch (hd ts) then None else try_prefixes mc (taken @ [t]) ts))"

definition split_executable :: "machine \<Rightarrow> str \<Rightarrow> (str \<times> str) option" where
  "split_executable mc expanded =
     (let trimmed = trim expanded;
          unquoted = try_prefixes mc [] (split_on (\<lambda>c. c = CHR '' '') trimmed)
      in if trimmed = [] then None
         else (case strip_prefix [quote_char] trimmed of
                 None \<Rightarrow> unquoted
               | Some rest \<Rightarrow>
                   (case split_once quote_char rest of
                      None \<Rightarrow> unquoted
                    | Some (front, behind) \<Rightarrow>
                        map_option (\<lambda>candidate. (candidate, trim behind)) (locate mc front))))"

definition executable_in :: "machine \<Rightarrow> str \<Rightarrow> str option" where
  "executable_in mc command = map_option fst (split_executable mc (expand (mc_env mc) (trim command)))"

section \<open>Arguments\<close>

fun tokenise_loop :: "str \<Rightarrow> str \<Rightarrow> bool \<Rightarrow> bool \<Rightarrow> str list" where
  "tokenise_loop [] current quoted had_quote = (if current \<noteq> [] \<or> had_quote then [current] else [])"
| "tokenise_loop (c # cs) current quoted had_quote =
     (if c = quote_char then tokenise_loop cs current (\<not> quoted) True
      else if c = CHR '' '' \<and> \<not> quoted
      then (if current \<noteq> [] \<or> had_quote then current # tokenise_loop cs [] quoted False
            else tokenise_loop cs current quoted False)
      else tokenise_loop cs (current @ [c]) quoted had_quote)"

definition tokenise :: "str \<Rightarrow> str list" where
  "tokenise s = tokenise_loop s [] False False"

text \<open>The token behind the first of several flags, the first plain token and the first with an ending.\<close>

fun after_flag :: "machine \<Rightarrow> str list \<Rightarrow> str list \<Rightarrow> str option" where
  "after_flag mc flags [] = None"
| "after_flag mc flags (t # ts) =
     (if mc_lower mc t \<in> set flags then (case ts of [] \<Rightarrow> None | next_token # rest \<Rightarrow> Some next_token)
      else after_flag mc flags ts)"

definition first_plain :: "str list \<Rightarrow> str option" where
  "first_plain tokens = find (\<lambda>t. \<not> is_switch t) tokens"

definition ending_in :: "machine \<Rightarrow> str list \<Rightarrow> str list \<Rightarrow> str option" where
  "ending_in mc endings tokens = find (\<lambda>t. list_ex (ends_with (mc_lower mc t)) endings) tokens"

definition or_else :: "'a option \<Rightarrow> 'a option \<Rightarrow> 'a option" where
  "or_else a b = (case a of Some v \<Rightarrow> Some v | None \<Rightarrow> b)"

definition payload_token :: "machine \<Rightarrow> str \<Rightarrow> str list \<Rightarrow> str option" where
  "payload_token mc host tokens =
     (if host = ''cmd.exe''
      then or_else (after_flag mc [''/c'', ''/k''] tokens) (ending_in mc [''.cmd'', ''.bat''] tokens)
      else if host \<in> {''powershell.exe'', ''pwsh.exe''}
      then or_else (after_flag mc [''-file'', ''-f'', ''-filepath''] tokens) (ending_in mc [''.ps1''] tokens)
      else if host \<in> {''wscript.exe'', ''cscript.exe'', ''mshta.exe'', ''regsvr32.exe'', ''rundll32.exe''}
      then first_plain tokens
      else if host = ''msbuild.exe''
      then or_else (first_plain tokens)
             (ending_in mc [''.csproj'', ''.vbproj'', ''.proj'', ''.targets'', ''.props'', ''.sln''] tokens)
      else if host = ''msiexec.exe''
      then or_else (after_flag mc [''/i'', ''/package'', ''/a'', ''/x'', ''/f'', ''/fa'', ''/p''] tokens)
             (ending_in mc [''.msi'', ''.msp''] tokens)
      else if host \<in> {''python.exe'', ''pythonw.exe'', ''node.exe''} then first_plain tokens
      else if host \<in> {''java.exe'', ''javaw.exe''} then after_flag mc [''-jar''] tokens
      else None)"

definition payload_of :: "machine \<Rightarrow> str \<Rightarrow> str \<Rightarrow> expand_as \<Rightarrow> str option" where
  "payload_of mc host arguments ex =
     (case payload_token mc host (tokenise arguments) of
        None \<Rightarrow> None
      | Some token \<Rightarrow>
        (let candidate = (if host = ''rundll32.exe'' then takeWhile (\<lambda>c. c \<noteq> CHR '','') token else token);
             path = expand_apply mc ex (trim candidate)
         in if is_file mc path then Some path else None))"

section \<open>Taking a command apart\<close>

fun skip_switches :: "machine \<Rightarrow> str list \<Rightarrow> str list" where
  "skip_switches mc [] = []"
| "skip_switches mc (t # ts) =
     (if mc_lower mc t \<in> {''--headless'', ''--forcev1'', ''--forcenotv2''} then skip_switches mc ts
      else if prefix ''--'' (mc_lower mc t) then skip_switches mc (drop 1 ts)
      else t # ts)"

definition requote :: "str list \<Rightarrow> str" where
  "requote tokens =
     join_with '' '' (map (\<lambda>t. if CHR '' '' \<in> set t then [quote_char] @ t @ [quote_char] else t) tokens)"

function resolve_expanded :: "machine \<Rightarrow> str \<Rightarrow> nat \<Rightarrow> expand_as \<Rightarrow> resolved" where
  "resolve_expanded mc expanded depth ex =
     (case split_executable mc expanded of
        None \<Rightarrow> no_resolution
      | Some (executable, rest) \<Rightarrow>
        (let nm = file_name_lower mc executable;
             alone = no_resolution\<lparr>rs_executable := Some executable\<rparr>
         in if nm = ''conhost.exe'' \<and> depth < 2
            then (case skip_switches mc (tokenise rest) of
                    [] \<Rightarrow> alone
                  | t # ts \<Rightarrow>
                    (let inner = resolve_expanded mc (requote (t # ts)) (depth + 1) ex
                     in if rs_executable inner \<noteq> None
                        then inner\<lparr>rs_host := or_else (rs_host inner) (Some ''conhost.exe'')\<rparr>
                        else alone))
            else if nm \<in> set HOSTS
            then (case payload_of mc nm rest ex of
                    Some payload \<Rightarrow>
                      \<lparr>rs_executable = Some executable, rs_host = Some nm, rs_payload = Some payload\<rparr>
                  | None \<Rightarrow> alone)
            else alone))"
  by pat_completeness auto
termination
  by (relation "measure (\<lambda>(mc, expanded, depth, ex). 2 - depth)") auto

declare resolve_expanded.simps [simp del]

definition resolve_with :: "machine \<Rightarrow> str \<Rightarrow> expand_as \<Rightarrow> resolved" where
  "resolve_with mc command ex = resolve_expanded mc (expand_apply mc ex (trim command)) 0 ex"

definition resolve_command :: "machine \<Rightarrow> str \<Rightarrow> resolved" where
  "resolve_command mc command = resolve_with mc command Machine"

definition resolve_for :: "machine \<Rightarrow> str \<Rightarrow> user_context \<Rightarrow> resolved" where
  "resolve_for mc command user = resolve_with mc command (For user)"

text \<open>\<open>entry\<close>: an entry from a command, with what it runs.\<close>

definition make_entry :: "machine \<Rightarrow> str \<Rightarrow> anchor \<Rightarrow> str \<Rightarrow> str \<Rightarrow> bool \<Rightarrow> user_context option \<Rightarrow> start_entry" where
  "make_entry mc nm anch location command hidden owner =
     (let r = (case owner of Some user \<Rightarrow> resolve_for mc command user | None \<Rightarrow> resolve_command mc command)
      in \<lparr>se_name = nm, se_anchor = anch, se_location = location, se_command = command,
          se_executable = rs_executable r, se_payload = rs_payload r, se_host = rs_host r,
          se_hidden = hidden, se_machine_wide = (owner = None)\<rparr>)"

section \<open>Tokens\<close>

text \<open>A character that is visible, ASCII and no space.\<close>

definition graphic :: "char \<Rightarrow> bool" where
  "graphic c \<longleftrightarrow> 33 \<le> (of_char c :: nat) \<and> (of_char c :: nat) \<le> 126"

text \<open>A token as commands are written: without quotes and variables, and no blanks at its ends.\<close>

definition written :: "str \<Rightarrow> bool" where
  "written t \<longleftrightarrow> t \<noteq> [] \<and> quote_char \<notin> set t \<and> CHR ''%'' \<notin> set t \<and> graphic (hd t) \<and> graphic (last t)"

definition quote_token :: "str \<Rightarrow> str" where
  "quote_token t = (if CHR '' '' \<in> set t then [quote_char] @ t @ [quote_char] else t)"

lemma requote_Cons:
  "requote [] = []" "requote [t] = quote_token t"
  "requote (t # u # ts) = quote_token t @ '' '' @ requote (u # ts)"
  by (simp_all add: requote_def quote_token_def)

lemma requote_step: "requote (t # ts) = quote_token t @ (if ts = [] then [] else '' '' @ requote ts)"
  by (cases ts) (simp_all add: requote_Cons)

lemma tokenise_loop_run:
  "list_all (\<lambda>c. c \<noteq> quote_char \<and> (c = CHR '' '' \<longrightarrow> q)) t \<Longrightarrow>
   tokenise_loop (t @ s) cur q h = tokenise_loop s (cur @ t) q h"
  by (induction t arbitrary: cur) auto

lemma tokenise_quote_token:
  assumes "quote_char \<notin> set t"
  shows "tokenise_loop (quote_token t @ s) [] False False = tokenise_loop s t False (CHR '' '' \<in> set t)"
proof (cases "CHR '' '' \<in> set t")
  case True
  have "list_all (\<lambda>c. c \<noteq> quote_char \<and> (c = CHR '' '' \<longrightarrow> True)) t" using assms by (auto simp: list_all_iff)
  from tokenise_loop_run [OF this, of "[quote_char] @ s" "[]" True] True show ?thesis
    by (simp add: quote_token_def)
next
  case False
  then have "list_all (\<lambda>c. c \<noteq> quote_char \<and> (c = CHR '' '' \<longrightarrow> False)) t" using assms by (auto simp: list_all_iff)
  from tokenise_loop_run [OF this, of s "[]" False] False show ?thesis by (simp add: quote_token_def)
qed

lemma space_no_quote [simp]: "CHR '' '' \<noteq> quote_char"
  by (simp add: quote_char_def)

lemma tokenise_requote:
  "list_all (\<lambda>t. t \<noteq> [] \<and> quote_char \<notin> set t) ts \<Longrightarrow> tokenise (requote ts) = ts"
proof (induction ts)
  case Nil
  then show ?case by (simp add: requote_Cons tokenise_def)
next
  case (Cons t ts)
  then show ?case
    using tokenise_quote_token [of t "[]"] tokenise_quote_token [of t "CHR '' '' # requote ts"]
    by (cases "ts = []") (simp_all add: requote_step tokenise_def)
qed

lemma tokenise_loop_no_quote:
  "quote_char \<notin> set cur \<Longrightarrow> t \<in> set (tokenise_loop s cur q h) \<Longrightarrow> quote_char \<notin> set t"
  by (induction s cur q h rule: tokenise_loop.induct) (auto split: if_splits)

text \<open>Writing the tokens of a text out again and reading them gives the same tokens, empty ones apart.\<close>

lemma tokenise_stable:
  assumes "[] \<notin> set (tokenise s)"
  shows "tokenise (requote (tokenise s)) = tokenise s"
  using assms tokenise_loop_no_quote [of "[]" _ s False False]
  by (intro tokenise_requote) (auto simp: list_all_iff tokenise_def)

section \<open>Blanks and variables\<close>

lemma whitespace_not_graphic: "is_whitespace u \<Longrightarrow> u \<noteq> [] \<and> \<not> graphic (hd u) \<and> \<not> graphic (last u)"
  by (auto simp: is_whitespace_def graphic_def split: list.splits)

lemma trim_graphic:
  assumes "s \<noteq> []" and "graphic (hd s)" and "graphic (last s)"
  shows "trim s = s"
proof -
  obtain c cs where s: "s = c # cs" using assms(1) by (cases s) auto
  have "\<not> is_whitespace (hd (utf8_chars s))"
    using assms(2) whitespace_not_graphic [of "hd (utf8_chars s)"] by (auto simp: s)
  then have start: "trim_start_matches is_whitespace (utf8_chars s) = utf8_chars s"
    by (cases "utf8_chars s") (auto simp: trim_start_matches_def)
  have "\<not> is_whitespace (last (utf8_chars s))"
    using assms last_utf8_chars [of s] whitespace_not_graphic by metis
  then have "trim_end_matches is_whitespace (utf8_chars s) = utf8_chars s"
    using assms(1) by (cases "rev (utf8_chars s)") (auto simp: trim_end_matches_def last_rev hd_rev)
  then show ?thesis by (simp add: trim_def start)
qed

lemma expand_with_none: "CHR ''%'' \<notin> set s \<Longrightarrow> expand_with g s = s"
  by (subst expand_with.simps) (simp add: split_once_None [THEN iffD2])

lemma expand_apply_none [simp]: "CHR ''%'' \<notin> set s \<Longrightarrow> expand_apply mc ex s = s"
  by (cases ex) (simp_all add: expand_def expand_for_def expand_with_none)

lemma requote_ends:
  assumes "list_all written ts" and "ts \<noteq> []"
  shows "requote ts \<noteq> [] \<and> graphic (hd (requote ts)) \<and> graphic (last (requote ts)) \<and> CHR ''%'' \<notin> set (requote ts)"
  using assms
proof (induction ts)
  case (Cons t ts)
  have "graphic quote_char" by (simp add: graphic_def quote_char_def)
  then have t: "quote_token t \<noteq> [] \<and> graphic (hd (quote_token t)) \<and> graphic (last (quote_token t))
      \<and> CHR ''%'' \<notin> set (quote_token t)"
    using Cons.prems by (auto simp: quote_token_def written_def quote_char_def)
  then show ?case using Cons by (cases "ts = []") (auto simp: requote_step)
qed simp

lemma trim_requote [simp]: "list_all written ts \<Longrightarrow> trim (requote ts) = requote ts"
  by (cases "ts = []") (use requote_ends trim_graphic in \<open>auto simp: requote_Cons trim_def trim_start_matches_def
      trim_end_matches_def\<close>)

section \<open>What is resolved\<close>

lemma split_on_space_front:
  "CHR '' '' \<notin> set w \<Longrightarrow> split_on (\<lambda>c. c = CHR '' '') (w @ CHR '' '' # s) = w # split_on (\<lambda>c. c = CHR '' '') s"
  by (induction w) auto

text \<open>A command written as a program's name without blanks and tokens behind it.\<close>

lemma split_executable_requote:
  assumes "list_all written (host # args)" and "CHR '' '' \<notin> set host" and "locate mc host = Some h"
  shows "split_executable mc (requote (host # args)) = Some (h, requote args)"
proof -
  have host: "host \<noteq> []" "hd host \<noteq> quote_char" using assms(1) by (cases host; auto simp: written_def)+
  have req: "requote (host # args) = host @ (if args = [] then [] else '' '' @ requote args)"
    using assms(2) by (simp add: requote_step quote_token_def)
  have "strip_prefix [quote_char] (requote (host # args)) = None"
    using host unfolding req by (cases host) (auto simp: strip_prefix_def)
  moreover have "try_prefixes mc [] (split_on (\<lambda>c. c = CHR '' '') (requote (host # args))) = Some (h, requote args)"
  proof (cases "args = []")
    case True
    have "split_on (\<lambda>c. c = CHR '' '') host = [host]"
      using assms(2) by (intro split_on_no_sep) (auto simp: list_all_iff)
    with True assms(2,3) show ?thesis
      by (simp add: requote_Cons quote_token_def trim_def trim_start_matches_def trim_end_matches_def)
  next
    case False
    with assms show ?thesis by (simp add: req split_on_space_front)
  qed
  moreover have "trim (requote (host # args)) = requote (host # args)" "requote (host # args) \<noteq> []"
    using trim_requote [OF assms(1)] host by (simp_all add: req)
  ultimately show ?thesis by (simp add: split_executable_def Let_def)
qed

lemma locate_is_file: "locate mc t = Some p \<Longrightarrow> is_file mc p"
  by (auto simp: locate_def Let_def find_Some_iff split: if_splits option.splits)

lemma try_prefixes_is_file: "try_prefixes mc taken ts = Some (p, rest) \<Longrightarrow> is_file mc p"
  by (induction mc taken ts rule: try_prefixes.induct) (auto split: option.splits if_splits dest: locate_is_file)

lemma split_executable_is_file: "split_executable mc s = Some (p, rest) \<Longrightarrow> is_file mc p"
  by (auto simp: split_executable_def Let_def split: if_splits option.splits
      dest: locate_is_file try_prefixes_is_file)

lemma payload_of_is_file: "payload_of mc nm s ex = Some p \<Longrightarrow> is_file mc p"
  by (auto simp: payload_of_def Let_def split: if_splits option.splits)

definition resolution_ok :: "machine \<Rightarrow> resolved \<Rightarrow> bool" where
  "resolution_ok mc r \<longleftrightarrow>
     pred_option (is_file mc) (rs_executable r) \<and> pred_option (is_file mc) (rs_payload r)
     \<and> (rs_payload r \<noteq> None \<longrightarrow> rs_host r \<noteq> None) \<and> (rs_host r \<noteq> None \<longrightarrow> rs_executable r \<noteq> None)
     \<and> pred_option (\<lambda>host. host \<in> set HOSTS) (rs_host r)"

lemma resolve_expanded_ok: "resolution_ok mc (resolve_expanded mc s depth ex)"
proof (induction mc s depth ex rule: resolve_expanded.induct)
  case (1 mc expanded depth ex)
  show ?case
  proof (cases "split_executable mc expanded")
    case None
    then show ?thesis by (subst resolve_expanded.simps) (simp add: resolution_ok_def no_resolution_def)
  next
    case (Some er)
    obtain exe rest where er: "er = (exe, rest)" by (cases er)
    note split = Some [unfolded er]
    note exe = split_executable_is_file [OF split]
    let ?nm = "file_name_lower mc exe"
    show ?thesis
    proof (cases "?nm = ''conhost.exe'' \<and> depth < 2")
      case True
      show ?thesis
      proof (cases "skip_switches mc (tokenise rest)")
        case (Cons t ts)
        from 1 [OF split refl refl refl True Cons] split True Cons exe show ?thesis
          by (subst resolve_expanded.simps)
            (auto simp: Let_def resolution_ok_def no_resolution_def or_else_def HOSTS_def split: option.splits)
      qed (use split True exe in \<open>subst resolve_expanded.simps, simp add: resolution_ok_def no_resolution_def\<close>)
    next
      case False
      with split exe show ?thesis
        by (subst resolve_expanded.simps)
          (auto simp: Let_def resolution_ok_def no_resolution_def split: option.splits dest: payload_of_is_file)
    qed
  qed
qed

text \<open>Only a console host looks at how deep it is nested.\<close>

lemma resolve_expanded_depth:
  assumes "split_executable mc s = Some (exe, rest)" and "file_name_lower mc exe \<noteq> ''conhost.exe''"
  shows "resolve_expanded mc s depth ex = resolve_expanded mc s 0 ex"
  by (simp add: resolve_expanded.simps [of mc s depth] resolve_expanded.simps [of mc s 0] assms)

lemma resolve_with_requote:
  assumes "list_all written ts" and "ts \<noteq> []"
  shows "resolve_with mc (requote ts) ex = resolve_expanded mc (requote ts) 0 ex"
  using requote_ends [OF assms] assms by (simp add: resolve_with_def)

lemma after_flag_in: "after_flag mc flags ts = Some t \<Longrightarrow> t \<in> set ts"
  by (induction ts) (auto split: if_splits list.splits)

lemma or_else_cases: "or_else a b = Some t \<Longrightarrow> a = Some t \<or> b = Some t"
  by (auto simp: or_else_def split: option.splits)

lemma find_in: "find P xs = Some x \<Longrightarrow> x \<in> set xs"
  by (auto simp: find_Some_iff)

lemma if_Some_cases: "(if b then x else y) = Some t \<Longrightarrow> x = Some t \<or> y = Some t"
  by (simp split: if_splits)

lemma payload_token_in: "payload_token mc nm ts = Some t \<Longrightarrow> t \<in> set ts"
  unfolding payload_token_def first_plain_def ending_in_def
  by (drule if_Some_cases or_else_cases after_flag_in find_in | erule disjE | assumption | simp only: option.distinct)+

text \<open>C39: nothing is named that is not there. Whatever the command says and whoever it is expanded for,
  the executable and the payload it resolves to are files of the machine, a payload comes with the
  launcher that was handed it, and that launcher is one of the known ones.\<close>

theorem resolve_names_files: "resolution_ok mc (resolve_with mc command ex)"
  by (simp add: resolve_with_def resolve_expanded_ok)

text \<open>What a launcher is told to run is what is judged. A command that names a launcher which is not
  the console host, and hands it the arguments \<open>args\<close> in the usual quoting, resolves to the launcher as
  host and, as payload, to exactly the file that the launcher's own convention picks among the
  arguments: behind \<open>/c\<close>, behind \<open>-file\<close>, the first plain one, and so on.\<close>

theorem resolve_launcher:
  assumes "list_all written (host # args)" and "CHR '' '' \<notin> set host" and "locate mc host = Some h"
    and "file_name_lower mc h = nm" and "nm \<in> set HOSTS" and "nm \<noteq> ''conhost.exe''" and "nm \<noteq> ''rundll32.exe''"
    and "payload_token mc nm args = Some script" and "is_file mc script"
  shows "resolve_with mc (requote (host # args)) ex =
    \<lparr>rs_executable = Some h, rs_host = Some nm, rs_payload = Some script\<rparr>"
proof -
  have "written script" using assms(1) payload_token_in [OF assms(8)] by (auto simp: list_all_iff)
  then have s: "trim script = script" "CHR ''%'' \<notin> set script"
    by (auto simp: written_def trim_graphic)
  have "list_all (\<lambda>t. t \<noteq> [] \<and> quote_char \<notin> set t) args"
    using assms(1) by (auto simp: list_all_iff written_def)
  then have "payload_of mc nm (requote args) ex = Some script"
    using assms(7-9) s by (simp add: payload_of_def tokenise_requote Let_def)
  then show ?thesis
    using assms(4-6) split_executable_requote [OF assms(1-3)] assms(1)
    by (simp add: resolve_with_requote resolve_expanded.simps)
qed

text \<open>C15: running a program through \<open>conhost.exe --headless\<close> hides nothing. Behind the console host and
  its own switches, with their values, a command resolves to the same executable and the same
  payload as without them; only the host is named when there was none.\<close>

theorem conhost_is_transparent:
  assumes "list_all written (con # switches @ host # args)" and "CHR '' '' \<notin> set con" and "locate mc con = Some c"
    and "file_name_lower mc c = ''conhost.exe''" and "skip_switches mc (switches @ host # args) = host # args"
    and "CHR '' '' \<notin> set host" and "locate mc host = Some h" and "file_name_lower mc h \<noteq> ''conhost.exe''"
  shows "resolve_with mc (requote (con # switches @ host # args)) ex =
    (let r = resolve_with mc (requote (host # args)) ex
     in r\<lparr>rs_host := or_else (rs_host r) (Some ''conhost.exe'')\<rparr>)"
proof -
  have inner: "list_all written (host # args)" using assms(1) by auto
  note split = split_executable_requote [OF inner assms(6,7)]
  have toks: "tokenise (requote (switches @ host # args)) = switches @ host # args"
    using assms(1) by (intro tokenise_requote) (auto simp: list_all_iff written_def)
  have some: "rs_executable (resolve_expanded mc (requote (host # args)) 0 ex) = Some h"
    using assms(8) split by (simp add: resolve_expanded.simps Let_def no_resolution_def split: option.split)
  have "resolve_with mc (requote (con # switches @ host # args)) ex
      = resolve_expanded mc (requote (con # switches @ host # args)) 0 ex"
    using assms(1) by (simp add: resolve_with_requote)
  also have "\<dots> = (let r = resolve_expanded mc (requote (host # args)) 1 ex
      in if rs_executable r \<noteq> None then r\<lparr>rs_host := or_else (rs_host r) (Some ''conhost.exe'')\<rparr>
         else no_resolution\<lparr>rs_executable := Some c\<rparr>)"
    using assms(4,5) toks split_executable_requote [OF assms(1-3)]
    by (subst resolve_expanded.simps) (simp add: Let_def)
  finally show ?thesis
    using some inner by (simp add: resolve_expanded_depth [OF split assms(8), of "Suc 0"] resolve_with_requote Let_def)
qed

section \<open>A machine with a planted script\<close>

definition sample_machine :: machine where
  "sample_machine =
     \<lparr>mc_env = [(''SystemRoot'', slashes ''C:/Windows'')],
      mc_fs = \<lparr>nodes = [([''c:'', ''windows'', ''system32'', ''cmd.exe''], FileNode ''MZ''),
                        ([''c:'', ''windows'', ''system32'', ''conhost.exe''], FileNode ''MZ''),
                        ([''c:'', ''users'', ''a b'', ''run.cmd''], FileNode ''echo'')],
               fault = \<lambda>oper path. None, canonical = \<lambda>path. Inr path\<rparr>,
      mc_lower = ascii_lower\<rparr>"

definition sample_script :: str where
  "sample_script = slashes ''C:/Users/a b/run.cmd''"

theorem resolve_launcher_witness:
  "resolve_with sample_machine (requote [''cmd'', ''/c'', sample_script, ''/launched'']) Machine =
     \<lparr>rs_executable = Some (slashes ''C:/Windows/System32/cmd.exe''), rs_host = Some ''cmd.exe'',
      rs_payload = Some sample_script\<rparr>"
  by (rule resolve_launcher) code_simp+

theorem conhost_is_transparent_witness:
  "resolve_with sample_machine
     (requote (''conhost.exe'' # [''--headless'', ''--width'', ''80''] @ ''cmd'' # [''/c'', sample_script])) Machine =
   (let r = resolve_with sample_machine (requote (''cmd'' # [''/c'', sample_script])) Machine
    in r\<lparr>rs_host := or_else (rs_host r) (Some ''conhost.exe'')\<rparr>)"
  by (rule conhost_is_transparent [where c = "slashes ''C:/Windows/System32/conhost.exe''"
        and h = "slashes ''C:/Windows/System32/cmd.exe''"]) code_simp+

end
