(* ===== verification/Kam_Tasks.thy ===== *)
theory Kam_Tasks
  imports Kam_Commands Kam_Changes
begin

text \<open>
  The scheduled tasks, read from the files the scheduler keeps them in:
  \<open>crates/kam-scanner/src/persistence.rs\<close> from \<open>read_scheduled_tasks\<close> to \<open>unescape\<close>. What
  \<open>read_dir\<close>, \<open>file_type\<close> and \<open>read\<close> answer for the task store is part of the system the
  definitions are applied to, every failure included; so is the registration of COM classes.
\<close>

section \<open>What the system answers\<close>

datatype task_item_kind = KindLink | KindDir | KindFile

text \<open>One item of a listing: an error that ends it, or a name and what the item is.\<close>

datatype dir_item = ItemError io_error | Item str "io_error + task_item_kind"

record task_system =
  ts_machine :: machine
  ts_lower_char :: "str \<Rightarrow> str"
  ts_list :: "str \<Rightarrow> io_error + dir_item list"
  ts_read :: "str \<Rightarrow> io_error + bytes"
  ts_com_value :: "str \<Rightarrow> bool \<Rightarrow> str option"

section \<open>Text of a file\<close>

text \<open>
  \<open>String::from_utf8_lossy\<close>: how many bytes the character at the front has and whether they are
  one, and otherwise how long the broken beginning is that one replacement character stands for.
\<close>

definition in_range :: "u8 \<Rightarrow> nat \<Rightarrow> nat \<Rightarrow> bool" where
  "in_range b lo hi \<longleftrightarrow> lo \<le> unat b \<and> unat b \<le> hi"

definition byte_or_zero :: "bytes \<Rightarrow> nat \<Rightarrow> u8" where
  "byte_or_zero bs i = (if i < length bs then bs ! i else 0)"

definition second_ok :: "u8 \<Rightarrow> u8 \<Rightarrow> bool" where
  "second_ok a b =
     (if unat a = 0xE0 then in_range b 0xA0 0xBF
      else if unat a = 0xED then in_range b 0x80 0x9F
      else if unat a = 0xF0 then in_range b 0x90 0xBF
      else if unat a = 0xF4 then in_range b 0x80 0x8F
      else in_range b 0x80 0xBF)"

definition utf8_front :: "bytes \<Rightarrow> bool \<times> nat" where
  "utf8_front bs =
     (let a = byte_or_zero bs 0; b = byte_or_zero bs 1; c = byte_or_zero bs 2; d = byte_or_zero bs 3
      in if unat a < 0x80 then (True, 1)
         else if in_range a 0xC2 0xDF then (if in_range b 0x80 0xBF then (True, 2) else (False, 1))
         else if in_range a 0xE0 0xEF
         then (if \<not> second_ok a b then (False, 1) else if in_range c 0x80 0xBF then (True, 3) else (False, 2))
         else if in_range a 0xF0 0xF4
         then (if \<not> second_ok a b then (False, 1) else if \<not> in_range c 0x80 0xBF then (False, 2)
               else if in_range d 0x80 0xBF then (True, 4) else (False, 3))
         else (False, 1))"

definition char_of_byte :: "u8 \<Rightarrow> char" where
  "char_of_byte b = char_of (unat b)"

lemma utf8_front_pos: "utf8_front bs = (ok, n) \<Longrightarrow> 0 < n"
  by (auto simp: utf8_front_def Let_def split: if_splits)

function from_utf8_lossy :: "bytes \<Rightarrow> str" where
  "from_utf8_lossy [] = []"
| "from_utf8_lossy (b # bs) =
     (let (ok, n) = utf8_front (b # bs)
      in (if ok then map char_of_byte (take n (b # bs)) else utf8_of 0xFFFD)
         @ from_utf8_lossy (drop n (b # bs)))"
  by pat_completeness auto

termination
  by (relation "measure length") (auto dest: utf8_front_pos [OF sym])

fun units_le :: "bytes \<Rightarrow> u16 list" where
  "units_le (a # b # rest) = from_le [a, b] # units_le rest"
| "units_le rest = []"

fun units_be :: "bytes \<Rightarrow> u16 list" where
  "units_be (a # b # rest) = from_le [b, a] # units_be rest"
| "units_be rest = []"

definition task_text :: "bytes \<Rightarrow> str" where
  "task_text bs =
     (if take 2 bs = [0xFF, 0xFE] then from_utf16_lossy (units_le (drop 2 bs))
      else if take 2 bs = [0xFE, 0xFF] then from_utf16_lossy (units_be (drop 2 bs))
      else from_utf8_lossy bs)"

definition read_task :: "task_system \<Rightarrow> str \<Rightarrow> io_error + str option" where
  "read_task sys path = (case ts_read sys path of Inl e \<Rightarrow> Inl e | Inr bs \<Rightarrow> Inr (Some (task_text bs)))"

section \<open>Actions\<close>

datatype task_action = Exec str "str option" | ComHandler str

definition between :: "str \<Rightarrow> str \<Rightarrow> str \<Rightarrow> str option" where
  "between txt open_tag close_tag =
     (case split_sub open_tag txt of
        None \<Rightarrow> None
      | Some (before, behind) \<Rightarrow>
        (case split_sub close_tag behind of None \<Rightarrow> None | Some (inner, rest) \<Rightarrow> Some (trim inner)))"

definition unescape :: "str \<Rightarrow> str" where
  "unescape s =
     replace_sub ''&amp;'' ''&'' (replace_sub ''&gt;'' ''>'' (replace_sub ''&lt;'' ''<''
       (replace_sub ''&apos;'' [CHR 0x27] (replace_sub ''&quot;'' [quote_char] s))))"

text \<open>Which element comes first, and the text behind its opening tag.\<close>

definition next_action :: "str \<Rightarrow> (bool \<times> str) option" where
  "next_action rest =
     (case (split_sub ''<Exec>'' rest, split_sub ''<ComHandler>'' rest) of
        (Some (e, behind_e), Some (c, behind_c)) \<Rightarrow>
          if length c < length e then Some (False, behind_c) else Some (True, behind_e)
      | (Some (e, behind_e), None) \<Rightarrow> Some (True, behind_e)
      | (None, Some (c, behind_c)) \<Rightarrow> Some (False, behind_c)
      | (None, None) \<Rightarrow> None)"

definition action_of :: "bool \<Rightarrow> str \<Rightarrow> task_action list" where
  "action_of is_exec body =
     (if is_exec
      then (case between body ''<Command>'' ''</Command>'' of
              None \<Rightarrow> []
            | Some command \<Rightarrow>
                [Exec (unescape command) (map_option unescape (between body ''<Arguments>'' ''</Arguments>''))])
      else (case between body ''<ClassId>'' ''</ClassId>'' of
              None \<Rightarrow> []
            | Some class_id \<Rightarrow> [ComHandler (unescape class_id)]))"

lemma split_sub_length: "split_sub pat s = Some (a, b) \<Longrightarrow> length s = length a + length pat + length b"
  by (drule split_sub_Some) simp

lemma next_action_shorter: "next_action rest = Some (k, behind) \<Longrightarrow> length behind < length rest"
  by (auto simp: next_action_def dest!: split_sub_length split: option.splits if_splits)

function action_loop :: "str \<Rightarrow> task_action list" where
  "action_loop rest =
     (case next_action rest of
        None \<Rightarrow> []
      | Some (is_exec, behind) \<Rightarrow>
        (case split_sub (if is_exec then ''</Exec>'' else ''</ComHandler>'') behind of
           None \<Rightarrow> []
         | Some (body, after) \<Rightarrow> action_of is_exec body @ action_loop after))"
  by pat_completeness auto
termination
proof (relation "measure length", goal_cases)
  case (2 rest p is_exec behind q body after)
  then have "behind = body @ (if is_exec then ''</Exec>'' else ''</ComHandler>'') @ after"
    using split_sub_Some by blast
  then have "length after \<le> length behind" by simp
  with 2 show ?case using next_action_shorter [of rest is_exec behind] by auto
qed simp

declare action_loop.simps [simp del]

definition task_actions :: "str \<Rightarrow> task_action list" where
  "task_actions xml =
     (case split_sub ''<Actions'' xml of
        None \<Rightarrow> []
      | Some (before, behind) \<Rightarrow>
        (let rest = ''<Actions'' @ behind
         in action_loop (case split_sub ''</Actions>'' rest of None \<Rightarrow> rest | Some (inside, after) \<Rightarrow> inside)))"

section \<open>Entries of one file\<close>

definition com_server :: "task_system \<Rightarrow> str \<Rightarrow> str option" where
  "com_server sys class_id =
     (let id = trim class_id;
          answers = map (\<lambda>(wow, server). case ts_com_value sys (slashes ''SOFTWARE/Classes/CLSID/'' @ id @ [CHR 0x5C] @ server) wow of
                            None \<Rightarrow> None | Some v \<Rightarrow> executable_in (ts_machine sys) v)
                      [(False, ''InprocServer32''), (False, ''LocalServer32''),
                       (True, ''InprocServer32''), (True, ''LocalServer32'')]
      in case find (\<lambda>a. a \<noteq> None) answers of None \<Rightarrow> None | Some a \<Rightarrow> a)"

text \<open>\<open>Path::strip_prefix\<close> of a path made by joining names to the store's own.\<close>

definition relative_name :: "str \<Rightarrow> str \<Rightarrow> str" where
  "relative_name rt path =
     (case strip_prefix (trim_end_matches is_path_separator rt @ [CHR 0x5C]) path of Some r \<Rightarrow> r | None \<Rightarrow> path)"

fun first_exec :: "task_action list \<Rightarrow> nat option" where
  "first_exec [] = None"
| "first_exec (Exec c a # as) = Some 0"
| "first_exec (ComHandler c # as) = map_option Suc (first_exec as)"

definition full_command :: "str \<Rightarrow> str option \<Rightarrow> str" where
  "full_command command arguments =
     (case arguments of Some args \<Rightarrow> if args \<noteq> [] then command @ '' '' @ args else command | None \<Rightarrow> command)"

definition action_entry :: "task_system \<Rightarrow> str \<Rightarrow> bool \<Rightarrow> str \<Rightarrow> nat \<Rightarrow> nat \<Rightarrow> task_action \<Rightarrow> start_entry" where
  "action_entry sys location hidden nm bare i act =
     (let shown = (if i = bare then nm else nm @ '' (action '' @ show_nat (i + 1) @ '')'')
      in case act of
           Exec command arguments \<Rightarrow>
             make_entry (ts_machine sys) shown ScheduledTask location (full_command command arguments) hidden None
         | ComHandler class_id \<Rightarrow>
             \<lparr>se_name = shown, se_anchor = ScheduledTask, se_location = location,
              se_command = ''COM handler '' @ class_id, se_executable = com_server sys class_id,
              se_payload = None, se_host = None, se_hidden = hidden, se_machine_wide = True\<rparr>)"

definition task_hidden :: "str \<Rightarrow> bool" where
  "task_hidden xml =
     (case between xml ''<Hidden>'' ''</Hidden>'' of None \<Rightarrow> False | Some v \<Rightarrow> ascii_lower v = ''true'')"

definition task_entries_or :: "task_system \<Rightarrow> str \<Rightarrow> str \<Rightarrow> io_error + start_entry list" where
  "task_entries_or sys rt path =
     (case read_task sys path of
        Inl e \<Rightarrow> Inl e
      | Inr None \<Rightarrow> Inr []
      | Inr (Some xml) \<Rightarrow>
        (if \<not> contains xml ''<Triggers>'' \<or> contains xml ''<Triggers />'' then Inr []
         else (let actions = task_actions xml;
                   bare = unwrap_or 0 (first_exec actions)
               in Inr (map (\<lambda>(i, act). action_entry sys path (task_hidden xml) (relative_name rt path) bare i act)
                        (enumerate 0 actions)))))"

definition task_entries :: "task_system \<Rightarrow> str \<Rightarrow> str \<Rightarrow> start_entry list" where
  "task_entries sys rt path = (case task_entries_or sys rt path of Inl e \<Rightarrow> [] | Inr es \<Rightarrow> es)"

definition task_entry :: "task_system \<Rightarrow> str \<Rightarrow> str \<Rightarrow> start_entry option" where
  "task_entry sys rt path = (case task_entries sys rt path of [] \<Rightarrow> None | e # es \<Rightarrow> Some e)"

section \<open>The walk\<close>

definition TASK_DEPTH :: nat where "TASK_DEPTH = 8"

record unwalked =
  uw_where :: str
  uw_what :: str

definition gap_at :: "str \<Rightarrow> io_error \<Rightarrow> unwalked" where
  "gap_at path e = \<lparr>uw_where = path, uw_what = path @ '' ('' @ io_error_text e @ '')''\<rparr>"

definition too_deep :: "str \<Rightarrow> unwalked" where
  "too_deep folder =
     \<lparr>uw_where = folder, uw_what = folder @ '' is nested deeper than '' @ show_nat TASK_DEPTH
        @ '' folders, so it was not followed''\<rparr>"

definition linked :: "str \<Rightarrow> unwalked" where
  "linked path = \<lparr>uw_where = path, uw_what = path @ '' is a link, and links are not followed''\<rparr>"

function walk_tasks :: "task_system \<Rightarrow> str \<Rightarrow> str \<Rightarrow> nat \<Rightarrow> start_entry list \<times> unwalked list"
  and walk_items :: "task_system \<Rightarrow> str \<Rightarrow> str \<Rightarrow> dir_item list \<Rightarrow> nat \<Rightarrow> start_entry list \<times> unwalked list" where
  "walk_tasks sys rt folder depth =
     (if TASK_DEPTH < depth then ([], [too_deep folder])
      else (case ts_list sys folder of
              Inl e \<Rightarrow> if io_error_kind e = NotFound then ([], []) else ([], [gap_at folder e])
            | Inr listing \<Rightarrow> walk_items sys rt folder listing depth))"
| "walk_items sys rt folder [] depth = ([], [])"
| "walk_items sys rt folder (ItemError e # items) depth = ([], [gap_at folder e])"
| "walk_items sys rt folder (Item nm kind # items) depth =
     (let path = path_join folder nm;
          (es, ms) = (case kind of
             Inl e \<Rightarrow> ([], [gap_at path e])
           | Inr KindLink \<Rightarrow> ([], [linked path])
           | Inr KindDir \<Rightarrow> walk_tasks sys rt path (depth + 1)
           | Inr KindFile \<Rightarrow>
               (case task_entries_or sys rt path of Inl e \<Rightarrow> ([], [gap_at path e]) | Inr found \<Rightarrow> (found, [])));
          (es', ms') = walk_items sys rt folder items depth
      in (es @ es', ms @ ms'))"
  by pat_completeness auto
termination
  by (relation "measures [\<lambda>x. case x of Inl (sys, rt, folder, depth) \<Rightarrow> 2 * (9 - depth)
          | Inr (sys, rt, folder, items, depth) \<Rightarrow> 2 * (8 - depth) + 1,
        \<lambda>x. case x of Inl y \<Rightarrow> 0 | Inr (sys, rt, folder, items, depth) \<Rightarrow> length items]")
    (auto simp: TASK_DEPTH_def)

declare walk_tasks.simps [simp del]

section \<open>The survey\<close>

record startup_survey =
  sv_entries :: "start_entry list"
  sv_unreadable :: "unreadable_source list"

definition survey_complete :: "startup_survey \<Rightarrow> bool" where
  "survey_complete sv \<longleftrightarrow> sv_unreadable sv = []"

definition survey_reasons :: "startup_survey \<Rightarrow> str list" where
  "survey_reasons sv = map u_what (sv_unreadable sv)"

definition add_entries :: "start_entry list \<Rightarrow> startup_survey \<Rightarrow> startup_survey" where
  "add_entries es sv = sv\<lparr>sv_entries := sv_entries sv @ es\<rparr>"

definition add_unreadable :: "unreadable_source list \<Rightarrow> startup_survey \<Rightarrow> startup_survey" where
  "add_unreadable us sv = sv\<lparr>sv_unreadable := sv_unreadable sv @ us\<rparr>"

definition task_store :: "task_system \<Rightarrow> str option" where
  "task_store sys =
     map_option (\<lambda>rt. path_join rt (slashes ''System32/Tasks'')) (env_var (ts_machine sys) ''SystemRoot'')"

definition read_scheduled_tasks :: "task_system \<Rightarrow> startup_survey \<Rightarrow> startup_survey" where
  "read_scheduled_tasks sys sv =
     (case task_store sys of
        None \<Rightarrow>
          add_unreadable [unreadable_of (anchor_kind ScheduledTask)
            ''Windows did not say where it is installed, so the scheduled tasks could not be found''] sv
      | Some store \<Rightarrow>
        (let (found, missed) = walk_tasks sys store store 0;
             sv = add_entries found sv
         in case missed of
              [] \<Rightarrow> sv
            | gap # gaps \<Rightarrow>
              (let and_others = (if gaps \<noteq> [] then '', and '' @ show_nat (length gaps) @ '' other place(s)'' else [])
               in add_unreadable
                    [unreadable_covering (ts_lower_char sys) [anchor_kind ScheduledTask] (map uw_where missed)
                       (''part of the scheduled tasks could not be read: '' @ uw_what gap @ and_others)] sv)))"

end
