(* ===== verification/Kam_Task_Actions.thy ===== *)
theory Kam_Task_Actions
  imports Kam_Tasks
begin

text \<open>
  The actions of a task, written as the scheduler writes them and read back: the five entities
  are undone, each action keeps its own arguments, and the order is the scheduler's.
\<close>

section \<open>Finding a tag\<close>

lemma split_sub_skip [simp]:
  "c \<notin> set a \<Longrightarrow> split_sub (c # p) (a @ s) = map_option (\<lambda>(x, y). (a @ x, y)) (split_sub (c # p) s)"
  by (induction a) (auto simp: option.map_comp comp_def case_prod_unfold option.map_ident)

lemma split_sub_none [simp]: "c \<notin> set a \<Longrightarrow> split_sub (c # p) a = None"
  using split_sub_skip [of c a p "[]"] by simp

lemma split_sub_front: "split_sub pat (pat @ s) = Some ([], s)"
  by (cases "pat @ s") (simp_all, metis append_eq_conv_conj append_prefixD prefix_def)

lemma split_sub_extend: "split_sub pat s = Some (a, b) \<Longrightarrow> split_sub pat (s @ t) = Some (a, b @ t)"
proof (induction s arbitrary: a)
  case (Cons c cs)
  show ?case
  proof (cases "prefix pat (c # cs)")
    case True
    then obtain r where r: "c # cs = pat @ r" by (auto simp: prefix_def)
    with Cons.prems show ?thesis unfolding r by (simp add: split_sub_front)
  next
    case False
    with Cons.prems obtain a' where a': "split_sub pat cs = Some (a', b)" "a = c # a'" by (auto split: option.splits)
    then have "length pat \<le> length cs" using split_sub_Some [of pat cs a' b] by simp
    with False have "\<not> prefix pat ((c # cs) @ t)" by (metis prefix_append prefix_length_prefix prefix_def le_Suc_eq length_Cons)
    with Cons.IH [OF a'(1)] a'(2) show ?thesis by simp
  qed
qed (cases t; auto split: if_splits)

lemma next_action_skip:
  assumes "split_sub ''<Exec>'' (a @ s) = map_option (\<lambda>(x, y). (a @ x, y)) (split_sub ''<Exec>'' s)"
    and "split_sub ''<ComHandler>'' (a @ s) = map_option (\<lambda>(x, y). (a @ x, y)) (split_sub ''<ComHandler>'' s)"
  shows "next_action (a @ s) = next_action s"
  unfolding next_action_def assms by (auto split: option.splits)

lemma action_loop_skip: "next_action (a @ s) = next_action s \<Longrightarrow> action_loop (a @ s) = action_loop s"
  by (subst (1 2) action_loop.simps) simp

section \<open>Entities\<close>

definition entity :: "char \<Rightarrow> str" where
  "entity c =
     (if c = CHR ''&'' then ''&amp;'' else if c = CHR ''<'' then ''&lt;'' else if c = CHR ''>'' then ''&gt;''
      else if c = quote_char then ''&quot;'' else if c = CHR 0x27 then ''&apos;'' else [c])"

definition escape :: "str \<Rightarrow> str" where
  "escape s = concat (map entity s)"

text \<open>The text after the entities of the characters in \<open>done\<close> have been undone.\<close>

definition entity_but :: "char set \<Rightarrow> char \<Rightarrow> str" where
  "entity_but gone c = (if c \<in> gone then [c] else entity c)"

lemma replace_pass [simp]:
  "c \<notin> set q \<Longrightarrow> replace_sub (c # p) b (q @ t) = q @ replace_sub (c # p) b t"
  by (induction q) auto

lemma replace_pass_front: "\<not> prefix p s \<Longrightarrow> replace_sub (c # p) b (c # s) = c # replace_sub (c # p) b s"
  by simp

lemma replace_hit [simp]: "replace_sub (c # p) b (c # p @ t) = b @ replace_sub (c # p) b t"
  by simp

text \<open>Undoing the entity of one character, whatever others have been undone before.\<close>

lemma replace_step:
  assumes "entity c = CHR ''&'' # p" and "CHR ''&'' \<notin> gone" and "c \<notin> gone"
    and "\<And>d t. d \<noteq> c \<Longrightarrow> d \<notin> gone \<Longrightarrow>
      replace_sub (CHR ''&'' # p) [c] (entity d @ t) = entity d @ replace_sub (CHR ''&'' # p) [c] t"
  shows "replace_sub (CHR ''&'' # p) [c] (concat (map (entity_but gone) s)) = concat (map (entity_but (insert c gone)) s)"
proof (induction s)
  case (Cons d s)
  consider "d = c" | "d \<noteq> c" "d \<in> gone" | "d \<noteq> c" "d \<notin> gone" by blast
  then show ?case
  proof cases
    case 1
    with Cons assms(1,3) show ?thesis by (simp add: entity_but_def del: replace_sub.simps)
  next
    case 2
    then have "d \<noteq> CHR ''&''" using assms(2) by auto
    with 2 Cons show ?thesis by (simp add: entity_but_def)
  next
    case 3
    with Cons assms(4) show ?thesis by (simp add: entity_but_def del: replace_sub.simps)
  qed
qed simp

lemma replace_entities:
  "replace_sub ''&quot;'' [quote_char] (concat (map (entity_but {}) s)) = concat (map (entity_but {quote_char}) s)"
  "replace_sub ''&apos;'' [CHR 0x27] (concat (map (entity_but {quote_char}) s))
     = concat (map (entity_but {CHR 0x27, quote_char}) s)"
  "replace_sub ''&lt;'' ''<'' (concat (map (entity_but {CHR 0x27, quote_char}) s))
     = concat (map (entity_but {CHR ''<'', CHR 0x27, quote_char}) s)"
  "replace_sub ''&gt;'' ''>'' (concat (map (entity_but {CHR ''<'', CHR 0x27, quote_char}) s))
     = concat (map (entity_but {CHR ''>'', CHR ''<'', CHR 0x27, quote_char}) s)"
  by (rule replace_step; simp add: entity_def quote_char_def)+

lemma replace_amp:
  "replace_sub ''&amp;'' ''&'' (concat (map (entity_but {CHR ''>'', CHR ''<'', CHR 0x27, quote_char}) s)) = s"
  by (induction s) (auto simp: entity_but_def entity_def quote_char_def)

lemma unescape_escape [simp]: "unescape (escape s) = s"
proof -
  have "escape s = concat (map (entity_but {}) s)" by (simp add: escape_def entity_but_def [abs_def])
  then show ?thesis
    by (simp only: unescape_def replace_entities replace_amp)
qed

lemma escape_no_tag [simp]: "CHR ''<'' \<notin> set (escape s)"
  by (auto simp: escape_def entity_def quote_char_def split: if_splits)

text \<open>Text with no blanks at its ends, which is how a command is stored.\<close>

definition solid :: "str \<Rightarrow> bool" where
  "solid s \<longleftrightarrow> s = [] \<or> graphic (hd s) \<and> graphic (last s)"

lemma trim_escape [simp]:
  assumes "solid s"
  shows "trim (escape s) = escape s"
proof (cases s rule: rev_cases)
  case (snoc t d)
  have e: "entity c \<noteq> []" "graphic c \<Longrightarrow> graphic (hd (entity c))" "graphic c \<Longrightarrow> graphic (last (entity c))" for c
    by (auto simp: entity_def graphic_def)
  have "s \<noteq> []" using snoc by simp
  then have "graphic (hd (escape s))" using assms e by (cases s) (auto simp: solid_def escape_def)
  moreover have "graphic (last (escape s))" using assms e snoc by (auto simp: solid_def escape_def)
  ultimately show ?thesis using e snoc by (intro trim_graphic) (auto simp: escape_def)
qed (simp add: escape_def trim_def trim_start_matches_def trim_end_matches_def)

section \<open>Writing a task out\<close>

text \<open>An action as an element, with \<open>gap\<close> for the line breaks and indentation between tags.\<close>

primrec render_action :: "str \<Rightarrow> task_action \<Rightarrow> str" where
  "render_action gap (Exec command arguments) =
     gap @ ''<Exec>'' @ gap @ ''<Command>'' @ escape command @ ''</Command>'' @ gap
     @ (case arguments of None \<Rightarrow> [] | Some args \<Rightarrow> ''<Arguments>'' @ escape args @ ''</Arguments>'' @ gap)
     @ ''</Exec>''"
| "render_action gap (ComHandler class_id) =
     gap @ ''<ComHandler>'' @ gap @ ''<ClassId>'' @ escape class_id @ ''</ClassId>'' @ gap @ ''</ComHandler>''"

definition render_actions :: "str \<Rightarrow> str \<Rightarrow> task_action list \<Rightarrow> str" where
  "render_actions attributes gap acts =
     ''<Actions'' @ attributes @ ''>'' @ concat (map (render_action gap) acts) @ gap @ ''</Actions>''"

primrec solid_action :: "task_action \<Rightarrow> bool" where
  "solid_action (Exec command arguments) \<longleftrightarrow> solid command \<and> pred_option solid arguments"
| "solid_action (ComHandler class_id) \<longleftrightarrow> solid class_id"

lemma action_loop_render:
  assumes "CHR ''<'' \<notin> set gap" and "solid_action act"
  shows "action_loop (render_action gap act @ s) = act # action_loop s"
proof (cases act)
  case (Exec command arguments)
  have n: "next_action (gap @ ''<Exec>'' @ t) = Some (True, t)" for t
    using assms(1) by (auto simp: next_action_def split: option.split)
  show ?thesis
    using assms by (subst action_loop.simps, cases arguments)
      (simp_all add: Exec n [simplified] action_of_def between_def)
next
  case (ComHandler class_id)
  have n: "next_action (gap @ ''<ComHandler>'' @ t) = Some (False, t)" for t
    using assms(1) by (auto simp: next_action_def split: option.split)
  show ?thesis
    using assms by (subst action_loop.simps) (simp add: ComHandler n [simplified] action_of_def between_def)
qed

lemma action_loop_all:
  assumes "CHR ''<'' \<notin> set gap" and "list_all solid_action acts"
  shows "action_loop (concat (map (render_action gap) acts) @ gap) = acts"
  using assms(2)
proof (induction acts)
  case Nil
  then show ?case using assms(1) by (subst action_loop.simps) (simp add: next_action_def)
next
  case (Cons act acts)
  then show ?case using action_loop_render [OF assms(1), of act] by simp
qed

lemma closing_after_actions:
  assumes "CHR ''<'' \<notin> set gap"
  shows "split_sub ''</Actions>'' (concat (map (render_action gap) acts) @ s) =
    map_option (\<lambda>(x, y). (concat (map (render_action gap) acts) @ x, y)) (split_sub ''</Actions>'' s)"
proof (induction acts)
  case (Cons act acts)
  then show ?case using assms
    by (cases act; cases "split_sub ''</Actions>'' s") (auto split: option.split)
qed (simp add: option.map_ident)

text \<open>C16: a task is read as the scheduler runs it. Of a task definition whose first \<open>Actions\<close> element lists
  any number of programs and COM handlers, in any order and with any characters in their texts,
  reading gives exactly those actions in that order, each with its own arguments and none with
  another's.\<close>

theorem task_actions_roundtrip:
  assumes "split_sub ''<Actions'' (before @ ''<Actions'') = Some (before, [])"
    and "CHR ''<'' \<notin> set attributes" and "CHR ''<'' \<notin> set gap" and "list_all solid_action acts"
  shows "task_actions (before @ render_actions attributes gap acts @ behind) = acts"
proof -
  let ?body = "concat (map (render_action gap) acts) @ gap"
  let ?in = "''<Actions'' @ attributes @ ''>'' @ ?body"
  have xml: "split_sub ''<Actions'' (before @ render_actions attributes gap acts @ behind)
      = Some (before, attributes @ ''>'' @ ?body @ ''</Actions>'' @ behind)"
    using split_sub_extend [OF assms(1), of "attributes @ ''>'' @ ?body @ ''</Actions>'' @ behind"]
    by (simp add: render_actions_def)
  have "split_sub ''</Actions>'' (?in @ ''</Actions>'' @ behind) = Some (?in, behind)"
    using assms(2,3) by (simp add: closing_after_actions [OF assms(3), simplified])
  then have "task_actions (before @ render_actions attributes gap acts @ behind) = action_loop ?in"
    by (simp add: task_actions_def xml Let_def)
  also have "\<dots> = action_loop ?body"
  proof -
    have "next_action ((''<Actions'' @ attributes @ ''>'') @ ?body) = next_action ?body"
      using assms(2) by (intro next_action_skip) (simp_all add: option.map_comp comp_def case_prod_unfold)
    from action_loop_skip [OF this] show ?thesis by simp
  qed
  finally show ?thesis using action_loop_all [OF assms(3,4)] by simp
qed

theorem task_actions_roundtrip_witness:
  "task_actions (''<Task><Triggers></Triggers>'' @ render_actions '' Context=Author'' '' ''
      [Exec ''a<b.exe'' None, ComHandler ''{0}'', Exec ''c.exe'' (Some ''-x &amp;'')] @ ''</Task>'')
   = [Exec ''a<b.exe'' None, ComHandler ''{0}'', Exec ''c.exe'' (Some ''-x &amp;'')]"
proof (rule task_actions_roundtrip)
  show "split_sub ''<Actions'' (''<Task><Triggers></Triggers>'' @ ''<Actions'') = Some (''<Task><Triggers></Triggers>'', [])"
    by code_simp
qed (simp_all add: solid_def graphic_def)

text \<open>An element that carries the optional \<open>id\<close> of its type is not recognised, and its action is not read.\<close>

lemma exec_with_id_unread:
  "task_actions ''<Actions><Exec id=a><Command>x.exe</Command></Exec></Actions>'' = []"
  by code_simp

end
