(* ===== verification/Kam_Registry.thy ===== *)
theory Kam_Registry
  imports Kam_Commands
begin

text \<open>
  Reading the registry while others write to it, \<open>crates/kam-core/src/registry.rs\<close>. An open key
  answers each call as the key is at that call: calls are numbered, and what Windows answers to
  call number \<open>t\<close> is a parameter. A walk is a loop of such calls, and whether it read the whole key is decided from the
  counts and write times asked before and after.
\<close>

section \<open>Names and errors\<close>

type_synonym win32_error = nat

definition ERROR_SUCCESS :: win32_error where "ERROR_SUCCESS = 0"
definition ERROR_FILE_NOT_FOUND :: win32_error where "ERROR_FILE_NOT_FOUND = 2"
definition ERROR_PATH_NOT_FOUND :: win32_error where "ERROR_PATH_NOT_FOUND = 3"
definition ERROR_ACCESS_DENIED :: win32_error where "ERROR_ACCESS_DENIED = 5"
definition ERROR_INVALID_NAME :: win32_error where "ERROR_INVALID_NAME = 123"
definition ERROR_MORE_DATA :: win32_error where "ERROR_MORE_DATA = 234"
definition ERROR_NO_MORE_ITEMS :: win32_error where "ERROR_NO_MORE_ITEMS = 259"

lemmas win32_codes = ERROR_SUCCESS_def ERROR_FILE_NOT_FOUND_def ERROR_PATH_NOT_FOUND_def
  ERROR_ACCESS_DENIED_def ERROR_INVALID_NAME_def ERROR_MORE_DATA_def ERROR_NO_MORE_ITEMS_def

datatype unopened = Absent | Denied | Failed win32_error

definition unopened_from :: "win32_error \<Rightarrow> unopened" where
  "unopened_from status =
     (if status = ERROR_FILE_NOT_FOUND \<or> status = ERROR_PATH_NOT_FOUND then Absent
      else if status = ERROR_ACCESS_DENIED then Denied
      else Failed status)"

primrec unopened_describe :: "unopened \<Rightarrow> str \<Rightarrow> str" where
  "unopened_describe Absent what = what @ '' is not present on this machine''"
| "unopened_describe Denied what = what @ '' could not be read by this account''"
| "unopened_describe (Failed code) what = what @ '' could not be read (Windows error '' @ show_nat code @ '')''"

definition from_wide :: "u16 list \<Rightarrow> str" where
  "from_wide units = from_utf16_lossy (takeWhile (\<lambda>u. u \<noteq> 0) units)"

definition exactly :: "u16 list \<Rightarrow> nat \<Rightarrow> str" where
  "exactly buffer len = from_utf16_lossy (take len buffer)"

definition is_hidden_name :: "str \<Rightarrow> bool" where
  "is_hidden_name nm \<longleftrightarrow> contains nm [CHR 0x00] \<or> contains nm (utf8_of 0xFFFD)"

section \<open>What Windows answers\<close>

record shape =
  sh_subkeys :: nat
  sh_longest_subkey :: nat
  sh_values :: nat
  sh_longest_value :: nat
  sh_longest_data :: nat
  sh_written :: nat

text \<open>The value an enumeration returns: its name, its type and its data as text units.\<close>

record raw_value =
  rv_name :: "u16 list"
  rv_kind :: nat
  rv_data :: "u16 list"

datatype value_answer = ValueRead raw_value | ValueGrown nat | ValueFailed win32_error

datatype query_answer = QueryRead nat bytes | QueryFailed win32_error

record key_api =
  ka_info :: "nat \<Rightarrow> win32_error + shape"
  ka_enum_key :: "nat \<Rightarrow> nat \<Rightarrow> nat \<Rightarrow> win32_error + u16 list"
  ka_enum_value_name :: "nat \<Rightarrow> nat \<Rightarrow> nat \<Rightarrow> win32_error + u16 list"
  ka_enum_value :: "nat \<Rightarrow> nat \<Rightarrow> nat \<Rightarrow> nat \<Rightarrow> value_answer"
  ka_query_size :: "nat \<Rightarrow> str \<Rightarrow> win32_error + nat \<times> nat"
  ka_query :: "nat \<Rightarrow> str \<Rightarrow> nat \<Rightarrow> query_answer"

section \<open>Walks\<close>

record key_listing =
  ls_names :: "str list"
  ls_whole :: bool

definition no_listing :: key_listing where
  "no_listing = \<lparr>ls_names = [], ls_whole = False\<rparr>"

record shown_value =
  vl_name :: str
  vl_exact :: bool
  vl_text :: "str option"

record values_read =
  vs_values :: "shown_value list"
  vs_whole :: bool

definition RETRIES :: nat where "RETRIES = 3"
definition REG_SZ :: nat where "REG_SZ = 1"
definition REG_EXPAND_SZ :: nat where "REG_EXPAND_SZ = 2"
definition REG_DWORD :: nat where "REG_DWORD = 4"

definition key_shape :: "key_api \<Rightarrow> nat \<Rightarrow> shape option" where
  "key_shape api t = (case ka_info api t of Inl e \<Rightarrow> None | Inr sh \<Rightarrow> Some sh)"

definition settled :: "shape \<Rightarrow> shape option \<Rightarrow> nat \<Rightarrow> (shape \<Rightarrow> nat) \<Rightarrow> bool" where
  "settled sh after got counted \<longleftrightarrow>
     got = counted sh
     \<and> (case after of None \<Rightarrow> False | Some a \<Rightarrow> sh_written a = sh_written sh \<and> counted a = counted sh)"

definition finish :: "shape \<Rightarrow> str list \<Rightarrow> shape option \<Rightarrow> (shape \<Rightarrow> nat) \<Rightarrow> key_listing" where
  "finish sh names after counted = \<lparr>ls_names = names, ls_whole = settled sh after (length names) counted\<rparr>"

text \<open>
  The loop of \<open>walk_subkeys\<close> and \<open>walk_values\<close> over one of the enumerating calls: a key that
  grows as fast as it is read would keep it going, so it is partial. It returns the names and the
  number of the next call.
\<close>

partial_function (option) enum_loop ::
  "(nat \<Rightarrow> nat \<Rightarrow> nat \<Rightarrow> win32_error + u16 list) \<Rightarrow> nat \<Rightarrow> nat \<Rightarrow> str list \<Rightarrow> nat \<Rightarrow> (str list \<times> nat) option" where
  "enum_loop enum room index names t =
     (case enum t index room of
        Inl e \<Rightarrow> Some (names, t + 1)
      | Inr units \<Rightarrow> enum_loop enum room (index + 1) (names @ [exactly units (length units)]) (t + 1))"

definition walk_subkeys :: "key_api \<Rightarrow> nat \<Rightarrow> (key_listing \<times> nat) option" where
  "walk_subkeys api t =
     (case key_shape api t of
        None \<Rightarrow> Some (no_listing, t + 1)
      | Some sh \<Rightarrow>
        (case enum_loop (ka_enum_key api) (sh_longest_subkey sh + 1) 0 [] (t + 1) of
           None \<Rightarrow> None
         | Some (names, t') \<Rightarrow> Some (finish sh names (key_shape api t') sh_subkeys, t' + 1)))"

definition walk_values :: "key_api \<Rightarrow> nat \<Rightarrow> (key_listing \<times> nat) option" where
  "walk_values api t =
     (case key_shape api t of
        None \<Rightarrow> Some (no_listing, t + 1)
      | Some sh \<Rightarrow>
        (case enum_loop (ka_enum_value_name api) (sh_longest_value sh + 1) 0 [] (t + 1) of
           None \<Rightarrow> None
         | Some (names, t') \<Rightarrow> Some (finish sh names (key_shape api t') sh_values, t' + 1)))"

text \<open>Up to three walks while they are not whole, and one more.\<close>

primrec retried :: "('a \<Rightarrow> bool) \<Rightarrow> (nat \<Rightarrow> ('a \<times> nat) option) \<Rightarrow> nat \<Rightarrow> nat \<Rightarrow> ('a \<times> nat) option" where
  "retried whole walk 0 t = walk t"
| "retried whole walk (Suc n) t =
     (case walk t of
        None \<Rightarrow> None
      | Some (r, t') \<Rightarrow> if whole r then Some (r, t') else retried whole walk n t')"

definition key_subkeys :: "key_api \<Rightarrow> nat \<Rightarrow> (key_listing \<times> nat) option" where
  "key_subkeys api t = retried ls_whole (walk_subkeys api) RETRIES t"

definition key_values :: "key_api \<Rightarrow> nat \<Rightarrow> (key_listing \<times> nat) option" where
  "key_values api t = retried ls_whole (walk_values api) RETRIES t"

definition show_value :: "raw_value \<Rightarrow> shown_value" where
  "show_value v =
     (let shown = exactly (rv_name v) (length (rv_name v));
          txt = trim (from_wide (rv_data v))
      in \<lparr>vl_name = shown, vl_exact = (\<not> is_hidden_name shown),
          vl_text = (if rv_kind v = REG_SZ \<or> rv_kind v = REG_EXPAND_SZ
                     then (if txt = [] then None else Some txt) else None)\<rparr>)"

text \<open>The four tries for one index: a value, and the rooms as they have grown and the next call's number.\<close>

primrec try_value :: "nat \<Rightarrow> key_api \<Rightarrow> nat \<Rightarrow> nat \<Rightarrow> nat \<Rightarrow> nat \<Rightarrow> shown_value option \<times> nat \<times> nat \<times> nat" where
  "try_value 0 api index name_room data_room t = (None, name_room, data_room, t)"
| "try_value (Suc n) api index name_room data_room t =
     (case ka_enum_value api t index name_room data_room of
        ValueRead v \<Rightarrow> (Some (show_value v), name_room, data_room, t + 1)
      | ValueGrown needed \<Rightarrow>
          try_value n api index (min (name_room * 2) 32768) (max data_room needed) (t + 1)
      | ValueFailed e \<Rightarrow> (None, name_room, data_room, t + 1))"

partial_function (option) strings_loop ::
  "key_api \<Rightarrow> nat \<Rightarrow> nat \<Rightarrow> nat \<Rightarrow> shown_value list \<Rightarrow> nat \<Rightarrow> (shown_value list \<times> nat) option" where
  "strings_loop api index name_room data_room values t =
     (case try_value 4 api index name_room data_room t of
        (None, name_room', data_room', t') \<Rightarrow> Some (values, t')
      | (Some v, name_room', data_room', t') \<Rightarrow>
          strings_loop api (index + 1) name_room' data_room' (values @ [v]) t')"

definition walk_strings :: "key_api \<Rightarrow> nat \<Rightarrow> (values_read \<times> nat) option" where
  "walk_strings api t =
     (case key_shape api t of
        None \<Rightarrow> Some (\<lparr>vs_values = [], vs_whole = False\<rparr>, t + 1)
      | Some sh \<Rightarrow>
        (case strings_loop api 0 (sh_longest_value sh + 1) (sh_longest_data sh) [] (t + 1) of
           None \<Rightarrow> None
         | Some (vs, t') \<Rightarrow>
             Some (\<lparr>vs_values = vs, vs_whole = settled sh (key_shape api t') (length vs) sh_values\<rparr>, t' + 1)))"

definition key_strings :: "key_api \<Rightarrow> nat \<Rightarrow> (values_read \<times> nat) option" where
  "key_strings api t = retried vs_whole (walk_strings api) RETRIES t"

section \<open>One value by name\<close>

fun units_of :: "bytes \<Rightarrow> u16 list" where
  "units_of (a # b # rest) = from_le [a, b] # units_of rest"
| "units_of rest = []"

definition value_text :: "bytes \<Rightarrow> str option" where
  "value_text data = (let txt = trim (from_wide (units_of data)) in if txt = [] then None else Some txt)"

text \<open>Up to \<open>n\<close> times a call for the size and one for the data.\<close>

primrec read_string_loop :: "nat \<Rightarrow> key_api \<Rightarrow> str \<Rightarrow> nat \<Rightarrow> unopened + str option" where
  "read_string_loop 0 api nm t = Inl (Failed ERROR_MORE_DATA)"
| "read_string_loop (Suc n) api nm t =
     (case ka_query_size api t nm of
        Inl status \<Rightarrow> if status = ERROR_FILE_NOT_FOUND then Inr None else Inl (unopened_from status)
      | Inr (kind, room) \<Rightarrow>
        (if kind \<noteq> REG_SZ \<and> kind \<noteq> REG_EXPAND_SZ \<or> room = 0 then Inr None
         else (case ka_query api (t + 1) nm room of
                 QueryFailed status \<Rightarrow>
                   if status = ERROR_MORE_DATA then read_string_loop n api nm (t + 2)
                   else Inl (unopened_from status)
               | QueryRead kind' data \<Rightarrow> Inr (value_text (take room (data @ replicate room 0))))))"

definition read_string :: "key_api \<Rightarrow> str \<Rightarrow> nat \<Rightarrow> unopened + str option" where
  "read_string api nm t = (if is_hidden_name nm then Inr None else read_string_loop 4 api nm t)"

definition key_string :: "key_api \<Rightarrow> str \<Rightarrow> nat \<Rightarrow> str option" where
  "key_string api nm t = (case read_string api nm t of Inl e \<Rightarrow> None | Inr v \<Rightarrow> v)"

definition read_dword :: "key_api \<Rightarrow> str \<Rightarrow> nat \<Rightarrow> unopened + nat option" where
  "read_dword api nm t =
     (if is_hidden_name nm then Inl (Failed ERROR_INVALID_NAME)
      else (case ka_query api t nm 4 of
              QueryRead kind data \<Rightarrow> Inr (if kind = REG_DWORD then Some (le_nat (take 4 data)) else None)
            | QueryFailed status \<Rightarrow>
                if status = ERROR_FILE_NOT_FOUND then Inr None else Inl (unopened_from status)))"

definition key_dword :: "key_api \<Rightarrow> str \<Rightarrow> nat \<Rightarrow> nat option" where
  "key_dword api nm t = (case read_dword api nm t of Inl e \<Rightarrow> None | Inr v \<Rightarrow> v)"

end
