(* ===== verification/Kam_Registry_Walk.thy ===== *)
theory Kam_Registry_Walk
  imports Kam_Registry
begin

text \<open>
  What a walk of a key may claim. The interface to Windows is a locale: a key has a state at every
  call, and answers speak of that state. A walk that calls itself whole has read the key exactly as
  it was at one moment, unless a write slipped past its write time, which is only as fine as the
  clock; a walk of a key that holds boundedly much returns; and a key left alone is read whole.
\<close>

record key_state =
  ks_subkeys :: "u16 list list"
  ks_values :: "raw_value list"
  ks_written :: nat

section \<open>The loops\<close>

text \<open>Every name returned was answered to one of the calls, in order.\<close>

definition names_answered ::
  "(nat \<Rightarrow> nat \<Rightarrow> nat \<Rightarrow> win32_error + u16 list) \<Rightarrow> nat \<Rightarrow> nat \<Rightarrow> str list \<Rightarrow> nat \<Rightarrow> str list \<times> nat \<Rightarrow> bool" where
  "names_answered enum room i names t r \<longleftrightarrow>
     (\<exists>new. fst r = names @ new \<and> snd r = t + length new + 1
        \<and> (\<forall>k < length new. \<exists>u. enum (t + k) (i + k) room = Inr u \<and> new ! k = exactly u (length u)))"

lemma enum_loop_result:
  assumes "enum_loop enum room i names t = Some r"
  shows "names_answered enum room i names t r"
proof (rule enum_loop.raw_induct [OF _ assms])
  fix loop enum room i names t r
  assume IH: "\<And>enum room i names t r. loop enum room i names t = Some r \<Longrightarrow> names_answered enum room i names t r"
    and now: "(case enum t i room of Inl e \<Rightarrow> Some (names, t + 1)
      | Inr units \<Rightarrow> loop enum room (i + 1) (names @ [exactly units (length units)]) (t + 1)) = Some r"
  show "names_answered enum room i names t r"
  proof (cases "enum t i room")
    case (Inl e)
    with now show ?thesis by (auto simp: names_answered_def)
  next
    case (Inr u)
    with now have "loop enum room (i + 1) (names @ [exactly u (length u)]) (t + 1) = Some r" by simp
    from IH [OF this] obtain new where new: "fst r = names @ exactly u (length u) # new" "snd r = Suc (Suc (t + length new))"
      "\<forall>k < length new. \<exists>w. enum (Suc (t + k)) (Suc (i + k)) room = Inr w \<and> new ! k = exactly w (length w)"
      by (auto simp: names_answered_def)
    have "\<exists>w. enum (t + k) (i + k) room = Inr w \<and> (exactly u (length u) # new) ! k = exactly w (length w)"
      if "k < length (exactly u (length u) # new)" for k
      using that new(3) Inr by (cases k) auto
    with new(1,2) show ?thesis
      unfolding names_answered_def by (intro exI [of _ "exactly u (length u) # new"]) auto
  qed
qed

text \<open>A key that never holds more than so many entries stops the loop.\<close>

lemma enum_loop_returns:
  assumes "\<And>t i u. enum t i room = Inr u \<Longrightarrow> i < bound"
  shows "\<exists>r. enum_loop enum room i names t = Some r"
proof (induction "bound - i" arbitrary: i names t rule: less_induct)
  case less
  show ?case
  proof (cases "enum t i room")
    case (Inl e)
    then show ?thesis by (subst enum_loop.simps) simp
  next
    case (Inr u)
    then have "bound - (i + 1) < bound - i" using assms by fastforce
    from less [OF this] Inr show ?thesis by (subst enum_loop.simps) simp
  qed
qed

lemma try_value_result:
  assumes "try_value n api i nr dr t = (r, nr', dr', t')"
  shows "t \<le> t'"
    and "r = Some v \<Longrightarrow> \<exists>u nr dr w. t \<le> u \<and> u < t' \<and> ka_enum_value api u i nr dr = ValueRead w \<and> v = show_value w"
  using assms
proof (induction n arbitrary: nr dr t)
  case (Suc n)
  {
    case 1
    then show ?case using Suc(1) by (fastforce split: value_answer.splits)
  next
    case 2
    show ?case
    proof (cases "ka_enum_value api t i nr dr")
      case (ValueRead w)
      with 2 show ?thesis by (intro exI [of _ t] exI [of _ nr] exI [of _ dr] exI [of _ w]) auto
    next
      case (ValueGrown needed)
      with 2 have "try_value n api i (min (nr * 2) 32768) (max dr needed) (t + 1) = (r, nr', dr', t')" by simp
      from Suc(2) [OF 2(1) this] obtain u nr dr w
        where "t + 1 \<le> u" "u < t'" "ka_enum_value api u i nr dr = ValueRead w" "v = show_value w" by blast
      then show ?thesis by (intro exI [of _ u] exI [of _ nr] exI [of _ dr] exI [of _ w]) simp
    qed (use 2 in auto)
  }
qed auto

definition values_answered ::
  "key_api \<Rightarrow> nat \<Rightarrow> shown_value list \<Rightarrow> nat \<Rightarrow> shown_value list \<times> nat \<Rightarrow> bool" where
  "values_answered api i vals t r \<longleftrightarrow>
     (\<exists>new. fst r = vals @ new \<and> t \<le> snd r
        \<and> (\<forall>k < length new. \<exists>u nr dr w. t \<le> u \<and> u < snd r \<and> ka_enum_value api u (i + k) nr dr = ValueRead w
             \<and> new ! k = show_value w))"

lemma strings_loop_result:
  assumes "strings_loop api i nr dr vals t = Some r"
  shows "values_answered api i vals t r"
proof (rule strings_loop.raw_induct [OF _ assms])
  fix loop api i nr dr vals t r
  assume IH: "\<And>api i nr dr vals t r. loop api i nr dr vals t = Some r \<Longrightarrow> values_answered api i vals t r"
    and now: "(case try_value 4 api i nr dr t of
        (None, nr', dr', t') \<Rightarrow> Some (vals, t')
      | (Some v, nr', dr', t') \<Rightarrow> loop api (i + 1) nr' dr' (vals @ [v]) t') = Some r"
  obtain v1 nr' dr' t1 where tv: "try_value 4 api i nr dr t = (v1, nr', dr', t1)" by (metis prod_cases4)
  note le = try_value_result(1) [OF tv]
  show "values_answered api i vals t r"
  proof (cases v1)
    case None
    with now tv le show ?thesis by (auto simp: values_answered_def)
  next
    case (Some v)
    with now tv have "loop api (i + 1) nr' dr' (vals @ [v]) t1 = Some r" by simp
    from IH [OF this] obtain new where new: "fst r = vals @ v # new" "t1 \<le> snd r"
      "\<forall>k < length new. \<exists>u nr dr w. t1 \<le> u \<and> u < snd r \<and> ka_enum_value api u (Suc (i + k)) nr dr = ValueRead w
        \<and> new ! k = show_value w"
      by (auto simp: values_answered_def)
    obtain u nr2 dr2 w where u: "t \<le> u" "u < t1" "ka_enum_value api u i nr2 dr2 = ValueRead w" "v = show_value w"
      using try_value_result(2) [OF tv, of v] Some by blast
    have "\<exists>u nr dr w. t \<le> u \<and> u < snd r \<and> ka_enum_value api u (i + k) nr dr = ValueRead w \<and> (v # new) ! k = show_value w"
      if "k < length (v # new)" for k
    proof (cases k)
      case 0
      with u new(2) show ?thesis by (intro exI [of _ u] exI [of _ nr2] exI [of _ dr2] exI [of _ w]) simp
    next
      case (Suc j)
      with that new(3) obtain u nr dr w where "t1 \<le> u" "u < snd r" "ka_enum_value api u (i + k) nr dr = ValueRead w"
        "new ! j = show_value w" by auto
      with le Suc show ?thesis by (intro exI [of _ u] exI [of _ nr] exI [of _ dr] exI [of _ w]) simp
    qed
    with new(1,2) le show ?thesis unfolding values_answered_def by (intro exI [of _ "v # new"]) auto
  qed
qed

lemma strings_loop_returns:
  assumes "\<And>t i nr dr w. ka_enum_value api t i nr dr = ValueRead w \<Longrightarrow> i < bound"
  shows "\<exists>r. strings_loop api i nr dr vals t = Some r"
proof (induction "bound - i" arbitrary: i nr dr vals t rule: less_induct)
  case less
  obtain r nr' dr' t1 where tv: "try_value 4 api i nr dr t = (r, nr', dr', t1)" by (metis prod_cases4)
  show ?case
  proof (cases r)
    case (Some v)
    then have "i < bound" using try_value_result(2) [OF tv] assms by blast
    then have "bound - (i + 1) < bound - i" by simp
    from less [OF this] Some tv show ?thesis by (subst strings_loop.simps) simp
  qed (use tv in \<open>subst strings_loop.simps, simp\<close>)
qed

lemma retried_returns: "(\<And>t. \<exists>r. walk t = Some r) \<Longrightarrow> \<exists>r. retried whole walk n t = Some r"
proof (induction n arbitrary: t)
  case (Suc n)
  obtain r t' where "walk t = Some (r, t')" using Suc.prems by (metis surj_pair)
  with Suc show ?case by simp
qed simp

text \<open>What was returned by a retried walk was returned by one walk.\<close>

lemma retried_walk:
  assumes "\<And>t r t'. walk t = Some (r, t') \<Longrightarrow> t \<le> t'" and "retried whole walk n t = Some (r, t')"
  shows "\<exists>u \<ge> t. walk u = Some (r, t')"
  using assms(2)
proof (induction n arbitrary: t)
  case (Suc n)
  obtain r1 t1 where w: "walk t = Some (r1, t1)" using Suc.prems by (auto split: option.splits)
  with Suc assms(1) [OF w] show ?case by (auto split: if_splits, meson order_trans)
qed auto

section \<open>A key over time\<close>

text \<open>
  A write slipped by: the key was other than before at some call, and at a later call of the same
  stretch it had the write time it had before.
\<close>

definition slipped :: "(nat \<Rightarrow> key_state) \<Rightarrow> nat \<Rightarrow> nat \<Rightarrow> bool" where
  "slipped h t t' \<longleftrightarrow>
     (\<exists>a b c. t \<le> a \<and> a < b \<and> b < c \<and> c < t' \<and> h b \<noteq> h a \<and> ks_written (h c) = ks_written (h a))"

lemma slipped_later: "slipped h u t' \<Longrightarrow> t \<le> u \<Longrightarrow> slipped h t t'"
  unfolding slipped_def by (meson order_trans)

text \<open>
  What the walks rely on: each answer speaks of the key as it is at that call. Nothing is relied on
  of the write time: a write in the tick of the one before it leaves it where it was.
\<close>

locale key_history =
  fixes api :: key_api and h :: "nat \<Rightarrow> key_state"
  assumes info: "ka_info api t = Inr sh \<Longrightarrow> sh_subkeys sh = length (ks_subkeys (h t))
      \<and> sh_values sh = length (ks_values (h t)) \<and> sh_written sh = ks_written (h t)"
    and enum_key: "ka_enum_key api t i room = Inr nm \<Longrightarrow> i < length (ks_subkeys (h t)) \<and> nm = ks_subkeys (h t) ! i"
    and enum_value: "ka_enum_value api t i nr dr = ValueRead v \<Longrightarrow> i < length (ks_values (h t)) \<and> v = ks_values (h t) ! i"
begin

lemma settled_state:
  assumes "ka_info api t = Inr sh" and "settled sh (key_shape api t') n counted" and "t \<le> u" and "u < t'"
  shows "h u = h t \<or> slipped h t (t' + 1)"
proof -
  obtain a where "ka_info api t' = Inr a" "sh_written a = sh_written sh"
    using assms(2) by (auto simp: settled_def key_shape_def split: sum.splits)
  with info assms(1) have "ks_written (h t') = ks_written (h t)" by metis
  then have "slipped h t (t' + 1)" if "h u \<noteq> h t"
    unfolding slipped_def using that assms(3,4) by (intro exI [of _ t] exI [of _ u] exI [of _ t']) (auto simp: le_less)
  then show ?thesis by blast
qed

lemma walk_subkeys_time: "walk_subkeys api t = Some (l, t') \<Longrightarrow> t < t'"
  by (auto simp: walk_subkeys_def names_answered_def dest!: enum_loop_result split: option.splits)

lemma whole_walk_subkeys:
  assumes "walk_subkeys api t = Some (l, t')" and "ls_whole l"
  shows "length (ls_names l) = length (ks_subkeys (h t))
    \<and> (ls_names l = map (\<lambda>nm. exactly nm (length nm)) (ks_subkeys (h t)) \<or> slipped h t t')"
proof -
  obtain sh names t1 where sh: "ka_info api t = Inr sh"
    and loop: "enum_loop (ka_enum_key api) (sh_longest_subkey sh + 1) 0 [] (t + 1) = Some (names, t1)"
    and l: "l = finish sh names (key_shape api t1) sh_subkeys" "t' = t1 + 1"
    using assms by (auto simp: walk_subkeys_def no_listing_def key_shape_def split: option.splits sum.splits)
  have n: "t1 = t + 1 + length names + 1" and ans: "\<And>k. k < length names \<Longrightarrow> \<exists>u. ka_enum_key api (t + 1 + k) k (sh_longest_subkey sh + 1) = Inr u
      \<and> names ! k = exactly u (length u)"
    using enum_loop_result [OF loop] by (auto simp: names_answered_def)
  have set: "settled sh (key_shape api t1) (length names) sh_subkeys" using assms(2) l(1) by (simp add: finish_def)
  then have len: "length names = length (ks_subkeys (h t))" using info [OF sh] by (simp add: settled_def)
  have "names ! k = exactly (ks_subkeys (h t) ! k) (length (ks_subkeys (h t) ! k))" if "k < length names" "\<not> slipped h t t'" for k
    using ans [OF that(1)] enum_key settled_state [OF sh set, of "t + 1 + k"] that n l(2) by fastforce
  then show ?thesis using len l(1) by (auto simp: finish_def list_eq_iff_nth_eq)
qed

lemma walk_strings_time: "walk_strings api t = Some (r, t') \<Longrightarrow> t < t'"
  by (fastforce simp: walk_strings_def values_answered_def dest!: strings_loop_result split: option.splits)

lemma whole_walk_strings:
  assumes "walk_strings api t = Some (r, t')" and "vs_whole r"
  shows "length (vs_values r) = length (ks_values (h t))
    \<and> (vs_values r = map show_value (ks_values (h t)) \<or> slipped h t t')"
proof -
  obtain sh vs t1 where sh: "ka_info api t = Inr sh"
    and loop: "strings_loop api 0 (sh_longest_value sh + 1) (sh_longest_data sh) [] (t + 1) = Some (vs, t1)"
    and r: "r = \<lparr>vs_values = vs, vs_whole = settled sh (key_shape api t1) (length vs) sh_values\<rparr>" "t' = t1 + 1"
    using assms by (auto simp: walk_strings_def key_shape_def split: option.splits sum.splits)
  have ans: "\<And>k. k < length vs \<Longrightarrow> \<exists>u nr dr w. t + 1 \<le> u \<and> u < t1 \<and> ka_enum_value api u k nr dr = ValueRead w
      \<and> vs ! k = show_value w"
    using strings_loop_result [OF loop] by (auto simp: values_answered_def)
  have set: "settled sh (key_shape api t1) (length vs) sh_values" using assms(2) r(1) by simp
  then have len: "length vs = length (ks_values (h t))" using info [OF sh] by (simp add: settled_def)
  have "vs ! k = show_value (ks_values (h t) ! k)" if k: "k < length vs" and no: "\<not> slipped h t t'" for k
  proof -
    obtain u nr dr w where u: "t + 1 \<le> u" "u < t1" "ka_enum_value api u k nr dr = ValueRead w" "vs ! k = show_value w"
      using ans [OF k] by blast
    then have "h u = h t" using settled_state [OF sh set, of u] no r(2) by simp
    with enum_value [OF u(3)] u(4) show ?thesis by simp
  qed
  then show ?thesis using len r(1) by (auto simp: list_eq_iff_nth_eq)
qed

lemma whole_subkeys:
  assumes "key_subkeys api t = Some (l, t')" and "ls_whole l"
  shows "\<exists>u. t \<le> u \<and> u < t' \<and> length (ls_names l) = length (ks_subkeys (h u))
    \<and> (ls_names l = map (\<lambda>nm. exactly nm (length nm)) (ks_subkeys (h u)) \<or> slipped h u t')"
proof -
  have "\<exists>u \<ge> t. walk_subkeys api u = Some (l, t')"
    using retried_walk [OF _ assms(1) [unfolded key_subkeys_def]] walk_subkeys_time less_imp_le by blast
  with whole_walk_subkeys assms(2) walk_subkeys_time show ?thesis by blast
qed

lemma whole_strings:
  assumes "key_strings api t = Some (r, t')" and "vs_whole r"
  shows "\<exists>u. t \<le> u \<and> u < t' \<and> length (vs_values r) = length (ks_values (h u))
    \<and> (vs_values r = map show_value (ks_values (h u)) \<or> slipped h u t')"
proof -
  have "\<exists>u \<ge> t. walk_strings api u = Some (r, t')"
    using retried_walk [OF _ assms(1) [unfolded key_strings_def]] walk_strings_time less_imp_le by blast
  with whole_walk_strings assms(2) walk_strings_time show ?thesis by blast
qed

lemma bounded_returns:
  assumes "\<And>t. length (ks_subkeys (h t)) \<le> bound \<and> length (ks_values (h t)) \<le> bound"
  shows "\<exists>r. key_subkeys api t = Some r" and "\<exists>r. key_strings api t = Some r"
proof -
  have key: "\<exists>r. enum_loop (ka_enum_key api) room i names t = Some r" for room i names t
    by (rule enum_loop_returns [where bound = bound]) (meson enum_key assms less_le_trans)
  have strings: "\<exists>r. strings_loop api i nr dr vals t = Some r" for i nr dr vals t
    by (rule strings_loop_returns [where bound = bound]) (meson enum_value assms less_le_trans)
  have "\<exists>r. walk_subkeys api t = Some r" for t
    using key [of "sh_longest_subkey (the (key_shape api t)) + 1" 0 "[]" "t + 1"]
    by (auto simp: walk_subkeys_def split: option.split)
  then show "\<exists>r. key_subkeys api t = Some r" unfolding key_subkeys_def by (rule retried_returns)
  have "\<exists>r. walk_strings api t = Some r" for t
    using strings [of 0 "sh_longest_value (the (key_shape api t)) + 1" "sh_longest_data (the (key_shape api t))" "[]" "t + 1"]
    by (auto simp: walk_strings_def split: option.split)
  then show "\<exists>r. key_strings api t = Some r" unfolding key_strings_def by (rule retried_returns)
qed

end

text \<open>A clock fine enough: the key is the same at two calls with one write time and at every call between them.\<close>

locale stamped_history = key_history +
  assumes stamped: "t \<le> u \<Longrightarrow> u \<le> t' \<Longrightarrow> ks_written (h t') = ks_written (h t) \<Longrightarrow> h u = h t"
begin

lemma nothing_slips: "\<not> slipped h t t'"
  unfolding slipped_def using stamped less_imp_le by meson

lemma whole_strings_exact:
  assumes "key_strings api t = Some (r, t')" and "vs_whole r"
  shows "\<exists>u. t \<le> u \<and> u < t' \<and> vs_values r = map show_value (ks_values (h u))"
  using whole_strings [OF assms] nothing_slips by blast

end

text \<open>
  A key that always answers, with room for its longest name, and is not written to from some call
  on. The documented answers of the enumerating calls: an entry while there is one, and room for it.
\<close>

locale quiet_key = key_history +
  fixes start :: nat
  assumes quiet: "start \<le> t \<Longrightarrow> h t = h start"
    and answers: "\<exists>sh. ka_info api t = Inr sh \<and> (\<forall>nm \<in> set (ks_subkeys (h t)). length nm \<le> sh_longest_subkey sh)"
    and entries: "i < length (ks_subkeys (h t)) \<Longrightarrow> length (ks_subkeys (h t) ! i) < room
      \<Longrightarrow> ka_enum_key api t i room = Inr (ks_subkeys (h t) ! i)"
begin

lemma quiet_loop:
  assumes "start \<le> t" and "\<forall>nm \<in> set (ks_subkeys (h start)). length nm < room" and "i \<le> length (ks_subkeys (h start))"
  shows "\<exists>t'. enum_loop (ka_enum_key api) room i names t =
    Some (names @ map (\<lambda>nm. exactly nm (length nm)) (drop i (ks_subkeys (h start))), t') \<and> t < t'"
  using assms(1,3)
proof (induction "length (ks_subkeys (h start)) - i" arbitrary: i names t)
  case 0
  then have "ka_enum_key api t i room \<noteq> Inr u" for u using enum_key [of t i room u] quiet [of t] by auto
  then obtain e where "ka_enum_key api t i room = Inl e" by (cases "ka_enum_key api t i room") auto
  with 0 show ?case by (subst enum_loop.simps) simp
next
  case (Suc n)
  then have i: "i < length (ks_subkeys (h start))" by simp
  let ?nm = "ks_subkeys (h start) ! i"
  have "ka_enum_key api t i room = Inr ?nm"
    using entries [of i t room] quiet [OF Suc.prems(1)] i assms(2) by simp
  moreover have n: "n = length (ks_subkeys (h start)) - (i + 1)" using Suc.hyps(2) by simp
  moreover obtain t' where "enum_loop (ka_enum_key api) room (i + 1) (names @ [exactly ?nm (length ?nm)]) (t + 1) =
      Some ((names @ [exactly ?nm (length ?nm)]) @ map (\<lambda>nm. exactly nm (length nm)) (drop (i + 1) (ks_subkeys (h start))), t')"
      "t + 1 < t'"
    using Suc(1) [OF n, of "t + 1" "names @ [exactly ?nm (length ?nm)]"] Suc.prems(1) i by auto
  moreover have "drop i (ks_subkeys (h start)) = ?nm # drop (i + 1) (ks_subkeys (h start))"
    using i by (simp add: Cons_nth_drop_Suc)
  ultimately show ?case by (subst enum_loop.simps) auto
qed

lemma quiet_walk:
  assumes "start \<le> t"
  shows "\<exists>t'. walk_subkeys api t =
    Some (\<lparr>ls_names = map (\<lambda>nm. exactly nm (length nm)) (ks_subkeys (h start)), ls_whole = True\<rparr>, t')"
proof -
  obtain sh where sh: "ka_info api t = Inr sh" "\<forall>nm \<in> set (ks_subkeys (h t)). length nm \<le> sh_longest_subkey sh"
    using answers by blast
  have "\<forall>nm \<in> set (ks_subkeys (h start)). length nm < sh_longest_subkey sh + 1" "start \<le> t + 1"
    using sh(2) quiet [OF assms] assms by (auto simp: less_Suc_eq_le)
  from quiet_loop [OF this(2,1), of 0 "[]"] obtain t1 where l:
    "enum_loop (ka_enum_key api) (sh_longest_subkey sh + 1) 0 [] (t + 1) =
       Some (map (\<lambda>nm. exactly nm (length nm)) (ks_subkeys (h start)), t1)" "t + 1 < t1" by auto
  obtain sh1 where sh1: "ka_info api t1 = Inr sh1" using answers by blast
  have "settled sh (Some sh1) (length (ks_subkeys (h start))) sh_subkeys"
    using info [OF sh(1)] info [OF sh1] quiet [of t] quiet [of t1] l(2) assms by (simp add: settled_def)
  with l(1) sh(1) sh1 show ?thesis by (auto simp: walk_subkeys_def key_shape_def finish_def)
qed

lemma quiet_subkeys:
  assumes "start \<le> t"
  shows "\<exists>t'. key_subkeys api t =
    Some (\<lparr>ls_names = map (\<lambda>nm. exactly nm (length nm)) (ks_subkeys (h start)), ls_whole = True\<rparr>, t')"
  using quiet_walk [OF assms] by (auto simp: key_subkeys_def RETRIES_def numeral_eq_Suc)

end

section \<open>A key served as documented\<close>

text \<open>
  The registry's side, for any course the contents of a key may take and any clock: a change is
  stamped with what the clock then says, and each call is answered from the contents at that call.
\<close>

primrec stamp :: "(nat \<Rightarrow> nat) \<Rightarrow> (nat \<Rightarrow> 'a) \<Rightarrow> nat \<Rightarrow> nat" where
  "stamp clock course 0 = clock 0"
| "stamp clock course (Suc t) = (if course (Suc t) = course t then stamp clock course t else clock (Suc t))"

definition history :: "(nat \<Rightarrow> nat) \<Rightarrow> (nat \<Rightarrow> u16 list list \<times> raw_value list) \<Rightarrow> nat \<Rightarrow> key_state" where
  "history clock course t =
     \<lparr>ks_subkeys = fst (course t), ks_values = snd (course t), ks_written = stamp clock course t\<rparr>"

definition longest :: "nat list \<Rightarrow> nat" where
  "longest ns = foldr max ns 0"

definition served :: "(nat \<Rightarrow> nat) \<Rightarrow> (nat \<Rightarrow> u16 list list \<times> raw_value list) \<Rightarrow> key_api" where
  "served clock course =
     \<lparr>ka_info = (\<lambda>t. Inr \<lparr>sh_subkeys = length (fst (course t)), sh_longest_subkey = longest (map length (fst (course t))),
          sh_values = length (snd (course t)), sh_longest_value = longest (map (length \<circ> rv_name) (snd (course t))),
          sh_longest_data = longest (map (\<lambda>v. 2 * length (rv_data v)) (snd (course t))), sh_written = stamp clock course t\<rparr>),
      ka_enum_key = (\<lambda>t i room. if length (fst (course t)) \<le> i then Inl ERROR_NO_MORE_ITEMS
          else if room \<le> length (fst (course t) ! i) then Inl ERROR_MORE_DATA else Inr (fst (course t) ! i)),
      ka_enum_value_name = (\<lambda>t i room. if length (snd (course t)) \<le> i then Inl ERROR_NO_MORE_ITEMS
          else if room \<le> length (rv_name (snd (course t) ! i)) then Inl ERROR_MORE_DATA
          else Inr (rv_name (snd (course t) ! i))),
      ka_enum_value = (\<lambda>t i nr dr. if length (snd (course t)) \<le> i then ValueFailed ERROR_NO_MORE_ITEMS
          else if nr \<le> length (rv_name (snd (course t) ! i)) \<or> dr < 2 * length (rv_data (snd (course t) ! i))
          then ValueGrown (2 * length (rv_data (snd (course t) ! i))) else ValueRead (snd (course t) ! i)),
      ka_query_size = (\<lambda>t nm. Inl ERROR_FILE_NOT_FOUND), ka_query = (\<lambda>t nm room. QueryFailed ERROR_FILE_NOT_FOUND)\<rparr>"

text \<open>A clock that is another at every call.\<close>

definition fine :: "nat \<Rightarrow> nat" where "fine t = t"

lemma stamp_past: "stamp fine course t \<le> t"
  by (induction t) (auto simp: fine_def)

lemma stamp_mono: "t \<le> u \<Longrightarrow> stamp fine course t \<le> stamp fine course u"
proof (induction u)
  case (Suc u)
  show ?case
  proof (cases "t = Suc u")
    case False
    with Suc have "stamp fine course t \<le> stamp fine course u" by simp
    also have "\<dots> \<le> stamp fine course (Suc u)" using stamp_past [of course u] by (simp add: fine_def)
    finally show ?thesis .
  qed simp
qed simp

lemma stamp_eq: "t \<le> u \<Longrightarrow> stamp fine course u = stamp fine course t \<Longrightarrow> course u = course t"
proof (induction u)
  case (Suc u)
  show ?case
  proof (cases "t = Suc u")
    case False
    then have "stamp fine course (Suc u) \<le> u" using Suc.prems stamp_past [of course t] by simp
    then have "course (Suc u) = course u" by (auto simp: fine_def split: if_splits)
    with Suc False show ?thesis by simp
  qed simp
qed simp

lemma longest_bound: "n \<in> set ns \<Longrightarrow> n \<le> longest ns"
  by (induction ns) (auto simp: longest_def)

interpretation sk: key_history "served clock course" "history clock course"
  by unfold_locales (auto simp: served_def history_def split: if_splits)

interpretation fk: stamped_history "served fine course" "history fine course"
proof unfold_locales
  fix t u t' assume "t \<le> u" "u \<le> t'" "ks_written (history fine course t') = ks_written (history fine course t)"
  then have "stamp fine course u = stamp fine course t"
    using stamp_mono [of t u course] stamp_mono [of u t' course] by (simp add: history_def)
  with stamp_eq [OF \<open>t \<le> u\<close> this] show "history fine course u = history fine course t" by (simp add: history_def)
qed

text \<open>The same key once others have stopped writing to it.\<close>

definition until :: "nat \<Rightarrow> (nat \<Rightarrow> 'a) \<Rightarrow> nat \<Rightarrow> 'a" where
  "until start course t = course (min t start)"

interpretation qk: quiet_key "served clock (until start course)" "history clock (until start course)" start
proof unfold_locales
  fix t assume "start \<le> t"
  then have "stamp clock (until start course) t = stamp clock (until start course) start"
    by (induction t) (auto simp: until_def le_Suc_eq)
  with \<open>start \<le> t\<close> show "history clock (until start course) t = history clock (until start course) start"
    by (simp add: history_def until_def)
qed (auto simp: served_def history_def longest_bound)

section \<open>Properties\<close>

text \<open>C14: a list of startup values that says it is the whole key is the key as it was at one moment of the
  reading, each value with its own data, whoever writes to it meanwhile; or a write slipped past the
  write time: the contents changed during the reading between two calls at which the key had one and
  the same write time, which takes a write in the tick of the write before it. Even then as many
  values are returned as the key held. Nothing is assumed of the write time.\<close>

theorem whole_values_are_the_key:
  assumes "key_history api h" and "key_strings api t = Some (r, t')" and "vs_whole r"
  shows "\<exists>u. t \<le> u \<and> u < t' \<and> length (vs_values r) = length (ks_values (h u))
    \<and> (vs_values r = map show_value (ks_values (h u)) \<or> slipped h u t')"
  using key_history.whole_strings [OF assms] .

text \<open>With a clock that is another at every call, a list that says it is whole is the key at one moment.\<close>

theorem whole_values_under_a_fine_clock:
  "key_strings (served fine course) t = Some (r, t') \<Longrightarrow> vs_whole r
     \<Longrightarrow> \<exists>u. t \<le> u \<and> u < t' \<and> vs_values r = map show_value (snd (course u))"
  using fk.whole_strings_exact [of course t r t'] by (simp add: history_def)

text \<open>C38: reading a key ends. However the key changes during the walks, as long as it never holds more
  than some number of entries, listing its subkeys and reading its values both return.\<close>

theorem key_walks_return:
  assumes "key_history api h" and "\<And>t. length (ks_subkeys (h t)) \<le> bound \<and> length (ks_values (h t)) \<le> bound"
  shows "(\<exists>l. key_subkeys api t = Some l) \<and> (\<exists>r. key_strings api t = Some r)"
  using key_history.bounded_returns [OF assms] by blast

text \<open>A key nobody writes to is read whole. Once the writes have stopped, the list of subkeys is
  complete, in order, and says so.\<close>

theorem quiet_key_is_read_whole:
  "start \<le> t \<Longrightarrow> \<exists>t'. key_subkeys (served clock (until start course)) t =
     Some (\<lparr>ls_names = map (\<lambda>nm. exactly nm (length nm)) (fst (course start)), ls_whole = True\<rparr>, t')"
  using qk.quiet_subkeys [of start t clock course] by (simp add: history_def until_def)

text \<open>A key with one value, to which a second is added before the fourth call.\<close>

definition growing_key :: "nat \<Rightarrow> u16 list list \<times> raw_value list" where
  "growing_key t =
     ([], \<lparr>rv_name = [65], rv_kind = 1, rv_data = [66]\<rparr> # (if t < 3 then [] else [\<lparr>rv_name = [67], rv_kind = 1, rv_data = [68]\<rparr>]))"

lemma growing_key_read:
  "\<exists>t'. key_strings (served fine growing_key) 0 =
     Some (\<lparr>vs_values = map show_value (snd (growing_key 3)), vs_whole = True\<rparr>, t')"
proof -
  have four: "try_value 4 = try_value (Suc (Suc (Suc (Suc 0))))" by (simp add: numeral_eq_Suc)
  have three: "retried w f 3 = retried w f (Suc (Suc (Suc 0)))" for w :: "values_read \<Rightarrow> bool" and f
    by (simp add: numeral_eq_Suc)
  show ?thesis
    by (simp add: key_strings_def RETRIES_def three walk_strings_def key_shape_def served_def growing_key_def
        longest_def strings_loop.simps four settled_def)
qed

theorem whole_values_are_the_key_witness:
  "\<exists>r t'. key_strings (served fine growing_key) 0 = Some (r, t') \<and> vs_whole r
     \<and> (\<exists>u. 0 \<le> u \<and> u < t' \<and> vs_values r = map show_value (ks_values (history fine growing_key u)))"
proof -
  obtain t' where r: "key_strings (served fine growing_key) 0 =
      Some (\<lparr>vs_values = map show_value (snd (growing_key 3)), vs_whole = True\<rparr>, t')"
    using growing_key_read by blast
  from whole_values_are_the_key [OF sk.key_history_axioms r] r fk.nothing_slips show ?thesis by fastforce
qed

theorem key_walks_return_witness:
  "(\<exists>l. key_subkeys (served fine growing_key) 0 = Some l) \<and> (\<exists>r. key_strings (served fine growing_key) 0 = Some r)"
  by (rule key_walks_return [OF sk.key_history_axioms, where bound = 2]) (simp add: history_def growing_key_def)

theorem quiet_key_is_read_whole_witness:
  "\<exists>t'. key_subkeys (served fine (until 1 (\<lambda>t. (replicate t [65], [])))) 2 =
     Some (\<lparr>ls_names = map (\<lambda>nm. exactly nm (length nm)) [[65]], ls_whole = True\<rparr>, t')"
  using quiet_key_is_read_whole [where start = 1 and t = 2 and clock = fine and course = "\<lambda>t. (replicate t [65], [])"] by simp

text \<open>
  One write in the tick of another is enough. With a clock that has not moved, both values are
  replaced between the reading of the first and of the second; the first walk returns the old first
  and the new second, a pair the key never held, and calls it whole, and no other walk is made.
\<close>

definition replaced_key :: "nat \<Rightarrow> u16 list list \<times> raw_value list" where
  "replaced_key t =
     ([], if t < 2 then [\<lparr>rv_name = [65], rv_kind = 1, rv_data = [65]\<rparr>, \<lparr>rv_name = [66], rv_kind = 1, rv_data = [66]\<rparr>]
          else [\<lparr>rv_name = [67], rv_kind = 1, rv_data = [67]\<rparr>, \<lparr>rv_name = [68], rv_kind = 1, rv_data = [68]\<rparr>])"

lemma one_slip_is_enough:
  "key_strings (served (\<lambda>t. 7) replaced_key) 0 =
     Some (\<lparr>vs_values = [show_value (snd (replaced_key 0) ! 0), show_value (snd (replaced_key 2) ! 1)], vs_whole = True\<rparr>, 5)"
proof -
  have four: "try_value 4 = try_value (Suc (Suc (Suc (Suc 0))))" by (simp add: numeral_eq_Suc)
  have three: "retried w f 3 = retried w f (Suc (Suc (Suc 0)))" for w :: "values_read \<Rightarrow> bool" and f
    by (simp add: numeral_eq_Suc)
  have still: "stamp (\<lambda>t. 7) replaced_key t = 7" for t by (induction t) auto
  show ?thesis
    by (simp add: key_strings_def RETRIES_def three walk_strings_def key_shape_def served_def replaced_key_def
        longest_def strings_loop.simps four settled_def still)
qed

end
