(* ===== verification/Kam_Survey.thy ===== *)
theory Kam_Survey
  imports Kam_Tasks Kam_Registry
begin

text \<open>
  Everything that starts itself, \<open>crates/kam-scanner/src/persistence.rs\<close>: the \<open>Run\<close> keys, the
  Startup folders and the services beside the scheduled tasks, put together by \<open>survey_for\<close>. The
  registry answers through the readers of \<open>Kam_Registry\<close>, each place being asked once; what a
  shortcut holds and what a display name stands for are answers of Windows.
\<close>

text \<open>A service's key as it is read: each of its values, or why it could not be read.\<close>

record service_key =
  sk_start :: "unopened + nat option"
  sk_type :: "unopened + nat option"
  sk_image :: "unopened + str option"
  sk_display :: "str option"

record survey_system =
  sy_tasks :: task_system
  sy_values :: "hive \<Rightarrow> str \<Rightarrow> view \<Rightarrow> unopened + values_read"
  sy_services :: "unopened + key_listing"
  sy_service :: "str \<Rightarrow> unopened + service_key"
  sy_shortcut :: "str \<Rightarrow> str option"
  sy_display :: "str \<Rightarrow> str \<Rightarrow> str"

definition sy_machine :: "survey_system \<Rightarrow> machine" where
  "sy_machine sys = ts_machine (sy_tasks sys)"

definition sy_lower_char :: "survey_system \<Rightarrow> str \<Rightarrow> str" where
  "sy_lower_char sys = ts_lower_char (sy_tasks sys)"

section \<open>Run keys\<close>

definition RUN_KEYS :: "(str \<times> anchor) list" where
  "RUN_KEYS =
     [(slashes ''Software/Microsoft/Windows/CurrentVersion/Run'', RunKey),
      (slashes ''Software/Microsoft/Windows/CurrentVersion/RunOnce'', RunOnceKey)]"

text \<open>\<open>str::replacen(_, _, 1)\<close>.\<close>

definition replace_first :: "str \<Rightarrow> str \<Rightarrow> str \<Rightarrow> str" where
  "replace_first pat rep s = (case split_sub pat s of None \<Rightarrow> s | Some (a, b) \<Rightarrow> a @ rep @ b)"

primrec shown :: "str \<Rightarrow> view \<Rightarrow> str" where
  "shown path Native = path"
| "shown path Wow6432 = replace_first (slashes ''Software/'') (slashes ''Software/WOW6432Node/'') path"

definition hive_label :: "user_context \<Rightarrow> str" where
  "hive_label u = (case uc_sid u of Some sid \<Rightarrow> slashes ''HKEY_USERS/'' @ sid | None \<Rightarrow> ''HKCU'')"

text \<open>The places to read, in order: hive, path below it, view, name shown, anchor and owner.\<close>

record run_place =
  rp_hive :: hive
  rp_path :: str
  rp_view :: view
  rp_named :: str
  rp_anchor :: anchor
  rp_owner :: "user_context option"

definition run_places :: "user_context list \<Rightarrow> run_place list" where
  "run_places users =
     (let hives = (HKEY_LOCAL_MACHINE, [], ''HKLM'', None)
            # map (\<lambda>u. (fst (user_hive u), snd (user_hive u), hive_label u, Some u)) users
      in concat (map (\<lambda>(hv, pre, label, owner).
           concat (map (\<lambda>vw. map (\<lambda>(path, anch).
               \<lparr>rp_hive = hv, rp_path = pre @ path, rp_view = vw, rp_named = label @ [CHR 0x5C] @ shown path vw,
                rp_anchor = anch, rp_owner = owner\<rparr>) RUN_KEYS)
             (if owner = None then [Native, Wow6432] else [Native]))) hives))"

definition read_run_place :: "survey_system \<Rightarrow> run_place \<Rightarrow> startup_survey \<Rightarrow> startup_survey" where
  "read_run_place sys p sv =
     (case sy_values sys (rp_hive p) (rp_path p) (rp_view p) of
        Inl Absent \<Rightarrow> sv
      | Inl why \<Rightarrow>
          add_unreadable [unreadable_within (sy_lower_char sys) (anchor_kind (rp_anchor p)) (rp_named p)
            (unopened_describe why (rp_named p))] sv
      | Inr read_values \<Rightarrow>
          (let sv = (if vs_whole read_values then sv
                     else add_unreadable [unreadable_within (sy_lower_char sys) (anchor_kind (rp_anchor p)) (rp_named p)
                       (rp_named p @ '' could not be read to the end, so it may hold entries that are not shown'')] sv)
           in add_entries (List.map_filter (\<lambda>v. map_option (\<lambda>command.
                  make_entry (sy_machine sys) (vl_name v) (rp_anchor p) (rp_named p) command (\<not> vl_exact v) (rp_owner p))
                (vl_text v)) (vs_values read_values)) sv))"

definition read_run_keys :: "survey_system \<Rightarrow> user_context list \<Rightarrow> startup_survey \<Rightarrow> startup_survey" where
  "read_run_keys sys users sv = foldl (\<lambda>sv p. read_run_place sys p sv) sv (run_places users)"

section \<open>Startup folders\<close>

definition runs_directly :: "str \<Rightarrow> bool" where
  "runs_directly ext \<longleftrightarrow>
     ext \<in> {''exe'', ''com'', ''scr'', ''bat'', ''cmd'', ''ps1'', ''vbs'', ''vbe'', ''js'', ''jse'', ''wsf''}"

definition startup_folders :: "survey_system \<Rightarrow> user_context list \<Rightarrow> (str \<times> user_context option) list" where
  "startup_folders sys users =
     map (\<lambda>u. (path_join (roaming_app_data u) (slashes ''Microsoft/Windows/Start Menu/Programs/Startup''), Some u)) users
     @ (case env_var (sy_machine sys) ''ProgramData'' of
          None \<Rightarrow> []
        | Some pd \<Rightarrow> [(path_join pd (slashes ''Microsoft/Windows/Start Menu/Programs/StartUp''), None)])"

definition startup_entry :: "survey_system \<Rightarrow> str \<Rightarrow> user_context option \<Rightarrow> str \<Rightarrow> start_entry list" where
  "startup_entry sys folder owner path =
     (let nm = unwrap_or [] (file_stem path);
          ext = (case extension path of None \<Rightarrow> [] | Some e \<Rightarrow> mc_lower (sy_machine sys) e);
          ex = (case owner of None \<Rightarrow> Machine | Some u \<Rightarrow> For u);
          r = (if runs_directly ext then no_resolution\<lparr>rs_executable := Some path\<rparr>
               else if ext = ''lnk''
               then (case sy_shortcut sys path of None \<Rightarrow> no_resolution
                     | Some command \<Rightarrow> resolve_with (sy_machine sys) command ex)
               else no_resolution)
      in if ascii_lower nm = ''desktop'' then []
         else [\<lparr>se_name = nm, se_anchor = StartupFolder, se_location = folder, se_command = path,
                se_executable = rs_executable r, se_payload = rs_payload r, se_host = rs_host r,
                se_hidden = False, se_machine_wide = (owner = None)\<rparr>])"

fun read_startup_items :: "survey_system \<Rightarrow> str \<Rightarrow> user_context option \<Rightarrow> dir_item list \<Rightarrow> startup_survey \<Rightarrow> startup_survey" where
  "read_startup_items sys folder owner [] sv = sv"
| "read_startup_items sys folder owner (ItemError e # items) sv =
     add_unreadable [unreadable_within (sy_lower_char sys) (anchor_kind StartupFolder) folder
       (folder @ '' could not be listed to the end ('' @ io_error_text e @ ''), so it may hold items that are not shown'')] sv"
| "read_startup_items sys folder owner (Item nm kind # items) sv =
     read_startup_items sys folder owner items (add_entries (startup_entry sys folder owner (path_join folder nm)) sv)"

definition read_startup_folder :: "survey_system \<Rightarrow> str \<times> user_context option \<Rightarrow> startup_survey \<Rightarrow> startup_survey" where
  "read_startup_folder sys fo sv =
     (let (folder, owner) = fo
      in case ts_list (sy_tasks sys) folder of
           Inl e \<Rightarrow>
             (if io_error_kind e = NotFound then sv
              else add_unreadable [unreadable_within (sy_lower_char sys) (anchor_kind StartupFolder) folder
                     (folder @ '' could not be read: '' @ io_error_text e)] sv)
         | Inr items \<Rightarrow> read_startup_items sys folder owner items sv)"

definition read_startup_folders :: "survey_system \<Rightarrow> user_context list \<Rightarrow> startup_survey \<Rightarrow> startup_survey" where
  "read_startup_folders sys users sv =
     foldl (\<lambda>sv fo. read_startup_folder sys fo sv)
       (if env_var (sy_machine sys) ''ProgramData'' = None
        then add_unreadable [unreadable_of (anchor_kind StartupFolder)
               ''Windows did not say where the machine-wide Startup folder is, so it was not read''] sv
        else sv)
       (startup_folders sys users)"

section \<open>Services\<close>

definition SERVICES :: str where
  "SERVICES = slashes ''HKLM/SYSTEM/CurrentControlSet/Services''"

definition service_place :: "str \<Rightarrow> str" where
  "service_place nm = SERVICES @ [CHR 0x5C] @ nm"

text \<open>What one name of the list comes to: nothing to say, a key that refused, or an image it starts.\<close>

datatype service_outcome = Passed | Refused | Starts str "str option"

definition service_outcome_of :: "survey_system \<Rightarrow> str \<Rightarrow> service_outcome" where
  "service_outcome_of sys nm =
     (case (if is_hidden_name nm then Inl Absent else sy_service sys nm) of
        Inl why \<Rightarrow> if why = Absent \<and> \<not> is_hidden_name nm then Passed else Refused
      | Inr key \<Rightarrow>
        (case sk_start key of
           Inl why \<Rightarrow> Refused
         | Inr None \<Rightarrow> Passed
         | Inr (Some start) \<Rightarrow>
           (if 2 < start then Passed
            else (case sk_type key of
                    Inl why \<Rightarrow> Refused
                  | Inr kind \<Rightarrow>
                    (if (case kind of Some k \<Rightarrow> k < 16 | None \<Rightarrow> False) then Passed
                     else (case sk_image key of
                             Inl why \<Rightarrow> Refused
                           | Inr None \<Rightarrow> Refused
                           | Inr (Some img) \<Rightarrow> Starts img (sk_display key)))))))"

definition service_entry :: "survey_system \<Rightarrow> str \<Rightarrow> str \<Rightarrow> str option \<Rightarrow> start_entry" where
  "service_entry sys nm img display =
     make_entry (sy_machine sys) (case display of Some d \<Rightarrow> sy_display sys d nm | None \<Rightarrow> nm) Service
       (service_place nm) img False None"

fun service_entries :: "survey_system \<Rightarrow> str list \<Rightarrow> start_entry list" where
  "service_entries sys [] = []"
| "service_entries sys (nm # nms) =
     (case service_outcome_of sys nm of Starts img display \<Rightarrow> [service_entry sys nm img display] | _ \<Rightarrow> [])
     @ service_entries sys nms"

definition refused_places :: "survey_system \<Rightarrow> str list \<Rightarrow> str list" where
  "refused_places sys nms = map service_place (filter (\<lambda>nm. service_outcome_of sys nm = Refused) nms)"

definition read_services :: "survey_system \<Rightarrow> startup_survey \<Rightarrow> startup_survey" where
  "read_services sys sv =
     (case sy_services sys of
        Inl why \<Rightarrow>
          add_unreadable [unreadable_of (anchor_kind Service) (unopened_describe why ''the list of services'')] sv
      | Inr names \<Rightarrow>
        (let refused = refused_places sys (ls_names names);
             sv = (if ls_whole names then sv
                   else add_unreadable [unreadable_of (anchor_kind Service)
                     ''the list of services could not be read to the end, so there may be services that are not shown''] sv);
             sv = add_entries (service_entries sys (ls_names names)) sv
         in if refused = [] then sv
            else add_unreadable [unreadable_covering (sy_lower_char sys) [anchor_kind Service] refused
                   (show_nat (length refused) @ '' service(s) could not be read, so what they run is not shown'')] sv))"

section \<open>The whole survey\<close>

definition survey_order :: "machine \<Rightarrow> start_entry \<Rightarrow> nat \<times> str" where
  "survey_order mc e = (5 - tenacity (se_anchor e), mc_lower mc (se_name e))"

definition survey_for :: "survey_system \<Rightarrow> user_context list \<Rightarrow> startup_survey" where
  "survey_for sys users =
     (let sv = read_scheduled_tasks (sy_tasks sys) (read_services sys (read_startup_folders sys users
                 (read_run_keys sys users \<lparr>sv_entries = [], sv_unreadable = []\<rparr>)))
      in sv\<lparr>sv_entries := sort_key (survey_order (sy_machine sys)) (sv_entries sv)\<rparr>)"

definition survey_one :: "survey_system \<Rightarrow> user_context \<Rightarrow> startup_survey" where
  "survey_one sys user = survey_for sys [user]"

text \<open>The accounts whose hive is loaded; \<open>for_sid\<close> is asked for each.\<close>

definition signed_in_users :: "key_listing option \<Rightarrow> (str \<Rightarrow> user_context option) \<Rightarrow> user_context list" where
  "signed_in_users loaded for_sid =
     (case loaded of
        None \<Rightarrow> []
      | Some names \<Rightarrow>
          List.map_filter for_sid
            (filter (\<lambda>nm. prefix ''S-1-5-21-'' nm \<and> \<not> ends_with nm ''_Classes'') (ls_names names)))"

end
