(* ===== verification/Kam_Baseline.thy ===== *)
theory Kam_Baseline
  imports Kam_Survey
begin

text \<open>
  What is on the machine as something to compare with last time, \<open>crates/kam-agent/src/baseline.rs\<close>:
  the entries of the survey as sightings, the administrators, and the accounts that were not
  examined. Verifying a signature and asking for the group of administrators are answers of Windows.
\<close>

section \<open>Who vouches for a file\<close>

datatype signature = Valid str | Invalid "str option" | Unsigned | Unknown

definition NOT_SIGNED :: str where "NOT_SIGNED = ''not signed''"
definition NOT_CHECKED :: str where "NOT_CHECKED = ''could not be checked''"
definition ADMINISTRATOR :: str where "ADMINISTRATOR = ''administrator''"

definition trust_in :: "(str \<Rightarrow> signature) \<Rightarrow> str option \<Rightarrow> str" where
  "trust_in sig path =
     (case path of
        None \<Rightarrow> NOT_CHECKED
      | Some p \<Rightarrow>
        (case sig p of
           Valid signer \<Rightarrow> SIGNED_BY @ signer
         | Invalid (Some signer) \<Rightarrow> NOT_SIGNED @ '', but claims to be '' @ signer
         | Invalid None \<Rightarrow> NOT_SIGNED
         | Unsigned \<Rightarrow> NOT_SIGNED
         | Unknown \<Rightarrow> NOT_CHECKED))"

text \<open>A sighting, with the trust looked up in the table of files already verified.\<close>

definition sighting_of ::
  "(str \<Rightarrow> str) \<Rightarrow> (str \<Rightarrow> signature) \<Rightarrow> start_entry \<Rightarrow> (str \<times> str) list \<Rightarrow> sighting \<times> (str \<times> str) list" where
  "sighting_of lower sig e known =
     (let (trust, known') =
            (case entry_target e of
               None \<Rightarrow> (trust_in sig None, known)
             | Some path \<Rightarrow>
               (case map_of known path of
                  Some t \<Rightarrow> (t, known)
                | None \<Rightarrow> (trust_in sig (Some path), (path, trust_in sig (Some path)) # known)))
      in (\<lparr>s_kind = anchor_kind (se_anchor e), s_scope = lower (se_location e), s_name = se_name e,
           s_detail = (case entry_target e of Some path \<Rightarrow> path | None \<Rightarrow> se_command e), s_trust = trust\<rparr>, known'))"

fun sightings_of :: "(str \<Rightarrow> str) \<Rightarrow> (str \<Rightarrow> signature) \<Rightarrow> start_entry list \<Rightarrow> (str \<times> str) list \<Rightarrow> sighting list" where
  "sightings_of lower sig [] known = []"
| "sightings_of lower sig (e # es) known =
     (let (s, known') = sighting_of lower sig e known in s # sightings_of lower sig es known')"

section \<open>Administrators\<close>

text \<open>\<open>str::lines\<close>, of text whose lines end in a line feed; the carriage return is trimmed with the blanks.\<close>

definition text_lines :: "str \<Rightarrow> str list" where
  "text_lines s = split_on (\<lambda>c. c = CHR 0x0A) s"

definition administrators_from :: "str \<Rightarrow> str + sighting list" where
  "administrators_from output =
     (let accounts = map (\<lambda>account. \<lparr>s_kind = ADMINISTRATOR, s_scope = ''machine'', s_name = account,
                            s_detail = ''can administer this machine'', s_trust = NOT_A_FILE\<rparr>)
                       (filter (\<lambda>line. line \<noteq> []) (map trim (text_lines output)))
      in if accounts = [] then Inl ''the group answered with nobody in it'' else Inr accounts)"

text \<open>The command's outcome: what it wrote when it succeeded, or why there is nothing to read.\<close>

definition administrators :: "str + str \<Rightarrow> str + sighting list" where
  "administrators answer = (case answer of Inl why \<Rightarrow> Inl why | Inr output \<Rightarrow> administrators_from output)"

section \<open>Accounts that were not looked at\<close>

definition per_account_kinds :: "str list" where
  "per_account_kinds =
     map anchor_kind (filter (\<lambda>a. case a of RunKey \<Rightarrow> True | RunOnceKey \<Rightarrow> True | StartupFolder \<Rightarrow> True
         | Service \<Rightarrow> False | ScheduledTask \<Rightarrow> False)
       [RunKey, RunOnceKey, StartupFolder, Service, ScheduledTask])"

record not_examined =
  ne_what :: str
  ne_places :: "str list"

definition missed_accounts :: "key_listing \<Rightarrow> user_context list \<Rightarrow> str list" where
  "missed_accounts profiles examined =
     filter (\<lambda>sid. prefix ''S-1-5-21-'' sid \<and> CHR ''.'' \<notin> set sid \<and> Some sid \<notin> set (map uc_sid examined)) (ls_names profiles)"

definition account_places :: "(str \<Rightarrow> str) \<Rightarrow> (str \<Rightarrow> user_context option) \<Rightarrow> user_context list \<Rightarrow> str \<Rightarrow> str list" where
  "account_places lower for_sid examined sid =
     (slashes ''HKEY_USERS/'' @ sid @ [CHR 0x5C])
     # (case for_sid sid of
          None \<Rightarrow> []
        | Some account \<Rightarrow>
            if lower (uc_profile account) \<in> set (map (lower \<circ> uc_profile) examined) then []
            else [uc_profile account @ [CHR 0x5C]])"

definition profiles_not_examined ::
  "(str \<Rightarrow> str) \<Rightarrow> key_listing option \<Rightarrow> (str \<Rightarrow> user_context option) \<Rightarrow> user_context list \<Rightarrow> not_examined option" where
  "profiles_not_examined lower profiles for_sid examined =
     (case profiles of
        None \<Rightarrow> Some \<lparr>ne_what = ''the list of accounts on this machine could not be read, so whether every account was examined is not known'',
                      ne_places = []\<rparr>
      | Some names \<Rightarrow>
        (let missed = missed_accounts names examined; many = length missed
         in if \<not> ls_whole names
            then Some \<lparr>ne_what = ''the list of accounts on this machine could not be read in full, so whether every account was examined is not known'',
                       ne_places = []\<rparr>
            else if missed = [] then None
            else Some \<lparr>ne_what = show_nat many @ '' account'' @ (if many = 1 then [] else ''s'') @ '' on this machine ''
                         @ (if many = 1 then ''was'' else ''were'') @ '' not signed in, so what starts itself under ''
                         @ (if many = 1 then ''it'' else ''them'') @ '' was not examined'',
                       ne_places = concat (map (account_places lower for_sid examined) missed)\<rparr>))"

section \<open>Everything worth comparing\<close>

definition collect ::
  "survey_system \<Rightarrow> (str \<Rightarrow> signature) \<Rightarrow> str + str \<Rightarrow> key_listing option \<Rightarrow> (str \<Rightarrow> user_context option) \<Rightarrow> user_context list
     \<Rightarrow> sighting list \<times> unreadable_source list" where
  "collect sys sig admins profiles for_sid users =
     (let lower = mc_lower (sy_machine sys);
          sv = survey_for sys users;
          seen = sightings_of lower sig (sv_entries sv) [];
          (seen, gaps) = (case administrators admins of
             Inr accounts \<Rightarrow> (seen @ accounts, sv_unreadable sv)
           | Inl why \<Rightarrow> (seen, sv_unreadable sv @ [unreadable_of ADMINISTRATOR (''the list of local administrators: '' @ why)]));
          gaps = (case profiles_not_examined lower profiles for_sid users of
             None \<Rightarrow> gaps
           | Some missing \<Rightarrow>
               gaps @ [unreadable_covering (sy_lower_char sys) per_account_kinds (ne_places missing) (ne_what missing)])
      in (seen, gaps))"

end
