(* ===== verification/Kam_Tasks_Read.thy ===== *)
theory Kam_Tasks_Read
  imports Kam_Tasks Kam_Changes_Samples
begin

text \<open>
  What reading the scheduled tasks guarantees: every task file of the store is read or lies in a
  place the survey names as unread, and the actions of a task are read back exactly as the
  scheduler writes them.
\<close>

section \<open>Files of the store\<close>

text \<open>The folders reached from a folder through folders that could be listed, links not followed.\<close>

inductive task_below :: "task_system \<Rightarrow> str \<Rightarrow> str \<Rightarrow> bool" for sys where
  task_below_here: "task_below sys folder folder"
| task_below_child: "ts_list sys folder = Inr items \<Longrightarrow> Item nm (Inr KindDir) \<in> set items
     \<Longrightarrow> task_below sys (path_join folder nm) d \<Longrightarrow> task_below sys folder d"

inductive_cases task_below_cases: "task_below sys folder d"

text \<open>Names and folders as the file system has them: whole components of valid text.\<close>

definition item_name :: "str \<Rightarrow> bool" where
  "item_name nm \<longleftrightarrow> component nm \<and> CHR '':'' \<notin> set nm \<and> \<not> is_continuation (hd nm) \<and> list_all utf8_char (utf8_chars nm)"

definition good_place :: "str \<Rightarrow> bool" where
  "good_place p \<longleftrightarrow> directory_text p \<and> list_all utf8_char (utf8_chars p)"

definition tidy_names :: "task_system \<Rightarrow> bool" where
  "tidy_names sys \<longleftrightarrow>
     (\<forall>folder items nm kind. ts_list sys folder = Inr items \<longrightarrow> Item nm kind \<in> set items \<longrightarrow> item_name nm)"

definition inside :: "str \<Rightarrow> str \<Rightarrow> bool" where
  "inside a p \<longleftrightarrow> p = a \<or> (\<exists>r. p = a @ CHR 0x5C # r \<and> list_all utf8_char (utf8_chars (CHR 0x5C # r)))"

lemma backslash_chars:
  "\<not> is_continuation (hd nm) \<Longrightarrow> utf8_chars (CHR 0x5C # nm) = [CHR 0x5C] # utf8_chars nm"
  by (cases nm) (simp_all add: is_continuation_def)

lemma utf8_backslash [simp]: "utf8_char [CHR 0x5C]"
  by (simp add: utf8_char_def whole_char_def)

lemma path_join_item:
  assumes "good_place folder" and "item_name nm"
  shows "path_join folder nm = folder @ CHR 0x5C # nm"
proof -
  have "\<not> has_drive nm" "\<not> has_root nm"
    using assms(2) by (auto simp: item_name_def component_def has_drive_def has_root_def split: list.splits)
  then show ?thesis using assms(1) by (simp add: path_join_def good_place_def directory_text_def)
qed

lemma good_place_item:
  assumes "good_place folder" and "item_name nm"
  shows "good_place (path_join folder nm)"
proof -
  have "\<not> is_continuation (CHR 0x5C)" by (simp add: is_continuation_def)
  then have "utf8_chars (folder @ CHR 0x5C # nm) = utf8_chars folder @ [CHR 0x5C] # utf8_chars nm"
    using assms(2) backslash_chars [of nm] by (simp only: utf8_chars_append list.sel item_name_def HOL.simp_thms)
  then show ?thesis
    using assms by (auto simp: path_join_item good_place_def directory_text_def item_name_def component_def list_all_iff)
qed

lemma inside_item:
  assumes "good_place folder" and "item_name nm"
  shows "inside folder (path_join folder nm)"
  using assms backslash_chars [of nm] by (simp add: path_join_item inside_def item_name_def)

lemma inside_trans: "inside a b \<Longrightarrow> inside b c \<Longrightarrow> inside a c"
proof (unfold inside_def, elim disjE exE conjE, goal_cases)
  case (4 r s)
  have "\<not> is_continuation (CHR 0x5C)" by (simp add: is_continuation_def)
  with 4 have "list_all utf8_char (utf8_chars ((CHR 0x5C # r) @ CHR 0x5C # s))"
    by (subst utf8_chars_append) simp_all
  with 4 show ?case by simp
qed auto

lemma below_inside: "task_below sys folder d \<Longrightarrow> tidy_names sys \<Longrightarrow> good_place folder \<Longrightarrow> good_place d \<and> inside folder d"
proof (induction rule: task_below.induct)
  case (task_below_child folder items nm d)
  then have "item_name nm" unfolding tidy_names_def by blast
  with task_below_child show ?case using good_place_item inside_item inside_trans by blast
qed (simp add: inside_def)

section \<open>Nothing in the store is passed over in silence\<close>

lemma uw_where_simps [simp]: "uw_where (gap_at p e) = p" "uw_where (too_deep p) = p" "uw_where (linked p) = p"
  by (simp_all add: gap_at_def too_deep_def linked_def)

text \<open>What one item contributes to the walk.\<close>

definition item_result :: "task_system \<Rightarrow> str \<Rightarrow> str \<Rightarrow> nat \<Rightarrow> io_error + task_item_kind \<Rightarrow> start_entry list \<times> unwalked list" where
  "item_result sys rt path depth kind =
     (case kind of
        Inl e \<Rightarrow> ([], [gap_at path e])
      | Inr KindLink \<Rightarrow> ([], [linked path])
      | Inr KindDir \<Rightarrow> walk_tasks sys rt path (depth + 1)
      | Inr KindFile \<Rightarrow>
          (case task_entries_or sys rt path of Inl e \<Rightarrow> ([], [gap_at path e]) | Inr found \<Rightarrow> (found, [])))"

lemma walk_items_Item:
  "walk_items sys rt folder (Item nm kind # items) depth =
     (let (es, ms) = item_result sys rt (path_join folder nm) depth kind;
          (es', ms') = walk_items sys rt folder items depth
      in (es @ es', ms @ ms'))"
  by (simp add: item_result_def Let_def)

lemma walk_items_has:
  "Item nm kind \<in> set items \<Longrightarrow>
     (\<exists>g \<in> set (snd (walk_items sys rt folder items depth)). uw_where g = folder)
     \<or> set (fst (item_result sys rt (path_join folder nm) depth kind)) \<subseteq> set (fst (walk_items sys rt folder items depth))
       \<and> set (snd (item_result sys rt (path_join folder nm) depth kind)) \<subseteq> set (snd (walk_items sys rt folder items depth))"
proof (induction items)
  case (Cons item items)
  show ?case
  proof (cases item)
    case (ItemError e)
    then show ?thesis by simp
  next
    case (Item nm' kind')
    with Cons show ?thesis
      by (auto simp: walk_items_Item simp del: walk_items.simps split: prod.splits)
  qed
qed simp

lemma walk_accounts:
  assumes "task_below sys folder d" and "tidy_names sys" and "good_place folder"
    and "ts_list sys d = Inr items" and "Item nm (Inr KindFile) \<in> set items"
  shows "(\<exists>found. task_entries_or sys rt (path_join d nm) = Inr found
            \<and> set found \<subseteq> set (fst (walk_tasks sys rt folder depth)))
       \<or> (\<exists>g \<in> set (snd (walk_tasks sys rt folder depth)). good_place (uw_where g) \<and> inside (uw_where g) (path_join d nm))"
    (is "?read folder depth \<or> ?gap folder depth")
  using assms
proof (induction arbitrary: depth rule: task_below.induct)
  case (task_below_here folder)
  have nm: "item_name nm" using task_below_here unfolding tidy_names_def by blast
  note p = good_place_item [OF task_below_here(2) nm] inside_item [OF task_below_here(2) nm]
  have "inside (path_join folder nm) (path_join folder nm)" by (simp add: inside_def)
  with walk_items_has [OF task_below_here(4), of sys rt folder depth] p task_below_here(2,3) show ?case
    by (auto simp: walk_tasks.simps [of sys rt folder depth] item_result_def split: sum.splits intro: rev_bexI)
next
  case (task_below_child folder its sub d)
  have nm: "item_name sub" "item_name nm" using task_below_child unfolding tidy_names_def by blast+
  note sub = good_place_item [OF task_below_child(6) nm(1)] inside_item [OF task_below_child(6) nm(1)]
  have "inside folder (path_join d nm)"
    using below_inside [OF task_below_child(3,5) sub(1)] sub(2) inside_item [OF _ nm(2)] inside_trans by blast
  with walk_items_has [OF task_below_child(2), of sys rt folder depth] task_below_child(1,6)
    task_below_child(4) [OF task_below_child(5) sub(1) task_below_child(7,8), of "depth + 1"] show ?case
    by (auto simp: walk_tasks.simps [of sys rt folder depth] item_result_def split: sum.splits)
qed

lemma gap_covers_inside:
  assumes "lower_char_ok lc" and "good_place a" and "inside a p" and "a \<in> set places"
  shows "covers lc (unreadable_covering lc [kind] places what) kind p"
proof -
  have a: "a \<noteq> []" "\<not> is_place_separator [last a]" "list_all utf8_char (utf8_chars a)"
    using assms(2) by (auto simp: good_place_def directory_text_def is_place_separator_def is_path_separator_def)
  have sep: "is_place_separator [CHR 0x5C]" by (simp add: is_place_separator_def)
  have "under lc p (as_place lc a)"
    using assms(3) under_below(2,3) [OF assms(1) a(1,2) sep a(3)] unfolding inside_def
    by (elim disjE exE conjE) (auto simp: under_def)
  with assms(4) show ?thesis by (auto simp: covers_def unreadable_covering_def list_ex_iff)
qed

text \<open>C17: no task file is passed over in silence. For every file that can be reached in the task store
  through folders that list, however deep, however many items failed on the way, reading the
  scheduled tasks either puts every entry of that file into the survey or adds an unread source
  that covers the file, so that nothing about it is concluded.\<close>

theorem every_task_accounted:
  assumes "lower_char_ok (ts_lower_char sys)" and "tidy_names sys" and "task_store sys = Some store" and "good_place store"
    and "task_below sys store d" and "ts_list sys d = Inr items" and "Item nm (Inr KindFile) \<in> set items"
  shows "(\<exists>found. task_entries_or sys store (path_join d nm) = Inr found
            \<and> set found \<subseteq> set (sv_entries (read_scheduled_tasks sys sv)))
       \<or> (\<exists>u \<in> set (sv_unreadable (read_scheduled_tasks sys sv)).
            covers (ts_lower_char sys) u (anchor_kind ScheduledTask) (path_join d nm))"
proof -
  obtain found missed where w: "walk_tasks sys store store 0 = (found, missed)" by force
  from walk_accounts [OF assms(5,2,4,6,7), of store 0] show ?thesis
  proof (elim disjE exE conjE bexE)
    fix g assume g: "g \<in> set (snd (walk_tasks sys store store 0))" "good_place (uw_where g)" "inside (uw_where g) (path_join d nm)"
    then obtain gap gaps where m: "missed = gap # gaps" using w by (cases missed) auto
    have "covers (ts_lower_char sys) (unreadable_covering (ts_lower_char sys) [anchor_kind ScheduledTask] (map uw_where missed) what)
        (anchor_kind ScheduledTask) (path_join d nm)" for what
      using gap_covers_inside [OF assms(1) g(2,3)] g(1) w by simp
    then show ?thesis using assms(3) w m by (simp add: read_scheduled_tasks_def add_unreadable_def add_entries_def Let_def)
  qed (use assms(3) w in \<open>auto simp: read_scheduled_tasks_def add_unreadable_def add_entries_def Let_def split: list.splits\<close>)
qed

section \<open>A store with a broken listing\<close>

definition sample_task_store :: str where
  "sample_task_store = slashes ''C:/Windows/System32/Tasks''"

definition sample_tasks :: task_system where
  "sample_tasks =
     \<lparr>ts_machine = sample_machine, ts_lower_char = lc0,
      ts_list = (\<lambda>p. if p = sample_task_store
                     then Inr [Item ''Updater'' (Inr KindFile), ItemError (IoError OtherKind ''gone''),
                               Item ''Late'' (Inr KindFile)]
                     else Inl not_found),
      ts_read = (\<lambda>p. Inl (IoError OtherKind ''denied'')), ts_com_value = (\<lambda>k w. None)\<rparr>"

theorem every_task_accounted_witness:
  "(\<exists>found. task_entries_or sample_tasks sample_task_store (path_join sample_task_store ''Late'') = Inr found
      \<and> set found \<subseteq> set (sv_entries (read_scheduled_tasks sample_tasks \<lparr>sv_entries = [], sv_unreadable = []\<rparr>)))
   \<or> (\<exists>u \<in> set (sv_unreadable (read_scheduled_tasks sample_tasks \<lparr>sv_entries = [], sv_unreadable = []\<rparr>)).
      covers lc0 u ''scheduled_task'' (path_join sample_task_store ''Late''))"
proof -
  have names: "item_name ''Updater''" "item_name ''Late''" by code_simp+
  have tidy: "tidy_names sample_tasks"
    using names by (auto simp: tidy_names_def sample_tasks_def split: if_splits)
  have store: "task_store sample_tasks = Some sample_task_store" "good_place sample_task_store" by code_simp+
  have listed: "ts_list sample_tasks sample_task_store =
      Inr [Item ''Updater'' (Inr KindFile), ItemError (IoError OtherKind ''gone''), Item ''Late'' (Inr KindFile)]"
    by (simp add: sample_tasks_def)
  from every_task_accounted [OF _ tidy store task_below_here listed, of "''Late''" "\<lparr>sv_entries = [], sv_unreadable = []\<rparr>"]
  show ?thesis by (simp add: sample_tasks_def lower_char_ok_lc0)
qed

end
