(* ===== verification/Kam_Survey_Complete.thy ===== *)
theory Kam_Survey_Complete
  imports Kam_Survey Kam_Tasks_Read
begin

text \<open>
  What the survey guarantees about each source: readers only add to it, every auto-start value and
  every self-starting service that could be read is in it, and each that could not is covered by
  an unread source.
\<close>

section \<open>Readers only add\<close>

definition within_survey :: "startup_survey \<Rightarrow> startup_survey \<Rightarrow> bool" where
  "within_survey a b \<longleftrightarrow>
     set (sv_entries a) \<subseteq> set (sv_entries b) \<and> set (sv_unreadable a) \<subseteq> set (sv_unreadable b)"

lemma within_survey_refl [simp]: "within_survey a a"
  by (simp add: within_survey_def)

lemma within_survey_trans [trans]: "within_survey a b \<Longrightarrow> within_survey b c \<Longrightarrow> within_survey a c"
  by (auto simp: within_survey_def)

lemma within_survey_add [simp, intro]:
  "within_survey a b \<Longrightarrow> within_survey a (add_entries es b)" "within_survey a b \<Longrightarrow> within_survey a (add_unreadable us b)"
  by (auto simp: within_survey_def add_entries_def add_unreadable_def)

lemma within_run_place: "within_survey sv (read_run_place sys p sv)"
  unfolding read_run_place_def Let_def
  by (auto split: sum.split unopened.split)

lemma within_foldl:
  assumes "\<And>a x. within_survey a (f a x)"
  shows "within_survey a (foldl f a xs)"
  by (induction xs arbitrary: a) (auto intro: within_survey_trans assms)

lemma within_startup_items: "within_survey sv (read_startup_items sys folder owner items sv)"
  by (induction sys folder owner items sv rule: read_startup_items.induct) (auto elim: within_survey_trans [rotated])

lemma within_startup: "within_survey sv (read_startup_folders sys users sv)"
proof -
  have "within_survey a (read_startup_folder sys fo a)" for a fo
    by (auto simp: read_startup_folder_def Let_def within_startup_items split: sum.split prod.split)
  then show ?thesis
    unfolding read_startup_folders_def
    by (intro within_survey_trans [OF _ within_foldl]) auto
qed

lemma within_services: "within_survey sv (read_services sys sv)"
  unfolding read_services_def Let_def
  by (auto split: sum.split)

lemma within_tasks: "within_survey sv (read_scheduled_tasks tsys sv)"
  unfolding read_scheduled_tasks_def Let_def
  by (auto split: option.split list.split prod.split)

lemma foldl_reaches:
  assumes "\<And>a x. within_survey a (f a x)" and "x \<in> set xs"
  shows "\<exists>a. within_survey (f a x) (foldl f b xs)"
  using assms(2)
proof (induction xs arbitrary: b)
  case (Cons y ys)
  then show ?case using within_foldl [of f, OF assms(1)] by (cases "x = y") auto
qed simp

text \<open>What a reader adds is in the survey, whatever the others find.\<close>

lemma survey_has_services:
  obtains sv where "within_survey (read_services sys sv) (survey_for sys users)"
proof -
  let ?sv = "read_startup_folders sys users (read_run_keys sys users \<lparr>sv_entries = [], sv_unreadable = []\<rparr>)"
  have "within_survey (read_services sys ?sv) (survey_for sys users)"
    using within_tasks [of "read_services sys ?sv" "sy_tasks sys"] by (simp add: survey_for_def Let_def within_survey_def)
  then show ?thesis by (rule that)
qed

lemma survey_has_run_place:
  assumes "p \<in> set (run_places users)"
  obtains sv where "within_survey (read_run_place sys p sv) (survey_for sys users)"
proof -
  let ?run = "read_run_keys sys users \<lparr>sv_entries = [], sv_unreadable = []\<rparr>"
  obtain sv where "within_survey (read_run_place sys p sv) ?run"
    using foldl_reaches [of "\<lambda>sv p. read_run_place sys p sv", OF within_run_place assms] by (auto simp: read_run_keys_def)
  also note within_startup [of ?run sys users]
  also note within_services [of "read_startup_folders sys users ?run" sys]
  also note within_tasks [of "read_services sys (read_startup_folders sys users ?run)" "sy_tasks sys"]
  finally have "within_survey (read_run_place sys p sv) (survey_for sys users)"
    by (simp add: survey_for_def Let_def within_survey_def)
  then show ?thesis by (rule that)
qed

section \<open>Services\<close>

lemma service_entries_has:
  "nm \<in> set nms \<Longrightarrow> service_outcome_of sys nm = Starts img d \<Longrightarrow> service_entry sys nm img d \<in> set (service_entries sys nms)"
  by (induction nms) auto

lemma inside_refl [simp]: "inside a a"
  by (simp add: inside_def)

text \<open>A name that is passed over is one for which there is nothing to report.\<close>

definition nothing_to_start :: "survey_system \<Rightarrow> str \<Rightarrow> bool" where
  "nothing_to_start sys nm \<longleftrightarrow>
     \<not> is_hidden_name nm
     \<and> (sy_service sys nm = Inl Absent
        \<or> (\<exists>key. sy_service sys nm = Inr key
             \<and> (sk_start key = Inr None \<or> (\<exists>s. sk_start key = Inr (Some s) \<and> 2 < s) \<or> (\<exists>k. sk_type key = Inr (Some k) \<and> k < 16))))"

lemma service_passed: "service_outcome_of sys nm = Passed \<Longrightarrow> nothing_to_start sys nm"
  by (auto simp: service_outcome_of_def nothing_to_start_def split: if_splits sum.splits option.splits)

text \<open>What stands in the survey for a service is made from what its own key says: the image it starts
  and the name it shows.\<close>

definition image_is_surveyed :: "survey_system \<Rightarrow> str \<Rightarrow> start_entry list \<Rightarrow> bool" where
  "image_is_surveyed sys nm entries \<longleftrightarrow>
     \<not> is_hidden_name nm
     \<and> (\<exists>key img. sy_service sys nm = Inr key \<and> sk_image key = Inr (Some img)
          \<and> service_entry sys nm img (sk_display key) \<in> set entries)"

lemma service_surveyed:
  assumes "service_outcome_of sys nm = Starts img d" and "service_entry sys nm img d \<in> set entries"
  shows "image_is_surveyed sys nm entries"
  using assms by (auto simp: service_outcome_of_def image_is_surveyed_def split: if_splits sum.splits option.splits)

text \<open>C13: no service is passed over in silence. Each name in the list of services is one with nothing to
  start (gone, without a start type, started on demand or disabled, or a driver), or the image that
  its own key holds is in the survey, under that key and with the name the key shows, or the survey
  has an unread source that covers its key; a key that hides its name, refuses to open or lacks an
  image is of the last kind.\<close>

theorem every_service_accounted:
  assumes "lower_char_ok (sy_lower_char sys)" and "sy_services sys = Inr names" and "nm \<in> set (ls_names names)"
    and "good_place (service_place nm)"
  shows "nothing_to_start sys nm
    \<or> image_is_surveyed sys nm (sv_entries (survey_for sys users))
    \<or> (\<exists>u \<in> set (sv_unreadable (survey_for sys users)). covers (sy_lower_char sys) u (anchor_kind Service) (service_place nm))"
proof -
  obtain sv where w: "within_survey (read_services sys sv) (survey_for sys users)" by (rule survey_has_services)
  show ?thesis
  proof (cases "service_outcome_of sys nm")
    case Passed
    then show ?thesis using service_passed by blast
  next
    case (Starts img d)
    then have "service_entry sys nm img d \<in> set (sv_entries (read_services sys sv))"
      using assms(2) service_entries_has [OF assms(3)]
      by (simp add: read_services_def Let_def add_entries_def add_unreadable_def)
    then have "service_entry sys nm img d \<in> set (sv_entries (survey_for sys users))" using w by (auto simp: within_survey_def)
    with Starts show ?thesis using service_surveyed by blast
  next
    case Refused
    then have r: "service_place nm \<in> set (refused_places sys (ls_names names))" using assms(3) by (auto simp: refused_places_def)
    then have "refused_places sys (ls_names names) \<noteq> []" by auto
    then have "\<exists>what. unreadable_covering (sy_lower_char sys) [anchor_kind Service] (refused_places sys (ls_names names)) what
        \<in> set (sv_unreadable (read_services sys sv))"
      using assms(2) by (auto simp: read_services_def Let_def add_entries_def add_unreadable_def)
    then obtain what where "unreadable_covering (sy_lower_char sys) [anchor_kind Service] (refused_places sys (ls_names names)) what
        \<in> set (sv_unreadable (survey_for sys users))" using w by (auto simp: within_survey_def)
    with gap_covers_inside [OF assms(1,4) inside_refl r] show ?thesis by blast
  qed
qed

section \<open>Run keys\<close>

text \<open>Every sign-in command is surveyed for its owner. For each \<open>Run\<close> and \<open>RunOnce\<close> place of the machine
  and of each account, a key that is there but does not open, or was not read to the end, is
  covered by an unread source; and each value that holds text is an entry under that key,
  expanded for its owner and marked hidden when its name cannot be shown exactly.\<close>

theorem every_run_value_accounted:
  assumes "lower_char_ok (sy_lower_char sys)" and "p \<in> set (run_places users)" and "good_place (rp_named p)"
    and "sy_values sys (rp_hive p) (rp_path p) (rp_view p) = answer" and "answer \<noteq> Inl Absent"
  shows "(\<forall>vals v command. answer = Inr vals \<longrightarrow> v \<in> set (vs_values vals) \<longrightarrow> vl_text v = Some command \<longrightarrow>
        make_entry (sy_machine sys) (vl_name v) (rp_anchor p) (rp_named p) command (\<not> vl_exact v) (rp_owner p)
          \<in> set (sv_entries (survey_for sys users)))
    \<and> ((\<exists>vals. answer = Inr vals \<and> vs_whole vals)
       \<or> (\<exists>u \<in> set (sv_unreadable (survey_for sys users)).
            covers (sy_lower_char sys) u (anchor_kind (rp_anchor p)) (rp_named p)))"
proof -
  obtain sv where w: "within_survey (read_run_place sys p sv) (survey_for sys users)"
    by (rule survey_has_run_place [OF assms(2)])
  have here: "covers (sy_lower_char sys) (unreadable_within (sy_lower_char sys) kind (rp_named p) what) kind (rp_named p)" for kind what
    using gap_covers_inside [OF assms(1,3) inside_refl, of "[rp_named p]" kind what]
    by (simp add: unreadable_within_def unreadable_covering_def)
  show ?thesis
  proof (cases answer)
    case (Inl why)
    then have "unreadable_within (sy_lower_char sys) (anchor_kind (rp_anchor p)) (rp_named p) (unopened_describe why (rp_named p))
        \<in> set (sv_unreadable (read_run_place sys p sv))"
      using assms(4,5) by (cases why) (auto simp: read_run_place_def add_unreadable_def)
    with w have "unreadable_within (sy_lower_char sys) (anchor_kind (rp_anchor p)) (rp_named p) (unopened_describe why (rp_named p))
        \<in> set (sv_unreadable (survey_for sys users))" by (auto simp: within_survey_def)
    with here have "\<exists>u \<in> set (sv_unreadable (survey_for sys users)). covers (sy_lower_char sys) u (anchor_kind (rp_anchor p)) (rp_named p)"
      by blast
    then show ?thesis using Inl by blast
  next
    case (Inr vals)
    let ?entry = "\<lambda>v command. make_entry (sy_machine sys) (vl_name v) (rp_anchor p) (rp_named p) command (\<not> vl_exact v) (rp_owner p)"
    have "?entry v command \<in> set (sv_entries (read_run_place sys p sv))"
      if "v \<in> set (vs_values vals)" "vl_text v = Some command" for v command
      using that assms(4) Inr by (auto simp: read_run_place_def Let_def add_entries_def List.map_filter_def intro!: rev_image_eqI [of v])
    moreover have "vs_whole vals \<or> (\<exists>u \<in> set (sv_unreadable (read_run_place sys p sv)).
        covers (sy_lower_char sys) u (anchor_kind (rp_anchor p)) (rp_named p))"
      using assms(4) Inr here by (auto simp: read_run_place_def Let_def add_entries_def add_unreadable_def)
    ultimately show ?thesis using Inr w by (auto simp: within_survey_def)
  qed
qed

section \<open>Order\<close>

text \<open>The survey lists what the four readers found, hardest to shift first.\<close>

lemma survey_sorted:
  "sorted_wrt (\<lambda>a b. tenacity (se_anchor b) \<le> tenacity (se_anchor a)) (sv_entries (survey_for sys users))"
proof -
  have t: "tenacity a \<le> 5" for a by (cases a) simp_all
  have "sorted (map (survey_order (sy_machine sys)) (sv_entries (survey_for sys users)))"
    by (simp add: survey_for_def Let_def)
  then have "sorted_wrt (\<lambda>a b. survey_order (sy_machine sys) a \<le> survey_order (sy_machine sys) b) (sv_entries (survey_for sys users))"
    by (simp add: sorted_map)
  then show ?thesis
    by (rule sorted_wrt_mono_rel [rotated]) (use t in \<open>auto simp: survey_order_def less_eq_prod_def dest!: le_diff_iff' [THEN iffD1, rotated 2]\<close>)
qed

section \<open>A machine with a denied service\<close>

definition sample_value :: shown_value where
  "sample_value = \<lparr>vl_name = ''Updater'', vl_exact = False, vl_text = Some ''cmd.exe /c run.cmd''\<rparr>"

definition sample_survey :: survey_system where
  "sample_survey =
     \<lparr>sy_tasks = sample_tasks,
      sy_values = (\<lambda>hv path vw. Inr \<lparr>vs_values = [sample_value], vs_whole = False\<rparr>),
      sy_services = Inr \<lparr>ls_names = [''Spooler'', ''Junk''], ls_whole = True\<rparr>,
      sy_service = (\<lambda>nm. if nm = ''Junk'' then Inl Denied
                        else Inr \<lparr>sk_start = Inr (Some 2), sk_type = Inr (Some 16), sk_image = Inr (Some ''cmd.exe''),
                                  sk_display = None\<rparr>),
      sy_shortcut = (\<lambda>path. None), sy_display = (\<lambda>d nm. d)\<rparr>"

lemma sample_survey_lower: "lower_char_ok (sy_lower_char sample_survey)"
  by (simp add: sy_lower_char_def sample_survey_def sample_tasks_def lower_char_ok_lc0)

lemma sample_services: "sy_services sample_survey = Inr \<lparr>ls_names = [''Spooler'', ''Junk''], ls_whole = True\<rparr>"
  by (simp add: sample_survey_def)

text \<open>The spooler's image is surveyed, and the key that refuses to open is covered.\<close>

theorem every_service_accounted_witness:
  "(service_entry sample_survey ''Spooler'' ''cmd.exe'' None \<in> set (sv_entries (survey_for sample_survey []))
      \<or> (\<exists>u \<in> set (sv_unreadable (survey_for sample_survey [])).
           covers (sy_lower_char sample_survey) u (anchor_kind Service) (service_place ''Spooler'')))
   \<and> (\<exists>u \<in> set (sv_unreadable (survey_for sample_survey [])).
        covers (sy_lower_char sample_survey) u (anchor_kind Service) (service_place ''Junk''))"
proof -
  note here = every_service_accounted [OF sample_survey_lower sample_services]
  have "good_place (service_place ''Spooler'')" "good_place (service_place ''Junk'')" by code_simp+
  moreover have "\<not> nothing_to_start sample_survey ''Spooler''" "\<not> nothing_to_start sample_survey ''Junk''"
    by (simp_all add: nothing_to_start_def sample_survey_def)
  moreover have "\<not> image_is_surveyed sample_survey ''Junk'' entries" for entries
    by (simp add: image_is_surveyed_def sample_survey_def)
  moreover have "service_entry sample_survey ''Spooler'' ''cmd.exe'' None \<in> set entries"
    if "image_is_surveyed sample_survey ''Spooler'' entries" for entries
    using that by (auto simp: image_is_surveyed_def sample_survey_def)
  ultimately show ?thesis using here [of "''Spooler''" "[]"] here [of "''Junk''" "[]"] by auto
qed

definition sample_run_place :: run_place where
  "sample_run_place =
     \<lparr>rp_hive = HKEY_LOCAL_MACHINE, rp_path = slashes ''Software/Microsoft/Windows/CurrentVersion/Run'', rp_view = Native,
      rp_named = slashes ''HKLM/Software/Microsoft/Windows/CurrentVersion/Run'', rp_anchor = RunKey, rp_owner = None\<rparr>"

theorem every_run_value_accounted_witness:
  "make_entry (sy_machine sample_survey) ''Updater'' RunKey (rp_named sample_run_place) ''cmd.exe /c run.cmd'' True None
     \<in> set (sv_entries (survey_for sample_survey []))
   \<and> (\<exists>u \<in> set (sv_unreadable (survey_for sample_survey [])). covers (sy_lower_char sample_survey) u ''run_key'' (rp_named sample_run_place))"
proof -
  have p: "sample_run_place \<in> set (run_places [])"
    by (simp add: run_places_def sample_run_place_def user_hive_def RUN_KEYS_def slashes_def)
  have g: "good_place (rp_named sample_run_place)" by code_simp
  have a: "sy_values sample_survey (rp_hive sample_run_place) (rp_path sample_run_place) (rp_view sample_run_place)
      = Inr \<lparr>vs_values = [sample_value], vs_whole = False\<rparr>" by (simp add: sample_survey_def)
  from every_run_value_accounted [OF sample_survey_lower p g a] show ?thesis
    by (auto simp: sample_value_def sample_run_place_def)
qed

end
