(* ===== verification/Kam_Baseline_Sound.thy ===== *)
theory Kam_Baseline_Sound
  imports Kam_Baseline Kam_Survey_Complete
begin

text \<open>
  From the machine to the list of changes: the table of verified files changes no sighting, an
  account that was not examined is covered wherever its things are filed, and what a refused read
  leaves out is never reported as gone by the sweep that follows.
\<close>

section \<open>The table of verified files\<close>

definition plain_sighting :: "(str \<Rightarrow> str) \<Rightarrow> (str \<Rightarrow> signature) \<Rightarrow> start_entry \<Rightarrow> sighting" where
  "plain_sighting lower sig e =
     \<lparr>s_kind = anchor_kind (se_anchor e), s_scope = lower (se_location e), s_name = se_name e,
      s_detail = (case entry_target e of Some path \<Rightarrow> path | None \<Rightarrow> se_command e),
      s_trust = trust_in sig (entry_target e)\<rparr>"

definition table_ok :: "(str \<Rightarrow> signature) \<Rightarrow> (str \<times> str) list \<Rightarrow> bool" where
  "table_ok sig known \<longleftrightarrow> (\<forall>path t. map_of known path = Some t \<longrightarrow> t = trust_in sig (Some path))"

lemma sighting_of_table:
  assumes "table_ok sig known"
  shows "fst (sighting_of lower sig e known) = plain_sighting lower sig e" and "table_ok sig (snd (sighting_of lower sig e known))"
  using assms by (auto simp: sighting_of_def plain_sighting_def table_ok_def Let_def split: option.splits)

lemma sightings_of_table:
  "table_ok sig known \<Longrightarrow> sightings_of lower sig es known = map (plain_sighting lower sig) es"
proof (induction es arbitrary: known)
  case (Cons e es)
  then show ?case using sighting_of_table [of sig known lower e]
    by (cases "sighting_of lower sig e known") simp
qed simp

text \<open>Verifying each file once is the same as verifying it for every entry. The sightings made with the
  table of signatures already checked are, entry for entry, those made by asking for the
  signature each time.\<close>

theorem sightings_cached_exact:
  "sightings_of lower sig es [] = map (plain_sighting lower sig) es"
  by (rule sightings_of_table) (simp add: table_ok_def)

section \<open>Gaps and the sweep\<close>

lemma covers_cong: "as_place lc s = as_place lc s' \<Longrightarrow> covers lc u kind s = covers lc u kind s'"
  by (simp add: covers_def under_def)

lemma trailing_place: "as_place lc (s @ [CHR 0x5C]) = as_place lc s"
proof -
  have "\<not> is_continuation (CHR 0x5C)" by (simp add: is_continuation_def)
  then have "utf8_chars (s @ [CHR 0x5C]) = utf8_chars s @ [[CHR 0x5C]]" by (simp add: utf8_chars_append)
  then show ?thesis
    by (simp add: as_place_def place_chars_append trim_end_append is_place_separator_def)
qed

lemma collect_gaps:
  assumes "collect sys sig admins profiles for_sid users = (seen, gaps)"
  shows "set (sv_unreadable (survey_for sys users)) \<subseteq> set gaps"
    and "profiles_not_examined (mc_lower (sy_machine sys)) profiles for_sid users = Some missing
      \<Longrightarrow> unreadable_covering (sy_lower_char sys) per_account_kinds (ne_places missing) (ne_what missing) \<in> set gaps"
  using assms by (auto simp: collect_def Let_def split: sum.splits option.splits)

section \<open>Lower-casing as a text and by the character\<close>

text \<open>
  \<open>str::to_lowercase\<close> goes by the character but for one: the documentation of the standard library makes the capital
  sigma, which becomes another letter at the end of a word, its only exception. Of \<open>char::to_lowercase\<close> the laws say
  that it leaves the two separators alone and gives no separator for anything else, and that what it gives is lower
  case already.
\<close>

definition CAPITAL_SIGMA :: str where "CAPITAL_SIGMA = [CHR 0xCE, CHR 0xA3]"

definition lowered_char :: "(str \<Rightarrow> str) \<Rightarrow> str \<Rightarrow> bool" where
  "lowered_char lc t \<longleftrightarrow>
     t \<noteq> [] \<and> \<not> is_continuation (hd t) \<and> list_all (\<lambda>v. \<not> is_place_separator v) (utf8_chars t)
     \<and> concat (map lc (utf8_chars t)) = t"

definition lowers_by_character :: "(str \<Rightarrow> str) \<Rightarrow> (str \<Rightarrow> str) \<Rightarrow> bool" where
  "lowers_by_character lower lc \<longleftrightarrow>
     (\<forall>s. list_all utf8_char (utf8_chars s) \<and> CAPITAL_SIGMA \<notin> set (utf8_chars s) \<longrightarrow> lower s = concat (map lc (utf8_chars s)))
     \<and> (\<forall>u. is_place_separator u \<longrightarrow> lc u = u)
     \<and> (\<forall>u. utf8_char u \<and> \<not> is_continuation (hd u) \<and> \<not> is_place_separator u \<longrightarrow> lowered_char lc (lc u))"

lemma separator_chars: "is_place_separator u \<Longrightarrow> utf8_chars u = [u] \<and> u \<noteq> [] \<and> \<not> is_continuation (hd u)"
  by (auto simp: is_place_separator_def is_continuation_def)

lemma place_chars_plain:
  "us \<noteq> [] \<Longrightarrow> list_all (\<lambda>v. \<not> is_place_separator v) us
    \<Longrightarrow> place_chars lc w (us @ vs) = concat (map lc us) @ place_chars lc False vs"
  by (induction us arbitrary: w rule: induct_list012) simp_all

text \<open>A place is the same whether it is made from a text or from the same text in lower case.\<close>

lemma place_of_lowered:
  assumes "lowers_by_character lower lc"
    and "list_all (\<lambda>u. utf8_char u \<and> \<not> is_continuation (hd u)) us"
  shows "place_chars lc w (utf8_chars (concat (map lc us))) = place_chars lc w us"
  using assms(2)
proof (induction us arbitrary: w)
  case (Cons u us)
  have each: "lc v \<noteq> [] \<and> \<not> is_continuation (hd (lc v))" if "utf8_char v" "\<not> is_continuation (hd v)" for v
    using that assms(1) separator_chars [of v]
    by (cases "is_place_separator v") (auto simp: lowers_by_character_def lowered_char_def)
  have "concat (map lc us) = [] \<or> \<not> is_continuation (hd (concat (map lc us)))"
    using Cons.prems each by (cases us) auto
  then have cut: "utf8_chars (concat (map lc (u # us))) = utf8_chars (lc u) @ utf8_chars (concat (map lc us))"
    by (simp add: utf8_chars_append)
  show ?case
  proof (cases "is_place_separator u")
    case True
    then have "lc u = u" using assms(1) by (simp add: lowers_by_character_def)
    then show ?thesis using True Cons separator_chars [OF True] by (simp del: concat.simps list.map add: cut)
  next
    case False
    then have "lowered_char lc (lc u)" using assms(1) Cons.prems by (simp add: lowers_by_character_def)
    then have l: "utf8_chars (lc u) \<noteq> []" "list_all (\<lambda>v. \<not> is_place_separator v) (utf8_chars (lc u))"
        "concat (map lc (utf8_chars (lc u))) = lc u"
      by (simp_all add: lowered_char_def)
    show ?thesis using False Cons by (simp only: cut place_chars_plain [OF l(1,2)] l(3)) simp
  qed
qed simp

lemma as_place_lower:
  assumes "lowers_by_character lower lc" and "list_all utf8_char (utf8_chars s)" and "CAPITAL_SIGMA \<notin> set (utf8_chars s)"
    and "s = [] \<or> \<not> is_continuation (hd s)"
  shows "as_place lc (lower s) = as_place lc s"
proof -
  have l: "lower s = concat (map lc (utf8_chars s))" using assms(1-3) by (simp add: lowers_by_character_def)
  have "\<not> is_continuation (hd u)" if "u \<in> set (utf8_chars s)" for u
    using that assms(4) utf8_chars_leading [of u s] by (cases s) auto
  then have "list_all (\<lambda>u. utf8_char u \<and> \<not> is_continuation (hd u)) (utf8_chars s)"
    using assms(2) by (simp add: list_all_iff)
  from place_of_lowered [OF assms(1) this, of False] show ?thesis by (simp add: as_place_def l)
qed

lemma service_place_leads: "service_place nm \<noteq> [] \<and> \<not> is_continuation (hd (service_place nm))"
  by (simp add: service_place_def SERVICES_def slashes_def is_continuation_def)

text \<open>C37: a service that could not be read is not reported as gone. If the survey behind a sweep could not
  read a service's key (its name is hidden, it refuses to open, or it lacks an image), then the
  sweep that follows leaves what is recorded under that key, which is filed under the key's place in
  lower case, as it was and reports no difference about it, unless something else was seen under the
  same key and name. The place is one whose name holds no capital sigma, the one letter that text and
  characters do not lower-case alike: with it the place of the gap can differ from that of the record.\<close>

theorem refused_service_never_vanishes:
  assumes "lower_char_ok (sy_lower_char sys)" and "lowers_by_character (mc_lower (sy_machine sys)) (sy_lower_char sys)"
    and "sy_services sys = Inr names" and "nm \<in> set (ls_names names)"
    and "service_outcome_of sys nm = Refused" and "good_place (service_place nm)"
    and "CAPITAL_SIGMA \<notin> set (utf8_chars (service_place nm))"
    and "scope = mc_lower (sy_machine sys) (service_place nm)"
    and "collect sys sig admins profiles for_sid users = (seen, gaps)"
    and "sweep (sy_lower_char sys) seen gaps now cutoff failure d = (Inr sw, d')"
    and "(anchor_kind Service, scope, n) \<notin> sighting_key ` set seen"
  shows "find_row (anchor_kind Service, scope, n) (sightings d') = find_row (anchor_kind Service, scope, n) (sightings d)
    \<and> (\<forall>x \<in> set (sw_differences sw). difference_key x \<noteq> (anchor_kind Service, scope, n))"
proof -
  have place: "as_place (sy_lower_char sys) scope = as_place (sy_lower_char sys) (service_place nm)"
    using as_place_lower [OF assms(2) _ assms(7)] service_place_leads [of nm] assms(6,8) by (simp add: good_place_def)
  have r: "service_place nm \<in> set (refused_places sys (ls_names names))" using assms(4,5) by (auto simp: refused_places_def)
  then have ne: "refused_places sys (ls_names names) \<noteq> []" by auto
  obtain sv where w: "within_survey (read_services sys sv) (survey_for sys users)" by (rule survey_has_services)
  obtain what where u: "unreadable_covering (sy_lower_char sys) [anchor_kind Service] (refused_places sys (ls_names names)) what
      \<in> set (sv_unreadable (read_services sys sv))"
    using assms(3) ne by (auto simp: read_services_def Let_def add_entries_def add_unreadable_def)
  then have "unreadable_covering (sy_lower_char sys) [anchor_kind Service] (refused_places sys (ls_names names)) what \<in> set gaps"
    using w collect_gaps(1) [OF assms(9)] by (auto simp: within_survey_def)
  moreover have "covers (sy_lower_char sys)
      (unreadable_covering (sy_lower_char sys) [anchor_kind Service] (refused_places sys (ls_names names)) what) (anchor_kind Service) scope"
    using gap_covers_inside [OF assms(1,6) inside_refl r] covers_cong [OF place] by blast
  ultimately show ?thesis using covered_unconcluded [OF assms(10) _ _ assms(11)] by blast
qed

text \<open>An account nobody looked at is covered. For each account in the list of profiles that is a person's
  and was not examined, or when that list could not be read in full, the gaps handed to the sweep
  cover its sign-in entries and Startup items under its hive, so none of them is concluded to be
  gone.\<close>

theorem unexamined_account_covered:
  assumes "lower_char_ok (sy_lower_char sys)" and "collect sys sig admins profiles for_sid users = (seen, gaps)"
    and "profiles = Some names" and "\<not> ls_whole names \<or> sid \<in> set (missed_accounts names users)"
    and "kind \<in> set per_account_kinds" and "good_place (slashes ''HKEY_USERS/'' @ sid)"
    and "inside (slashes ''HKEY_USERS/'' @ sid) scope"
  shows "\<exists>u \<in> set gaps. covers (sy_lower_char sys) u kind scope"
proof -
  let ?lc = "sy_lower_char sys" and ?hive = "slashes ''HKEY_USERS/'' @ sid"
  obtain missing where m: "profiles_not_examined (mc_lower (sy_machine sys)) profiles for_sid users = Some missing"
    and p: "ne_places missing = [] \<or> (?hive @ [CHR 0x5C]) \<in> set (ne_places missing)"
  proof (cases "ls_whole names")
    case True
    then have sid: "sid \<in> set (missed_accounts names users)" using assms(4) by simp
    then have "missed_accounts names users \<noteq> []" by auto
    with True sid show ?thesis
      by (intro that) (auto simp: profiles_not_examined_def assms(3) Let_def account_places_def intro!: bexI [of _ sid])
  next
    case False
    show ?thesis by (rule that, simp add: profiles_not_examined_def assms(3) Let_def False, simp)
  qed
  have "ne_places missing = [] \<or> as_place ?lc ?hive \<in> as_place ?lc ` set (ne_places missing)"
    using p unfolding trailing_place [of ?lc ?hive, symmetric] by blast
  moreover have "under ?lc scope (as_place ?lc ?hive)"
    using gap_covers_inside [OF assms(1,6,7), of "[?hive]" kind]
    by (auto simp: covers_def unreadable_covering_def)
  ultimately have "covers ?lc (unreadable_covering ?lc per_account_kinds (ne_places missing) (ne_what missing)) kind scope"
    using assms(5) by (auto simp: covers_def unreadable_covering_def list_ex_iff)
  with collect_gaps(2) [OF assms(2) m] show ?thesis by blast
qed

section \<open>Witnesses\<close>

text \<open>Lower-casing ASCII alone keeps to the laws.\<close>

lemma ascii_lower_char_nat: "(of_char (ascii_lower_char c) :: nat) =
    (if 65 \<le> (of_char c :: nat) \<and> (of_char c :: nat) \<le> 90 then of_char c + 32 else of_char c)"
  by (simp add: ascii_lower_char_def Let_def of_char_of take_bit_eq_mod)

lemma ascii_lower_char_twice: "ascii_lower_char (ascii_lower_char c) = ascii_lower_char c"
  by (rule injD [OF inj_of_char [where 'a = nat]]) (simp only: ascii_lower_char_nat, simp)

lemma ascii_lower_char_continuation [simp]: "is_continuation (ascii_lower_char c) = is_continuation c"
  by (auto simp: is_continuation_def ascii_lower_char_nat)

lemma ascii_lower_char_separator:
  "ascii_lower_char c = CHR 0x5C \<longleftrightarrow> c = CHR 0x5C" "ascii_lower_char c = CHR ''/'' \<longleftrightarrow> c = CHR ''/''"
  by (auto simp: inj_eq [OF inj_of_char [where 'a = nat], symmetric] ascii_lower_char_nat)

lemma ascii_lowers_by_character: "lowers_by_character ascii_lower lc0"
proof -
  have whole: "concat (map ascii_lower us) = ascii_lower (concat us)" for us
    by (induction us) (simp_all add: ascii_lower_def)
  have "lowered_char lc0 (lc0 u)"
    if "utf8_char u" "\<not> is_continuation (hd u)" "\<not> is_place_separator u" for u
  proof -
    have "whole_char u" using that(1) by (simp add: utf8_char_def)
    then obtain c cs where u: "u = c # cs" "list_all is_continuation cs" by (cases u) (auto simp: whole_char_def)
    then have "utf8_chars (ascii_lower u) = [ascii_lower u]"
      by (intro utf8_chars_one) (auto simp: whole_char_def ascii_lower_def list_all_iff)
    moreover have "\<not> is_place_separator (ascii_lower u)"
      using that(3) u(1) by (auto simp: is_place_separator_def ascii_lower_def ascii_lower_char_separator)
    moreover have "ascii_lower (ascii_lower u) = ascii_lower u" by (simp add: ascii_lower_def ascii_lower_char_twice)
    moreover have "ascii_lower u \<noteq> []" "\<not> is_continuation (hd (ascii_lower u))" using that(2) u(1) by (simp_all add: ascii_lower_def)
    ultimately show ?thesis by (simp add: lowered_char_def lc0_def)
  qed
  moreover have "lc0 u = u" if "is_place_separator u" for u
    using that by (auto simp: is_place_separator_def lc0_def ascii_lower_def ascii_lower_char_separator)
  moreover have "ascii_lower s = concat (map lc0 (utf8_chars s))" for s
    using whole [of "utf8_chars s"] by (simp add: lc0_def [abs_def])
  ultimately show ?thesis by (simp add: lowers_by_character_def)
qed

lemma sample_survey_lower_text: "mc_lower (sy_machine sample_survey) = ascii_lower"
  by (simp add: sy_machine_def sample_survey_def sample_tasks_def sample_machine_def)

lemma sample_survey_lowers: "lowers_by_character (mc_lower (sy_machine sample_survey)) (sy_lower_char sample_survey)"
  using ascii_lowers_by_character
  unfolding sample_survey_lower_text by (simp add: sy_lower_char_def sample_survey_def sample_tasks_def)

theorem refused_service_never_vanishes_witness:
  "\<exists>scope seen gaps sw d'. scope = slashes ''hklm/system/currentcontrolset/services/junk''
     \<and> collect sample_survey (\<lambda>p. Unsigned) (Inr ''ari'') None (\<lambda>sid. None) [] = (seen, gaps)
     \<and> sweep (sy_lower_char sample_survey) seen gaps ''t1'' ''c'' None empty_db = (Inr sw, d')
     \<and> ((anchor_kind Service, scope, ''Junk'') \<in> sighting_key ` set seen
        \<or> (\<forall>x \<in> set (sw_differences sw). difference_key x \<noteq> (anchor_kind Service, scope, ''Junk'')))"
proof -
  let ?key = "(anchor_kind Service, slashes ''hklm/system/currentcontrolset/services/junk'', ''Junk'')"
  obtain seen gaps where c: "collect sample_survey (\<lambda>p. Unsigned) (Inr ''ari'') None (\<lambda>sid. None) [] = (seen, gaps)"
    by (rule prod.exhaust)
  obtain sw d' where s: "sweep (sy_lower_char sample_survey) seen gaps ''t1'' ''c'' None empty_db = (Inr sw, d')"
    using sweep_succeeds by blast
  have out: "service_outcome_of sample_survey ''Junk'' = Refused"
    by (simp add: service_outcome_of_def sample_survey_def)
  have good: "good_place (service_place ''Junk'')" by code_simp
  have listed: "''Junk'' \<in> set (ls_names \<lparr>ls_names = [''Spooler'', ''Junk''], ls_whole = True\<rparr>)" by simp
  have scope: "slashes ''hklm/system/currentcontrolset/services/junk'' = mc_lower (sy_machine sample_survey) (service_place ''Junk'')"
    unfolding sample_survey_lower_text
    by (simp add: service_place_def SERVICES_def slashes_def ascii_lower_def ascii_lower_char_def char_of_def bit_0)
  have sigma: "CAPITAL_SIGMA \<notin> set (utf8_chars (service_place ''Junk''))" by code_simp
  note here = refused_service_never_vanishes
      [OF sample_survey_lower sample_survey_lowers sample_services listed out good sigma scope c s, of "''Junk''"]
  have "?key \<in> sighting_key ` set seen \<or> (\<forall>x \<in> set (sw_differences sw). difference_key x \<noteq> ?key)"
    using here by (cases "?key \<in> sighting_key ` set seen") simp_all
  with c s show ?thesis by (intro exI conjI) (rule refl, assumption+)
qed

theorem unexamined_account_covered_witness:
  "\<exists>seen gaps. collect sample_survey (\<lambda>p. Unsigned) (Inr ''ari'') (Some \<lparr>ls_names = [''S-1-5-21-7''], ls_whole = True\<rparr>)
     (\<lambda>sid. None) [] = (seen, gaps)
     \<and> (\<exists>u \<in> set gaps. covers (sy_lower_char sample_survey) u ''run_key'' (slashes ''HKEY_USERS/S-1-5-21-7''))"
proof -
  obtain seen gaps where c: "collect sample_survey (\<lambda>p. Unsigned) (Inr ''ari'') (Some \<lparr>ls_names = [''S-1-5-21-7''], ls_whole = True\<rparr>)
     (\<lambda>sid. None) [] = (seen, gaps)"
    by (rule prod.exhaust)
  have "''S-1-5-21-7'' \<in> set (missed_accounts \<lparr>ls_names = [''S-1-5-21-7''], ls_whole = True\<rparr> [])"
    by (simp add: missed_accounts_def)
  moreover have "''run_key'' \<in> set per_account_kinds" by (simp add: per_account_kinds_def)
  moreover have "good_place (slashes ''HKEY_USERS/'' @ ''S-1-5-21-7'')" by code_simp
  moreover have "inside (slashes ''HKEY_USERS/'' @ ''S-1-5-21-7'') (slashes ''HKEY_USERS/S-1-5-21-7'')"
    by (simp add: inside_def slashes_def)
  ultimately show ?thesis using unexamined_account_covered [OF sample_survey_lower c refl] c by blast
qed

end
