(* ===== verification/Kam_Behaviour.thy ===== *)
theory Kam_Behaviour
  imports Kam_Baseline
begin

text \<open>
  Judging what starts itself by where it is and how it is run:
  \<open>crates/kam-scanner/src/places.rs\<close>, \<open>crates/kam-scanner/src/behaviour.rs\<close> and the sentence for an
  entry that resolves to nothing, of \<open>persistence.rs\<close>. The verdict on a file's signature and the
  clock are arguments.
\<close>

section \<open>Where a path is\<close>

definition WRITABLE_INSIDE_WINDOWS :: "str list" where
  "WRITABLE_INSIDE_WINDOWS =
     [''Temp'', ''Tasks'', ''tracing'', slashes ''System32/Tasks'', slashes ''SysWOW64/Tasks'',
      slashes ''System32/spool/drivers/color'', slashes ''System32/Com/dmp'', slashes ''SysWOW64/Com/dmp'',
      slashes ''System32/Microsoft/Crypto/RSA/MachineKeys'', slashes ''Registration/CRMLog'']"

definition place_normalise :: "(str \<Rightarrow> str) \<Rightarrow> str \<Rightarrow> str" where
  "place_normalise lower path =
     (let l = slashes (lower (trim path));
          plain_text = (case strip_prefix (slashes ''//?/unc/'') l of
             Some rest \<Rightarrow> slashes ''//'' @ rest
           | None \<Rightarrow> (case strip_prefix (slashes ''//?/'') l of Some rest \<Rightarrow> rest | None \<Rightarrow> l))
      in trim_end_matches is_backslash plain_text)"

definition within_place :: "(str \<Rightarrow> str) \<Rightarrow> str \<Rightarrow> str \<Rightarrow> bool" where
  "within_place lower path rt =
     (let r = place_normalise lower rt; p = place_normalise lower path
      in if r = [] then False
         else p = r \<or> (case strip_prefix r p of None \<Rightarrow> False | Some rest \<Rightarrow> prefix [CHR 0x5C] rest))"

definition machine_folder :: "machine \<Rightarrow> str \<Rightarrow> str option" where
  "machine_folder mc variable =
     (case env_var mc variable of
        None \<Rightarrow> None
      | Some v \<Rightarrow> (let n = place_normalise (mc_lower mc) v in if n = [] then None else Some n))"

definition writable_inside_windows :: "machine \<Rightarrow> str \<Rightarrow> bool" where
  "writable_inside_windows mc path =
     (case machine_folder mc ''SystemRoot'' of
        None \<Rightarrow> False
      | Some rt \<Rightarrow> list_ex (\<lambda>tail. within_place (mc_lower mc) path (rt @ [CHR 0x5C] @ tail)) WRITABLE_INSIDE_WINDOWS)"

definition in_defenders_own_folder :: "machine \<Rightarrow> str \<Rightarrow> bool" where
  "in_defenders_own_folder mc path =
     (case machine_folder mc ''ProgramData'' of
        None \<Rightarrow> False
      | Some rt \<Rightarrow> within_place (mc_lower mc) path (rt @ slashes ''/Microsoft/Windows Defender''))"

section \<open>An entry that resolves to nothing\<close>

definition wow64_twin :: "machine \<Rightarrow> str \<Rightarrow> str option" where
  "wow64_twin mc command =
     (let expanded = expand (mc_env mc) (trim command);
          start = length (takeWhile (\<lambda>c. c = quote_char) expanded)
      in case split_sub ''.exe'' (ascii_lower expanded) of
           None \<Rightarrow> None
         | Some (before, behind) \<Rightarrow>
           (case get_slice expanded start (length before + 4) of
              None \<Rightarrow> None
            | Some raw \<Rightarrow>
              (case machine_folder mc ''SystemRoot'' of
                 None \<Rightarrow> None
               | Some rt \<Rightarrow>
                 (case strip_prefix (rt @ slashes ''/system32/'') (place_normalise (mc_lower mc) raw) of
                    None \<Rightarrow> None
                  | Some inner \<Rightarrow>
                    (if length raw < length inner then None
                     else (let spelled = drop (length raw - length inner) raw;
                               shown_inner = (if (spelled = [] \<or> \<not> is_continuation (hd spelled))
                                                 \<and> ascii_lower spelled = ascii_lower inner then spelled else inner)
                           in case env_var mc ''SystemRoot'' of
                                None \<Rightarrow> None
                              | Some sysroot \<Rightarrow>
                                (let twin = path_join (path_join sysroot ''SysWOW64'') shown_inner
                                 in if is_file mc twin then Some twin else None)))))))"

definition unresolved :: "machine \<Rightarrow> start_entry \<Rightarrow> str option" where
  "unresolved mc e =
     (if entry_target e \<noteq> None then None
      else Some (''Could not tell what '' @ anchor_label (se_anchor e) @ '' '' @ [quote_char] @ se_name e @ [quote_char]
             @ '' runs: '' @ se_command e @ '' names nothing that could be found.''
             @ (case wow64_twin mc (se_command e) of
                  None \<Rightarrow> []
                | Some twin \<Rightarrow> '' A file of that name is in '' @ twin
                    @ '', which is where a 32-bit installer's System32 lands, but that is not the path the entry names.'')))"

section \<open>Observations\<close>

datatype concern = Notable | Strong

datatype observed_kind = ProcessStarted | TaskAppeared | SignInEntry | StartupItem | ServiceAppeared

primrec kind_action :: "observed_kind \<Rightarrow> str" where
  "kind_action ProcessStarted = ''process_started''"
| "kind_action TaskAppeared = ''task_appeared''"
| "kind_action SignInEntry = ''sign_in_entry_appeared''"
| "kind_action StartupItem = ''startup_item_appeared''"
| "kind_action ServiceAppeared = ''service_appeared''"

primrec kind_label :: "observed_kind \<Rightarrow> str" where
  "kind_label ProcessStarted = ''a program started''"
| "kind_label TaskAppeared = ''a scheduled task appeared''"
| "kind_label SignInEntry = ''a sign-in entry appeared''"
| "kind_label StartupItem = ''a Startup folder item appeared''"
| "kind_label ServiceAppeared = ''a service appeared''"

primrec of_anchor :: "anchor \<Rightarrow> observed_kind" where
  "of_anchor ScheduledTask = TaskAppeared"
| "of_anchor RunKey = SignInEntry"
| "of_anchor RunOnceKey = SignInEntry"
| "of_anchor StartupFolder = StartupItem"
| "of_anchor Service = ServiceAppeared"

record observation =
  ob_at :: str
  ob_kind :: observed_kind
  ob_concern :: concern
  ob_summary :: str
  ob_evidence :: "str list"
  ob_subject :: str
  ob_command :: str
  ob_pid :: "nat option"

definition SCRIPTS :: "str list" where
  "SCRIPTS = [''cmd'', ''bat'', ''ps1'', ''psm1'', ''vbs'', ''vbe'', ''js'', ''jse'', ''wsf'', ''wsh'', ''hta'', ''py'', ''pyw'']"

definition PROJECTS :: "str list" where
  "PROJECTS = [''csproj'', ''vbproj'', ''fsproj'', ''proj'', ''targets'', ''props'', ''sln'']"

definition extension_of :: "machine \<Rightarrow> str \<Rightarrow> str" where
  "extension_of mc path = (case extension path of None \<Rightarrow> [] | Some e \<Rightarrow> mc_lower mc e)"

definition is_script :: "machine \<Rightarrow> str \<Rightarrow> bool" where
  "is_script mc path \<longleftrightarrow> extension_of mc path \<in> set SCRIPTS"

definition is_project :: "machine \<Rightarrow> str \<Rightarrow> bool" where
  "is_project mc path \<longleftrightarrow> extension_of mc path \<in> set PROJECTS"

definition shown_name :: "str \<Rightarrow> str" where
  "shown_name path = (case file_name path of Some n \<Rightarrow> n | None \<Rightarrow> path)"

definition dropper_place :: "machine \<Rightarrow> str \<Rightarrow> str option" where
  "dropper_place mc path =
     (let t = slashes (mc_lower mc path)
      in if in_defenders_own_folder mc path then None
         else if contains t (slashes ''/appdata/local/temp/'') \<or> contains t (slashes ''/windows/temp/'') then Some ''Temp''
         else if writable_inside_windows mc path then Some ''a writable folder inside Windows''
         else if contains t (slashes ''/appdata/local/'') \<or> contains t (slashes ''/appdata/roaming/'') then Some ''AppData''
         else if contains t (slashes ''/users/public/'') then Some ''the Public folder''
         else if contains t (slashes ''/downloads/'') then Some ''Downloads''
         else if contains t (slashes ''/desktop/'') then Some ''the Desktop''
         else if contains t (slashes ''/$recycle.bin/'') then Some ''the Recycle Bin''
         else if contains t (slashes ''/programdata/'') then Some ''ProgramData''
         else None)"

text \<open>The labels it is applied to begin with an ASCII letter.\<close>

fun capitalised :: "str \<Rightarrow> str" where
  "capitalised [] = []"
| "capitalised (c # cs) = to_ascii_uppercase c # cs"

section \<open>A new entry\<close>

definition entry_evidence :: "machine \<Rightarrow> start_entry \<Rightarrow> str \<Rightarrow> bool \<Rightarrow> str list" where
  "entry_evidence mc e target no_signer =
     (let script = (is_script mc target \<or> is_project mc target)
      in (case se_host e of
            None \<Rightarrow> []
          | Some host \<Rightarrow> [''It runs through '' @ host @ '', so what actually runs is '' @ shown_name target
              @ '' rather than '' @ host @ '' itself.''])
         @ (if se_hidden e
            then [''The scheduled task is marked hidden, so it does not appear in Task Scheduler's list. Ordinary software has no reason to hide.'']
            else [])
         @ (case dropper_place mc target of
              None \<Rightarrow> []
            | Some place \<Rightarrow> [''What it runs sits in '' @ place @ '', which any program can write to without administrator rights.''])
         @ (if script
            then [shown_name target @ '' is a script or project file, which carries no signature and is read as code when it runs.'']
            else [])
         @ (if no_signer \<and> \<not> script then [''Nobody signed the program it runs.''] else []))"

text \<open>An entry is never a process start, so that case of the summary is not reached.\<close>

definition entry_summary :: "start_entry \<Rightarrow> str \<Rightarrow> str \<Rightarrow> str" where
  "entry_summary e target place =
     (case of_anchor (se_anchor e) of
        TaskAppeared \<Rightarrow> (if se_hidden e then ''A hidden scheduled task now runs '' else ''A scheduled task now runs '')
      | SignInEntry \<Rightarrow> ''A sign-in entry now runs ''
      | StartupItem \<Rightarrow> ''A Startup item now runs ''
      | ServiceAppeared \<Rightarrow> ''A service now runs ''
      | ProcessStarted \<Rightarrow> [])
     @ shown_name target @ '' from '' @ place"

definition judge_entry :: "machine \<Rightarrow> (str \<Rightarrow> signature) \<Rightarrow> str \<Rightarrow> start_entry \<Rightarrow> observation option" where
  "judge_entry mc sig now e =
     (let kind = of_anchor (se_anchor e)
      in case entry_target e of
           None \<Rightarrow>
             Some \<lparr>ob_at = now, ob_kind = kind, ob_concern = Notable,
                   ob_summary = capitalised (kind_label kind) @ '', and what it runs could not be told'',
                   ob_evidence = [unwrap_or (se_command e @ '' names nothing that could be found.'') (unresolved mc e),
                     ''So whether it runs from a folder any program can write to, and who signed it, could not be checked.''],
                   ob_subject = se_location e, ob_command = se_command e, ob_pid = None\<rparr>
         | Some target \<Rightarrow>
             (let place = dropper_place mc target;
                  script = (is_script mc target \<or> is_project mc target);
                  no_signer = (sig target = Unsigned);
                  launched = (se_host e \<noteq> None);
                  in_writable = (place \<noteq> None);
                  worth_it = (in_writable \<and> (no_signer \<or> script \<or> launched \<or> se_hidden e));
                  level = (if in_writable \<and> (script \<or> launched) \<and> (se_hidden e \<or> no_signer) then Strong
                           else if se_hidden e then Strong else Notable)
              in if \<not> worth_it then None
                 else Some \<lparr>ob_at = now, ob_kind = kind, ob_concern = level,
                            ob_summary = entry_summary e target (unwrap_or ''a program folder'' place),
                            ob_evidence = entry_evidence mc e target no_signer,
                            ob_subject = target, ob_command = se_command e, ob_pid = None\<rparr>))"

section \<open>A process as it starts\<close>

record process_start =
  ps_pid :: nat
  ps_parent :: nat
  ps_name :: str
  ps_path :: "str option"
  ps_command :: str
  ps_user :: "user_context option"

definition ps_expand :: "machine \<Rightarrow> process_start \<Rightarrow> str \<Rightarrow> str" where
  "ps_expand mc p s = (case ps_user p of Some u \<Rightarrow> expand_for (mc_env mc) u s | None \<Rightarrow> expand (mc_env mc) s)"

definition ps_resolved :: "machine \<Rightarrow> process_start \<Rightarrow> resolved" where
  "ps_resolved mc p = (case ps_user p of Some u \<Rightarrow> resolve_for mc (ps_command p) u | None \<Rightarrow> resolve_command mc (ps_command p))"

definition BUILD_TOOLS :: "str list" where
  "BUILD_TOOLS = [''msbuild.exe'', ''regasm.exe'', ''regsvcs.exe'', ''installutil.exe'', ''aspnet_compiler.exe'']"

definition SIGNING_VENDORS :: "str list" where
  "SIGNING_VENDORS = [''synaptics'', ''intel'', ''nvidia'', ''realtek'', ''advanced micro devices'', ''logitech'', ''dell'',
     ''hewlett'', ''lenovo'', ''broadcom'', ''qualcomm'']"

definition headless_console :: "machine \<Rightarrow> str \<Rightarrow> bool" where
  "headless_console mc command =
     (let l = mc_lower mc command
      in contains l ''--headless'' \<and> \<not> contains l ''--server'' \<and> \<not> contains l ''--signal'')"

definition vendor_claim :: "machine \<Rightarrow> str \<Rightarrow> str option" where
  "vendor_claim mc path = find (contains (mc_lower mc path)) SIGNING_VENDORS"

definition msi_argument :: "machine \<Rightarrow> process_start \<Rightarrow> str option" where
  "msi_argument mc p =
     (let tokens = tokenise (ps_command p);
          behind = after_flag mc [''/i'', ''/package'', ''/a'', ''/x'', ''/f'', ''/p''] tokens;
          bare = find (\<lambda>t. ends_with (mc_lower mc t) ''.msi'') (drop 1 tokens)
      in map_option (\<lambda>t. ps_expand mc p (trim t)) (or_else behind bare))"

definition observe_process ::
  "str \<Rightarrow> process_start \<Rightarrow> concern \<Rightarrow> str \<Rightarrow> str list \<Rightarrow> str \<Rightarrow> observation option" where
  "observe_process now p level summary evidence subject =
     Some \<lparr>ob_at = now, ob_kind = ProcessStarted, ob_concern = level, ob_summary = summary, ob_evidence = evidence,
           ob_subject = subject, ob_command = ps_command p, ob_pid = Some (ps_pid p)\<rparr>"

definition place_of :: "machine \<Rightarrow> str option \<Rightarrow> str option" where
  "place_of mc path = (case path of None \<Rightarrow> None | Some p \<Rightarrow> dropper_place mc p)"

definition judge_build_tool :: "machine \<Rightarrow> str \<Rightarrow> process_start \<Rightarrow> resolved \<Rightarrow> observation option" where
  "judge_build_tool mc now p r =
     (let tool = ps_name p @ '' is a software build tool. It is signed by Microsoft, so antivirus trusts it, and it will run code from a project file ''
                 @ em_dash @ '' which antivirus does not read.''
      in case (rs_payload r, place_of mc (rs_payload r)) of
           (Some path, Some place) \<Rightarrow>
             observe_process now p Strong (ps_name p @ '' ran a build tool against a file in '' @ place)
               [tool, ''Here it was handed '' @ shown_name path @ '', which sits in '' @ place @ ''.''] path
         | _ \<Rightarrow>
             observe_process now p Notable (ps_name p @ '' ran without building anything nameable'')
               [tool, ''It was started with no project on its command line, which is not how a build is run.'']
               (unwrap_or (ps_name p) (ps_path p)))"

definition judge_console :: "machine \<Rightarrow> str \<Rightarrow> process_start \<Rightarrow> resolved \<Rightarrow> observation option" where
  "judge_console mc now p r =
     (let hosted = unwrap_or ''a command'' (or_else (rs_payload r) (rs_executable r));
          evidence = [''conhost.exe was started with --headless, which runs a console program with no window a person could see.'',
                      ''A real terminal attaches to conhost with --server and a signal handle; this did neither.'']
      in case place_of mc (rs_payload r) of
           Some place \<Rightarrow>
             observe_process now p Strong ''A hidden console was opened to run a script from a writable folder''
               (evidence @ [''What it runs sits in '' @ place @ ''.'']) hosted
         | None \<Rightarrow> observe_process now p Notable ''A console was opened with no window'' evidence hosted)"

definition judge_script_host :: "machine \<Rightarrow> str \<Rightarrow> process_start \<Rightarrow> resolved \<Rightarrow> observation option" where
  "judge_script_host mc now p r =
     (case (rs_host r, rs_payload r, place_of mc (rs_payload r)) of
        (Some host, Some payload, Some place) \<Rightarrow>
          (if is_script mc payload \<or> is_project mc payload
           then observe_process now p Notable (host @ '' ran a script from '' @ place)
                  [host @ '' was used to run '' @ shown_name payload @ ''.'',
                   ''That file sits in '' @ place @ '', which any program can write to without asking.''] payload
           else None)
      | _ \<Rightarrow> None)"

definition judge_installer :: "machine \<Rightarrow> (str \<Rightarrow> signature) \<Rightarrow> str \<Rightarrow> process_start \<Rightarrow> observation option" where
  "judge_installer mc sig now p =
     (case msi_argument mc p of
        None \<Rightarrow> None
      | Some msi \<Rightarrow>
        (case dropper_place mc msi of
           None \<Rightarrow> None
         | Some place \<Rightarrow>
           (let no_signer = (case sig msi of Unsigned \<Rightarrow> True | Invalid s \<Rightarrow> True | _ \<Rightarrow> False);
                vendor = vendor_claim mc msi
            in if no_signer \<and> (place = ''Temp'' \<or> vendor \<noteq> None)
               then observe_process now p Strong ''An unsigned installer ran from a writable folder''
                      ((''An installer package in '' @ place @ '' was run, and it carries no valid signature.'')
                       # (case vendor of None \<Rightarrow> []
                          | Some v \<Rightarrow> [''It presents itself as '' @ v @ '' software, whose real installers are always signed.'']))
                      msi
               else None)))"

definition judge_process :: "machine \<Rightarrow> (str \<Rightarrow> signature) \<Rightarrow> str \<Rightarrow> process_start \<Rightarrow> observation option" where
  "judge_process mc sig now p =
     (let nm = mc_lower mc (ps_name p); r = ps_resolved mc p
      in if nm \<in> set BUILD_TOOLS then judge_build_tool mc now p r
         else if nm = ''conhost.exe'' \<and> headless_console mc (ps_command p) then judge_console mc now p r
         else (case judge_script_host mc now p r of
                 Some ob \<Rightarrow> Some ob
               | None \<Rightarrow> if nm = ''msiexec.exe'' then judge_installer mc sig now p else None))"

section \<open>What is worth a line\<close>

lemma dropper_place_evidence: "dropper_place mc target = Some place \<Longrightarrow> entry_evidence mc e target u \<noteq> []"
  by (simp add: entry_evidence_def Let_def)

text \<open>C36: a new entry is reported for the right reason and never without evidence. An entry whose target is
  known is reported exactly when the target sits in a place anybody can write to and is
  unsigned, a script, started through a launcher, or hidden; the concern is strong exactly when
  the entry is hidden or a launched or scripted target is unsigned; an entry with no target is
  always reported; and every observation carries evidence.\<close>

theorem judge_entry_exact:
  "(judge_entry mc sig now e \<noteq> None) =
     (case entry_target e of
        None \<Rightarrow> True
      | Some t \<Rightarrow> dropper_place mc t \<noteq> None
          \<and> (sig t = Unsigned \<or> is_script mc t \<or> is_project mc t \<or> se_host e \<noteq> None \<or> se_hidden e))
   \<and> pred_option (\<lambda>ob. ob_evidence ob \<noteq> [] \<and> ob_command ob = se_command e
       \<and> (ob_concern ob = Strong) =
           (case entry_target e of
              None \<Rightarrow> False
            | Some t \<Rightarrow> se_hidden e \<or> ((is_script mc t \<or> is_project mc t \<or> se_host e \<noteq> None) \<and> sig t = Unsigned)))
     (judge_entry mc sig now e)"
proof (cases "entry_target e")
  case None
  then show ?thesis by (simp add: judge_entry_def Let_def)
next
  case (Some t)
  then show ?thesis
    by (cases "dropper_place mc t") (auto simp: judge_entry_def Let_def dropper_place_evidence)
qed

text \<open>A Run value that starts a script out of AppData through the command processor.\<close>

definition bare_machine :: machine where
  "bare_machine = sample_machine\<lparr>mc_env := []\<rparr>"

definition planted_target :: str where
  "planted_target = slashes ''C:/Users/ann/AppData/Roaming/run.cmd''"

definition planted_entry :: start_entry where
  "planted_entry =
     \<lparr>se_name = ''Updater'', se_anchor = RunKey, se_location = ''HKCU Run'', se_command = ''cmd /c run.cmd'',
      se_executable = Some (slashes ''C:/Windows/System32/cmd.exe''), se_payload = Some planted_target,
      se_host = Some ''cmd.exe'', se_hidden = False, se_machine_wide = False\<rparr>"

theorem judge_entry_exact_witness:
  "\<exists>ob. judge_entry bare_machine (\<lambda>path. Unsigned) ''now'' planted_entry = Some ob
     \<and> ob_evidence ob \<noteq> [] \<and> ob_command ob = ''cmd /c run.cmd'' \<and> ob_concern ob = Strong"
proof -
  have t: "entry_target planted_entry = Some planted_target" "se_host planted_entry = Some ''cmd.exe''"
    "se_command planted_entry = ''cmd /c run.cmd''"
    by (simp_all add: entry_target_def planted_entry_def)
  have "dropper_place bare_machine planted_target = Some ''AppData''"
    by code_simp
  then show ?thesis
    using judge_entry_exact [of bare_machine "\<lambda>path. Unsigned" "''now''" planted_entry]
    by (cases "judge_entry bare_machine (\<lambda>path. Unsigned) ''now'' planted_entry") (simp_all add: t)
qed

text \<open>A build of an ordinary project is reported too, with a sentence about it that is not so.\<close>

lemma build_of_a_named_project:
  assumes "mc_lower mc (ps_name p) \<in> set BUILD_TOOLS" and "rs_payload (ps_resolved mc p) = Some project"
    and "dropper_place mc project = None"
  shows "\<exists>ob. judge_process mc sig now p = Some ob
    \<and> ''It was started with no project on its command line, which is not how a build is run.'' \<in> set (ob_evidence ob)"
  using assms by (simp add: judge_process_def judge_build_tool_def place_of_def observe_process_def Let_def)

section \<open>Folders, not text\<close>

lemma join_with_append:
  "xs \<noteq> [] \<Longrightarrow> ys \<noteq> [] \<Longrightarrow> join_with sep (xs @ ys) = join_with sep xs @ sep @ join_with sep ys"
  by (induction sep xs rule: join_with.induct) (auto simp: neq_Nil_conv)

lemma split_on_prefix:
  "prefix (split_on (\<lambda>d. d = (c :: char)) r) (split_on (\<lambda>d. d = c) s) \<longleftrightarrow> s = r \<or> (\<exists>t. s = r @ c # t)"
proof
  assume "prefix (split_on (\<lambda>d. d = c) r) (split_on (\<lambda>d. d = c) s)"
  then obtain zs where z: "split_on (\<lambda>d. d = c) s = split_on (\<lambda>d. d = c) r @ zs" by (auto simp: prefix_def)
  have "s = join_with [c] (split_on (\<lambda>d. d = c) r @ zs)" using join_split_on [of c s] z by simp
  then show "s = r \<or> (\<exists>t. s = r @ c # t)"
    by (cases "zs = []") (simp_all add: join_with_append)
next
  assume "s = r \<or> (\<exists>t. s = r @ c # t)"
  then show "prefix (split_on (\<lambda>d. d = c) r) (split_on (\<lambda>d. d = c) s)"
    by (auto simp: split_on_snoc)
qed

text \<open>A place is decided folder by folder. A path is within a root exactly when the root is not empty and
  its folder names are, one for one, the first folder names of the path; a folder whose name only
  begins with the root's last name is not.\<close>

theorem within_by_folder:
  "within_place lower path rt \<longleftrightarrow>
     place_normalise lower rt \<noteq> []
     \<and> prefix (split_on (\<lambda>c. c = CHR 0x5C) (place_normalise lower rt)) (split_on (\<lambda>c. c = CHR 0x5C) (place_normalise lower path))"
  by (auto simp: within_place_def Let_def split_on_prefix strip_prefix_Some split: option.splits)
    (auto simp: strip_prefix_def prefix_def split: if_splits)

end
