(* ===== verification/Kam_Canary_Events.thy ===== *)
theory Kam_Canary_Events
  imports Kam_Env
begin

text \<open>
  Reading back what touched a decoy, \<open>crates/kam-canary/src/events.rs\<close>. An event is its rendered
  XML (\<open>None\<close> when it would not render), and the log is the list of answers Windows gives to one
  request for the next batch after the other. The environment, the path of the running program
  and lower-casing are part of the machine.
\<close>

section \<open>The machine\<close>

record event_machine =
  em_env :: environment
  em_me :: "str option"
  em_lower :: "str \<Rightarrow> str"

definition MAX_EVENTS :: nat where "MAX_EVENTS = 400"
definition MAX_EXAMINED :: nat where "MAX_EXAMINED = 20 * MAX_EVENTS"
definition MAX_TRIPS :: nat where "MAX_TRIPS = 50"

definition event_normalise :: "event_machine \<Rightarrow> str \<Rightarrow> str" where
  "event_normalise em path =
     (let l = slashes (em_lower em (trim path));
          plain_text = (case strip_prefix (slashes ''//?/'') l of Some rest \<Rightarrow> rest | None \<Rightarrow> l)
      in trim_end_matches is_backslash plain_text)"

definition event_folder :: "event_machine \<Rightarrow> str \<Rightarrow> str option" where
  "event_folder em variable =
     (case env_lookup (em_env em) variable of
        None \<Rightarrow> None
      | Some v \<Rightarrow> (let n = event_normalise em v in if n = [] then None else Some n))"

definition is_ourselves :: "event_machine \<Rightarrow> str \<Rightarrow> bool" where
  "is_ourselves em lowered =
     (case em_me em of
        None \<Rightarrow> False
      | Some me \<Rightarrow> (let m = event_normalise em me in m \<noteq> [] \<and> lowered = m))"

definition under_folder :: "str \<Rightarrow> str option \<Rightarrow> str option" where
  "under_folder tail rt = map_option (\<lambda>r. r @ slashes tail) rt"

definition onedrive_folders :: "event_machine \<Rightarrow> user_context \<Rightarrow> str option list" where
  "onedrive_folders em user =
     [if uc_profile user = [] then None
      else Some (event_normalise em (local_app_data user @ slashes ''/Microsoft/OneDrive'')),
      under_folder ''/microsoft onedrive'' (event_folder em ''ProgramFiles''),
      under_folder ''/microsoft onedrive'' (event_folder em ''ProgramFiles(x86)'')]"

text \<open>The match on the file name, once the path is split.\<close>

definition routine_at :: "event_machine \<Rightarrow> user_context \<Rightarrow> str \<Rightarrow> str \<Rightarrow> bool" where
  "routine_at em user folder leaf =
     (let parent = map_option fst (rsplit_once CHR 0x5C folder);
          is = (\<lambda>candidate. candidate = Some folder);
          parent_is = (\<lambda>candidate. candidate \<noteq> None \<and> candidate = parent);
          windows = event_folder em ''SystemRoot'';
          onedrive = onedrive_folders em user
      in if leaf \<in> {''searchprotocolhost.exe'', ''searchindexer.exe'', ''searchfilterhost.exe'',
                    ''svchost.exe'', ''backgroundtaskhost.exe''}
         then is (under_folder ''/system32'' windows)
         else if leaf = ''explorer.exe'' then is windows
         else if leaf \<in> {''msmpeng.exe'', ''mpcmdrun.exe'', ''nissrv.exe''}
         then is (under_folder ''/windows defender'' (event_folder em ''ProgramFiles''))
           \<or> parent_is (under_folder ''/microsoft/windows defender/platform'' (event_folder em ''ProgramData''))
         else if leaf = ''onedrive.exe'' then list_ex is onedrive
         else if leaf = ''filesynchelper.exe'' then list_ex parent_is onedrive
         else False)"

definition routine :: "event_machine \<Rightarrow> str option \<Rightarrow> user_context \<Rightarrow> bool" where
  "routine em reader user =
     (case reader of
        None \<Rightarrow> False
      | Some named \<Rightarrow>
        (let process = event_normalise em named in
         if is_ourselves em process then True
         else (case rsplit_once CHR 0x5C process of
                 None \<Rightarrow> False
               | Some (folder, leaf) \<Rightarrow> routine_at em user folder leaf)))"

section \<open>One event\<close>

record trip =
  tr_at :: str
  tr_path :: str
  tr_process :: "str option"
  tr_process_id :: "str option"
  tr_user :: "str option"

definition event_unescape :: "str \<Rightarrow> str" where
  "event_unescape s =
     replace_sub ''&amp;'' ''&'' (replace_sub ''&gt;'' ''>'' (replace_sub ''&lt;'' ''<''
       (replace_sub ''&apos;'' [CHR 0x27] (replace_sub ''&quot;'' [CHR 0x22] s))))"

text \<open>One quoting style, and whether the next is tried after it.\<close>

definition data_quoted :: "str \<Rightarrow> str \<Rightarrow> char \<Rightarrow> str option" where
  "data_quoted xml nm quote =
     (case split_sub (''<Data Name='' @ [quote] @ nm @ [quote] @ ''>'') xml of
        None \<Rightarrow> None
      | Some (before, rest) \<Rightarrow>
        (case split_sub ''</Data>'' rest of
           None \<Rightarrow> None
         | Some (inner, behind) \<Rightarrow>
             (let v = trim inner in if v \<noteq> [] \<and> v \<noteq> ''-'' then Some (event_unescape v) else None)))"

fun first_some :: "('a \<Rightarrow> 'b option) \<Rightarrow> 'a list \<Rightarrow> 'b option" where
  "first_some f [] = None"
| "first_some f (x # xs) = (case f x of Some y \<Rightarrow> Some y | None \<Rightarrow> first_some f xs)"

definition event_data :: "str \<Rightarrow> str \<Rightarrow> str option" where
  "event_data xml nm = first_some (data_quoted xml nm) [CHR 0x27, CHR 0x22]"

text \<open>Windows quotes the attribute with an ASCII character.\<close>

definition event_timestamp :: "str \<Rightarrow> str option" where
  "event_timestamp xml =
     (case split_sub ''SystemTime='' xml of
        None \<Rightarrow> None
      | Some (before, rest) \<Rightarrow>
        (case rest of
           [] \<Rightarrow> None
         | quote # behind \<Rightarrow> map_option fst (split_once quote behind)))"

definition counts_toward_window :: "event_machine \<Rightarrow> str option \<Rightarrow> bool" where
  "counts_toward_window em xml =
     (case Option.bind xml (\<lambda>x. event_data x ''ProcessName'') of
        None \<Rightarrow> True
      | Some process \<Rightarrow> \<not> is_ourselves em (event_normalise em process))"

definition trip_of :: "event_machine \<Rightarrow> user_context \<Rightarrow> str list \<Rightarrow> str \<Rightarrow> trip option" where
  "trip_of em user wanted xml =
     (case event_data xml ''ObjectName'' of
        None \<Rightarrow> None
      | Some object \<Rightarrow>
        (let l = em_lower em object in
         if list_ex (\<lambda>path. l = path \<or> ends_with l path) wanted
         then (let process = event_data xml ''ProcessName''
               in if routine em process user then None
                  else Some \<lparr>tr_at = unwrap_or [] (event_timestamp xml), tr_path = object, tr_process = process,
                             tr_process_id = event_data xml ''ProcessId'',
                             tr_user = event_data xml ''SubjectUserName''\<rparr>)
         else None))"

section \<open>The log\<close>

text \<open>What a request for the next batch is answered.\<close>

datatype batch_answer =
    NoMoreItems
  | TimedOut
  | BatchFailed str
  | EventBatch "str option list"

definition count_events :: "event_machine \<Rightarrow> str option list \<Rightarrow> nat" where
  "count_events em events = length (filter (counts_toward_window em) events)"

definition batch_trips :: "event_machine \<Rightarrow> user_context \<Rightarrow> str list \<Rightarrow> str option list \<Rightarrow> trip list" where
  "batch_trips em user wanted events = List.map_filter (\<lambda>e. Option.bind e (trip_of em user wanted)) events"

text \<open>The loop over the batches, with how many events have been counted and looked at so far.\<close>

fun read_batches ::
  "event_machine \<Rightarrow> user_context \<Rightarrow> str list \<Rightarrow> nat \<Rightarrow> nat \<Rightarrow> batch_answer list \<Rightarrow> trip list \<times> str option" where
  "read_batches em user wanted seen examined [] = ([], None)"
| "read_batches em user wanted seen examined (a # as) =
     (if MAX_EVENTS \<le> seen \<or> MAX_EXAMINED \<le> examined then ([], None)
      else (case a of
          NoMoreItems \<Rightarrow> ([], None)
        | TimedOut \<Rightarrow> ([], Some ''The Security log stopped answering partway through, so older reads of a decoy may not be shown.'')
        | BatchFailed why \<Rightarrow>
            ([], Some (''The Security log could not be read to the end ('' @ why @ ''), so older reads of a decoy may not be shown.''))
        | EventBatch events \<Rightarrow>
            (if events = [] then ([], None)
             else (let (found, gap) = read_batches em user wanted (seen + count_events em events)
                         (examined + length events) as
                   in (batch_trips em user wanted events @ found, gap)))))"

definition trip_second :: "trip \<Rightarrow> str" where
  "trip_second t = takeWhile (\<lambda>c. c \<noteq> CHR ''.'') (tr_at t)"

definition collapse_key :: "event_machine \<Rightarrow> trip \<Rightarrow> str" where
  "collapse_key em t =
     trip_second t @ [CHR 0x00] @ em_lower em (tr_path t) @ [CHR 0x00] @ em_lower em (unwrap_or [] (tr_process t))"

text \<open>One row for one read: the first of the events with the same second, file and program.\<close>

fun collapse_loop :: "event_machine \<Rightarrow> str set \<Rightarrow> trip list \<Rightarrow> trip list \<Rightarrow> trip list" where
  "collapse_loop em seen kept [] = kept"
| "collapse_loop em seen kept (t # ts) =
     (if collapse_key em t \<in> seen then collapse_loop em seen kept ts
      else (let kept' = kept @ [t]
            in if MAX_TRIPS \<le> length kept' then kept'
               else collapse_loop em (insert (collapse_key em t) seen) kept' ts))"

definition collapse :: "event_machine \<Rightarrow> trip list \<Rightarrow> trip list" where
  "collapse em ts = collapse_loop em {} [] ts"

text \<open>The query itself may fail; then nothing has been looked at.\<close>

definition read_trips ::
  "event_machine \<Rightarrow> (str + batch_answer list) \<Rightarrow> str list \<Rightarrow> user_context \<Rightarrow> trip list \<times> str option" where
  "read_trips em log paths user =
     (if paths = [] then ([], None)
      else (case log of
          Inl why \<Rightarrow>
            ([], Some (''The Security log could not be read ('' @ why @ ''), so whether anything has read a decoy cannot be shown.''))
        | Inr answers \<Rightarrow>
            (let (found, gap) = read_batches em user (map (em_lower em) paths) 0 0 answers
             in (collapse em found, gap))))"

section \<open>Collapsing\<close>

lemma collapse_loop_inv:
  "length kept < MAX_TRIPS \<Longrightarrow> distinct (map (collapse_key em) kept) \<Longrightarrow> seen = collapse_key em ` set kept \<Longrightarrow>
    (let r = collapse_loop em seen kept ts
     in distinct (map (collapse_key em) r) \<and> length r \<le> MAX_TRIPS \<and> set r \<subseteq> set kept \<union> set ts
       \<and> (length r < MAX_TRIPS \<longrightarrow> collapse_key em ` set ts \<subseteq> collapse_key em ` set r)
       \<and> set kept \<subseteq> set r)"
proof (induction em seen kept ts rule: collapse_loop.induct)
  case (2 em seen kept t ts)
  show ?case
  proof (cases "collapse_key em t \<in> seen")
    case True
    with 2 show ?thesis by (auto simp: Let_def image_iff subset_iff)
  next
    case False
    let ?k = "kept @ [t]"
    show ?thesis
    proof (cases "MAX_TRIPS \<le> length ?k")
      case True
      with False 2(3-5) show ?thesis by (auto simp: Let_def)
    next
      case small: False
      have "let r = collapse_loop em (insert (collapse_key em t) seen) ?k ts
        in distinct (map (collapse_key em) r) \<and> length r \<le> MAX_TRIPS \<and> set r \<subseteq> set ?k \<union> set ts
          \<and> (length r < MAX_TRIPS \<longrightarrow> collapse_key em ` set ts \<subseteq> collapse_key em ` set r) \<and> set ?k \<subseteq> set r"
        using False small 2(3-5) by (intro 2(2)) (auto simp: not_le)
      with False small show ?thesis by (auto simp: Let_def image_iff)
    qed
  qed
qed (auto simp: Let_def)

lemma collapse_props:
  "distinct (map (collapse_key em) (collapse em ts))" "length (collapse em ts) \<le> MAX_TRIPS"
  "set (collapse em ts) \<subseteq> set ts"
  "length (collapse em ts) < MAX_TRIPS \<Longrightarrow> t \<in> set ts \<Longrightarrow> \<exists>r \<in> set (collapse em ts). collapse_key em r = collapse_key em t"
  using collapse_loop_inv [of "[]" em "{}" ts] by (auto simp: collapse_def Let_def MAX_TRIPS_def image_subset_iff image_iff) metis

section \<open>What is shown\<close>

text \<open>The events handed over before the log ended or stopped answering.\<close>

fun log_events :: "batch_answer list \<Rightarrow> str option list" where
  "log_events [] = []"
| "log_events (a # as) =
     (case a of EventBatch events \<Rightarrow> (if events = [] then [] else events @ log_events as) | _ \<Rightarrow> [])"

lemma count_events_append [simp]: "count_events em (xs @ ys) = count_events em xs + count_events em ys"
  by (simp add: count_events_def)

lemma batch_trips_iff: "t \<in> set (batch_trips em user wanted events) \<longleftrightarrow> (\<exists>xml. Some xml \<in> set events \<and> trip_of em user wanted xml = Some t)"
  by (force simp: batch_trips_def List.map_filter_def bind_eq_Some_conv image_iff)

lemma read_batches_sound:
  "t \<in> set (fst (read_batches em user wanted seen examined as)) \<Longrightarrow>
     \<exists>xml. Some xml \<in> set (log_events as) \<and> trip_of em user wanted xml = Some t"
proof (induction em user wanted seen examined as rule: read_batches.induct)
  case (2 em user wanted seen examined a as)
  then show ?case
    by (auto simp: batch_trips_iff split: if_splits batch_answer.splits prod.splits)
qed simp

lemma read_batches_complete:
  "seen + count_events em (log_events as) < MAX_EVENTS \<Longrightarrow> examined + length (log_events as) < MAX_EXAMINED \<Longrightarrow>
     Some xml \<in> set (log_events as) \<Longrightarrow> trip_of em user wanted xml = Some t \<Longrightarrow>
     t \<in> set (fst (read_batches em user wanted seen examined as))"
proof (induction em user wanted seen examined as rule: read_batches.induct)
  case (2 em user wanted seen examined a as)
  show ?case
  proof (cases a)
    case (EventBatch events)
    have sum: "seen < MAX_EVENTS" "examined < MAX_EXAMINED" "events \<noteq> []"
      using 2(2-4) by (auto simp: EventBatch split: if_splits)
    show ?thesis
    proof (cases "Some xml \<in> set events")
      case True
      with 2(5) sum show ?thesis by (auto simp: EventBatch batch_trips_iff split: prod.splits)
    next
      case False
      with 2(2-5) sum have "t \<in> set (fst (read_batches em user wanted (seen + count_events em events)
          (examined + length events) as))"
        by (intro 2(1)) (auto simp: EventBatch)
      with sum show ?thesis by (auto simp: EventBatch split: prod.splits)
    qed
  qed (use 2 in auto)
qed simp

text \<open>A program that reads a decoy is shown. While the events that are not this program's own stay
  within the window, every event that names a decoy and a reader that is not routine, wherever it
  is in what the log handed over, has a row with its second, its file and its program, unless the
  list is already full; reads of the decoys by this program itself do not count against the window.\<close>

theorem every_read_is_shown:
  assumes "read_trips em (Inr answers) paths user = (ts, gap)"
    and "count_events em (log_events answers) < MAX_EVENTS" and "length (log_events answers) < MAX_EXAMINED"
    and "paths \<noteq> []" and "Some xml \<in> set (log_events answers)"
    and "trip_of em user (map (em_lower em) paths) xml = Some t"
  shows "(\<exists>r \<in> set ts. collapse_key em r = collapse_key em t) \<or> length ts = MAX_TRIPS"
proof -
  let ?found = "fst (read_batches em user (map (em_lower em) paths) 0 0 answers)"
  have ts: "ts = collapse em ?found" using assms(1,4) by (auto simp: read_trips_def split: prod.splits)
  have "t \<in> set ?found" using read_batches_complete [of 0 em answers 0] assms(2-6) by simp
  then show ?thesis using collapse_props(2,4) [of em ?found] unfolding ts by (meson le_neq_implies_less)
qed

lemma trip_of_Some:
  assumes "trip_of em user wanted xml = Some t"
  shows "\<not> routine em (tr_process t) user"
    and "list_ex (\<lambda>path. em_lower em (tr_path t) = path \<or> ends_with (em_lower em (tr_path t)) path) wanted"
  using assms by (auto simp: trip_of_def Let_def split: option.splits if_splits)

text \<open>Nothing else is shown. Every row comes from an event the log handed over that names one of the
  decoys and whose reader is not routine, no two rows stand for the same second, file and program,
  and there are at most fifty.\<close>

theorem only_reads_are_shown:
  "(let ts = fst (read_trips em log paths user)
    in length ts \<le> MAX_TRIPS \<and> distinct (map (collapse_key em) ts)
      \<and> list_all (\<lambda>t. \<not> routine em (tr_process t) user
          \<and> list_ex (\<lambda>path. em_lower em (tr_path t) = em_lower em path
              \<or> ends_with (em_lower em (tr_path t)) (em_lower em path)) paths) ts)"
proof (cases log)
  case (Inr answers)
  let ?found = "fst (read_batches em user (map (em_lower em) paths) 0 0 answers)"
  have "\<not> routine em (tr_process t) user \<and> list_ex (\<lambda>path. em_lower em (tr_path t) = em_lower em path
              \<or> ends_with (em_lower em (tr_path t)) (em_lower em path)) paths" if "t \<in> set ?found" for t
    using read_batches_sound [OF that] trip_of_Some by (fastforce simp: list_ex_iff)
  then show ?thesis
    using collapse_props(1,2,3) [of em ?found] Inr
    by (auto simp: read_trips_def Let_def list_all_iff split: prod.splits)
qed (simp add: read_trips_def Let_def)

text \<open>The folders in which a reader is routine, and those that hold its versioned folder.\<close>

definition trusted_folders :: "event_machine \<Rightarrow> user_context \<Rightarrow> str option list" where
  "trusted_folders em user =
     under_folder ''/system32'' (event_folder em ''SystemRoot'') # event_folder em ''SystemRoot''
       # under_folder ''/windows defender'' (event_folder em ''ProgramFiles'') # onedrive_folders em user"

definition trusted_parents :: "event_machine \<Rightarrow> user_context \<Rightarrow> str option list" where
  "trusted_parents em user =
     under_folder ''/microsoft/windows defender/platform'' (event_folder em ''ProgramData'') # onedrive_folders em user"

lemma if_chain:
  "(if a then p1 else if b then p2 else if c then p3 \<or> q3 else if d then p4 else if e then q5 else False) \<Longrightarrow>
     (p1 \<or> p2 \<or> p3 \<or> p4) \<or> (q3 \<or> q5)"
  by (auto split: if_splits)

lemma routine_at_trusted:
  assumes "routine_at em user folder leaf"
  shows "Some folder \<in> set (trusted_folders em user)
    \<or> (\<exists>parent version. rsplit_once CHR 0x5C folder = Some (parent, version) \<and> Some parent \<in> set (trusted_parents em user))"
proof -
  let ?parent = "map_option fst (rsplit_once CHR 0x5C folder)"
  have "(under_folder ''/system32'' (event_folder em ''SystemRoot'') = Some folder
       \<or> event_folder em ''SystemRoot'' = Some folder
       \<or> under_folder ''/windows defender'' (event_folder em ''ProgramFiles'') = Some folder
       \<or> list_ex (\<lambda>c. c = Some folder) (onedrive_folders em user))
    \<or> ((under_folder ''/microsoft/windows defender/platform'' (event_folder em ''ProgramData'') \<noteq> None
         \<and> under_folder ''/microsoft/windows defender/platform'' (event_folder em ''ProgramData'') = ?parent)
       \<or> list_ex (\<lambda>c. c \<noteq> None \<and> c = ?parent) (onedrive_folders em user))"
    by (rule if_chain [OF assms [unfolded routine_at_def Let_def]])
  then show ?thesis
  proof
    assume "under_folder ''/system32'' (event_folder em ''SystemRoot'') = Some folder
       \<or> event_folder em ''SystemRoot'' = Some folder
       \<or> under_folder ''/windows defender'' (event_folder em ''ProgramFiles'') = Some folder
       \<or> list_ex (\<lambda>c. c = Some folder) (onedrive_folders em user)"
    then have "Some folder \<in> set (trusted_folders em user)"
      by (elim disjE) (simp_all add: trusted_folders_def list_ex_iff)
    then show ?thesis ..
  next
    assume "(under_folder ''/microsoft/windows defender/platform'' (event_folder em ''ProgramData'') \<noteq> None
         \<and> under_folder ''/microsoft/windows defender/platform'' (event_folder em ''ProgramData'') = ?parent)
       \<or> list_ex (\<lambda>c. c \<noteq> None \<and> c = ?parent) (onedrive_folders em user)"
    then have "?parent \<noteq> None \<and> ?parent \<in> set (trusted_parents em user)"
      unfolding trusted_parents_def list_ex_iff by (metis list.set_intros)
    then show ?thesis by (cases "rsplit_once CHR 0x5C folder") auto
  qed
qed

text \<open>A name is not an alibi. A reader is passed over as routine only when it is this very program, or
  when the folder it runs from is one of the folders of Windows, Defender or OneDrive, or lies
  directly in Defender's platform folder or OneDrive's; a program that takes one of their names
  and runs from anywhere else is shown.\<close>

theorem routine_only_in_its_place:
  assumes "routine em (Some process) user"
  shows "is_ourselves em (event_normalise em process)
    \<or> (\<exists>folder leaf. event_normalise em process = folder @ CHR 0x5C # leaf \<and> CHR 0x5C \<notin> set leaf
        \<and> (Some folder \<in> set (trusted_folders em user)
          \<or> (\<exists>parent version. folder = parent @ CHR 0x5C # version \<and> CHR 0x5C \<notin> set version
               \<and> Some parent \<in> set (trusted_parents em user))))"
proof (cases "is_ourselves em (event_normalise em process)")
  case False
  with assms obtain folder leaf where split: "rsplit_once CHR 0x5C (event_normalise em process) = Some (folder, leaf)"
      "routine_at em user folder leaf"
    by (auto simp: routine_def Let_def split: option.splits)
  note folder = rsplit_once_Some [OF split(1)]
  from routine_at_trusted [OF split(2)] show ?thesis
  proof
    assume "Some folder \<in> set (trusted_folders em user)"
    with folder show ?thesis by blast
  next
    assume "\<exists>parent version. rsplit_once CHR 0x5C folder = Some (parent, version) \<and> Some parent \<in> set (trusted_parents em user)"
    then obtain parent version where p: "rsplit_once CHR 0x5C folder = Some (parent, version)"
      "Some parent \<in> set (trusted_parents em user)" by blast
    note folder rsplit_once_Some [OF p(1)] p(2)
    then show ?thesis by blast
  qed
qed simp

section \<open>A log with one thief\<close>

definition sample_event_machine :: event_machine where
  "sample_event_machine =
     \<lparr>em_env = [(''SystemRoot'', slashes ''C:/Windows'')], em_me = Some ''K:a'', em_lower = (\<lambda>s. s)\<rparr>"

definition xml_of :: "str \<Rightarrow> str \<Rightarrow> str" where
  "xml_of object reader =
     ''<Data Name='' @ [CHR 0x22] @ ''ObjectName'' @ [CHR 0x22] @ ''>'' @ object @ ''</Data><Data Name='' @ [CHR 0x22]
       @ ''ProcessName'' @ [CHR 0x22] @ ''>'' @ reader @ ''</Data>''"

definition sample_log :: "batch_answer list" where
  "sample_log = [EventBatch [Some (xml_of ''D:w'' ''K:a''), Some (xml_of ''D:w'' ''T:x'')], NoMoreItems]"

definition sample_trip :: trip where
  "sample_trip =
     \<lparr>tr_at = [], tr_path = ''D:w'', tr_process = Some ''T:x'', tr_process_id = None, tr_user = None\<rparr>"

theorem every_read_is_shown_witness:
  "(\<exists>r \<in> set (fst (read_trips sample_event_machine (Inr sample_log) [''D:w''] user_ari)).
      collapse_key sample_event_machine r = collapse_key sample_event_machine sample_trip)
   \<or> length (fst (read_trips sample_event_machine (Inr sample_log) [''D:w''] user_ari)) = MAX_TRIPS"
proof (rule every_read_is_shown [OF prod.collapse [symmetric]])
  show "count_events sample_event_machine (log_events sample_log) < MAX_EVENTS" by code_simp
  show "length (log_events sample_log) < MAX_EXAMINED" by code_simp
  show "Some (xml_of ''D:w'' ''T:x'') \<in> set (log_events sample_log)" by (simp add: sample_log_def)
  show "trip_of sample_event_machine user_ari (map (em_lower sample_event_machine) [''D:w'']) (xml_of ''D:w'' ''T:x'')
      = Some sample_trip"
    by code_simp
qed simp

definition svchost_path :: str where "svchost_path = slashes ''C:/Windows/system32/svchost.exe''"

theorem routine_only_in_its_place_witness:
  "is_ourselves sample_event_machine (event_normalise sample_event_machine svchost_path)
    \<or> (\<exists>folder leaf. event_normalise sample_event_machine svchost_path = folder @ CHR 0x5C # leaf \<and> CHR 0x5C \<notin> set leaf
        \<and> (Some folder \<in> set (trusted_folders sample_event_machine user_ari)
          \<or> (\<exists>parent version. folder = parent @ CHR 0x5C # version \<and> CHR 0x5C \<notin> set version
               \<and> Some parent \<in> set (trusted_parents sample_event_machine user_ari))))"
  by (rule routine_only_in_its_place) code_simp

end
