(* ===== verification/Kam_Watch.thy ===== *)
theory Kam_Watch
  imports Kam_Behaviour Kam_Canary
begin

text \<open>
  The watcher, \<open>crates/kam-agent/src/watch.rs\<close>: its log, one look at what starts itself and at the
  decoys, the loop that honours the switch, and the wait between two looks. What the survey, the
  decoys, the clock and the switch answer at each turn of the loop is the input of that turn; the
  loop itself is a step relation. One turn reads the clock as one value. No holder of the log's lock panics, so the lock is always had.
\<close>

section \<open>The log\<close>

definition INTERVAL_SECS :: nat where "INTERVAL_SECS = 120"
definition KEEP :: nat where "KEEP = 200"
definition CHECK_EVERY :: nat where "CHECK_EVERY = 5"

record watch_log =
  wl_observations :: "observation list"
  wl_watching :: bool
  wl_since :: "str option"

definition log_begin :: "str \<Rightarrow> watch_log \<Rightarrow> watch_log" where
  "log_begin now l = l\<lparr>wl_watching := True, wl_since := Some now\<rparr>"

definition log_stop :: "watch_log \<Rightarrow> watch_log" where
  "log_stop l = l\<lparr>wl_watching := False\<rparr>"

text \<open>\<open>pop_back\<close> while there are more than are kept.\<close>

function drop_oldest :: "observation list \<Rightarrow> observation list" where
  "drop_oldest obs = (if KEEP < length obs then drop_oldest (butlast obs) else obs)"
  by pat_completeness auto
termination
  by (relation "measure length") auto

declare drop_oldest.simps [simp del]

definition log_push :: "observation \<Rightarrow> watch_log \<Rightarrow> watch_log" where
  "log_push ob l = l\<lparr>wl_observations := drop_oldest (ob # wl_observations l)\<rparr>"

definition log_snapshot :: "watch_log \<Rightarrow> observation list \<times> bool \<times> str option" where
  "log_snapshot l = (wl_observations l, wl_watching l, wl_since l)"

section \<open>One look\<close>

definition watch_key :: "start_entry \<Rightarrow> str" where
  "watch_key e = se_location e @ [CHR 0x00] @ se_name e @ [CHR 0x00] @ se_command e"

fun watch_sweep ::
  "(start_entry \<Rightarrow> observation option) \<Rightarrow> bool \<Rightarrow> start_entry list \<Rightarrow> str set \<Rightarrow> observation list \<times> str set" where
  "watch_sweep judge first_pass [] baseline = ([], baseline)"
| "watch_sweep judge first_pass (e # es) baseline =
     (let already = (watch_key e \<in> baseline);
          (found, baseline') = watch_sweep judge first_pass es (insert (watch_key e) baseline)
      in if already \<or> first_pass then (found, baseline')
         else (case judge e of None \<Rightarrow> (found, baseline') | Some ob \<Rightarrow> (ob # found, baseline')))"

text \<open>\<open>debug\<close> is how the process is written with \<open>{:?}\<close>.\<close>

definition trip_key :: "(str option \<Rightarrow> str) \<Rightarrow> trip \<Rightarrow> str" where
  "trip_key debug tr = tr_at tr @ [CHR 0x00] @ tr_path tr @ [CHR 0x00] @ debug (tr_process tr)"

definition trip_observation :: "str \<Rightarrow> trip \<Rightarrow> observation" where
  "trip_observation now tr =
     \<lparr>ob_at = (if tr_at tr = [] then now else tr_at tr), ob_kind = ProcessStarted, ob_concern = Strong,
      ob_summary = (case tr_process tr of
         Some process \<Rightarrow> shown_name process @ '' read a decoy file''
       | None \<Rightarrow> ''Something read a decoy file''),
      ob_evidence = ''This file is a decoy. It was put there by KAM Security, nothing on this machine uses it, and no ordinary program has any reason to open it.''
        # (case tr_process tr of None \<Rightarrow> [] | Some process \<Rightarrow> [''It was read by '' @ process @ ''.''])
        @ (case tr_user tr of None \<Rightarrow> [] | Some user \<Rightarrow> [''The program was running as '' @ user @ ''.'']),
      ob_subject = tr_path tr, ob_command = unwrap_or [] (tr_process tr), ob_pid = None\<rparr>"

fun watch_trips :: "(str option \<Rightarrow> str) \<Rightarrow> str \<Rightarrow> bool \<Rightarrow> trip list \<Rightarrow> str set \<Rightarrow> observation list \<times> str set" where
  "watch_trips debug now first_pass [] seen = ([], seen)"
| "watch_trips debug now first_pass (tr # trs) seen =
     (let already = (trip_key debug tr \<in> seen);
          (found, seen') = watch_trips debug now first_pass trs (insert (trip_key debug tr) seen)
      in if already \<or> first_pass then (found, seen') else (trip_observation now tr # found, seen'))"

fun canary_trips ::
  "(str option \<Rightarrow> str) \<Rightarrow> str \<Rightarrow> bool \<Rightarrow> canary_report list \<Rightarrow> str set \<Rightarrow> observation list \<times> str set" where
  "canary_trips debug now first_pass [] seen = ([], seen)"
| "canary_trips debug now first_pass (r # rs) seen =
     (let seen1 = (case cr_unread r of None \<Rightarrow> seen | Some reason \<Rightarrow> insert (''unread'' @ [CHR 0x00] @ reason) seen);
          (found, seen2) = watch_trips debug now first_pass (cr_trips r) seen1;
          (rest, seen3) = canary_trips debug now first_pass rs seen2
      in (found @ rest, seen3))"

section \<open>The loop\<close>

record watcher =
  wt_baseline :: "str set"
  wt_seen :: "str set"
  wt_first :: bool
  wt_log :: watch_log
  wt_store :: "db option"

text \<open>What one turn of the loop is answered.\<close>

record turn =
  tn_setting :: "kam_error + str option"
  tn_entries :: "start_entry list"
  tn_judge :: "start_entry \<Rightarrow> observation option"
  tn_reports :: "canary_report list"
  tn_debug :: "str option \<Rightarrow> str"
  tn_now :: str

definition watcher_start :: "db option \<Rightarrow> watcher" where
  "watcher_start store =
     \<lparr>wt_baseline = {}, wt_seen = {}, wt_first = True,
      wt_log = \<lparr>wl_observations = [], wl_watching = False, wl_since = None\<rparr>, wt_store = store\<rparr>"

definition watch_audit :: "observation \<Rightarrow> audit_entry" where
  "watch_audit ob =
     \<lparr>e_module = ''behaviour'', e_action = kind_action (ob_kind ob),
      e_effect = (if ob_concern ob = Strong then EffectRefused else Observed),
      e_detail = ob_summary ob @ '' '' @ em_dash @ '' '' @ ob_subject ob, e_undo_token = None\<rparr>"

definition watch_record :: "str \<Rightarrow> observation \<Rightarrow> watcher \<Rightarrow> watcher" where
  "watch_record now ob w =
     w\<lparr>wt_store := map_option (\<lambda>d. record_audit d now (watch_audit ob)) (wt_store w),
       wt_log := log_push ob (wt_log w)\<rparr>"

definition protecting :: "turn \<Rightarrow> watcher \<Rightarrow> bool" where
  "protecting tn w = (case wt_store w of None \<Rightarrow> True | Some d \<Rightarrow> protection_enabled (tn_setting tn))"

definition stand_down :: "watcher \<Rightarrow> watcher" where
  "stand_down w =
     (if wl_watching (wt_log w) \<or> wt_baseline w \<noteq> {}
      then w\<lparr>wt_baseline := {}, wt_seen := {}, wt_first := True, wt_log := log_stop (wt_log w)\<rparr>
      else w)"

definition look_now :: "turn \<Rightarrow> watcher \<Rightarrow> observation list \<times> str set \<times> str set" where
  "look_now tn w =
     (let (started, baseline) = watch_sweep (tn_judge tn) (wt_first w) (tn_entries tn) (wt_baseline w);
          (tripped, seen) = canary_trips (tn_debug tn) (tn_now tn) (wt_first w) (tn_reports tn) (wt_seen w)
      in (started @ tripped, baseline, seen))"

definition watch_look :: "turn \<Rightarrow> watcher \<Rightarrow> watcher" where
  "watch_look tn w =
     (let w1 = (if wl_watching (wt_log w) then w else w\<lparr>wt_log := log_begin (tn_now tn) (wt_log w)\<rparr>);
          (obs, baseline, seen) = look_now tn w1
      in foldl (\<lambda>w ob. watch_record (tn_now tn) ob w) (w1\<lparr>wt_baseline := baseline, wt_seen := seen, wt_first := False\<rparr>) obs)"

text \<open>One turn, up to the wait.\<close>

definition watch_turn :: "turn \<Rightarrow> watcher \<Rightarrow> watcher" where
  "watch_turn tn w = (if protecting tn w then watch_look tn w else stand_down w)"

text \<open>The wait: told to stop or not, and the second at which it returned.\<close>

function wait_from :: "(nat \<Rightarrow> bool) \<Rightarrow> (nat \<Rightarrow> bool) option \<Rightarrow> bool \<Rightarrow> nat \<Rightarrow> bool \<times> nat" where
  "wait_from signalled switch protecting_now elapsed =
     (if INTERVAL_SECS \<le> elapsed then (False, elapsed)
      else if signalled elapsed then (True, elapsed)
      else if elapsed mod CHECK_EVERY = 0 \<and> (case switch of None \<Rightarrow> False | Some enabled_at \<Rightarrow> enabled_at elapsed \<noteq> protecting_now)
      then (False, elapsed)
      else wait_from signalled switch protecting_now (elapsed + 1))"
  by pat_completeness auto
termination
  by (relation "measure (\<lambda>(s, w, p, e). INTERVAL_SECS - e)") auto

declare wait_from.simps [simp del]

definition wait :: "(nat \<Rightarrow> bool) \<Rightarrow> (nat \<Rightarrow> bool) option \<Rightarrow> bool \<Rightarrow> bool \<times> nat" where
  "wait signalled switch protecting_now = wait_from signalled switch protecting_now 0"

text \<open>The thread: running turns, and stopped once a wait says so; only a watching thread stops its log then.\<close>

datatype watch_thread = Running watcher | Stopped watcher

inductive watch_step :: "watch_thread \<Rightarrow> watch_thread \<Rightarrow> bool" where
  step_again: "w' = watch_turn tn w \<Longrightarrow> (switch = None) = (wt_store w = None)
    \<Longrightarrow> \<not> fst (wait signalled switch (protecting tn w))
    \<Longrightarrow> watch_step (Running w) (Running w')"
| step_stop: "w' = watch_turn tn w \<Longrightarrow> (switch = None) = (wt_store w = None)
    \<Longrightarrow> fst (wait signalled switch (protecting tn w))
    \<Longrightarrow> watch_step (Running w) (Stopped (if protecting tn w then w'\<lparr>wt_log := log_stop (wt_log w')\<rparr> else w'))"

inductive_cases watch_step_cases: "watch_step (Running w) t"
inductive_cases watch_step_stopped: "watch_step (Stopped w) t"

end
