(* ===== verification/Kam_Watch_Sound.thy ===== *)
theory Kam_Watch_Sound
  imports Kam_Watch
begin

text \<open>
  What the watcher guarantees: its log is bounded and says it is watching only while it is, each
  new entry is judged once, every observation reaches the log and the audit trail, and a wait
  ends promptly.
\<close>

section \<open>The log and its state\<close>

lemma drop_oldest_take: "drop_oldest obs = take KEEP obs"
proof (induction obs rule: drop_oldest.induct)
  case (1 obs)
  show ?case
  proof (cases "KEEP < length obs")
    case True
    with 1 show ?thesis by (subst drop_oldest.simps) (simp add: butlast_conv_take min_absorb2)
  qed (subst drop_oldest.simps, simp)
qed

lemma look_fold_log:
  "wl_observations (wt_log (foldl (\<lambda>w ob. watch_record now ob w) w obs)) = take KEEP (rev obs @ wl_observations (wt_log w))"
  if "length (wl_observations (wt_log w)) \<le> KEEP"
  using that
proof (induction obs arbitrary: w)
  case (Cons ob obs)
  have "length (wl_observations (wt_log (watch_record now ob w))) \<le> KEEP"
    by (simp add: watch_record_def log_push_def drop_oldest_take)
  from Cons(1) [OF this] show ?case
    by (simp add: watch_record_def log_push_def drop_oldest_take take_Cons' KEEP_def)
qed simp

lemma look_fold_rest [simp]:
  "wl_watching (wt_log (foldl (\<lambda>w ob. watch_record now ob w) w obs)) = wl_watching (wt_log w)"
  "wt_first (foldl (\<lambda>w ob. watch_record now ob w) w obs) = wt_first w"
  "wt_baseline (foldl (\<lambda>w ob. watch_record now ob w) w obs) = wt_baseline w"
  "wt_seen (foldl (\<lambda>w ob. watch_record now ob w) w obs) = wt_seen w"
  by (induction obs arbitrary: w) (simp_all add: watch_record_def log_push_def)

lemma look_fold_store:
  "wt_store (foldl (\<lambda>w ob. watch_record now ob w) w obs) =
     map_option (\<lambda>d. foldl (\<lambda>d ob. record_audit d now (watch_audit ob)) d obs) (wt_store w)"
  by (induction obs arbitrary: w) (simp_all add: watch_record_def option.map_comp comp_def option.map_ident)

definition watcher_ok :: "watcher \<Rightarrow> bool" where
  "watcher_ok w \<longleftrightarrow>
     length (wl_observations (wt_log w)) \<le> KEEP
     \<and> (wl_watching (wt_log w) \<longleftrightarrow> \<not> wt_first w)
     \<and> (wt_first w \<longrightarrow> wt_baseline w = {} \<and> wt_seen w = {})"

lemma watcher_ok_start: "watcher_ok (watcher_start store)"
  by (simp add: watcher_ok_def watcher_start_def)

lemma watcher_ok_look:
  assumes "watcher_ok w"
  shows "watcher_ok (watch_look tn w)" and "wl_watching (wt_log (watch_look tn w))"
proof -
  let ?w = "if wl_watching (wt_log w) then w else w\<lparr>wt_log := log_begin (tn_now tn) (wt_log w)\<rparr>"
  obtain obs b s where l: "look_now tn ?w = (obs, b, s)" by (metis prod_cases3)
  have "length (wl_observations (wt_log ?w)) \<le> KEEP" "wl_watching (wt_log ?w)"
    using assms by (auto simp: watcher_ok_def log_begin_def)
  with l look_fold_log [of "?w\<lparr>wt_baseline := b, wt_seen := s, wt_first := False\<rparr>" "tn_now tn" obs]
  show "watcher_ok (watch_look tn w)" "wl_watching (wt_log (watch_look tn w))"
    by (simp_all add: watch_look_def Let_def watcher_ok_def)
qed

lemma watcher_ok_down:
  "watcher_ok w \<Longrightarrow> watcher_ok (stand_down w) \<and> \<not> wl_watching (wt_log (stand_down w))"
  by (auto simp: watcher_ok_def stand_down_def log_stop_def)

fun thread_ok :: "watch_thread \<Rightarrow> bool" where
  "thread_ok (Running w) \<longleftrightarrow> watcher_ok w"
| "thread_ok (Stopped w) \<longleftrightarrow> length (wl_observations (wt_log w)) \<le> KEEP \<and> \<not> wl_watching (wt_log w)"

lemma thread_ok_step: "watch_step t t' \<Longrightarrow> thread_ok t \<Longrightarrow> thread_ok t'"
proof (induction rule: watch_step.induct)
  case (step_again w' tn w switch signalled)
  then show ?case using watcher_ok_look(1) [of w tn] watcher_ok_down [of w] by (simp add: watch_turn_def)
next
  case (step_stop w' tn w switch signalled)
  then show ?case using watcher_ok_look(1) [of w tn] watcher_ok_down [of w]
    by (auto simp: watch_turn_def log_stop_def watcher_ok_def)
qed

text \<open>C5: the log is bounded and never claims a watch that is not there. However the turns of the loop are
  answered, after any number of steps the log holds at most two hundred observations, a running
  thread says it is watching exactly when it has looked since protection was last off, a thread
  that has not looked remembers nothing from before, and a stopped thread does not say it is
  watching.\<close>

theorem watch_invariant:
  assumes "watch_step\<^sup>*\<^sup>* (Running (watcher_start store)) t"
  shows "thread_ok t"
  using assms by (induction rule: rtranclp_induct) (auto simp: watcher_ok_start intro: thread_ok_step)

section \<open>What is reported\<close>

lemma watch_sweep_append:
  "watch_sweep judge first (es @ es') B =
     (let (obs, B1) = watch_sweep judge first es B; (obs', B2) = watch_sweep judge first es' B1 in (obs @ obs', B2))"
  by (induction es arbitrary: B) (auto simp: Let_def split: prod.splits option.splits)

lemma watch_sweep_first: "watch_sweep judge True es B = ([], B \<union> watch_key ` set es)"
  by (induction es arbitrary: B) auto

text \<open>The reports of one watch: a first pass, then look after look.\<close>

fun watch_reports :: "(start_entry \<Rightarrow> observation option) \<Rightarrow> str set \<Rightarrow> start_entry list list \<Rightarrow> observation list" where
  "watch_reports judge B [] = []"
| "watch_reports judge B (es # surveys) =
     (let (obs, B') = watch_sweep judge False es B in obs @ watch_reports judge B' surveys)"

lemma watch_reports_concat: "watch_reports judge B surveys = fst (watch_sweep judge False (concat surveys) B)"
  by (induction surveys arbitrary: B) (auto simp: watch_sweep_append Let_def split: prod.splits)

lemma watch_sweep_picks:
  "\<exists>picks. fst (watch_sweep judge False es B) = List.map_filter judge picks \<and> distinct (map watch_key picks)
     \<and> set picks \<subseteq> set es \<and> watch_key ` set picks = watch_key ` set es - B"
proof (induction es arbitrary: B)
  case Nil
  then show ?case by (intro exI [of _ "[]"]) (simp add: map_filter_simps)
next
  case (Cons e es)
  from Cons [of "insert (watch_key e) B"] obtain picks where p:
    "fst (watch_sweep judge False es (insert (watch_key e) B)) = List.map_filter judge picks" "distinct (map watch_key picks)"
    "set picks \<subseteq> set es" "watch_key ` set picks = watch_key ` set es - insert (watch_key e) B" by blast
  show ?case
  proof (cases "watch_key e \<in> B")
    case True
    then have "insert (watch_key e) B = B" by blast
    with p True show ?thesis by (intro exI [of _ picks]) (auto simp: Let_def split: prod.splits)
  next
    case False
    then show ?thesis using p
      by (intro exI [of _ "e # picks"]) (auto simp: Let_def map_filter_simps split: prod.splits option.splits)
  qed
qed

text \<open>Each thing that newly starts itself is judged once, and nothing that was there at the first look is.
  Over a first pass and any number of looks after it, the observations are the verdicts on a
  list of entries with distinct keys, one for each key seen later that the first pass did not
  see; the first pass itself reports nothing.\<close>

theorem watch_judges_each_new_entry_once:
  "fst (watch_sweep judge True s0 {}) = [] \<and>
   (\<exists>picks. watch_reports judge (snd (watch_sweep judge True s0 {})) surveys = List.map_filter judge picks
      \<and> distinct (map watch_key picks) \<and> set picks \<subseteq> set (concat surveys)
      \<and> watch_key ` set picks = watch_key ` set (concat surveys) - watch_key ` set s0)"
  using watch_sweep_picks [of judge "concat surveys" "watch_key ` set s0"]
  by (simp add: watch_sweep_first watch_reports_concat)

text \<open>Entries of an account that signs in after the first pass were there before and are judged as new.\<close>

lemma late_sign_in_is_new:
  assumes "judge e = Some ob" and "watch_key e \<notin> watch_key ` set s0"
  shows "watch_reports judge (snd (watch_sweep judge True s0 {})) [s0 @ [e]] = [ob]"
proof -
  have "fst (watch_sweep judge False s0 (watch_key ` set s0 \<union> C)) = []
      \<and> snd (watch_sweep judge False s0 (watch_key ` set s0 \<union> C)) = watch_key ` set s0 \<union> C" for C
  proof (induction s0 arbitrary: C)
    case (Cons x xs)
    from Cons [of "insert (watch_key x) C"] show ?case by (auto simp: Let_def insert_absorb split: prod.splits)
  qed simp
  from this [of "{}"] assms show ?thesis
    by (auto simp: watch_sweep_first watch_sweep_append Let_def split: prod.splits)
qed

text \<open>An observation is written down at once, in both places. A look adds to the audit log, in order, one
  row for each observation it makes, marked as refused when the concern is strong and as observed
  otherwise, and puts the same observations, newest first, at the head of the log.\<close>

theorem look_writes_every_observation:
  assumes "watcher_ok w" and "wt_store w = Some d"
    and "look_now tn (if wl_watching (wt_log w) then w else w\<lparr>wt_log := log_begin (tn_now tn) (wt_log w)\<rparr>) = (obs, b, s)"
  shows "wl_observations (wt_log (watch_look tn w)) = take KEEP (rev obs @ wl_observations (wt_log w))
    \<and> wt_store (watch_look tn w) = Some (foldl (\<lambda>d ob. record_audit d (tn_now tn) (watch_audit ob)) d obs)"
proof -
  let ?w = "if wl_watching (wt_log w) then w else w\<lparr>wt_log := log_begin (tn_now tn) (wt_log w)\<rparr>"
  have "length (wl_observations (wt_log ?w)) \<le> KEEP" "wl_observations (wt_log ?w) = wl_observations (wt_log w)" "wt_store ?w = Some d"
    using assms(1,2) by (auto simp: watcher_ok_def log_begin_def)
  with assms(3) look_fold_log [of "?w\<lparr>wt_baseline := b, wt_seen := s, wt_first := False\<rparr>" "tn_now tn" obs] show ?thesis
    by (simp add: watch_look_def Let_def look_fold_store)
qed

section \<open>The wait\<close>

lemma wait_from_bound: "e \<le> INTERVAL_SECS \<Longrightarrow> snd (wait_from sg sw p e) \<le> INTERVAL_SECS \<and> e \<le> snd (wait_from sg sw p e)"
proof (induction sg sw p e rule: wait_from.induct)
  case (1 sg sw p e)
  then show ?case by (subst (1 2) wait_from.simps) (auto split: option.splits)
qed

lemma wait_from_result: "fst (wait_from sg sw p e) = (snd (wait_from sg sw p e) < INTERVAL_SECS \<and> sg (snd (wait_from sg sw p e)))"
proof (induction sg sw p e rule: wait_from.induct)
  case (1 sg sw p e)
  then show ?case by (subst (1 2 3) wait_from.simps) (auto split: option.splits)
qed

text \<open>The wait has passed every second before the one it returns at.\<close>

lemma wait_from_passed:
  "e \<le> t \<Longrightarrow> t < snd (wait_from sg sw p e) \<Longrightarrow> \<not> sg t \<and> (t mod CHECK_EVERY = 0 \<longrightarrow> (case sw of None \<Rightarrow> True | Some f \<Rightarrow> f t = p))"
proof (induction sg sw p e rule: wait_from.induct)
  case (1 sg sw p e)
  from 1(3) have go: "e < INTERVAL_SECS" "\<not> sg e" "\<not> (e mod CHECK_EVERY = 0 \<and> (case sw of None \<Rightarrow> False | Some f \<Rightarrow> f e \<noteq> p))"
    and "t < snd (wait_from sg sw p (e + 1))"
    using 1(2) by (subst (asm) wait_from.simps, auto split: if_splits)+
  with 1 show ?case by (cases "t = e") (auto split: option.splits)
qed

text \<open>C35: the wait ends promptly. It returns within its interval of two minutes, and says to stop exactly when
  the stop was signalled at the second it returned; a stop that is signalled from second \<open>n\<close> on is
  noticed by that second, and a switch flipped from second \<open>n\<close> on is noticed within five seconds
  of it.\<close>

theorem wait_is_prompt:
  "snd (wait sg sw p) \<le> INTERVAL_SECS
   \<and> fst (wait sg sw p) = (snd (wait sg sw p) < INTERVAL_SECS \<and> sg (snd (wait sg sw p)))
   \<and> ((\<forall>t \<ge> n. sg t) \<longrightarrow> snd (wait sg sw p) \<le> n)
   \<and> ((\<forall>t \<ge> n. sw = Some f \<and> f t \<noteq> p) \<longrightarrow> snd (wait sg sw p) < n + CHECK_EVERY)"
proof (intro conjI impI)
  show "snd (wait sg sw p) \<le> INTERVAL_SECS" using wait_from_bound [of 0 sg sw p] by (simp add: wait_def)
  show "fst (wait sg sw p) = (snd (wait sg sw p) < INTERVAL_SECS \<and> sg (snd (wait sg sw p)))"
    unfolding wait_def by (rule wait_from_result)
  show "snd (wait sg sw p) \<le> n" if "\<forall>t \<ge> n. sg t"
    using that wait_from_passed [of 0 n sg sw p] by (fastforce simp: wait_def)
  show "snd (wait sg sw p) < n + CHECK_EVERY" if f: "\<forall>t \<ge> n. sw = Some f \<and> f t \<noteq> p"
  proof (rule ccontr)
    let ?t = "CHECK_EVERY * ((n + CHECK_EVERY - 1) div CHECK_EVERY)"
    assume "\<not> snd (wait sg sw p) < n + CHECK_EVERY"
    moreover have "n \<le> ?t" "?t < n + CHECK_EVERY" unfolding CHECK_EVERY_def by presburger+
    ultimately show False
      using wait_from_passed [of 0 ?t sg sw p] f by (auto simp: wait_def)
  qed
qed

section \<open>One turn\<close>

definition sample_observation :: observation where
  "sample_observation =
     \<lparr>ob_at = ''t'', ob_kind = TaskAppeared, ob_concern = Strong, ob_summary = ''A hidden scheduled task now runs x.cmd from Temp'',
      ob_evidence = [''e''], ob_subject = ''x.cmd'', ob_command = ''cmd /c x.cmd'', ob_pid = None\<rparr>"

definition sample_entry :: start_entry where
  "sample_entry =
     \<lparr>se_name = ''Updater'', se_anchor = ScheduledTask, se_location = ''Tasks'', se_command = ''cmd /c x.cmd'',
      se_executable = None, se_payload = None, se_host = None, se_hidden = True, se_machine_wide = True\<rparr>"

definition sample_turn :: turn where
  "sample_turn =
     \<lparr>tn_setting = Inr None, tn_entries = [sample_entry], tn_judge = (\<lambda>e. Some sample_observation), tn_reports = [],
      tn_debug = (\<lambda>p. []), tn_now = ''now''\<rparr>"

definition sample_watcher :: watcher where
  "sample_watcher =
     \<lparr>wt_baseline = {}, wt_seen = {}, wt_first = False,
      wt_log = \<lparr>wl_observations = [], wl_watching = True, wl_since = Some ''then''\<rparr>, wt_store = Some empty_db\<rparr>"

theorem watch_invariant_witness:
  "\<exists>w. watch_step\<^sup>*\<^sup>* (Running (watcher_start (Some empty_db))) (Stopped w) \<and> thread_ok (Stopped w)"
proof -
  have w: "fst (wait (\<lambda>t. True) (Some f) p)" for f p by (simp add: wait_def wait_from.simps INTERVAL_SECS_def)
  have "\<exists>w. watch_step (Running (watcher_start (Some empty_db))) (Stopped w)"
    by (rule exI, rule step_stop [OF refl _ w [of "\<lambda>t. True"], where tn = sample_turn]) (simp add: watcher_start_def)
  then obtain w where "watch_step\<^sup>*\<^sup>* (Running (watcher_start (Some empty_db))) (Stopped w)" by blast
  with watch_invariant [OF this] show ?thesis by blast
qed

theorem look_writes_every_observation_witness:
  "wl_observations (wt_log (watch_look sample_turn sample_watcher)) = [sample_observation]
   \<and> wt_store (watch_look sample_turn sample_watcher) = Some (record_audit empty_db ''now'' (watch_audit sample_observation))"
proof -
  have ok: "watcher_ok sample_watcher" "wt_store sample_watcher = Some empty_db"
    by (simp_all add: watcher_ok_def sample_watcher_def)
  have look: "look_now sample_turn (if wl_watching (wt_log sample_watcher) then sample_watcher
        else sample_watcher\<lparr>wt_log := log_begin (tn_now sample_turn) (wt_log sample_watcher)\<rparr>)
      = ([sample_observation], {watch_key sample_entry}, {})"
    by (simp add: look_now_def sample_turn_def sample_watcher_def)
  from look_writes_every_observation [OF ok look] show ?thesis
    by (simp add: sample_watcher_def sample_turn_def KEEP_def)
qed

theorem wait_is_prompt_witness:
  "snd (wait (\<lambda>t. 7 \<le> t) (Some (\<lambda>t. t < 3)) True) \<le> 7 \<and> snd (wait (\<lambda>t. 7 \<le> t) (Some (\<lambda>t. t < 3)) True) < 3 + CHECK_EVERY"
  using wait_is_prompt [of "\<lambda>t. 7 \<le> t" "Some (\<lambda>t. t < 3)" True 7 "\<lambda>t. t < 3"]
    wait_is_prompt [of "\<lambda>t. 7 \<le> t" "Some (\<lambda>t. t < 3)" True 3 "\<lambda>t. t < 3"] by simp

end
