(* ===== verification/Kam_Canary_Safe.thy ===== *)
theory Kam_Canary_Safe
  imports Kam_Canary
begin

text \<open>
  What planting and removing decoys leaves alone: nothing that was there is written over, nothing
  that does not carry the marker is taken away, and what is reported as planted is there.
\<close>

section \<open>Writing only where there is nothing\<close>

lemma follow_mono: "follow n fs k = Some v \<Longrightarrow> n \<le> m \<Longrightarrow> follow m fs k = Some v"
proof (induction n arbitrary: m k)
  case (Suc n)
  then obtain m' where "m = Suc m'" "n \<le> m'" by (cases m) auto
  with Suc show ?case by (auto split: option.splits fnode.splits)
qed simp

text \<open>
  Whatever resolves to something is as it was, except at the places of \<open>except\<close>, which may have become a file.
\<close>

definition spared :: "str list set \<Rightarrow> file_system \<Rightarrow> file_system \<Rightarrow> bool" where
  "spared except fs fs' \<longleftrightarrow>
     fault fs' = fault fs
     \<and> (\<forall>k. follow 64 fs k \<noteq> None \<longrightarrow> look fs' k = look fs k \<or> k \<in> except \<and> (\<exists>c. look fs' k = Some (FileNode c)))"

abbreviation untouched :: "file_system \<Rightarrow> file_system \<Rightarrow> bool" where "untouched \<equiv> spared {}"

lemma spared_refl [simp]: "spared except fs fs"
  by (simp add: spared_def)

lemma untouched_follow: "untouched fs fs' \<Longrightarrow> n \<le> 64 \<Longrightarrow> follow n fs k = Some v \<Longrightarrow> follow n fs' k = Some v"
proof (induction n arbitrary: k)
  case (Suc n)
  have "look fs' k = look fs k"
    using Suc.prems follow_mono [OF Suc.prems(3,2)] by (auto simp: spared_def)
  with Suc show ?case by (auto split: option.splits fnode.splits)
qed simp

text \<open>What resolved to something still does.\<close>

lemma spared_follow: "spared except fs fs' \<Longrightarrow> n \<le> 64 \<Longrightarrow> follow n fs k \<noteq> None \<Longrightarrow> follow n fs' k \<noteq> None"
proof (induction n arbitrary: k)
  case (Suc n)
  then obtain v where "follow (Suc n) fs k = Some v" by blast
  then have "follow 64 fs k = Some v" using follow_mono Suc.prems(2) by blast
  then have "look fs' k = look fs k \<or> (\<exists>c. look fs' k = Some (FileNode c))"
    using Suc.prems(1) unfolding spared_def by (metis option.distinct(1))
  then show ?case using Suc.IH [OF Suc.prems(1)] Suc.prems(2,3) by (auto split: option.splits fnode.splits)
qed simp

lemma spared_trans:
  assumes "spared except a b" "spared except b c"
  shows "spared except a c"
  unfolding spared_def
proof (intro conjI allI impI)
  fix k assume k: "follow 64 a k \<noteq> None"
  then have "follow 64 b k \<noteq> None" by (rule spared_follow [OF assms(1) order_refl])
  with k assms show "look c k = look a k \<or> k \<in> except \<and> (\<exists>x. look c k = Some (FileNode x))"
    unfolding spared_def by metis
qed (use assms in \<open>simp add: spared_def\<close>)

lemma spared_set_node: "follow 64 fs k = None \<Longrightarrow> spared except fs (set_node k v fs)"
  by (auto simp: spared_def look_set_node)

lemma spared_create_missing: "spared except fs (snd (create_missing base cs fs))"
proof (induction base cs fs rule: create_missing.induct)
  case (2 base c cs fs)
  show ?case
  proof (cases "path_is_dir fs (base @ [c]) \<or> look fs (base @ [c]) \<noteq> None")
    case True
    with 2(1) show ?thesis by auto
  next
    case False
    then have "spared except fs (set_node (base @ [c]) DirNode fs)"
      by (intro spared_set_node follow_none) simp
    with 2(2) False show ?thesis using spared_trans by auto
  qed
qed simp

lemma spared_create_dir_all: "spared except fs (snd (create_dir_all path fs))"
  using spared_create_missing by (simp add: create_dir_all_def split: option.split)

lemma spared_fs_write:
  assumes "spared except fs fs1" and "follow 64 fs (key_of path) = None \<or> key_of path \<in> except"
  shows "spared except fs (snd (fs_write path contents fs1))"
  using assms by (auto simp: fs_write_def spared_def look_set_node split: option.split)

lemma absent_follow: "\<not> path_exists fs path \<Longrightarrow> fault fs OpExists path = None \<Longrightarrow> follow 64 fs (key_of path) = None"
  by (simp add: path_exists_def resolve_node_def)

text \<open>A path Windows says nothing is at, or one it says nothing of.\<close>

lemma spared_write_decoy:
  assumes "\<not> path_exists fs path" and "fault fs OpExists path = None \<or> key_of path \<in> except"
  shows "spared except fs (snd (write_decoy cs path d fs))"
proof -
  let ?made = "case path_parent path of None \<Rightarrow> (Inr (), fs) | Some parent \<Rightarrow> create_dir_all parent fs"
  have made: "spared except fs (snd ?made)" by (simp add: spared_create_dir_all split: option.split)
  have free: "follow 64 fs (key_of path) = None \<or> key_of path \<in> except" using absent_follow assms by blast
  have "spared except fs fs2" if "?made = (Inr (), fs1)" "fs_write path c fs1 = (res, fs2)" for fs1 c res fs2
    using spared_fs_write [OF _ free, of fs1 c] made that by simp
  with made show ?thesis by (auto simp: write_decoy_def split: prod.split sum.split)
qed

lemma spared_plant_one:
  assumes "fault fs OpExists (path_for user d) = None \<or> key_of (path_for user d) \<in> except"
  shows "spared except fs (snd (plant_one cs user (r, fs) d))"
  using spared_write_decoy [OF _ assms, of cs d]
  by (auto simp: plant_one_def Let_def split: prod.splits sum.splits)

lemma spared_plant_all:
  "\<forall>d \<in> set ds. fault fs OpExists (path_for user d) = None \<or> key_of (path_for user d) \<in> except \<Longrightarrow>
     spared except fs (snd (foldl (plant_one cs user) (r, fs) ds))"
proof (induction ds arbitrary: r fs)
  case (Cons d ds)
  obtain r1 fs1 where step: "plant_one cs user (r, fs) d = (r1, fs1)" by (cases "plant_one cs user (r, fs) d")
  have one: "spared except fs fs1" using spared_plant_one [of fs user d except cs r] Cons.prems step by simp
  then have "\<forall>d \<in> set ds. fault fs1 OpExists (path_for user d) = None \<or> key_of (path_for user d) \<in> except"
    using Cons.prems by (simp add: spared_def)
  from spared_trans [OF one Cons.IH [OF this, of r1]] step show ?case by simp
qed simp

lemma plant_world: "snd (plant cs user w) = w\<lparr>cw_fs := snd (foldl (plant_one cs user) (empty_report (cs_auditing cs), cw_fs w) DECOYS)\<rparr>"
  by (simp add: plant_def plant_registry_def REGISTRY_DECOYS_ENABLED_def split: prod.split)

text \<open>The places of decoys of which Windows would not say whether something is there.\<close>

definition unseen :: "user_context \<Rightarrow> file_system \<Rightarrow> str list set" where
  "unseen user fs = {key_of (path_for user d) | d. d \<in> set DECOYS \<and> fault fs OpExists (path_for user d) \<noteq> None}"

text \<open>C22: planting writes over nothing it is told of. Every path that resolves to something before planting, a
  file, a folder or a link to one, holds afterwards what it held, whatever else goes wrong on the way; the one
  exception is the place of a decoy of which Windows would not say whether something is there, which \<open>Path::exists\<close>
  answers with no, and which may then hold a file. When Windows can say it of every decoy, each such path also
  resolves to what it did. No key of the registry is touched.\<close>

theorem planting_spares_what_it_sees:
  assumes "follow 64 (cw_fs w) k = Some v"
  shows "(look (cw_fs (snd (plant cs user w))) k = look (cw_fs w) k
       \<or> k \<in> unseen user (cw_fs w) \<and> (\<exists>c. look (cw_fs (snd (plant cs user w))) k = Some (FileNode c)))
    \<and> (unseen user (cw_fs w) = {} \<longrightarrow> follow 64 (cw_fs (snd (plant cs user w))) k = Some v)
    \<and> cw_keys (snd (plant cs user w)) = cw_keys w"
proof -
  have all: "spared (unseen user (cw_fs w)) (cw_fs w) (cw_fs (snd (plant cs user w)))"
    unfolding plant_world by (simp, rule spared_plant_all) (auto simp: unseen_def)
  moreover have "follow 64 (cw_fs (snd (plant cs user w))) k = Some v" if "unseen user (cw_fs w) = {}"
    using untouched_follow [OF all [unfolded that] order_refl assms] .
  ultimately show ?thesis using assms by (auto simp: spared_def plant_world)
qed

section \<open>What is reported\<close>

text \<open>A file with the marker where a decoy belongs.\<close>

definition decoy_there :: "file_system \<Rightarrow> str \<Rightarrow> bool" where
  "decoy_there fs path \<longleftrightarrow> (\<exists>txt. resolve_node fs path = Some (FileNode txt) \<and> contains txt MARKER)"

lemma is_ours_there: "is_ours fs path \<Longrightarrow> decoy_there fs path"
  by (auto simp: is_ours_def decoy_there_def read_to_string_def split: option.splits fnode.splits)

lemma contains_decoy [simp]: "contains (decoy_contents d) MARKER"
  unfolding contains_def decoy_contents_def notice_def by (simp add: sublist_append)

lemma untouched_there: "untouched fs fs' \<Longrightarrow> decoy_there fs path \<Longrightarrow> decoy_there fs' path"
  using untouched_follow [of fs fs' 64] by (auto simp: decoy_there_def resolve_node_def)

lemma written_there:
  assumes "write_decoy cs path d fs = (Inr notes, fs')"
  shows "decoy_there fs' path"
proof -
  obtain fs1 where w: "fs_write path (decoy_contents d) fs1 = (Inr (), fs')"
    using assms by (auto simp: write_decoy_def split: option.splits prod.splits sum.splits)
  then have "look fs' (key_of path) = Some (FileNode (decoy_contents d))"
    by (auto simp: fs_write_def look_set_node split: option.splits if_splits)
  then show ?thesis
    using follow_plain [of fs' "key_of path" "FileNode (decoy_contents d)" 63]
    by (simp add: decoy_there_def resolve_node_def numeral_eq_Suc)
qed

definition canary_true :: "user_context \<Rightarrow> file_system \<Rightarrow> canary \<Rightarrow> bool" where
  "canary_true user fs c \<longleftrightarrow>
     (\<exists>d \<in> set DECOYS. cn_path c = path_for user d \<and> cn_id c = dc_id d \<and> decoy_there fs (path_for user d))"

lemma plant_one_reports:
  assumes "fault fs OpExists (path_for user d) = None" "d \<in> set DECOYS"
    and "\<forall>c \<in> set (cr_canaries r). canary_true user fs c"
    and "plant_one cs user (r, fs) d = (r', fs')"
  shows "\<forall>c \<in> set (cr_canaries r'). canary_true user fs' c"
proof -
  have u: "untouched fs fs'" using spared_plant_one [of fs user d "{}" cs r] assms(1) assms(4) by simp
  have old: "\<forall>c \<in> set (cr_canaries r). canary_true user fs' c"
    using assms(3) untouched_there [OF u] by (auto simp: canary_true_def)
  have "\<forall>c \<in> set (cr_canaries r'). c \<in> set (cr_canaries r)
      \<or> (cn_path c = path_for user d \<and> cn_id c = dc_id d \<and> decoy_there fs' (path_for user d))"
    using assms(4) is_ours_there written_there [of cs "path_for user d" d fs]
    by (auto simp: plant_one_def Let_def add_problem_def add_canary_def file_canary_def
        split: if_splits prod.splits sum.splits)
  with old assms(2) show ?thesis by (auto simp: canary_true_def)
qed

lemma plant_all_reports:
  "set ds \<subseteq> set DECOYS \<Longrightarrow> \<forall>d \<in> set ds. fault fs OpExists (path_for user d) = None \<Longrightarrow>
     \<forall>c \<in> set (cr_canaries r). canary_true user fs c \<Longrightarrow>
     foldl (plant_one cs user) (r, fs) ds = (r', fs') \<Longrightarrow> \<forall>c \<in> set (cr_canaries r'). canary_true user fs' c"
proof (induction ds arbitrary: r fs)
  case (Cons d ds)
  obtain r1 fs1 where step: "plant_one cs user (r, fs) d = (r1, fs1)" by (cases "plant_one cs user (r, fs) d")
  have "untouched fs fs1" using spared_plant_one [of fs user d "{}" cs r] Cons.prems step by simp
  then have f: "\<forall>d \<in> set ds. fault fs1 OpExists (path_for user d) = None" using Cons.prems by (simp add: spared_def)
  have "\<forall>c \<in> set (cr_canaries r1). canary_true user fs1 c"
    using plant_one_reports [OF _ _ Cons.prems(3) step] Cons.prems(1,2) by simp
  with Cons.IH [of fs1 r1] f Cons.prems step show ?case by simp
qed simp

text \<open>Nothing is claimed that is not so. Every decoy that planting or the status reports is one of
  the compiled-in ones, at its path in the caller's own profile, and a file with the marker is
  there once the operation has returned; and saying what is planted changes nothing.\<close>

theorem reported_decoys_are_there:
  assumes "\<forall>d \<in> set DECOYS. fault (cw_fs w) OpExists (path_for user d) = None"
  shows "(\<forall>c \<in> set (cr_canaries (fst (plant cs user w))). canary_true user (cw_fs (snd (plant cs user w))) c)
    \<and> (\<forall>c \<in> set (cr_canaries (canary_status cs user w)). canary_true user (cw_fs w) c)"
proof
  obtain r fs where all: "foldl (plant_one cs user) (empty_report (cs_auditing cs), cw_fs w) DECOYS = (r, fs)"
    by (cases "foldl (plant_one cs user) (empty_report (cs_auditing cs), cw_fs w) DECOYS")
  have "\<forall>c \<in> set (cr_canaries r). canary_true user fs c"
    by (rule plant_all_reports [OF subset_refl assms _ all]) (simp add: empty_report_def)
  then show "\<forall>c \<in> set (cr_canaries (fst (plant cs user w))). canary_true user (cw_fs (snd (plant cs user w))) c"
    using all by (simp add: plant_def plant_registry_def REGISTRY_DECOYS_ENABLED_def fill_trips_def split: prod.split)
  show "\<forall>c \<in> set (cr_canaries (canary_status cs user w)). canary_true user (cw_fs w) c"
    using is_ours_there
    by (auto simp: canary_status_def fill_trips_def status_one_def file_canary_def canary_true_def
        REGISTRY_DECOYS_ENABLED_def Let_def split: prod.splits if_splits)
qed

text \<open>
  What the guard of planting rests on: \<open>Path::exists\<close> also answers no when Windows would not say, and
  then the file that is there is written over.
\<close>

lemma unseen_file_is_overwritten:
  assumes "fault fs OpExists (path_for user d) = Some e"
    and "write_decoy cs (path_for user d) d fs = (Inr notes, fs')"
  shows "snd (plant_one cs user (r, fs) d) = fs' \<and> look fs' (key_of (path_for user d)) = Some (FileNode (decoy_contents d))"
proof -
  have "\<not> path_exists fs (path_for user d)" using assms(1) by (simp add: path_exists_def)
  moreover have "look fs' (key_of (path_for user d)) = Some (FileNode (decoy_contents d))"
    using assms(2) by (auto simp: write_decoy_def fs_write_def look_set_node
        split: option.splits prod.splits sum.splits if_splits)
  ultimately show ?thesis using assms(2) by (simp add: plant_one_def)
qed

section \<open>Removing\<close>

text \<open>Nothing lies below a file.\<close>

definition files_are_leaves :: "file_system \<Rightarrow> bool" where
  "files_are_leaves fs \<longleftrightarrow>
     (\<forall>k j c. look fs k = Some (FileNode c) \<longrightarrow> strict_prefix k j \<longrightarrow> look fs j = None)"

text \<open>Every path is as it was, or held a file with the marker and holds nothing now.\<close>

definition only_ours_gone :: "file_system \<Rightarrow> file_system \<Rightarrow> bool" where
  "only_ours_gone fs fs' \<longleftrightarrow>
     (\<forall>k. look fs' k = look fs k
       \<or> (look fs' k = None \<and> (\<exists>c. look fs k = Some (FileNode c) \<and> contains c MARKER)))"

lemma only_ours_gone_refl [simp]: "only_ours_gone fs fs"
  by (simp add: only_ours_gone_def)

lemma only_ours_gone_trans: "only_ours_gone a b \<Longrightarrow> only_ours_gone b c \<Longrightarrow> only_ours_gone a c"
  unfolding only_ours_gone_def by (metis option.distinct(1))

lemma only_ours_gone_leaves: "only_ours_gone fs fs' \<Longrightarrow> files_are_leaves fs \<Longrightarrow> files_are_leaves fs'"
  unfolding only_ours_gone_def files_are_leaves_def by (metis option.distinct(1))

lemma removed_file_gone:
  assumes "files_are_leaves fs" and "is_ours fs path" and "remove_file path fs = (Inr u, fs')"
  shows "only_ours_gone fs fs'"
proof -
  obtain c where c: "look fs (key_of path) = Some (FileNode c)" and fs': "fs' = remove_tree (key_of path) fs"
    using assms(3) by (auto simp: remove_file_def split: option.splits fnode.splits)
  have "resolve_node fs path = Some (FileNode c)"
    using follow_plain [OF c, of 63] by (simp add: resolve_node_def numeral_eq_Suc)
  then have "contains c MARKER"
    using assms(2) by (auto simp: is_ours_def read_to_string_def split: option.splits)
  moreover have "look fs j = None" if "strict_prefix (key_of path) j" for j
    using assms(1) c that by (auto simp: files_are_leaves_def)
  ultimately have "look fs' j = look fs j \<or> (look fs' j = None \<and> (\<exists>c. look fs j = Some (FileNode c) \<and> contains c MARKER))" for j
    using c by (cases "j = key_of path") (auto simp: fs' look_remove_tree strict_prefix_def)
  then show ?thesis by (simp add: only_ours_gone_def)
qed

lemma remove_one_gone:
  assumes "files_are_leaves fs" and "remove_one user (n, refused, fs) d = (n', refused', fs')"
  shows "only_ours_gone fs fs'"
proof -
  have "remove_file path fs = (Inl e, fs2) \<Longrightarrow> fs2 = fs" for path e fs2
    by (auto simp: remove_file_def split: option.splits fnode.splits)
  then show ?thesis
    using assms removed_file_gone [OF assms(1), of "path_for user d"]
    by (fastforce simp: remove_one_def Let_def split: if_splits prod.splits sum.splits)
qed

lemma remove_all_gone:
  "files_are_leaves fs \<Longrightarrow> foldl (remove_one user) (n, refused, fs) ds = (n', refused', fs') \<Longrightarrow> only_ours_gone fs fs'"
proof (induction ds arbitrary: n refused fs)
  case (Cons d ds)
  obtain n1 refused1 fs1 where step: "remove_one user (n, refused, fs) d = (n1, refused1, fs1)"
    by (cases "remove_one user (n, refused, fs) d")
  note one = remove_one_gone [OF Cons.prems(1) step]
  have "foldl (remove_one user) (n1, refused1, fs1) ds = (n', refused', fs')" using step Cons.prems(2) by simp
  from only_ours_gone_trans [OF one Cons.IH [OF only_ours_gone_leaves [OF one Cons.prems(1)] this]] show ?case .
qed simp

text \<open>The folder of the browser decoy goes only when it is empty, and nothing else with it.\<close>

lemma tidy_backups_look:
  "look (tidy_backups user fs) k = look fs k
   \<or> (k = key_of (backups_folder user) \<and> look fs k = Some DirNode \<and> (\<forall>j. strict_prefix k j \<longrightarrow> look fs j = None))"
proof (cases "tidy_backups user fs = fs")
  case False
  let ?b = "key_of (backups_folder user)"
  have d: "look fs ?b = Some DirNode" "tidy_backups user fs = remove_tree ?b fs"
    and none: "\<not> list_ex (\<lambda>k. strict_prefix ?b k) (map fst (nodes fs))"
    using False by (auto simp: tidy_backups_def remove_dir_def split: sum.splits option.splits fnode.splits if_splits)
  have none': "look fs j = None" if "strict_prefix ?b j" for j
    using none that by (auto simp: look_def list_ex_iff map_of_eq_None_iff)
  show ?thesis
  proof (cases "prefix ?b k")
    case True
    then consider "k = ?b" | "strict_prefix ?b k" by (auto simp: strict_prefix_def)
    then show ?thesis using d none' by cases (auto simp: look_remove_tree)
  qed (simp add: d look_remove_tree)
qed simp

text \<open>A key of the registry that is not a decoy's, or does not carry the marker, keeps its values.\<close>

definition foreign_key :: "user_context \<Rightarrow> str \<Rightarrow> (str \<times> str) list \<Rightarrow> bool" where
  "foreign_key user j vs \<longleftrightarrow>
     (\<forall>d \<in> set REGISTRY_DECOYS. (j = decoy_key user d \<longrightarrow> map_of vs MARKER_VALUE = None)
       \<and> \<not> prefix (decoy_key user d @ [CHR 0x5C]) j)"

lemma remove_one_key_keeps:
  assumes "d \<in> set REGISTRY_DECOYS" and "foreign_key user j vs" and "map_of (cw_keys w) j = Some vs"
    and "remove_one_key cs user (n, refused, w) d = (n', refused', w')"
  shows "map_of (cw_keys w') j = Some vs \<and> cw_fs w' = cw_fs w"
proof (cases "key_is_ours cs user d w")
  case True
  then have ours: "\<forall>vs. map_of (cw_keys w) (decoy_key user d) = Some vs \<longrightarrow> map_of vs MARKER_VALUE \<noteq> None"
    by (simp add: key_is_ours_def split: option.splits)
  have "j \<noteq> decoy_key user d"
  proof
    assume j: "j = decoy_key user d"
    then have "map_of vs MARKER_VALUE = None" using assms(1,2) by (simp add: foreign_key_def)
    with ours assms(3) j show False by simp
  qed
  moreover have "\<not> prefix (decoy_key user d @ [CHR 0x5C]) j" using assms(1,2) by (auto simp: foreign_key_def)
  ultimately have keep: "map_of (filter (\<lambda>(i, vs). \<not> (i = decoy_key user d \<or> prefix (decoy_key user d @ [CHR 0x5C]) i)) (cw_keys w)) j = Some vs"
    using assms(3) map_of_filter_keys [of "\<lambda>i. \<not> (i = decoy_key user d \<or> prefix (decoy_key user d @ [CHR 0x5C]) i)" "cw_keys w" j] by simp
  have "w' = w \<or> w' = w\<lparr>cw_keys := filter (\<lambda>(i, vs). \<not> (i = decoy_key user d \<or> prefix (decoy_key user d @ [CHR 0x5C]) i)) (cw_keys w)\<rparr>"
    using assms(4) True by (simp add: remove_one_key_def remove_key_def Let_def split: if_splits)
  with keep assms(3) show ?thesis by auto
qed (use assms(3,4) in \<open>auto simp: remove_one_key_def remove_key_def split: if_splits\<close>)

lemma remove_keys_keep:
  "set ds \<subseteq> set REGISTRY_DECOYS \<Longrightarrow> foreign_key user j vs \<Longrightarrow> map_of (cw_keys w) j = Some vs \<Longrightarrow>
     foldl (remove_one_key cs user) (n, refused, w) ds = (n', refused', w') \<Longrightarrow> map_of (cw_keys w') j = Some vs"
proof (induction ds arbitrary: n refused w)
  case (Cons d ds)
  obtain n1 refused1 w1 where step: "remove_one_key cs user (n, refused, w) d = (n1, refused1, w1)"
    by (cases "remove_one_key cs user (n, refused, w) d")
  have "map_of (cw_keys w1) j = Some vs" using remove_one_key_keeps [OF _ Cons.prems(2,3) step] Cons.prems(1) by simp
  with Cons.IH [OF _ Cons.prems(2), of w1 n1 refused1] Cons.prems(1,4) step show ?case by simp
qed simp

lemma remove_keys_fs:
  "foldl (remove_one_key cs user) (n, refused, w) ds = (n', refused', w') \<Longrightarrow> cw_fs w' = cw_fs w"
proof (induction ds arbitrary: n refused w)
  case (Cons d ds)
  obtain n1 refused1 w1 where step: "remove_one_key cs user (n, refused, w) d = (n1, refused1, w1)"
    by (cases "remove_one_key cs user (n, refused, w) d")
  have "cw_fs w1 = cw_fs w"
    using step by (auto simp: remove_one_key_def remove_key_def Let_def split: if_splits)
  with Cons step show ?case by simp
qed simp

text \<open>Removing takes away only what was planted. Every path holds afterwards what it held, unless it
  held a file with the marker, or is the backups folder of the browser decoy with nothing left in
  it; and a key of the registry that is not one of the decoys, or does not carry the marker, keeps
  all its values.\<close>

theorem removal_takes_only_decoys:
  assumes "files_are_leaves (cw_fs w)" and "snd (remove_canaries cs user w) = w'"
  shows "(look (cw_fs w') k = look (cw_fs w) k
      \<or> (\<exists>c. look (cw_fs w) k = Some (FileNode c) \<and> contains c MARKER)
      \<or> (k = key_of (backups_folder user) \<and> look (cw_fs w) k = Some DirNode
          \<and> (\<forall>j. strict_prefix k j \<longrightarrow> look (cw_fs w') j = None)))
    \<and> (\<forall>j vs. foreign_key user j vs \<longrightarrow> map_of (cw_keys w) j = Some vs \<longrightarrow> map_of (cw_keys w') j = Some vs)"
proof -
  obtain n refused fs where files: "foldl (remove_one user) (0, [], cw_fs w) DECOYS = (n, refused, fs)"
    by (cases "foldl (remove_one user) (0, [], cw_fs w) DECOYS")
  let ?w1 = "w\<lparr>cw_fs := tidy_backups user fs\<rparr>"
  obtain n2 refused2 w2 where keys: "foldl (remove_one_key cs user) (n, refused, ?w1) REGISTRY_DECOYS = (n2, refused2, w2)"
    by (cases "foldl (remove_one_key cs user) (n, refused, ?w1) REGISTRY_DECOYS")
  have w': "w' = w2" using assms(2) files keys by (simp add: remove_canaries_def)
  have fs': "cw_fs w' = tidy_backups user fs" using remove_keys_fs [OF keys] by (simp add: w')
  note gone = remove_all_gone [OF assms(1) files]
  have "look fs k = look (cw_fs w) k \<or> (\<exists>c. look (cw_fs w) k = Some (FileNode c) \<and> contains c MARKER)"
    using gone by (auto simp: only_ours_gone_def)
  moreover have "look (cw_fs w') k = look fs k
      \<or> (k = key_of (backups_folder user) \<and> look fs k = Some DirNode \<and> (\<forall>j. strict_prefix k j \<longrightarrow> look (cw_fs w') j = None))"
    using tidy_backups_look [of user fs k] tidy_backups_look [of user fs] unfolding fs' by (metis option.distinct(1))
  moreover have "look fs k = Some DirNode \<Longrightarrow> look (cw_fs w) k = Some DirNode"
    using gone unfolding only_ours_gone_def by (metis option.distinct(1))
  ultimately have "look (cw_fs w') k = look (cw_fs w) k
      \<or> (\<exists>c. look (cw_fs w) k = Some (FileNode c) \<and> contains c MARKER)
      \<or> (k = key_of (backups_folder user) \<and> look (cw_fs w) k = Some DirNode
          \<and> (\<forall>j. strict_prefix k j \<longrightarrow> look (cw_fs w') j = None))"
    by metis
  moreover have "\<forall>j vs. foreign_key user j vs \<longrightarrow> map_of (cw_keys w) j = Some vs \<longrightarrow> map_of (cw_keys w') j = Some vs"
    using remove_keys_keep [OF subset_refl _ _ keys] by (simp add: w')
  ultimately show ?thesis by blast
qed

section \<open>A profile with a file of its own\<close>

definition own_seed_key :: "str list" where
  "own_seed_key = [''c:'', ''users'', ''ari'', ''documents'', ''seed phrase.txt'']"

definition sample_canary_world :: canary_world where
  "sample_canary_world =
     \<lparr>cw_fs = \<lparr>nodes = [([''c:''], DirNode), ([''c:'', ''users''], DirNode), ([''c:'', ''users'', ''ari''], DirNode),
         ([''c:'', ''users'', ''ari'', ''documents''], DirNode), (own_seed_key, FileNode ''words'')],
       fault = \<lambda>oper path. None, canonical = \<lambda>path. Inr path\<rparr>,
      cw_keys = [(''hkey_users'', [])]\<rparr>"

definition sample_canary_system :: canary_system where
  "sample_canary_system =
     \<lparr>cs_machine = sample_event_machine, cs_log = Inr [NoMoreItems], cs_auditing = True,
      cs_watch_file = \<lambda>path. Inr (), cs_is_watched = \<lambda>path. Inr True, cs_watch_key = \<lambda>nm. Inr (),
      cs_is_watched_key = \<lambda>nm. Inr True, cs_exclude = \<lambda>path. Inr (), cs_key_opens = \<lambda>k. True,
      cs_create_key = \<lambda>k. 0, cs_set_value = \<lambda>k nm. 0, cs_delete_tree = \<lambda>k. 0\<rparr>"

lemma sample_world_sees: "\<forall>d \<in> set DECOYS. fault (cw_fs sample_canary_world) OpExists (path_for user d) = None"
  by (simp add: sample_canary_world_def)

lemma sample_own_seed: "look (cw_fs sample_canary_world) own_seed_key = Some (FileNode ''words'')"
  by (simp add: sample_canary_world_def look_def own_seed_key_def)

theorem planting_spares_what_it_sees_witness:
  "look (cw_fs (snd (plant sample_canary_system user_ari sample_canary_world))) own_seed_key = Some (FileNode ''words'')
   \<and> follow 64 (cw_fs (snd (plant sample_canary_system user_ari sample_canary_world))) own_seed_key = Some (FileNode ''words'')"
proof -
  have "follow 64 (cw_fs sample_canary_world) own_seed_key = Some (FileNode ''words'')"
    using follow_plain [OF sample_own_seed, of 63] by (simp add: numeral_eq_Suc)
  moreover have "unseen user_ari (cw_fs sample_canary_world) = {}" using sample_world_sees by (auto simp: unseen_def)
  ultimately show ?thesis
    using planting_spares_what_it_sees [of sample_canary_world own_seed_key _ sample_canary_system user_ari] sample_own_seed by simp
qed

theorem reported_decoys_are_there_witness:
  "\<forall>c \<in> set (cr_canaries (fst (plant sample_canary_system user_ari sample_canary_world))).
     canary_true user_ari (cw_fs (snd (plant sample_canary_system user_ari sample_canary_world))) c"
  using reported_decoys_are_there [OF sample_world_sees, where user = user_ari and cs = sample_canary_system] by simp

theorem removal_takes_only_decoys_witness:
  "look (cw_fs (snd (remove_canaries sample_canary_system user_ari sample_canary_world))) own_seed_key = Some (FileNode ''words'')"
proof -
  have "files_are_leaves (cw_fs sample_canary_world)"
    by (auto simp: files_are_leaves_def sample_canary_world_def look_def own_seed_key_def strict_prefix_def prefix_def
        split: if_splits)
  from removal_takes_only_decoys [OF this refl, of sample_canary_system user_ari own_seed_key]
  have "look (cw_fs (snd (remove_canaries sample_canary_system user_ari sample_canary_world))) own_seed_key = Some (FileNode ''words'')
      \<or> contains ''words'' MARKER"
    by (simp add: sample_own_seed)
  moreover have "\<not> contains ''words'' MARKER" by code_simp
  ultimately show ?thesis by blast
qed

end
