(* ===== verification/Kam_Links.thy ===== *)
theory Kam_Links
  imports Kam_Files
begin

text \<open>
  Paths through links: every component but the last is followed when it is a link, and the last
  one when the caller asks for it, as Windows does when it opens a path. The answer is the place
  in the store that the path means.
\<close>

definition LINK_STEPS :: nat where "LINK_STEPS = 256"

fun walk_links :: "nat \<Rightarrow> file_system \<Rightarrow> bool \<Rightarrow> str list \<Rightarrow> str list \<Rightarrow> str list option" where
  "walk_links 0 fs follow_last base rest = None"
| "walk_links (Suc n) fs follow_last base [] = Some base"
| "walk_links (Suc n) fs follow_last base (c # cs) =
     (case look fs (base @ [c]) of
        Some (LinkNode target) \<Rightarrow>
          if cs = [] \<and> \<not> follow_last then Some (base @ [c])
          else walk_links n fs follow_last [] (key_of target @ cs)
      | _ \<Rightarrow> walk_links n fs follow_last (base @ [c]) cs)"

text \<open>The object a path names, a link at the end being the link itself, and what it leads to.\<close>

definition object_at :: "file_system \<Rightarrow> str \<Rightarrow> str list option" where
  "object_at fs path = walk_links LINK_STEPS fs False [] (key_of path)"

definition place_at :: "file_system \<Rightarrow> str \<Rightarrow> str list option" where
  "place_at fs path = walk_links LINK_STEPS fs True [] (key_of path)"

definition look_path :: "file_system \<Rightarrow> str \<Rightarrow> fnode option" where
  "look_path fs path = Option.bind (place_at fs path) (look fs)"

text \<open>\<open>Path::is_dir\<close> and \<open>Path::exists\<close>, which follow links and take an error for no.\<close>

definition is_dir :: "file_system \<Rightarrow> str \<Rightarrow> bool" where
  "is_dir fs path \<longleftrightarrow> fault fs OpMetadata path = None \<and> look_path fs path = Some DirNode"

text \<open>\<open>fs::symlink_metadata\<close> of the object itself.\<close>

definition object_metadata :: "file_system \<Rightarrow> str \<Rightarrow> io_error + fnode" where
  "object_metadata fs path =
     (case fault fs OpMetadata path of Some e \<Rightarrow> Inl e | None \<Rightarrow>
      (case Option.bind (object_at fs path) (look fs) of None \<Rightarrow> Inl not_found | Some v \<Rightarrow> Inr v))"

text \<open>The names in the directory at a place of the store, and behind a path.\<close>

definition names_at :: "file_system \<Rightarrow> str list \<Rightarrow> str list" where
  "names_at fs k = remdups (map last (filter (\<lambda>j. j \<noteq> [] \<and> butlast j = k) (map fst (nodes fs))))"

definition read_dir_at :: "file_system \<Rightarrow> str \<Rightarrow> io_error + str list" where
  "read_dir_at fs path =
     (case fault fs OpReadDir path of Some e \<Rightarrow> Inl e | None \<Rightarrow>
      (case place_at fs path of
         None \<Rightarrow> Inl not_found
       | Some k \<Rightarrow> if look fs k = Some DirNode then Inr (names_at fs k) else Inl not_found))"

definition read_text_at :: "file_system \<Rightarrow> str \<Rightarrow> io_error + str" where
  "read_text_at fs path =
     (case fault fs OpRead path of Some e \<Rightarrow> Inl e | None \<Rightarrow>
      (case look_path fs path of
         Some (FileNode contents) \<Rightarrow> Inr contents
       | Some v \<Rightarrow> Inl (IoError OtherKind ''not a file'')
       | None \<Rightarrow> Inl not_found))"

section \<open>Paths without links\<close>

text \<open>No part of the way to a place is a link; the place itself may be one.\<close>

definition straight :: "file_system \<Rightarrow> str list \<Rightarrow> bool" where
  "straight fs k \<longleftrightarrow> (\<forall>i < length k. \<forall>t. 0 < i \<longrightarrow> look fs (take i k) \<noteq> Some (LinkNode t))"

lemma walk_links_straight:
  "length cs < n \<Longrightarrow> (\<And>i t. i < length cs \<Longrightarrow> 0 < i \<Longrightarrow> look fs (base @ take i cs) \<noteq> Some (LinkNode t)) \<Longrightarrow>
     walk_links n fs False base cs = Some (base @ cs)"
proof (induction cs arbitrary: n base)
  case Nil
  then show ?case by (cases n) simp_all
next
  case (Cons c cs)
  obtain m where n: "n = Suc m" using Cons.prems(1) by (cases n) simp_all
  have "walk_links m fs False (base @ [c]) cs = Some ((base @ [c]) @ cs)"
  proof (rule Cons.IH)
    show "length cs < m" using Cons.prems(1) n by simp
    show "look fs ((base @ [c]) @ take i cs) \<noteq> Some (LinkNode t)" if "i < length cs" "0 < i" for i t
      using Cons.prems(2) [of "Suc i" t] that by simp
  qed
  moreover have "cs \<noteq> [] \<Longrightarrow> look fs (base @ [c]) \<noteq> Some (LinkNode t)" for t
    using Cons.prems(2) [of 1 t] by (cases cs) simp_all
  ultimately show ?case by (auto simp: n split: option.splits fnode.splits)
qed

lemma object_at_straight: "straight fs (key_of path) \<Longrightarrow> length (key_of path) < LINK_STEPS \<Longrightarrow> object_at fs path = Some (key_of path)"
  using walk_links_straight [of "key_of path" LINK_STEPS fs "[]"] by (simp add: object_at_def straight_def)

lemma names_at_iff: "n \<in> set (names_at fs k) \<longleftrightarrow> (\<exists>v. look fs (k @ [n]) = Some v)"
proof
  assume "n \<in> set (names_at fs k)"
  then obtain j where "j \<in> set (map fst (nodes fs))" "j \<noteq> []" "butlast j = k" "n = last j"
    by (auto simp: names_at_def)
  then have "k @ [n] \<in> set (map fst (nodes fs))" by (metis append_butlast_last_id)
  then show "\<exists>v. look fs (k @ [n]) = Some v" by (auto simp: look_def map_of_eq_None_iff [symmetric] dest: weak_map_of_SomeI)
next
  assume "\<exists>v. look fs (k @ [n]) = Some v"
  then have "k @ [n] \<in> fst ` set (nodes fs)" by (auto simp: look_def dest: map_of_SomeD intro: rev_image_eqI)
  then show "n \<in> set (names_at fs k)" by (force simp: names_at_def)
qed

lemma distinct_names_at [simp]: "distinct (names_at fs k)"
  by (simp add: names_at_def)

text \<open>The places at and below one, as a count: what a walk of the store has left to do.\<close>

definition places_below :: "file_system \<Rightarrow> str list \<Rightarrow> str list set" where
  "places_below fs k = {j \<in> fst ` set (nodes fs). prefix k j}"

lemma finite_places_below [simp]: "finite (places_below fs k)"
  by (simp add: places_below_def)

lemma places_below_children:
  assumes "distinct ns"
  shows "sum_list (map (\<lambda>n. card (places_below fs (k @ [n]))) ns) = card (\<Union>n \<in> set ns. places_below fs (k @ [n]))"
    and "(\<Union>n \<in> set ns. places_below fs (k @ [n])) \<subseteq> places_below fs k - {k}"
proof -
  have disj: "places_below fs (k @ [a]) \<inter> places_below fs (k @ [b]) = {}" if "a \<noteq> b" for a b
    using that by (auto simp: places_below_def prefix_def)
  show "sum_list (map (\<lambda>n. card (places_below fs (k @ [n]))) ns) = card (\<Union>n \<in> set ns. places_below fs (k @ [n]))"
    using assms
  proof (induction ns)
    case (Cons n ns)
    have "places_below fs (k @ [n]) \<inter> (\<Union>m \<in> set ns. places_below fs (k @ [m])) = {}"
    proof -
      have "places_below fs (k @ [n]) \<inter> places_below fs (k @ [m]) = {}" if "m \<in> set ns" for m
        using disj [of n m] that Cons.prems by auto
      then show ?thesis by blast
    qed
    with Cons show ?case by (simp add: card_Un_disjoint)
  qed simp
  show "(\<Union>n \<in> set ns. places_below fs (k @ [n])) \<subseteq> places_below fs k - {k}"
    by (auto simp: places_below_def prefix_def)
qed

lemma children_fewer:
  assumes "distinct ns" and "look fs k \<noteq> None"
  shows "sum_list (map (\<lambda>n. card (places_below fs (k @ [n]))) ns) < card (places_below fs k)"
proof -
  have "k \<in> places_below fs k"
    using assms(2) by (auto simp: places_below_def look_def dest: map_of_SomeD intro: rev_image_eqI)
  then have "card (places_below fs k - {k}) < card (places_below fs k)" by (meson card_Diff1_less finite_places_below)
  moreover have "card (\<Union>n \<in> set ns. places_below fs (k @ [n])) \<le> card (places_below fs k - {k})"
    by (rule card_mono [OF _ places_below_children(2) [OF assms(1)]]) simp
  ultimately show ?thesis using places_below_children(1) [OF assms(1)] by simp
qed

end
