(* ===== verification/Kam_Steam.thy ===== *)
theory Kam_Steam
  imports Kam_Env Kam_Links
begin

text \<open>
  Where Steam keeps its libraries and games, \<open>crates/kam-storage/src/steam.rs\<close>: the pairs of a
  line of its text format, the libraries the manifest names, and the installed games. What the
  registry holds as \<open>SteamPath\<close> is an argument.
\<close>

section \<open>Lines of quoted pairs\<close>

text \<open>\<open>str::lines\<close>: at line feeds, without a carriage return before one, and no empty last line.\<close>

definition drop_cr :: "str \<Rightarrow> str" where
  "drop_cr l = (if l \<noteq> [] \<and> last l = CHR 0x0D then butlast l else l)"

definition str_lines :: "str \<Rightarrow> str list" where
  "str_lines s =
     (let parts = split_on (\<lambda>c. c = CHR 0x0A) s
      in map drop_cr (butlast parts) @ (if last parts = [] then [] else [last parts]))"

text \<open>
  The loop over the quotes of a line: an opening quote without a closing one gives up on the line.
  \<open>Some\<close> of the tokens found otherwise, of which there are at most two.
\<close>

definition next_quoted :: "str \<Rightarrow> (str \<times> str) option option" where
  "next_quoted rest =
     (case split_once CHR 0x22 rest of
        None \<Rightarrow> Some None
      | Some (before, after) \<Rightarrow> map_option Some (split_once CHR 0x22 after))"

definition key_value :: "str \<Rightarrow> (str \<times> str) option" where
  "key_value line =
     (case next_quoted line of
        Some (Some (key, rest)) \<Rightarrow>
          (case next_quoted rest of Some (Some (v, behind)) \<Rightarrow> Some (key, v) | _ \<Rightarrow> None)
      | _ \<Rightarrow> None)"

definition eq_ignore_ascii_case :: "str \<Rightarrow> str \<Rightarrow> bool" where
  "eq_ignore_ascii_case a b \<longleftrightarrow> ascii_lower a = ascii_lower b"

fun find_map :: "('a \<Rightarrow> 'b option) \<Rightarrow> 'a list \<Rightarrow> 'b option" where
  "find_map f [] = None"
| "find_map f (x # xs) = (case f x of Some y \<Rightarrow> Some y | None \<Rightarrow> find_map f xs)"

definition find_value :: "str \<Rightarrow> str \<Rightarrow> str option" where
  "find_value txt wanted =
     find_map (\<lambda>line. case key_value line of
         Some (key, v) \<Rightarrow> if eq_ignore_ascii_case key wanted then Some v else None
       | None \<Rightarrow> None) (str_lines txt)"

section \<open>Libraries\<close>

definition tidy :: "str \<Rightarrow> str" where
  "tidy path = trim_end_matches is_backslash (slashes path)"

definition double_backslash :: str where "double_backslash = [CHR 0x5C, CHR 0x5C]"

fun add_library :: "str list \<Rightarrow> str \<Rightarrow> str list" where
  "add_library libraries line =
     (case key_value line of
        Some (key, v) \<Rightarrow>
          if eq_ignore_ascii_case key ''path''
          then (let path = tidy (replace_sub double_backslash [CHR 0x5C] v)
                in if list_ex (\<lambda>known. eq_ignore_ascii_case known path) libraries then libraries else libraries @ [path])
          else libraries
      | None \<Rightarrow> libraries)"

definition library_paths :: "file_system \<Rightarrow> str \<Rightarrow> str list" where
  "library_paths fs rt =
     (case read_text_at fs (path_join (path_join rt ''steamapps'') ''libraryfolders.vdf'') of
        Inl e \<Rightarrow> [tidy rt]
      | Inr txt \<Rightarrow> foldl add_library [tidy rt] (str_lines txt))"

definition library_roots :: "file_system \<Rightarrow> str option \<Rightarrow> str list" where
  "library_roots fs steam_path = (case steam_path of None \<Rightarrow> [] | Some rt \<Rightarrow> library_paths fs rt)"

section \<open>Games\<close>

record steam_app =
  sa_name :: str
  sa_path :: str
  sa_app_id :: str
  sa_last_played :: "nat option"

text \<open>\<open>str::parse::<u64>\<close>: at least one digit, an optional plus sign, and no overflow.\<close>

definition parse_u64 :: "str \<Rightarrow> nat option" where
  "parse_u64 s =
     (let digits = (case s of c # rest \<Rightarrow> if c = CHR ''+'' then rest else s | [] \<Rightarrow> [])
      in if digits \<noteq> [] \<and> list_all is_digit digits \<and> read_nat digits < 2 ^ 64 then Some (read_nat digits) else None)"

definition parse_u32 :: "str \<Rightarrow> nat option" where
  "parse_u32 s = (case parse_u64 s of Some n \<Rightarrow> if n < 2 ^ 32 then Some n else None | None \<Rightarrow> None)"

text \<open>\<open>trim_start_matches\<close> and \<open>trim_end_matches\<close> with a text take it away as often as it is there.\<close>

function strip_all :: "str \<Rightarrow> str \<Rightarrow> str" where
  "strip_all w s = (if w \<noteq> [] \<and> prefix w s then strip_all w (drop (length w) s) else s)"
  by pat_completeness auto
termination
proof (relation "measure (\<lambda>(w, s). length s)", goal_cases)
  case (2 w s)
  then show ?case by (cases s) auto
qed simp

declare strip_all.simps [simp del]

definition strip_all_end :: "str \<Rightarrow> str \<Rightarrow> str" where
  "strip_all_end w s = rev (strip_all (rev w) (rev s))"

definition game_of :: "file_system \<Rightarrow> str \<Rightarrow> str \<Rightarrow> steam_app option" where
  "game_of fs steamapps nm =
     (if \<not> prefix ''appmanifest_'' nm \<or> \<not> ends_with nm ''.acf'' then None
      else (case read_text_at fs (path_join steamapps nm) of
              Inl e \<Rightarrow> None
            | Inr txt \<Rightarrow>
              (case (find_value txt ''name'', find_value txt ''installdir'') of
                 (Some title, Some directory) \<Rightarrow>
                   Some \<lparr>sa_name = title, sa_path = path_join (path_join steamapps ''common'') directory,
                         sa_app_id = strip_all_end ''.acf'' (strip_all ''appmanifest_'' nm),
                         sa_last_played = (case Option.bind (find_value txt ''LastPlayed'') parse_u64 of
                            Some seconds \<Rightarrow> if 0 < seconds then Some seconds else None
                          | None \<Rightarrow> None)\<rparr>
               | _ \<Rightarrow> None)))"

definition library_games :: "file_system \<Rightarrow> str \<Rightarrow> steam_app list" where
  "library_games fs library =
     (let steamapps = path_join library ''steamapps''
      in case read_dir_at fs steamapps of
           Inl e \<Rightarrow> []
         | Inr names \<Rightarrow> List.map_filter (game_of fs steamapps) names)"

definition installed_games :: "file_system \<Rightarrow> str option \<Rightarrow> steam_app list" where
  "installed_games fs steam_path =
     (case steam_path of None \<Rightarrow> [] | Some rt \<Rightarrow> concat (map (library_games fs) (library_paths fs rt)))"

section \<open>One library, one entry\<close>

text \<open>The list of libraries never names one folder twice, whatever the manifest says.\<close>

lemma add_library_distinct: "distinct (map ascii_lower ls) \<Longrightarrow> distinct (map ascii_lower (add_library ls line))"
  by (auto simp: eq_ignore_ascii_case_def list_ex_iff image_iff Let_def split: option.split)

lemma library_paths_distinct: "distinct (map ascii_lower (library_paths fs rt))"
proof -
  have "distinct (map ascii_lower ls) \<Longrightarrow> distinct (map ascii_lower (foldl add_library ls lines))" for ls lines
    by (induction lines arbitrary: ls) (auto simp del: add_library.simps intro: add_library_distinct)
  then show ?thesis by (simp add: library_paths_def split: sum.split)
qed

text \<open>A line as Steam writes it reads back as its pair.\<close>

lemma key_value_written:
  assumes "CHR 0x22 \<notin> set indent" and "CHR 0x22 \<notin> set key" and "CHR 0x22 \<notin> set gap" and "CHR 0x22 \<notin> set v"
  shows "key_value (indent @ [CHR 0x22] @ key @ [CHR 0x22] @ gap @ [CHR 0x22] @ v @ [CHR 0x22] @ rest) = Some (key, v)"
  using assms by (simp add: key_value_def next_quoted_def split_once_append)

end
