(* ===== verification/Kam_Caches.thy ===== *)
theory Kam_Caches
  imports Kam_Steam
begin

text \<open>
  Caches and clearing them, \<open>crates/kam-storage/src/caches.rs\<close>. The state is the store of files;
  a path is resolved through every link on its way, and the last component is the object itself
  where the code opens it without following. A file that is held open is one whose removal fails.
  Sizes and counts are natural numbers.
\<close>

definition MAX_FILES_COUNTED :: nat where "MAX_FILES_COUNTED = 400000"

datatype cache_safety = Routine | Considered

record cache_location =
  cl_path :: str
  cl_bytes :: nat
  cl_files :: nat
  cl_partial :: bool

record cache_entry =
  ch_id :: str
  ch_name :: str
  ch_what :: str
  ch_cost :: str
  ch_safety :: cache_safety
  ch_locations :: "cache_location list"
  ch_bytes :: nat
  ch_files :: nat

record cleared =
  cd_id :: str
  cd_bytes_freed :: nat
  cd_files_removed :: nat
  cd_files_in_use :: nat
  cd_refused :: "str list"

section \<open>Where the caches are\<close>

record cache_machine =
  cm_env :: environment
  cm_lower :: "str \<Rightarrow> str"
  cm_steam :: "user_context \<Rightarrow> str option"

definition windir :: "cache_machine \<Rightarrow> str" where
  "windir cm = unwrap_or (slashes ''C:/Windows'') (env_lookup (cm_env cm) ''SystemRoot'')"

definition program_data :: "cache_machine \<Rightarrow> str" where
  "program_data cm = unwrap_or (slashes ''C:/ProgramData'') (env_lookup (cm_env cm) ''ProgramData'')"

definition system_drive :: "cache_machine \<Rightarrow> str" where
  "system_drive cm =
     trim_end_matches is_backslash (unwrap_or ''C:'' (env_lookup (cm_env cm) ''SystemDrive'')) @ [CHR 0x5C]"

definition browser_profiles :: "file_system \<Rightarrow> str \<Rightarrow> str list \<Rightarrow> str list" where
  "browser_profiles fs base subdirectories =
     (case read_dir_at fs base of
        Inl e \<Rightarrow> []
      | Inr names \<Rightarrow>
          concat (map (\<lambda>n. let item = path_join base n in
             if \<not> is_dir fs item then [] else filter (is_dir fs) (map (path_join item) subdirectories)) names))"

definition chromium_caches :: "cache_machine \<Rightarrow> file_system \<Rightarrow> str \<Rightarrow> str list" where
  "chromium_caches cm fs rt =
     (case read_dir_at fs rt of
        Inl e \<Rightarrow> []
      | Inr names \<Rightarrow>
          concat (map (\<lambda>n. let nm = cm_lower cm n in
             if \<not> (nm = ''default'' \<or> prefix ''profile '' nm \<or> nm = ''guest profile'') then []
             else filter (is_dir fs) (map (path_join (path_join rt n))
                    [''Cache'', ''Code Cache'', ''GPUCache'', slashes ''Service Worker/CacheStorage''])) names))"

definition CHROMIUM :: "str list" where
  "CHROMIUM =
     [slashes ''Google/Chrome/User Data'', slashes ''Microsoft/Edge/User Data'',
      slashes ''BraveSoftware/Brave-Browser/User Data'', slashes ''Vivaldi/User Data'',
      slashes ''Opera Software/Opera Stable'']"

definition browser_locations :: "cache_machine \<Rightarrow> file_system \<Rightarrow> user_context \<Rightarrow> str list" where
  "browser_locations cm fs user =
     (let local = local_app_data user; roaming = roaming_app_data user
      in concat (map (\<lambda>c. chromium_caches cm fs (path_join local c)) CHROMIUM)
         @ browser_profiles fs (path_join local (slashes ''Mozilla/Firefox/Profiles'')) [''cache2'', ''startupCache'']
         @ browser_profiles fs (path_join roaming (slashes ''Mozilla/Firefox/Profiles'')) [''cache2''])"

record catalogue_entry =
  ce_id :: str
  ce_name :: str
  ce_what :: str
  ce_cost :: str
  ce_safety :: cache_safety
  ce_locate :: "cache_machine \<Rightarrow> file_system \<Rightarrow> user_context \<Rightarrow> str list"

definition CATALOGUE :: "catalogue_entry list" where
  "CATALOGUE =
     [\<lparr>ce_id = ''temp-user'', ce_name = ''Your temporary files'',
       ce_what = ''Where installers unpack, programs write scratch files, and almost none of them tidy up afterwards. The oldest thing in here is usually years old.'',
       ce_cost = [], ce_safety = Routine,
       ce_locate = (\<lambda>cm fs user. [path_join (local_app_data user) ''Temp''])\<rparr>,
      \<lparr>ce_id = ''temp-system'', ce_name = ''The system temporary folder'',
       ce_what = ''The same thing for anything running as a service, plus what Windows setup leaves behind.'',
       ce_cost = [], ce_safety = Routine,
       ce_locate = (\<lambda>cm fs user. [path_join (windir cm) ''Temp''])\<rparr>,
      \<lparr>ce_id = ''windows-update'', ce_name = ''Windows Update downloads'',
       ce_what = ''Update packages Windows has already installed. It keeps them, and nothing removes them on its own.'',
       ce_cost = ''An update part-way through downloading starts again.'', ce_safety = Routine,
       ce_locate = (\<lambda>cm fs user. (let rt = path_join (windir cm) ''SoftwareDistribution''
         in [path_join rt ''Download'', path_join rt ''DeliveryOptimization'']))\<rparr>,
      \<lparr>ce_id = ''crash-dumps'', ce_name = ''Crash dumps'',
       ce_what = ''Memory written out when a program or the machine stopped. Individually enormous, and useful only to whoever was debugging it at the time.'',
       ce_cost = [], ce_safety = Routine,
       ce_locate = (\<lambda>cm fs user. [path_join (local_app_data user) ''CrashDumps'', path_join (windir cm) ''Minidump'',
         path_join (windir cm) ''LiveKernelReports''])\<rparr>,
      \<lparr>ce_id = ''error-reports'', ce_name = ''Error reports queued for Microsoft'',
       ce_what = ''Reports about crashes, waiting to be sent or already sent and kept.'',
       ce_cost = [], ce_safety = Routine,
       ce_locate = (\<lambda>cm fs user. (let wer = path_join (program_data cm) (slashes ''Microsoft/Windows/WER'')
         in [path_join wer ''ReportQueue'', path_join wer ''ReportArchive'', path_join wer ''Temp'']))\<rparr>,
      \<lparr>ce_id = ''thumbnails'', ce_name = ''Thumbnail and icon cache'',
       ce_what = ''Explorer's stored previews. It rebuilds them as you browse.'',
       ce_cost = ''Folders of photos redraw their previews the first time you open them.'', ce_safety = Routine,
       ce_locate = (\<lambda>cm fs user. [path_join (local_app_data user) (slashes ''Microsoft/Windows/Explorer'')])\<rparr>,
      \<lparr>ce_id = ''shader-cache'', ce_name = ''Graphics shader cache'',
       ce_what = ''Compiled shaders, kept by Windows and by the graphics driver so games do not recompile them every time.'',
       ce_cost = ''The first few minutes of a game may stutter while it rebuilds them.'', ce_safety = Considered,
       ce_locate = (\<lambda>cm fs user. map (path_join (local_app_data user))
         [''D3DSCache'', slashes ''NVIDIA/DXCache'', slashes ''NVIDIA/GLCache'', slashes ''AMD/DxCache'',
          slashes ''AMD/DxcCache'', slashes ''Intel/ShaderCache''])\<rparr>,
      \<lparr>ce_id = ''browser-cache'', ce_name = ''Browser caches'',
       ce_what = ''Pages, images and scripts your browsers keep so sites load faster. Every profile of every Chromium browser and Firefox found on this account.'',
       ce_cost = ''Sites reload from the network once. Nothing is signed out and no history or passwords are touched.'', ce_safety = Routine,
       ce_locate = (\<lambda>cm fs user. browser_locations cm fs user)\<rparr>,
      \<lparr>ce_id = ''package-caches'', ce_name = ''Developer package caches'',
       ce_what = ''Downloaded packages kept by npm, pip, NuGet and Cargo so they do not have to be fetched again. They grow without limit and nothing prunes them.'',
       ce_cost = ''The next build of anything that used them downloads again, and an offline build will fail until it has.'', ce_safety = Considered,
       ce_locate = (\<lambda>cm fs user. map (path_join (local_app_data user))
           [slashes ''npm-cache/_cacache'', slashes ''pip/Cache'', slashes ''NuGet/v3-cache'']
         @ map (path_join (uc_profile user)) [slashes ''.cargo/registry/cache'', slashes ''.nuget/packages''])\<rparr>,
      \<lparr>ce_id = ''steam-downloads'', ce_name = ''Steam download scratch'',
       ce_what = ''Part-finished downloads and Steam's own shader cache, in every library folder it knows about.'',
       ce_cost = ''A paused download restarts from the beginning.'', ce_safety = Considered,
       ce_locate = (\<lambda>cm fs user. concat (map (\<lambda>library. map (path_join (path_join library ''steamapps''))
           [''downloading'', ''temp'', ''shadercache'']) (library_roots fs (cm_steam cm user))))\<rparr>,
      \<lparr>ce_id = ''windows-old'', ce_name = ''The previous Windows installation'',
       ce_what = ''A complete copy of the Windows you upgraded from. Windows removes it by itself after ten days, and if it is still here, it did not.'',
       ce_cost = ''You can no longer roll back to the previous version of Windows.'', ce_safety = Considered,
       ce_locate = (\<lambda>cm fs user. [path_join (system_drive cm) ''Windows.old''])\<rparr>]"

section \<open>Measuring\<close>

text \<open>One item of a folder: a folder is put on the stack, a link is passed over, a file is counted.\<close>

definition spell :: "str list \<Rightarrow> str" where
  "spell k = join_with [CHR 0x5C] k"

definition measure_item ::
  "file_system \<Rightarrow> str list \<Rightarrow> str list list \<times> nat \<times> nat \<Rightarrow> str \<Rightarrow> str list list \<times> nat \<times> nat" where
  "measure_item fs k st n =
     (let (stack, bytes, files) = st in
      case look fs (k @ [n]) of
        Some DirNode \<Rightarrow> ((k @ [n]) # stack, bytes, files)
      | Some (FileNode contents) \<Rightarrow>
          if fault fs OpMetadata (spell (k @ [n])) = None then (stack, bytes + length contents, files + 1) else st
      | _ \<Rightarrow> st)"

text \<open>Listing the folder at a place of the store.\<close>

definition list_place :: "file_system \<Rightarrow> str list \<Rightarrow> str list option" where
  "list_place fs k =
     (if fault fs OpReadDir (spell k) = None \<and> look fs k = Some DirNode then Some (names_at fs k) else None)"

lemma measure_item_stack:
  "\<exists>ds. fst (foldl (measure_item fs k) (stack, b, f) ns) = map (\<lambda>n. k @ [n]) ds @ stack \<and> (\<exists>es. mset ds + mset es = mset ns)"
proof (induction ns arbitrary: stack b f)
  case (Cons n ns)
  obtain s1 b1 f1 where step: "measure_item fs k (stack, b, f) n = (s1, b1, f1)" by (cases "measure_item fs k (stack, b, f) n")
  obtain ds es where ds: "fst (foldl (measure_item fs k) (s1, b1, f1) ns) = map (\<lambda>n. k @ [n]) ds @ s1"
    "mset ds + mset es = mset ns" using Cons.IH by blast
  have "s1 = stack \<or> s1 = (k @ [n]) # stack"
    using step by (auto simp: measure_item_def split: option.splits fnode.splits if_splits)
  then show ?case
  proof
    assume "s1 = stack"
    with ds step have "fst (foldl (measure_item fs k) (stack, b, f) (n # ns)) = map (\<lambda>n. k @ [n]) ds @ stack
        \<and> mset ds + mset (n # es) = mset (n # ns)" by simp
    then show ?thesis by blast
  next
    assume "s1 = (k @ [n]) # stack"
    with ds step have "fst (foldl (measure_item fs k) (stack, b, f) (n # ns)) = map (\<lambda>n. k @ [n]) (ds @ [n]) @ stack
        \<and> mset (ds @ [n]) + mset es = mset (n # ns)" by simp
    then show ?thesis by blast
  qed
qed (rule exI [of _ "[]"], simp)

definition left_below :: "file_system \<Rightarrow> str list list \<Rightarrow> nat" where
  "left_below fs stack = sum_list (map (\<lambda>k. card (places_below fs k)) stack)"

lemma measure_less:
  assumes "list_place fs k = Some ns"
  shows "left_below fs (fst (foldl (measure_item fs k) (stack, b, f) ns)) < left_below fs (k # stack)"
proof -
  have ns: "ns = names_at fs k" "look fs k \<noteq> None" using assms by (auto simp: list_place_def split: if_splits)
  obtain ds es where ds: "fst (foldl (measure_item fs k) (stack, b, f) ns) = map (\<lambda>n. k @ [n]) ds @ stack"
    "mset ds + mset es = mset ns" using measure_item_stack by blast
  have "mset ds \<subseteq># mset (names_at fs k)" using ds(2) ns(1) by (metis mset_subset_eq_add_left)
  then have "distinct ds" by (metis distinct_names_at mset_subset_eq_multiset_union_diff_commute distinct_append mset_append
        subset_mset.add_diff_inverse mset_eq_imp_distinct_iff ex_mset)
  then have "sum_list (map (\<lambda>n. card (places_below fs (k @ [n]))) ds) < card (places_below fs k)"
    by (rule children_fewer [OF _ ns(2)])
  then show ?thesis by (simp add: ds left_below_def comp_def)
qed

function measure_loop :: "file_system \<Rightarrow> str list list \<Rightarrow> nat \<Rightarrow> nat \<Rightarrow> nat \<times> nat \<times> bool" where
  "measure_loop fs [] bytes files = (bytes, files, False)"
| "measure_loop fs (k # stack) bytes files =
     (if MAX_FILES_COUNTED \<le> files then (bytes, files, True)
      else (case list_place fs k of
              None \<Rightarrow> measure_loop fs stack bytes files
            | Some ns \<Rightarrow>
                (let st = foldl (measure_item fs k) (stack, bytes, files) ns
                 in measure_loop fs (fst st) (fst (snd st)) (snd (snd st)))))"
  by pat_completeness auto
termination
proof (relation "measures [\<lambda>(fs, stack, b, f). left_below fs stack, \<lambda>(fs, stack, b, f). length stack]", goal_cases)
  case (2 fs k stack bytes files)
  then show ?case by (auto simp: left_below_def)
next
  case (3 fs k stack bytes files ns st)
  then show ?case using measure_less [of fs k ns stack bytes files] by (simp add: case_prod_unfold)
qed simp

definition measure_place :: "file_system \<Rightarrow> str list \<Rightarrow> nat \<times> nat \<times> bool" where
  "measure_place fs k = measure_loop fs [k] 0 0"

section \<open>What is offered\<close>

definition ours_to_empty :: "file_system \<Rightarrow> str \<Rightarrow> bool" where
  "ours_to_empty fs path \<longleftrightarrow> object_metadata fs path = Inr DirNode"

definition measure_path :: "file_system \<Rightarrow> str \<Rightarrow> nat \<times> nat \<times> bool" where
  "measure_path fs path = (case place_at fs path of None \<Rightarrow> (0, 0, False) | Some k \<Rightarrow> measure_place fs k)"

definition cache_location_of :: "file_system \<Rightarrow> str \<Rightarrow> cache_location option" where
  "cache_location_of fs path =
     (if \<not> ours_to_empty fs path then None
      else (let (bytes, files, partial) = measure_path fs path
            in if files = 0 then None else Some \<lparr>cl_path = path, cl_bytes = bytes, cl_files = files, cl_partial = partial\<rparr>))"

definition build_cache :: "cache_machine \<Rightarrow> file_system \<Rightarrow> user_context \<Rightarrow> catalogue_entry \<Rightarrow> cache_entry option" where
  "build_cache cm fs user e =
     (let locations = List.map_filter (cache_location_of fs) (ce_locate e cm fs user)
      in if locations = [] then None
         else Some \<lparr>ch_id = ce_id e, ch_name = ce_name e, ch_what = ce_what e, ch_cost = ce_cost e,
                    ch_safety = ce_safety e, ch_locations = locations,
                    ch_bytes = sum_list (map cl_bytes locations), ch_files = sum_list (map cl_files locations)\<rparr>)"

definition survey_caches :: "cache_machine \<Rightarrow> file_system \<Rightarrow> user_context \<Rightarrow> cache_entry list" where
  "survey_caches cm fs user = sort_desc_by ch_bytes (List.map_filter (build_cache cm fs user) CATALOGUE)"

section \<open>Emptying\<close>

text \<open>The standard library's removals at a place of the store. A whole folder goes from its deepest
  places upwards, a link as a link, and stops at the first that will not go.\<close>

definition remove_place :: "str list \<Rightarrow> file_system \<Rightarrow> (io_error + unit) \<times> file_system" where
  "remove_place k fs =
     (case fault fs OpRemove (spell k) of
        Some e \<Rightarrow> (Inl e, fs)
      | None \<Rightarrow> (Inr (), fs\<lparr>nodes := filter (\<lambda>(j, v). j \<noteq> k) (nodes fs)\<rparr>))"

fun remove_places :: "str list list \<Rightarrow> file_system \<Rightarrow> (io_error + unit) \<times> file_system" where
  "remove_places [] fs = (Inr (), fs)"
| "remove_places (k # ks) fs =
     (case remove_place k fs of (Inl e, fs) \<Rightarrow> (Inl e, fs) | (Inr u, fs) \<Rightarrow> remove_places ks fs)"

definition deepest_first :: "file_system \<Rightarrow> str list \<Rightarrow> str list list" where
  "deepest_first fs k = sort_desc_by length (remdups (filter (prefix k) (map fst (nodes fs))))"

definition remove_whole :: "str list \<Rightarrow> file_system \<Rightarrow> (io_error + unit) \<times> file_system" where
  "remove_whole k fs = remove_places (deepest_first fs k) fs"

text \<open>\<open>HeldRoot::open\<close>: the folder is opened as the object it is, and only a real folder is held.\<close>

definition held_root :: "file_system \<Rightarrow> str \<Rightarrow> str + str list" where
  "held_root fs path =
     (case object_at fs path of
        None \<Rightarrow> Inl (path @ '' could not be opened: '' @ io_error_text not_found)
      | Some k \<Rightarrow>
        (case fault fs OpRead path of
           Some e \<Rightarrow> Inl (path @ '' could not be opened: '' @ io_error_text e)
         | None \<Rightarrow>
           (case look fs k of
              None \<Rightarrow> Inl (path @ '' could not be opened: '' @ io_error_text not_found)
            | Some v \<Rightarrow>
              (case fault fs OpMetadata path of
                 Some e \<Rightarrow> Inl (path @ '' could not be read: '' @ io_error_text e)
               | None \<Rightarrow>
                 (case v of
                    LinkNode t \<Rightarrow> Inl (path @ '' is a link rather than a real folder, so it was left alone'')
                  | FileNode c \<Rightarrow> Inl (path @ '' is not a folder, so it was left alone'')
                  | DirNode \<Rightarrow> Inr k)))))"

definition add_refused :: "str \<Rightarrow> cleared \<Rightarrow> cleared" where
  "add_refused why r = r\<lparr>cd_refused := cd_refused r @ [why]\<rparr>"

definition empty_folder_item :: "str list \<Rightarrow> cleared \<Rightarrow> file_system \<Rightarrow> cleared \<times> file_system" where
  "empty_folder_item k r fs =
     (let (bytes, files, partial) = measure_place fs k in
      case remove_whole k fs of
        (Inr u, fs) \<Rightarrow> (r\<lparr>cd_bytes_freed := cd_bytes_freed r + bytes, cd_files_removed := cd_files_removed r + files\<rparr>, fs)
      | (Inl e, fs) \<Rightarrow>
        (let (left_bytes, left_files, partial) = measure_place fs k;
             r = r\<lparr>cd_bytes_freed := cd_bytes_freed r + (bytes - left_bytes),
                   cd_files_removed := cd_files_removed r + (files - left_files),
                   cd_files_in_use := cd_files_in_use r + left_files\<rparr>
         in (if left_files = 0 then add_refused (spell k @ '': '' @ io_error_text e) r else r, fs)))"

definition empty_item :: "str list \<Rightarrow> cleared \<times> file_system \<Rightarrow> str \<Rightarrow> cleared \<times> file_system" where
  "empty_item k st n =
     (let (r, fs) = st; target = k @ [n] in
      case look fs target of
        None \<Rightarrow> st
      | Some (LinkNode t) \<Rightarrow> (r, snd (remove_place target fs))
      | Some DirNode \<Rightarrow> empty_folder_item target r fs
      | Some (FileNode contents) \<Rightarrow>
        (let size = (if fault fs OpMetadata (spell target) = None then length contents else 0)
         in case remove_place target fs of
              (Inr u, fs) \<Rightarrow> (r\<lparr>cd_bytes_freed := cd_bytes_freed r + size, cd_files_removed := cd_files_removed r + 1\<rparr>, fs)
            | (Inl e, fs) \<Rightarrow> (r\<lparr>cd_files_in_use := cd_files_in_use r + 1\<rparr>, fs)))"

definition empty_place :: "str \<Rightarrow> str list \<Rightarrow> cleared \<times> file_system \<Rightarrow> cleared \<times> file_system" where
  "empty_place path k st =
     (case list_place (snd st) k of
        None \<Rightarrow> (add_refused (path @ '' could not be opened'') (fst st), snd st)
      | Some ns \<Rightarrow> foldl (empty_item k) st ns)"

definition empty_root :: "cleared \<times> file_system \<Rightarrow> str \<Rightarrow> cleared \<times> file_system" where
  "empty_root st path =
     (case held_root (snd st) path of
        Inl refusal \<Rightarrow> (add_refused refusal (fst st), snd st)
      | Inr k \<Rightarrow> empty_place path k st)"

definition clear_location :: "cleared \<times> file_system \<Rightarrow> str \<Rightarrow> cleared \<times> file_system" where
  "clear_location st path = (case object_metadata (snd st) path of Inl e \<Rightarrow> st | Inr v \<Rightarrow> empty_root st path)"

definition no_clearing :: "str \<Rightarrow> cleared" where
  "no_clearing id_text = \<lparr>cd_id = id_text, cd_bytes_freed = 0, cd_files_removed = 0, cd_files_in_use = 0, cd_refused = []\<rparr>"

definition clear_cache ::
  "cache_machine \<Rightarrow> str \<Rightarrow> user_context \<Rightarrow> file_system \<Rightarrow> (str + cleared) \<times> file_system" where
  "clear_cache cm id_text user fs =
     (case find (\<lambda>e. ce_id e = id_text) CATALOGUE of
        None \<Rightarrow> (Inl (id_text @ '' is not something this knows how to clear''), fs)
      | Some e \<Rightarrow>
        (let (r, fs') = foldl clear_location (no_clearing id_text, fs) (ce_locate e cm fs user)
         in (Inr r, fs')))"

section \<open>Who may clear\<close>

definition inside_profile :: "str \<Rightarrow> str \<Rightarrow> bool" where
  "inside_profile profile location \<longleftrightarrow>
     location = profile \<or> (case strip_prefix profile location of None \<Rightarrow> False | Some rest \<Rightarrow> prefix [CHR 0x5C] rest)"

definition is_machine_wide :: "cache_machine \<Rightarrow> file_system \<Rightarrow> str \<Rightarrow> user_context \<Rightarrow> bool" where
  "is_machine_wide cm fs id_text user =
     (case find (\<lambda>e. ce_id e = id_text) CATALOGUE of
        None \<Rightarrow> True
      | Some e \<Rightarrow>
        (let profile = trim_end_matches is_backslash (slashes (cm_lower cm (uc_profile user)))
         in list_ex (\<lambda>location. \<not> inside_profile profile (slashes (cm_lower cm location))) (ce_locate e cm fs user)))"

definition known_ids :: "str list" where
  "known_ids = map ce_id CATALOGUE"

end
