(* ===== verification/Kam_Caches_Safe.thy ===== *)
theory Kam_Caches_Safe
  imports Kam_Caches
begin

text \<open>
  What clearing a cache can reach: only what lies strictly inside one of the folders of the
  catalogue, and for a caller without administrator rights only what lies in that caller's own
  profile. Both rest on the way to the folders having no link in it, which the code checks only
  for the folder itself.
\<close>

section \<open>Removals below a place\<close>

text \<open>Something below \<open>k\<close>, or \<open>k\<close> itself, is gone, and nothing else has changed.\<close>

definition thinned :: "(str list \<Rightarrow> bool) \<Rightarrow> file_system \<Rightarrow> file_system \<Rightarrow> bool" where
  "thinned region fs fs' \<longleftrightarrow>
     fault fs' = fault fs \<and> (\<forall>k. look fs' k = look fs k \<or> (region k \<and> look fs' k = None))"

lemma thinned_refl [simp]: "thinned region fs fs"
  by (simp add: thinned_def)

lemma thinned_trans: "thinned region a b \<Longrightarrow> thinned region b c \<Longrightarrow> thinned region a c"
  by (auto simp: thinned_def) metis+

lemma thinned_mono: "thinned region a b \<Longrightarrow> (\<And>k. region k \<Longrightarrow> region' k) \<Longrightarrow> thinned region' a b"
  by (auto simp: thinned_def)

lemma thinned_remove_place: "region k \<Longrightarrow> thinned region fs (snd (remove_place k fs))"
  by (auto simp: remove_place_def thinned_def look_def map_of_filter_keys [of "\<lambda>j. j \<noteq> k"] split: option.split)

lemma thinned_remove_places: "list_all region ks \<Longrightarrow> thinned region fs (snd (remove_places ks fs))"
proof (induction ks arbitrary: fs)
  case (Cons k ks)
  have one: "thinned region fs (snd (remove_place k fs))" using Cons.prems by (intro thinned_remove_place) simp
  show ?case
  proof (cases "remove_place k fs")
    case (Pair r fs1)
    with one Cons.IH [of fs1] Cons.prems show ?thesis
      by (cases r) (auto intro: thinned_trans)
  qed
qed simp

lemma thinned_remove_whole: "(\<And>j. prefix k j \<Longrightarrow> region j) \<Longrightarrow> thinned region fs (snd (remove_whole k fs))"
  unfolding remove_whole_def by (intro thinned_remove_places) (auto simp: list_all_iff deepest_first_def)

lemma thinned_empty_item:
  assumes "\<And>j. prefix (k @ [n]) j \<Longrightarrow> region j"
  shows "thinned region fs (snd (empty_item k (r, fs) n))"
proof -
  have own: "region (k @ [n])" by (rule assms) simp
  have place: "remove_place (k @ [n]) fs = (res, fs1) \<Longrightarrow> thinned region fs fs1" for res fs1
    using thinned_remove_place [of region "k @ [n]" fs] own by simp
  have whole: "remove_whole (k @ [n]) fs = (res, fs1) \<Longrightarrow> thinned region fs fs1" for res fs1
    using thinned_remove_whole [of "k @ [n]" region fs] assms by simp
  show ?thesis
    using thinned_remove_place [of region "k @ [n]" fs] own
    by (auto simp: empty_item_def empty_folder_item_def Let_def split: option.split fnode.split prod.split sum.split
        dest: place whole)
qed

definition strictly_below :: "str list \<Rightarrow> str list \<Rightarrow> bool" where
  "strictly_below k j \<longleftrightarrow> strict_prefix k j"

lemma strictly_below_child: "prefix (k @ [n]) j \<Longrightarrow> strictly_below k j"
  by (auto simp: strictly_below_def prefix_def strict_prefix_def)

lemma thinned_empty_place: "thinned (strictly_below k) (snd st) (snd (empty_place path k st))"
proof -
  have "thinned (strictly_below k) fs (snd (foldl (empty_item k) (r, fs) ns))" for ns r fs
  proof (induction ns arbitrary: r fs)
    case (Cons n ns)
    obtain r1 fs1 where step: "empty_item k (r, fs) n = (r1, fs1)" by (cases "empty_item k (r, fs) n")
    have "thinned (strictly_below k) fs fs1"
      using thinned_empty_item [of k n "strictly_below k" fs r, OF strictly_below_child] step by simp
    with Cons.IH [where fs = fs1 and r = r1] step show ?case by (auto intro: thinned_trans)
  qed simp
  from this [where fs = "snd st" and r = "fst st"] show ?thesis by (simp add: empty_place_def split: option.split)
qed

section \<open>The folders of the catalogue\<close>

text \<open>A way without links stays one when things are removed.\<close>

lemma straight_thinned: "thinned region fs fs' \<Longrightarrow> straight fs k \<Longrightarrow> straight fs' k"
  unfolding thinned_def straight_def by (metis option.distinct(1))

definition plain_way :: "file_system \<Rightarrow> str \<Rightarrow> bool" where
  "plain_way fs path \<longleftrightarrow> straight fs (key_of path) \<and> length (key_of path) < LINK_STEPS"

definition inside_any :: "str list \<Rightarrow> str list \<Rightarrow> bool" where
  "inside_any paths k \<longleftrightarrow> (\<exists>path \<in> set paths. strictly_below (key_of path) k)"

lemma thinned_clear_location:
  assumes "plain_way (snd st) path" and "\<And>k. strictly_below (key_of path) k \<Longrightarrow> region k"
  shows "thinned region (snd st) (snd (clear_location st path))"
proof -
  have "thinned (strictly_below k) (snd st) (snd (empty_place path k st))" if "held_root (snd st) path = Inr k" for k
    by (rule thinned_empty_place)
  moreover have "k = key_of path" if "held_root (snd st) path = Inr k" for k
    using that object_at_straight [of "snd st" path] assms(1)
    by (auto simp: held_root_def plain_way_def split: option.splits fnode.splits)
  ultimately show ?thesis
    using assms(2) by (auto simp: clear_location_def empty_root_def split: sum.split intro: thinned_mono)
qed

lemma thinned_clear_locations:
  "\<forall>path \<in> set paths. plain_way fs path \<Longrightarrow> set paths \<subseteq> set all \<Longrightarrow>
     thinned (inside_any all) fs (snd (foldl clear_location (r, fs) paths))"
proof (induction paths arbitrary: r fs)
  case (Cons path paths)
  obtain r1 fs1 where step: "clear_location (r, fs) path = (r1, fs1)" by (cases "clear_location (r, fs) path")
  have one: "thinned (inside_any all) fs fs1"
    using thinned_clear_location [of "(r, fs)" path "inside_any all"] Cons.prems step by (auto simp: inside_any_def)
  then have "\<forall>path \<in> set paths. plain_way fs1 path"
    using Cons.prems(1) straight_thinned [OF one] by (auto simp: plain_way_def)
  with Cons.IH [where fs = fs1 and r = r1] Cons.prems(2) one step show ?case by (auto intro: thinned_trans)
qed simp

text \<open>The paths an identifier stands for; none when the catalogue does not have it.\<close>

definition locations_of :: "cache_machine \<Rightarrow> file_system \<Rightarrow> str \<Rightarrow> user_context \<Rightarrow> str list" where
  "locations_of cm fs id_text user =
     (case find (\<lambda>e. ce_id e = id_text) CATALOGUE of None \<Rightarrow> [] | Some e \<Rightarrow> ce_locate e cm fs user)"

text \<open>C21: clearing a cache reaches only what is inside the folders of the compiled-in catalogue. When no
  link is on the way to them, every place of the disk is as it was, or is gone and lay strictly
  below one of those folders; the folders themselves stay, links inside are taken away without
  what they lead to, and an identifier the catalogue does not have changes nothing and is refused.\<close>

theorem clearing_stays_inside:
  assumes "\<forall>path \<in> set (locations_of cm fs id_text user). plain_way fs path"
  shows "(look (snd (clear_cache cm id_text user fs)) k = look fs k
      \<or> (look (snd (clear_cache cm id_text user fs)) k = None \<and> inside_any (locations_of cm fs id_text user) k))
    \<and> (id_text \<notin> set known_ids \<longrightarrow> snd (clear_cache cm id_text user fs) = fs
        \<and> (\<exists>why. fst (clear_cache cm id_text user fs) = Inl why))"
proof
  show "look (snd (clear_cache cm id_text user fs)) k = look fs k
      \<or> (look (snd (clear_cache cm id_text user fs)) k = None \<and> inside_any (locations_of cm fs id_text user) k)"
  proof (cases "find (\<lambda>e. ce_id e = id_text) CATALOGUE")
    case (Some e)
    then have l: "locations_of cm fs id_text user = ce_locate e cm fs user" by (simp add: locations_of_def)
    have "thinned (inside_any (ce_locate e cm fs user)) fs
        (snd (foldl clear_location (no_clearing id_text, fs) (ce_locate e cm fs user)))"
      using assms l by (intro thinned_clear_locations) simp_all
    then show ?thesis using Some by (auto simp: clear_cache_def thinned_def l case_prod_unfold Let_def)
  qed (simp add: clear_cache_def)
  have "find (\<lambda>e. ce_id e = id_text) CATALOGUE = None" if "id_text \<notin> set known_ids"
    using that by (auto simp: find_None_iff known_ids_def)
  then show "id_text \<notin> set known_ids \<longrightarrow> snd (clear_cache cm id_text user fs) = fs
        \<and> (\<exists>why. fst (clear_cache cm id_text user fs) = Inl why)"
    by (simp add: clear_cache_def)
qed

section \<open>The caller's own profile\<close>

lemma key_of_append_sep: "is_path_separator c \<Longrightarrow> key_of (base @ c # s) = normalise (key_of base) (split_on is_path_separator s)"
  by (simp add: key_of_def split_on_snoc normalise_append)

lemma normalise_prefix: "''..'' \<notin> set cs \<Longrightarrow> prefix acc (normalise acc cs)"
proof (induction cs arbitrary: acc)
  case (Cons c cs)
  then have "prefix (acc @ [ascii_lower c]) (normalise (acc @ [ascii_lower c]) cs)" by simp
  then have "prefix acc (normalise (acc @ [ascii_lower c]) cs)" by (auto simp: prefix_def)
  moreover have "c \<noteq> ''..''" using Cons.prems by auto
  ultimately show ?case using Cons by simp
qed simp

text \<open>What \<open>to_lowercase\<close> is relied on for: it does not change which place a path names.\<close>

definition lower_keeps_places :: "(str \<Rightarrow> str) \<Rightarrow> bool" where
  "lower_keeps_places lower \<longleftrightarrow> (\<forall>s. key_of (slashes (lower s)) = key_of s)"

lemma split_on_slashes: "split_on is_path_separator (slashes s) = split_on is_path_separator s"
  by (induction s) (auto simp: slashes_def is_path_separator_def split: list.splits)

lemma key_of_slashes [simp]: "key_of (slashes s) = key_of s"
  by (simp add: key_of_def split_on_slashes)

lemma key_of_trim: "key_of (trim_end_matches is_backslash s) = key_of s"
proof (induction s rule: rev_induct)
  case (snoc c s)
  then show ?case
    by (cases "is_backslash c")
      (auto simp: trim_end_matches_def is_backslash_def key_of_trailing)
qed (simp add: trim_end_matches_def)

definition no_upward_step :: "str \<Rightarrow> bool" where
  "no_upward_step path \<longleftrightarrow> ''..'' \<notin> set (split_on is_path_separator path)"

lemma inside_profile_key:
  assumes "inside_profile (trim_end_matches is_backslash (slashes (lower profile))) (slashes (lower path))"
    and "lower_keeps_places lower" and "no_upward_step (slashes (lower path))"
  shows "prefix (key_of profile) (key_of path)"
proof -
  let ?p = "trim_end_matches is_backslash (slashes (lower profile))"
  have p: "key_of ?p = key_of profile" using assms(2) by (simp add: key_of_trim lower_keeps_places_def)
  have path: "key_of (slashes (lower path)) = key_of path" using assms(2) by (simp add: lower_keeps_places_def)
  from assms(1) show ?thesis
  proof (unfold inside_profile_def, elim disjE)
    assume "slashes (lower path) = ?p"
    with p path show ?thesis by simp
  next
    assume "case strip_prefix ?p (slashes (lower path)) of None \<Rightarrow> False | Some rest \<Rightarrow> prefix [CHR 0x5C] rest"
    then obtain rest where l: "slashes (lower path) = ?p @ CHR 0x5C # rest"
      by (auto simp: strip_prefix_Some prefix_def split: option.splits)
    have "''..'' \<notin> set (split_on is_path_separator rest)"
      using assms(3) unfolding no_upward_step_def l by (simp add: split_on_snoc is_path_separator_def)
    from normalise_prefix [OF this, of "key_of ?p"] key_of_append_sep [of "CHR 0x5C" ?p rest] p path l
    show ?thesis by (simp add: is_path_separator_def)
  qed
qed

text \<open>A caller without administrator rights clears only what is in the caller's own profile. When a
  cache is not machine-wide for a caller, no link is on the way to its folders and none of them is
  spelled with an upward step, every place that clearing takes away lies strictly below the profile.\<close>

theorem ordinary_clear_stays_in_profile:
  assumes "\<not> is_machine_wide cm fs id_text user" and "lower_keeps_places (cm_lower cm)"
    and "\<forall>path \<in> set (locations_of cm fs id_text user). plain_way fs path \<and> no_upward_step (slashes (cm_lower cm path))"
    and "look (snd (clear_cache cm id_text user fs)) k \<noteq> look fs k"
  shows "look (snd (clear_cache cm id_text user fs)) k = None \<and> strict_prefix (key_of (uc_profile user)) k"
proof -
  obtain e where e: "find (\<lambda>e. ce_id e = id_text) CATALOGUE = Some e"
    using assms(1) by (auto simp: is_machine_wide_def split: option.splits)
  then have l: "locations_of cm fs id_text user = ce_locate e cm fs user" by (simp add: locations_of_def)
  have gone: "look (snd (clear_cache cm id_text user fs)) k = None" "inside_any (ce_locate e cm fs user) k"
    using clearing_stays_inside [of cm fs id_text user k] assms(3,4) l by auto
  then obtain path where path: "path \<in> set (ce_locate e cm fs user)" "strict_prefix (key_of path) k"
    by (auto simp: inside_any_def strictly_below_def)
  have "inside_profile (trim_end_matches is_backslash (slashes (cm_lower cm (uc_profile user)))) (slashes (cm_lower cm path))"
    using assms(1) e path(1) by (simp add: is_machine_wide_def Let_def list_ex_iff)
  from inside_profile_key [OF this assms(2)] assms(3) l path
  have "prefix (key_of (uc_profile user)) (key_of path)" by simp
  then have "strict_prefix (key_of (uc_profile user)) k"
    using path(2) by (auto simp: prefix_def strict_prefix_def)
  with gone(1) show ?thesis by simp
qed

section \<open>A link on the way\<close>

text \<open>
  Without the condition on the way the confinement is lost: the folder itself is opened as what it
  is, but a link above it is followed, and the folder's text is still inside the profile.
\<close>

definition linked_disk :: file_system where
  "linked_disk =
     \<lparr>nodes = [([''c:''], DirNode), ([''c:'', ''users''], DirNode), ([''c:'', ''users'', ''ari''], DirNode),
        ([''c:'', ''users'', ''ari'', ''.nuget''], LinkNode (slashes ''C:/Tool'')),
        ([''c:'', ''tool''], DirNode), ([''c:'', ''tool'', ''packages''], DirNode),
        ([''c:'', ''tool'', ''packages'', ''core.dll''], FileNode ''code'')],
      fault = \<lambda>oper path. None, canonical = \<lambda>path. Inr path\<rparr>"

definition plain_machine :: cache_machine where
  "plain_machine = \<lparr>cm_env = [], cm_lower = ascii_lower, cm_steam = \<lambda>user. None\<rparr>"

lemma linked_way_empties_elsewhere:
  "\<not> is_machine_wide plain_machine linked_disk ''package-caches'' user_ari
   \<and> look linked_disk [''c:'', ''tool'', ''packages'', ''core.dll''] = Some (FileNode ''code'')
   \<and> look (snd (clear_cache plain_machine ''package-caches'' user_ari linked_disk))
       [''c:'', ''tool'', ''packages'', ''core.dll''] = None"
  by code_simp

section \<open>A temporary folder\<close>

lemma ascii_lower_char_cases: "ascii_lower_char c = c \<or> (65 \<le> (of_char c :: nat) \<and> (of_char c :: nat) \<le> 90
    \<and> (of_char (ascii_lower_char c) :: nat) = of_char c + 32)"
  by (auto simp: ascii_lower_char_def Let_def of_char_of take_bit_eq_mod)

lemma ascii_lower_char_fixed:
  assumes "(of_char d :: nat) < 65"
  shows "ascii_lower_char c = d \<longleftrightarrow> c = d"
  using ascii_lower_char_cases [of c] ascii_lower_char_cases [of d] assms by auto

lemma ascii_lower_char_backslash: "ascii_lower_char c = CHR 0x5C \<longleftrightarrow> c = CHR 0x5C"
proof -
  have "(of_char (CHR 0x5C) :: nat) = 92" "ascii_lower_char (CHR 0x5C) = CHR 0x5C" by (simp_all add: ascii_lower_char_def)
  moreover have "(of_char c :: nat) \<noteq> 60 \<or> \<not> 65 \<le> (of_char c :: nat)" by simp
  ultimately show ?thesis using ascii_lower_char_cases [of c] by auto
qed

lemma split_on_lower: "split_on is_path_separator (ascii_lower s) = map ascii_lower (split_on is_path_separator s)"
proof (induction s)
  case (Cons c s)
  have "is_path_separator (ascii_lower_char c) = is_path_separator c"
    by (simp add: is_path_separator_def ascii_lower_char_backslash ascii_lower_char_fixed)
  with Cons show ?case by (cases "split_on is_path_separator s") (auto simp: ascii_lower_def)
qed (simp add: ascii_lower_def)

lemma ascii_lower_twice [simp]: "ascii_lower (ascii_lower s) = ascii_lower s"
proof -
  have "ascii_lower_char (ascii_lower_char c) = ascii_lower_char c" for c
    using ascii_lower_char_cases [of c] ascii_lower_char_cases [of "ascii_lower_char c"] by auto
  then show ?thesis by (simp add: ascii_lower_def)
qed

lemma normalise_lower: "normalise acc (map ascii_lower cs) = normalise acc cs"
proof (induction cs arbitrary: acc)
  case (Cons c cs)
  have "ascii_lower c = [] \<longleftrightarrow> c = []" "ascii_lower c = ''.'' \<longleftrightarrow> c = ''.''" "ascii_lower c = ''..'' \<longleftrightarrow> c = ''..''"
    by (auto simp: ascii_lower_def map_eq_Cons_conv ascii_lower_char_fixed)
  with Cons show ?case by simp
qed simp

lemma ascii_lower_keeps_places: "lower_keeps_places ascii_lower"
  by (simp add: lower_keeps_places_def) (simp add: key_of_def split_on_lower normalise_lower)

definition temp_disk :: file_system where
  "temp_disk =
     \<lparr>nodes = [([''c:''], DirNode), ([''c:'', ''users''], DirNode), ([''c:'', ''users'', ''ari''], DirNode),
        ([''c:'', ''users'', ''ari'', ''appdata''], DirNode), ([''c:'', ''users'', ''ari'', ''appdata'', ''local''], DirNode),
        ([''c:'', ''users'', ''ari'', ''appdata'', ''local'', ''temp''], DirNode),
        ([''c:'', ''users'', ''ari'', ''appdata'', ''local'', ''temp'', ''a.tmp''], FileNode ''old''),
        ([''c:'', ''users'', ''ari'', ''note''], FileNode ''keep'')],
      fault = \<lambda>oper path. None, canonical = \<lambda>path. Inr path\<rparr>"

lemma temp_locations: "locations_of plain_machine temp_disk ''temp-user'' user_ari = [slashes ''C:/Users/ari/AppData/Local/Temp'']"
  by code_simp

lemma temp_way: "\<forall>path \<in> set (locations_of plain_machine temp_disk ''temp-user'' user_ari). plain_way temp_disk path"
proof -
  have k: "key_of (slashes ''C:/Users/ari/AppData/Local/Temp'')
      = [''c:'', ''users'', ''ari'', ''appdata'', ''local'', ''temp'']" by code_simp
  have "\<forall>i \<in> {1, 2, 3, 4, 5}. look temp_disk (take i [''c:'', ''users'', ''ari'', ''appdata'', ''local'', ''temp'']) = Some DirNode"
    by code_simp
  then have "look temp_disk (take i [''c:'', ''users'', ''ari'', ''appdata'', ''local'', ''temp'']) = Some DirNode"
    if "0 < i" "i < 6" for i
    using that by (auto simp: less_Suc_eq numeral_eq_Suc)
  then have "plain_way temp_disk (slashes ''C:/Users/ari/AppData/Local/Temp'')"
    unfolding plain_way_def straight_def k by (auto simp: LINK_STEPS_def)
  then show ?thesis unfolding temp_locations by simp
qed

theorem clearing_stays_inside_witness:
  "look (snd (clear_cache plain_machine ''temp-user'' user_ari temp_disk)) [''c:'', ''users'', ''ari'', ''note'']
     = Some (FileNode ''keep'')"
proof -
  have "\<not> inside_any (locations_of plain_machine temp_disk ''temp-user'' user_ari) [''c:'', ''users'', ''ari'', ''note'']"
    unfolding temp_locations by code_simp
  with clearing_stays_inside [OF temp_way, of "[''c:'', ''users'', ''ari'', ''note'']"] show ?thesis
    by (simp add: look_def temp_disk_def)
qed

theorem ordinary_clear_stays_in_profile_witness:
  "strict_prefix (key_of (slashes ''C:/Users/ari'')) [''c:'', ''users'', ''ari'', ''appdata'', ''local'', ''temp'', ''a.tmp'']"
proof -
  have "uc_profile user_ari = slashes ''C:/Users/ari''" by (simp add: user_ari_def)
  moreover have "look (snd (clear_cache plain_machine ''temp-user'' user_ari temp_disk))
        [''c:'', ''users'', ''ari'', ''appdata'', ''local'', ''temp'', ''a.tmp''] = None
      \<and> strict_prefix (key_of (uc_profile user_ari)) [''c:'', ''users'', ''ari'', ''appdata'', ''local'', ''temp'', ''a.tmp'']"
  proof (rule ordinary_clear_stays_in_profile)
    show "\<not> is_machine_wide plain_machine temp_disk ''temp-user'' user_ari" by code_simp
    show "lower_keeps_places (cm_lower plain_machine)" by (simp add: plain_machine_def ascii_lower_keeps_places)
    show "look (snd (clear_cache plain_machine ''temp-user'' user_ari temp_disk))
        [''c:'', ''users'', ''ari'', ''appdata'', ''local'', ''temp'', ''a.tmp'']
      \<noteq> look temp_disk [''c:'', ''users'', ''ari'', ''appdata'', ''local'', ''temp'', ''a.tmp'']"
      by code_simp
    have "no_upward_step (slashes (cm_lower plain_machine (slashes ''C:/Users/ari/AppData/Local/Temp'')))" by code_simp
    then show "\<forall>path \<in> set (locations_of plain_machine temp_disk ''temp-user'' user_ari).
        plain_way temp_disk path \<and> no_upward_step (slashes (cm_lower plain_machine path))"
      using temp_way by (simp add: temp_locations)
  qed
  ultimately show ?thesis by simp
qed

end
