(* ===== verification/Kam_Shortcuts.thy ===== *)
theory Kam_Shortcuts
  imports Kam_Commands Kam_Links
begin

text \<open>
  Shortcuts and what they point at, \<open>crates/kam-storage/src/shortcuts.rs\<close>: the folders Windows keeps
  them in, the bounded walk through a folder, and those that point into given folders. What the
  shell reads out of one file is a parameter: the raw target and the application's name for itself.
\<close>

datatype shortcut_place = StartMenu | Desktop | Taskbar

primrec shortcut_label :: "shortcut_place \<Rightarrow> str" where
  "shortcut_label StartMenu = ''Start Menu''"
| "shortcut_label Desktop = ''Desktop''"
| "shortcut_label Taskbar = ''Taskbar''"

record shortcut =
  sc_path :: str
  sc_name :: str
  sc_place :: shortcut_place
  sc_target :: "str option"
  sc_app_id :: "str option"
  sc_broken :: bool
  sc_machine_wide :: bool
  sc_bytes :: nat

text \<open>What the shell answers: whether it can be asked at all, and what a file holds.\<close>

record shell =
  sh_enter :: bool
  sh_raw_target :: "str \<Rightarrow> str option"
  sh_app_name :: "str \<Rightarrow> str option"

definition target_from :: "machine \<Rightarrow> str option \<Rightarrow> str option" where
  "target_from mc raw =
     (case raw of None \<Rightarrow> None | Some txt \<Rightarrow> if trim txt = [] then None else Some (expand (mc_env mc) (trim txt)))"

definition app_id_from :: "str option \<Rightarrow> str option" where
  "app_id_from id_text = (case id_text of None \<Rightarrow> None | Some s \<Rightarrow> if trim s = [] then None else Some s)"

definition read_link :: "shell \<Rightarrow> machine \<Rightarrow> str \<Rightarrow> str option \<times> str option" where
  "read_link sh mc lnk = (target_from mc (sh_raw_target sh lnk), app_id_from (sh_app_name sh lnk))"

definition shortcut_folder :: "machine \<Rightarrow> str \<Rightarrow> str \<Rightarrow> str option" where
  "shortcut_folder mc base tail =
     (if base = [] then None
      else (let path = path_join base tail in if is_dir (mc_fs mc) path then Some path else None))"

definition machine_wide_folder :: "machine \<Rightarrow> str \<Rightarrow> str \<Rightarrow> str option" where
  "machine_wide_folder mc var_name tail =
     (case env_var mc var_name of None \<Rightarrow> None | Some base \<Rightarrow> shortcut_folder mc base tail)"

definition START_MENU :: str where
  "START_MENU = slashes ''Microsoft/Windows/Start Menu/Programs''"

definition TASKBAR_TAIL :: str where
  "TASKBAR_TAIL = slashes ''Microsoft/Internet Explorer/Quick Launch/User Pinned/TaskBar''"

definition shortcut_places :: "machine \<Rightarrow> user_context \<Rightarrow> (str \<times> shortcut_place \<times> bool) list" where
  "shortcut_places mc user =
     List.map_filter (\<lambda>(folder, place, wide). map_option (\<lambda>path. (path, place, wide)) folder)
       [(shortcut_folder mc (roaming_app_data user) START_MENU, StartMenu, False),
        (machine_wide_folder mc ''ProgramData'' START_MENU, StartMenu, True),
        (shortcut_folder mc (uc_profile user) ''Desktop'', Desktop, False),
        (machine_wide_folder mc ''PUBLIC'' ''Desktop'', Desktop, True),
        (shortcut_folder mc (roaming_app_data user) TASKBAR_TAIL, Taskbar, False)]"

text \<open>
  The walk stops below depth 4, so it ends even where folders lead back to themselves: the argument
  counts the levels that are left. A link is passed over.
\<close>

fun walk_shortcuts :: "nat \<Rightarrow> file_system \<Rightarrow> str \<Rightarrow> str list" where
  "walk_shortcuts 0 fs folder = []"
| "walk_shortcuts (Suc left) fs folder =
     (case read_dir_at fs folder of
        Inl e \<Rightarrow> []
      | Inr names \<Rightarrow>
          concat (map (\<lambda>n. let path = path_join folder n in
             (case Option.bind (object_at fs path) (look fs) of
                Some DirNode \<Rightarrow> walk_shortcuts left fs path
              | Some (FileNode contents) \<Rightarrow>
                  (case extension path of
                     Some ext \<Rightarrow> if ascii_lower ext = ''lnk'' then [path] else []
                   | None \<Rightarrow> [])
              | _ \<Rightarrow> [])) names))"

definition SHORTCUT_LEVELS :: nat where "SHORTCUT_LEVELS = 5"

definition shortcut_of :: "shell \<Rightarrow> machine \<Rightarrow> shortcut_place \<Rightarrow> bool \<Rightarrow> str \<Rightarrow> shortcut" where
  "shortcut_of sh mc place wide path =
     (let (target, app_id) = read_link sh mc path in
      \<lparr>sc_path = path, sc_name = unwrap_or [] (file_stem path), sc_place = place, sc_target = target,
       sc_app_id = app_id,
       sc_broken = (case target of None \<Rightarrow> False
          | Some t \<Rightarrow> fault (mc_fs mc) OpMetadata t \<noteq> None \<or> look_path (mc_fs mc) t = None),
       sc_machine_wide = wide,
       sc_bytes = (if fault (mc_fs mc) OpMetadata path \<noteq> None then 0
          else case look_path (mc_fs mc) path of Some (FileNode contents) \<Rightarrow> length contents | _ \<Rightarrow> 0)\<rparr>)"

definition shortcuts_all :: "shell \<Rightarrow> machine \<Rightarrow> user_context \<Rightarrow> shortcut list" where
  "shortcuts_all sh mc user =
     (if \<not> sh_enter sh then []
      else concat (map (\<lambda>(folder, place, wide).
             map (shortcut_of sh mc place wide) (walk_shortcuts SHORTCUT_LEVELS (mc_fs mc) folder))
           (shortcut_places mc user)))"

definition shortcut_canonical :: "machine \<Rightarrow> str \<Rightarrow> str" where
  "shortcut_canonical mc path = trim_end_matches is_backslash (slashes (mc_lower mc path))"

definition points_into :: "machine \<Rightarrow> str list \<Rightarrow> shortcut \<Rightarrow> bool" where
  "points_into mc roots sc =
     (case sc_target sc of
        None \<Rightarrow> False
      | Some t \<Rightarrow>
        (let target = shortcut_canonical mc t
         in list_ex (\<lambda>rt. target = rt \<or> prefix (rt @ [CHR 0x5C]) target) roots))"

definition pointing_into :: "shell \<Rightarrow> machine \<Rightarrow> str list \<Rightarrow> user_context \<Rightarrow> shortcut list" where
  "pointing_into sh mc roots user =
     (if roots = [] then []
      else filter (points_into mc (map (shortcut_canonical mc) roots)) (shortcuts_all sh mc user))"

section \<open>What the walk finds\<close>

text \<open>Every file of the walk is a shortcut by its extension, and an object in its folder that is not a link.\<close>

lemma walk_shortcuts_are_links:
  "p \<in> set (walk_shortcuts n fs folder) \<Longrightarrow>
     \<exists>ext c. extension p = Some ext \<and> ascii_lower ext = ''lnk'' \<and> Option.bind (object_at fs p) (look fs) = Some (FileNode c)"
proof (induction n fs folder rule: walk_shortcuts.induct)
  case (2 left fs folder)
  obtain names where names: "read_dir_at fs folder = Inr names"
    using "2.prems" by (cases "read_dir_at fs folder") simp_all
  from "2.prems" obtain n where n: "n \<in> set names" and p: "p \<in> set (case Option.bind (object_at fs (path_join folder n)) (look fs) of
              Some DirNode \<Rightarrow> walk_shortcuts left fs (path_join folder n)
            | Some (FileNode contents) \<Rightarrow>
                (case extension (path_join folder n) of
                   Some ext \<Rightarrow> if ascii_lower ext = ''lnk'' then [path_join folder n] else []
                 | None \<Rightarrow> [])
            | _ \<Rightarrow> [])"
    by (simp only: walk_shortcuts.simps names sum.case Let_def set_concat set_map UN_iff image_iff bex_simps(7)) blast
  show ?case
  proof (cases "Option.bind (object_at fs (path_join folder n)) (look fs)")
    case (Some v)
    then show ?thesis
    proof (cases v)
      case DirNode
      with p Some "2.IH" [OF names n refl Some DirNode] show ?thesis by simp
    next
      case (FileNode c)
      with p Some show ?thesis by (cases "extension (path_join folder n)") (simp_all split: if_splits)
    qed (use p Some in simp)
  qed (use p in simp)
qed simp

lemma shortcuts_all_read:
  "sc \<in> set (shortcuts_all sh mc user) \<Longrightarrow> sc_target sc = target_from mc (sh_raw_target sh (sc_path sc))"
  by (auto simp: shortcuts_all_def shortcut_of_def read_link_def split: if_splits)

end
