(* ===== verification/Kam_Usage.thy ===== *)
theory Kam_Usage
  imports Kam_Shortcuts "HOL-Library.AList" "HOL-Library.Option_ord" "HOL-Library.Product_Lexorder"
begin

text \<open>
  When each program was last run, \<open>crates/kam-storage/src/usage.rs\<close>: the records Explorer keeps
  under encoded names, their paths with known folders put back, the records that name an application
  translated through the shortcuts, and the latest launch below a folder. A registry key answers with
  its value names and their binary data. A hash map is an association list in the order of first
  insertion; where the sources leave the order of iteration open, the statements do not depend on it.
  Slicing a text inside a character panics: the operation then has no value.
\<close>

definition USER_ASSIST :: str where
  "USER_ASSIST = slashes ''Software/Microsoft/Windows/CurrentVersion/Explorer/UserAssist''"

definition EXECUTABLES :: str where "EXECUTABLES = ''{CEBFF5CD-ACE2-4F4F-9178-9926F41749EA}''"
definition SHORTCUTS :: str where "SHORTCUTS = ''{F4E57C4B-2036-45F0-A9AB-443BCFE33D9F}''"

definition OFFSET_RUN_COUNT :: nat where "OFFSET_RUN_COUNT = 4"
definition OFFSET_LAST_RUN :: nat where "OFFSET_LAST_RUN = 60"
definition RECORD_BYTES :: nat where "RECORD_BYTES = 68"
definition FILETIME_EPOCH_OFFSET :: nat where "FILETIME_EPOCH_OFFSET = 11644473600"

record usage =
  us_path :: str
  us_app_id :: "str option"
  us_runs :: nat
  us_last_run :: "nat option"

definition usage_days_since :: "usage \<Rightarrow> nat \<Rightarrow> nat option" where
  "usage_days_since u now = map_option (\<lambda>last. (now - last) div 86400) (us_last_run u)"

section \<open>One record\<close>

definition rot13_char :: "char \<Rightarrow> char" where
  "rot13_char c =
     (let n = (of_char c :: nat) in
      if 97 \<le> n \<and> n \<le> 122 then char_of ((n - 97 + 13) mod 26 + 97)
      else if 65 \<le> n \<and> n \<le> 90 then char_of ((n - 65 + 13) mod 26 + 65)
      else c)"

definition rot13 :: "str \<Rightarrow> str" where "rot13 s = map rot13_char s"

definition FOLDERS :: "(str \<times> str) list" where
  "FOLDERS =
     [(''{6D809377-6AF0-444B-8957-A3773F02200E}'', ''ProgramFiles''),
      (''{7C5A40EF-A0FB-4BFC-874A-C0F2E0B9FA8E}'', ''ProgramFiles(x86)''),
      (''{1AC14E77-02E7-4E5D-B744-2EB1AE5198B7}'', slashes ''SystemRoot/System32''),
      (''{F38BF404-1D43-42F2-9305-67DE0B28FC23}'', ''SystemRoot''),
      (''{D65231B0-B2F1-4857-A4CE-A8E7C6EA7D27}'', slashes ''SystemRoot/System32''),
      (''{B4BFCC3A-DB2C-424C-B029-7FE99A87C641}'', slashes ''USERPROFILE/Desktop''),
      (''{FDD39AD0-238F-46AF-ADB4-6C85480369C7}'', slashes ''USERPROFILE/Documents''),
      (''{374DE290-123F-4565-9164-39C4925E467B}'', slashes ''USERPROFILE/Downloads''),
      (''{F1B32785-6FBA-4FCF-9D55-7B8E7F157091}'', ''LOCALAPPDATA''),
      (''{3EB685DB-65F9-4CF6-A03A-E3EF65729F3D}'', ''APPDATA''),
      (''{62AB5D82-FDC1-4DC3-A9DD-070D1D495D97}'', ''ProgramData''),
      (''{0139D44E-6AFE-49F2-8690-3DAFCAE6FFB8}'', slashes ''ProgramData/Microsoft/Windows/Start Menu/Programs''),
      (''{A77F5D77-2E2B-44C3-A6A2-ABA601054A51}'', slashes ''APPDATA/Microsoft/Windows/Start Menu/Programs'')]"

definition known_base :: "environment \<Rightarrow> user_context \<Rightarrow> str \<Rightarrow> str option" where
  "known_base env user nm =
     (if nm = ''USERPROFILE'' then Some (uc_profile user)
      else if nm = ''LOCALAPPDATA'' then Some (local_app_data user)
      else if nm = ''APPDATA'' then Some (roaming_app_data user)
      else env_lookup env nm)"

definition expand_known_folder :: "environment \<Rightarrow> (str \<Rightarrow> str) \<Rightarrow> user_context \<Rightarrow> str \<Rightarrow> str" where
  "expand_known_folder env upper user path =
     (case find (\<lambda>(guid, variable). prefix guid (upper path)) FOLDERS of
        None \<Rightarrow> path
      | Some (guid, variable) \<Rightarrow>
        (let (nm, tail) = (case split_once CHR 0x5C variable of
                Some (nm, tail) \<Rightarrow> (nm, CHR 0x5C # tail) | None \<Rightarrow> (variable, []))
         in case known_base env user nm of
              None \<Rightarrow> path
            | Some base \<Rightarrow> base @ tail @ drop (length guid) path))"

definition sane_time :: "nat \<Rightarrow> nat option" where
  "sane_time filetime =
     (let ticks = filetime div 10000000; seconds = ticks - FILETIME_EPOCH_OFFSET
      in if FILETIME_EPOCH_OFFSET \<le> ticks \<and> 946684800 < seconds \<and> seconds < 4102444800 then Some seconds else None)"

definition parse_usage ::
  "environment \<Rightarrow> (str \<Rightarrow> str) \<Rightarrow> user_context \<Rightarrow> str \<Rightarrow> bytes \<Rightarrow> usage option" where
  "parse_usage env upper user nm data =
     (if length data < RECORD_BYTES then None
      else (let decoded = rot13 nm
            in if prefix ''UEME_'' decoded then None
               else Some \<lparr>us_path = expand_known_folder env upper user decoded, us_app_id = None,
                          us_runs = le_nat (take 4 (drop OFFSET_RUN_COUNT data)),
                          us_last_run = sane_time (le_nat (take 8 (drop OFFSET_LAST_RUN data)))\<rparr>))"

section \<open>All records\<close>

record usage_source =
  uo_env :: environment
  uo_lower :: "str \<Rightarrow> str"
  uo_upper :: "str \<Rightarrow> str"
  uo_key :: "user_context \<Rightarrow> str \<Rightarrow> (str \<times> bytes option) list option"
  uo_shortcuts :: "user_context \<Rightarrow> shortcut list"

definition read_count_key :: "usage_source \<Rightarrow> user_context \<Rightarrow> str \<Rightarrow> usage list" where
  "read_count_key src user subkey =
     (case uo_key src user (USER_ASSIST @ [CHR 0x5C] @ subkey @ slashes ''/Count'') of
        None \<Rightarrow> []
      | Some values \<Rightarrow>
          List.map_filter (\<lambda>(nm, data). Option.bind data (parse_usage (uo_env src) (uo_upper src) user nm)) values)"

definition looks_like_a_path :: "str \<Rightarrow> bool" where
  "looks_like_a_path v \<longleftrightarrow>
     prefix [CHR 0x5C, CHR 0x5C] v
     \<or> (case v of a # b # c # rest \<Rightarrow> is_ascii_alphabetic a \<and> b = CHR '':'' \<and> is_backslash c | _ \<Rightarrow> False)"

text \<open>\<open>&s[at..]\<close>, which panics when the position is inside a character.\<close>

definition slice_from :: "str \<Rightarrow> nat \<Rightarrow> str option" where
  "slice_from s at = (case drop at s of c # rest \<Rightarrow> if is_continuation c then None else Some (c # rest) | [] \<Rightarrow> Some [])"

definition ends_with_lnk :: "str \<Rightarrow> bool option" where
  "ends_with_lnk v =
     (if 4 < length v then map_option (\<lambda>tail. ascii_lower tail = ''.lnk'') (slice_from v (length v - 4)) else Some False)"

definition add_lnk :: "usage_source \<Rightarrow> (str \<rightharpoonup> str) \<Rightarrow> shortcut \<Rightarrow> (str \<rightharpoonup> str)" where
  "add_lnk src m sc =
     (case sc_target sc of
        None \<Rightarrow> m | Some t \<Rightarrow> if t = [] then m else m(uo_lower src (sc_path sc) \<mapsto> t))"

definition add_app_name :: "usage_source \<Rightarrow> (str \<rightharpoonup> str) \<Rightarrow> shortcut \<Rightarrow> (str \<rightharpoonup> str)" where
  "add_app_name src m sc =
     (case (sc_target sc, sc_app_id sc) of
        (Some t, Some id_text) \<Rightarrow>
          (let key = uo_lower src id_text
           in if t = [] then m else if m key = None then m(key \<mapsto> t) else m)
      | _ \<Rightarrow> m)"

definition translate ::
  "usage_source \<Rightarrow> (str \<rightharpoonup> str) \<Rightarrow> (str \<rightharpoonup> str) \<Rightarrow> usage \<Rightarrow> usage option" where
  "translate src by_lnk by_name u =
     (let plain_path = (if looks_like_a_path (us_path u) then map_option Not (ends_with_lnk (us_path u)) else Some False)
      in case plain_path of
           None \<Rightarrow> None
         | Some True \<Rightarrow> Some u
         | Some False \<Rightarrow>
             (let key = uo_lower src (us_path u) in
              case (case by_lnk key of Some t \<Rightarrow> Some t | None \<Rightarrow> by_name key) of
                Some t \<Rightarrow> Some (u\<lparr>us_app_id := Some (us_path u), us_path := t\<rparr>)
              | None \<Rightarrow> Some (u\<lparr>us_app_id := Some (us_path u), us_path := []\<rparr>)))"

definition usage_all :: "usage_source \<Rightarrow> user_context \<Rightarrow> usage list option" where
  "usage_all src user =
     (let found = read_count_key src user EXECUTABLES @ read_count_key src user SHORTCUTS;
          links = uo_shortcuts src user;
          by_lnk = foldl (add_lnk src) Map.empty links;
          by_name = foldl (add_app_name src) Map.empty links
      in those (map (translate src by_lnk by_name) found))"

section \<open>By path\<close>

definition usage_key :: "(str \<Rightarrow> str) \<Rightarrow> usage \<Rightarrow> str" where
  "usage_key lower u = slashes (lower (us_path u))"

definition put_usage :: "(str \<Rightarrow> str) \<Rightarrow> (str \<times> usage) list \<Rightarrow> usage \<Rightarrow> (str \<times> usage) list" where
  "put_usage lower m u =
     (let key = usage_key lower u
      in case map_of m key of
           None \<Rightarrow> m @ [(key, u)]
         | Some existing \<Rightarrow> if us_last_run existing < us_last_run u then AList.update key u m else m)"

definition index_by_path :: "(str \<Rightarrow> str) \<Rightarrow> usage list \<Rightarrow> (str \<times> usage) list" where
  "index_by_path lower found = foldl (put_usage lower) [] found"

record launch_history =
  hi_by_path :: "(str \<times> usage) list"
  hi_unattributed :: "usage list"

definition usage_history :: "usage_source \<Rightarrow> user_context \<Rightarrow> launch_history option" where
  "usage_history src user =
     map_option (\<lambda>found.
       \<lparr>hi_by_path = index_by_path (uo_lower src) (filter (\<lambda>u. us_path u \<noteq> []) found),
        hi_unattributed = filter (\<lambda>u. us_app_id u \<noteq> None) (filter (\<lambda>u. us_path u = []) found)\<rparr>) (usage_all src user)"

definition usage_by_path :: "usage_source \<Rightarrow> user_context \<Rightarrow> (str \<times> usage) list option" where
  "usage_by_path src user =
     map_option (\<lambda>found. index_by_path (uo_lower src) (filter (\<lambda>u. us_path u \<noteq> []) found)) (usage_all src user)"

text \<open>\<open>Iterator::max_by_key\<close>: the last of the greatest.\<close>

fun max_by_key :: "('a \<Rightarrow> 'k::linorder) \<Rightarrow> 'a list \<Rightarrow> 'a option" where
  "max_by_key f [] = None"
| "max_by_key f (x # xs) =
     (case max_by_key f xs of None \<Rightarrow> Some x | Some y \<Rightarrow> if f x \<le> f y then Some y else Some x)"

definition recency :: "usage \<Rightarrow> nat option \<times> nat" where
  "recency u = (us_last_run u, us_runs u)"

definition folder_prefix :: "(str \<Rightarrow> str) \<Rightarrow> str \<Rightarrow> str" where
  "folder_prefix lower directory = trim_end_matches is_backslash (slashes (lower directory)) @ [CHR 0x5C]"

definition latest_under :: "(str \<Rightarrow> str) \<Rightarrow> (str \<times> usage) list \<Rightarrow> str \<Rightarrow> usage option" where
  "latest_under lower m directory =
     (if trim directory = [] then None
      else map_option snd (max_by_key (\<lambda>(path, u). recency u)
             (filter (\<lambda>(path, u). prefix (folder_prefix lower directory) path) m)))"

section \<open>Lemmas\<close>

lemma max_by_key_None [simp]: "max_by_key f xs = None \<longleftrightarrow> xs = []"
  by (cases xs) (auto split: option.splits)

lemma max_by_key_Some: "max_by_key f xs = Some y \<Longrightarrow> y \<in> set xs \<and> (\<forall>x \<in> set xs. f x \<le> f y)"
  by (induction xs arbitrary: y) (force split: option.splits if_splits)+

lemma rot13_letter:
  fixes n :: nat
  assumes "base \<le> n" and "n \<le> base + 25"
  shows "((n - base + 13) mod 26 + 13) mod 26 + base = n"
proof -
  have d: "((d + 13) mod 26 + 13) mod 26 = d" if "d < 26" for d :: nat
    using that by (cases "d < 13") (simp_all add: mod_add_left_eq le_mod_geq)
  from d [of "n - base"] assms show ?thesis by simp
qed

lemma of_char_of_small: "k < 256 \<Longrightarrow> of_char (char_of k) = (k :: nat)"
  by (simp add: of_char_of)

lemma rot13_char_twice [simp]: "rot13_char (rot13_char c) = c"
proof -
  define n :: nat where "n = of_char c"
  have c: "char_of n = c" by (simp add: n_def)
  consider (low) "97 \<le> n" "n \<le> 122" | (up) "65 \<le> n" "n \<le> 90" | (other) "\<not> (97 \<le> n \<and> n \<le> 122)" "\<not> (65 \<le> n \<and> n \<le> 90)"
    by blast
  then show ?thesis
  proof cases
    case low
    define k where "k = (n - 97 + 13) mod 26 + 97"
    have k: "97 \<le> k" "k \<le> 122" by (simp_all add: k_def less_Suc_eq_le [symmetric])
    have one: "rot13_char c = char_of k" using low by (simp add: rot13_char_def n_def [symmetric] k_def)
    have two: "of_char (char_of k) = k" using k by (intro of_char_of_small) simp
    have "rot13_char (char_of k) = char_of ((k - 97 + 13) mod 26 + 97)" unfolding rot13_char_def Let_def two using k by simp
    with rot13_letter [of 97 n] low c one show ?thesis by (simp add: k_def)
  next
    case up
    define k where "k = (n - 65 + 13) mod 26 + 65"
    have k: "65 \<le> k" "k \<le> 90" by (simp_all add: k_def less_Suc_eq_le [symmetric])
    have one: "rot13_char c = char_of k" using up by (simp add: rot13_char_def n_def [symmetric] k_def)
    have two: "of_char (char_of k) = k" using k by (intro of_char_of_small) simp
    have "rot13_char (char_of k) = char_of ((k - 65 + 13) mod 26 + 65)" unfolding rot13_char_def Let_def two using k by simp
    with rot13_letter [of 65 n] up c one show ?thesis by (simp add: k_def)
  next
    case other
    then have "rot13_char c = c" unfolding rot13_char_def Let_def n_def [symmetric] by (simp only: if_False simp_thms)
    then show ?thesis by simp
  qed
qed

lemma rot13_twice [simp]: "rot13 (rot13 s) = s"
  by (simp add: rot13_def comp_def)

text \<open>What the index holds after some records: for each path the latest of them, and the first of those.\<close>

lemma put_usage_lookup:
  "map_of (put_usage lower m u) k =
     (if k = usage_key lower u
      then (case map_of m k of None \<Rightarrow> Some u | Some e \<Rightarrow> Some (if us_last_run e < us_last_run u then u else e))
      else map_of m k)"
  by (auto simp: put_usage_def Let_def update_conv' map_add_def split: option.splits)

lemma put_usage_distinct: "distinct (map fst m) \<Longrightarrow> distinct (map fst (put_usage lower m u))"
  by (auto simp: put_usage_def Let_def distinct_update map_of_eq_None_iff split: option.splits)

lemma index_by_path_lookup:
  "map_of (index_by_path lower us) k = Some u \<Longrightarrow>
     u \<in> set us \<and> usage_key lower u = k \<and> (\<forall>v \<in> set us. usage_key lower v = k \<longrightarrow> us_last_run v \<le> us_last_run u)"
proof (induction us arbitrary: u rule: rev_induct)
  case (snoc v us)
  show ?case
  proof (cases "k = usage_key lower v")
    case True
    show ?thesis
    proof (cases "map_of (index_by_path lower us) k")
      case None
      have "usage_key lower w \<noteq> k" if "w \<in> set us" for w using None that
      proof (induction us rule: rev_induct)
        case (snoc x us)
        then show ?case by (auto simp: index_by_path_def put_usage_lookup split: if_splits option.splits)
      qed simp
      with snoc.prems True None show ?thesis by (auto simp: index_by_path_def put_usage_lookup)
    next
      case (Some e)
      with snoc.IH [OF Some] snoc.prems True show ?thesis
        by (auto simp: index_by_path_def put_usage_lookup split: if_splits)
    qed
  next
    case False
    with snoc show ?thesis by (auto simp: index_by_path_def put_usage_lookup)
  qed
qed (simp add: index_by_path_def)

lemma index_by_path_covers: "u \<in> set us \<Longrightarrow> \<exists>v. map_of (index_by_path lower us) (usage_key lower u) = Some v"
  by (induction us rule: rev_induct) (auto simp: index_by_path_def put_usage_lookup split: option.splits)

lemma index_by_path_distinct: "distinct (map fst (index_by_path lower us))"
  by (induction us rule: rev_induct) (simp_all add: index_by_path_def put_usage_distinct)

section \<open>The latest launch below a folder\<close>

text \<open>The latest launch that is reported for a folder is the latest of all records below it, and no launch means no record below it.\<close>

theorem latest_launch_is_reported:
  assumes "trim directory \<noteq> []"
  shows "case latest_under lower (index_by_path lower us) directory of
           None \<Rightarrow> \<forall>u \<in> set us. \<not> prefix (folder_prefix lower directory) (usage_key lower u)
         | Some u \<Rightarrow> u \<in> set us \<and> prefix (folder_prefix lower directory) (usage_key lower u)
             \<and> (\<forall>v \<in> set us. prefix (folder_prefix lower directory) (usage_key lower v) \<longrightarrow> us_last_run v \<le> us_last_run u)"
proof -
  let ?m = "index_by_path lower us" and ?dir = "folder_prefix lower directory"
  let ?below = "filter (\<lambda>(path, u). prefix ?dir path) ?m"
  have entry: "\<exists>w. (usage_key lower v, w) \<in> set ?m \<and> us_last_run v \<le> us_last_run w" if v: "v \<in> set us" for v
  proof -
    obtain w where w: "map_of ?m (usage_key lower v) = Some w" using index_by_path_covers [OF v] by blast
    with index_by_path_lookup [OF w] v show ?thesis by (auto dest: map_of_SomeD)
  qed
  show ?thesis
  proof (cases "max_by_key (\<lambda>(path, u). recency u) ?below")
    case None
    then have "?below = []" by simp
    then have "\<not> prefix ?dir (usage_key lower v)" if "v \<in> set us" for v
      using entry [OF that] by (force simp: filter_empty_conv)
    with None assms show ?thesis by (simp add: latest_under_def)
  next
    case (Some pu)
    obtain p u where pu: "pu = (p, u)" by (cases pu)
    from max_by_key_Some [OF Some] pu have mem: "(p, u) \<in> set ?m" "prefix ?dir p"
      and top: "\<forall>(q, w) \<in> set ?below. recency w \<le> recency u" by auto
    have "map_of ?m p = Some u" using mem(1) index_by_path_distinct by simp
    from index_by_path_lookup [OF this] have u: "u \<in> set us" "usage_key lower u = p" by auto
    have "us_last_run v \<le> us_last_run u" if v: "v \<in> set us" "prefix ?dir (usage_key lower v)" for v
    proof -
      obtain w where w: "(usage_key lower v, w) \<in> set ?m" "us_last_run v \<le> us_last_run w" using entry [OF v(1)] by blast
      then have "recency w \<le> recency u" using top v(2) by auto
      then have "us_last_run w \<le> us_last_run u" by (auto simp: recency_def)
      with w(2) show ?thesis by simp
    qed
    with u mem(2) assms Some pu show ?thesis by (simp add: latest_under_def)
  qed
qed

definition sample_usage :: "str \<Rightarrow> nat \<Rightarrow> usage" where
  "sample_usage p t = \<lparr>us_path = slashes p, us_app_id = None, us_runs = 1, us_last_run = Some t\<rparr>"

theorem latest_launch_is_reported_witness:
  "case latest_under ascii_lower
      (index_by_path ascii_lower [sample_usage ''C:/App/a.exe'' 5, sample_usage ''c:/app/A.exe'' 9, sample_usage ''C:/Apps/b.exe'' 20])
      ''C:/App/'' of
     None \<Rightarrow> False | Some u \<Rightarrow> us_last_run u \<ge> Some 9"
proof -
  let ?us = "[sample_usage ''C:/App/a.exe'' 5, sample_usage ''c:/app/A.exe'' 9, sample_usage ''C:/Apps/b.exe'' 20]"
  have t: "trim ''C:/App/'' \<noteq> []" by code_simp
  have p: "prefix (folder_prefix ascii_lower ''C:/App/'') (usage_key ascii_lower (sample_usage ''c:/app/A.exe'' 9))" by code_simp
  have l: "us_last_run (sample_usage ''c:/app/A.exe'' 9) = Some 9" by (simp add: sample_usage_def)
  show ?thesis
    using latest_launch_is_reported [OF t, where lower = ascii_lower and us = ?us] p l
    by (auto split: option.splits)
qed

text \<open>
  A recorded path that ends in characters of three bytes ends the whole read in a panic: the test for
  the ending of a shortcut cuts the text four bytes from its end, which is inside a character.
\<close>

definition folder_in_kanji :: str where
  "folder_in_kanji = slashes ''C:/'' @ [CHR 0xE6, CHR 0x97, CHR 0xA5, CHR 0xE6, CHR 0x9C, CHR 0xAC]"

lemma those_None: "None \<in> set xs \<Longrightarrow> those xs = None"
  by (induction xs) (auto split: option.splits)

lemma recorded_path_panics:
  assumes "us_path u = folder_in_kanji"
    and "u \<in> set (read_count_key src user EXECUTABLES @ read_count_key src user SHORTCUTS)"
  shows "usage_all src user = None" and "usage_history src user = None"
proof -
  have "ends_with_lnk folder_in_kanji = None" "looks_like_a_path folder_in_kanji" by code_simp+
  then have "translate src a b u = None" for a b using assms(1) by (simp add: translate_def)
  then have "None \<in> set (map (translate src a b) (read_count_key src user EXECUTABLES @ read_count_key src user SHORTCUTS))" for a b
    using assms(2) by (metis image_eqI set_map)
  then show "usage_all src user = None" by (simp only: usage_all_def Let_def those_None)
  then show "usage_history src user = None" by (simp add: usage_history_def)
qed

end
