(* ===== verification/Kam_Apps.thy ===== *)
theory Kam_Apps
  imports Kam_Usage Kam_Steam Kam_Index "HOL-Library.Char_ord" "HOL-Library.List_Lexorder"
begin

text \<open>
  What an installed application occupies, \<open>crates/kam-storage/src/apps.rs\<close>: the uninstall keys of
  the machine and of the person, the games Steam knows besides, the directories that belong to an
  application by name, and the totals over the directories nobody else claims. An uninstall key
  answers with its texts and numbers; Unicode classes and lower-casing are arguments. Sizes are
  64-bit words, counts natural numbers; a panic while reading the launch history is no value.
\<close>

definition UNINSTALL :: str where
  "UNINSTALL = slashes ''SOFTWARE/Microsoft/Windows/CurrentVersion/Uninstall''"

datatype location_kind = Install | ProgramData | LocalData | RoamingData

record location =
  lo_path :: str
  lo_bytes :: u64
  lo_kind :: location_kind
  lo_shared_with :: nat

record app_footprint =
  af_name :: str
  af_publisher :: str
  af_version :: str
  af_reported_bytes :: "nat option"
  af_actual_bytes :: u64
  af_shared_bytes :: u64
  af_locations :: "location list"
  af_uninstall_command :: "str option"
  af_installed_on :: "str option"
  af_last_used :: "nat option"
  af_launches :: "nat option"

record installed_app =
  in_name :: str
  in_publisher :: str
  in_version :: str
  in_install_location :: "str option"
  in_estimated_kilobytes :: "nat option"
  in_uninstall_command :: "str option"
  in_installed_on :: "str option"
  in_last_played :: "nat option"

section \<open>Names\<close>

text \<open>Rust's lower-casing of a text, and for one character its class and its lower case.\<close>

record text_rules =
  tr_lower :: "str \<Rightarrow> str"
  tr_alphanumeric :: "str \<Rightarrow> bool"
  tr_lower_char :: "str \<Rightarrow> str"

definition normalise_name :: "text_rules \<Rightarrow> str \<Rightarrow> str" where
  "normalise_name tr s = concat (map (tr_lower_char tr) (filter (tr_alphanumeric tr) (utf8_chars s)))"

definition names_match :: "str \<Rightarrow> str \<Rightarrow> bool" where
  "names_match folder wanted \<longleftrightarrow>
     (if folder = wanted then True
      else if length folder < 4 \<or> length wanted < 4 then False
      else contains folder wanted \<or> contains wanted folder)"

definition canonical_path :: "(str \<Rightarrow> str) \<Rightarrow> str \<Rightarrow> str" where
  "canonical_path lower path = lower (trim_end_matches is_backslash (slashes path))"

section \<open>What is installed\<close>

definition install_date :: "str \<Rightarrow> str option" where
  "install_date raw =
     (let digits = filter is_digit raw in
      if length digits \<noteq> 8 then None
      else (let year = read_nat (take 4 digits); month = read_nat (take 2 (drop 4 digits)); day = read_nat (drop 6 digits)
            in if \<not> (1985 \<le> year \<and> year \<le> 2100) \<or> \<not> (1 \<le> month \<and> month \<le> 12) \<or> \<not> (1 \<le> day \<and> day \<le> 31) then None
               else Some (pad0 4 (show_nat year) @ ''-'' @ pad0 2 (show_nat month) @ ''-'' @ pad0 2 (show_nat day))))"

record uninstall_key =
  un_string :: "str \<Rightarrow> str option"
  un_dword :: "str \<Rightarrow> nat option"

record apps_machine =
  am_text :: text_rules
  am_env :: environment
  am_uninstall :: "hive \<Rightarrow> str \<Rightarrow> view \<Rightarrow> uninstall_key option list option"
  am_games :: "user_context \<Rightarrow> steam_app list"
  am_history :: "user_context \<Rightarrow> launch_history option"

definition am_lower :: "apps_machine \<Rightarrow> str \<Rightarrow> str" where "am_lower am = tr_lower (am_text am)"

definition is_update_kind :: "apps_machine \<Rightarrow> str option \<Rightarrow> bool" where
  "is_update_kind am release =
     (case release of None \<Rightarrow> False
      | Some kind \<Rightarrow> (let k = am_lower am kind
          in contains k ''update'' \<or> contains k ''hotfix'' \<or> contains k ''security''))"

text \<open>One subkey: nothing when it is not an application of its own.\<close>

definition read_uninstall :: "apps_machine \<Rightarrow> uninstall_key \<Rightarrow> installed_app option" where
  "read_uninstall am key =
     (case un_string key ''DisplayName'' of
        None \<Rightarrow> None
      | Some nm \<Rightarrow>
        (if un_dword key ''SystemComponent'' = Some 1 then None
         else if un_string key ''ParentKeyName'' \<noteq> None \<or> un_string key ''ParentDisplayName'' \<noteq> None then None
         else if is_update_kind am (un_string key ''ReleaseType'') then None
         else Some \<lparr>in_name = nm,
                    in_publisher = unwrap_or [] (un_string key ''Publisher''),
                    in_version = unwrap_or [] (un_string key ''DisplayVersion''),
                    in_install_location = un_string key ''InstallLocation'',
                    in_estimated_kilobytes = un_dword key ''EstimatedSize'',
                    in_uninstall_command = (case un_string key ''QuietUninstallString'' of
                       Some c \<Rightarrow> Some c | None \<Rightarrow> un_string key ''UninstallString''),
                    in_installed_on = Option.bind (un_string key ''InstallDate'') install_date,
                    in_last_played = None\<rparr>))"

fun keep_first :: "('a \<Rightarrow> 'k) \<Rightarrow> 'k list \<Rightarrow> 'a list \<Rightarrow> 'a list" where
  "keep_first key seen [] = []"
| "keep_first key seen (x # xs) =
     (if key x \<in> set seen then keep_first key seen xs else x # keep_first key (seen @ [key x]) xs)"

definition uninstall_sources :: "user_context \<Rightarrow> (hive \<times> str \<times> view) list" where
  "uninstall_sources user =
     (let (user_root, user_prefix) = user_hive user
      in [(HKEY_LOCAL_MACHINE, [], Native), (HKEY_LOCAL_MACHINE, [], Wow6432), (user_root, user_prefix, Native)])"

definition source_apps :: "apps_machine \<Rightarrow> hive \<times> str \<times> view \<Rightarrow> installed_app list" where
  "source_apps am source =
     (case source of (rt, pre, vw) \<Rightarrow>
      (case am_uninstall am rt (pre @ UNINSTALL) vw of
         None \<Rightarrow> []
       | Some subs \<Rightarrow> List.map_filter (\<lambda>entry. Option.bind entry (read_uninstall am)) subs))"

definition installed :: "apps_machine \<Rightarrow> user_context \<Rightarrow> installed_app list" where
  "installed am user =
     keep_first (\<lambda>a. am_lower am (in_name a)) [] (concat (map (source_apps am) (uninstall_sources user)))"

definition game_app :: "steam_app \<Rightarrow> installed_app" where
  "game_app game =
     \<lparr>in_name = sa_name game, in_publisher = ''Steam'', in_version = [], in_install_location = Some (sa_path game),
      in_estimated_kilobytes = None, in_uninstall_command = Some (''steam://uninstall/'' @ sa_app_id game),
      in_installed_on = None, in_last_played = sa_last_played game\<rparr>"

definition with_steam_games :: "text_rules \<Rightarrow> installed_app list \<Rightarrow> steam_app list \<Rightarrow> installed_app list" where
  "with_steam_games tr apps steam =
     (let known = map (\<lambda>a. normalise_name tr (in_name a)) apps
      in apps @ map game_app (filter (\<lambda>game. let wanted = normalise_name tr (sa_name game)
                                             in wanted \<noteq> [] \<and> wanted \<notin> set known) steam))"

section \<open>The directories of an application\<close>

definition push_unique :: "(str \<Rightarrow> str) \<Rightarrow> location list \<Rightarrow> location \<Rightarrow> location list" where
  "push_unique lower locations candidate =
     (if list_ex (\<lambda>e. canonical_path lower (lo_path e) = canonical_path lower (lo_path candidate)) locations
      then locations else locations @ [candidate])"

definition found_location :: "str \<Rightarrow> u64 \<Rightarrow> location_kind \<Rightarrow> location" where
  "found_location path bytes kind = \<lparr>lo_path = path, lo_bytes = bytes, lo_kind = kind, lo_shared_with = 0\<rparr>"

definition steam_location ::
  "text_rules \<Rightarrow> volume_index \<Rightarrow> str \<Rightarrow> str \<Rightarrow> location list \<Rightarrow> steam_app \<Rightarrow> location list" where
  "steam_location tr vi drive_root wanted locations game =
     (if normalise_name tr (sa_name game) \<noteq> wanted then locations
      else (case resolve (tr_lower tr) vi (sa_path game) of
              None \<Rightarrow> locations
            | Some index \<Rightarrow>
                push_unique (tr_lower tr) locations
                  (found_location (unwrap_or (sa_path game) (path_of vi index drive_root)) (total_of vi index) Install)))"

definition install_location :: "text_rules \<Rightarrow> volume_index \<Rightarrow> str option \<Rightarrow> location list \<Rightarrow> location list" where
  "install_location tr vi path locations =
     (case path of
        None \<Rightarrow> locations
      | Some p \<Rightarrow>
        (let trimmed = trim_end_matches is_separator p
         in case size_of (tr_lower tr) vi trimmed of
              None \<Rightarrow> locations
            | Some bytes \<Rightarrow> push_unique (tr_lower tr) locations (found_location trimmed bytes Install)))"

definition inner_location ::
  "text_rules \<Rightarrow> volume_index \<Rightarrow> location_kind \<Rightarrow> str \<Rightarrow> str \<Rightarrow> location list \<Rightarrow> u32 \<Rightarrow> location list" where
  "inner_location tr vi kind vendor wanted locations grandchild =
     (case entry_at vi grandchild of
        None \<Rightarrow> locations
      | Some inner \<Rightarrow>
          if names_match (normalise_name tr (ename inner)) wanted
          then push_unique (tr_lower tr) locations
                 (found_location (vendor @ [CHR 0x5C] @ ename inner) (total_of vi grandchild) kind)
          else locations)"

definition child_location ::
  "text_rules \<Rightarrow> volume_index \<Rightarrow> location_kind \<Rightarrow> str \<Rightarrow> str \<Rightarrow> str \<Rightarrow> location list \<Rightarrow> u32 \<Rightarrow> location list" where
  "child_location tr vi kind rt wanted publisher locations child =
     (case entry_at vi child of
        None \<Rightarrow> locations
      | Some entry \<Rightarrow>
        (let folder = normalise_name tr (ename entry); path = rt @ [CHR 0x5C] @ ename entry
         in if folder = [] then locations
            else if names_match folder wanted
            then push_unique (tr_lower tr) locations (found_location path (total_of vi child) kind)
            else if publisher \<noteq> [] \<and> names_match folder publisher
            then foldl (inner_location tr vi kind path wanted) locations (directories_in vi child)
            else locations))"

definition root_locations ::
  "text_rules \<Rightarrow> volume_index \<Rightarrow> str \<Rightarrow> str \<Rightarrow> location list \<Rightarrow> location_kind \<times> str \<Rightarrow> location list" where
  "root_locations tr vi wanted publisher locations kr =
     (case kr of (kind, rt) \<Rightarrow>
      (case resolve (tr_lower tr) vi rt of
         None \<Rightarrow> locations
       | Some index \<Rightarrow> foldl (child_location tr vi kind rt wanted publisher) locations (directories_in vi index)))"

definition locate_app ::
  "text_rules \<Rightarrow> installed_app \<Rightarrow> volume_index \<Rightarrow> (location_kind \<times> str) list \<Rightarrow> steam_app list \<Rightarrow> str
     \<Rightarrow> location list" where
  "locate_app tr app vi roots steam drive_root =
     (let wanted = normalise_name tr (in_name app);
          locations = foldl (steam_location tr vi drive_root wanted) [] steam;
          locations = install_location tr vi (in_install_location app) locations;
          publisher = normalise_name tr (in_publisher app)
      in if wanted = [] then locations else foldl (root_locations tr vi wanted publisher) locations roots)"

definition data_roots :: "environment \<Rightarrow> user_context \<Rightarrow> (location_kind \<times> str) list" where
  "data_roots env user =
     (case env_lookup env ''ProgramData'' of None \<Rightarrow> [] | Some v \<Rightarrow> [(ProgramData, v)])
     @ [(LocalData, local_app_data user), (RoamingData, roaming_app_data user)]"

text \<open>Both loops of the sources over the canonical paths, by position.\<close>

definition contains_another :: "str list \<Rightarrow> nat \<Rightarrow> bool" where
  "contains_another paths outer =
     list_ex (\<lambda>inner. inner \<noteq> outer \<and> prefix (paths ! outer @ [CHR 0x5C]) (paths ! inner)) [0..<length paths]"

definition drop_ancestors :: "(str \<Rightarrow> str) \<Rightarrow> location list \<Rightarrow> location list" where
  "drop_ancestors lower locations =
     (let paths = map (\<lambda>l. canonical_path lower (lo_path l)) locations
      in map fst (filter (\<lambda>(l, i). \<not> contains_another paths i) (zip locations [0..<length locations])))"

section \<open>Footprints\<close>

definition match_by_name :: "text_rules \<Rightarrow> usage list \<Rightarrow> str \<Rightarrow> str option \<Rightarrow> usage option" where
  "match_by_name tr unattributed nm publisher =
     (let wanted = normalise_name tr nm in
      if length wanted < 6 then None
      else (let with_publisher = map_option (\<lambda>p. normalise_name tr p @ wanted) publisher
            in max_by_key us_last_run
                 (filter (\<lambda>u. us_last_run u \<noteq> None
                     \<and> (case us_app_id u of
                          None \<Rightarrow> False
                        | Some raw \<Rightarrow>
                          (let id_key = normalise_name tr raw
                           in \<not> length id_key < 6
                              \<and> (contains id_key wanted \<or> contains wanted id_key
                                 \<or> (case with_publisher of None \<Rightarrow> False
                                    | Some both \<Rightarrow> contains id_key both \<or> contains both id_key)))))
                   unattributed)))"

definition claim_count :: "(str \<Rightarrow> str) \<Rightarrow> location list list \<Rightarrow> str \<Rightarrow> nat" where
  "claim_count lower claims path = count_list (map (\<lambda>l. canonical_path lower (lo_path l)) (concat claims)) path"

definition mark_shared :: "(str \<Rightarrow> str) \<Rightarrow> location list list \<Rightarrow> location \<Rightarrow> location" where
  "mark_shared lower claims l =
     (let n = claim_count lower claims (canonical_path lower (lo_path l))
      in l\<lparr>lo_shared_with := (if n = 0 then 1 else n) - 1\<rparr>)"

definition launch_of :: "text_rules \<Rightarrow> launch_history \<Rightarrow> location list \<Rightarrow> str \<Rightarrow> str \<Rightarrow> usage option" where
  "launch_of tr hist locations nm publisher =
     (case max_by_key recency
             (List.map_filter (\<lambda>l. latest_under (tr_lower tr) (hi_by_path hist) (lo_path l))
               (filter (\<lambda>l. lo_kind l = Install) locations)) of
        Some u \<Rightarrow> Some u
      | None \<Rightarrow> match_by_name tr (hi_unattributed hist) nm (Some publisher))"

definition footprint_of ::
  "text_rules \<Rightarrow> launch_history \<Rightarrow> location list list \<Rightarrow> installed_app \<times> location list \<Rightarrow> app_footprint" where
  "footprint_of tr hist claims candidate =
     (case candidate of (app, found) \<Rightarrow>
      (let locations = map (mark_shared (tr_lower tr) claims) found;
           launched = launch_of tr hist locations (in_name app) (in_publisher app)
       in \<lparr>af_name = in_name app, af_publisher = in_publisher app, af_version = in_version app,
           af_reported_bytes = map_option (\<lambda>kb. kb * 1024) (in_estimated_kilobytes app),
           af_actual_bytes = sum_list (map lo_bytes (filter (\<lambda>l. lo_shared_with l = 0) locations)),
           af_shared_bytes = sum_list (map lo_bytes (filter (\<lambda>l. 0 < lo_shared_with l) locations)),
           af_locations = locations, af_uninstall_command = in_uninstall_command app,
           af_installed_on = in_installed_on app,
           af_last_used = (case in_last_played app of Some t \<Rightarrow> Some t | None \<Rightarrow> Option.bind launched us_last_run),
           af_launches = map_option us_runs launched\<rparr>))"

definition candidates_of :: "apps_machine \<Rightarrow> volume_index \<Rightarrow> str \<Rightarrow> user_context \<Rightarrow> (installed_app \<times> location list) list" where
  "candidates_of am vi drive_root user =
     (let steam = am_games am user; roots = data_roots (am_env am) user
      in map (\<lambda>app. (app, drop_ancestors (am_lower am) (locate_app (am_text am) app vi roots steam drive_root)))
           (with_steam_games (am_text am) (installed am user) steam))"

definition footprints :: "apps_machine \<Rightarrow> volume_index \<Rightarrow> str \<Rightarrow> user_context \<Rightarrow> app_footprint list option" where
  "footprints am vi drive_root user =
     (case am_history am user of
        None \<Rightarrow> None
      | Some hist \<Rightarrow>
        (let candidates = candidates_of am vi drive_root user
         in Some (sort_desc_by (\<lambda>a. unat (af_actual_bytes a))
                   (map (footprint_of (am_text am) hist (map snd candidates)) candidates))))"

record footprint_summary =
  fs_applications :: nat
  fs_measured_bytes :: u64
  fs_reported_bytes :: u64
  fs_without_reported_size :: nat

definition summarise_apps :: "app_footprint list \<Rightarrow> footprint_summary" where
  "summarise_apps apps =
     \<lparr>fs_applications = length apps,
      fs_measured_bytes = sum_list (map af_actual_bytes apps),
      fs_reported_bytes = sum_list (map (\<lambda>a. case af_reported_bytes a of Some b \<Rightarrow> word_of_nat b | None \<Rightarrow> 0) apps),
      fs_without_reported_size = length (filter (\<lambda>a. af_reported_bytes a = None) apps)\<rparr>"

definition measure_apps ::
  "apps_machine \<Rightarrow> (kam_error + mft_snapshot) \<Rightarrow> char \<Rightarrow> user_context
     \<Rightarrow> (kam_error + app_footprint list \<times> footprint_summary) option" where
  "measure_apps am table letter user =
     (case table of
        Inl e \<Rightarrow> Some (Inl e)
      | Inr snap \<Rightarrow>
          map_option (\<lambda>apps. Inr (apps, summarise_apps apps)) (footprints am (build snap) [letter, CHR '':''] user))"

section \<open>The listing without a volume\<close>

definition listed_app :: "apps_machine \<Rightarrow> launch_history \<Rightarrow> installed_app \<Rightarrow> app_footprint" where
  "listed_app am hist app =
     (let launched = Option.bind (in_install_location app) (latest_under (am_lower am) (hi_by_path hist))
      in \<lparr>af_name = in_name app, af_publisher = in_publisher app, af_version = in_version app,
          af_reported_bytes = map_option (\<lambda>kb. kb * 1024) (in_estimated_kilobytes app),
          af_actual_bytes = 0, af_shared_bytes = 0, af_locations = [],
          af_uninstall_command = in_uninstall_command app, af_installed_on = in_installed_on app,
          af_last_used = (case in_last_played app of
             Some t \<Rightarrow> Some t
           | None \<Rightarrow> (case Option.bind launched us_last_run of
                Some t \<Rightarrow> Some t
              | None \<Rightarrow> Option.bind (match_by_name (am_text am) (hi_unattributed hist) (in_name app)
                           (Some (in_publisher app))) us_last_run)),
          af_launches = map_option us_runs launched\<rparr>)"

definition registry_listing :: "apps_machine \<Rightarrow> user_context \<Rightarrow> app_footprint list option" where
  "registry_listing am user =
     (case am_history am user of
        None \<Rightarrow> None
      | Some hist \<Rightarrow>
          Some (sort_desc_by (\<lambda>a. unwrap_or 0 (af_reported_bytes a))
            (sort_key (\<lambda>a. am_lower am (af_name a))
              (map (listed_app am hist) (with_steam_games (am_text am) (installed am user) (am_games am user))))))"

end
