(* ===== verification/Kam_Apps_Exact.thy ===== *)
theory Kam_Apps_Exact
  imports Kam_Apps
begin

text \<open>
  What the footprints of \<open>apps.rs\<close> promise: the directories of one application are listed once and
  none lies in another of them, a directory two applications claim is in no total, and the quick
  listing from the registry names the applications the measurement names.
\<close>

section \<open>Lists counted by a key\<close>

lemma count_list_filter_le: "count_list (map key (filter P xs)) k \<le> count_list (map key xs) k"
  by (induction xs) auto

lemma distinct_of_count: "(\<And>y. y \<in> set ys \<Longrightarrow> count_list ys y \<le> 1) \<Longrightarrow> distinct ys"
proof (induction ys)
  case (Cons y ys)
  have "y \<notin> set ys" using Cons.prems [of y] by (auto simp: count_list_0_iff [symmetric])
  moreover have "distinct ys"
  proof (rule Cons.IH)
    show "count_list ys z \<le> 1" if "z \<in> set ys" for z using Cons.prems [of z] that by (auto split: if_splits)
  qed
  ultimately show ?case by simp
qed simp

lemma distinct_unique_keys: "distinct (map key (filter (\<lambda>x. count_list (map key xs) (key x) \<le> 1) xs))"
proof (rule distinct_of_count)
  fix k
  assume "k \<in> set (map key (filter (\<lambda>x. count_list (map key xs) (key x) \<le> 1) xs))"
  then have "count_list (map key xs) k \<le> 1" by auto
  then show "count_list (map key (filter (\<lambda>x. count_list (map key xs) (key x) \<le> 1) xs)) k \<le> 1"
    using count_list_filter_le [of key _ xs k] by (metis le_trans)
qed

lemma count_list_distinct: "distinct xs \<Longrightarrow> count_list xs k = (if k \<in> set xs then 1 else 0)"
  by (induction xs) auto

lemma count_list_concat: "count_list (concat xss) k = sum_list (map (\<lambda>xs. count_list xs k) xss)"
  by (induction xss) auto

lemma sum_list_indicator: "sum_list (map (\<lambda>x. if P x then 1 else 0) xs) = length (filter P xs)"
  by (induction xs) auto

lemma mset_concat_sort: "mset (concat (map f (sort_desc_by g xs))) = mset (concat (map f xs))"
proof -
  have "mset (concat (map f ys)) = \<Sum>\<^sub># (image_mset (\<lambda>x. mset (f x)) (mset ys))" for ys by (induction ys) auto
  then show ?thesis by simp
qed

section \<open>The directories of one application\<close>

definition canon :: "apps_machine \<Rightarrow> location \<Rightarrow> str" where
  "canon am l = canonical_path (am_lower am) (lo_path l)"

lemma canon_abs: "canon am = (\<lambda>l. canonical_path (am_lower am) (lo_path l))"
  by (simp add: canon_def fun_eq_iff)

definition unlike :: "(str \<Rightarrow> str) \<Rightarrow> location list \<Rightarrow> bool" where
  "unlike lower ls \<longleftrightarrow> distinct (map (\<lambda>l. canonical_path lower (lo_path l)) ls)"

lemma unlike_Nil [simp]: "unlike lower []" by (simp add: unlike_def)

lemma push_unique_unlike [intro]: "unlike lower ls \<Longrightarrow> unlike lower (push_unique lower ls l)"
  by (auto simp: unlike_def push_unique_def list_ex_iff)

lemma foldl_keeps: "(\<And>a x. P a \<Longrightarrow> x \<in> set xs \<Longrightarrow> P (f a x)) \<Longrightarrow> P a \<Longrightarrow> P (foldl f a xs)"
  by (induction xs arbitrary: a) auto

lemma locate_app_unlike: "unlike (tr_lower tr) (locate_app tr app vi roots steam drive)"
proof -
  have steam: "unlike (tr_lower tr) ls \<Longrightarrow> unlike (tr_lower tr) (steam_location tr vi drive w ls g)" for ls w g
    by (auto simp: steam_location_def split: option.splits)
  have install: "unlike (tr_lower tr) ls \<Longrightarrow> unlike (tr_lower tr) (install_location tr vi p ls)" for ls p
    by (auto simp: install_location_def Let_def split: option.splits)
  have inner: "unlike (tr_lower tr) ls \<Longrightarrow> unlike (tr_lower tr) (inner_location tr vi k v w ls g)" for ls k v w g
    by (auto simp: inner_location_def split: option.splits)
  have child: "unlike (tr_lower tr) ls \<Longrightarrow> unlike (tr_lower tr) (child_location tr vi k rt w p ls c)" for ls k rt w p c
    by (auto simp: child_location_def Let_def split: option.splits intro!: foldl_keeps [where P = "unlike (tr_lower tr)"] inner)
  have rt: "unlike (tr_lower tr) ls \<Longrightarrow> unlike (tr_lower tr) (root_locations tr vi w p ls kr)" for ls w p kr
    by (auto simp: root_locations_def split: prod.splits option.splits intro!: foldl_keeps [where P = "unlike (tr_lower tr)"] child)
  have s: "unlike (tr_lower tr) (foldl (steam_location tr vi drive w) [] steam)" for w
    by (rule foldl_keeps [where P = "unlike (tr_lower tr)"]) (auto intro: steam)
  show ?thesis
    unfolding locate_app_def Let_def by (auto intro!: foldl_keeps [where P = "unlike (tr_lower tr)"] rt install s)
qed

lemma contains_another_iff:
  assumes "i < length paths"
  shows "contains_another paths i \<longleftrightarrow> (\<exists>q \<in> set paths. prefix (paths ! i @ [CHR 0x5C]) q)"
proof
  assume "contains_another paths i"
  then show "\<exists>q \<in> set paths. prefix (paths ! i @ [CHR 0x5C]) q" by (auto simp: contains_another_def list_ex_iff)
next
  assume "\<exists>q \<in> set paths. prefix (paths ! i @ [CHR 0x5C]) q"
  then obtain j where j: "j < length paths" "prefix (paths ! i @ [CHR 0x5C]) (paths ! j)" by (auto simp: in_set_conv_nth)
  then have "j \<noteq> i" by (auto dest: prefix_length_le)
  with j show "contains_another paths i" by (auto simp: contains_another_def list_ex_iff)
qed

lemma filter_zip_fst: "length xs = length js \<Longrightarrow> map fst (filter (\<lambda>(l, i). P l) (zip xs js)) = filter P xs"
  by (induction xs js rule: list_induct2) auto

lemma drop_ancestors_filter:
  "drop_ancestors lower ls =
     filter (\<lambda>l. \<forall>m \<in> set ls. \<not> prefix (canonical_path lower (lo_path l) @ [CHR 0x5C]) (canonical_path lower (lo_path m))) ls"
proof -
  let ?c = "\<lambda>l. canonical_path lower (lo_path l)" and ?n = "[0..<length ls]"
  let ?P = "\<lambda>l. \<forall>m \<in> set ls. \<not> prefix (?c l @ [CHR 0x5C]) (?c m)"
  have step: "(\<not> contains_another (map ?c ls) i) = ?P (ls ! i)" if "i < length ls" for i
    using contains_another_iff [of i "map ?c ls"] that by simp
  have "filter (\<lambda>(l, i). \<not> contains_another (map ?c ls) i) (zip ls ?n) = filter (\<lambda>(l, i). ?P l) (zip ls ?n)"
  proof (rule filter_cong [OF refl])
    fix x
    assume "x \<in> set (zip ls ?n)"
    then obtain i where "i < length ls" "x = (ls ! i, i)" by (auto simp: set_zip)
    then show "(case x of (l, i) \<Rightarrow> \<not> contains_another (map ?c ls) i) = (case x of (l, i) \<Rightarrow> ?P l)" using step by simp
  qed
  moreover have "map fst (filter (\<lambda>(l, i). ?P l) (zip ls ?n)) = filter ?P ls" by (rule filter_zip_fst) simp
  ultimately show ?thesis unfolding drop_ancestors_def Let_def by (rule trans [OF arg_cong [where f = "map fst"]])
qed

lemma drop_ancestors_unlike: "unlike lower ls \<Longrightarrow> unlike lower (drop_ancestors lower ls)"
  by (simp add: drop_ancestors_filter unlike_def distinct_map_filter)

section \<open>The whole list\<close>

lemma canon_marked [simp]: "lo_path (mark_shared lower claims l) = lo_path l"
  by (simp add: mark_shared_def Let_def)

lemma locations_of_footprint:
  "af_locations (footprint_of tr hist claims (app, ls)) = map (mark_shared (tr_lower tr) claims) ls"
  by (simp add: footprint_of_def Let_def)

lemma footprints_Some:
  assumes "footprints am vi drive user = Some apps"
  obtains hist cs where "cs = candidates_of am vi drive user"
    and "apps = sort_desc_by (\<lambda>a. unat (af_actual_bytes a)) (map (footprint_of (am_text am) hist (map snd cs)) cs)"
    and "\<And>app ls. (app, ls) \<in> set cs \<Longrightarrow> unlike (am_lower am) ls"
    and "\<And>app ls. (app, ls) \<in> set cs \<Longrightarrow>
           \<forall>l \<in> set ls. \<forall>m \<in> set ls. \<not> prefix (canon am l @ [CHR 0x5C]) (canon am m)"
proof -
  obtain hist where hist: "am_history am user = Some hist" using assms by (auto simp: footprints_def split: option.splits)
  have a: "apps = sort_desc_by (\<lambda>a. unat (af_actual_bytes a))
      (map (footprint_of (am_text am) hist (map snd (candidates_of am vi drive user))) (candidates_of am vi drive user))"
    using assms hist by (simp add: footprints_def Let_def)
  show thesis
  proof (rule that [OF refl a])
    fix app ls
    assume "(app, ls) \<in> set (candidates_of am vi drive user)"
    then obtain rts steam where ls: "ls = drop_ancestors (am_lower am) (locate_app (am_text am) app vi rts steam drive)"
      by (auto simp: candidates_of_def Let_def)
    show "unlike (am_lower am) ls"
      unfolding ls by (rule drop_ancestors_unlike) (simp add: am_lower_def locate_app_unlike)
    show "\<forall>l \<in> set ls. \<forall>m \<in> set ls. \<not> prefix (canon am l @ [CHR 0x5C]) (canon am m)"
      unfolding ls by (auto simp: drop_ancestors_filter canon_def)
  qed
qed

lemma claim_count_candidates:
  assumes "\<And>app ls. (app, ls) \<in> set cs \<Longrightarrow> unlike lower ls"
  shows "claim_count lower (map snd cs) k = length (filter (\<lambda>(app, ls). k \<in> (\<lambda>l. canonical_path lower (lo_path l)) ` set ls) cs)"
proof -
  let ?c = "\<lambda>l. canonical_path lower (lo_path l)"
  have "claim_count lower (map snd cs) k = sum_list (map (\<lambda>(app, ls). count_list (map ?c ls) k) cs)"
    by (simp add: claim_count_def map_concat count_list_concat comp_def case_prod_unfold)
  also have "\<dots> = sum_list (map (\<lambda>(app, ls). if k \<in> ?c ` set ls then 1 else 0) cs)"
    using assms by (intro arg_cong [of _ _ sum_list] map_cong refl) (auto simp: unlike_def count_list_distinct)
  finally show ?thesis by (simp add: sum_list_indicator case_prod_unfold)
qed

definition unshared :: "app_footprint \<Rightarrow> location list" where
  "unshared a = filter (\<lambda>l. lo_shared_with l = 0) (af_locations a)"

text \<open>C23: a directory is in at most one total. Whatever the index and the registry hold, the directories
  that enter totals are different over all applications, in one application none lies in another, and
  each total is the sum over its own.
\<close>

theorem each_directory_counted_once:
  assumes "footprints am vi drive user = Some apps"
  shows "distinct (map (canon am) (concat (map unshared apps)))
    \<and> (\<forall>a \<in> set apps. af_actual_bytes a = sum_list (map lo_bytes (unshared a))
         \<and> (\<forall>l \<in> set (af_locations a). \<forall>m \<in> set (af_locations a). \<not> prefix (canon am l @ [CHR 0x5C]) (canon am m)))"
proof -
  obtain hist cs where apps: "apps = sort_desc_by (\<lambda>a. unat (af_actual_bytes a))
      (map (footprint_of (am_text am) hist (map snd cs)) cs)"
    and apart: "\<And>app ls. (app, ls) \<in> set cs \<Longrightarrow>
           \<forall>l \<in> set ls. \<forall>m \<in> set ls. \<not> prefix (canon am l @ [CHR 0x5C]) (canon am m)"
    using footprints_Some [OF assms] by metis
  let ?fp = "footprint_of (am_text am) hist (map snd cs)" and ?all = "concat (map snd cs)"
  let ?mk = "mark_shared (am_lower am) (map snd cs)"
  have one: "unshared (?fp c) = map ?mk (filter (\<lambda>l. count_list (map (canon am) ?all) (canon am l) \<le> 1) (snd c))" for c
  proof -
    obtain app ls where c: "c = (app, ls)" by (cases c)
    have "lo_shared_with (?mk l) = 0 \<longleftrightarrow> count_list (map (canon am) ?all) (canon am l) \<le> 1" for l
      by (auto simp: mark_shared_def claim_count_def canon_abs Let_def)
    then show ?thesis by (simp add: unshared_def c locations_of_footprint am_lower_def [symmetric] filter_map comp_def)
  qed
  have "mset (map (canon am) (concat (map unshared apps))) = mset (map (canon am) (concat (map unshared (map ?fp cs))))"
    unfolding apps by (simp only: mset_map mset_concat_sort)
  also have "map (canon am) (concat (map unshared (map ?fp cs)))
      = map (canon am) (filter (\<lambda>l. count_list (map (canon am) ?all) (canon am l) \<le> 1) ?all)"
    by (simp add: comp_def one filter_concat map_concat canon_abs)
  finally have "distinct (map (canon am) (concat (map unshared apps)))"
    using distinct_unique_keys [of "canon am" ?all] mset_eq_imp_distinct_iff by blast
  moreover have "af_actual_bytes a = sum_list (map lo_bytes (unshared a))
      \<and> (\<forall>l \<in> set (af_locations a). \<forall>m \<in> set (af_locations a). \<not> prefix (canon am l @ [CHR 0x5C]) (canon am m))"
    if mem: "a \<in> set apps" for a
  proof -
    obtain app ls where a: "(app, ls) \<in> set cs" "a = ?fp (app, ls)" using mem by (auto simp: apps)
    show ?thesis using apart [OF a(1)]
      by (auto simp: a(2) unshared_def footprint_of_def Let_def canon_def)
  qed
  ultimately show ?thesis by blast
qed

text \<open>The number beside a directory is how many other applications claim it.\<close>

theorem shared_with_counts_the_others:
  assumes "footprints am vi drive user = Some apps" and "a \<in> set apps" and "l \<in> set (af_locations a)"
  shows "Suc (lo_shared_with l) = length (filter (\<lambda>b. canon am l \<in> canon am ` set (af_locations b)) apps)"
proof -
  obtain hist cs where apps: "apps = sort_desc_by (\<lambda>a. unat (af_actual_bytes a))
      (map (footprint_of (am_text am) hist (map snd cs)) cs)"
    and unlike: "\<And>app ls. (app, ls) \<in> set cs \<Longrightarrow> unlike (am_lower am) ls"
    using footprints_Some [OF assms(1)] by metis
  let ?fp = "footprint_of (am_text am) hist (map snd cs)"
  obtain app ls m where a: "(app, ls) \<in> set cs" "a = ?fp (app, ls)" and m: "m \<in> set ls"
    "l = mark_shared (am_lower am) (map snd cs) m"
    using assms(2,3) by (auto simp: apps locations_of_footprint am_lower_def)
  let ?k = "canon am l"
  have locs: "canon am ` set (af_locations (?fp (x, ys))) = canon am ` set ys" for x ys
    by (simp add: locations_of_footprint canon_abs image_image)
  have "length (filter (\<lambda>b. ?k \<in> canon am ` set (af_locations b)) apps)
      = length (filter (\<lambda>b. ?k \<in> canon am ` set (af_locations b)) (map ?fp cs))"
    unfolding apps by (metis mset_filter mset_sort_desc_by size_mset)
  also have "\<dots> = length (filter (\<lambda>(x, ys). ?k \<in> canon am ` set ys) cs)"
  proof -
    have "canon am ` set (af_locations (?fp c)) = canon am ` set (snd c)" for c by (cases c) (simp add: locs)
    then show ?thesis by (simp add: filter_map comp_def case_prod_unfold)
  qed
  also have "\<dots> = claim_count (am_lower am) (map snd cs) ?k"
    using claim_count_candidates [of cs "am_lower am" ?k] unlike by (simp add: canon_abs)
  finally have n: "claim_count (am_lower am) (map snd cs) ?k = length (filter (\<lambda>b. ?k \<in> canon am ` set (af_locations b)) apps)"
    by simp
  have "0 < claim_count (am_lower am) (map snd cs) ?k"
    using a(1) m by (force simp: claim_count_def canon_abs count_list_0_iff simp flip: neq0_conv)
  then have "Suc (lo_shared_with l) = claim_count (am_lower am) (map snd cs) ?k"
    by (simp add: m(2) mark_shared_def Let_def canon_def)
  with n show ?thesis by simp
qed

section \<open>Games and listings\<close>

text \<open>
  Games are only added: every application of the registry stays as it is and in its place, and every
  game with a name is in the list under that name, with its own entry or its application's.
\<close>

theorem steam_games_only_add:
  "take (length apps) (with_steam_games tr apps steam) = apps
   \<and> (\<forall>a \<in> set (drop (length apps) (with_steam_games tr apps steam)).
        \<exists>g \<in> set steam. a = game_app g \<and> normalise_name tr (sa_name g) \<notin> (\<lambda>b. normalise_name tr (in_name b)) ` set apps)
   \<and> (\<forall>g \<in> set steam. normalise_name tr (sa_name g) \<noteq> [] \<longrightarrow>
        normalise_name tr (sa_name g) \<in> (\<lambda>a. normalise_name tr (in_name a)) ` set (with_steam_games tr apps steam))"
proof -
  have "normalise_name tr (sa_name g) \<in> (\<lambda>a. normalise_name tr (in_name a)) ` set (with_steam_games tr apps steam)"
    if "g \<in> set steam" "normalise_name tr (sa_name g) \<noteq> []" for g
  proof (cases "normalise_name tr (sa_name g) \<in> (\<lambda>a. normalise_name tr (in_name a)) ` set apps")
    case False
    then have "game_app g \<in> set (with_steam_games tr apps steam)" using that by (simp add: with_steam_games_def Let_def)
    then show ?thesis by (rule rev_image_eqI) (simp add: game_app_def)
  qed (auto simp: with_steam_games_def Let_def)
  then show ?thesis by (auto simp: with_steam_games_def Let_def)
qed

text \<open>What identifies a row of either list: everything the registry says of the application.\<close>

definition claimed_facts :: "app_footprint \<Rightarrow> str \<times> str \<times> str \<times> nat option \<times> str option \<times> str option" where
  "claimed_facts a = (af_name a, af_publisher a, af_version a, af_reported_bytes a, af_uninstall_command a, af_installed_on a)"

text \<open>The quick listing and the measurement hold the same applications with the same claims, and the listing measures nothing.\<close>

theorem listing_and_measurement_agree:
  assumes "registry_listing am user = Some listing" and "footprints am vi drive user = Some apps"
  shows "mset (map claimed_facts listing) = mset (map claimed_facts apps)
    \<and> (\<forall>a \<in> set listing. af_actual_bytes a = 0 \<and> af_shared_bytes a = 0 \<and> af_locations a = [])"
proof -
  obtain hist where hist: "am_history am user = Some hist" using assms(2) by (auto simp: footprints_def split: option.splits)
  let ?found = "with_steam_games (am_text am) (installed am user) (am_games am user)"
  let ?cs = "candidates_of am vi drive user"
  have l: "listing = sort_desc_by (\<lambda>a. unwrap_or 0 (af_reported_bytes a))
      (sort_key (\<lambda>a. am_lower am (af_name a)) (map (listed_app am hist) ?found))"
    using assms(1) hist by (simp add: registry_listing_def)
  have a: "apps = sort_desc_by (\<lambda>a. unat (af_actual_bytes a)) (map (footprint_of (am_text am) hist (map snd ?cs)) ?cs)"
    using assms(2) hist by (simp add: footprints_def Let_def)
  have facts: "claimed_facts (footprint_of (am_text am) hist claims (app, ls)) = claimed_facts (listed_app am hist app)" for claims app ls
    by (simp add: claimed_facts_def footprint_of_def listed_app_def Let_def)
  have "mset (map claimed_facts apps) = mset (map (\<lambda>c. claimed_facts (listed_app am hist (fst c))) ?cs)"
  proof -
    have "mset (map claimed_facts apps) = mset (map claimed_facts (map (footprint_of (am_text am) hist (map snd ?cs)) ?cs))"
      unfolding a by (simp only: mset_map mset_sort_desc_by)
    also have "map claimed_facts (map (footprint_of (am_text am) hist (map snd ?cs)) ?cs) = map (\<lambda>c. claimed_facts (listed_app am hist (fst c))) ?cs"
      using facts by (auto simp: case_prod_unfold)
    finally show ?thesis .
  qed
  also have "map (\<lambda>c. claimed_facts (listed_app am hist (fst c))) ?cs = map (\<lambda>app. claimed_facts (listed_app am hist app)) ?found"
    by (simp add: candidates_of_def Let_def comp_def)
  also have "mset \<dots> = mset (map claimed_facts listing)"
    by (simp add: l image_mset.compositionality comp_def)
  finally show ?thesis by (auto simp: l listed_app_def Let_def)
qed

section \<open>A machine with three applications\<close>

definition plain_text :: text_rules where
  "plain_text = \<lparr>tr_lower = ascii_lower, tr_alphanumeric = (\<lambda>u. u \<noteq> '' ''), tr_lower_char = ascii_lower\<rparr>"

definition uninstall_sample :: "str \<Rightarrow> str \<Rightarrow> uninstall_key option" where
  "uninstall_sample nm publisher =
     Some \<lparr>un_string = (\<lambda>v. if v = ''DisplayName'' then Some nm else if v = ''Publisher'' then Some publisher else None),
           un_dword = (\<lambda>v. None)\<rparr>"

definition sample_apps :: apps_machine where
  "sample_apps =
     \<lparr>am_text = plain_text, am_env = [(''ProgramData'', slashes ''C:/ProgramData'')],
      am_uninstall = (\<lambda>rt path vw. if rt = HKEY_LOCAL_MACHINE \<and> vw = Native
         then Some [uninstall_sample ''Acme'' [], uninstall_sample ''Tools'' ''Acme''] else None),
      am_games = (\<lambda>user. []), am_history = (\<lambda>user. Some \<lparr>hi_by_path = [], hi_unattributed = []\<rparr>)\<rparr>"

definition sample_folder :: "u32 \<Rightarrow> str \<Rightarrow> mft_entry" where
  "sample_folder up nm = \<lparr>parent = up, ename = nm, is_directory = True, ebytes = 0, modified = 0, created = 0, accessed = 0\<rparr>"

definition sample_volume :: volume_index where
  "sample_volume =
     \<lparr>snapshot = \<lparr>entries = [(5, sample_folder 5 ''.''), (10, sample_folder 5 ''ProgramData''),
          (11, sample_folder 10 ''Acme''), (12, sample_folder 11 ''Tools''), (13, sample_folder 10 ''Zebra'')], root = 5, skipped = 0, stats = default_stats\<rparr>,
      directories = [5 \<mapsto> [10], 10 \<mapsto> [11, 13], 11 \<mapsto> [12]], children = [5 \<mapsto> [10], 10 \<mapsto> [11, 13], 11 \<mapsto> [12]],
      totals = [5 \<mapsto> 0x5000064, 10 \<mapsto> 0x5000064, 11 \<mapsto> 100, 12 \<mapsto> 60, 13 \<mapsto> 0x5000000], direct_files = Map.empty,
      vi_file_count = 3, vi_directory_count = 5, vi_total_bytes = 0x5000064\<rparr>"

definition sample_owner :: user_context where
  "sample_owner = \<lparr>uc_sid = None, uc_profile = slashes ''C:/Users/ari''\<rparr>"

lemma sample_installed:
  "map (\<lambda>a. (in_name a, in_publisher a, in_install_location a)) (installed sample_apps sample_owner) = [(''Acme'', [], None), (''Tools'', ''Acme'', None)]"
  by code_simp

lemma sample_names:
  "normalise_name plain_text ''Acme'' = ''acme''" "normalise_name plain_text ''Tools'' = ''tools''" "normalise_name plain_text [] = []"
  "names_match ''acme'' ''acme''" "\<not> names_match ''acme'' ''tools''" "names_match ''tools'' ''tools''"
  "normalise_name plain_text ''Zebra'' = ''zebra''" "\<not> names_match ''zebra'' ''acme''" "\<not> names_match ''zebra'' ''tools''"
  by code_simp+

lemma sample_resolve:
  "resolve ascii_lower sample_volume (slashes ''C:/ProgramData'') = Some 10"
  "resolve ascii_lower sample_volume (slashes ''C:/Users/ari/AppData/Local'') = None"
  "resolve ascii_lower sample_volume (slashes ''C:/Users/ari/AppData/Roaming'') = None"
proof -
  have split: "split_path (slashes ''C:/ProgramData'') = [''ProgramData'']"
    "split_path (slashes ''C:/Users/ari/AppData/Local'') = [''Users'', ''ari'', ''AppData'', ''Local'']"
    "split_path (slashes ''C:/Users/ari/AppData/Roaming'') = [''Users'', ''ari'', ''AppData'', ''Roaming'']"
    by code_simp+
  have low: "ascii_lower ''ProgramData'' \<noteq> ascii_lower ''Users''" by code_simp
  show "resolve ascii_lower sample_volume (slashes ''C:/ProgramData'') = Some 10"
    "resolve ascii_lower sample_volume (slashes ''C:/Users/ari/AppData/Local'') = None"
    "resolve ascii_lower sample_volume (slashes ''C:/Users/ari/AppData/Roaming'') = None"
    using low by (simp_all add: resolve_def split sample_volume_def children_of_def entry_at_def sample_folder_def)
qed

theorem each_directory_counted_once_witness:
  "\<exists>apps. footprints sample_apps sample_volume ''C:'' sample_owner = Some apps
     \<and> distinct (map (canon sample_apps) (concat (map unshared apps)))"
proof -
  obtain apps where a: "footprints sample_apps sample_volume ''C:'' sample_owner = Some apps"
    by (simp add: footprints_def sample_apps_def Let_def)
  with each_directory_counted_once [OF a] show ?thesis by blast
qed

theorem listing_and_measurement_agree_witness:
  "\<exists>listing apps. registry_listing sample_apps sample_owner = Some listing
     \<and> footprints sample_apps sample_volume ''C:'' sample_owner = Some apps
     \<and> mset (map claimed_facts listing) = mset (map claimed_facts apps)"
proof -
  obtain apps where a: "footprints sample_apps sample_volume ''C:'' sample_owner = Some apps"
    by (simp add: footprints_def sample_apps_def Let_def)
  obtain listing where l: "registry_listing sample_apps sample_owner = Some listing"
    by (simp add: registry_listing_def sample_apps_def)
  from listing_and_measurement_agree [OF l a] a l show ?thesis by blast
qed

lemma sample_roots:
  "data_roots (am_env sample_apps) sample_owner =
     [(ProgramData, slashes ''C:/ProgramData''), (LocalData, slashes ''C:/Users/ari/AppData/Local''),
      (RoamingData, slashes ''C:/Users/ari/AppData/Roaming'')]"
  by code_simp

lemma sample_locate:
  "in_name app = ''Acme'' \<Longrightarrow> in_publisher app = [] \<Longrightarrow> in_install_location app = None \<Longrightarrow>
     locate_app plain_text app sample_volume (data_roots (am_env sample_apps) sample_owner) [] ''C:''
       = [found_location (slashes ''C:/ProgramData/Acme'') 100 ProgramData]"
  "in_name app = ''Tools'' \<Longrightarrow> in_publisher app = ''Acme'' \<Longrightarrow> in_install_location app = None \<Longrightarrow>
     locate_app plain_text app sample_volume (data_roots (am_env sample_apps) sample_owner) [] ''C:''
       = [found_location (slashes ''C:/ProgramData/Acme/Tools'') 60 ProgramData]"
proof -
  have low: "tr_lower plain_text = ascii_lower" by (simp add: plain_text_def)
  have index: "directories_in sample_volume 10 = [11, 13]" "directories_in sample_volume 11 = [12]"
    "map_option ename (entry_at sample_volume 11) = Some ''Acme''" "map_option ename (entry_at sample_volume 12) = Some ''Tools''"
    "map_option ename (entry_at sample_volume 13) = Some ''Zebra''"
    "total_of sample_volume 11 = 100" "total_of sample_volume 12 = 60"
    by (simp_all add: directories_in_def entry_at_def total_of_def sample_volume_def sample_folder_def)
  then obtain acme tools zebra where e: "entry_at sample_volume 11 = Some acme" "ename acme = ''Acme''"
    "entry_at sample_volume 12 = Some tools" "ename tools = ''Tools''" "entry_at sample_volume 13 = Some zebra" "ename zebra = ''Zebra''" by auto
  note all = locate_app_def Let_def install_location_def root_locations_def child_location_def inner_location_def push_unique_def
    sample_roots sample_resolve low index e sample_names
  show "in_name app = ''Acme'' \<Longrightarrow> in_publisher app = [] \<Longrightarrow> in_install_location app = None \<Longrightarrow>
     locate_app plain_text app sample_volume (data_roots (am_env sample_apps) sample_owner) [] ''C:''
       = [found_location (slashes ''C:/ProgramData/Acme'') 100 ProgramData]"
    by (simp add: all) (simp add: slashes_def)
  show "in_name app = ''Tools'' \<Longrightarrow> in_publisher app = ''Acme'' \<Longrightarrow> in_install_location app = None \<Longrightarrow>
     locate_app plain_text app sample_volume (data_roots (am_env sample_apps) sample_owner) [] ''C:''
       = [found_location (slashes ''C:/ProgramData/Acme/Tools'') 60 ProgramData]"
    by (simp add: all) (simp add: slashes_def)
qed

lemma sample_candidates:
  obtains acme tools where "in_name acme = ''Acme''" "in_publisher acme = []" "in_name tools = ''Tools''" "in_publisher tools = ''Acme''"
    "candidates_of sample_apps sample_volume ''C:'' sample_owner =
    [(acme, [found_location (slashes ''C:/ProgramData/Acme'') 100 ProgramData]),
     (tools, [found_location (slashes ''C:/ProgramData/Acme/Tools'') 60 ProgramData])]"
proof -
  obtain acme tools where i: "installed sample_apps sample_owner = [acme, tools]"
    "in_name acme = ''Acme''" "in_publisher acme = []" "in_install_location acme = None"
    "in_name tools = ''Tools''" "in_publisher tools = ''Acme''" "in_install_location tools = None"
    using sample_installed by auto
  have one: "drop_ancestors lower [l] = [l]" for lower l by (simp add: drop_ancestors_filter)
  have t: "am_text sample_apps = plain_text" "am_games sample_apps sample_owner = []" by (simp_all add: sample_apps_def)
  have "candidates_of sample_apps sample_volume ''C:'' sample_owner =
    [(acme, [found_location (slashes ''C:/ProgramData/Acme'') 100 ProgramData]),
     (tools, [found_location (slashes ''C:/ProgramData/Acme/Tools'') 60 ProgramData])]"
    by (simp add: candidates_of_def Let_def t with_steam_games_def i sample_locate one)
  with i show thesis by (intro that)
qed

lemma sample_location:
  obtains apps a l where "footprints sample_apps sample_volume ''C:'' sample_owner = Some apps" "a \<in> set apps" "l \<in> set (af_locations a)"
    "lo_kind l = ProgramData"
proof -
  obtain acme tools where cs: "candidates_of sample_apps sample_volume ''C:'' sample_owner =
    [(acme, [found_location (slashes ''C:/ProgramData/Acme'') 100 ProgramData]),
     (tools, [found_location (slashes ''C:/ProgramData/Acme/Tools'') 60 ProgramData])]"
    by (rule sample_candidates)
  obtain hist where h: "am_history sample_apps sample_owner = Some hist" by (simp add: sample_apps_def)
  obtain apps where f: "footprints sample_apps sample_volume ''C:'' sample_owner = Some apps"
      and apps: "set apps = footprint_of (am_text sample_apps) hist (map snd (candidates_of sample_apps sample_volume ''C:'' sample_owner))
                ` set (candidates_of sample_apps sample_volume ''C:'' sample_owner)"
    by (simp add: footprints_def h Let_def)
  let ?claims = "map snd (candidates_of sample_apps sample_volume ''C:'' sample_owner)"
  let ?a = "footprint_of (am_text sample_apps) hist ?claims (acme, [found_location (slashes ''C:/ProgramData/Acme'') 100 ProgramData])"
  have "?a \<in> set apps" by (simp add: apps cs)
  moreover have "mark_shared (tr_lower (am_text sample_apps)) ?claims (found_location (slashes ''C:/ProgramData/Acme'') 100 ProgramData)
      \<in> set (af_locations ?a)" by (simp add: locations_of_footprint)
  moreover have "lo_kind (mark_shared (tr_lower (am_text sample_apps)) ?claims (found_location (slashes ''C:/ProgramData/Acme'') 100 ProgramData)) = ProgramData"
    by (simp add: mark_shared_def found_location_def Let_def)
  ultimately show thesis by (rule that [OF f])
qed

theorem shared_with_counts_the_others_witness:
  "\<exists>apps a l. footprints sample_apps sample_volume ''C:'' sample_owner = Some apps \<and> a \<in> set apps \<and> l \<in> set (af_locations a)
     \<and> Suc (lo_shared_with l) = length (filter (\<lambda>b. canon sample_apps l \<in> canon sample_apps ` set (af_locations b)) apps)"
proof -
  obtain apps a l where f: "footprints sample_apps sample_volume ''C:'' sample_owner = Some apps" and a: "a \<in> set apps" "l \<in> set (af_locations a)"
    by (rule sample_location)
  from shared_with_counts_the_others [OF f a] f a show ?thesis by blast
qed

text \<open>
  A directory of one application inside a directory of another is in both totals: the folder of a
  vendor that is also the name of a product counts with all that is in it, and the product inside
  counts it again. Only equal directories are compared.
\<close>

lemma nested_directories_counted_twice:
  "\<exists>apps a b l m. footprints sample_apps sample_volume ''C:'' sample_owner = Some apps \<and> a \<in> set apps \<and> b \<in> set apps
     \<and> l \<in> set (unshared a) \<and> m \<in> set (unshared b) \<and> af_actual_bytes a = 100 \<and> af_actual_bytes b = 60
     \<and> prefix (canon sample_apps l @ [CHR 0x5C]) (canon sample_apps m)"
proof -
  obtain acme tools where cs: "candidates_of sample_apps sample_volume ''C:'' sample_owner =
    [(acme, [found_location (slashes ''C:/ProgramData/Acme'') 100 ProgramData]),
     (tools, [found_location (slashes ''C:/ProgramData/Acme/Tools'') 60 ProgramData])]" (is "_ = [(_, [?l]), (_, [?m])]")
    by (rule sample_candidates)
  obtain hist where h: "am_history sample_apps sample_owner = Some hist" by (simp add: sample_apps_def)
  let ?claims = "[[?l], [?m]]" and ?fp = "footprint_of (am_text sample_apps) hist [[?l], [?m]]"
  let ?apps = "sort_desc_by (\<lambda>a. unat (af_actual_bytes a)) [?fp (acme, [?l]), ?fp (tools, [?m])]"
  have f: "footprints sample_apps sample_volume ''C:'' sample_owner = Some ?apps"
    by (simp add: footprints_def h cs Let_def)
  have c: "canonical_path ascii_lower (slashes ''C:/ProgramData/Acme'') = slashes ''c:/programdata/acme''"
    "canonical_path ascii_lower (slashes ''C:/ProgramData/Acme/Tools'') = slashes ''c:/programdata/acme/tools''"
    "slashes ''c:/programdata/acme'' \<noteq> slashes ''c:/programdata/acme/tools''"
    "prefix (slashes ''c:/programdata/acme'' @ [CHR 0x5C]) (slashes ''c:/programdata/acme/tools'')"
    by code_simp+
  have low: "tr_lower (am_text sample_apps) = ascii_lower" by (simp add: sample_apps_def plain_text_def)
  have mark: "mark_shared ascii_lower ?claims ?l = ?l" "mark_shared ascii_lower ?claims ?m = ?m"
    using c(3) by (auto simp: mark_shared_def claim_count_def found_location_def c(1,2) Let_def)
  have fields: "lo_shared_with ?l = 0" "lo_shared_with ?m = 0" "lo_bytes ?l = 100" "lo_bytes ?m = 60"
    by (simp_all add: found_location_def)
  have fp: "unshared (?fp (acme, [?l])) = [?l]" "unshared (?fp (tools, [?m])) = [?m]"
    "af_actual_bytes (?fp (acme, [?l])) = 100" "af_actual_bytes (?fp (tools, [?m])) = 60"
    using fields by (simp_all add: unshared_def footprint_of_def Let_def low mark)
  have "canon sample_apps ?l = slashes ''c:/programdata/acme''" "canon sample_apps ?m = slashes ''c:/programdata/acme/tools''"
    using c by (simp_all add: canon_def am_lower_def low found_location_def)
  with f fp c(4) show ?thesis
    by (intro exI [of _ ?apps] exI [of _ "?fp (acme, [?l])"] exI [of _ "?fp (tools, [?m])"] exI [of _ ?l] exI [of _ ?m]) simp
qed

end
