(* ===== verification/Kam_Orphans.thy ===== *)
theory Kam_Orphans
  imports Kam_Apps_Exact Kam_Paths
begin

text \<open>
  Directories left behind by software that is gone, \<open>crates/kam-storage/src/orphans.rs\<close>: which folders
  of the data roots no installed application accounts for, how sure that is, and the fence the agent
  puts a path through before it is moved. Days are compared as the integers they are, which the
  floating-point comparison of the sources agrees with below 2^53.
\<close>

definition SIZE_FLOOR :: u64 where "SIZE_FLOOR = 64 * 1024 * 1024"
definition STALE_DAYS :: nat where "STALE_DAYS = 365"
definition ACTIVE_DAYS :: nat where "ACTIVE_DAYS = 90"

definition NEVER_ORPHANS :: "str list" where
  "NEVER_ORPHANS =
     [''microsoft'', ''windows'', ''windowsapps'', ''packages'', ''packagecache'', ''package cache'', ''temp'', ''tmp'',
      ''crashdumps'', ''connecteddevicesplatform'', ''comms'', ''d3dscache'', ''elevateddiagnostics'', ''virtualstore'',
      ''placeholdertilelogofolder'', ''softwaredistribution'', ''usoprivate'', ''usoshared'', ''ssh'', ''applicationdata'',
      ''application data'', ''desktop'', ''documents'', ''downloads'', ''favorites'', ''startmenu'', ''start menu'',
      ''templates'', ''history'', ''inetcache'', ''iconcache'', ''programs'', ''publisher'', ''systemdata'', ''defender'',
      ''windowsdefender'']"

datatype confidence = Low | Medium | High

primrec confidence_rank :: "confidence \<Rightarrow> nat" where
  "confidence_rank Low = 0"
| "confidence_rank Medium = 1"
| "confidence_rank High = 2"

record orphan =
  or_path :: str
  or_name :: str
  or_bytes :: u64
  or_kind :: location_kind
  or_confidence :: confidence
  or_days :: "nat option"
  or_reasons :: "str list"

definition filetime_to_unix :: "u64 \<Rightarrow> nat option" where
  "filetime_to_unix filetime =
     (if filetime = 0 then None
      else (let ticks = unat filetime div 10000000
            in if FILETIME_EPOCH_OFFSET \<le> ticks then Some (ticks - FILETIME_EPOCH_OFFSET) else None))"

definition days_since :: "u64 \<Rightarrow> nat \<Rightarrow> nat option" where
  "days_since filetime now = map_option (\<lambda>seconds. (now - seconds) div 86400) (filetime_to_unix filetime)"

definition claimed_names :: "text_rules \<Rightarrow> app_footprint list \<Rightarrow> str list" where
  "claimed_names tr apps =
     filter (\<lambda>n. n \<noteq> []) (concat (map (\<lambda>a. [normalise_name tr (af_name a), normalise_name tr (af_publisher a)]) apps))"

definition is_claimed :: "str \<Rightarrow> str list \<Rightarrow> bool" where
  "is_claimed folder claimed \<longleftrightarrow>
     (if folder \<in> set claimed then True
      else list_ex (\<lambda>nm. if length folder < 4 \<or> length nm < 4 then False
                         else contains folder nm \<or> contains nm folder) claimed)"

text \<open>\<open>{:.1}\<close> of days in years: to the nearest tenth, which is never half way.\<close>

definition tenths_of_years :: "nat \<Rightarrow> str" where
  "tenths_of_years days =
     (let n = (20 * days + 365) div 730 in show_nat (n div 10) @ ''.'' @ show_nat (n mod 10))"

definition judge_age :: "nat option \<Rightarrow> confidence \<times> str" where
  "judge_age days =
     (case days of
        Some d \<Rightarrow>
          if STALE_DAYS < d then (High, ''nothing has written to it in '' @ tenths_of_years d @ '' years'')
          else if d < ACTIVE_DAYS
          then (Low, ''but something wrote to it '' @ show_nat d @ '' days ago, so it is probably still in use'')
          else (Medium, ''last written to '' @ show_nat d @ '' days ago'')
      | None \<Rightarrow> (Low, ''its last-write time could not be read''))"

definition windows_owns :: "text_rules \<Rightarrow> str \<Rightarrow> bool" where
  "windows_owns tr nm \<longleftrightarrow> tr_lower tr nm \<in> set NEVER_ORPHANS \<or> normalise_name tr nm \<in> set NEVER_ORPHANS"

definition orphan_of ::
  "text_rules \<Rightarrow> volume_index \<Rightarrow> str list \<Rightarrow> nat \<Rightarrow> location_kind \<Rightarrow> str \<Rightarrow> u32 \<Rightarrow> orphan option" where
  "orphan_of tr vi claimed now kind rt child =
     (case entry_at vi child of
        None \<Rightarrow> None
      | Some entry \<Rightarrow>
        (let folder = normalise_name tr (ename entry); bytes = total_of vi child; days = days_since (modified entry) now
         in if folder = [] \<or> windows_owns tr (ename entry) then None
            else if is_claimed folder claimed then None
            else if bytes < SIZE_FLOOR then None
            else (let (confidence, reason) = judge_age days
                  in Some \<lparr>or_path = rt @ [CHR 0x5C] @ ename entry, or_name = ename entry, or_bytes = bytes,
                           or_kind = kind, or_confidence = confidence, or_days = days,
                           or_reasons = [''no installed application matches the name '' @ [CHR 0x22] @ ename entry @ [CHR 0x22],
                                         reason]\<rparr>)))"

definition root_orphans ::
  "text_rules \<Rightarrow> volume_index \<Rightarrow> str list \<Rightarrow> nat \<Rightarrow> location_kind \<times> str \<Rightarrow> orphan list" where
  "root_orphans tr vi claimed now kr =
     (case kr of (kind, rt) \<Rightarrow>
      (case resolve (tr_lower tr) vi rt of
         None \<Rightarrow> []
       | Some index \<Rightarrow> List.map_filter (orphan_of tr vi claimed now kind rt) (directories_in vi index)))"

definition find_orphans ::
  "text_rules \<Rightarrow> environment \<Rightarrow> volume_index \<Rightarrow> app_footprint list \<Rightarrow> nat \<Rightarrow> user_context \<Rightarrow> orphan list" where
  "find_orphans tr env vi apps now user =
     sort_desc_by (\<lambda>x. confidence_rank (or_confidence x)) (sort_desc_by (\<lambda>x. unat (or_bytes x))
       (concat (map (root_orphans tr vi (claimed_names tr apps) now) (data_roots env user))))"

section \<open>The fence\<close>

fun judge_roots :: "text_rules \<Rightarrow> file_system \<Rightarrow> str \<Rightarrow> str \<Rightarrow> (location_kind \<times> str) list \<Rightarrow> str + unit" where
  "judge_roots tr fs path real [] =
     Inl (path @ '' is not inside ProgramData, Local AppData or Roaming AppData, which are the only places this will touch'')"
| "judge_roots tr fs path real ((kind, rt) # roots) =
     (case resolved_root (tr_lower tr) fs rt of
        None \<Rightarrow> judge_roots tr fs path real roots
      | Some r \<Rightarrow>
        (if real = r then Inl (path @ '' is a data root itself'')
         else (case strip_prefix (r @ [CHR 0x5C]) real of
                 None \<Rightarrow> judge_roots tr fs path real roots
               | Some remainder \<Rightarrow>
                 (if CHR 0x5C \<in> set remainder
                  then Inl (path @ '' is nested below a data root; only a directory directly inside one may be quarantined'')
                  else if CHR '':'' \<in> set remainder then Inl (path @ '' is not a plain directory name'')
                  else if remainder \<in> set NEVER_ORPHANS \<or> normalise_name tr remainder \<in> set NEVER_ORPHANS
                  then Inl (path @ '' is a directory Windows owns'')
                  else Inr ()))))"

definition check_quarantinable :: "text_rules \<Rightarrow> environment \<Rightarrow> file_system \<Rightarrow> str \<Rightarrow> user_context \<Rightarrow> str + unit" where
  "check_quarantinable tr env fs path user =
     (case existing_plain (tr_lower tr) fs path of
        None \<Rightarrow> Inl (path @ '' could not be found on disk, so it will not be touched'')
      | Some real \<Rightarrow> judge_roots tr fs path (trim_end_matches is_path_separator real) (data_roots env user))"

record orphan_summary =
  os_found :: nat
  os_total_bytes :: u64
  os_confident_bytes :: u64

definition summarise_orphans :: "orphan list \<Rightarrow> orphan_summary" where
  "summarise_orphans orphans =
     \<lparr>os_found = length orphans, os_total_bytes = sum_list (map or_bytes orphans),
      os_confident_bytes = sum_list (map or_bytes (filter (\<lambda>x. or_confidence x = High) orphans))\<rparr>"

section \<open>What the fence lets through\<close>

lemma judge_roots_accepts:
  "judge_roots tr fs path real roots = Inr () \<Longrightarrow>
     \<exists>kind rt r nm. (kind, rt) \<in> set roots \<and> resolved_root (tr_lower tr) fs rt = Some r \<and> real = r @ [CHR 0x5C] @ nm
       \<and> CHR 0x5C \<notin> set nm \<and> CHR '':'' \<notin> set nm \<and> nm \<notin> set NEVER_ORPHANS \<and> normalise_name tr nm \<notin> set NEVER_ORPHANS"
proof (induction roots)
  case (Cons kr roots)
  obtain kind rt where kr: "kr = (kind, rt)" by (cases kr)
  show ?case
  proof (cases "resolved_root (tr_lower tr) fs rt")
    case None
    with Cons show ?thesis by (auto simp: kr)
  next
    case (Some r)
    show ?thesis
    proof (cases "strip_prefix (r @ [CHR 0x5C]) real")
      case None
      with Cons Some show ?thesis by (auto simp: kr split: if_splits)
    next
      case strip: (Some nm)
      then have "real = r @ [CHR 0x5C] @ nm" by (simp add: strip_prefix_Some)
      with Cons.prems Some strip show ?thesis by (auto simp: kr split: if_splits)
    qed
  qed
qed simp

text \<open>
  The fence accepts a path only when the place it resolves to is a plain name directly below one of
  the resolved data roots, and no name Windows owns. How the path is spelled plays no part in it.
\<close>

theorem fence_only_passes_leftovers:
  assumes "check_quarantinable tr env fs path user = Inr ()"
  shows "\<exists>place kind rt r nm. existing_plain (tr_lower tr) fs path = Some place \<and> (kind, rt) \<in> set (data_roots env user)
    \<and> resolved_root (tr_lower tr) fs rt = Some r \<and> trim_end_matches is_path_separator place = r @ [CHR 0x5C] @ nm
    \<and> nm \<noteq> [] \<and> CHR 0x5C \<notin> set nm \<and> CHR '':'' \<notin> set nm
    \<and> nm \<notin> set NEVER_ORPHANS \<and> normalise_name tr nm \<notin> set NEVER_ORPHANS"
proof -
  obtain place where place: "existing_plain (tr_lower tr) fs path = Some place"
    and j: "judge_roots tr fs path (trim_end_matches is_path_separator place) (data_roots env user) = Inr ()"
    using assms by (auto simp: check_quarantinable_def split: option.splits)
  obtain kind rt r nm where f: "(kind, rt) \<in> set (data_roots env user)" "resolved_root (tr_lower tr) fs rt = Some r"
    "trim_end_matches is_path_separator place = r @ [CHR 0x5C] @ nm"
    "CHR 0x5C \<notin> set nm" "CHR '':'' \<notin> set nm" "nm \<notin> set NEVER_ORPHANS" "normalise_name tr nm \<notin> set NEVER_ORPHANS"
    using judge_roots_accepts [OF j] by blast
  have "nm \<noteq> []"
  proof
    assume "nm = []"
    then have "last (trim_end_matches is_path_separator place) = CHR 0x5C" "trim_end_matches is_path_separator place \<noteq> []"
      using f(3) by simp_all
    moreover have "\<not> is_path_separator (last (trim_end_matches is_path_separator place))"
      if "trim_end_matches is_path_separator place \<noteq> []"
      using that by (simp add: trim_end_matches_def last_rev hd_dropWhile)
    ultimately show False by (simp add: is_path_separator_def)
  qed
  with place f show ?thesis by blast
qed

text \<open>A machine where the folder of a vendor resolves to itself, in the form the system answers in.\<close>

definition extended_files :: file_system where
  "extended_files = \<lparr>nodes = [], fault = (\<lambda>oper path. None), canonical = (\<lambda>path. Inr (slashes ''//?/'' @ path))\<rparr>"

theorem fence_only_passes_leftovers_witness:
  "\<exists>place. existing_plain ascii_lower extended_files (slashes ''C:/ProgramData/Acme'') = Some place
     \<and> trim_end_matches is_path_separator place = slashes ''c:/programdata/acme''
     \<and> check_quarantinable plain_text (am_env sample_apps) extended_files (slashes ''C:/ProgramData/Microsoft'') sample_owner \<noteq> Inr ()"
proof -
  have "check_quarantinable plain_text (am_env sample_apps) extended_files (slashes ''C:/ProgramData/Acme'') sample_owner = Inr ()"
    by code_simp
  from fence_only_passes_leftovers [OF this]
  obtain place where "existing_plain (tr_lower plain_text) extended_files (slashes ''C:/ProgramData/Acme'') = Some place" by blast
  moreover have "tr_lower plain_text = ascii_lower" by (simp add: plain_text_def)
  moreover have "existing_plain ascii_lower extended_files (slashes ''C:/ProgramData/Acme'') = Some (slashes ''c:/programdata/acme'')"
    "trim_end_matches is_path_separator (slashes ''c:/programdata/acme'') = slashes ''c:/programdata/acme''"
    "check_quarantinable plain_text (am_env sample_apps) extended_files (slashes ''C:/ProgramData/Microsoft'') sample_owner \<noteq> Inr ()"
    by code_simp+
  ultimately show ?thesis by simp
qed

section \<open>What is offered\<close>

lemma find_orphans_iff:
  "x \<in> set (find_orphans tr env vi apps now user) \<longleftrightarrow>
     (\<exists>kind rt index child. (kind, rt) \<in> set (data_roots env user) \<and> resolve (tr_lower tr) vi rt = Some index
        \<and> child \<in> set (directories_in vi index) \<and> orphan_of tr vi (claimed_names tr apps) now kind rt child = Some x)"
  by (force simp: find_orphans_def root_orphans_def List.map_filter_def split: option.splits)

lemma is_claimed_iff: "is_claimed folder claimed \<longleftrightarrow> (\<exists>nm \<in> set claimed. names_match folder nm)"
  by (auto simp: is_claimed_def names_match_def list_ex_iff)

lemma orphan_of_Some:
  "orphan_of tr vi claimed now kind rt child = Some x \<longleftrightarrow>
     (\<exists>entry. entry_at vi child = Some entry \<and> normalise_name tr (ename entry) \<noteq> [] \<and> \<not> windows_owns tr (ename entry)
        \<and> \<not> is_claimed (normalise_name tr (ename entry)) claimed \<and> SIZE_FLOOR \<le> total_of vi child
        \<and> x = \<lparr>or_path = rt @ [CHR 0x5C] @ ename entry, or_name = ename entry, or_bytes = total_of vi child, or_kind = kind,
               or_confidence = fst (judge_age (days_since (modified entry) now)), or_days = days_since (modified entry) now,
               or_reasons = [''no installed application matches the name '' @ [CHR 0x22] @ ename entry @ [CHR 0x22],
                             snd (judge_age (days_since (modified entry) now))]\<rparr>)"
  by (auto simp: orphan_of_def Let_def case_prod_unfold split: option.splits)

text \<open>C24: a leftover is reported exactly when it is a folder of a data root with a name, of the size floor or
  more, that Windows does not own and that no installed name or publisher matches; only one that
  nothing has written to for over a year is reported with high confidence.
\<close>

theorem leftovers_exact:
  "((\<exists>x \<in> set (find_orphans tr env vi apps now user). or_path x = path) \<longleftrightarrow>
     (\<exists>kind rt index child entry. (kind, rt) \<in> set (data_roots env user) \<and> resolve (tr_lower tr) vi rt = Some index
        \<and> child \<in> set (directories_in vi index) \<and> entry_at vi child = Some entry \<and> path = rt @ [CHR 0x5C] @ ename entry
        \<and> normalise_name tr (ename entry) \<noteq> [] \<and> \<not> windows_owns tr (ename entry) \<and> SIZE_FLOOR \<le> total_of vi child
        \<and> (\<forall>a \<in> set apps. \<forall>nm \<in> {af_name a, af_publisher a}. normalise_name tr nm \<noteq> [] \<longrightarrow>
             \<not> names_match (normalise_name tr (ename entry)) (normalise_name tr nm))))
   \<and> (\<forall>x \<in> set (find_orphans tr env vi apps now user).
        or_confidence x = High \<longleftrightarrow> (\<exists>d. or_days x = Some d \<and> STALE_DAYS < d))"
proof -
  have claimed: "\<not> is_claimed f (claimed_names tr apps) \<longleftrightarrow>
      (\<forall>a \<in> set apps. \<forall>nm \<in> {af_name a, af_publisher a}. normalise_name tr nm \<noteq> [] \<longrightarrow> \<not> names_match f (normalise_name tr nm))" for f
    by (auto simp: is_claimed_iff claimed_names_def)
  have high: "fst (judge_age days) = High \<longleftrightarrow> (\<exists>d. days = Some d \<and> STALE_DAYS < d)" for days
    by (auto simp: judge_age_def split: option.splits)
  have confidence: "or_confidence x = High \<longleftrightarrow> (\<exists>d. or_days x = Some d \<and> STALE_DAYS < d)"
    if "x \<in> set (find_orphans tr env vi apps now user)" for x
    using that by (auto simp: find_orphans_iff orphan_of_Some high)
  let ?R = "\<lambda>kind rt index child entry. (kind, rt) \<in> set (data_roots env user) \<and> resolve (tr_lower tr) vi rt = Some index
        \<and> child \<in> set (directories_in vi index) \<and> entry_at vi child = Some entry \<and> path = rt @ [CHR 0x5C] @ ename entry
        \<and> normalise_name tr (ename entry) \<noteq> [] \<and> \<not> windows_owns tr (ename entry) \<and> SIZE_FLOOR \<le> total_of vi child
        \<and> \<not> is_claimed (normalise_name tr (ename entry)) (claimed_names tr apps)"
  have there: "\<exists>kind rt index child entry. ?R kind rt index child entry"
    if "x \<in> set (find_orphans tr env vi apps now user)" "or_path x = path" for x
    using that unfolding find_orphans_iff orphan_of_Some by fastforce
  have here: "\<exists>x \<in> set (find_orphans tr env vi apps now user). or_path x = path" if R: "?R kind rt index child entry" for kind rt index child entry
  proof -
    obtain x where "orphan_of tr vi (claimed_names tr apps) now kind rt child = Some x" "or_path x = path"
      using R by (auto simp: orphan_of_Some)
    with R show ?thesis unfolding find_orphans_iff Bex_def by blast
  qed
  have "(\<exists>x \<in> set (find_orphans tr env vi apps now user). or_path x = path) \<longleftrightarrow> (\<exists>kind rt index child entry. ?R kind rt index child entry)"
    using there here by blast
  with confidence show ?thesis unfolding claimed by blast
qed

end
