(* ===== verification/Kam_Orphans_Views.thy ===== *)
theory Kam_Orphans_Views
  imports Kam_Orphans
begin

text \<open>
  The two views of one question: what the footprints measure by name is never offered as a leftover,
  and where the two do disagree, which is a directory an application is installed in under a name
  that does not match.
\<close>

section \<open>Measured by name\<close>

definition by_name :: "text_rules \<Rightarrow> volume_index \<Rightarrow> (location_kind \<times> str) list \<Rightarrow> str \<Rightarrow> str \<Rightarrow> location \<Rightarrow> bool" where
  "by_name tr vi roots wanted publisher l \<longleftrightarrow>
     lo_kind l = Install
     \<or> (\<exists>rt child entry rest. (lo_kind l, rt) \<in> set roots \<and> entry_at vi child = Some entry
          \<and> lo_path l = rt @ [CHR 0x5C] @ ename entry @ rest \<and> (rest = [] \<or> hd rest = CHR 0x5C)
          \<and> (wanted \<noteq> [] \<and> names_match (normalise_name tr (ename entry)) wanted
             \<or> publisher \<noteq> [] \<and> names_match (normalise_name tr (ename entry)) publisher))"

lemma push_unique_all: "list_all P ls \<Longrightarrow> P l \<Longrightarrow> list_all P (push_unique lower ls l)"
  by (simp add: push_unique_def)

lemma locate_app_by_name:
  "list_all (by_name tr vi roots (normalise_name tr (in_name app)) (normalise_name tr (in_publisher app)))
     (locate_app tr app vi roots steam drive)"
proof -
  let ?w = "normalise_name tr (in_name app)" and ?p = "normalise_name tr (in_publisher app)"
  let ?P = "by_name tr vi roots ?w ?p" and ?A = "list_all (by_name tr vi roots (normalise_name tr (in_name app)) (normalise_name tr (in_publisher app)))"
  have install [simp]: "?P (found_location path b Install)" for path b by (simp add: by_name_def found_location_def)
  have steam: "?A ls \<Longrightarrow> ?A (steam_location tr vi drive ?w ls g)" for ls g
    by (auto simp: steam_location_def intro: push_unique_all split: option.splits)
  have inst: "?A ls \<Longrightarrow> ?A (install_location tr vi p ls)" for ls p
    by (auto simp: install_location_def Let_def intro: push_unique_all split: option.splits)
  have inner: "?A (inner_location tr vi kind (rt @ [CHR 0x5C] @ ename entry) ?w ls g)"
    if "?A ls" "(kind, rt) \<in> set roots" "entry_at vi child = Some entry" "?p \<noteq> []" "names_match (normalise_name tr (ename entry)) ?p"
    for ls kind rt child entry g
  proof (cases "entry_at vi g")
    case None
    with that(1) show ?thesis by (simp add: inner_location_def)
  next
    case (Some e)
    have "?P (found_location ((rt @ [CHR 0x5C] @ ename entry) @ [CHR 0x5C] @ ename e) b kind)" for b
      unfolding by_name_def found_location_def using that by force
    with that(1) Some show ?thesis by (simp add: inner_location_def push_unique_all)
  qed
  have child: "?A (child_location tr vi kind rt ?w ?p ls c)" if "?A ls" "(kind, rt) \<in> set roots" "?w \<noteq> []" for ls kind rt c
  proof (cases "entry_at vi c")
    case None
    with that(1) show ?thesis by (simp add: child_location_def)
  next
    case (Some e)
    have direct: "?P (found_location (rt @ [CHR 0x5C] @ ename e) b kind)" if "names_match (normalise_name tr (ename e)) ?w" for b
      unfolding by_name_def found_location_def using that \<open>?w \<noteq> []\<close> \<open>(kind, rt) \<in> set roots\<close> Some by force
    have vendor: "?A (foldl (inner_location tr vi kind (rt @ [CHR 0x5C] @ ename e) ?w) ls gs)"
      if "?p \<noteq> []" "names_match (normalise_name tr (ename e)) ?p" for gs
      by (rule foldl_keeps [where P = ?A]) (use inner [OF _ \<open>(kind, rt) \<in> set roots\<close> Some that] \<open>?A ls\<close> in auto)
    show ?thesis using Some direct vendor that(1) by (auto simp: child_location_def Let_def intro: push_unique_all)
  qed
  have rt: "?A (root_locations tr vi ?w ?p ls kr)" if "?A ls" "kr \<in> set roots" "?w \<noteq> []" for ls kr
    using that by (auto simp: root_locations_def split: prod.splits option.splits intro!: foldl_keeps [where P = ?A] child)
  have s: "?A (foldl (steam_location tr vi drive ?w) [] steam)"
    by (rule foldl_keeps [where P = ?A]) (auto intro: steam)
  have "?A (foldl (root_locations tr vi ?w ?p) (install_location tr vi (in_install_location app) (foldl (steam_location tr vi drive ?w) [] steam)) roots)"
    if "?w \<noteq> []"
    by (rule foldl_keeps [where P = ?A]) (use rt inst [OF s] that in auto)
  with inst [OF s] show ?thesis
    unfolding locate_app_def Let_def by (intro if_split [where P = ?A, THEN iffD2] conjI impI)
qed

lemma footprint_locations_by_name:
  assumes "footprints am vi drive user = Some apps" and "a \<in> set apps" and "l \<in> set (af_locations a)"
  shows "by_name (am_text am) vi (data_roots (am_env am) user) (normalise_name (am_text am) (af_name a))
           (normalise_name (am_text am) (af_publisher a)) l"
proof -
  obtain hist where apps: "apps = sort_desc_by (\<lambda>a. unat (af_actual_bytes a))
      (map (footprint_of (am_text am) hist (map snd (candidates_of am vi drive user))) (candidates_of am vi drive user))"
    using footprints_Some [OF assms(1)] by metis
  then obtain app ls where app: "(app, ls) \<in> set (candidates_of am vi drive user)"
    "a = footprint_of (am_text am) hist (map snd (candidates_of am vi drive user)) (app, ls)" using assms(2) by auto
  then obtain m where m: "m \<in> set ls" "l = mark_shared (am_lower am) (map snd (candidates_of am vi drive user)) m"
    using assms(3) by (auto simp: locations_of_footprint am_lower_def)
  have "m \<in> set (locate_app (am_text am) app vi (data_roots (am_env am) user) (am_games am user) drive)"
    using app(1) m(1) by (auto simp: candidates_of_def Let_def drop_ancestors_filter)
  then have "by_name (am_text am) vi (data_roots (am_env am) user) (normalise_name (am_text am) (in_name app))
      (normalise_name (am_text am) (in_publisher app)) m"
    using locate_app_by_name by (fastforce simp: list_all_iff)
  moreover have "af_name a = in_name app" "af_publisher a = in_publisher app" by (simp_all add: app(2) footprint_of_def Let_def)
  ultimately show ?thesis by (simp add: m(2) by_name_def mark_shared_def Let_def)
qed

lemma data_roots_unique: "(kind, a) \<in> set (data_roots env user) \<Longrightarrow> (kind, b) \<in> set (data_roots env user) \<Longrightarrow> a = b"
  by (cases "env_lookup env ''ProgramData''") (auto simp: data_roots_def)

text \<open>
  No leftover is offered that holds a directory measured by name for an application, whether it is the
  leftover itself or lies below it.
\<close>

theorem leftovers_hold_no_measured_data:
  assumes "footprints am vi drive user = Some apps"
    and "x \<in> set (find_orphans (am_text am) (am_env am) vi apps now user)"
    and "a \<in> set apps" and "l \<in> set (af_locations a)" and "lo_kind l = or_kind x"
    and "\<forall>(i, e) \<in> set (entries (snapshot vi)). CHR 0x5C \<notin> set (ename e)"
  shows "\<not> prefix (or_path x @ [CHR 0x5C]) (lo_path l @ [CHR 0x5C])"
proof
  assume below: "prefix (or_path x @ [CHR 0x5C]) (lo_path l @ [CHR 0x5C])"
  let ?tr = "am_text am"
  obtain kind rt index child where root: "(kind, rt) \<in> set (data_roots (am_env am) user)"
    and orphan: "orphan_of ?tr vi (claimed_names ?tr apps) now kind rt child = Some x"
    using assms(2) by (auto simp: find_orphans_iff)
  then obtain e where e: "entry_at vi child = Some e" "or_path x = rt @ [CHR 0x5C] @ ename e" "or_kind x = kind"
    and free: "\<not> is_claimed (normalise_name ?tr (ename e)) (claimed_names ?tr apps)" by (auto simp: orphan_of_Some)
  have clean: "CHR 0x5C \<notin> set (ename f)" if "entry_at vi c = Some f" for c f
    using assms(6) that by (auto simp: entry_at_def dest!: map_of_SomeD)
  have "lo_kind l \<noteq> Install" using root assms(5) e(3) by (auto simp: data_roots_def split: option.splits)
  then obtain rt' child' f rest where f: "(kind, rt') \<in> set (data_roots (am_env am) user)" "entry_at vi child' = Some f"
    "lo_path l = rt' @ [CHR 0x5C] @ ename f @ rest" "rest = [] \<or> hd rest = CHR 0x5C"
    "normalise_name ?tr (af_name a) \<noteq> [] \<and> names_match (normalise_name ?tr (ename f)) (normalise_name ?tr (af_name a))
     \<or> normalise_name ?tr (af_publisher a) \<noteq> [] \<and> names_match (normalise_name ?tr (ename f)) (normalise_name ?tr (af_publisher a))"
    using footprint_locations_by_name [OF assms(1,3,4)] assms(5) e(3) by (auto simp: by_name_def)
  have "rt' = rt" using data_roots_unique [OF f(1) root] .
  then have "prefix (ename e @ [CHR 0x5C]) ((ename f @ rest) @ [CHR 0x5C])" using below e(2) f(3) by simp
  moreover have "\<exists>tail. (ename f @ rest) @ [CHR 0x5C] = ename f @ CHR 0x5C # tail" using f(4) by (cases rest) auto
  ultimately obtain tail more where "ename f @ CHR 0x5C # tail = ename e @ CHR 0x5C # more" by (auto simp: prefix_def)
  then have "ename f = ename e" using clean [OF f(2)] clean [OF e(1)]
    by (metis split_once_append option.inject prod.inject)
  then have "is_claimed (normalise_name ?tr (ename e)) (claimed_names ?tr apps)"
    using f(5) assms(3) by (auto simp: is_claimed_iff claimed_names_def)
  with free show False by simp
qed

section \<open>Where the views disagree\<close>

definition painter :: app_footprint where
  "painter =
     \<lparr>af_name = ''Painter'', af_publisher = ''Mona'', af_version = [], af_reported_bytes = None, af_actual_bytes = 0x5000000,
      af_shared_bytes = 0, af_locations = [found_location (slashes ''C:/ProgramData/Acme'') 0x5000000 Install],
      af_uninstall_command = None, af_installed_on = None, af_last_used = None, af_launches = None\<rparr>"

definition big_volume :: volume_index where
  "big_volume = sample_volume\<lparr>totals := [11 \<mapsto> 0x5000000, 12 \<mapsto> 60]\<rparr>"

lemma big_volume_reads:
  "resolve ascii_lower big_volume (slashes ''C:/ProgramData'') = Some 10" "directories_in big_volume 10 = [11, 13]"
  "entry_at big_volume 11 = Some (sample_folder 10 ''Acme'')" "total_of big_volume 11 = 0x5000000"
proof -
  have split: "split_path (slashes ''C:/ProgramData'') = [''ProgramData'']" by code_simp
  show "resolve ascii_lower big_volume (slashes ''C:/ProgramData'') = Some 10"
    by (simp add: resolve_def split big_volume_def sample_volume_def children_of_def entry_at_def sample_folder_def)
qed (simp_all add: big_volume_def sample_volume_def directories_in_def entry_at_def total_of_def)

text \<open>
  The directory an application is installed in, and measured at, is offered as a leftover when its name
  matches neither the application nor its publisher: the search looks at names and not at where the
  footprints say things are.
\<close>

lemma install_directory_offered:
  "\<exists>x \<in> set (find_orphans plain_text (am_env sample_apps) big_volume [painter] 0 sample_owner).
     or_path x = lo_path (hd (af_locations painter)) \<and> lo_kind (hd (af_locations painter)) = Install"
proof -
  have claimed: "claimed_names plain_text [painter] = [''painter'', ''mona'']"
    by (simp add: claimed_names_def painter_def) code_simp
  have free: "\<not> is_claimed ''acme'' [''painter'', ''mona'']" "normalise_name plain_text ''Acme'' = ''acme''"
    "\<not> windows_owns plain_text ''Acme''" by code_simp+
  have "SIZE_FLOOR \<le> 0x5000000" by (simp add: SIZE_FLOOR_def)
  then have "\<exists>x. orphan_of plain_text big_volume [''painter'', ''mona''] 0 ProgramData (slashes ''C:/ProgramData'') 11 = Some x
      \<and> or_path x = slashes ''C:/ProgramData'' @ [CHR 0x5C] @ ''Acme''"
    by (simp add: orphan_of_Some big_volume_reads sample_folder_def free del: append.simps)
  then obtain x where x: "orphan_of plain_text big_volume [''painter'', ''mona''] 0 ProgramData (slashes ''C:/ProgramData'') 11 = Some x"
    "or_path x = slashes ''C:/ProgramData'' @ [CHR 0x5C] @ ''Acme''" by blast
  have low: "tr_lower plain_text = ascii_lower" by (simp add: plain_text_def)
  have "x \<in> set (find_orphans plain_text (am_env sample_apps) big_volume [painter] 0 sample_owner)"
    unfolding find_orphans_iff claimed sample_roots low big_volume_reads(1)
    by (rule exI [of _ ProgramData], rule exI [of _ "slashes ''C:/ProgramData''"], rule exI [of _ 10], rule exI [of _ 11])
      (simp only: x(1) big_volume_reads list.set insert_iff simp_thms)
  moreover have "slashes ''C:/ProgramData'' @ [CHR 0x5C] @ ''Acme'' = slashes ''C:/ProgramData/Acme''" by code_simp
  ultimately show ?thesis using x(2) by (auto simp: painter_def found_location_def)
qed

section \<open>A volume with a leftover\<close>

lemma zebra_offered:
  assumes "footprints sample_apps sample_volume ''C:'' sample_owner = Some apps"
  obtains x where "x \<in> set (find_orphans plain_text (am_env sample_apps) sample_volume apps 0 sample_owner)"
    and "or_kind x = ProgramData" and "or_name x = ''Zebra''"
proof -
  obtain acme tools where cs: "in_name acme = ''Acme''" "in_publisher acme = []" "in_name tools = ''Tools''" "in_publisher tools = ''Acme''"
    "candidates_of sample_apps sample_volume ''C:'' sample_owner =
    [(acme, [found_location (slashes ''C:/ProgramData/Acme'') 100 ProgramData]),
     (tools, [found_location (slashes ''C:/ProgramData/Acme/Tools'') 60 ProgramData])]"
    by (rule sample_candidates)
  obtain hist where "apps = sort_desc_by (\<lambda>a. unat (af_actual_bytes a))
      (map (footprint_of (am_text sample_apps) hist (map snd (candidates_of sample_apps sample_volume ''C:'' sample_owner)))
        (candidates_of sample_apps sample_volume ''C:'' sample_owner))"
    using footprints_Some [OF assms] by metis
  then have names: "af_name a \<in> {''Acme'', ''Tools''}" "af_publisher a \<in> {[], ''Acme''}" if "a \<in> set apps" for a
    using that by (auto simp: cs footprint_of_def Let_def)
  have free: "\<not> is_claimed ''zebra'' (claimed_names plain_text apps)"
    using names sample_names by (fastforce simp: is_claimed_iff claimed_names_def)
  have reads: "entry_at sample_volume 13 = Some (sample_folder 10 ''Zebra'')" "directories_in sample_volume 10 = [11, 13]"
    "total_of sample_volume 13 = 0x5000000"
    by (simp_all add: entry_at_def directories_in_def total_of_def sample_volume_def)
  have "\<not> windows_owns plain_text ''Zebra''" by code_simp
  moreover have "SIZE_FLOOR \<le> 0x5000000" by (simp add: SIZE_FLOOR_def)
  ultimately have "\<exists>x. orphan_of plain_text sample_volume (claimed_names plain_text apps) 0 ProgramData (slashes ''C:/ProgramData'') 13 = Some x
      \<and> or_kind x = ProgramData \<and> or_name x = ''Zebra''"
    by (simp add: orphan_of_Some reads sample_folder_def free sample_names)
  then obtain x where x: "orphan_of plain_text sample_volume (claimed_names plain_text apps) 0 ProgramData (slashes ''C:/ProgramData'') 13 = Some x"
    "or_kind x = ProgramData" "or_name x = ''Zebra''" by blast
  have low: "tr_lower plain_text = ascii_lower" by (simp add: plain_text_def)
  have "x \<in> set (find_orphans plain_text (am_env sample_apps) sample_volume apps 0 sample_owner)"
    unfolding find_orphans_iff sample_roots low sample_resolve(1)
    by (rule exI [of _ ProgramData], rule exI [of _ "slashes ''C:/ProgramData''"], rule exI [of _ 10], rule exI [of _ 13])
      (simp only: x(1) reads sample_resolve list.set insert_iff simp_thms)
  with x(2,3) show thesis by (intro that)
qed

theorem leftovers_hold_no_measured_data_witness:
  "\<exists>apps a l x. footprints sample_apps sample_volume ''C:'' sample_owner = Some apps \<and> a \<in> set apps \<and> l \<in> set (af_locations a)
     \<and> x \<in> set (find_orphans (am_text sample_apps) (am_env sample_apps) sample_volume apps 0 sample_owner)
     \<and> \<not> prefix (or_path x @ [CHR 0x5C]) (lo_path l @ [CHR 0x5C])"
proof -
  obtain apps a l where f: "footprints sample_apps sample_volume ''C:'' sample_owner = Some apps" "a \<in> set apps" "l \<in> set (af_locations a)"
    "lo_kind l = ProgramData"
    by (rule sample_location)
  obtain x where x: "x \<in> set (find_orphans plain_text (am_env sample_apps) sample_volume apps 0 sample_owner)" "or_kind x = ProgramData"
    using zebra_offered [OF f(1)] by metis
  have t: "am_text sample_apps = plain_text" by (simp add: sample_apps_def)
  have clean: "\<forall>(i, e) \<in> set (entries (snapshot sample_volume)). CHR 0x5C \<notin> set (ename e)"
    by (simp add: sample_volume_def sample_folder_def)
  have "\<not> prefix (or_path x @ [CHR 0x5C]) (lo_path l @ [CHR 0x5C])"
    by (rule leftovers_hold_no_measured_data [OF f(1) _ f(2,3) _ clean]) (use x f(4) t in simp_all)
  with f x t show ?thesis by metis
qed

theorem leftovers_exact_witness:
  "\<exists>apps x. footprints sample_apps sample_volume ''C:'' sample_owner = Some apps
     \<and> x \<in> set (find_orphans plain_text (am_env sample_apps) sample_volume apps 0 sample_owner)
     \<and> or_confidence x \<noteq> High \<and> or_days x = None"
proof -
  obtain apps a l where f: "footprints sample_apps sample_volume ''C:'' sample_owner = Some apps" "a \<in> set apps" "l \<in> set (af_locations a)"
    "lo_kind l = ProgramData"
    by (rule sample_location)
  obtain x where x: "x \<in> set (find_orphans plain_text (am_env sample_apps) sample_volume apps 0 sample_owner)"
    using zebra_offered [OF f(1)] by metis
  have "modified e = 0" if "entry_at sample_volume c = Some e" for c e
    using that by (auto simp: entry_at_def sample_volume_def sample_folder_def split: if_splits)
  then have "or_days x = None" using x
    by (auto simp: find_orphans_iff orphan_of_Some days_since_def filetime_to_unix_def)
  moreover have "or_confidence x = High \<longleftrightarrow> (\<exists>d. or_days x = Some d \<and> STALE_DAYS < d)"
    using leftovers_exact [of plain_text "am_env sample_apps" sample_volume apps 0 sample_owner] x by blast
  ultimately show ?thesis using f(1) x by auto
qed

end
