(* ===== verification/Kam_Resolved.thy ===== *)
theory Kam_Resolved
  imports Kam_Paths Kam_Commands
begin

text \<open>
  The place a path means when it need not be there yet, \<open>resolved\<close> of
  \<open>crates/kam-storage/src/paths.rs\<close>: the deepest part of it that exists is resolved, and the names
  below are appended. A name with a drive would replace what it is appended to, so the result has to
  be below the part that was resolved.
\<close>

text \<open>\<open>Path::parent\<close> and \<open>Path::file_name\<close> together; a name behind a bare drive is below that drive.\<close>

definition step_up :: "str \<Rightarrow> (str \<times> str) option" where
  "step_up path =
     (if has_drive path \<and> \<not> list_ex is_path_separator path
      then (if drop 2 path = [] then None else Some (take 2 path, drop 2 path))
      else (case (path_parent path, file_name path) of (Some up, Some nm) \<Rightarrow> Some (up, nm) | _ \<Rightarrow> None))"

lemma split_on_last: "\<exists>pre. s = pre @ last (split_on p s) \<and> (pre = [] \<or> p (last pre))"
proof (cases "\<exists>c \<in> set s. p c")
  case True
  then obtain a c b where s: "s = a @ c # b" "p c" "\<forall>z \<in> set b. \<not> p z" by (metis split_list_last_prop)
  then have "split_on p s = split_on p a @ [b]" by (simp add: split_on_snoc split_on_no_sep list_all_iff)
  with s show ?thesis by (intro exI [of _ "a @ [c]"]) simp
next
  case False
  then have "split_on p s = [s]" by (simp add: split_on_no_sep list_all_iff)
  then show ?thesis by simp
qed

lemma trim_end_prefix: "prefix (trim_end_matches p s) s"
proof -
  have "s = trim_end_matches p s @ rev (takeWhile p (rev s))"
    by (metis takeWhile_dropWhile_id rev_append rev_rev_ident trim_end_matches_def)
  then show ?thesis by (metis prefixI)
qed

lemma path_parent_shorter:
  assumes "path_parent path = Some up"
  shows "length up < length path"
proof -
  let ?t = "trim_end_matches is_path_separator path" and ?n = "last (split_on is_path_separator (trim_end_matches is_path_separator path))"
  obtain rest where t: "path = ?t @ rest" using trim_end_prefix [of is_path_separator path] by (auto simp: prefix_def)
  have te: "?t \<noteq> []" using assms by (auto simp: path_parent_def Let_def split: if_splits)
  obtain pre where pre: "?t = pre @ ?n" "pre = [] \<or> is_path_separator (last pre)" using split_on_last by blast
  have end_plain: "\<not> is_path_separator (last ?t)" using te by (simp add: trim_end_matches_def last_rev hd_dropWhile)
  show ?thesis
  proof (cases "length ?n = length ?t")
    case True
    then have "up = []" using assms te by (auto simp: path_parent_def Let_def split: if_splits)
    moreover have "path \<noteq> []" using te by (auto simp: trim_end_matches_def)
    ultimately show ?thesis by simp
  next
    case False
    then have pn: "pre \<noteq> []" using pre(1) by (metis append_Nil)
    then have sep: "is_path_separator (last pre)" using pre(2) by blast
    have "?n \<noteq> []" using end_plain sep pre(1) pn by (metis append_Nil2)
    have take: "take (length ?t - length ?n) ?t = pre" using pre(1) by (metis append_eq_conv_conj length_append add_diff_cancel_right')
    let ?q = "trim_end_matches is_path_separator pre"
    have "up = (if ?q = [] then pre else if last ?q = CHR '':'' then ?q @ [CHR 0x5C] else ?q)"
      using assms te False take by (auto simp: path_parent_def Let_def split: if_splits)
    moreover have "length ?q < length pre"
    proof -
      obtain p c where "pre = p @ [c]" using pn by (cases pre rule: rev_cases) auto
      with sep show ?thesis by (simp add: trim_end_matches_def) (metis le_imp_less_Suc length_dropWhile_le length_rev)
    qed
    ultimately have "length up \<le> length pre" by auto
    also have "\<dots> < length ?t" using pre(1) \<open>?n \<noteq> []\<close> by (metis length_append length_greater_0_conv less_add_same_cancel1)
    also have "\<dots> \<le> length path" using t by (metis le_add1 length_append)
    finally show ?thesis .
  qed
qed

lemma step_up_shorter: "step_up path = Some (up, nm) \<Longrightarrow> length up < length path"
  by (auto simp: step_up_def path_parent_shorter has_drive_def split: if_splits option.splits list.splits)

definition starts_with_path :: "str \<Rightarrow> str \<Rightarrow> bool" where
  "starts_with_path path base \<longleftrightarrow>
     prefix (filter (\<lambda>c. c \<noteq> []) (split_on is_path_separator base)) (filter (\<lambda>c. c \<noteq> []) (split_on is_path_separator path))"

function resolved_loop :: "file_system \<Rightarrow> str \<Rightarrow> str list \<Rightarrow> str option" where
  "resolved_loop fs path tail =
     (case canonical fs path of
        Inr real \<Rightarrow> (let out = foldl path_join real tail in if starts_with_path out real then Some out else None)
      | Inl e \<Rightarrow> (case step_up path of None \<Rightarrow> None | Some (up, nm) \<Rightarrow> resolved_loop fs up (nm # tail)))"
  by pat_completeness auto
termination
  by (relation "measure (\<lambda>(fs, path, tail). length path)") (auto simp: step_up_shorter)

declare resolved_loop.simps [simp del]

definition resolved_path :: "file_system \<Rightarrow> str \<Rightarrow> str option" where
  "resolved_path fs path = resolved_loop fs path []"

definition resolved_plain :: "(str \<Rightarrow> str) \<Rightarrow> file_system \<Rightarrow> str \<Rightarrow> str option" where
  "resolved_plain lower fs path = map_option (plain lower) (resolved_path fs path)"

text \<open>
  What comes back is below a place the system resolved, which is the path itself or one reached from it
  by leaving names away; nothing is taken from the text alone.
\<close>

lemma resolved_loop_below:
  "resolved_loop fs path tail = Some out \<Longrightarrow>
     \<exists>up real names. canonical fs up = Inr real \<and> out = foldl path_join real names \<and> starts_with_path out real"
proof (induction fs path tail rule: resolved_loop.induct)
  case (1 fs path tail)
  show ?case
  proof (cases "canonical fs path")
    case (Inl e)
    with "1.prems" obtain up nm where u: "step_up path = Some (up, nm)" "resolved_loop fs up (nm # tail) = Some out"
      by (subst (asm) resolved_loop.simps) (auto split: option.splits)
    with "1.IH" [OF Inl u(1) refl u(2)] show ?thesis by blast
  next
    case (Inr real)
    with "1.prems" show ?thesis by (subst (asm) resolved_loop.simps) (auto simp: Let_def split: if_splits)
  qed
qed

text \<open>A path that is there resolves to what the system says it is.\<close>

lemma resolved_path_existing: "canonical fs path = Inr real \<Longrightarrow> resolved_path fs path = Some real"
  by (simp add: resolved_path_def resolved_loop.simps starts_with_path_def Let_def)

end
