(* ===== verification/Kam_Organise.thy ===== *)
theory Kam_Organise
  imports Kam_Resolved Kam_Apps_Exact
begin

text \<open>
  Loose files that belong somewhere that kind of file is already kept, \<open>crates/kam-storage/src/organise.rs\<close>:
  the folders that are established homes, the proposals, and the fence a move goes through. The share
  of a kind in a folder is compared as a fraction, which the comparison with the floating-point 0.6
  agrees with below 2^50 files.
\<close>

definition MOVABLE :: "str list" where
  "MOVABLE =
     [''pdf'', ''doc'', ''docx'', ''odt'', ''rtf'', ''txt'', ''md'', ''csv'', ''xls'', ''xlsx'', ''ods'', ''ppt'', ''pptx'',
      ''odp'', ''epub'', ''mobi'',
      ''jpg'', ''jpeg'', ''png'', ''gif'', ''bmp'', ''webp'', ''tif'', ''tiff'', ''svg'', ''heic'', ''raw'', ''cr2'', ''nef'',
      ''mp3'', ''flac'', ''wav'', ''aac'', ''ogg'', ''m4a'', ''mp4'', ''mkv'', ''mov'', ''avi'', ''webm'', ''wmv'', ''m4v'',
      ''zip'', ''7z'', ''rar'', ''tar'', ''gz'', ''bz2'', ''xz'', ''iso'']"

definition SOURCE_FOLDERS :: "str list" where "SOURCE_FOLDERS = [''Downloads'', ''Desktop'']"

definition OFF_LIMITS :: "str list" where
  "OFF_LIMITS =
     [''appdata'', ''programdata'', ''program files'', ''program files (x86)'', ''windows'', ''$recycle.bin'',
      ''system volume information'', ''onedrivetemp'', ''node_modules'', ''.git'', ''.venv'', ''venv'', ''target'',
      ''__pycache__'']"

definition MIN_LOOSE_SIZE :: u64 where "MIN_LOOSE_SIZE = 1024 * 1024"
definition MIN_ESTABLISHED :: nat where "MIN_ESTABLISHED = 4"

datatype strength = Reasonable | Stronger

primrec strength_rank :: "strength \<Rightarrow> nat" where
  "strength_rank Reasonable = 0"
| "strength_rank Stronger = 1"

record proposal =
  pr_from :: str
  pr_to :: str
  pr_name :: str
  pr_bytes :: u64
  pr_strength :: strength
  pr_reason :: str
  pr_destination_syncs :: bool

record organise_summary =
  og_proposals :: nat
  og_bytes :: u64
  og_examined :: nat

section \<open>Names\<close>

definition kind_of_file :: "(str \<Rightarrow> str) \<Rightarrow> str \<Rightarrow> str option" where
  "kind_of_file lower nm =
     (case rsplit_once CHR ''.'' nm of
        None \<Rightarrow> None
      | Some (stem, ext) \<Rightarrow> (let ext = lower ext in if ext \<noteq> [] \<and> length ext \<le> 5 then Some ext else None))"

definition is_movable :: "(str \<Rightarrow> str) \<Rightarrow> str \<Rightarrow> bool" where
  "is_movable lower nm \<longleftrightarrow> (case kind_of_file lower nm of None \<Rightarrow> False | Some ext \<Rightarrow> ext \<in> set MOVABLE)"

definition is_off_limits :: "(str \<Rightarrow> str) \<Rightarrow> str \<Rightarrow> bool" where
  "is_off_limits lower path \<longleftrightarrow>
     list_ex (\<lambda>forbidden. list_ex (\<lambda>part. part = forbidden) (split_on is_path_separator (lower path))) OFF_LIMITS"

definition is_synced :: "(str \<Rightarrow> str) \<Rightarrow> str \<Rightarrow> bool" where
  "is_synced lower path \<longleftrightarrow>
     list_ex (\<lambda>part. prefix ''onedrive'' part \<or> part = ''dropbox'' \<or> part = ''google drive'')
       (split_on is_path_separator (lower path))"

definition last_part :: "str \<Rightarrow> str" where
  "last_part path = last (split_on is_path_separator path)"

section \<open>Homes\<close>

record destination =
  de_path :: str
  de_name :: str
  de_matching :: nat
  de_total :: nat

definition child_entries :: "volume_index \<Rightarrow> u32 \<Rightarrow> (u32 \<times> mft_entry) list" where
  "child_entries vi index =
     List.map_filter (\<lambda>c. map_option (\<lambda>e. (c, e)) (entry_at vi c)) (children_of vi index)"

definition file_kinds :: "(str \<Rightarrow> str) \<Rightarrow> volume_index \<Rightarrow> u32 \<Rightarrow> str list" where
  "file_kinds lower vi index =
     List.map_filter (\<lambda>(c, e). if is_directory e then None else kind_of_file lower (ename e)) (child_entries vi index)"

definition files_inside :: "volume_index \<Rightarrow> u32 \<Rightarrow> nat" where
  "files_inside vi index = length (filter (\<lambda>(c, e). \<not> is_directory e) (child_entries vi index))"

definition is_source_name :: "str \<Rightarrow> bool" where
  "is_source_name nm \<longleftrightarrow> list_ex (\<lambda>folder. eq_ignore_ascii_case nm folder) SOURCE_FOLDERS"

text \<open>What one folder contributes: each of its kinds that it holds enough of, with the folder.\<close>

definition homes_of :: "(str \<Rightarrow> str) \<Rightarrow> volume_index \<Rightarrow> u32 \<Rightarrow> str \<Rightarrow> nat \<Rightarrow> (str \<times> destination) list" where
  "homes_of lower vi record_no path depth =
     (let nm = last_part path; kinds = file_kinds lower vi record_no
      in if depth = 0 \<or> is_source_name nm then []
         else List.map_filter (\<lambda>ext.
                if MIN_ESTABLISHED \<le> count_list kinds ext
                then Some (ext, \<lparr>de_path = path, de_name = nm, de_matching = count_list kinds ext,
                                 de_total = files_inside vi record_no\<rparr>)
                else None) (remdups kinds))"

definition subfolders :: "volume_index \<Rightarrow> u32 \<Rightarrow> str \<Rightarrow> nat \<Rightarrow> (u32 \<times> str \<times> nat) list" where
  "subfolders vi record_no path depth =
     map (\<lambda>(c, e). (c, path @ [CHR 0x5C] @ ename e, depth + 1)) (filter (\<lambda>(c, e). is_directory e) (child_entries vi record_no))"

lemma fewer_levels: "(\<And>k. k \<in># K \<Longrightarrow> k < j) \<Longrightarrow> (K + I, add_mset j I) \<in> mult less_than" for j :: nat
  using one_step_implies_mult [of "{#j#}" K less_than I] by (auto simp: add.commute)

text \<open>The queue is a stack with its top first; a folder deeper than three, or off limits, adds nothing to it.\<close>

function home_loop ::
  "(str \<Rightarrow> str) \<Rightarrow> volume_index \<Rightarrow> (u32 \<times> str \<times> nat) list \<Rightarrow> (str \<times> destination) list \<Rightarrow> (str \<times> destination) list" where
  "home_loop lower vi [] homes = homes"
| "home_loop lower vi ((record_no, path, depth) # queue) homes =
     (if 3 < depth \<or> is_off_limits lower path then home_loop lower vi queue homes
      else home_loop lower vi (rev (subfolders vi record_no path depth) @ queue) (homes @ homes_of lower vi record_no path depth))"
  by pat_completeness auto
termination
proof (relation "inv_image (mult less_than) (\<lambda>(lower, vi, queue, homes). image_mset (\<lambda>(r, p, d). 5 - d) (mset queue))", goal_cases)
  case 1
  show ?case by (simp add: wf_mult)
next
  case (2 lower vi record_no path depth queue homes)
  show ?case using fewer_levels [of "{#}" "5 - depth"] by simp
next
  case (3 lower vi record_no path depth queue homes)
  have "k < 5 - depth" if "k \<in># image_mset (\<lambda>(r, p, d). 5 - d) (mset (subfolders vi record_no path depth))" for k
    using that 3 by (auto simp: subfolders_def)
  then have "(image_mset (\<lambda>(r, p, d). 5 - d) (mset (subfolders vi record_no path depth)) + image_mset (\<lambda>(r, p, d). 5 - d) (mset queue),
      add_mset (5 - depth) (image_mset (\<lambda>(r, p, d). 5 - d) (mset queue))) \<in> mult less_than"
    by (rule fewer_levels)
  then show ?case by simp
qed

definition destinations :: "(str \<Rightarrow> str) \<Rightarrow> volume_index \<Rightarrow> str \<Rightarrow> (str \<times> destination) list" where
  "destinations lower vi profile =
     (case resolve lower vi profile of None \<Rightarrow> [] | Some record_no \<Rightarrow> home_loop lower vi [(record_no, profile, 0)] [])"

section \<open>Proposals\<close>

definition names_agree :: "str \<Rightarrow> str \<Rightarrow> bool" where
  "names_agree stem folder_key \<longleftrightarrow> 4 \<le> length folder_key \<and> (contains stem folder_key \<or> contains folder_key stem)"

definition judge_home :: "text_rules \<Rightarrow> str \<Rightarrow> str \<Rightarrow> destination \<Rightarrow> (strength \<times> str) option" where
  "judge_home tr ext stem d =
     (if names_agree stem (normalise_name tr (de_name d))
      then Some (Stronger, ''the name matches the folder, which already holds '' @ show_nat (de_matching d) @ '' .'' @ ext @ '' files'')
      else if 3 * max (de_total d) 1 \<le> 5 * de_matching d
      then Some (Reasonable, show_nat (de_matching d) @ '' of the '' @ show_nat (de_total d) @ '' files in that folder are .'' @ ext)
      else None)"

definition better_home ::
  "text_rules \<Rightarrow> str \<Rightarrow> str \<Rightarrow> (destination \<times> strength \<times> str) option \<Rightarrow> destination \<Rightarrow> (destination \<times> strength \<times> str) option" where
  "better_home tr ext stem best d =
     (case judge_home tr ext stem d of
        None \<Rightarrow> best
      | Some (st, reason) \<Rightarrow>
        (case best of
           None \<Rightarrow> Some (d, st, reason)
         | Some (current, current_st, current_reason) \<Rightarrow>
             if strength_rank current_st < strength_rank st \<or> st = current_st \<and> de_matching current < de_matching d
             then Some (d, st, reason) else best))"

definition best_home :: "text_rules \<Rightarrow> str \<Rightarrow> str \<Rightarrow> destination list \<Rightarrow> (destination \<times> strength \<times> str) option" where
  "best_home tr ext stem ds = foldl (better_home tr ext stem) None ds"

definition stem_of :: "str \<Rightarrow> str" where
  "stem_of nm = (case rsplit_once CHR ''.'' nm of None \<Rightarrow> nm | Some (stem, ext) \<Rightarrow> stem)"

text \<open>A loose file that is considered at all, with its place.\<close>

definition considered :: "text_rules \<Rightarrow> str \<Rightarrow> mft_entry \<Rightarrow> bool" where
  "considered tr source entry \<longleftrightarrow>
     \<not> (is_directory entry \<or> ebytes entry < MIN_LOOSE_SIZE \<or> \<not> is_movable (tr_lower tr) (ename entry))
     \<and> \<not> is_off_limits (tr_lower tr) (source @ [CHR 0x5C] @ ename entry)"

definition propose :: "text_rules \<Rightarrow> (str \<times> destination) list \<Rightarrow> str \<Rightarrow> mft_entry \<Rightarrow> proposal option" where
  "propose tr homes source entry =
     (if \<not> considered tr source entry then None
      else (case kind_of_file (tr_lower tr) (ename entry) of
              None \<Rightarrow> None
            | Some ext \<Rightarrow>
              (case best_home tr ext (normalise_name tr (stem_of (ename entry))) (map snd (filter (\<lambda>(e, d). e = ext) homes)) of
                 None \<Rightarrow> None
               | Some (d, st, reason) \<Rightarrow>
                 (let to = de_path d @ [CHR 0x5C] @ ename entry
                  in Some \<lparr>pr_from = source @ [CHR 0x5C] @ ename entry, pr_to = to, pr_name = ename entry, pr_bytes = ebytes entry,
                           pr_strength = st, pr_reason = reason, pr_destination_syncs = is_synced (tr_lower tr) to\<rparr>))))"

definition source_entries :: "text_rules \<Rightarrow> volume_index \<Rightarrow> str \<Rightarrow> (str \<times> mft_entry) list" where
  "source_entries tr vi profile =
     concat (map (\<lambda>folder. let source = profile @ [CHR 0x5C] @ folder in
        (case resolve (tr_lower tr) vi source of
           None \<Rightarrow> []
         | Some record_no \<Rightarrow> map (\<lambda>(c, e). (source, e)) (child_entries vi record_no))) SOURCE_FOLDERS)"

definition find_proposals :: "text_rules \<Rightarrow> volume_index \<Rightarrow> str \<Rightarrow> proposal list \<times> organise_summary" where
  "find_proposals tr vi profile =
     (let homes = destinations (tr_lower tr) vi profile;
          loose = source_entries tr vi profile;
          found = List.map_filter (\<lambda>(source, e). propose tr homes source e) loose;
          proposals = sort_desc_by (\<lambda>p. strength_rank (pr_strength p)) (sort_desc_by (\<lambda>p. unat (pr_bytes p)) found)
      in (proposals, \<lparr>og_proposals = length proposals, og_bytes = sum_list (map pr_bytes proposals),
                      og_examined = length (filter (\<lambda>(source, e). considered tr source e) loose)\<rparr>))"

definition survey_loose ::
  "text_rules \<Rightarrow> (kam_error + mft_snapshot) \<Rightarrow> user_context \<Rightarrow> kam_error + proposal list \<times> organise_summary" where
  "survey_loose tr table user =
     (let profile = trim_end_matches is_path_separator (uc_profile user) in
      if profile = [] then Inl (Privileged ''there is no user profile to look in'')
      else (case table of Inl e \<Rightarrow> Inl e | Inr snap \<Rightarrow> Inr (find_proposals tr (build snap) profile)))"

section \<open>What is proposed\<close>

definition established :: "(str \<Rightarrow> str) \<Rightarrow> volume_index \<Rightarrow> str \<Rightarrow> destination \<Rightarrow> bool" where
  "established lower vi ext d \<longleftrightarrow>
     (\<exists>record_no. de_matching d = count_list (file_kinds lower vi record_no) ext \<and> de_total d = files_inside vi record_no)
     \<and> MIN_ESTABLISHED \<le> de_matching d \<and> \<not> is_off_limits lower (de_path d)
     \<and> de_name d = last_part (de_path d) \<and> \<not> is_source_name (de_name d)"

lemma homes_of_established:
  "\<not> is_off_limits lower path \<Longrightarrow> (ext, d) \<in> set (homes_of lower vi record_no path depth) \<Longrightarrow> established lower vi ext d"
  by (auto simp: homes_of_def established_def Let_def List.map_filter_def split: if_splits)

lemma home_loop_established:
  "(\<And>ext d. (ext, d) \<in> set homes \<Longrightarrow> established lower vi ext d) \<Longrightarrow>
     (ext, d) \<in> set (home_loop lower vi queue homes) \<Longrightarrow> established lower vi ext d"
proof (induction lower vi queue homes arbitrary: ext d rule: home_loop.induct)
  case (2 lower vi record_no path depth queue homes)
  show ?case
  proof (cases "3 < depth \<or> is_off_limits lower path")
    case True
    with 2 show ?thesis by auto
  next
    case False
    have "established lower vi e x" if "(e, x) \<in> set (homes @ homes_of lower vi record_no path depth)" for e x
      using that 2(3) homes_of_established False by auto
    with "2.IH"(2) [OF False] "2.prems"(2) False show ?thesis by auto
  qed
qed simp

lemma best_home_suits:
  assumes "best_home tr ext stem ds = Some (d, st, reason)"
  shows "d \<in> set ds \<and> judge_home tr ext stem d = Some (st, reason)"
proof -
  have keep: "case foldl (better_home tr ext stem) best ds of None \<Rightarrow> True
      | Some (d, st, reason) \<Rightarrow> (d \<in> S \<or> d \<in> set ds) \<and> judge_home tr ext stem d = Some (st, reason)"
    if "case best of None \<Rightarrow> True | Some (d, st, reason) \<Rightarrow> d \<in> S \<and> judge_home tr ext stem d = Some (st, reason)" for best S ds
    using that
  proof (induction ds arbitrary: best S)
    case (Cons x ds)
    have "case better_home tr ext stem best x of None \<Rightarrow> True
        | Some (d, st, reason) \<Rightarrow> d \<in> insert x S \<and> judge_home tr ext stem d = Some (st, reason)"
      using Cons.prems by (auto simp: better_home_def split: option.splits prod.splits)
    from Cons.IH [OF this] show ?case by (auto split: option.splits)
  qed (auto split: option.splits)
  from keep [where best = None and S = "{}" and ds = ds] assms show ?thesis by (simp add: best_home_def)
qed

text \<open>
  Every proposal moves a file of an inert kind and of the least size out of Downloads or Desktop, under
  its own name, into a folder that already holds four files of that kind or more, is no source itself
  and in no place that is off limits, and whose name agrees or of whose files that kind is at least
  three in five.
\<close>

theorem proposals_name_established_homes:
  assumes "p \<in> set (fst (find_proposals tr vi profile))"
  shows "\<exists>ext d folder. ext \<in> set MOVABLE \<and> kind_of_file (tr_lower tr) (pr_name p) = Some ext \<and> MIN_LOOSE_SIZE \<le> pr_bytes p
    \<and> folder \<in> set SOURCE_FOLDERS \<and> pr_from p = (profile @ [CHR 0x5C] @ folder) @ [CHR 0x5C] @ pr_name p
    \<and> \<not> is_off_limits (tr_lower tr) (pr_from p) \<and> pr_to p = de_path d @ [CHR 0x5C] @ pr_name p
    \<and> established (tr_lower tr) vi ext d
    \<and> (names_agree (normalise_name tr (stem_of (pr_name p))) (normalise_name tr (de_name d))
       \<or> 3 * max (de_total d) 1 \<le> 5 * de_matching d)"
proof -
  let ?homes = "destinations (tr_lower tr) vi profile"
  obtain source e where e: "(source, e) \<in> set (source_entries tr vi profile)" "propose tr ?homes source e = Some p"
    using assms by (auto simp: find_proposals_def Let_def List.map_filter_def)
  obtain folder where folder: "folder \<in> set SOURCE_FOLDERS" "source = profile @ [CHR 0x5C] @ folder"
    using e(1) by (auto simp: source_entries_def Let_def split: option.splits)
  obtain ext d st reason where c: "considered tr source e" "kind_of_file (tr_lower tr) (ename e) = Some ext"
    "best_home tr ext (normalise_name tr (stem_of (ename e))) (map snd (filter (\<lambda>(x, y). x = ext) ?homes)) = Some (d, st, reason)"
    "pr_from p = source @ [CHR 0x5C] @ ename e" "pr_to p = de_path d @ [CHR 0x5C] @ ename e" "pr_name p = ename e" "pr_bytes p = ebytes e"
    using e(2) by (auto simp: propose_def Let_def split: if_splits option.splits)
  from best_home_suits [OF c(3)] have d: "(ext, d) \<in> set ?homes"
    "judge_home tr ext (normalise_name tr (stem_of (ename e))) d = Some (st, reason)" by auto
  have "established (tr_lower tr) vi ext d"
  proof -
    obtain record_no where "(ext, d) \<in> set (home_loop (tr_lower tr) vi [(record_no, profile, 0)] [])"
      using d(1) by (auto simp: destinations_def simp del: home_loop.simps split: option.splits)
    then show ?thesis by (rule home_loop_established [of "[]", rotated]) simp
  qed
  moreover have "ext \<in> set MOVABLE" "MIN_LOOSE_SIZE \<le> pr_bytes p" "\<not> is_off_limits (tr_lower tr) (pr_from p)"
    using c by (auto simp: considered_def is_movable_def not_less)
  moreover have "names_agree (normalise_name tr (stem_of (pr_name p))) (normalise_name tr (de_name d)) \<or> 3 * max (de_total d) 1 \<le> 5 * de_matching d"
    using d(2) c(6) by (auto simp: judge_home_def split: if_splits)
  ultimately show ?thesis using c folder by metis
qed

text \<open>A folder of papers and a paper in Downloads.\<close>

definition tree_entry :: "u32 \<Rightarrow> str \<Rightarrow> bool \<Rightarrow> mft_entry" where
  "tree_entry up nm dir =
     \<lparr>parent = up, ename = nm, is_directory = dir, ebytes = (if dir then 0 else 0x200000), modified = 0, created = 0, accessed = 0\<rparr>"

definition papers_volume :: volume_index where
  "papers_volume =
     \<lparr>snapshot = \<lparr>entries = [(20, tree_entry 5 ''P'' True), (21, tree_entry 20 ''Downloads'' True), (22, tree_entry 20 ''Papers'' True),
          (30, tree_entry 21 ''talk.pdf'' False), (31, tree_entry 22 ''a.pdf'' False), (32, tree_entry 22 ''b.pdf'' False),
          (33, tree_entry 22 ''c.pdf'' False), (34, tree_entry 22 ''d.pdf'' False)], root = 5, skipped = 0, stats = default_stats\<rparr>,
      directories = Map.empty, children = [5 \<mapsto> [20], 20 \<mapsto> [21, 22], 21 \<mapsto> [30], 22 \<mapsto> [31, 32, 33, 34]],
      totals = Map.empty, direct_files = Map.empty, vi_file_count = 5, vi_directory_count = 3, vi_total_bytes = 0xA00000\<rparr>"

lemma papers_children:
  "map (\<lambda>(c, e). (c, ename e, is_directory e)) (child_entries papers_volume 20) = [(21, ''Downloads'', True), (22, ''Papers'', True)]"
  "child_entries papers_volume 21 = [(30, tree_entry 21 ''talk.pdf'' False)]"
  "child_entries papers_volume 22 = [(31, tree_entry 22 ''a.pdf'' False), (32, tree_entry 22 ''b.pdf'' False),
     (33, tree_entry 22 ''c.pdf'' False), (34, tree_entry 22 ''d.pdf'' False)]"
  "child_entries papers_volume 20 = [(21, tree_entry 20 ''Downloads'' True), (22, tree_entry 20 ''Papers'' True)]"
  by (simp_all add: child_entries_def children_of_def entry_at_def papers_volume_def tree_entry_def List.map_filter_def)

lemma papers_text:
  "kind_of_file ascii_lower ''talk.pdf'' = Some ''pdf''" "kind_of_file ascii_lower ''a.pdf'' = Some ''pdf''"
  "kind_of_file ascii_lower ''b.pdf'' = Some ''pdf''" "kind_of_file ascii_lower ''c.pdf'' = Some ''pdf''"
  "kind_of_file ascii_lower ''d.pdf'' = Some ''pdf''"
  "\<not> is_off_limits ascii_lower (slashes ''C:/P'')" "\<not> is_off_limits ascii_lower (slashes ''C:/P/Downloads'')"
  "\<not> is_off_limits ascii_lower (slashes ''C:/P/Papers'')" "\<not> is_off_limits ascii_lower (slashes ''C:/P/Downloads/talk.pdf'')"
  "last_part (slashes ''C:/P'') = ''P''" "last_part (slashes ''C:/P/Downloads'') = ''Downloads''" "last_part (slashes ''C:/P/Papers'') = ''Papers''"
  "is_source_name ''Downloads''" "\<not> is_source_name ''Papers''" "\<not> is_source_name ''P''"
  "slashes ''C:/P'' @ CHR 0x5C # ''Downloads'' = slashes ''C:/P/Downloads''" "slashes ''C:/P'' @ CHR 0x5C # ''Papers'' = slashes ''C:/P/Papers''"
  "slashes ''C:/P/Downloads'' @ CHR 0x5C # ''talk.pdf'' = slashes ''C:/P/Downloads/talk.pdf''"
  "is_movable ascii_lower ''talk.pdf''" "stem_of ''talk.pdf'' = ''talk''"
  "split_path (slashes ''C:/P'') = [''P'']" "split_path (slashes ''C:/P/Downloads'') = [''P'', ''Downloads'']"
  "split_path (slashes ''C:/P'' @ CHR 0x5C # ''Desktop'') = [''P'', ''Desktop'']"
  by code_simp+

lemma papers_resolve:
  "resolve ascii_lower papers_volume (slashes ''C:/P'') = Some 20" "resolve ascii_lower papers_volume (slashes ''C:/P/Downloads'') = Some 21"
  by (simp_all add: resolve_def papers_text papers_volume_def children_of_def entry_at_def tree_entry_def ascii_lower_def ascii_lower_char_def)

lemma papers_homes:
  "destinations ascii_lower papers_volume (slashes ''C:/P'')
     = [(''pdf'', \<lparr>de_path = slashes ''C:/P/Papers'', de_name = ''Papers'', de_matching = 4, de_total = 4\<rparr>)]"
proof -
  have sub: "subfolders papers_volume 20 (slashes ''C:/P'') 0 = [(21, slashes ''C:/P/Downloads'', 1), (22, slashes ''C:/P/Papers'', 1)]"
    "subfolders papers_volume 21 p d = []" "subfolders papers_volume 22 p d = []" for p d
    using papers_text by (simp_all add: subfolders_def papers_children tree_entry_def)
  have homes: "homes_of ascii_lower papers_volume 20 p 0 = []" "homes_of ascii_lower papers_volume 21 (slashes ''C:/P/Downloads'') d = []"
    "homes_of ascii_lower papers_volume 22 (slashes ''C:/P/Papers'') (Suc 0)
       = [(''pdf'', \<lparr>de_path = slashes ''C:/P/Papers'', de_name = ''Papers'', de_matching = 4, de_total = 4\<rparr>)]" for p d
    by (simp_all add: homes_of_def papers_text file_kinds_def files_inside_def papers_children tree_entry_def List.map_filter_def MIN_ESTABLISHED_def Let_def numeral_eq_Suc)
  show ?thesis by (simp add: destinations_def papers_resolve sub homes papers_text)
qed

theorem proposals_name_established_homes_witness:
  "\<exists>p \<in> set (fst (find_proposals plain_text papers_volume (slashes ''C:/P''))). \<exists>ext \<in> set MOVABLE.
     kind_of_file (tr_lower plain_text) (pr_name p) = Some ext"
proof -
  have low: "tr_lower plain_text = ascii_lower" by (simp add: plain_text_def)
  let ?talk = "tree_entry 21 ''talk.pdf'' False"
  have "(slashes ''C:/P/Downloads'', ?talk) \<in> set (source_entries plain_text papers_volume (slashes ''C:/P''))"
    by (simp add: source_entries_def SOURCE_FOLDERS_def low papers_text papers_resolve papers_children)
  moreover have "propose plain_text (destinations ascii_lower papers_volume (slashes ''C:/P'')) (slashes ''C:/P/Downloads'') ?talk \<noteq> None"
    by (simp add: propose_def considered_def low papers_homes papers_text tree_entry_def MIN_LOOSE_SIZE_def best_home_def better_home_def
        judge_home_def Let_def)
  ultimately obtain p where p: "p \<in> set (fst (find_proposals plain_text papers_volume (slashes ''C:/P'')))"
    by (force simp: find_proposals_def Let_def List.map_filter_def low)
  from proposals_name_established_homes [OF p] p show ?thesis by blast
qed

section \<open>The fence\<close>

definition judge_move_path :: "(str \<Rightarrow> str) \<Rightarrow> file_system \<Rightarrow> str \<Rightarrow> str \<Rightarrow> str + unit" where
  "judge_move_path lower fs fence path =
     (if has_relative_step lower path then Inl (path @ '' is not a plain path'')
      else (case resolved_plain lower fs path of
              None \<Rightarrow> Inl (path @ '' could not be resolved, so it was left alone'')
            | Some real \<Rightarrow>
              (if \<not> prefix fence real
               then Inl (path @ '' is outside your user folder, which is the only place this moves files'')
               else if is_off_limits lower real
               then Inl (path @ '' is somewhere software lives, not a document'')
               else Inr ())))"

definition check_movable :: "(str \<Rightarrow> str) \<Rightarrow> file_system \<Rightarrow> str \<Rightarrow> str \<Rightarrow> user_context \<Rightarrow> str + unit" where
  "check_movable lower fs from_path to_path user =
     (case resolved_root lower fs (uc_profile user) of
        None \<Rightarrow> Inl ''there is no user folder to confine this to''
      | Some rt \<Rightarrow>
        (let profile = trim_end_matches is_path_separator rt; fence = profile @ [CHR 0x5C] in
         if profile = [] then Inl ''there is no user folder to confine this to''
         else (case judge_move_path lower fs fence from_path of
                 Inl e \<Rightarrow> Inl e
               | Inr u \<Rightarrow>
                 (case judge_move_path lower fs fence to_path of
                    Inl e \<Rightarrow> Inl e
                  | Inr u \<Rightarrow>
                    (let nm = last_part from_path in
                     if \<not> is_movable lower nm
                     then Inl (nm @ '' is not a kind of file this will move '' @ em_dash
                            @ '' executables and anything that runs are excluded on purpose'')
                     else Inr ())))))"

section \<open>What the fence lets through\<close>

definition inside_user_folder :: "(str \<Rightarrow> str) \<Rightarrow> file_system \<Rightarrow> user_context \<Rightarrow> str \<Rightarrow> bool" where
  "inside_user_folder lower fs user path \<longleftrightarrow>
     (\<exists>real rt. resolved_plain lower fs path = Some real \<and> resolved_root lower fs (uc_profile user) = Some rt
        \<and> trim_end_matches is_path_separator rt \<noteq> []
        \<and> prefix (trim_end_matches is_path_separator rt @ [CHR 0x5C]) real \<and> \<not> is_off_limits lower real)"

text \<open>C25: a move is let through only when both ends, as the system resolves them, are inside the folder of the
  person who asked and in no place software lives, and the file is of an inert kind by its name.
\<close>

theorem moves_stay_in_the_user_folder:
  assumes "check_movable lower fs from_path to_path user = Inr ()"
  shows "inside_user_folder lower fs user from_path \<and> inside_user_folder lower fs user to_path
    \<and> \<not> has_relative_step lower from_path \<and> \<not> has_relative_step lower to_path
    \<and> (\<exists>ext \<in> set MOVABLE. kind_of_file lower (last_part from_path) = Some ext)"
proof -
  have judged: "\<not> has_relative_step lower path \<and> (\<exists>real. resolved_plain lower fs path = Some real \<and> prefix fence real \<and> \<not> is_off_limits lower real)"
    if "judge_move_path lower fs fence path = Inr u" for fence path u
    using that by (auto simp: judge_move_path_def split: option.splits if_splits)
  obtain rt where rt: "resolved_root lower fs (uc_profile user) = Some rt" "trim_end_matches is_path_separator rt \<noteq> []"
    "judge_move_path lower fs (trim_end_matches is_path_separator rt @ [CHR 0x5C]) from_path = Inr ()"
    "judge_move_path lower fs (trim_end_matches is_path_separator rt @ [CHR 0x5C]) to_path = Inr ()"
    "is_movable lower (last_part from_path)"
    using assms by (auto simp: check_movable_def Let_def split: option.splits sum.splits if_splits)
  from rt(5) have "\<exists>ext \<in> set MOVABLE. kind_of_file lower (last_part from_path) = Some ext"
    by (auto simp: is_movable_def split: option.splits)
  with judged [OF rt(3)] judged [OF rt(4)] rt(1,2) show ?thesis unfolding inside_user_folder_def by blast
qed

definition loose_files :: file_system where
  "loose_files =
     \<lparr>nodes = [], fault = (\<lambda>oper path. None),
      canonical = (\<lambda>path. if path = slashes ''C:/Users/ari'' \<or> path = slashes ''C:/Users/ari/Downloads/a.txt''
         then Inr (slashes ''//?/'' @ path) else Inl not_found)\<rparr>"

definition loose_owner :: user_context where "loose_owner = \<lparr>uc_sid = None, uc_profile = slashes ''C:/Users/ari''\<rparr>"

theorem moves_stay_in_the_user_folder_witness:
  "inside_user_folder ascii_lower loose_files loose_owner (slashes ''C:/Users/ari/Notes/a.txt'')
   \<and> check_movable ascii_lower loose_files (slashes ''C:/Users/ari/Downloads/a.txt'') (slashes ''C:/Windows/a.txt'') loose_owner \<noteq> Inr ()"
proof -
  have "check_movable ascii_lower loose_files (slashes ''C:/Users/ari/Downloads/a.txt'') (slashes ''C:/Users/ari/Notes/a.txt'') loose_owner = Inr ()"
    by code_simp
  from moves_stay_in_the_user_folder [OF this] have "inside_user_folder ascii_lower loose_files loose_owner (slashes ''C:/Users/ari/Notes/a.txt'')"
    by blast
  moreover have "check_movable ascii_lower loose_files (slashes ''C:/Users/ari/Downloads/a.txt'') (slashes ''C:/Windows/a.txt'') loose_owner \<noteq> Inr ()"
    by code_simp
  ultimately show ?thesis by blast
qed

text \<open>Only the name of the source is judged: the same move may give the file the name of a program.\<close>

lemma move_may_make_a_program:
  "check_movable ascii_lower loose_files (slashes ''C:/Users/ari/Downloads/a.txt'') (slashes ''C:/Users/ari/Notes/a.exe'') loose_owner = Inr ()
   \<and> \<not> is_movable ascii_lower ''a.exe''"
  by (rule conjI) code_simp+

text \<open>A name of no letters or digits agrees with every folder whose own name has four.\<close>

lemma nameless_file_agrees_with_any_folder: "names_agree [] folder_key \<longleftrightarrow> 4 \<le> length folder_key"
  by (cases folder_key) (simp_all add: names_agree_def contains_def)

end
