(* ===== verification/Kam_Schedule.thy ===== *)
theory Kam_Schedule
  imports Kam_Prelude
begin

text \<open>
  The weekly check, \<open>crates/kam-schedule/src/lib.rs\<close>: reading, registering and removing the one
  scheduled task this program has. The state is the folder of the task scheduler the task lives in; what
  the scheduler answers to each call is an argument. Cutting a text inside a character panics: the
  operation then has no value.
\<close>

section \<open>Data\<close>

definition FOLDER :: str where "FOLDER = CHR 0x5C # ''KAM Security''"
definition TASK :: str where "TASK = ''Weekly check''"
definition FULL_PATH :: str where "FULL_PATH = CHR 0x5C # ''KAM Security'' @ [CHR 0x5C] @ ''Weekly check''"
definition CHECK_ARGUMENT :: str where "CHECK_ARGUMENT = ''--check''"

record schedule =
  sc_enabled :: bool
  sc_day :: "str option"
  sc_at :: "str option"
  sc_account :: "str option"
  sc_command :: "str option"

definition schedule_off :: schedule where
  "schedule_off = \<lparr>sc_enabled = False, sc_day = None, sc_at = None, sc_account = None, sc_command = None\<rparr>"

definition DAYS :: "(str \<times> u16) list" where
  "DAYS = [(''Sunday'', 0x01), (''Monday'', 0x02), (''Tuesday'', 0x04), (''Wednesday'', 0x08), (''Thursday'', 0x10),
           (''Friday'', 0x20), (''Saturday'', 0x40)]"

definition day_name :: "u16 \<Rightarrow> str option" where
  "day_name day_bits = map_option fst (find (\<lambda>d. and day_bits (snd d) \<noteq> 0) DAYS)"

definition day_named :: "str \<Rightarrow> str \<times> u16" where
  "day_named day =
     (case find (\<lambda>d. ascii_lower (fst d) = ascii_lower day) DAYS of Some d \<Rightarrow> d | None \<Rightarrow> (''Sunday'', 0x01))"

section \<open>The scheduler\<close>

datatype run_level = LeastPrivilege | HighestPrivilege
datatype logon_type = InteractiveToken | OtherLogon

record weekly_trigger =
  tg_start :: str
  tg_weekly :: "(u16 \<times> nat) option"

record exec_action =
  ex_path :: str
  ex_arguments :: str

record task_definition =
  td_author :: str
  td_description :: str
  td_mains_only :: bool
  td_stops_on_battery :: bool
  td_catches_up :: bool
  td_time_limit :: str
  td_triggers :: "weekly_trigger list"
  td_actions :: "exec_action option list"
  td_account :: str
  td_logon :: logon_type
  td_run_level :: run_level

record registered_task =
  rt_enabled :: bool
  rt_hidden :: bool
  rt_definition :: task_definition

text \<open>The folder, when it is there: its tasks by name.\<close>

type_synonym task_folder = "(str \<times> registered_task) list option"

record com_error =
  ce_code :: u32
  ce_text :: str

definition ABSENT :: com_error where
  "ABSENT = \<lparr>ce_code = 0x80070002, ce_text = ''The system cannot find the file specified. (0x80070002)''\<rparr>"

definition ALREADY_THERE :: com_error where
  "ALREADY_THERE = \<lparr>ce_code = 0x800700B7, ce_text = ''Cannot create a file when that file already exists. (0x800700B7)''\<rparr>"

definition is_absent :: "com_error \<Rightarrow> bool" where
  "is_absent e \<longleftrightarrow> ce_code e = 0x80070002 \<or> ce_code e = 0x80070003"

datatype task_part =
    PartPrincipal | PartUserId | PartActions | PartAction | PartPath | PartTriggers | PartTrigger | PartStart | PartDays

datatype build_call =
    GetInfo | SetAuthor | SetDescription | GetSettings | SetDisallow | SetStop | SetAvailable | SetLimit
  | GetTriggers | CreateTrigger | CastTrigger | SetDays | SetInterval | SetStart
  | GetActions | CreateAction | CastAction | SetPath | SetArguments
  | GetPrincipal | SetUserId | SetLogon | SetRunLevel

text \<open>What the scheduler answers: the error of each call that fails, and the parts of a task that cannot be read.\<close>

record scheduler =
  sd_create :: "str option"
  sd_connect :: "str option"
  sd_get_folder :: "com_error option"
  sd_get_root :: "str option"
  sd_create_folder :: "str option"
  sd_get_task :: "com_error option"
  sd_enabled :: "str option"
  sd_definition :: "str option"
  sd_part :: "task_part \<Rightarrow> bool"
  sd_new_task :: "str option"
  sd_build :: "build_call \<Rightarrow> str option"
  sd_register :: "str option"
  sd_delete :: "str option"
  sd_counts :: bool
  sd_delete_folder :: bool

text \<open>A call that fails as told, with the message the sources wrap its error in.\<close>

definition privileged_if :: "str option \<Rightarrow> str \<Rightarrow> kam_error + unit" where
  "privileged_if fault said = (case fault of Some e \<Rightarrow> Inl (Privileged (said @ '': '' @ e)) | None \<Rightarrow> Inr ())"

definition service :: "scheduler \<Rightarrow> kam_error + unit" where
  "service sd =
     (case privileged_if (sd_create sd) ''no task scheduler'' of
        Inl e \<Rightarrow> Inl e
      | Inr u \<Rightarrow> privileged_if (sd_connect sd) ''could not reach the task scheduler'')"

definition get_folder :: "scheduler \<Rightarrow> task_folder \<Rightarrow> com_error + (str \<times> registered_task) list" where
  "get_folder sd tf =
     (case sd_get_folder sd of
        Some e \<Rightarrow> Inl e
      | None \<Rightarrow> (case tf of None \<Rightarrow> Inl ABSENT | Some tasks \<Rightarrow> Inr tasks))"

definition create_folder :: "scheduler \<Rightarrow> task_folder \<Rightarrow> str + task_folder" where
  "create_folder sd tf =
     (case sd_create_folder sd of
        Some e \<Rightarrow> Inl e
      | None \<Rightarrow> (case tf of None \<Rightarrow> Inr (Some []) | Some tasks \<Rightarrow> Inl (ce_text ALREADY_THERE)))"

text \<open>The folder when it was found, and the state it leaves: \<open>Inr (False, tf)\<close> when there is none.\<close>

definition folder :: "scheduler \<Rightarrow> bool \<Rightarrow> task_folder \<Rightarrow> (kam_error + bool) \<times> task_folder" where
  "folder sd create tf =
     (case get_folder sd tf of
        Inr tasks \<Rightarrow> (Inr True, tf)
      | Inl e \<Rightarrow>
        if \<not> is_absent e then (Inl (Privileged (''the task folder could not be read: '' @ ce_text e)), tf)
        else if \<not> create then (Inr False, tf)
        else (case privileged_if (sd_get_root sd) ''no task folder'' of
                Inl e \<Rightarrow> (Inl e, tf)
              | Inr u \<Rightarrow>
                (case create_folder sd tf of
                   Inl e \<Rightarrow> (Inl (Privileged (''could not create the task folder: '' @ e)), tf)
                 | Inr tf' \<Rightarrow> (Inr True, tf'))))"

definition tasks_of :: "task_folder \<Rightarrow> (str \<times> registered_task) list" where
  "tasks_of tf = (case tf of None \<Rightarrow> [] | Some tasks \<Rightarrow> tasks)"

definition get_task :: "scheduler \<Rightarrow> task_folder \<Rightarrow> com_error + registered_task" where
  "get_task sd tf =
     (case sd_get_task sd of
        Some e \<Rightarrow> Inl e
      | None \<Rightarrow> (case map_of (tasks_of tf) TASK of None \<Rightarrow> Inl ABSENT | Some t \<Rightarrow> Inr t))"

section \<open>Reading\<close>

text \<open>\<open>&time[..5.min(time.len())]\<close>.\<close>

definition clock_face :: "str \<Rightarrow> str option" where
  "clock_face t =
     (if length t \<le> 5 then Some t else if is_continuation (t ! 5) then None else Some (take 5 t))"

definition read_account :: "scheduler \<Rightarrow> task_definition \<Rightarrow> str option" where
  "read_account sd d =
     (if sd_part sd PartPrincipal \<and> sd_part sd PartUserId \<and> td_account d \<noteq> [] then Some (td_account d) else None)"

definition read_command :: "scheduler \<Rightarrow> task_definition \<Rightarrow> str option" where
  "read_command sd d =
     (if sd_part sd PartActions \<and> sd_part sd PartAction
      then (case td_actions d of
              Some a # rest \<Rightarrow> if sd_part sd PartPath \<and> ex_path a \<noteq> [] then Some (ex_path a) else None
            | _ \<Rightarrow> None)
      else None)"

text \<open>The time of day: nothing when it is not written, no value when the text is cut inside a character.\<close>

definition read_time :: "str \<Rightarrow> str option option" where
  "read_time start =
     (case split_on (\<lambda>c. c = CHR ''T'') start of
        date # time # rest \<Rightarrow> map_option Some (clock_face time)
      | _ \<Rightarrow> Some None)"

definition read_trigger :: "scheduler \<Rightarrow> task_definition \<Rightarrow> (str option \<times> str option) option" where
  "read_trigger sd d =
     (if sd_part sd PartTriggers \<and> sd_part sd PartTrigger
      then (case td_triggers d of
              [] \<Rightarrow> Some (None, None)
            | tg # rest \<Rightarrow>
              (case (if sd_part sd PartStart then read_time (tg_start tg) else Some None) of
                 None \<Rightarrow> None
               | Some time \<Rightarrow>
                 Some (time, (case tg_weekly tg of
                                Some (day_bits, weeks) \<Rightarrow> if sd_part sd PartDays then day_name day_bits else None
                              | None \<Rightarrow> None))))
      else Some (None, None))"

definition current :: "scheduler \<Rightarrow> task_folder \<Rightarrow> (kam_error + schedule) option" where
  "current sd tf =
     (case service sd of
        Inl e \<Rightarrow> Some (Inl e)
      | Inr u \<Rightarrow>
        (case fst (folder sd False tf) of
           Inl e \<Rightarrow> Some (Inl e)
         | Inr False \<Rightarrow> Some (Inr schedule_off)
         | Inr True \<Rightarrow>
           (case get_task sd tf of
              Inl e \<Rightarrow>
                if is_absent e then Some (Inr schedule_off)
                else Some (Inl (Privileged (''the weekly check could not be read: '' @ ce_text e)))
            | Inr t \<Rightarrow>
              (case privileged_if (sd_enabled sd) ''whether the weekly check is switched on could not be read'' of
                 Inl e \<Rightarrow> Some (Inl e)
               | Inr u \<Rightarrow>
                 (case privileged_if (sd_definition sd) ''the weekly check could not be read'' of
                    Inl e \<Rightarrow> Some (Inl e)
                  | Inr u \<Rightarrow>
                    map_option (\<lambda>(time, day). Inr \<lparr>sc_enabled = rt_enabled t, sc_day = day, sc_at = time,
                        sc_account = read_account sd (rt_definition t), sc_command = read_command sd (rt_definition t)\<rparr>)
                      (read_trigger sd (rt_definition t)))))))"

section \<open>Registering\<close>

definition BUILD_STEPS :: "(build_call \<times> str) list" where
  "BUILD_STEPS =
     [(GetInfo, ''no registration info''), (SetAuthor, ''could not set the author''),
      (SetDescription, ''could not describe the task''), (GetSettings, ''no settings''),
      (SetDisallow, ''could not set the settings''), (SetStop, ''could not set the settings''),
      (SetAvailable, ''could not set the settings''), (SetLimit, ''could not set the settings''),
      (GetTriggers, ''no triggers''), (CreateTrigger, ''could not add a trigger''),
      (CastTrigger, ''wrong trigger type''), (SetDays, ''could not set the day''),
      (SetInterval, ''could not set the day''), (SetStart, ''could not set the time''),
      (GetActions, ''no actions''), (CreateAction, ''could not add an action''), (CastAction, ''wrong action type''),
      (SetPath, ''could not set the program''), (SetArguments, ''could not set the program''),
      (GetPrincipal, ''no principal''), (SetUserId, ''could not set the account''),
      (SetLogon, ''could not set the account''), (SetRunLevel, ''could not set the account'')]"

fun first_fault :: "(build_call \<Rightarrow> str option) \<Rightarrow> (build_call \<times> str) list \<Rightarrow> kam_error + unit" where
  "first_fault faults [] = Inr ()"
| "first_fault faults ((step, said) # steps) =
     (case privileged_if (faults step) said of Inl e \<Rightarrow> Inl e | Inr u \<Rightarrow> first_fault faults steps)"

definition two_digits :: "u8 \<Rightarrow> str" where
  "two_digits hour = pad0 2 (show_nat (unat hour))"

definition weekly_definition :: "str \<Rightarrow> str \<Rightarrow> u16 \<Rightarrow> u8 \<Rightarrow> task_definition" where
  "weekly_definition program account day_bits hour =
     \<lparr>td_author = ''KAM Security'',
      td_description = ''Checks Windows Defender, the firewall, and what starts itself. Registered by KAM Security, and removed when the check is turned off.'',
      td_mains_only = True, td_stops_on_battery = True, td_catches_up = True, td_time_limit = ''PT30M'',
      td_triggers = [\<lparr>tg_start = ''2026-01-04T'' @ two_digits hour @ '':00:00'', tg_weekly = Some (day_bits, 1)\<rparr>],
      td_actions = [Some \<lparr>ex_path = program, ex_arguments = CHECK_ARGUMENT\<rparr>],
      td_account = account, td_logon = InteractiveToken, td_run_level = LeastPrivilege\<rparr>"

text \<open>\<open>TASK_CREATE_OR_UPDATE\<close>: the task of that name is replaced where it stands, or added.\<close>

definition register_task :: "str \<Rightarrow> registered_task \<Rightarrow> (str \<times> registered_task) list \<Rightarrow> (str \<times> registered_task) list" where
  "register_task nm t tasks =
     (if map_of tasks nm = None then tasks @ [(nm, t)]
      else map (\<lambda>(n, old). (n, if n = nm then t else old)) tasks)"

text \<open>\<open>back\<close> is what the scheduler answers when the registration is read back.\<close>

definition enable ::
  "scheduler \<Rightarrow> scheduler \<Rightarrow> str \<Rightarrow> str \<Rightarrow> str \<Rightarrow> u8 \<Rightarrow> task_folder \<Rightarrow> (kam_error + schedule) option \<times> task_folder" where
  "enable sd back program account day hour tf =
     (case service sd of
        Inl e \<Rightarrow> (Some (Inl e), tf)
      | Inr u \<Rightarrow>
        (case folder sd True tf of
           (Inl e, tf) \<Rightarrow> (Some (Inl e), tf)
         | (Inr False, tf) \<Rightarrow> (Some (Inl (Privileged ''the task folder could not be created'')), tf)
         | (Inr True, tf) \<Rightarrow>
           (case privileged_if (sd_new_task sd) ''could not start a task'' of
              Inl e \<Rightarrow> (Some (Inl e), tf)
            | Inr u \<Rightarrow>
              (let (name, day_bits) = day_named day
               in case first_fault (sd_build sd) BUILD_STEPS of
                    Inl e \<Rightarrow> (Some (Inl e), tf)
                  | Inr u \<Rightarrow>
                    (case privileged_if (sd_register sd) ''could not register the task'' of
                       Inl e \<Rightarrow> (Some (Inl e), tf)
                     | Inr u \<Rightarrow>
                       (let t = \<lparr>rt_enabled = True, rt_hidden = False,
                                 rt_definition = weekly_definition program account day_bits hour\<rparr>;
                            tf = Some (register_task TASK t (tasks_of tf))
                        in (case current back tf of
                              None \<Rightarrow> None
                            | Some (Inr s) \<Rightarrow> Some (Inr s)
                            | Some (Inl e) \<Rightarrow>
                                Some (Inr \<lparr>sc_enabled = True, sc_day = Some name, sc_at = Some (two_digits hour @ '':00''),
                                           sc_account = Some account, sc_command = Some program\<rparr>), tf)))))))"

section \<open>Removing\<close>

text \<open>\<open>GetTasks(0)\<close> leaves hidden tasks out of the count; a folder that holds a task is not deleted.\<close>

definition tidy_folder :: "scheduler \<Rightarrow> (str \<times> registered_task) list \<Rightarrow> task_folder" where
  "tidy_folder sd tasks =
     (if sd_get_root sd = None \<and> sd_counts sd \<and> filter (\<lambda>(n, t). \<not> rt_hidden t) tasks = []
         \<and> sd_delete_folder sd \<and> tasks = []
      then None else Some tasks)"

definition disable :: "scheduler \<Rightarrow> task_folder \<Rightarrow> (kam_error + unit) \<times> task_folder" where
  "disable sd tf =
     (case service sd of
        Inl e \<Rightarrow> (Inl e, tf)
      | Inr u \<Rightarrow>
        (case folder sd False tf of
           (Inl e, tf) \<Rightarrow> (Inl e, tf)
         | (Inr False, tf) \<Rightarrow> (Inr (), tf)
         | (Inr True, tf) \<Rightarrow>
           (case sd_delete sd of
              Some e \<Rightarrow> (Inl (Privileged (''could not remove the task: '' @ e)), tf)
            | None \<Rightarrow>
              if map_of (tasks_of tf) TASK = None
              then (Inl (Privileged (''could not remove the task: '' @ ce_text ABSENT)), tf)
              else (Inr (), tidy_folder sd (filter (\<lambda>(n, t). n \<noteq> TASK) (tasks_of tf))))))"

definition task_path :: str where "task_path = FULL_PATH"

end
