(* ===== verification/Kam_Schedule_Safe.thy ===== *)
theory Kam_Schedule_Safe
  imports Kam_Schedule
begin

text \<open>
  What registering, reading and removing the weekly check do to the folder of the task scheduler, and
  that what is registered reads back.
\<close>

section \<open>The folder\<close>

abbreviation others :: "(str \<times> registered_task) list \<Rightarrow> (str \<times> registered_task) list" where
  "others tasks \<equiv> filter (\<lambda>(n, t). n \<noteq> TASK) tasks"

lemma tasks_of_simps [simp]: "tasks_of (Some tasks) = tasks" "tasks_of None = []"
  by (simp_all add: tasks_of_def)

lemma folder_keeps_tasks: "tasks_of (snd (folder sd create tf)) = tasks_of tf"
  by (auto simp: folder_def create_folder_def split: sum.splits option.splits if_splits)

lemma folder_found: "fst (folder sd False tf) = Inr True \<Longrightarrow> sd_get_folder sd = None \<and> tf \<noteq> None"
  by (auto simp: folder_def get_folder_def split: sum.splits option.splits if_splits)

lemma folder_no_create [simp]: "snd (folder sd False tf) = tf"
  by (auto simp: folder_def split: sum.splits)

lemma map_of_replaced: "map_of (map (\<lambda>(n, old). (n, if n = nm then t else old)) tasks) k =
    (if k = nm \<and> map_of tasks nm \<noteq> None then Some t else map_of tasks k)"
  by (induction tasks) auto

lemma map_of_register: "map_of (register_task nm t tasks) nm = Some t"
  by (auto simp: register_task_def map_of_replaced map_add_def)

lemma others_register: "others (register_task TASK t tasks) = others tasks"
proof -
  have "filter (\<lambda>(n, t). n \<noteq> k) (map (\<lambda>(n, old). (n, if n = k then t else old)) tasks)
      = filter (\<lambda>(n, t). n \<noteq> k) tasks" for k
    by (induction tasks) auto
  then show ?thesis by (simp add: register_task_def)
qed

lemma map_of_others: "map_of (others tasks) TASK = None"
  by (induction tasks) auto

section \<open>Registering changes this program's task alone\<close>

text \<open>The task that is registered for a request.\<close>

definition checked_task :: "str \<Rightarrow> str \<Rightarrow> str \<Rightarrow> u8 \<Rightarrow> registered_task" where
  "checked_task program account day hour =
     \<lparr>rt_enabled = True, rt_hidden = False,
      rt_definition = weekly_definition program account (snd (day_named day)) hour\<rparr>"

text \<open>C27: registering leaves every other task of the folder as it was. When it fails nothing in the folder
  changes; otherwise the task that is there is this program's own: it starts the given program with the
  check's argument, as the given account, with least privilege.
\<close>

theorem enable_registers_its_task_alone:
  "others (tasks_of (snd (enable sd back program account day hour tf))) = others (tasks_of tf)
   \<and> (case fst (enable sd back program account day hour tf) of
        Some (Inl e) \<Rightarrow> tasks_of (snd (enable sd back program account day hour tf)) = tasks_of tf
      | r \<Rightarrow> map_of (tasks_of (snd (enable sd back program account day hour tf))) TASK
               = Some (checked_task program account day hour))"
proof (cases "service sd")
  case (Inl e)
  then show ?thesis by (simp add: enable_def)
next
  case serv: (Inr u)
  obtain found tf1 where f: "folder sd True tf = (found, tf1)" by (cases "folder sd True tf")
  have same: "tasks_of tf1 = tasks_of tf" using folder_keeps_tasks [of sd True tf] by (simp add: f)
  show ?thesis
  proof (cases found)
    case (Inl e)
    then show ?thesis by (simp add: enable_def serv f same)
  next
    case (Inr b)
    then show ?thesis
      by (auto simp: enable_def serv f same map_of_register others_register checked_task_def Let_def
          split: bool.splits sum.splits option.splits prod.splits)
  qed
qed

lemma registered_with_least_privilege:
  "td_run_level (rt_definition (checked_task program account day hour)) = LeastPrivilege"
  "td_account (rt_definition (checked_task program account day hour)) = account"
  "td_actions (rt_definition (checked_task program account day hour))
     = [Some \<lparr>ex_path = program, ex_arguments = CHECK_ARGUMENT\<rparr>]"
  by (simp_all add: checked_task_def weekly_definition_def)

section \<open>What is registered reads back\<close>

lemma day_named_cases: "day_named day \<in> set DAYS"
proof (cases "find (\<lambda>d. ascii_lower (fst d) = ascii_lower day) DAYS")
  case None
  then show ?thesis by (simp add: day_named_def DAYS_def)
next
  case (Some d)
  then have "d \<in> set DAYS" using find_Some_iff [of _ DAYS d] by (metis nth_mem)
  with Some show ?thesis by (simp add: day_named_def)
qed

lemma day_name_day_named: "day_name (snd (day_named day)) = Some (fst (day_named day))"
proof -
  have "list_all (\<lambda>d. day_name (snd d) = Some (fst d)) DAYS" by (simp add: day_name_def DAYS_def)
  then show ?thesis using day_named_cases [of day] by (simp add: list_all_iff)
qed

lemma two_digits_of:
  assumes "unat hour \<le> 23"
  obtains c d where "two_digits hour = [c, d]" and "is_digit c" and "is_digit d"
proof -
  have l: "length (two_digits hour) = 2" using assms length_pad0_show [of 2 "unat hour"] by (simp add: two_digits_def)
  have digits: "\<And>x. x \<in> set (two_digits hour) \<Longrightarrow> is_digit x" using pad0_digits unfolding two_digits_def by blast
  obtain c t where "two_digits hour = c # t" "length t = 1" using l by (cases "two_digits hour") simp_all
  then obtain d where "two_digits hour = [c, d]" by (cases t) simp_all
  with digits show thesis by (metis that list.set_intros)
qed

lemma no_T_digit: "is_digit c \<Longrightarrow> c \<noteq> CHR ''T''"
  by (auto simp: is_digit_def)

lemma read_time_of_hour:
  assumes "unat hour \<le> 23"
  shows "read_time (''2026-01-04T'' @ two_digits hour @ '':00:00'') = Some (Some (two_digits hour @ '':00''))"
proof -
  obtain c d where cd: "two_digits hour = [c, d]" "is_digit c" "is_digit d" using two_digits_of [OF assms] .
  then have "c \<noteq> CHR ''T''" "d \<noteq> CHR ''T''" by (simp_all add: no_T_digit)
  then show ?thesis by (simp add: cd(1) read_time_def clock_face_def is_continuation_def)
qed

text \<open>Every call of a scheduler that fails in nothing.\<close>

definition willing :: scheduler where
  "willing = \<lparr>sd_create = None, sd_connect = None, sd_get_folder = None, sd_get_root = None, sd_create_folder = None,
     sd_get_task = None, sd_enabled = None, sd_definition = None, sd_part = (\<lambda>part. True), sd_new_task = None,
     sd_build = (\<lambda>step. None), sd_register = None, sd_delete = None, sd_counts = True, sd_delete_folder = True\<rparr>"

lemma service_willing [simp]: "service willing = Inr ()"
  by (simp add: service_def willing_def privileged_if_def)

lemma no_build_faults: "first_fault (\<lambda>step. None) steps = Inr ()"
  by (induction steps) (auto simp: privileged_if_def)

lemma current_reads_the_task:
  assumes "map_of (tasks_of tf) TASK = Some (checked_task program account day hour)"
    and "program \<noteq> []" and "account \<noteq> []" and "unat hour \<le> 23"
  shows "current willing tf = Some (Inr \<lparr>sc_enabled = True, sc_day = Some (fst (day_named day)),
    sc_at = Some (two_digits hour @ '':00''), sc_account = Some account, sc_command = Some program\<rparr>)"
proof -
  obtain tasks where tf: "tf = Some tasks" using assms(1) by (cases tf) auto
  have "get_task willing tf = Inr (checked_task program account day hour)"
    using assms(1) by (simp add: get_task_def willing_def)
  moreover have "fst (folder willing False tf) = Inr True"
    by (simp add: folder_def get_folder_def willing_def tf)
  moreover have "read_trigger willing (weekly_definition program account (snd (day_named day)) hour)
      = Some (Some (two_digits hour @ '':00''), Some (fst (day_named day)))"
    using assms(4) by (simp add: read_trigger_def willing_def weekly_definition_def read_time_of_hour day_name_day_named
        del: append.simps)
  moreover have "read_account willing (weekly_definition program account (snd (day_named day)) hour) = Some account"
    using assms(3) by (simp add: read_account_def willing_def weekly_definition_def)
  moreover have "read_command willing (weekly_definition program account (snd (day_named day)) hour) = Some program"
    using assms(2) by (simp add: read_command_def willing_def weekly_definition_def)
  ultimately show ?thesis
    by (simp add: current_def checked_task_def) (simp add: willing_def privileged_if_def)
qed

text \<open>
  A registration the scheduler accepts is answered with what was asked for, whether it can be read back
  in full or not at all.
\<close>

theorem schedule_reads_back:
  assumes "sd = willing" and "back = willing \<or> service back = Inl e"
    and "program \<noteq> []" and "account \<noteq> []" and "unat hour \<le> 23"
  shows "fst (enable sd back program account day hour tf) = Some (Inr \<lparr>sc_enabled = True,
    sc_day = Some (fst (day_named day)), sc_at = Some (two_digits hour @ '':00''), sc_account = Some account,
    sc_command = Some program\<rparr>)"
proof -
  obtain tf1 where f: "folder willing True tf = (Inr True, tf1)"
    by (cases tf) (auto simp: folder_def get_folder_def willing_def create_folder_def is_absent_def ABSENT_def privileged_if_def)
  obtain nm bits where d: "day_named day = (nm, bits)" by (cases "day_named day")
  define after where "after = Some (register_task TASK (checked_task program account day hour) (tasks_of tf1))"
  have tf': "map_of (tasks_of after) TASK = Some (checked_task program account day hour)"
    by (simp add: after_def map_of_register)
  have steps: "privileged_if (sd_new_task willing) s = Inr ()" "privileged_if (sd_register willing) s = Inr ()"
    "first_fault (sd_build willing) BUILD_STEPS = Inr ()" for s
    by (simp_all add: willing_def privileged_if_def no_build_faults)
  have e: "fst (enable sd back program account day hour tf) = (case current back after of
      None \<Rightarrow> None | Some (Inr s) \<Rightarrow> Some (Inr s)
    | Some (Inl e) \<Rightarrow> Some (Inr \<lparr>sc_enabled = True, sc_day = Some nm, sc_at = Some (two_digits hour @ '':00''),
        sc_account = Some account, sc_command = Some program\<rparr>))"
    by (simp add: enable_def assms(1) f steps d after_def checked_task_def Let_def)
  show ?thesis
  proof (cases "back = willing")
    case True
    then show ?thesis using current_reads_the_task [OF tf' assms(3-5)] d by (subst e) simp
  next
    case False
    then have "current back after = Some (Inl e)" using assms(2) by (simp add: current_def)
    then show ?thesis using d by (subst e) simp
  qed
qed

theorem schedule_reads_back_witness:
  "fst (enable willing willing ''C:/kam-agent.exe'' ''S-1-5-21-1'' ''monday'' 3 None)
     = Some (Inr \<lparr>sc_enabled = True, sc_day = Some (fst (day_named ''monday'')), sc_at = Some (two_digits 3 @ '':00''),
         sc_account = Some ''S-1-5-21-1'', sc_command = Some ''C:/kam-agent.exe''\<rparr>)"
  by (rule schedule_reads_back) simp_all

section \<open>Reading\<close>

text \<open>A schedule is on exactly when the task is there and switched on, unless the scheduler says it is absent.\<close>

theorem on_means_registered_and_enabled:
  assumes "current sd tf = Some (Inr s)" and "sd_get_folder sd = None" and "sd_get_task sd = None"
  shows "sc_enabled s \<longleftrightarrow> (\<exists>t. map_of (tasks_of tf) TASK = Some t \<and> rt_enabled t)"
  using assms
  by (auto simp: current_def folder_def get_folder_def get_task_def schedule_off_def
      split: sum.splits option.splits if_splits bool.splits)

theorem on_means_registered_and_enabled_witness:
  "sc_enabled schedule_off \<longleftrightarrow> (\<exists>t. map_of (tasks_of None) TASK = Some t \<and> rt_enabled t)"
  by (rule on_means_registered_and_enabled [of willing])
    (simp_all add: current_def folder_def get_folder_def is_absent_def ABSENT_def willing_def service_def privileged_if_def)

text \<open>A start that is cut inside a character ends the reading in a panic.\<close>

theorem odd_start_panics: "read_time (''T0000'' @ [CHR 0xC3, CHR 0xA9]) = None"
  by code_simp

section \<open>Removing\<close>

text \<open>Removing the check leaves every other task, and takes the task away exactly when it answers so.\<close>

theorem disable_removes_its_task_alone:
  "(case fst (disable sd tf) of
      Inr u \<Rightarrow> (sd_get_folder sd = None \<longrightarrow> tasks_of (snd (disable sd tf)) = others (tasks_of tf))
             \<and> (sd_get_folder sd \<noteq> None \<longrightarrow> snd (disable sd tf) = tf)
    | Inl e \<Rightarrow> snd (disable sd tf) = tf)"
proof (cases "service sd")
  case (Inl e)
  then show ?thesis by (simp add: disable_def)
next
  case serv: (Inr u)
  obtain found where f: "folder sd False tf = (found, tf)"
    using folder_no_create [of sd tf] by (cases "folder sd False tf") simp
  show ?thesis
  proof (cases found)
    case (Inl e)
    then show ?thesis by (simp add: disable_def serv f)
  next
    case (Inr b)
    have tidy: "tasks_of (tidy_folder sd tasks) = tasks" for tasks by (auto simp: tidy_folder_def)
    show ?thesis
    proof (cases b)
      case True
      with Inr f show ?thesis
        using folder_found [of sd tf] by (simp add: disable_def serv f tidy split: option.splits)
    next
      case False
      with Inr f have "sd_get_folder sd = None \<Longrightarrow> tf = None"
        by (auto simp: folder_def get_folder_def split: option.splits if_splits)
      with Inr False f show ?thesis by (cases "sd_get_folder sd") (auto simp: disable_def serv f)
    qed
  qed
qed

theorem disable_removes_its_task_alone_witness:
  "tasks_of (snd (disable willing (Some [(TASK, checked_task ''p'' ''a'' ''monday'' 3)]))) = []"
  using disable_removes_its_task_alone [of willing "Some [(TASK, checked_task ''p'' ''a'' ''monday'' 3)]"]
  by (simp add: disable_def folder_def get_folder_def) (simp add: willing_def tidy_folder_def)

text \<open>Where the folder is left behind without the task, turning the check off is an error and not the state asked for.\<close>

theorem disable_without_the_task_fails:
  "fst (disable willing (Some [])) = Inl (Privileged (''could not remove the task: '' @ ce_text ABSENT))"
  by (simp add: disable_def folder_def get_folder_def) (simp add: willing_def)

end
