(* ===== verification/Kam_Defender.thy ===== *)
theory Kam_Defender
  imports Kam_Clock
begin

text \<open>
  What Windows Defender reports about itself: the reader of its classes, \<open>crates/kam-scanner/src/wmi.rs\<close>,
  and the status and the detections read with it, \<open>crates/kam-scanner/src/defender.rs\<close>. What WMI answers
  is an argument: the error of each call that fails, and the objects each query enumerates.
\<close>

section \<open>Reading a class\<close>

datatype wmi_value = WText str | WNumber int | WFlag bool | WEmpty

fun wmi_text :: "wmi_value \<Rightarrow> str option" where
  "wmi_text (WText t) = Some t"
| "wmi_text v = None"

text \<open>\<open>text.parse().ok()\<close> into an \<open>i64\<close>.\<close>

definition parse_number :: "str \<Rightarrow> int option" where
  "parse_number s =
     (case parse_i64 s of Some n \<Rightarrow> if - (2 ^ 63) \<le> n \<and> n < 2 ^ 63 then Some n else None | None \<Rightarrow> None)"

fun wmi_number :: "wmi_value \<Rightarrow> int option" where
  "wmi_number (WNumber n) = Some n"
| "wmi_number (WText t) = parse_number t"
| "wmi_number v = None"

fun wmi_flag :: "wmi_value \<Rightarrow> bool option" where
  "wmi_flag (WFlag b) = Some b"
| "wmi_flag (WNumber n) = Some (n \<noteq> 0)"
| "wmi_flag v = None"

text \<open>A property as COM hands it over, by its tag.\<close>

datatype variant =
    VtNothing | VtText str | VtBool u16 | VtI1 u8 | VtI2 u16 | VtI4 u32 | VtUi1 u8 | VtUi2 u16 | VtUi4 u32
  | VtI8 u64 | VtUi8 u64 | VtOther

fun take_value :: "variant \<Rightarrow> wmi_value" where
  "take_value VtNothing = WEmpty"
| "take_value (VtText t) = WText t"
| "take_value (VtBool b) = WFlag (b \<noteq> 0)"
| "take_value (VtI1 w) = WNumber (sint w)"
| "take_value (VtI2 w) = WNumber (sint w)"
| "take_value (VtI4 w) = WNumber (sint w)"
| "take_value (VtUi1 w) = WNumber (uint w)"
| "take_value (VtUi2 w) = WNumber (uint w)"
| "take_value (VtUi4 w) = WNumber (uint w)"
| "take_value (VtI8 w) = WNumber (sint w)"
| "take_value (VtUi8 w) = WNumber (sint w)"
| "take_value VtOther = WEmpty"

type_synonym wmi_row = "str \<rightharpoonup> wmi_value"
type_synonym wmi_object = "str \<rightharpoonup> variant"

definition read_object :: "str list \<Rightarrow> wmi_object \<Rightarrow> wmi_row" where
  "read_object wanted ob =
     foldl (\<lambda>row nm. case ob nm of None \<Rightarrow> row | Some v \<Rightarrow> row(nm \<mapsto> take_value v)) Map.empty wanted"

text \<open>One answer of the enumeration: an error, no answer in time, its end, or an object that may be missing.\<close>

datatype next_answer = NextFailed str | NextTimedOut | NextNothing | NextObject "wmi_object option"

record wmi =
  wm_com :: "str option"
  wm_locator :: "str option"
  wm_connect :: "str \<Rightarrow> str option"
  wm_blanket :: "str option"
  wm_exec :: "str \<Rightarrow> str option"
  wm_next :: "str \<Rightarrow> next_answer list"

fun read_rows :: "str list \<Rightarrow> str \<Rightarrow> next_answer list \<Rightarrow> kam_error + wmi_row list" where
  "read_rows wanted wql [] = Inr []"
| "read_rows wanted wql (NextFailed e # rest) = Inl (Privileged (''WMI could not read '' @ wql @ '': '' @ e))"
| "read_rows wanted wql (NextTimedOut # rest) =
     Inl (Privileged (''WMI did not answer '' @ wql @ '' within 30 seconds''))"
| "read_rows wanted wql (NextNothing # rest) = Inr []"
| "read_rows wanted wql (NextObject ob # rest) =
     (case read_rows wanted wql rest of
        Inl e \<Rightarrow> Inl e
      | Inr rows \<Rightarrow> Inr ((case ob of None \<Rightarrow> [] | Some x \<Rightarrow> [read_object wanted x]) @ rows))"

definition com_failed :: "str option \<Rightarrow> str \<Rightarrow> kam_error + unit" where
  "com_failed fault said = (case fault of None \<Rightarrow> Inr () | Some e \<Rightarrow> Inl (Privileged (said @ '': '' @ e)))"

definition query :: "wmi \<Rightarrow> str \<Rightarrow> str \<Rightarrow> str list \<Rightarrow> kam_error + wmi_row list" where
  "query wm ns wql wanted =
     (case com_failed (wm_com wm) ''could not initialise COM'' of Inl e \<Rightarrow> Inl e | Inr u \<Rightarrow>
      (case com_failed (wm_locator wm) ''could not create the WMI locator'' of Inl e \<Rightarrow> Inl e | Inr u \<Rightarrow>
      (case com_failed (wm_connect wm ns) (''could not connect to '' @ ns) of Inl e \<Rightarrow> Inl e | Inr u \<Rightarrow>
      (case com_failed (wm_blanket wm) ''could not set the WMI proxy blanket'' of Inl e \<Rightarrow> Inl e | Inr u \<Rightarrow>
      (case com_failed (wm_exec wm wql) (''query failed: '' @ wql) of Inl e \<Rightarrow> Inl e | Inr u \<Rightarrow>
       read_rows wanted wql (wm_next wm wql))))))"

section \<open>The status\<close>

definition NAMESPACE :: str where
  "NAMESPACE = ''ROOT'' @ [CHR 0x5C] @ ''Microsoft'' @ [CHR 0x5C] @ ''Windows'' @ [CHR 0x5C] @ ''Defender''"

record defender_status =
  df_healthy :: "bool option"
  df_antivirus :: "bool option"
  df_realtime :: "bool option"
  df_behaviour :: "bool option"
  df_cloud :: "bool option"
  df_downloads :: "bool option"
  df_tamper :: "bool option"
  df_signature_version :: "str option"
  df_engine_version :: "str option"
  df_signature_age :: "int option"
  df_quick_age :: "int option"
  df_full_age :: "int option"
  df_state :: "int option"

definition show_int :: "int \<Rightarrow> str" where
  "show_int n = (if n < 0 then CHR ''-'' # show_nat (nat (- n)) else show_nat (nat n))"

definition newest_scan :: "defender_status \<Rightarrow> int option" where
  "newest_scan d =
     (case (df_quick_age d, df_full_age d) of
        (Some q, Some f) \<Rightarrow> Some (min q f)
      | (Some q, None) \<Rightarrow> Some q
      | (None, f) \<Rightarrow> f)"

definition defender_concerns :: "defender_status \<Rightarrow> str list" where
  "defender_concerns d =
     (if df_antivirus d = Some False then [''Defender's antivirus is switched off.''] else [])
     @ (if df_realtime d = Some False
        then [''Real-time protection is off, so files are not checked as they are opened.''] else [])
     @ (if df_behaviour d = Some False then [''Behaviour monitoring is off.''] else [])
     @ (if df_cloud d = Some False
        then [''Cloud-delivered protection is off, so new threats are recognised later.''] else [])
     @ (if df_downloads d = Some False
        then [''Download and attachment scanning is off, so files arriving from the internet or in email are not checked as they arrive.''] else [])
     @ (if df_tamper d = Some False
        then [''Tamper protection is off, so other software can change these settings.''] else [])
     @ (case df_signature_age d of
          Some age \<Rightarrow> if 7 \<le> age then [''Definitions are '' @ show_int age @ '' days old.''] else []
        | None \<Rightarrow> [])
     @ (case newest_scan d of
          None \<Rightarrow> [''Defender has no record of ever having scanned.'']
        | Some days \<Rightarrow>
            if 30 \<le> days then [''The last scan of any kind was '' @ show_int days @ '' days ago.''] else [])"

definition unreported :: "defender_status \<Rightarrow> str list" where
  "unreported d =
     map snd (filter (\<lambda>(v, nm). v = None)
       [(df_antivirus d, ''the antivirus engine''), (df_realtime d, ''real-time protection''),
        (df_behaviour d, ''behaviour monitoring''), (df_cloud d, ''cloud-delivered protection''),
        (df_downloads d, ''download and attachment scanning''), (df_tamper d, ''tamper protection'')])
     @ (if df_signature_age d = None then [''how old its definitions are''] else [])"

definition flag_of :: "wmi_row \<Rightarrow> str \<Rightarrow> bool option" where
  "flag_of row key = Option.bind (row key) wmi_flag"

definition number_of :: "wmi_row \<Rightarrow> str \<Rightarrow> int option" where
  "number_of row key = Option.bind (row key) wmi_number"

definition text_in :: "wmi_row \<Rightarrow> str \<Rightarrow> str option" where
  "text_in row key = (case Option.bind (row key) wmi_text of Some t \<Rightarrow> if t = [] then None else Some t | None \<Rightarrow> None)"

definition STATUS_FIELDS :: "str list" where
  "STATUS_FIELDS =
     [''AMServiceEnabled'', ''AntivirusEnabled'', ''RealTimeProtectionEnabled'', ''BehaviorMonitorEnabled'',
      ''IoavProtectionEnabled'', ''IsTamperProtected'', ''AntivirusSignatureVersion'', ''AMEngineVersion'',
      ''AntivirusSignatureAge'', ''QuickScanAge'', ''FullScanAge'', ''ComputerState'', ''DefenderSignaturesOutOfDate'']"

definition sane_age :: "int option \<Rightarrow> int option" where
  "sane_age v = (case v of Some days \<Rightarrow> if 0 \<le> days \<and> days < 36500 then Some days else None | None \<Rightarrow> None)"

definition cloud_level :: "wmi \<Rightarrow> bool option" where
  "cloud_level wm =
     (case query wm NAMESPACE ''SELECT * FROM MSFT_MpPreference'' [''MAPSReporting''] of
        Inr (row # rows) \<Rightarrow> map_option (\<lambda>level. 0 < level) (number_of row ''MAPSReporting'')
      | _ \<Rightarrow> None)"

definition status_of_row :: "bool option \<Rightarrow> wmi_row \<Rightarrow> defender_status" where
  "status_of_row cloud row =
     \<lparr>df_healthy = flag_of row ''AMServiceEnabled'', df_antivirus = flag_of row ''AntivirusEnabled'',
      df_realtime = flag_of row ''RealTimeProtectionEnabled'', df_behaviour = flag_of row ''BehaviorMonitorEnabled'',
      df_cloud = cloud, df_downloads = flag_of row ''IoavProtectionEnabled'',
      df_tamper = flag_of row ''IsTamperProtected'', df_signature_version = text_in row ''AntivirusSignatureVersion'',
      df_engine_version = text_in row ''AMEngineVersion'',
      df_signature_age = sane_age (number_of row ''AntivirusSignatureAge''),
      df_quick_age = sane_age (number_of row ''QuickScanAge''), df_full_age = sane_age (number_of row ''FullScanAge''),
      df_state = number_of row ''ComputerState''\<rparr>"

definition read_status :: "wmi \<Rightarrow> kam_error + defender_status" where
  "read_status wm =
     (case query wm NAMESPACE ''SELECT * FROM MSFT_MpComputerStatus'' STATUS_FIELDS of
        Inl e \<Rightarrow> Inl e
      | Inr [] \<Rightarrow> Inl (Refused ''Defender did not report a status; it may be replaced by another product'')
      | Inr (row # rows) \<Rightarrow> Inr (status_of_row (cloud_level wm) row))"

section \<open>The detections\<close>

record threat =
  th_name :: str
  th_severity :: "int option"
  th_category :: "int option"
  th_action :: "int option"
  th_status :: "int option"
  th_resources :: "str list"
  th_detected_at :: "str option"
  th_status_text :: str
  th_needs_attention :: bool

definition severity_label :: "int option \<Rightarrow> str" where
  "severity_label s =
     (if s = Some 5 then ''severe'' else if s = Some 4 then ''high'' else if s = Some 2 then ''moderate''
      else if s = Some 1 then ''low'' else ''unknown'')"

definition STATUS_LABELS :: "(int \<times> str) list" where
  "STATUS_LABELS =
     [(1, ''found, and no action taken yet''), (2, ''cleaned''), (3, ''quarantined''), (4, ''removed''),
      (5, ''allowed''), (6, ''blocked''), (101, ''cleaning failed, may still be present''),
      (102, ''quarantine failed, may still be present''), (103, ''removal failed, may still be present''),
      (104, ''allowing failed''), (105, ''abandoned, may still be present''),
      (107, ''blocking failed, may still be present'')]"

definition status_label :: "int option \<Rightarrow> str" where
  "status_label s =
     (case s of
        None \<Rightarrow> ''status not reported''
      | Some n \<Rightarrow> (case map_of STATUS_LABELS n of Some l \<Rightarrow> l | None \<Rightarrow> ''status not reported''))"

definition needs_attention :: "int option \<Rightarrow> bool" where
  "needs_attention s \<longleftrightarrow> s \<in> {Some 1, Some 101, Some 102, Some 103, Some 105, Some 107}"

definition DETECTION :: "str list" where
  "DETECTION = [''ThreatID'', ''ThreatStatusID'', ''CleaningActionID'', ''InitialDetectionTime'']"

definition CATALOGUE_FIELDS :: "str list" where
  "CATALOGUE_FIELDS = [''ThreatID'', ''ThreatName'', ''SeverityID'', ''CategoryID'']"

definition threat_catalogue :: "wmi_row list \<Rightarrow> int \<rightharpoonup> wmi_row" where
  "threat_catalogue rows =
     foldl (\<lambda>m row. case number_of row ''ThreatID'' of None \<Rightarrow> m | Some n \<Rightarrow> m(n \<mapsto> row)) Map.empty rows"

definition threat_of :: "bool \<Rightarrow> (int \<rightharpoonup> wmi_row) \<Rightarrow> wmi_row \<Rightarrow> threat" where
  "threat_of names_read cat row =
     (let entry = Option.bind (number_of row ''ThreatID'') cat; status = number_of row ''ThreatStatusID''
      in \<lparr>th_name = (case Option.bind entry (\<lambda>e. text_in e ''ThreatName'') of
                       Some nm \<Rightarrow> nm
                     | None \<Rightarrow> if names_read then ''a detection Defender did not name'' else ''name could not be read''),
          th_severity = Option.bind entry (\<lambda>e. number_of e ''SeverityID''),
          th_category = Option.bind entry (\<lambda>e. number_of e ''CategoryID''),
          th_action = number_of row ''CleaningActionID'', th_status = status, th_resources = [],
          th_detected_at = text_in row ''InitialDetectionTime'', th_status_text = status_label status,
          th_needs_attention = needs_attention status\<rparr>)"

definition threats :: "wmi \<Rightarrow> kam_error + threat list" where
  "threats wm =
     (case query wm NAMESPACE ''SELECT * FROM MSFT_MpThreatDetection'' DETECTION of
        Inl e \<Rightarrow> Inl e
      | Inr detections \<Rightarrow>
        (let named = query wm NAMESPACE ''SELECT * FROM MSFT_MpThreat'' CATALOGUE_FIELDS;
             cat = (case named of Inl e \<Rightarrow> Map.empty | Inr rows \<Rightarrow> threat_catalogue rows);
             names_read = (case named of Inl e \<Rightarrow> False | Inr rows \<Rightarrow> True)
         in Inr (sort_key (\<lambda>t. - unwrap_or 0 (th_severity t)) (map (threat_of names_read cat) detections))))"

section \<open>What silence means\<close>

text \<open>
  Nothing to flag and nothing unreported together mean that every protection was read as on, that the
  definitions are less than a week old, and that some scan ran within the last thirty days.
\<close>

theorem quiet_means_protected:
  "defender_concerns d = [] \<and> unreported d = []
   \<longleftrightarrow> df_antivirus d = Some True \<and> df_realtime d = Some True \<and> df_behaviour d = Some True \<and> df_cloud d = Some True
     \<and> df_downloads d = Some True \<and> df_tamper d = Some True
     \<and> (\<exists>age. df_signature_age d = Some age \<and> age < 7) \<and> (\<exists>days. newest_scan d = Some days \<and> days < 30)"
  by (auto simp: defender_concerns_def unreported_def split: option.splits if_splits)

text \<open>The objects an enumeration hands over before it ends.\<close>

fun handed_over :: "next_answer list \<Rightarrow> wmi_object list" where
  "handed_over (NextObject ob # rest) = (case ob of None \<Rightarrow> [] | Some x \<Rightarrow> [x]) @ handed_over rest"
| "handed_over answers = []"

text \<open>The enumeration ends by saying so, and not by failing.\<close>

fun ends_cleanly :: "next_answer list \<Rightarrow> bool" where
  "ends_cleanly (NextFailed e # rest) = False"
| "ends_cleanly (NextTimedOut # rest) = False"
| "ends_cleanly (NextObject ob # rest) = ends_cleanly rest"
| "ends_cleanly answers = True"

lemma read_rows_exact:
  "read_rows wanted wql answers = Inr rows \<longleftrightarrow>
     ends_cleanly answers \<and> rows = map (read_object wanted) (handed_over answers)"
proof (induction wanted wql answers arbitrary: rows rule: read_rows.induct)
  case (5 wanted wql ob rest)
  then show ?case by (cases "read_rows wanted wql rest") (auto split: option.splits)
qed auto

text \<open>
  Rows come back exactly when every step of the query succeeded to its end, one for each object handed
  over: no failure along the way reads as an empty answer.
\<close>

theorem query_is_complete:
  "query wm ns wql wanted = Inr rows \<longleftrightarrow>
     wm_com wm = None \<and> wm_locator wm = None \<and> wm_connect wm ns = None \<and> wm_blanket wm = None \<and> wm_exec wm wql = None
     \<and> ends_cleanly (wm_next wm wql) \<and> rows = map (read_object wanted) (handed_over (wm_next wm wql))"
  by (auto simp: query_def com_failed_def read_rows_exact split: sum.splits option.splits)

section \<open>The detections that are shown\<close>

text \<open>
  What a detection is said to be and whether it needs a person agree: exactly the detections whose words
  say that it may still be present, or that nothing was done, are marked.
\<close>

theorem attention_matches_the_words:
  "needs_attention s \<longleftrightarrow> contains (status_label s) ''may still be present'' \<or> contains (status_label s) ''no action taken''"
proof (cases "\<exists>n \<in> set (map fst STATUS_LABELS). s = Some n")
  case True
  have "\<forall>n \<in> set (map fst STATUS_LABELS). needs_attention (Some n) =
      (contains (status_label (Some n)) ''may still be present'' \<or> contains (status_label (Some n)) ''no action taken'')"
    by code_simp
  with True show ?thesis by blast
next
  case False
  have "status_label s = ''status not reported''"
  proof (cases s)
    case (Some n)
    with False have "n \<notin> fst ` set STATUS_LABELS" by auto
    then have "map_of STATUS_LABELS n = None" by (simp add: map_of_eq_None_iff)
    with Some show ?thesis by (simp add: status_label_def)
  qed (simp add: status_label_def)
  moreover have "\<not> contains ''status not reported'' ''may still be present''"
    "\<not> contains ''status not reported'' ''no action taken''" by code_simp+
  moreover have "\<not> needs_attention s" using False by (auto simp: needs_attention_def STATUS_LABELS_def)
  ultimately show ?thesis by simp
qed

text \<open>Every row of Defender's history is shown, whether or not its name could be read; only the names depend on the catalogue.\<close>

theorem every_detection_is_shown:
  assumes "query wm NAMESPACE ''SELECT * FROM MSFT_MpThreatDetection'' DETECTION = Inr rows"
  shows "\<exists>ts. threats wm = Inr ts \<and> image_mset th_status (mset ts) = mset (map (\<lambda>r. number_of r ''ThreatStatusID'') rows)
    \<and> (\<forall>t \<in> set ts. th_status_text t = status_label (th_status t) \<and> th_needs_attention t = needs_attention (th_status t))"
proof -
  have one: "th_status (threat_of b cat r) = number_of r ''ThreatStatusID''"
    "th_status_text (threat_of b cat r) = status_label (th_status (threat_of b cat r))"
    "th_needs_attention (threat_of b cat r) = needs_attention (th_status (threat_of b cat r))" for b cat r
    by (simp_all add: threat_of_def Let_def)
  have "image_mset th_status (mset (map (threat_of b cat) rows)) = mset (map (\<lambda>r. number_of r ''ThreatStatusID'') rows)" for b cat
    by (simp add: one multiset.map_comp comp_def)
  then show ?thesis using assms by (auto simp: threats_def Let_def one)
qed

end
