(* ===== verification/Kam_Defender_Scan.thy ===== *)
theory Kam_Defender_Scan
  imports Kam_Defender Kam_Commands
begin

text \<open>
  Asking Windows Defender to scan, \<open>crates/kam-scanner/src/defender_scan.rs\<close>: the command that is
  started, the wait for it, and what its result is worth. What the child answers each time it is polled,
  the clock and the three readings of Defender's history are arguments.
\<close>

section \<open>Data\<close>

definition SCAN_TIMEOUT_MS :: nat where "SCAN_TIMEOUT_MS = 4 * 60 * 60 * 1000"
definition POLL_MS :: nat where "POLL_MS = 250"

datatype scan_kind = QuickScan | FullScan | PathScan str

fun scan_label :: "scan_kind \<Rightarrow> str" where
  "scan_label QuickScan = ''a quick scan''"
| "scan_label FullScan = ''a full scan''"
| "scan_label (PathScan path) = ''a scan of '' @ path"

record scan_outcome =
  so_label :: str
  so_completed :: bool
  so_exit_code :: "int option"
  so_seconds :: nat
  so_found :: "threat list"
  so_caveat :: "str option"

section \<open>The command\<close>

definition mp_cmd_run :: "environment \<Rightarrow> str" where
  "mp_cmd_run env =
     path_join (unwrap_or (slashes ''C:/Program Files'') (env_lookup env ''ProgramFiles'')) (slashes ''Windows Defender/MpCmdRun.exe'')"

definition safe_working_directory :: "environment \<Rightarrow> str" where
  "safe_working_directory env =
     path_join (unwrap_or (slashes ''C:/Windows'') (env_lookup env ''SystemRoot'')) ''System32''"

definition drive_path :: "str \<Rightarrow> bool" where
  "drive_path s \<longleftrightarrow> (case s of a # b # c # rest \<Rightarrow> is_ascii_alphabetic a \<and> b = CHR '':'' \<and> c = CHR 0x5C | _ \<Rightarrow> False)"

definition checked_target :: "file_system \<Rightarrow> str \<Rightarrow> str + str" where
  "checked_target fs path =
     (case canonical fs path of
        Inl e \<Rightarrow> Inl (path @ '' could not be found, so it was not scanned: '' @ io_error_text e)
      | Inr txt \<Rightarrow>
        (let plain_text = unwrap_or txt (strip_prefix (slashes ''//?/'') txt)
         in if drive_path plain_text then Inr plain_text
            else Inl (path @ '' is not a plain drive path, so it was not scanned'')))"

fun scan_arguments :: "scan_kind \<Rightarrow> str option \<Rightarrow> str list" where
  "scan_arguments QuickScan target = [''-Scan'', ''-ScanType'', ''1'']"
| "scan_arguments FullScan target = [''-Scan'', ''-ScanType'', ''2'']"
| "scan_arguments (PathScan path) (Some target) =
     [''-Scan'', ''-ScanType'', ''3'', ''-File'', target, ''-DisableRemediation'']"
| "scan_arguments (PathScan path) None = []"

text \<open>The program that is started: where it is, its arguments and its working directory.\<close>

definition scan_command :: "machine \<Rightarrow> scan_kind \<Rightarrow> kam_error + str \<times> str list \<times> str" where
  "scan_command mc kind =
     (let executable = mp_cmd_run (mc_env mc)
      in if \<not> is_file mc executable
         then Inl (Privileged (executable @ '' is not on this machine, so Defender cannot be asked to scan''))
         else (case kind of
                 PathScan path \<Rightarrow>
                   (case checked_target (mc_fs mc) path of
                      Inl why \<Rightarrow> Inl (Refused why)
                    | Inr target \<Rightarrow> Inr (executable, scan_arguments kind (Some target), safe_working_directory (mc_env mc)))
               | _ \<Rightarrow> Inr (executable, scan_arguments kind None, safe_working_directory (mc_env mc))))"

section \<open>Waiting\<close>

datatype waited = Exited "int option" | StillRunning | WaitFailed str

text \<open>One turn of the loop: what the child answers, whether a stop was asked for, and the time since the start.\<close>

record poll =
  pl_waited :: waited
  pl_cancelled :: bool
  pl_elapsed_ms :: nat

definition STOPPED_CAVEAT :: str where
  "STOPPED_CAVEAT = ''The scan was stopped before it finished, so a clean result would not mean much.''"

definition TIMED_OUT_CAVEAT :: str where
  "TIMED_OUT_CAVEAT = ''The scan was still running after '' @ show_nat (SCAN_TIMEOUT_MS div 1000 div 3600) @ '' hours and was stopped.''"

text \<open>How the wait ended: completed, the exit code, the caveat.\<close>

type_synonym scan_end = "bool \<times> int option \<times> str option"

fun wait_loop :: "nat \<Rightarrow> (nat \<Rightarrow> poll) \<Rightarrow> nat \<Rightarrow> (kam_error + scan_end) option" where
  "wait_loop 0 polls i = None"
| "wait_loop (Suc fuel) polls i =
     (case pl_waited (polls i) of
        Exited code \<Rightarrow> Some (Inr (True, code, None))
      | WaitFailed e \<Rightarrow> Some (Inl (Privileged (''Defender's scanner could not be waited on: '' @ e)))
      | StillRunning \<Rightarrow>
          if pl_cancelled (polls i) then Some (Inr (False, None, Some STOPPED_CAVEAT))
          else if SCAN_TIMEOUT_MS < pl_elapsed_ms (polls i) then Some (Inr (False, None, Some TIMED_OUT_CAVEAT))
          else wait_loop fuel polls (i + 1))"

section \<open>What it came to\<close>

definition threat_key :: "threat \<Rightarrow> str \<times> str option" where
  "threat_key t = (th_name t, th_detected_at t)"

definition new_detections :: "(str \<times> str option) list \<Rightarrow> kam_error + threat list \<Rightarrow> kam_error + threat list" where
  "new_detections known reading =
     (case reading of Inl e \<Rightarrow> Inl e | Inr ts \<Rightarrow> Inr (filter (\<lambda>t. threat_key t \<notin> set known) ts))"

definition exit_caveat :: "scan_kind \<Rightarrow> int option \<Rightarrow> str option" where
  "exit_caveat kind code =
     (case code of
        None \<Rightarrow> None
      | Some n \<Rightarrow>
        if n = 0 then None
        else Some (case kind of
          PathScan path \<Rightarrow> ''Defender finished with code '' @ show_int n @ '', which it uses when it finds something or cannot scan the file. A single-file scan leaves the file where it is and does not always record it, so check it with Windows Security before trusting it.''
        | _ \<Rightarrow> ''Defender finished with code '' @ show_int n @ '', which it uses when it finds something or cannot finish the scan, but nothing new appeared in its detection history. This is not a clean result. Windows Security's Protection history and its own scan results say what happened.''))"

definition unread_after :: "kam_error \<Rightarrow> str" where
  "unread_after e =
     ''Defender's detection history could not be read after the scan ('' @ show_error e @ ''), so this cannot say what it found. Windows Security's Protection history can.''"

definition UNREAD_BEFORE :: str where
  "UNREAD_BEFORE = ''Defender's detection history could not be read before the scan, so this cannot say which detections are new. Windows Security's Protection history lists everything Defender has found.''"

definition get_or_insert :: "str option \<Rightarrow> str \<Rightarrow> str option" where
  "get_or_insert caveat said = (case caveat of None \<Rightarrow> Some said | Some c \<Rightarrow> Some c)"

definition found_after ::
  "kam_error + threat list \<Rightarrow> kam_error + threat list \<Rightarrow> kam_error + threat list \<Rightarrow> str option \<Rightarrow> threat list \<times> str option" where
  "found_after before first second caveat =
     (case before of
        Inl e \<Rightarrow> ([], get_or_insert caveat UNREAD_BEFORE)
      | Inr earlier \<Rightarrow>
        (let known = map threat_key earlier
         in case new_detections known first of
              Inl e \<Rightarrow> ([], get_or_insert caveat (unread_after e))
            | Inr ts \<Rightarrow>
              if ts \<noteq> [] then (ts, caveat)
              else (case new_detections known second of
                      Inr again \<Rightarrow> (again, caveat)
                    | Inl e \<Rightarrow> ([], get_or_insert caveat (unread_after e)))))"

definition acted_caveat :: "scan_kind \<Rightarrow> str" where
  "acted_caveat kind =
     (case kind of
        PathScan path \<Rightarrow> ''Defender was asked to report rather than to act, so anything found is still where it was.''
      | _ \<Rightarrow> ''Defender dealt with these the way Windows Security does, usually by quarantining them. Windows Security's Protection history shows what it did and can restore anything it got wrong.'')"

record scan_world =
  sn_machine :: machine
  sn_spawn :: "str option"
  sn_polls :: "nat \<Rightarrow> poll"
  sn_seconds :: nat
  sn_before :: "kam_error + threat list"
  sn_first :: "kam_error + threat list"
  sn_second :: "kam_error + threat list"

definition scan_result_of :: "scan_world \<Rightarrow> scan_kind \<Rightarrow> scan_end \<Rightarrow> scan_outcome" where
  "scan_result_of sn kind ended =
     (case ended of (completed, code, caveat) \<Rightarrow>
      (case found_after (sn_before sn) (sn_first sn) (sn_second sn) caveat of (found, caveat) \<Rightarrow>
       (let caveat = (if found = [] \<and> caveat = None then exit_caveat kind code else caveat);
            caveat = (if completed \<and> caveat = None \<and> found \<noteq> [] then Some (acted_caveat kind) else caveat)
        in \<lparr>so_label = scan_label kind, so_completed = completed, so_exit_code = code, so_seconds = sn_seconds sn,
            so_found = found, so_caveat = caveat\<rparr>)))"

definition run_scan :: "nat \<Rightarrow> scan_world \<Rightarrow> scan_kind \<Rightarrow> (kam_error + scan_outcome) option" where
  "run_scan fuel sn kind =
     (case scan_command (sn_machine sn) kind of
        Inl e \<Rightarrow> Some (Inl e)
      | Inr command \<Rightarrow>
        (case sn_spawn sn of
           Some e \<Rightarrow> Some (Inl (Privileged (''Defender's scanner could not be started: '' @ e)))
         | None \<Rightarrow>
           (case wait_loop fuel (sn_polls sn) 0 of
              None \<Rightarrow> None
            | Some (Inl e) \<Rightarrow> Some (Inl e)
            | Some (Inr ended) \<Rightarrow> Some (Inr (scan_result_of sn kind ended)))))"

section \<open>The arguments name a file and never a switch\<close>

lemma drive_path_no_switch: "drive_path s \<Longrightarrow> s \<noteq> [] \<and> hd s \<noteq> CHR ''-'' \<and> hd s \<noteq> CHR ''/''"
  by (auto simp: drive_path_def is_ascii_alphabetic_def split: list.splits)

text \<open>
  What is started is Defender's own program, and of everything a caller sends only the target of a path
  scan reaches its arguments: resolved, beginning with a drive, and with remediation switched off.
\<close>

theorem command_is_defenders_own:
  assumes "scan_command mc kind = Inr (program, args, cwd)"
  shows "program = mp_cmd_run (mc_env mc) \<and> cwd = safe_working_directory (mc_env mc)
    \<and> (case kind of
         PathScan path \<Rightarrow> \<exists>real target. canonical (mc_fs mc) path = Inr real \<and> (target = real \<or> real = slashes ''//?/'' @ target)
           \<and> drive_path target \<and> args = [''-Scan'', ''-ScanType'', ''3'', ''-File'', target, ''-DisableRemediation'']
       | QuickScan \<Rightarrow> args = [''-Scan'', ''-ScanType'', ''1'']
       | FullScan \<Rightarrow> args = [''-Scan'', ''-ScanType'', ''2''])"
proof (cases kind)
  case (PathScan path)
  with assms obtain target where t: "checked_target (mc_fs mc) path = Inr target" and
    r: "program = mp_cmd_run (mc_env mc)" "cwd = safe_working_directory (mc_env mc)"
      "args = [''-Scan'', ''-ScanType'', ''3'', ''-File'', target, ''-DisableRemediation'']"
    by (auto simp: scan_command_def Let_def split: if_splits sum.splits)
  obtain real where c: "canonical (mc_fs mc) path = Inr real" and d: "drive_path target"
    and u: "target = unwrap_or real (strip_prefix (slashes ''//?/'') real)"
    using t by (auto simp: checked_target_def Let_def split: sum.splits if_splits)
  have "target = real \<or> real = slashes ''//?/'' @ target"
    using u by (cases "strip_prefix (slashes ''//?/'') real") (auto simp: unwrap_or_def strip_prefix_Some)
  with PathScan r c d show ?thesis by auto
qed (use assms in \<open>auto simp: scan_command_def Let_def split: if_splits\<close>)

definition defender_machine :: machine where
  "defender_machine = \<lparr>mc_env = [],
     mc_fs = \<lparr>nodes = [(key_of (mp_cmd_run []), FileNode [])], fault = (\<lambda>oper path. None),
              canonical = (\<lambda>path. Inr (slashes ''//?/'' @ path))\<rparr>,
     mc_lower = (\<lambda>s. s)\<rparr>"

lemma defender_is_there: "is_file defender_machine (mp_cmd_run [])"
proof -
  have "resolve_node (mc_fs defender_machine) (mp_cmd_run []) = Some (FileNode [])"
    by (simp add: resolve_node_def defender_machine_def look_def numeral_eq_Suc)
  moreover have "mp_cmd_run [] \<noteq> [] \<and> \<not> is_path_separator (last (mp_cmd_run []))" by code_simp
  ultimately show ?thesis by (simp add: is_file_def) (simp add: defender_machine_def)
qed

lemma defender_environment [simp]: "mc_env defender_machine = []"
  by (simp add: defender_machine_def)

theorem command_is_defenders_own_witness:
  "scan_command defender_machine (PathScan (slashes ''C:/x'')) = Inr (mp_cmd_run [],
     [''-Scan'', ''-ScanType'', ''3'', ''-File'', slashes ''C:/x'', ''-DisableRemediation''], safe_working_directory [])
   \<and> (\<exists>target. drive_path target \<and> target = slashes ''C:/x'')"
proof -
  have c: "checked_target (mc_fs defender_machine) (slashes ''C:/x'') = Inr (slashes ''C:/x'')"
    by (simp add: checked_target_def defender_machine_def unwrap_or_def strip_prefix_def drive_path_def slashes_def
        is_ascii_alphabetic_def)
  have s: "scan_command defender_machine (PathScan (slashes ''C:/x'')) = Inr (mp_cmd_run [],
     [''-Scan'', ''-ScanType'', ''3'', ''-File'', slashes ''C:/x'', ''-DisableRemediation''], safe_working_directory [])"
    by (simp add: scan_command_def defender_is_there c)
  show ?thesis using command_is_defenders_own [OF s] s by auto
qed

section \<open>The wait ends\<close>

lemma wait_loop_ends:
  assumes "\<And>j. POLL_MS * j \<le> pl_elapsed_ms (polls j)" and "SCAN_TIMEOUT_MS div POLL_MS + 1 < i + fuel"
    and "0 < fuel"
  shows "\<exists>r. wait_loop fuel polls i = Some r"
  using assms(2,3)
proof (induction fuel arbitrary: i)
  case (Suc fuel)
  show ?case
  proof (cases "pl_waited (polls i) = StillRunning \<and> \<not> pl_cancelled (polls i) \<and> \<not> SCAN_TIMEOUT_MS < pl_elapsed_ms (polls i)")
    case True
    then have "POLL_MS * i \<le> SCAN_TIMEOUT_MS" using assms(1) [of i] by simp
    then have "i \<le> SCAN_TIMEOUT_MS div POLL_MS" by (simp add: POLL_MS_def SCAN_TIMEOUT_MS_def)
    then have "0 < fuel" using Suc.prems by simp
    moreover have "SCAN_TIMEOUT_MS div POLL_MS + 1 < (i + 1) + fuel" using Suc.prems by simp
    ultimately have "\<exists>r. wait_loop fuel polls (i + 1) = Some r" using Suc.IH [of "i + 1"] by blast
    with True show ?thesis by simp
  next
    case False
    then show ?thesis by (auto split: waited.splits)
  qed
qed simp

text \<open>
  As long as each turn of the wait takes at least the pause it sleeps for, the scan has ended after at
  most 57602 turns, whatever the child does.
\<close>

theorem scan_ends:
  assumes "\<And>j. 250 * j \<le> pl_elapsed_ms (sn_polls sn j)"
  shows "\<exists>r. run_scan 57602 sn kind = Some r"
proof -
  have "\<exists>r. wait_loop 57602 (sn_polls sn) 0 = Some r"
    by (rule wait_loop_ends) (use assms in \<open>simp_all add: POLL_MS_def SCAN_TIMEOUT_MS_def\<close>)
  then obtain r where r: "wait_loop 57602 (sn_polls sn) 0 = Some r" ..
  show ?thesis unfolding run_scan_def r by (cases r) (auto split: sum.splits option.splits)
qed

section \<open>A clean result rests on the history\<close>

text \<open>C28: a scan that reports nothing found and nothing to add to that has run to its end, with an exit code that
  is not an error, and the history was read before it and twice after it without showing anything new.
\<close>

theorem clean_result_rests_on_the_history:
  assumes "run_scan fuel sn kind = Some (Inr outcome)" and "so_found outcome = []" and "so_caveat outcome = None"
  shows "so_completed outcome \<and> so_exit_code outcome \<in> {None, Some 0}
    \<and> (\<exists>before first second. sn_before sn = Inr before \<and> sn_first sn = Inr first \<and> sn_second sn = Inr second
        \<and> (\<forall>t \<in> set first \<union> set second. threat_key t \<in> threat_key ` set before))"
proof -
  obtain completed code caveat where w: "wait_loop fuel (sn_polls sn) 0 = Some (Inr (completed, code, caveat))"
    and o: "outcome = scan_result_of sn kind (completed, code, caveat)"
    using assms(1) by (auto simp: run_scan_def split: sum.splits option.splits prod.splits)
  obtain found said where f: "found_after (sn_before sn) (sn_first sn) (sn_second sn) caveat = (found, said)"
    by (cases "found_after (sn_before sn) (sn_first sn) (sn_second sn) caveat")
  have e: "found = []" using assms(2) by (simp add: o scan_result_of_def f Let_def)
  have said: "said = None"
    using assms(3) by (auto simp: o scan_result_of_def f Let_def e split: if_splits)
  then have code: "exit_caveat kind code = None"
    using assms(3) by (simp add: o scan_result_of_def f Let_def e)
  have none: "caveat = None" and h: "\<exists>before first second. sn_before sn = Inr before \<and> sn_first sn = Inr first
      \<and> sn_second sn = Inr second \<and> (\<forall>t \<in> set first \<union> set second. threat_key t \<in> threat_key ` set before)"
    using f e said
    by (auto simp: found_after_def get_or_insert_def new_detections_def Let_def filter_empty_conv
        split: sum.splits option.splits if_splits)
  have "completed"
  proof -
    have "wait_loop n polls i = Some (Inr (done, c, None)) \<Longrightarrow> done" for n polls i "done" c
      by (induction n arbitrary: i) (auto split: waited.splits if_splits)
    then show ?thesis using w none by blast
  qed
  moreover have "code \<in> {None, Some 0}" using code by (auto simp: exit_caveat_def split: option.splits if_splits)
  ultimately show ?thesis using h by (simp add: o scan_result_of_def f Let_def)
qed

definition clean_scan :: scan_world where
  "clean_scan = \<lparr>sn_machine = defender_machine, sn_spawn = None,
     sn_polls = (\<lambda>i. \<lparr>pl_waited = (if i < 2 then StillRunning else Exited (Some 0)), pl_cancelled = False, pl_elapsed_ms = 300 * i\<rparr>),
     sn_seconds = 1, sn_before = Inr [], sn_first = Inr [], sn_second = Inr []\<rparr>"

theorem scan_ends_witness: "\<exists>r. run_scan 57602 clean_scan QuickScan = Some r"
  by (rule scan_ends) (simp add: clean_scan_def)

theorem clean_result_rests_on_the_history_witness:
  "\<exists>outcome. run_scan (Suc (Suc (Suc 0))) clean_scan QuickScan = Some (Inr outcome) \<and> so_completed outcome"
proof -
  have c: "scan_command defender_machine QuickScan = Inr (mp_cmd_run [], [''-Scan'', ''-ScanType'', ''1''], safe_working_directory [])"
    by (simp add: scan_command_def defender_is_there)
  have "wait_loop (Suc (Suc (Suc 0))) (sn_polls clean_scan) 0 = Some (Inr (True, Some 0, None))"
    by (simp add: clean_scan_def SCAN_TIMEOUT_MS_def)
  then have r: "run_scan (Suc (Suc (Suc 0))) clean_scan QuickScan = Some (Inr \<lparr>so_label = ''a quick scan'', so_completed = True,
      so_exit_code = Some 0, so_seconds = 1, so_found = [], so_caveat = None\<rparr>)"
    using c by (simp add: run_scan_def scan_result_of_def found_after_def new_detections_def exit_caveat_def clean_scan_def
        del: wait_loop.simps)
  show ?thesis using clean_result_rests_on_the_history [OF r] r by auto
qed

section \<open>Remediation\<close>

text \<open>Quick and full scans are started without the switch that keeps Defender from acting on what it finds.\<close>

theorem quick_and_full_scans_act:
  "''-DisableRemediation'' \<notin> set (scan_arguments QuickScan t) \<and> ''-DisableRemediation'' \<notin> set (scan_arguments FullScan t)"
  by simp

end
