(* ===== verification/Kam_Remnants.thy ===== *)
theory Kam_Remnants
  imports Kam_Orphans Kam_Shortcuts Kam_Caches Kam_Duplicates
begin

text \<open>
  What an uninstaller leaves behind, \<open>crates/kam-storage/src/remnants.rs\<close>: the fence on the paths a
  caller asks about, what is measured at those that are still there, and the shortcuts that lead into
  them. Nothing is removed here. The files are followed to the places of the store they name, like in the
  survey of the caches.
\<close>

section \<open>Data\<close>

definition REMNANT_FILES :: nat where "REMNANT_FILES = 200000"

record remnant =
  rm_path :: str
  rm_bytes :: nat
  rm_kind :: location_kind
  rm_partial :: bool
  rm_files :: nat
  rm_quarantinable :: bool
  rm_refusal :: "str option"

record leftover_shortcut =
  lo_shortcut :: shortcut
  lo_quarantinable :: bool
  lo_refusal :: "str option"

record remnants =
  rs_name :: str
  rs_locations :: "remnant list"
  rs_shortcuts :: "leftover_shortcut list"
  rs_total_bytes :: nat
  rs_refused :: "str list"

definition remnants_empty :: "remnants \<Rightarrow> bool" where
  "remnants_empty r \<longleftrightarrow> rs_locations r = [] \<and> rs_shortcuts r = []"

section \<open>The fence\<close>

definition canonical_text :: "(str \<Rightarrow> str) \<Rightarrow> str \<Rightarrow> str" where
  "canonical_text lower path = trim_end_matches is_backslash (plain lower path)"

definition allowed_roots :: "machine \<Rightarrow> user_context \<Rightarrow> str list" where
  "allowed_roots mc user =
     filter (\<lambda>rt. rt \<noteq> []) (map (canonical_text (mc_lower mc))
       (List.map_filter (env_var mc) [''ProgramFiles'', ''ProgramFiles(x86)'', ''ProgramData'']
        @ [local_app_data user, roaming_app_data user]))"

definition resolved_roots :: "machine \<Rightarrow> str list \<Rightarrow> str list" where
  "resolved_roots mc roots =
     map (canonical_text (mc_lower mc)) (List.map_filter (resolved_root (mc_lower mc) (mc_fs mc)) roots)"

definition strictly_inside :: "str \<Rightarrow> str \<Rightarrow> bool" where
  "strictly_inside path rt \<longleftrightarrow>
     (case below path rt of None \<Rightarrow> False | Some rest \<Rightarrow> rest \<noteq> [] \<and> list_all (\<lambda>part. part \<noteq> []) rest)"

datatype judged = JInside | JAbsent | JRefused

definition judge_place :: "machine \<Rightarrow> str list \<Rightarrow> str list \<Rightarrow> str \<Rightarrow> judged" where
  "judge_place mc roots resolved_ones path =
     (if has_relative_step (mc_lower mc) path then JRefused
      else (case existing_plain (mc_lower mc) (mc_fs mc) path of
              Some real \<Rightarrow>
                if list_ex (strictly_inside (canonical_text (mc_lower mc) real)) resolved_ones then JInside else JRefused
            | None \<Rightarrow>
                if \<not> list_ex (strictly_inside (canonical_text (mc_lower mc) path)) roots then JRefused
                else (case object_metadata (mc_fs mc) path of
                        Inl e \<Rightarrow> if io_error_kind e = NotFound then JAbsent else JRefused
                      | Inr v \<Rightarrow> JRefused)))"

definition quarantine_answer :: "text_rules \<Rightarrow> machine \<Rightarrow> user_context \<Rightarrow> str \<Rightarrow> bool \<times> str option" where
  "quarantine_answer tr mc user path =
     (case check_quarantinable tr (mc_env mc) (mc_fs mc) path user of
        Inr u \<Rightarrow> (True, None) | Inl why \<Rightarrow> (False, Some why))"

section \<open>Measuring\<close>

function remnant_loop :: "file_system \<Rightarrow> str list list \<Rightarrow> nat \<Rightarrow> nat \<Rightarrow> nat \<times> nat \<times> bool" where
  "remnant_loop fs [] bytes files = (bytes, files, False)"
| "remnant_loop fs (k # stack) bytes files =
     (if REMNANT_FILES \<le> files then (bytes, files, True)
      else (case list_place fs k of
              None \<Rightarrow> remnant_loop fs stack bytes files
            | Some ns \<Rightarrow>
                (let st = foldl (measure_item fs k) (stack, bytes, files) ns
                 in remnant_loop fs (fst st) (fst (snd st)) (snd (snd st)))))"
  by pat_completeness auto
termination
proof (relation "measures [\<lambda>(fs, stack, b, f). left_below fs stack, \<lambda>(fs, stack, b, f). length stack]", goal_cases)
  case (2 fs k stack bytes files)
  then show ?case by (auto simp: left_below_def)
next
  case (3 fs k stack bytes files ns st)
  then show ?case using measure_less [of fs k ns stack bytes files] by (simp add: case_prod_unfold)
qed simp

definition measure_remnant :: "file_system \<Rightarrow> str \<Rightarrow> nat \<times> nat \<times> bool" where
  "measure_remnant fs path = (case place_at fs path of None \<Rightarrow> (0, 0, False) | Some k \<Rightarrow> remnant_loop fs [k] 0 0)"

definition remnant_at :: "text_rules \<Rightarrow> machine \<Rightarrow> user_context \<Rightarrow> location_kind list \<Rightarrow> nat \<Rightarrow> str \<Rightarrow> remnant" where
  "remnant_at tr mc user kinds index path =
     (let (bytes, files, partial) = measure_remnant (mc_fs mc) path;
          (takes, why) = quarantine_answer tr mc user path
      in \<lparr>rm_path = path, rm_bytes = bytes, rm_kind = unwrap_or Install (get_at kinds index), rm_partial = partial,
          rm_files = files, rm_quarantinable = takes, rm_refusal = why\<rparr>)"

definition look_at_one ::
  "text_rules \<Rightarrow> machine \<Rightarrow> user_context \<Rightarrow> str list \<Rightarrow> str list \<Rightarrow> location_kind list \<Rightarrow> remnants \<Rightarrow> nat \<times> str \<Rightarrow> remnants" where
  "look_at_one tr mc user roots resolved_ones kinds r ip =
     (case ip of (index, path) \<Rightarrow>
      (case judge_place mc roots resolved_ones path of
         JRefused \<Rightarrow> r\<lparr>rs_refused := rs_refused r @ [path]\<rparr>
       | JAbsent \<Rightarrow> r
       | JInside \<Rightarrow>
         if \<not> is_dir (mc_fs mc) path then r
         else (let found = remnant_at tr mc user kinds index path
               in r\<lparr>rs_total_bytes := rs_total_bytes r + rm_bytes found, rs_locations := rs_locations r @ [found]\<rparr>)))"

section \<open>The shortcuts\<close>

definition dead_inside :: "machine \<Rightarrow> str list \<Rightarrow> shortcut \<Rightarrow> bool" where
  "dead_inside mc paths sc \<longleftrightarrow>
     (case sc_target sc of
        None \<Rightarrow> False
      | Some t \<Rightarrow> list_ex (\<lambda>path. prefix (canonical_text (mc_lower mc) path @ [CHR 0x5C]) (canonical_text (mc_lower mc) t)) paths)"

text \<open>\<open>dedup_by\<close>: of items next to each other with the same key the first stays.\<close>

fun dedup_on :: "('a \<Rightarrow> 'k) \<Rightarrow> 'a list \<Rightarrow> 'a list" where
  "dedup_on f (x # y # ys) = (if f x = f y then dedup_on f (x # ys) else x # dedup_on f (y # ys))"
| "dedup_on f xs = xs"

definition leftover_shortcuts :: "shell \<Rightarrow> machine \<Rightarrow> str list \<Rightarrow> user_context \<Rightarrow> shortcut list" where
  "leftover_shortcuts sh mc paths user =
     (let canon = (\<lambda>sc. canonical_text (mc_lower mc) (sc_path sc));
          found = pointing_into sh mc paths user;
          known = map canon found;
          dead = filter (\<lambda>sc. sc_broken sc \<and> canon sc \<notin> set known \<and> dead_inside mc paths sc) (shortcuts_all sh mc user)
      in dedup_on canon (sort_key (\<lambda>sc. mc_lower mc (sc_path sc)) (found @ dead)))"

definition remnants_of ::
  "text_rules \<Rightarrow> machine \<Rightarrow> shell \<Rightarrow> str \<Rightarrow> str list \<Rightarrow> location_kind list \<Rightarrow> user_context \<Rightarrow> remnants" where
  "remnants_of tr mc sh nm paths kinds user =
     (let roots = allowed_roots mc user;
          r = foldl (look_at_one tr mc user roots (resolved_roots mc roots) kinds)
                \<lparr>rs_name = nm, rs_locations = [], rs_shortcuts = [], rs_total_bytes = 0, rs_refused = []\<rparr>
                (enumerate 0 paths)
      in r\<lparr>rs_shortcuts := map (\<lambda>sc. let (takes, why) = quarantine_answer tr mc user (sc_path sc)
              in \<lparr>lo_shortcut = sc, lo_quarantinable = takes, lo_refusal = why\<rparr>) (leftover_shortcuts sh mc paths user)\<rparr>)"

section \<open>What is looked at\<close>

text \<open>What the pass over the paths has put down for those behind it.\<close>

definition accounted :: "text_rules \<Rightarrow> machine \<Rightarrow> user_context \<Rightarrow> str list \<Rightarrow> str list \<Rightarrow> location_kind list \<Rightarrow> (nat \<times> str) list \<Rightarrow> remnants \<Rightarrow> bool" where
  "accounted tr mc user roots resolved_ones kinds ips r \<longleftrightarrow>
     rs_refused r = map snd (filter (\<lambda>(i, p). judge_place mc roots resolved_ones p = JRefused) ips)
     \<and> rs_locations r = map (\<lambda>(i, p). remnant_at tr mc user kinds i p)
         (filter (\<lambda>(i, p). judge_place mc roots resolved_ones p = JInside \<and> is_dir (mc_fs mc) p) ips)
     \<and> rs_total_bytes r = sum_list (map rm_bytes (rs_locations r))"

lemma accounted_foldl:
  "accounted tr mc user roots resolved_ones kinds before r \<Longrightarrow>
     accounted tr mc user roots resolved_ones kinds (before @ ips)
       (foldl (look_at_one tr mc user roots resolved_ones kinds) r ips)"
proof (induction ips arbitrary: before r)
  case (Cons ip ips)
  obtain i p where ip: "ip = (i, p)" by (cases ip)
  have "accounted tr mc user roots resolved_ones kinds (before @ [ip]) (look_at_one tr mc user roots resolved_ones kinds r ip)"
    using Cons.prems by (cases "judge_place mc roots resolved_ones p") (auto simp: accounted_def look_at_one_def ip Let_def)
  from Cons.IH [OF this] show ?case by simp
qed simp

lemma remnants_of_account:
  "accounted tr mc user (allowed_roots mc user) (resolved_roots mc (allowed_roots mc user)) kinds (enumerate 0 paths)
     (remnants_of tr mc sh nm paths kinds user)"
proof -
  have "accounted tr mc user (allowed_roots mc user) (resolved_roots mc (allowed_roots mc user)) kinds ([] @ enumerate 0 paths)
     (foldl (look_at_one tr mc user (allowed_roots mc user) (resolved_roots mc (allowed_roots mc user)) kinds)
        \<lparr>rs_name = nm, rs_locations = [], rs_shortcuts = [], rs_total_bytes = 0, rs_refused = []\<rparr> (enumerate 0 paths))"
    by (rule accounted_foldl) (simp add: accounted_def)
  then show ?thesis by (simp add: remnants_of_def Let_def accounted_def)
qed

lemma enumerated: "p \<in> set paths \<longleftrightarrow> (\<exists>i. (i, p) \<in> set (enumerate 0 paths))"
proof -
  have "set paths = snd ` set (enumerate 0 paths)" using map_snd_enumerate [of 0 paths] by (metis set_map)
  then show ?thesis by force
qed

lemma judge_place_inside:
  "judge_place mc roots resolved_ones path = JInside \<Longrightarrow> \<not> has_relative_step (mc_lower mc) path
     \<and> (\<exists>real rt. existing_plain (mc_lower mc) (mc_fs mc) path = Some real \<and> rt \<in> set resolved_ones
         \<and> strictly_inside (canonical_text (mc_lower mc) real) rt)"
  by (auto simp: judge_place_def list_ex_iff split: if_splits option.splits sum.splits)

lemma resolved_roots_of:
  "rt \<in> set (resolved_roots mc roots) \<Longrightarrow>
     \<exists>r place. r \<in> set roots \<and> resolved_root (mc_lower mc) (mc_fs mc) r = Some place \<and> rt = canonical_text (mc_lower mc) place"
  by (auto simp: resolved_roots_def map_filter_def)

lemma remnant_at_path: "rm_path (remnant_at tr mc user kinds i p) = p"
  by (simp add: remnant_at_def case_prod_unfold Let_def)

text \<open>C26: every directory that is measured is one of those asked about, and the place it resolves to is strictly
  inside the place one of the folders applications install into resolves to. What is said about
  quarantine is the answer of the fence quarantine itself applies.
\<close>

theorem measured_remnants_are_inside:
  assumes "l \<in> set (rs_locations (remnants_of tr mc sh nm paths kinds user))"
  shows "rm_path l \<in> set paths \<and> is_dir (mc_fs mc) (rm_path l) \<and> \<not> has_relative_step (mc_lower mc) (rm_path l)
    \<and> (\<exists>real rt place. existing_plain (mc_lower mc) (mc_fs mc) (rm_path l) = Some real
         \<and> rt \<in> set (allowed_roots mc user) \<and> resolved_root (mc_lower mc) (mc_fs mc) rt = Some place
         \<and> strictly_inside (canonical_text (mc_lower mc) real) (canonical_text (mc_lower mc) place))
    \<and> (rm_quarantinable l \<longleftrightarrow> check_quarantinable tr (mc_env mc) (mc_fs mc) (rm_path l) user = Inr ())"
proof -
  obtain i p where p: "(i, p) \<in> set (enumerate 0 paths)"
    "judge_place mc (allowed_roots mc user) (resolved_roots mc (allowed_roots mc user)) p = JInside" "is_dir (mc_fs mc) p"
    and l: "l = remnant_at tr mc user kinds i p"
    using assms remnants_of_account [of tr mc user kinds paths sh nm] by (auto simp: accounted_def)
  have path: "rm_path l = p" by (simp add: l remnant_at_path)
  have "p \<in> set paths" by (rule iffD2 [OF enumerated], rule exI, rule p(1))
  moreover have "rm_quarantinable l \<longleftrightarrow> check_quarantinable tr (mc_env mc) (mc_fs mc) p user = Inr ()"
    by (auto simp: l remnant_at_def case_prod_unfold Let_def quarantine_answer_def split: sum.splits)
  moreover obtain real rt where "\<not> has_relative_step (mc_lower mc) p"
    "existing_plain (mc_lower mc) (mc_fs mc) p = Some real" and rt: "rt \<in> set (resolved_roots mc (allowed_roots mc user))"
    "strictly_inside (canonical_text (mc_lower mc) real) rt"
    using judge_place_inside [OF p(2)] by blast
  ultimately show ?thesis using resolved_roots_of [OF rt(1)] rt(2) p(3) unfolding path by blast
qed

text \<open>
  No path asked about is dropped: one that is neither measured nor reported as refused is not there, or
  it is inside a folder applications install into and not a directory.
\<close>

theorem no_path_is_dropped:
  assumes "p \<in> set paths" and "p \<notin> set (rs_refused (remnants_of tr mc sh nm paths kinds user))"
    and "p \<notin> rm_path ` set (rs_locations (remnants_of tr mc sh nm paths kinds user))"
  shows "(\<exists>e. object_metadata (mc_fs mc) p = Inl e \<and> io_error_kind e = NotFound) \<or> \<not> is_dir (mc_fs mc) p"
proof -
  let ?roots = "allowed_roots mc user"
  let ?judged = "judge_place mc ?roots (resolved_roots mc ?roots) p"
  obtain i where i: "(i, p) \<in> set (enumerate 0 paths)"
    using iffD1 [OF enumerated assms(1)] by auto
  note acc = remnants_of_account [of tr mc user kinds paths sh nm]
  have "?judged \<noteq> JRefused"
  proof
    assume "?judged = JRefused"
    then have "p \<in> snd ` {x \<in> set (enumerate 0 paths). (case x of (i, q) \<Rightarrow> judge_place mc ?roots (resolved_roots mc ?roots) q = JRefused)}"
      using i by force
    with assms(2) acc show False by (simp add: accounted_def)
  qed
  moreover have "\<not> (?judged = JInside \<and> is_dir (mc_fs mc) p)"
  proof
    assume "?judged = JInside \<and> is_dir (mc_fs mc) p"
    then have "remnant_at tr mc user kinds i p \<in> set (rs_locations (remnants_of tr mc sh nm paths kinds user))"
      using acc i by (force simp: accounted_def)
    then show False using assms(3) remnant_at_path [of tr mc user kinds i p] by (metis imageI)
  qed
  ultimately have "?judged = JAbsent \<or> ?judged = JInside \<and> \<not> is_dir (mc_fs mc) p" by (cases ?judged) simp_all
  then show ?thesis
    by (auto simp: judge_place_def existing_plain_def split: if_splits sum.splits)
qed

section \<open>A machine with one leftover\<close>

definition thing_machine :: machine where
  "thing_machine =
     \<lparr>mc_env = [(''ProgramFiles'', slashes ''c:/p'')],
      mc_fs = \<lparr>nodes = [([''c:''], DirNode), ([''c:'', ''p''], DirNode), ([''c:'', ''p'', ''thing''], DirNode),
                       ([''c:'', ''p'', ''thing'', ''a''], FileNode ''12345'')],
               fault = (\<lambda>oper path. None),
               canonical = (\<lambda>path. if path = slashes ''c:/p/gone'' then Inl not_found else Inr (slashes ''//?/'' @ path))\<rparr>,
      mc_lower = ascii_lower\<rparr>"

definition thing_rules :: text_rules where
  "thing_rules = \<lparr>tr_lower = ascii_lower, tr_alphanumeric = (\<lambda>u. True), tr_lower_char = ascii_lower\<rparr>"

definition thing_shell :: shell where
  "thing_shell = \<lparr>sh_enter = False, sh_raw_target = (\<lambda>path. None), sh_app_name = (\<lambda>path. None)\<rparr>"

definition thing_owner :: user_context where
  "thing_owner = \<lparr>uc_sid = None, uc_profile = slashes ''c:/u''\<rparr>"

definition thing_remnants :: remnants where
  "thing_remnants = remnants_of thing_rules thing_machine thing_shell ''Thing''
     [slashes ''c:/p/thing'', slashes ''c:/p/gone'', slashes ''c:/q''] [] thing_owner"

lemma thing_judged:
  "map (judge_place thing_machine (allowed_roots thing_machine thing_owner)
        (resolved_roots thing_machine (allowed_roots thing_machine thing_owner)))
     [slashes ''c:/p/thing'', slashes ''c:/p/gone'', slashes ''c:/q''] = [JInside, JAbsent, JRefused]"
  "is_dir (mc_fs thing_machine) (slashes ''c:/p/thing'')"
  by code_simp+

lemma thing_remnants_are:
  "map rm_path (rs_locations thing_remnants) = [slashes ''c:/p/thing''] \<and> rs_refused thing_remnants = [slashes ''c:/q'']"
  using remnants_of_account [of thing_rules thing_machine thing_owner "[]"
      "[slashes ''c:/p/thing'', slashes ''c:/p/gone'', slashes ''c:/q'']" thing_shell "''Thing''"] thing_judged
  by (simp add: accounted_def thing_remnants_def remnant_at_path)

theorem measured_remnants_are_inside_witness:
  "\<exists>l. l \<in> set (rs_locations thing_remnants) \<and> is_dir (mc_fs thing_machine) (rm_path l)"
proof -
  obtain l where l: "l \<in> set (rs_locations thing_remnants)"
    using thing_remnants_are by (cases "rs_locations thing_remnants") auto
  show ?thesis using measured_remnants_are_inside [OF l [unfolded thing_remnants_def]] l by blast
qed

theorem no_path_is_dropped_witness:
  "(\<exists>e. object_metadata (mc_fs thing_machine) (slashes ''c:/p/gone'') = Inl e \<and> io_error_kind e = NotFound)
   \<or> \<not> is_dir (mc_fs thing_machine) (slashes ''c:/p/gone'')"
proof (rule no_path_is_dropped)
  show "slashes ''c:/p/gone'' \<in> set [slashes ''c:/p/thing'', slashes ''c:/p/gone'', slashes ''c:/q'']" by simp
  show "slashes ''c:/p/gone'' \<notin> set (rs_refused (remnants_of thing_rules thing_machine thing_shell ''Thing''
     [slashes ''c:/p/thing'', slashes ''c:/p/gone'', slashes ''c:/q''] [] thing_owner))"
    using thing_remnants_are by (simp add: thing_remnants_def slashes_def)
  have "set (map rm_path (rs_locations thing_remnants)) = {slashes ''c:/p/thing''}"
    using thing_remnants_are by simp
  then show "slashes ''c:/p/gone'' \<notin> rm_path ` set (rs_locations (remnants_of thing_rules thing_machine thing_shell ''Thing''
     [slashes ''c:/p/thing'', slashes ''c:/p/gone'', slashes ''c:/q''] [] thing_owner))"
    by (simp add: thing_remnants_def [symmetric] del: set_map) (simp add: slashes_def)
qed

text \<open>The shortcuts are those that lead into any of the paths asked about, also into one that was refused.\<close>

definition link_to_q :: shell where
  "link_to_q = \<lparr>sh_enter = True, sh_raw_target = (\<lambda>path. Some (slashes ''c:/q/other.exe'')), sh_app_name = (\<lambda>path. None)\<rparr>"

definition desktop_machine :: machine where
  "desktop_machine = thing_machine\<lparr>mc_fs := (mc_fs thing_machine)\<lparr>nodes :=
     nodes (mc_fs thing_machine) @ [([''c:'', ''u''], DirNode), ([''c:'', ''u'', ''desktop''], DirNode),
       ([''c:'', ''u'', ''desktop'', ''other.lnk''], FileNode [])]\<rparr>\<rparr>"

theorem refused_path_lists_shortcuts:
  "judge_place desktop_machine (allowed_roots desktop_machine thing_owner)
     (resolved_roots desktop_machine (allowed_roots desktop_machine thing_owner)) (slashes ''c:/q'') = JRefused
   \<and> map sc_path (leftover_shortcuts link_to_q desktop_machine [slashes ''c:/q''] thing_owner)
       = [slashes ''c:/u/Desktop/other.lnk'']"
  by code_simp

end
