(* ===== verification/Kam_Ours.thy ===== *)
theory Kam_Ours
  imports Kam_Commands
begin

text \<open>Recognising this program's own files, \<open>crates/kam-core/src/ourselves.rs\<close>.\<close>

definition COMPONENTS :: "str list" where "COMPONENTS = [''kam-agent.exe'', ''kam-shell.exe'']"

definition same_place :: "(str \<Rightarrow> str) \<Rightarrow> str \<Rightarrow> str \<Rightarrow> bool" where
  "same_place lower left right \<longleftrightarrow>
     (let plain_place = (\<lambda>path. trim_end_matches is_backslash (slashes (lower path))) in plain_place left = plain_place right)"

definition ours_within :: "(str \<Rightarrow> str) \<Rightarrow> str \<Rightarrow> str \<Rightarrow> bool" where
  "ours_within lower directory path \<longleftrightarrow>
     (case file_name path of
        None \<Rightarrow> False
      | Some nm \<Rightarrow>
        if lower nm \<notin> set COMPONENTS then False
        else (case path_parent path of None \<Rightarrow> False | Some up \<Rightarrow> same_place lower up directory))"

definition is_our_file :: "(str \<Rightarrow> str) \<Rightarrow> str option \<Rightarrow> str \<Rightarrow> bool" where
  "is_our_file lower our_directory path =
     (case our_directory of None \<Rightarrow> False | Some directory \<Rightarrow> ours_within lower directory path)"

text \<open>
  A file is this program's own only by both its name and its folder: whatever else is put into the folder, or carries
  one of the names elsewhere, is not.
\<close>

theorem ours_needs_name_and_folder:
  "is_our_file lower our_directory path \<longleftrightarrow>
     (\<exists>directory nm up. our_directory = Some directory \<and> file_name path = Some nm
        \<and> lower nm \<in> {''kam-agent.exe'', ''kam-shell.exe''} \<and> path_parent path = Some up \<and> same_place lower up directory)"
  by (auto simp: is_our_file_def ours_within_def COMPONENTS_def split: option.splits)

end
