(* ===== verification/Kam_Check.thy ===== *)
theory Kam_Check
  imports Kam_Defender Kam_Firewall Kam_Baseline Kam_Downloads Kam_Ours
begin

text \<open>
  The weekly check, \<open>crates/kam-agent/src/check.rs\<close>, over the components it asks, with the grouping of startup
  entries by program (\<open>by_executable\<close> of \<open>crates/kam-scanner/src/persistence.rs\<close>) and the record the agent makes of what it does
  (\<open>record\<close> of \<open>crates/kam-agent/src/server.rs\<close>). The share of a drive that is free is compared exactly, which
  the floating-point comparison agrees with below 2^53 bytes.
\<close>

section \<open>Recording\<close>

text \<open>The clock of the database for its next row, and whether it refuses to write one.\<close>

record audit_sink =
  ax_stamp :: "nat \<Rightarrow> str"
  ax_refuses :: "db \<Rightarrow> audit_entry \<Rightarrow> bool"

definition server_record :: "audit_sink \<Rightarrow> audit_entry \<Rightarrow> db \<Rightarrow> db" where
  "server_record ax e d = (if ax_refuses ax d e then d else record_audit d (ax_stamp ax (length (audit d))) e)"

section \<open>Entries by program\<close>

definition entry_key :: "(str \<Rightarrow> str) \<Rightarrow> start_entry \<Rightarrow> str option" where
  "entry_key lower e = map_option (\<lambda>t. slashes (lower t)) (entry_target e)"

text \<open>
  An ordered map from paths, which are equal when their components are: doubled separators and inner \<open>.\<close> do not
  count. A component begins with its kind, in the order the kinds compare in: a drive or a share, the root, \<open>.\<close>,
  \<open>..\<close> and a name. The spelling that came first stays the key.
\<close>

definition path_part :: "str \<Rightarrow> str" where
  "path_part part = (if part = ''.'' then ''2'' else if part = ''..'' then ''3'' else CHR ''4'' # part)"

definition path_order :: "str \<Rightarrow> str list" where
  "path_order path =
     (case split_on is_backslash path of
        [] \<Rightarrow> []
      | first # rest \<Rightarrow>
          (if first = [] then (case rest of [] # _ # _ \<Rightarrow> [''0''] | _ \<Rightarrow> [''1''])
           else if last first = CHR '':'' then (CHR ''0'' # first) # (if rest = [] then [] else [''1''])
           else [path_part first])
          @ map path_part (filter (\<lambda>part. part \<noteq> [] \<and> part \<noteq> ''.'') rest))"

fun first_spellings :: "str list \<Rightarrow> str list" where
  "first_spellings [] = []"
| "first_spellings (k # ks) = k # filter (\<lambda>j. path_order j \<noteq> path_order k) (first_spellings ks)"

definition by_executable :: "(str \<Rightarrow> str) \<Rightarrow> start_entry list \<Rightarrow> (str \<times> start_entry list) list" where
  "by_executable lower es =
     map (\<lambda>k. (k, filter (\<lambda>e. map_option path_order (entry_key lower e) = Some (path_order k)) es))
       (sort_key path_order (first_spellings (List.map_filter (entry_key lower) es)))"

section \<open>The check\<close>

record finding =
  fi_summary :: str
  fi_serious :: bool

definition note_of :: "str \<Rightarrow> finding" where "note_of s = \<lparr>fi_summary = s, fi_serious = False\<rparr>"
definition serious_of :: "str \<Rightarrow> finding" where "serious_of s = \<lparr>fi_summary = s, fi_serious = True\<rparr>"

definition STALE_SIGNATURE_DAYS :: int where "STALE_SIGNATURE_DAYS = 7"

definition check_defender :: "wmi \<Rightarrow> finding list" where
  "check_defender wm =
     (case read_status wm of
        Inr status \<Rightarrow>
          map serious_of (defender_concerns status)
          @ (case df_signature_age status of
               Some age \<Rightarrow> if STALE_SIGNATURE_DAYS < age
                           then [serious_of (''Defender's definitions are '' @ show_int age @ '' days old'')] else []
             | None \<Rightarrow> [])
      | Inl e \<Rightarrow> [note_of (''Defender's state could not be read: '' @ show_error e)])"

definition check_firewall :: "kam_error + firewall_report \<Rightarrow> finding list" where
  "check_firewall answer =
     (case answer of
        Inr report \<Rightarrow> map serious_of (firewall_report.concerns report) @ map note_of (unread report)
      | Inl e \<Rightarrow> [note_of (''the firewall's state could not be read: '' @ show_error e)])"

text \<open>\<open>{:.0}\<close> of the percentage that is taken, to the nearest whole number and halves to the even one.\<close>

definition percent_full :: "u64 \<Rightarrow> u64 \<Rightarrow> nat" where
  "percent_full capacity free =
     (let used = 100 * (unat capacity - unat free); q = used div unat capacity; r = used mod unat capacity
      in if 2 * r < unat capacity then q
         else if unat capacity < 2 * r then q + 1
         else if even q then q else q + 1)"

definition is_low :: "drive_volume \<Rightarrow> bool" where
  "is_low v \<longleftrightarrow> vo_total_bytes v \<noteq> 0 \<and> 10 * unat (vo_free_bytes v) < unat (vo_total_bytes v)"

definition check_space :: "kam_error + drive_volume list \<Rightarrow> finding list" where
  "check_space answer =
     (case answer of
        Inl e \<Rightarrow> [note_of ''the drives could not be listed'']
      | Inr volumes \<Rightarrow>
          map (\<lambda>v. note_of (vo_root v @ '' is '' @ show_nat (percent_full (vo_total_bytes v) (vo_free_bytes v)) @ ''% full''))
            (filter is_low volumes))"

record check_system =
  ck_wmi :: wmi
  ck_firewall :: firewall
  ck_indirect :: "str \<Rightarrow> str option"
  ck_survey :: survey_system
  ck_signature :: "str \<Rightarrow> signature"
  ck_directory :: "str option"
  ck_drives :: drives

definition ck_lower :: "check_system \<Rightarrow> str \<Rightarrow> str" where "ck_lower ck = mc_lower (sy_machine (ck_survey ck))"

definition unsigned_groups :: "check_system \<Rightarrow> start_entry list \<Rightarrow> (str \<times> start_entry list) list" where
  "unsigned_groups ck es = filter (\<lambda>(exe, found). ck_signature ck exe = Unsigned) (by_executable (ck_lower ck) es)"

definition group_name :: "str \<times> start_entry list \<Rightarrow> str" where
  "group_name g = (case snd g of e # rest \<Rightarrow> se_name e | [] \<Rightarrow> fst g)"

definition check_startup :: "check_system \<Rightarrow> user_context \<Rightarrow> finding list" where
  "check_startup ck user =
     (let sv = survey_for (ck_survey ck) [user];
          (mine, others) = partition (\<lambda>(exe, found). is_our_file (ck_lower ck) (ck_directory ck) exe)
            (unsigned_groups ck (sv_entries sv));
          names = sort_key (\<lambda>n. n) (map group_name others)
      in (if names = [] then []
          else [note_of (show_nat (length names) @ '' startup '' @ (if length names = 1 then ''entry'' else ''entries'')
                  @ '' carry no signature: '' @ join_with '', '' names)])
         @ (if mine = [] then [] else [note_of ''this program starts itself too, and it is not signed either''])
         @ map (\<lambda>u. note_of (''part of the startup survey could not be read: '' @ u_what u)) (take 1 (sv_unreadable sv)))"

text \<open>A panic of the listing of drives ends the check.\<close>

definition run_check :: "check_system \<Rightarrow> user_context \<Rightarrow> finding list option" where
  "run_check ck user =
     map_option (\<lambda>volumes. sort_key (\<lambda>f. \<not> fi_serious f)
         (check_defender (ck_wmi ck)
          @ check_firewall (Kam_Firewall.survey (ck_lower ck) (ck_indirect ck) (ck_firewall ck))
          @ check_startup ck user @ check_space volumes))
       (list_volumes (ck_drives ck))"

definition finding_entry :: "finding \<Rightarrow> audit_entry" where
  "finding_entry f =
     \<lparr>e_module = ''check'', e_action = ''finding'', e_effect = (if fi_serious f then EffectRefused else Observed),
      e_detail = fi_summary f, e_undo_token = None\<rparr>"

definition summary_entry :: "finding list \<Rightarrow> audit_entry" where
  "summary_entry fs =
     (let found = length fs; bad = length (filter fi_serious fs)
      in \<lparr>e_module = ''check'', e_action = ''weekly'', e_effect = Observed,
          e_detail = (if found = 0 then ''checked; nothing to report''
            else if bad = 0 then ''checked; '' @ show_nat found @ '' things worth a look''
            else ''checked; '' @ show_nat found @ '' things worth a look, '' @ show_nat bad @ '' of them serious''),
          e_undo_token = None\<rparr>)"

definition run_and_record :: "audit_sink \<Rightarrow> check_system \<Rightarrow> user_context \<Rightarrow> db \<Rightarrow> finding list option \<times> db" where
  "run_and_record ax ck user d =
     (case run_check ck user of
        None \<Rightarrow> (None, d)
      | Some findings \<Rightarrow>
          (Some findings,
           server_record ax (summary_entry findings) (foldl (\<lambda>d f. server_record ax (finding_entry f) d) d findings)))"

section \<open>What the grouping keeps\<close>

lemma first_spellings_keys: "path_order ` set (first_spellings ks) = path_order ` set ks"
proof (induction ks)
  case (Cons k ks)
  have "path_order ` set (first_spellings (k # ks))
      = insert (path_order k) (path_order ` {j \<in> set (first_spellings ks). path_order j \<noteq> path_order k})" by simp
  also have "\<dots> = insert (path_order k) (path_order ` set (first_spellings ks))" by auto
  finally show ?case by (simp add: Cons.IH)
qed simp

lemma first_spellings_distinct: "distinct (map path_order (first_spellings ks))"
  by (induction ks) (auto simp: distinct_map inj_on_def)

lemma grouped_once:
  assumes "distinct (map f ks)"
  shows "mset (concat (map (\<lambda>k. filter (\<lambda>e. g e = Some (f k)) es) ks)) = mset (filter (\<lambda>e. g e \<in> Some ` f ` set ks) es)"
  using assms
proof (induction ks)
  case (Cons k ks)
  have apart: "f k \<notin> f ` set ks" using Cons.prems by simp
  have "mset (filter (\<lambda>e. g e = Some (f k)) es) + mset (filter (\<lambda>e. g e \<in> Some ` f ` set ks) es)
      = mset (filter (\<lambda>e. g e \<in> Some ` f ` set (k # ks)) es)"
    using apart by (induction es) auto
  moreover have "distinct (map f ks)" using Cons.prems by simp
  ultimately show ?case by (simp add: Cons.IH)
qed simp

text \<open>
  Grouping by program: every entry with a program stands in exactly one group, the groups are in the order of their
  paths with no path twice, and a group holds the entries of its own path alone.
\<close>

theorem groups_hold_every_program:
  "mset (concat (map snd (by_executable lower es))) = mset (filter (\<lambda>e. entry_target e \<noteq> None) es)
   \<and> sorted (map (\<lambda>g. path_order (fst g)) (by_executable lower es))
   \<and> distinct (map (\<lambda>g. path_order (fst g)) (by_executable lower es))
   \<and> map (\<lambda>g. map (\<lambda>e. map_option path_order (entry_key lower e)) (snd g)) (by_executable lower es)
     = map (\<lambda>g. replicate (length (snd g)) (Some (path_order (fst g)))) (by_executable lower es)"
proof (intro conjI)
  let ?all = "List.map_filter (entry_key lower) es"
  let ?keys = "sort_key path_order (first_spellings ?all)"
  have "mset (map path_order ?keys) = mset (map path_order (first_spellings ?all))" by simp
  then have once: "distinct (map path_order ?keys)" using first_spellings_distinct mset_eq_imp_distinct_iff by blast
  have keys: "path_order ` set ?keys = path_order ` set ?all" by (simp add: first_spellings_keys)
  have has: "(map_option path_order (entry_key lower e) \<in> Some ` path_order ` set ?keys) = (entry_target e \<noteq> None)"
    if "e \<in> set es" for e
  proof (cases "entry_target e")
    case (Some t)
    then have "entry_key lower e = Some (slashes (lower t))" by (simp add: entry_key_def)
    moreover from this have key: "slashes (lower t) \<in> set ?all" using that by (auto simp: set_map_filter intro: rev_image_eqI)
    from key have "path_order (slashes (lower t)) \<in> path_order ` set ?keys" unfolding keys by (rule imageI)
    ultimately show ?thesis using Some by (metis imageI option.distinct(1) option.map(2))
  qed (simp add: entry_key_def)
  show "mset (concat (map snd (by_executable lower es))) = mset (filter (\<lambda>e. entry_target e \<noteq> None) es)"
    using grouped_once [OF once, of "\<lambda>e. map_option path_order (entry_key lower e)" es] filter_cong [OF refl has, of es]
    by (simp only: by_executable_def map_map comp_def snd_conv)
  show "distinct (map (\<lambda>g. path_order (fst g)) (by_executable lower es))" using once by (simp add: by_executable_def comp_def)
  show "sorted (map (\<lambda>g. path_order (fst g)) (by_executable lower es))" by (simp add: by_executable_def comp_def)
  show "map (\<lambda>g. map (\<lambda>e. map_option path_order (entry_key lower e)) (snd g)) (by_executable lower es)
     = map (\<lambda>g. replicate (length (snd g)) (Some (path_order (fst g)))) (by_executable lower es)"
    by (auto simp: by_executable_def intro!: replicate_eqI [symmetric, THEN sym])
qed

section \<open>What a check says\<close>

lemma sort_key_empty: "sort_key f xs = [] \<longleftrightarrow> xs = []"
  by (metis length_0_conv length_sort)

lemma parted_empty: "filter (\<lambda>x. \<not> P x) xs = [] \<and> filter P xs = [] \<longleftrightarrow> xs = []"
  by (cases xs) auto

lemma no_startup_finding:
  "check_startup ck user = [] \<longleftrightarrow>
     unsigned_groups ck (sv_entries (survey_for (ck_survey ck) [user])) = [] \<and> sv_unreadable (survey_for (ck_survey ck) [user]) = []"
proof -
  have none: "check_startup ck user = [] \<longleftrightarrow>
    (case partition (\<lambda>(exe, found). is_our_file (ck_lower ck) (ck_directory ck) exe)
        (unsigned_groups ck (sv_entries (survey_for (ck_survey ck) [user]))) of (mine, others) \<Rightarrow> others = [] \<and> mine = [])
    \<and> sv_unreadable (survey_for (ck_survey ck) [user]) = []"
    by (simp add: check_startup_def Let_def sort_key_empty split: prod.split)
  show ?thesis
    using none parted_empty [of "\<lambda>(exe, found). is_our_file (ck_lower ck) (ck_directory ck) exe"
        "unsigned_groups ck (sv_entries (survey_for (ck_survey ck) [user]))"]
    by (simp only: partition_filter_conv comp_def prod.case)
qed

lemma no_defender_finding:
  "check_defender wm = [] \<longleftrightarrow> (case read_status wm of Inl _ \<Rightarrow> False | Inr status \<Rightarrow> defender_concerns status = [])"
  by (cases "read_status wm")
    (auto simp: check_defender_def defender_concerns_def STALE_SIGNATURE_DAYS_def split: option.splits if_splits)

text \<open>C30: \<open>checked; nothing to report\<close> is said exactly when Defender answered without a concern, the firewall without a concern
  or a gap, no program that starts itself is unsigned, the survey of startup left nothing unread and the drives were
  listed with none of them low on space.
\<close>

theorem nothing_to_report_exactly:
  "run_check ck user = Some [] \<longleftrightarrow>
     (\<exists>status report volumes. read_status (ck_wmi ck) = Inr status \<and> defender_concerns status = []
       \<and> Kam_Firewall.survey (ck_lower ck) (ck_indirect ck) (ck_firewall ck) = Inr report
       \<and> firewall_report.concerns report = [] \<and> unread report = []
       \<and> unsigned_groups ck (sv_entries (survey_for (ck_survey ck) [user])) = []
       \<and> sv_unreadable (survey_for (ck_survey ck) [user]) = []
       \<and> list_volumes (ck_drives ck) = Some (Inr volumes) \<and> filter is_low volumes = [])"
proof -
  show ?thesis
    by (cases "Kam_Firewall.survey (ck_lower ck) (ck_indirect ck) (ck_firewall ck)"; cases "list_volumes (ck_drives ck)")
      (auto simp: run_check_def sort_key_empty no_startup_finding no_defender_finding check_firewall_def check_space_def
        split: sum.splits)
qed

text \<open>
  What should be corrected comes first: the findings begin with Defender's concerns and the firewall's, each in the
  order it was reported, and everything behind them is a note.
\<close>

theorem serious_findings_lead:
  "map_option (filter fi_serious) (run_check ck user)
     = map_option (\<lambda>_. filter fi_serious (check_defender (ck_wmi ck))
         @ filter fi_serious (check_firewall (Kam_Firewall.survey (ck_lower ck) (ck_indirect ck) (ck_firewall ck))))
       (list_volumes (ck_drives ck))
   \<and> map_option (\<lambda>fs. takeWhile fi_serious fs = filter fi_serious fs) (run_check ck user) \<noteq> Some False"
proof
  have quiet: "filter fi_serious (check_startup ck user) = []" by (simp add: check_startup_def Let_def note_of_def filter_empty_conv case_prod_beta)
  have space: "filter fi_serious (check_space answer) = []" for answer
    by (cases answer) (simp_all add: check_space_def note_of_def filter_empty_conv)
  have stable: "filter fi_serious (sort_key (\<lambda>f. \<not> fi_serious f) xs) = filter fi_serious xs" for xs
    using sort_key_stable [of "\<lambda>f. \<not> fi_serious f" False xs] by simp
  show "map_option (filter fi_serious) (run_check ck user)
     = map_option (\<lambda>_. filter fi_serious (check_defender (ck_wmi ck))
         @ filter fi_serious (check_firewall (Kam_Firewall.survey (ck_lower ck) (ck_indirect ck) (ck_firewall ck))))
       (list_volumes (ck_drives ck))"
    by (cases "list_volumes (ck_drives ck)") (simp_all add: run_check_def stable quiet space)
  have lead: "takeWhile fi_serious fs = filter fi_serious fs" if "sorted (map (\<lambda>f. \<not> fi_serious f) fs)" for fs
    using that by (induction fs) (auto simp: filter_empty_conv)
  show "map_option (\<lambda>fs. takeWhile fi_serious fs = filter fi_serious fs) (run_check ck user) \<noteq> Some False"
    by (cases "list_volumes (ck_drives ck)") (simp_all add: run_check_def lead)
qed

lemma server_record_audit:
  "audit (server_record (ax\<lparr>ax_refuses := \<lambda>_ _. False\<rparr>) e d)
     = audit d @ [\<lparr>a_id = int (length (audit d)) + 1, a_at = ax_stamp ax (length (audit d)), a_module = e_module e,
        a_action = e_action e, a_effect = effect_as_str (e_effect e), a_detail = one_line (e_detail e),
        a_undo_token = e_undo_token e\<rparr>]"
  by (simp add: server_record_def record_audit_def)

lemma recorded_findings:
  "map (\<lambda>r. (a_action r, a_detail r)) (audit (foldl (\<lambda>d f. server_record (ax\<lparr>ax_refuses := \<lambda>_ _. False\<rparr>) (finding_entry f) d) d fs))
     = map (\<lambda>r. (a_action r, a_detail r)) (audit d) @ map (\<lambda>f. (''finding'', one_line (fi_summary f))) fs"
  by (induction fs arbitrary: d) (simp_all add: server_record_audit finding_entry_def)

text \<open>
  A check leaves its record: one row for each finding in their order, and behind them the row of the check itself,
  which is there when nothing was found too.
\<close>

theorem every_check_leaves_its_row:
  "map (\<lambda>r. (a_action r, a_detail r)) (audit (snd (run_and_record (ax\<lparr>ax_refuses := \<lambda>_ _. False\<rparr>) ck user d)))
     = map (\<lambda>r. (a_action r, a_detail r)) (audit d)
       @ (case run_check ck user of
            None \<Rightarrow> []
          | Some fs \<Rightarrow> map (\<lambda>f. (''finding'', one_line (fi_summary f))) fs
              @ [(''weekly'', one_line (e_detail (summary_entry fs)))])"
  by (cases "run_check ck user") (simp_all add: run_and_record_def server_record_audit recorded_findings summary_entry_def Let_def)

text \<open>
  Definitions older than a week are reported twice, in two wordings, and a status that leaves every protection out is
  not mentioned at all.
\<close>

lemma old_definitions_are_reported_twice:
  assumes "read_status wm = Inr status" and "df_signature_age status = Some age" and "7 < age"
  shows "serious_of (''Definitions are '' @ show_int age @ '' days old.'') \<in> set (check_defender wm)
    \<and> serious_of (''Defender's definitions are '' @ show_int age @ '' days old'') \<in> set (check_defender wm)"
  using assms by (simp add: check_defender_def defender_concerns_def STALE_SIGNATURE_DAYS_def)

lemma silence_is_no_finding:
  assumes "read_status wm = Inr status" and "df_antivirus status = None" and "df_realtime status = None"
    and "df_behaviour status = None" and "df_cloud status = None" and "df_downloads status = None" and "df_tamper status = None"
    and "df_signature_age status = None" and "newest_scan status = Some 0"
  shows "check_defender wm = [] \<and> length (unreported status) = 7"
  using assms by (simp add: check_defender_def defender_concerns_def unreported_def)

end
