(* ===== verification/Kam_Hardening.thy ===== *)
theory Kam_Hardening
  imports Kam_Registry Kam_Tasks Kam_Steam
begin

text \<open>
  The protections Windows has and leaves off, \<open>crates/kam-scanner/src/hardening.rs\<close>: reading the rules, the folder
  guard and the switches from the registry, and turning one of them on or off with a cmdlet of Defender. The keys
  of the registry are as \<open>Key\<close> reads them (its reader is \<open>Kam_Registry\<close>); what the cmdlet does to them and answers
  is a parameter.
\<close>

section \<open>Keys\<close>

record key_view =
  kv_names :: "str list"
  kv_dword :: "str \<Rightarrow> nat option"
  kv_string :: "str \<Rightarrow> str option"

text \<open>The keys under \<open>HKEY_LOCAL_MACHINE\<close> that open.\<close>

type_synonym machine_keys = "str \<Rightarrow> key_view option"

definition LOCAL_ASR :: str where
  "LOCAL_ASR = slashes ''SOFTWARE/Microsoft/Windows Defender/Windows Defender Exploit Guard/ASR/Rules''"
definition POLICY_ASR :: str where
  "POLICY_ASR = slashes ''SOFTWARE/Policies/Microsoft/Windows Defender/Windows Defender Exploit Guard/ASR/Rules''"
definition LOCAL_CFA :: str where
  "LOCAL_CFA = slashes ''SOFTWARE/Microsoft/Windows Defender/Windows Defender Exploit Guard/Controlled Folder Access''"
definition POLICY_CFA :: str where
  "POLICY_CFA = slashes ''SOFTWARE/Policies/Microsoft/Windows Defender/Windows Defender Exploit Guard/Controlled Folder Access''"

section \<open>Rules\<close>

datatype asr_mode = AsrOff | AsrBlock | AsrAudit | AsrWarn | AsrUnknown nat

definition mode_parse :: "nat \<Rightarrow> asr_mode" where
  "mode_parse n =
     (if n = 0 then AsrOff else if n = 1 then AsrBlock else if n = 2 then AsrAudit else if n = 6 then AsrWarn
      else AsrUnknown n)"

fun mode_label :: "asr_mode \<Rightarrow> str" where
  "mode_label AsrOff = ''off''"
| "mode_label AsrBlock = ''blocking''"
| "mode_label AsrAudit = ''auditing only''"
| "mode_label AsrWarn = ''warning''"
| "mode_label (AsrUnknown n) = ''set to an unrecognised value ('' @ show_nat n @ '')''"

definition mode_protecting :: "asr_mode \<Rightarrow> bool" where
  "mode_protecting md \<longleftrightarrow> md = AsrBlock \<or> md = AsrWarn"

record asr_rule =
  ru_id :: str
  ru_name :: str
  ru_explains :: str
  ru_mode :: asr_mode
  ru_recommended :: bool

definition KNOWN :: "(str \<times> str \<times> str \<times> bool) list" where
  "KNOWN =
     [(''01443614-cd74-433a-b99e-2ecdc07bfc25'',
       ''Block executables that are new, rare, or untrusted'',
       ''Stops a program running unless it is old enough, common enough, or on a trusted list. A freshly built dropper downloaded ten minutes ago is none of those, which is exactly what makes this the single most useful rule here.'', True),
      (''d1e49aac-8f56-4280-b9ba-993a6d77406c'',
       ''Block programs started by PsExec and WMI'',
       ''Two administration tools that ordinary software has no reason to launch things through, and that malware uses constantly to run code and to move between machines.'', True),
      (''9e6c4e1f-7d60-472f-ba1a-a39ef669e4b2'',
       ''Block credential theft from the Windows login service'',
       ''Stops programs reading passwords and tokens out of lsass.exe, the process that holds the credentials of everyone signed in. Almost nothing legitimate reads it.'', True),
      (''5beb7efe-fd9a-4556-801d-275e5ffc04cc'',
       ''Block obfuscated scripts'',
       ''Scripts deliberately written to be unreadable. Legitimate scripts have no reason to hide what they do, and this is the ordinary shape of a dropper's first stage.'', True),
      (''d3e037e1-3eb8-44c8-a917-57927947596d'',
       ''Block scripts from launching downloaded programs'',
       ''Stops JavaScript and VBScript starting an executable they have just fetched, which is the join between the thing you clicked and the thing that does the damage.'', True),
      (''be9ba2d9-53ea-4cdc-84e5-9b1eeee46550'',
       ''Block programs arriving by email or webmail'',
       ''An executable that came straight out of a mail client or a webmail page, run without ever being saved and looked at.'', True),
      (''e6db77e5-3df2-4cf1-b95a-636979351e5b'',
       ''Block persistence through WMI event subscription'',
       ''A way of arranging to be run again that leaves nothing in the startup folders, the Run keys, or the task store '' @ em_dash @ '' and so is invisible to most tools that list what starts itself, including this one.'', True),
      (''c1db55ab-c21a-4637-bb3f-a12568109d35'',
       ''Advanced ransomware protection'',
       ''Additional checks against the behaviour of programs that encrypt files in bulk.'', False),
      (''56a863a9-875e-4185-98a7-b882c64b5ce5'',
       ''Block abuse of vulnerable signed drivers'',
       ''Stops a program loading a legitimately signed but known-flawed driver in order to reach the kernel through it.'', False),
      (''d4f940ab-401b-4efc-aadc-ad5f3c50688a'',
       ''Block Office applications from starting other programs'',
       ''Word and Excel have no ordinary reason to launch a program. This is what a malicious macro does first.'', False),
      (''3b576869-a4ec-4529-8536-b80a7769e899'',
       ''Block Office applications from writing executable files'',
       ''The other half of the macro pattern: writing the program out before running it.'', False),
      (''92e97fa1-2edf-4476-bdd6-9dd0b4dddc7b'',
       ''Block Win32 calls from Office macros'',
       ''A macro reaching past the document into the operating system's own interfaces.'', False),
      (''75668c1f-73b5-4cf0-bb93-3ecf5cb7cc84'',
       ''Block Office applications from injecting into other processes'',
       ''Writing code into a program that is already running, to borrow its identity and its permissions.'', False),
      (''26190899-1602-49e8-8b27-eb1d0a1ce869'',
       ''Block Office communication apps from starting other programs'',
       ''The same rule as above, for Outlook and its relatives.'', False),
      (''7674ba52-37eb-4a4f-a9a1-f0f9a1619a2c'',
       ''Block Adobe Reader from starting other programs'',
       ''A PDF reader has no reason to launch anything.'', False),
      (''b2b3f03d-6a65-4f7b-a9c7-1c7ef74a9ba4'',
       ''Block untrusted programs from USB drives'',
       ''An unsigned program running straight off a removable drive.'', False),
      (''c0033c00-d16d-4114-a5a0-dc9b3a7d2ceb'',
       ''Block copied or impersonated system tools'',
       ''A copy of a Windows tool, moved somewhere else or renamed, which is how a trusted name gets used to do an untrusted thing.'', False),
      (''33ddedf1-c6e0-47cb-833e-de6133960387'',
       ''Block rebooting into Safe Mode'',
       ''Safe Mode starts Windows without most of its protection, and some malware reboots into it deliberately.'', False),
      (''a8f5898e-1dc8-49a9-9878-85004b8a61e6'',
       ''Block webshell creation for servers'',
       ''Aimed at Exchange servers rather than desktops.'', False)]"

section \<open>The folder guard\<close>

datatype folder_access =
    CfaOff | CfaOn | CfaAuditOnly | CfaBlockDisk | CfaAuditDisk | CfaNotConfigured | CfaUnreadable

definition access_parse :: "nat option \<Rightarrow> folder_access" where
  "access_parse v =
     (case v of
        None \<Rightarrow> CfaNotConfigured
      | Some n \<Rightarrow>
          if n = 0 then CfaOff else if n = 1 then CfaOn else if n = 2 then CfaAuditOnly else if n = 3 then CfaBlockDisk
          else if n = 4 then CfaAuditDisk else CfaUnreadable)"

fun access_label :: "folder_access \<Rightarrow> str" where
  "access_label CfaOff = ''off''"
| "access_label CfaOn = ''on''"
| "access_label CfaAuditOnly = ''auditing only''"
| "access_label CfaBlockDisk = ''blocking disk changes only''"
| "access_label CfaAuditDisk = ''auditing disk changes only''"
| "access_label CfaNotConfigured = ''never configured''"
| "access_label CfaUnreadable = ''set to something unrecognised''"

definition access_protecting :: "folder_access \<Rightarrow> bool" where
  "access_protecting a \<longleftrightarrow> a = CfaOn \<or> a = CfaBlockDisk"

section \<open>Switches\<close>

datatype switch_state = SwitchOn | SwitchOff | SwitchAudit | SwitchNotConfigured | SwitchUnrecognised nat

fun switch_label :: "switch_state \<Rightarrow> str" where
  "switch_label SwitchOn = ''on''"
| "switch_label SwitchOff = ''off''"
| "switch_label SwitchAudit = ''auditing only''"
| "switch_label SwitchNotConfigured = ''not configured''"
| "switch_label (SwitchUnrecognised n) = ''set to an unrecognised value ('' @ show_nat n @ '')''"

datatype switch_default = DefaultOn | DefaultOff | DefaultVaries

record switch =
  sw_id :: str
  sw_name :: str
  sw_explains :: str
  sw_state :: switch_state
  sw_default :: switch_default
  sw_how :: str
  sw_managed :: bool

definition switch_protecting :: "switch \<Rightarrow> bool" where
  "switch_protecting s \<longleftrightarrow> sw_state s = SwitchOn"

definition unexpectedly_off :: "switch \<Rightarrow> bool" where
  "unexpectedly_off s \<longleftrightarrow> sw_default s = DefaultOn \<and> sw_state s = SwitchOff"

fun machine_dword :: "machine_keys \<Rightarrow> str list \<Rightarrow> str \<Rightarrow> nat option" where
  "machine_dword keys [] nm = None"
| "machine_dword keys (path # paths) nm =
     (case Option.bind (keys path) (\<lambda>k. kv_dword k nm) of Some n \<Rightarrow> Some n | None \<Rightarrow> machine_dword keys paths nm)"

text \<open>\<open>match\<close> on a value: the numbers for on, for audit and for off, and anything else as it is.\<close>

definition state_of :: "nat list \<Rightarrow> nat list \<Rightarrow> nat option \<Rightarrow> switch_state" where
  "state_of ons audits v =
     (case v of
        None \<Rightarrow> SwitchNotConfigured
      | Some n \<Rightarrow>
          if n \<in> set ons then SwitchOn else if n \<in> set audits then SwitchAudit else if n = 0 then SwitchOff
          else SwitchUnrecognised n)"

definition PUA_SWITCH :: str where "PUA_SWITCH = ''pua-protection''"

definition pua_policy :: "machine_keys \<Rightarrow> nat option" where
  "pua_policy keys =
     or_else (machine_dword keys [slashes ''SOFTWARE/Policies/Microsoft/Windows Defender''] ''PUAProtection'')
       (machine_dword keys [slashes ''SOFTWARE/Policies/Microsoft/Windows Defender/MpEngine''] ''MpEnablePus'')"

definition pua_local :: "machine_keys \<Rightarrow> nat option" where
  "pua_local keys =
     or_else (machine_dword keys [slashes ''SOFTWARE/Microsoft/Windows Defender''] ''PUAProtection'')
       (machine_dword keys [slashes ''SOFTWARE/Microsoft/Windows Defender/MpEngine''] ''MpEnablePus'')"

definition pua_switch :: "machine_keys \<Rightarrow> switch" where
  "pua_switch keys =
     \<lparr>sw_id = PUA_SWITCH, sw_name = ''Blocking unwanted applications'',
      sw_explains = ''Defender can block the software that is not quite malware '' @ em_dash @ '' bundled toolbars, registry cleaners, driver updaters, the things that arrive alongside something else. It is off unless asked, and it covers the same ground this program's own rules do, from inside the engine.'',
      sw_state = state_of [1] [2] (or_else (pua_policy keys) (pua_local keys)), sw_default = DefaultOff,
      sw_how = ''PowerShell as administrator: Set-MpPreference -PUAProtection Enabled'',
      sw_managed = (pua_policy keys \<noteq> None)\<rparr>"

definition lsa_switch :: "machine_keys \<Rightarrow> switch" where
  "lsa_switch keys =
     \<lparr>sw_id = ''lsa-protection'', sw_name = ''Credential memory protection'',
      sw_explains = ''Windows keeps the credentials of everyone signed in inside one service. This stops other programs reading that service's memory, which is the usual step between something running on the machine and something having your password.'',
      sw_state = state_of [1, 2] [] (machine_dword keys [slashes ''SYSTEM/CurrentControlSet/Control/Lsa''] ''RunAsPPL''),
      sw_default = DefaultVaries,
      sw_how = ''Windows Security > Device security > Core isolation, where recent versions of Windows 11 offer it as Local Security Authority protection.'',
      sw_managed = False\<rparr>"

definition integrity_switch :: "machine_keys \<Rightarrow> switch" where
  "integrity_switch keys =
     \<lparr>sw_id = ''memory-integrity'', sw_name = ''Memory integrity'',
      sw_explains = ''Checks drivers before they are allowed into the kernel, so a malicious or tampered driver cannot load. Windows turns it off when an existing driver is incompatible, so it being off often means an old driver rather than a decision.'',
      sw_state = state_of [1] [] (machine_dword keys
        [slashes ''SYSTEM/CurrentControlSet/Control/DeviceGuard/Scenarios/HypervisorEnforcedCodeIntegrity''] ''Enabled''),
      sw_default = DefaultVaries,
      sw_how = ''Windows Security > Device security > Core isolation > Memory integrity.'',
      sw_managed = False\<rparr>"

definition blocklist_switch :: "machine_keys \<Rightarrow> switch" where
  "blocklist_switch keys =
     \<lparr>sw_id = ''driver-blocklist'', sw_name = ''Vulnerable driver blocklist'',
      sw_explains = ''Microsoft keeps a list of signed drivers with known holes in them. Attackers bring one of those along on purpose, because being signed is what gets it loaded, and then use its hole to reach the kernel. This is the list that refuses them.'',
      sw_state = state_of [1] [] (machine_dword keys [slashes ''SYSTEM/CurrentControlSet/Control/CI/Config'']
        ''VulnerableDriverBlocklistEnable''),
      sw_default = DefaultOn,
      sw_how = ''It follows memory integrity on most machines. Windows Security > Device security > Core isolation.'',
      sw_managed = False\<rparr>"

definition switches :: "machine_keys \<Rightarrow> switch list" where
  "switches keys = [pua_switch keys, lsa_switch keys, integrity_switch keys, blocklist_switch keys]"

section \<open>The report\<close>

record hardening_report =
  hr_rules :: "asr_rule list"
  hr_folder_access :: "folder_access option"
  hr_switches :: "switch list"
  hr_unreadable :: "str list"

definition recommended_on :: "hardening_report \<Rightarrow> nat" where
  "recommended_on r = length (filter (\<lambda>u. ru_recommended u \<and> mode_protecting (ru_mode u)) (hr_rules r))"

definition recommended_total :: "hardening_report \<Rightarrow> nat" where
  "recommended_total r = length (filter ru_recommended (hr_rules r))"

definition hardening_concerns :: "hardening_report \<Rightarrow> str list" where
  "hardening_concerns r =
     (let on = recommended_on r; all = recommended_total r;
          about_rules =
            (if 0 < all \<and> on = 0
             then [''None of the '' @ show_nat all @ '' recommended Attack Surface Reduction rules are switched on. They are free, already part of Defender, and off by default.'']
             else if on < all
             then [show_nat on @ '' of '' @ show_nat all @ '' recommended Attack Surface Reduction rules are switched on.'']
             else []);
          about_folders =
            (case hr_folder_access r of
               Some a \<Rightarrow> if access_protecting a then []
                 else [''Controlled Folder Access is not protecting your documents. It stops unknown programs writing to your personal folders, which is what ransomware does.'']
             | None \<Rightarrow> []);
          turned_off = foldl (\<lambda>cs s. (sw_name s @ '' is off, and Windows switches it on by itself. Something changed it.'') # cs)
            (about_rules @ about_folders) (filter unexpectedly_off (hr_switches r));
          available = map sw_name (filter (\<lambda>s. \<not> switch_protecting s \<and> \<not> unexpectedly_off s) (hr_switches r))
      in turned_off
         @ (if available = [] then []
            else [''Not switched on, and free: '' @ join_with '', '' available @ ''. Each says what it would prevent.'']))"

definition rule_value :: "key_view \<Rightarrow> str \<Rightarrow> nat option" where
  "rule_value k nm = or_else (kv_dword k nm) (Option.bind (kv_string k nm) (\<lambda>t. parse_u32 (trim t)))"

definition read_rule_set :: "(str \<Rightarrow> str) \<Rightarrow> machine_keys \<Rightarrow> str \<Rightarrow> (str \<times> nat) list option" where
  "read_rule_set lower keys path =
     map_option (\<lambda>k. List.map_filter (\<lambda>nm. if nm = [] then None else map_option (\<lambda>n. (lower nm, n)) (rule_value k nm))
       (kv_names k)) (keys path)"

definition read_folder_access :: "machine_keys \<Rightarrow> str \<Rightarrow> nat option" where
  "read_folder_access keys path = Option.bind (keys path) (\<lambda>k. kv_dword k ''EnableControlledFolderAccess'')"

text \<open>What the ordered map holds once the local set and then the policy's have gone into it.\<close>

definition configured :: "(str \<Rightarrow> str) \<Rightarrow> machine_keys \<Rightarrow> (str \<times> nat) list" where
  "configured lower keys =
     unwrap_or [] (read_rule_set lower keys LOCAL_ASR) @ unwrap_or [] (read_rule_set lower keys POLICY_ASR)"

definition configured_mode :: "(str \<Rightarrow> str) \<Rightarrow> machine_keys \<Rightarrow> str \<Rightarrow> nat option" where
  "configured_mode lower keys rule_id = map_of (rev (configured lower keys)) rule_id"

definition known_rule :: "(str \<Rightarrow> str) \<Rightarrow> machine_keys \<Rightarrow> str \<times> str \<times> str \<times> bool \<Rightarrow> asr_rule" where
  "known_rule lower keys k =
     (case k of (rule_id, nm, explains, recommended) \<Rightarrow>
        \<lparr>ru_id = rule_id, ru_name = nm, ru_explains = explains,
         ru_mode = (case configured_mode lower keys (lower rule_id) of Some n \<Rightarrow> mode_parse n | None \<Rightarrow> AsrOff),
         ru_recommended = recommended\<rparr>)"

definition unknown_ids :: "(str \<Rightarrow> str) \<Rightarrow> machine_keys \<Rightarrow> str list" where
  "unknown_ids lower keys =
     filter (\<lambda>i. i \<notin> set (map (\<lambda>k. lower (fst k)) KNOWN)) (sort (remdups (map fst (configured lower keys))))"

definition unknown_rule :: "(str \<Rightarrow> str) \<Rightarrow> machine_keys \<Rightarrow> str \<Rightarrow> asr_rule" where
  "unknown_rule lower keys rule_id =
     \<lparr>ru_id = rule_id, ru_name = ''A rule this version does not have a description for'',
      ru_explains = ''It is configured on this machine. Its identifier can be looked up in Microsoft's Attack Surface Reduction documentation.'',
      ru_mode = mode_parse (unwrap_or 0 (configured_mode lower keys rule_id)), ru_recommended = False\<rparr>"

definition asr_rule_order :: "asr_rule \<Rightarrow> bool \<times> bool \<times> str" where
  "asr_rule_order u = (\<not> ru_recommended u, mode_protecting (ru_mode u), ru_name u)"

definition hardening_survey :: "(str \<Rightarrow> str) \<Rightarrow> machine_keys \<Rightarrow> hardening_report" where
  "hardening_survey lower keys =
     \<lparr>hr_rules = sort_key asr_rule_order (map (known_rule lower keys) KNOWN @ map (unknown_rule lower keys) (unknown_ids lower keys)),
      hr_folder_access = Some (access_parse (or_else (read_folder_access keys POLICY_CFA) (read_folder_access keys LOCAL_CFA))),
      hr_switches = switches keys,
      hr_unreadable =
        (if read_rule_set lower keys LOCAL_ASR = None \<and> read_rule_set lower keys POLICY_ASR = None
         then [''Defender's Attack Surface Reduction settings could not be read. They may never have been configured, which is the default.'']
         else [])\<rparr>"

section \<open>Turning one on or off\<close>

datatype wanted_mode = WantAudit | WantBlock | WantOff

fun asr_action :: "wanted_mode \<Rightarrow> str" where
  "asr_action WantAudit = ''AuditMode''"
| "asr_action WantBlock = ''Enabled''"
| "asr_action WantOff = ''Disabled''"

fun pua_action :: "wanted_mode \<Rightarrow> str" where
  "pua_action WantAudit = ''AuditMode''"
| "pua_action WantBlock = ''Enabled''"
| "pua_action WantOff = ''Disabled''"

definition cmdlet_arguments :: "str \<Rightarrow> wanted_mode \<Rightarrow> kam_error + str list" where
  "cmdlet_arguments id_text w =
     (case find (\<lambda>k. ascii_lower (fst k) = ascii_lower id_text) KNOWN of
        Some k \<Rightarrow>
          Inr (if w = WantOff then [''Remove-MpPreference'', ''-AttackSurfaceReductionRules_Ids'', fst k]
               else [''Add-MpPreference'', ''-AttackSurfaceReductionRules_Ids'', fst k,
                     ''-AttackSurfaceReductionRules_Actions'', asr_action w])
      | None \<Rightarrow>
          if id_text = PUA_SWITCH then Inr [''Set-MpPreference'', ''-PUAProtection'', pua_action w]
          else Inl (Refused (id_text @ '' is not a protection this knows how to change'')))"

record command_output =
  co_success :: bool
  co_code :: "int option"
  co_stderr :: bytes

text \<open>
  What running a program with arguments does to the keys and answers, an error when it could not be started.
\<close>

record hardening_machine =
  hm_machine :: machine
  hm_run :: "str \<Rightarrow> str list \<Rightarrow> machine_keys \<Rightarrow> (str + command_output) \<times> machine_keys"

definition powershell :: "environment \<Rightarrow> str" where
  "powershell env =
     path_join (unwrap_or (slashes ''C:/Windows'') (env_lookup env ''SystemRoot''))
       (slashes ''System32/WindowsPowerShell/v1.0/powershell.exe'')"

definition SHELL_ARGUMENTS :: "str list" where
  "SHELL_ARGUMENTS = [''-NoProfile'', ''-NonInteractive'', ''-ExecutionPolicy'', ''Bypass'', ''-Command'']"

definition show_code :: "int option \<Rightarrow> str" where
  "show_code c = (case c of None \<Rightarrow> ''None'' | Some n \<Rightarrow> ''Some('' @ (if n < 0 then ''-'' @ show_nat (nat (- n)) else show_nat (nat n)) @ '')'')"

definition run_defender_cmdlet :: "hardening_machine \<Rightarrow> str list \<Rightarrow> machine_keys \<Rightarrow> (kam_error + unit) \<times> machine_keys" where
  "run_defender_cmdlet hm arguments keys =
     (let shell = powershell (mc_env (hm_machine hm)) in
      if \<not> is_file (hm_machine hm) shell
      then (Inl (Privileged (shell @ '' is not there, so the change cannot be made'')), keys)
      else (case hm_run hm shell (SHELL_ARGUMENTS @ [join_with '' '' arguments]) keys of
              (Inl e, keys) \<Rightarrow> (Inl (Privileged (''could not run the Defender cmdlet: '' @ e)), keys)
            | (Inr out, keys) \<Rightarrow>
                if co_success out then (Inr (), keys)
                else (let complaint = trim (from_utf8_lossy (co_stderr out))
                      in (Inl (Privileged
                            (if complaint = [] then ''Defender refused the change (exit '' @ show_code (co_code out) @ '')''
                             else ''Defender refused the change: '' @ complaint)), keys))))"

definition hardening_request ::
  "hardening_machine \<Rightarrow> str \<Rightarrow> wanted_mode \<Rightarrow> machine_keys \<Rightarrow> (kam_error + hardening_report) \<times> machine_keys" where
  "hardening_request hm id_text w keys =
     (case cmdlet_arguments id_text w of
        Inl e \<Rightarrow> (Inl e, keys)
      | Inr arguments \<Rightarrow>
        (case run_defender_cmdlet hm arguments keys of
           (Inl e, keys) \<Rightarrow> (Inl e, keys)
         | (Inr u, keys) \<Rightarrow> (Inr (hardening_survey (mc_lower (hm_machine hm)) keys), keys)))"

section \<open>What reaches the command line\<close>

text \<open>Every command there is, with nothing in it that a caller wrote.\<close>

definition COMMANDS :: "str list list" where
  "COMMANDS =
     concat (map (\<lambda>k. map (\<lambda>w. if w = WantOff then [''Remove-MpPreference'', ''-AttackSurfaceReductionRules_Ids'', fst k]
         else [''Add-MpPreference'', ''-AttackSurfaceReductionRules_Ids'', fst k,
               ''-AttackSurfaceReductionRules_Actions'', asr_action w]) [WantAudit, WantBlock, WantOff]) KNOWN)
     @ map (\<lambda>w. [''Set-MpPreference'', ''-PUAProtection'', pua_action w]) [WantAudit, WantBlock, WantOff]"

definition WORD_CHARS :: str where
  "WORD_CHARS = ''-0123456789abcdefghijklmnopqrstuvwxyzABCDEFGHIJKLMNOPQRSTUVWXYZ_''"

definition plain_word :: "str \<Rightarrow> bool" where
  "plain_word s \<longleftrightarrow> s \<noteq> [] \<and> list_all (\<lambda>c. c \<in> set WORD_CHARS) s"

lemma known_ids_plain: "list_all plain_word (map fst KNOWN)"
  by code_simp

lemma words_plain:
  "list_all plain_word [''Remove-MpPreference'', ''-AttackSurfaceReductionRules_Ids'', ''Add-MpPreference'',
     ''-AttackSurfaceReductionRules_Actions'', ''Set-MpPreference'', ''-PUAProtection'', ''AuditMode'', ''Enabled'', ''Disabled'']"
  by (simp add: plain_word_def WORD_CHARS_def)

lemma all_wanted: "w \<in> {WantAudit, WantBlock, WantOff}"
  by (cases w) simp_all

lemma commands_are_plain: "list_all (list_all plain_word) COMMANDS"
proof -
  have "list_all plain_word arguments" if "arguments \<in> set COMMANDS" for arguments
    using that words_plain known_ids_plain by (auto simp: COMMANDS_def list_all_iff)
  then show ?thesis by (simp add: list_all_iff)
qed

lemma arguments_are_commands:
  assumes "cmdlet_arguments id_text w = Inr arguments"
  shows "arguments \<in> set COMMANDS"
proof (cases "find (\<lambda>k. ascii_lower (fst k) = ascii_lower id_text) KNOWN")
  case None
  with assms all_wanted [of w] show ?thesis by (auto simp: cmdlet_arguments_def COMMANDS_def split: if_splits)
next
  case (Some k)
  then have "k \<in> set KNOWN" by (auto simp: find_Some_iff)
  with Some assms all_wanted [of w] show ?thesis by (force simp: cmdlet_arguments_def COMMANDS_def)
qed

text \<open>C29: whatever identifier a caller sends, the settings are either untouched or as PowerShell of the system directory leaves
  them after one of a fixed set of commands, each made of letters, digits, dashes and underscores alone.
\<close>

theorem only_fixed_commands_run:
  "snd (hardening_request hm id_text w keys)
     \<in> insert keys ((\<lambda>arguments. snd (hm_run hm (powershell (mc_env (hm_machine hm)))
          (SHELL_ARGUMENTS @ [join_with '' '' arguments]) keys)) ` set (filter (list_all plain_word) COMMANDS))"
proof (cases "cmdlet_arguments id_text w")
  case (Inr arguments)
  have "arguments \<in> set (filter (list_all plain_word) COMMANDS)"
    using arguments_are_commands [OF Inr] commands_are_plain by (simp add: list_all_iff)
  moreover have "snd (run_defender_cmdlet hm arguments keys)
      \<in> {keys, snd (hm_run hm (powershell (mc_env (hm_machine hm))) (SHELL_ARGUMENTS @ [join_with '' '' arguments]) keys)}"
    by (auto simp: run_defender_cmdlet_def Let_def split: prod.split sum.split)
  moreover have "snd (hardening_request hm id_text w keys) = snd (run_defender_cmdlet hm arguments keys)"
    by (simp add: hardening_request_def Inr split: prod.split sum.split)
  ultimately show ?thesis by auto
qed (simp add: hardening_request_def)

text \<open>
  An identifier that is neither in the catalogue nor the one switch is refused before anything runs, and a change is
  answered with the state read back, whatever the cmdlet said.
\<close>

theorem answer_is_read_back:
  "case hardening_request hm id_text w keys of
     (Inr report, keys') \<Rightarrow> report = hardening_survey (mc_lower (hm_machine hm)) keys'
       \<and> (ascii_lower id_text \<in> ascii_lower ` fst ` set KNOWN \<or> id_text = PUA_SWITCH)
   | (Inl e, keys') \<Rightarrow> ascii_lower id_text \<in> ascii_lower ` fst ` set KNOWN \<or> id_text = PUA_SWITCH
       \<or> e = Refused (id_text @ '' is not a protection this knows how to change'') \<and> keys' = keys"
proof -
  have found: "ascii_lower id_text \<in> ascii_lower ` fst ` set KNOWN"
    if "find (\<lambda>k. ascii_lower (fst k) = ascii_lower id_text) KNOWN = Some k" for k
  proof -
    have "k \<in> set KNOWN" and "ascii_lower (fst k) = ascii_lower id_text"
      using that nth_mem by (auto simp: find_Some_iff)
    then show ?thesis by (metis imageI)
  qed
  have "ascii_lower id_text \<in> ascii_lower ` fst ` set KNOWN \<or> id_text = PUA_SWITCH
      \<or> cmdlet_arguments id_text w = Inl (Refused (id_text @ '' is not a protection this knows how to change''))"
    by (auto simp: cmdlet_arguments_def split: option.split dest: found)
  then show ?thesis
    by (auto simp: hardening_request_def cmdlet_arguments_def split: sum.split prod.split option.splits if_splits dest: found)
qed

section \<open>What the report holds\<close>

text \<open>
  Every rule of the catalogue is reported once, and so is every configured identifier the catalogue does not know;
  nothing else is.
\<close>

theorem every_rule_is_reported:
  "mset (map ru_id (hr_rules (hardening_survey lower keys)))
     = mset (map fst KNOWN) + mset_set (fst ` set (configured lower keys) - lower ` fst ` set KNOWN)"
proof -
  have ids: "map ru_id (map (known_rule lower keys) KNOWN) = map fst KNOWN"
    by (simp add: comp_def known_rule_def case_prod_beta)
  have "map ru_id (map (unknown_rule lower keys) is) = is" for "is" by (simp add: comp_def unknown_rule_def)
  moreover have "mset (unknown_ids lower keys) = mset_set (set (unknown_ids lower keys))"
    by (rule mset_set_set [symmetric]) (simp add: unknown_ids_def)
  moreover have "set (unknown_ids lower keys) = fst ` set (configured lower keys) - lower ` fst ` set KNOWN"
    by (auto simp: unknown_ids_def)
  ultimately have "mset (map ru_id (map (unknown_rule lower keys) (unknown_ids lower keys)))
      = mset_set (fst ` set (configured lower keys) - lower ` fst ` set KNOWN)" by metis
  moreover have "mset (map ru_id (hr_rules (hardening_survey lower keys)))
      = mset (map ru_id (map (known_rule lower keys) KNOWN)) + mset (map ru_id (map (unknown_rule lower keys) (unknown_ids lower keys)))"
    by (simp add: hardening_survey_def multiset.map_comp comp_def)
  ultimately show ?thesis unfolding ids by simp
qed

text \<open>A value the policy sets is the one that is shown, whatever is set locally.\<close>

lemma policy_wins:
  "read_rule_set lower keys POLICY_ASR = Some policy \<Longrightarrow> map_of (rev policy) rule_id = Some n \<Longrightarrow>
     configured_mode lower keys rule_id = Some n"
  by (simp add: configured_mode_def configured_def unwrap_or_def map_add_def)

text \<open>
  The report has nothing to say exactly when every recommended rule blocks or warns, the folder guard is on or was
  not asked, and every switch is on.
\<close>

lemma filter_keeps_all: "length (filter (\<lambda>x. P x \<and> Q x) xs) = length (filter P xs) \<longleftrightarrow> list_all (\<lambda>x. P x \<longrightarrow> Q x) xs"
proof (induction xs)
  case (Cons x xs)
  have "length (filter (\<lambda>x. P x \<and> Q x) xs) \<le> length (filter P xs)" by (induction xs) auto
  with Cons show ?case by auto
qed simp

lemma filter_keeps_fewer: "length (filter (\<lambda>x. P x \<and> Q x) xs) \<le> length (filter P xs)"
  by (induction xs) auto

lemma foldl_Cons_empty: "foldl (\<lambda>cs s. f s # cs) start xs = [] \<longleftrightarrow> start = [] \<and> xs = []"
  by (induction xs arbitrary: start) auto

theorem no_concern_means_protected:
  "hardening_concerns r = [] \<longleftrightarrow>
     list_all (\<lambda>u. ru_recommended u \<longrightarrow> mode_protecting (ru_mode u)) (hr_rules r)
     \<and> (hr_folder_access r = None \<or> map_option access_protecting (hr_folder_access r) = Some True)
     \<and> list_all switch_protecting (hr_switches r)"
proof -
  have rules: "recommended_on r = recommended_total r
      \<longleftrightarrow> list_all (\<lambda>u. ru_recommended u \<longrightarrow> mode_protecting (ru_mode u)) (hr_rules r)"
    unfolding recommended_on_def recommended_total_def by (rule filter_keeps_all)
  have fewer: "recommended_on r \<le> recommended_total r"
    unfolding recommended_on_def recommended_total_def by (rule filter_keeps_fewer)
  have switch: "filter unexpectedly_off (hr_switches r) = []
      \<and> filter (\<lambda>s. \<not> switch_protecting s \<and> \<not> unexpectedly_off s) (hr_switches r) = []
      \<longleftrightarrow> list_all switch_protecting (hr_switches r)"
    by (auto simp: filter_empty_conv list_all_iff switch_protecting_def unexpectedly_off_def)
  show ?thesis
    using fewer switch rules
    by (cases "hr_folder_access r") (auto simp: hardening_concerns_def Let_def foldl_Cons_empty)
qed

text \<open>Of the rules that are alike recommended, those that do nothing stand before those that protect.\<close>

lemma idle_rules_stand_first:
  "ru_recommended a = ru_recommended b \<Longrightarrow> \<not> mode_protecting (ru_mode a) \<Longrightarrow> mode_protecting (ru_mode b) \<Longrightarrow>
     asr_rule_order a < asr_rule_order b"
  by (simp add: asr_rule_order_def)

end
