(* ===== verification/Kam_Provenance.thy ===== *)
theory Kam_Provenance
  imports Kam_Behaviour Kam_Downloads Kam_Ours Kam_Scan
begin

text \<open>
  Judging programs by where they came from, \<open>crates/kam-scanner/src/provenance.rs\<close>: what starts itself and what arrived
  in the folders downloads land in, weighed and put in order. Verifying a signature, a file's length and creation time,
  the streams beside files and the listings of folders are answers of Windows; when a stop is asked for is an argument.
\<close>

section \<open>Signatures\<close>

datatype file_signature =
    SigValid str "str option"
  | SigInvalid "str option" str
  | SigUnsigned
  | SigUnknown str

fun signer_of :: "file_signature \<Rightarrow> str option" where
  "signer_of (SigValid signer catalogue) = Some signer"
| "signer_of (SigInvalid signer why) = signer"
| "signer_of s = None"

fun sig_is_valid :: "file_signature \<Rightarrow> bool" where
  "sig_is_valid (SigValid signer catalogue) = True"
| "sig_is_valid s = False"

definition is_windows_signer :: "str \<Rightarrow> bool" where
  "is_windows_signer signer \<longleftrightarrow> ascii_lower (trim signer) = ascii_lower ''Microsoft Windows''"

section \<open>Places\<close>

definition MAX_LOOSE_CANDIDATES :: nat where "MAX_LOOSE_CANDIDATES = 4000"
definition MAX_DEPTH :: nat where "MAX_DEPTH = 6"

definition EXECUTABLE :: "str list" where
  "EXECUTABLE = [''exe'', ''com'', ''scr'', ''bat'', ''cmd'', ''ps1'', ''vbs'', ''js'', ''jar'']"

datatype prov_location = InSystem | InInstalled | InShared | InUserWritable | InElsewhere

text \<open>The folders of the person a survey is for; the running account adds what its environment says is temporary.\<close>

definition personal_folders :: "machine \<Rightarrow> user_context \<Rightarrow> str list" where
  "personal_folders mc user =
     (if uc_profile user = [] then []
      else [local_app_data user, roaming_app_data user, user_temp user, uc_profile user]
        @ (if uc_sid user = None then (case env_var mc ''TEMP'' of Some temp \<Rightarrow> [temp] | None \<Rightarrow> []) else []))"

definition under_machine_folder :: "machine \<Rightarrow> str \<Rightarrow> str \<Rightarrow> bool" where
  "under_machine_folder mc path variable =
     (case machine_folder mc variable of None \<Rightarrow> False | Some rt \<Rightarrow> within_place (mc_lower mc) path rt)"

definition location_of :: "machine \<Rightarrow> user_context \<Rightarrow> str \<Rightarrow> prov_location" where
  "location_of mc user path =
     (if writable_inside_windows mc path then InUserWritable
      else if under_machine_folder mc path ''SystemRoot'' then InSystem
      else if under_machine_folder mc path ''ProgramFiles'' \<or> under_machine_folder mc path ''ProgramFiles(x86)''
        \<or> under_machine_folder mc path ''ProgramW6432'' then InInstalled
      else if under_machine_folder mc path ''ProgramData'' then InShared
      else if list_ex (\<lambda>rt. within_place (mc_lower mc) path rt) (personal_folders mc user) then InUserWritable
      else InElsewhere)"

fun location_label :: "prov_location \<Rightarrow> str" where
  "location_label InSystem = ''a protected Windows folder''"
| "location_label InInstalled = ''an installed program folder''"
| "location_label InShared = ''a shared application folder''"
| "location_label InUserWritable = ''a folder any program can write to''"
| "location_label InElsewhere = ''outside the usual program folders''"

datatype attention = AttOrdinary | AttNotable | AttUnusual

fun attention_rank :: "attention \<Rightarrow> nat" where
  "attention_rank AttOrdinary = 0"
| "attention_rank AttNotable = 1"
| "attention_rank AttUnusual = 2"

definition attention_from_weight :: "nat \<Rightarrow> attention" where
  "attention_from_weight w = (if w \<le> 2 then AttOrdinary else if w \<le> 5 then AttNotable else AttUnusual)"

fun attention_label :: "attention \<Rightarrow> str" where
  "attention_label AttOrdinary = ''nothing unusual''"
| "attention_label AttNotable = ''worth knowing''"
| "attention_label AttUnusual = ''worth a look''"

section \<open>What is known of a program\<close>

record prov_finding =
  pf_path :: str
  pf_name :: str
  pf_bytes :: nat
  pf_signature :: file_signature
  pf_origin :: "origin option"
  pf_origin_host :: "str option"
  pf_arrived :: "nat option"
  pf_persistence :: "start_entry list"
  pf_location :: prov_location
  pf_attention :: attention
  pf_reasons :: "str list"
  pf_ours :: bool

definition persists :: "prov_finding \<Rightarrow> bool" where "persists f \<longleftrightarrow> pf_persistence f \<noteq> []"

definition from_outside :: "prov_finding \<Rightarrow> bool" where
  "from_outside f = (case pf_origin f of Some og \<Rightarrow> is_external (og_zone og) | None \<Rightarrow> False)"

definition exposed :: "prov_finding \<Rightarrow> bool" where
  "exposed f \<longleftrightarrow> pf_location f = InUserWritable \<or> pf_location f = InElsewhere"

record prov_report =
  pr_findings :: "prov_finding list"
  pr_examined :: nat
  pr_swept_files :: nat
  pr_unreadable :: "str list"
  pr_swept :: "str list"

definition prov_worth_reading :: "prov_report \<Rightarrow> prov_finding list" where
  "prov_worth_reading r = filter (\<lambda>f. pf_attention f \<noteq> AttOrdinary) (pr_findings r)"

definition prov_canonical :: "(str \<Rightarrow> str) \<Rightarrow> str \<Rightarrow> str" where
  "prov_canonical lower path = trim_end_matches is_backslash (slashes (lower path))"

definition is_executable :: "(str \<Rightarrow> str) \<Rightarrow> str \<Rightarrow> bool" where
  "is_executable lower path = (case extension path of None \<Rightarrow> False | Some e \<Rightarrow> lower e \<in> set EXECUTABLE)"

text \<open>Days since the creation, from the seconds it was at.\<close>

definition arrival :: "nat option \<Rightarrow> nat \<Rightarrow> nat option" where
  "arrival created_at now = map_option (\<lambda>seconds. (now - seconds) div 86400) created_at"

section \<open>Weighing\<close>

text \<open>Each part of the evidence: what it weighs, and the sentences it gives.\<close>

type_synonym evidence = "nat \<times> str list"

definition own_reasons :: "prov_finding \<Rightarrow> str list" where
  "own_reasons f =
     [''This is part of KAM Security itself.'']
     @ [case pf_signature f of
          SigValid signer catalogue \<Rightarrow> ''Signed by '' @ signer @ ''.''
        | _ \<Rightarrow> ''It is not signed, which is worth knowing about a program that runs as the system account.'']
     @ (if pf_location f = InUserWritable
        then [''It is installed in a folder that programs running as you can write to, so anything running as you could replace it. Installing under Program Files is what stops that.'']
        else [])"

definition signature_evidence :: "prov_finding \<Rightarrow> evidence" where
  "signature_evidence f =
     (case pf_signature f of
        SigInvalid signer why \<Rightarrow>
          (4, [case signer of Some nm \<Rightarrow> ''Signed by '' @ nm @ '', but '' @ why @ ''.''
                 | None \<Rightarrow> ''It carries a signature, but '' @ why @ ''.''])
      | SigUnsigned \<Rightarrow>
          (if persists f \<and> exposed f
           then (3, [''Nobody signed it, and it starts itself from a folder any program can write to.''])
           else if persists f then (2, [''Nobody signed it, and it starts itself.''])
           else (0, [''Nobody signed it.'']))
      | SigValid signer catalogue \<Rightarrow>
          (0, [if catalogue \<noteq> None \<and> is_windows_signer signer then ''Part of Windows, signed by '' @ signer @ ''.''
               else if catalogue \<noteq> None
               then ''Signed through a Windows catalogue by '' @ signer @ '', and Windows accepts it.''
               else ''Signed by '' @ signer @ '', and Windows accepts it.''])
      | SigUnknown why \<Rightarrow> (0, [''The signature could not be checked: '' @ why @ ''.'']))"

definition origin_evidence :: "prov_finding \<Rightarrow> evidence" where
  "origin_evidence f =
     (case pf_origin f of
        None \<Rightarrow> (0, [])
      | Some og \<Rightarrow>
        if from_outside f \<and> persists f
        then (3, [case pf_origin_host f of Some host \<Rightarrow> ''Downloaded from '' @ host @ '', and it starts itself.''
                    | None \<Rightarrow> ''Downloaded from the internet, and it starts itself.''])
        else if from_outside f
        then (0, [case pf_origin_host f of Some host \<Rightarrow> ''Downloaded from '' @ host @ ''.''
                    | None \<Rightarrow> ''Downloaded from the internet.''])
        else (0, [''Recorded as coming from '' @ zone_label (og_zone og) @ ''.'']))"

definition anchor_names :: "prov_finding \<Rightarrow> str list" where
  "anchor_names f = sort (remdups (map (\<lambda>e. anchor_label (se_anchor e)) (pf_persistence f)))"

definition anchor_evidence :: "prov_finding \<Rightarrow> evidence" where
  "anchor_evidence f =
     (let anchors = anchor_names f in
      if 1 < length anchors
      then (2, [''It holds on in '' @ show_nat (length anchors) @ '' different ways: '' @ join_with '', '' anchors @ ''.''])
      else (case anchors of a # rest \<Rightarrow> (0, [''It is '' @ a @ ''.'']) | [] \<Rightarrow> (0, [])))"

definition service_evidence :: "prov_finding \<Rightarrow> evidence" where
  "service_evidence f =
     (if list_ex (\<lambda>e. se_anchor e = Service) (pf_persistence f) \<and> exposed f
      then (2, [''It installed a Windows service that runs from a folder any program can write to.''])
      else (0, []))"

definition hidden_evidence :: "prov_finding \<Rightarrow> evidence" where
  "hidden_evidence f =
     (if list_ex se_hidden (pf_persistence f) \<and> (\<not> sig_is_valid (pf_signature f) \<or> exposed f)
      then (3, [''It starts from a scheduled task that is marked hidden, so it does not show in Task Scheduler.''])
      else (0, []))"

definition host_evidence :: "prov_finding \<Rightarrow> evidence" where
  "host_evidence f =
     (case List.map_filter se_host (pf_persistence f) of
        [] \<Rightarrow> (0, [])
      | host # rest \<Rightarrow>
        if exposed f
        then (3, [''It does not run directly: '' @ host @ '' is told to run it, which is how something keeps the program Task Manager shows looking like part of Windows.''])
        else if \<not> sig_is_valid (pf_signature f)
        then (1, [''It is run by '' @ host @ '' rather than started directly.''])
        else (0, []))"

definition place_evidence :: "prov_finding \<Rightarrow> evidence" where
  "place_evidence f = (if pf_location f = InUserWritable then (1, []) else (0, []))"

definition arrival_evidence :: "prov_finding \<Rightarrow> evidence" where
  "arrival_evidence f =
     (case pf_arrived f of
        None \<Rightarrow> (0, [])
      | Some days \<Rightarrow>
        if days \<le> 14
        then (1, [if days = 0 then ''It arrived today and already starts itself.''
                  else if days = 1 then ''It arrived yesterday and already starts itself.''
                  else ''It arrived '' @ show_nat days @ '' days ago and already starts itself.''])
        else (0, []))"

definition evidence_of :: "prov_finding \<Rightarrow> evidence list" where
  "evidence_of f =
     [signature_evidence f, origin_evidence f]
     @ (if persists f
        then [anchor_evidence f, service_evidence f, hidden_evidence f, host_evidence f, place_evidence f, arrival_evidence f]
        else [])"

definition weight_of :: "prov_finding \<Rightarrow> nat" where
  "weight_of f = sum_list (map fst (evidence_of f))"

definition weigh :: "prov_finding \<Rightarrow> prov_finding" where
  "weigh f =
     (if pf_ours f then f\<lparr>pf_reasons := pf_reasons f @ own_reasons f, pf_attention := AttOrdinary\<rparr>
      else f\<lparr>pf_attention := attention_from_weight (weight_of f), pf_reasons := concat (map snd (evidence_of f))\<rparr>)"

section \<open>Examining\<close>

text \<open>What Windows answers: a file's length and when it was created, in seconds, when it says.\<close>

record prov_system =
  pv_survey :: survey_system
  pv_signature :: "str \<Rightarrow> file_signature"
  pv_lossy :: "bytes \<Rightarrow> str"
  pv_streams :: "str \<Rightarrow> bytes option"
  pv_metadata :: "str \<Rightarrow> io_error + nat \<times> nat option"
  pv_directory :: "str option"
  pv_now :: nat

definition pv_machine :: "prov_system \<Rightarrow> machine" where "pv_machine pv = sy_machine (pv_survey pv)"
definition pv_lower :: "prov_system \<Rightarrow> str \<Rightarrow> str" where "pv_lower pv = mc_lower (pv_machine pv)"

definition examine :: "prov_system \<Rightarrow> user_context \<Rightarrow> str \<times> start_entry list \<Rightarrow> str + prov_finding" where
  "examine pv user c =
     (case c of (path, anchored) \<Rightarrow>
      (case pv_metadata pv path of
         Inl e \<Rightarrow> Inl (path @ '' could not be read ('' @ io_error_text e @ '')'')
       | Inr (size_found, created_at) \<Rightarrow>
         (let og = origin_of (pv_lossy pv) (pv_streams pv) path
          in Inr (weigh \<lparr>pf_path = path, pf_name = unwrap_or path (file_name path), pf_bytes = size_found,
                   pf_signature = pv_signature pv path, pf_origin = og, pf_origin_host = Option.bind og origin_host,
                   pf_arrived = arrival created_at (pv_now pv), pf_persistence = anchored,
                   pf_location = location_of (pv_machine pv) user path, pf_attention = AttOrdinary, pf_reasons = [],
                   pf_ours = is_our_file (pv_lower pv) (pv_directory pv) path\<rparr>))))"

section \<open>Sweeping\<close>

datatype sweep_policy = SweepEverything | SweepOutside

definition SHELL_FOLDERS :: str where
  "SHELL_FOLDERS = slashes ''Software/Microsoft/Windows/CurrentVersion/Explorer/User Shell Folders''"
definition DOWNLOADS_VALUE :: str where "DOWNLOADS_VALUE = ''{374DE290-123F-4565-9164-39C4925E467B}''"

text \<open>\<open>stored\<close> reads a value under \<open>SHELL_FOLDERS\<close> of the person's hive.\<close>

definition shell_folder :: "environment \<Rightarrow> (str \<Rightarrow> str option) \<Rightarrow> user_context \<Rightarrow> str \<Rightarrow> str \<Rightarrow> str" where
  "shell_folder env stored user nm default_name =
     (case map_option (expand_for env user) (stored nm) of
        Some path \<Rightarrow> if trim path \<noteq> [] \<and> CHR ''%'' \<notin> set path then path else user_folder user default_name
      | None \<Rightarrow> user_folder user default_name)"

definition sweep_folders :: "environment \<Rightarrow> (str \<Rightarrow> str option) \<Rightarrow> user_context \<Rightarrow> (str \<times> sweep_policy) list" where
  "sweep_folders env stored user =
     (if uc_profile user = [] then []
      else [(shell_folder env stored user DOWNLOADS_VALUE ''Downloads'', SweepEverything),
            (shell_folder env stored user ''Desktop'' ''Desktop'', SweepEverything),
            (user_temp user, SweepOutside), (path_join (local_app_data user) ''Programs'', SweepOutside)])"

text \<open>
  An item of a folder: an error that ends its listing, a link, something whose kind is not known, a file and whether
  its contents are stored elsewhere, a folder with its own listing and a folder that will not open.
\<close>

datatype walk_item =
    WalkBroken io_error
  | WalkLink str
  | WalkOdd str
  | WalkFile str bool
  | WalkFolder str "walk_item list"
  | WalkClosed str io_error

record walked_files =
  wk_found :: "str list"
  wk_unread :: nat
  wk_first :: "str option"
  wk_capped :: bool
  wk_online :: nat

definition nothing_walked :: walked_files where
  "nothing_walked = \<lparr>wk_found = [], wk_unread = 0, wk_first = None, wk_capped = False, wk_online = 0\<rparr>"

definition note_unread :: "str \<Rightarrow> io_error \<Rightarrow> walked_files \<Rightarrow> walked_files" where
  "note_unread folder e w =
     w\<lparr>wk_unread := wk_unread w + 1,
       wk_first := (case wk_first w of Some first \<Rightarrow> Some first | None \<Rightarrow> Some (folder @ '' ('' @ io_error_text e @ '')''))\<rparr>"

definition note_closed :: "str \<Rightarrow> io_error \<Rightarrow> walked_files \<Rightarrow> walked_files" where
  "note_closed folder e w = (if io_error_kind e = NotFound then w else note_unread folder e w)"

definition walk_file :: "(str \<Rightarrow> str) \<Rightarrow> str \<Rightarrow> bool \<Rightarrow> walked_files \<Rightarrow> walked_files" where
  "walk_file lower path online w =
     (if is_executable lower path \<and> online then w\<lparr>wk_online := wk_online w + 1\<rparr>
      else if is_executable lower path then w\<lparr>wk_found := wk_found w @ [path]\<rparr>
      else w)"

text \<open>
  The loop over a folder's items. A folder below the last level is not gone into. Whether the cap is met is asked for each
  item, so it need not be asked again on going into one.
\<close>

fun sweep_items :: "(str \<Rightarrow> str) \<Rightarrow> nat \<Rightarrow> str \<Rightarrow> walk_item list \<Rightarrow> walked_files \<Rightarrow> walked_files" where
  "sweep_items lower depth folder [] w = w"
| "sweep_items lower depth folder (item # rest) w =
     (if MAX_LOOSE_CANDIDATES \<le> length (wk_found w) then w\<lparr>wk_capped := True\<rparr>
      else case item of
             WalkBroken e \<Rightarrow> note_unread folder e w
           | WalkLink nm \<Rightarrow> sweep_items lower depth folder rest w
           | WalkOdd nm \<Rightarrow> sweep_items lower depth folder rest w
           | WalkFile nm online \<Rightarrow> sweep_items lower depth folder rest (walk_file lower (path_join folder nm) online w)
           | WalkFolder nm inner \<Rightarrow>
               sweep_items lower depth folder rest
                 (if MAX_DEPTH < depth + 1 then w
                  else sweep_items lower (depth + 1) (path_join folder nm) inner w)
           | WalkClosed nm e \<Rightarrow>
               sweep_items lower depth folder rest
                 (if MAX_DEPTH < depth + 1 then w else note_closed (path_join folder nm) e w))"

definition sweep_folder ::
  "(str \<Rightarrow> str) \<Rightarrow> str \<Rightarrow> io_error + walk_item list \<Rightarrow> str list option \<times> str list" where
  "sweep_folder lower folder answer =
     (case answer of
        Inl e \<Rightarrow>
          (None, if io_error_kind e = NotFound then []
                 else [folder @ '' could not be read ('' @ io_error_text e @ ''), so programs in it were not examined.''])
      | Inr items \<Rightarrow>
          (let w = sweep_items lower 0 folder items nothing_walked
           in (Some (wk_found w),
               (if 0 < wk_unread w
                then [show_nat (wk_unread w) @ '' folder(s) inside '' @ folder
                        @ '' could not be read, so programs in them were not examined. The first was ''
                        @ unwrap_or [] (wk_first w) @ ''.''] else [])
               @ (if 0 < wk_online w
                  then [show_nat (wk_online w) @ '' program(s) in '' @ folder
                          @ '' are stored only online, and examining them would download them, so they were not examined.'']
                  else [])
               @ (if wk_capped w
                  then [''The sweep of '' @ folder @ '' stopped after '' @ show_nat MAX_LOOSE_CANDIDATES
                          @ '' programs, so any beyond those were not examined.''] else []))))"

section \<open>The survey\<close>

text \<open>The places at which the survey asks whether it is to stop.\<close>

datatype stop_point = AfterStartup | AfterFolder nat | BeforeExamining | AtFile nat | AtEnd

record prov_job =
  jb_stopped :: "stop_point \<Rightarrow> bool"
  jb_threads :: nat
  jb_stored :: "str \<Rightarrow> str option"
  jb_listing :: "str \<Rightarrow> io_error + walk_item list"

definition anchored_programs :: "(str \<Rightarrow> str) \<Rightarrow> start_entry list \<Rightarrow> (str \<times> start_entry list) list" where
  "anchored_programs lower es =
     (let key = (\<lambda>e. map_option (prov_canonical lower) (entry_target e))
      in map (\<lambda>k. let mine = filter (\<lambda>e. key e = Some k) es in (the (entry_target (hd mine)), mine))
           (sort (remdups (List.map_filter key es))))"

definition loose_candidates ::
  "prov_system \<Rightarrow> str set \<Rightarrow> (str \<times> sweep_policy) list \<Rightarrow> (str \<times> start_entry list) list" where
  "loose_candidates pv known loose =
     map (\<lambda>(path, policy). (path, []))
       (filter (\<lambda>(path, policy). prov_canonical (pv_lower pv) path \<notin> known
          \<and> (policy = SweepEverything \<or> origin_of (pv_lossy pv) (pv_streams pv) path \<noteq> None)) loose)"

text \<open>The batches of the threads: each takes its files until the stop is seen.\<close>

definition examine_batch ::
  "prov_system \<Rightarrow> prov_job \<Rightarrow> user_context \<Rightarrow> (nat \<times> str \<times> start_entry list) list \<Rightarrow> (str + prov_finding) list" where
  "examine_batch pv jb user batch =
     map (\<lambda>(i, c). examine pv user c) (takeWhile (\<lambda>(i, c). \<not> jb_stopped jb (AtFile i)) batch)"

definition examine_all ::
  "prov_system \<Rightarrow> prov_job \<Rightarrow> user_context \<Rightarrow> (str \<times> start_entry list) list \<Rightarrow> (str + prov_finding) list" where
  "examine_all pv jb user candidates =
     concat (map (examine_batch pv jb user)
       (chunks (chunk_size (length candidates) (jb_threads jb)) (enumerate 0 candidates)))"

definition finding_order :: "(str \<Rightarrow> str) \<Rightarrow> prov_finding \<Rightarrow> nat \<times> int \<times> str" where
  "finding_order lower f = (2 - attention_rank (pf_attention f), - int (pf_bytes f), lower (pf_name f))"

definition sweeps_of :: "prov_system \<Rightarrow> prov_job \<Rightarrow> user_context \<Rightarrow> ((str \<times> sweep_policy) \<times> str list option \<times> str list) list" where
  "sweeps_of pv jb user =
     map (\<lambda>fp. (fp, sweep_folder (pv_lower pv) (fst fp) (jb_listing jb (fst fp))))
       (sweep_folders (mc_env (pv_machine pv)) (jb_stored jb) user)"

definition prov_survey :: "prov_system \<Rightarrow> prov_job \<Rightarrow> user_context \<Rightarrow> prov_report option" where
  "prov_survey pv jb user =
     (let sv = survey_for (pv_survey pv) [user] in
      if jb_stopped jb AfterStartup then None
      else
       (let anchored = anchored_programs (pv_lower pv) (sv_entries sv);
            gaps = map u_what (sv_unreadable sv)
              @ List.map_filter (\<lambda>e. map_option (\<lambda>s. s @ '' It was not examined.'') (unresolved (pv_machine pv) e)) (sv_entries sv);
            sweeps = sweeps_of pv jb user
        in if list_ex (\<lambda>i. jb_stopped jb (AfterFolder i)) [0..<length sweeps] then None
           else
            (let gaps = gaps @ concat (map (\<lambda>s. snd (snd s)) sweeps);
                 swept = List.map_filter (\<lambda>(fp, found, said). map_option (\<lambda>x. fst fp) found) sweeps;
                 loose = concat (map (\<lambda>(fp, found, said). map (\<lambda>path. (path, snd fp)) (unwrap_or [] found)) sweeps);
                 known = (\<lambda>c. prov_canonical (pv_lower pv) (fst c)) ` set anchored;
                 candidates = anchored @ loose_candidates pv known loose
             in if jb_stopped jb BeforeExamining then None
                else
                 (let outcomes = examine_all pv jb user candidates;
                      found = List.map_filter (\<lambda>r. case r of Inr f \<Rightarrow> Some f | Inl e \<Rightarrow> None) outcomes;
                      failed = List.map_filter (\<lambda>r. case r of Inl why \<Rightarrow> Some why | Inr f \<Rightarrow> None) outcomes
                  in if jb_stopped jb AtEnd then None
                     else Some \<lparr>pr_findings = sort_key (finding_order (pv_lower pv)) found, pr_examined = length found,
                            pr_swept_files = length loose,
                            pr_unreadable = gaps @ map (\<lambda>why. why @ '', so it was not examined.'') failed,
                            pr_swept = swept\<rparr>))))"

end
