(* ===== verification/Kam_Provenance_Sound.thy ===== *)
theory Kam_Provenance_Sound
  imports Kam_Provenance Kam_Survey_Complete
begin

text \<open>
  What the judging of programs promises: which evidence can raise a program, that every rank comes with its reasons,
  what a sweep is bounded by, and that whatever starts itself is judged or named as not examined.
\<close>

section \<open>Weighing\<close>

lemma weigh_attention: "pf_attention (weigh f) = (if pf_ours f then AttOrdinary else attention_from_weight (weight_of f))"
  by (simp add: weigh_def)

lemma not_persisting_weight: "\<not> persists f \<Longrightarrow> weight_of f = (case pf_signature f of SigInvalid signer why \<Rightarrow> 4 | _ \<Rightarrow> 0)"
  by (auto simp: weight_of_def evidence_of_def signature_evidence_def origin_evidence_def split: file_signature.split option.split)

text \<open>
  Something that does not start itself is never worth a look, and is noted only when it carries a signature that Windows
  rejects: being unsigned, downloaded or in an open folder is not enough. This program's own files are never ranked.
\<close>

theorem resting_programs_are_ordinary:
  "pf_attention (weigh f) =
     (if pf_ours f then AttOrdinary
      else if persists f then attention_from_weight (weight_of f)
      else case pf_signature f of SigInvalid signer why \<Rightarrow> AttNotable | _ \<Rightarrow> AttOrdinary)"
  by (auto simp: weigh_attention not_persisting_weight attention_from_weight_def split: file_signature.split)

text \<open>
  Nothing that Windows accepts the signature of is put on the short list while it lies in a protected folder and was
  not downloaded, however it starts itself.
\<close>

theorem vouched_for_is_never_unusual:
  assumes "sig_is_valid (pf_signature f)" and "\<not> exposed f" and "\<not> from_outside f"
  shows "pf_attention (weigh f) \<noteq> AttUnusual"
proof -
  have "fst (signature_evidence f) = 0" using assms(1) by (cases "pf_signature f") (simp_all add: signature_evidence_def)
  moreover have "fst (origin_evidence f) = 0" using assms(3) by (simp add: origin_evidence_def split: option.split)
  moreover have "fst (anchor_evidence f) \<le> 2" by (simp add: anchor_evidence_def Let_def split: list.split)
  moreover have "fst (service_evidence f) = 0" using assms(2) by (simp add: service_evidence_def)
  moreover have "fst (hidden_evidence f) = 0" using assms(1,2) by (simp add: hidden_evidence_def)
  moreover have "fst (host_evidence f) = 0" using assms(1,2) by (simp add: host_evidence_def split: list.split)
  moreover have "fst (place_evidence f) = 0" using assms(2) by (simp add: place_evidence_def exposed_def)
  moreover have "fst (arrival_evidence f) \<le> 1" by (simp add: arrival_evidence_def split: option.split)
  ultimately have "weight_of f \<le> 3" by (simp add: weight_of_def evidence_of_def)
  then show ?thesis by (simp add: weigh_attention attention_from_weight_def)
qed

definition sample_found :: "prov_location \<Rightarrow> file_signature \<Rightarrow> prov_finding" where
  "sample_found place sig =
     \<lparr>pf_path = ''x'', pf_name = ''x'', pf_bytes = 0, pf_signature = sig, pf_origin = None, pf_origin_host = None,
      pf_arrived = Some 0,
      pf_persistence = map (\<lambda>a. \<lparr>se_name = ''x'', se_anchor = a, se_location = [], se_command = [], se_executable = None,
        se_payload = None, se_host = None, se_hidden = False, se_machine_wide = False\<rparr>) [RunKey, StartupFolder],
      pf_location = place, pf_attention = AttOrdinary, pf_reasons = [], pf_ours = False\<rparr>"

theorem vouched_for_is_never_unusual_witness:
  "pf_attention (weigh (sample_found InSystem (SigValid ''Acme'' None))) \<noteq> AttUnusual"
  by (rule vouched_for_is_never_unusual) (simp_all add: sample_found_def exposed_def from_outside_def)

text \<open>Every program comes with a sentence about it, and this program's own files say first that they are that.\<close>

theorem every_rank_has_reasons:
  "pf_reasons (weigh f) \<noteq> [] \<and>
   take 1 (drop (if pf_ours f then length (pf_reasons f) else 0) (pf_reasons (weigh f)))
     = (if pf_ours f then [''This is part of KAM Security itself.''] else snd (signature_evidence f))"
proof -
  have "length (snd (signature_evidence f)) = 1"
    by (simp add: signature_evidence_def split: file_signature.split)
  then obtain s where "snd (signature_evidence f) = [s]" by (auto simp: length_Suc_conv)
  then show ?thesis by (simp add: weigh_def own_reasons_def evidence_of_def)
qed

text \<open>
  The weight of lying in a folder any program can write to comes with no sentence: two programs with the same
  reasons can be ranked differently.
\<close>

theorem place_weighs_without_a_reason:
  "pf_reasons (weigh (sample_found InUserWritable SigUnsigned)) = pf_reasons (weigh (sample_found InElsewhere SigUnsigned))
   \<and> weight_of (sample_found InUserWritable SigUnsigned) = weight_of (sample_found InElsewhere SigUnsigned) + 1"
  by (simp add: weigh_def evidence_of_def weight_of_def sample_found_def signature_evidence_def origin_evidence_def persists_def
      exposed_def anchor_evidence_def anchor_names_def service_evidence_def hidden_evidence_def host_evidence_def
      place_evidence_def arrival_evidence_def Let_def)

section \<open>Sweeping\<close>

text \<open>The files of a listing down to a number of levels below it, with whether their contents are elsewhere.\<close>

fun sweep_files :: "nat \<Rightarrow> str \<Rightarrow> walk_item list \<Rightarrow> (str \<times> bool) list" where
  "sweep_files n folder [] = []"
| "sweep_files n folder (WalkFile nm online # rest) = (path_join folder nm, online) # sweep_files n folder rest"
| "sweep_files n folder (WalkFolder nm inner # rest) =
     (if n = 0 then [] else sweep_files (n - 1) (path_join folder nm) inner) @ sweep_files n folder rest"
| "sweep_files n folder (item # rest) = sweep_files n folder rest"

definition programs_in :: "(str \<Rightarrow> str) \<Rightarrow> (str \<times> bool) list \<Rightarrow> str list" where
  "programs_in lower fs = map fst (filter (\<lambda>(path, online). is_executable lower path \<and> \<not> online) fs)"

lemma programs_in_simps [simp]:
  "programs_in lower [] = []"
  "programs_in lower (f # fs) = (if is_executable lower (fst f) \<and> \<not> snd f then [fst f] else []) @ programs_in lower fs"
  "programs_in lower (fs @ gs) = programs_in lower fs @ programs_in lower gs"
  by (simp_all add: programs_in_def case_prod_beta)

lemma walk_file_simps [simp]:
  "wk_capped (walk_file lower path online w) = wk_capped w" "wk_unread (walk_file lower path online w) = wk_unread w"
  "wk_found (walk_file lower path online w) = wk_found w @ programs_in lower [(path, online)]"
  by (simp_all add: walk_file_def)

lemma note_simps [simp]:
  "wk_found (note_unread folder e w) = wk_found w" "wk_capped (note_unread folder e w) = wk_capped w"
  "wk_unread (note_unread folder e w) = wk_unread w + 1"
  "wk_found (note_closed folder e w) = wk_found w" "wk_capped (note_closed folder e w) = wk_capped w"
  "wk_unread w \<le> wk_unread (note_closed folder e w)"
  by (simp_all add: note_unread_def note_closed_def)

text \<open>What a walk has put down stays, and the marks stay.\<close>

lemma sweep_items_grows:
  "prefix (wk_found w) (wk_found (sweep_items lower depth folder items w))
   \<and> (wk_capped w \<longrightarrow> wk_capped (sweep_items lower depth folder items w))
   \<and> wk_unread w \<le> wk_unread (sweep_items lower depth folder items w)"
proof (induction lower depth folder items w rule: sweep_items.induct)
  case (2 lower depth folder item rest w)
  show ?case
  proof (cases "MAX_LOOSE_CANDIDATES \<le> length (wk_found w)")
    case False
    then show ?thesis
      using 2 by (cases item) (auto intro: prefix_order.trans dest: append_prefixD le_trans [OF note_simps(6)] split: if_splits)
  qed simp
qed simp

lemma sweep_items_bounded:
  "length (wk_found w) \<le> MAX_LOOSE_CANDIDATES \<Longrightarrow>
     length (wk_found (sweep_items lower depth folder items w)) \<le> MAX_LOOSE_CANDIDATES"
proof (induction lower depth folder items w rule: sweep_items.induct)
  case (2 lower depth folder item rest w)
  show ?case
  proof (cases "MAX_LOOSE_CANDIDATES \<le> length (wk_found w)")
    case False
    then show ?thesis using 2 by (cases item) auto
  qed (use 2 in simp)
qed simp

lemma sweep_items_sound:
  "depth \<le> MAX_DEPTH \<Longrightarrow> set (wk_found (sweep_items lower depth folder items w))
     \<subseteq> set (wk_found w) \<union> set (programs_in lower (sweep_files (MAX_DEPTH - depth) folder items))"
proof (induction lower depth folder items w rule: sweep_items.induct)
  case (2 lower depth folder item rest w)
  show ?case
  proof (cases "MAX_LOOSE_CANDIDATES \<le> length (wk_found w)")
    case False
    then show ?thesis using 2 by (cases item) (auto simp: Suc_diff_Suc split: if_splits)
  qed simp
qed simp

lemma sweep_items_complete:
  "depth \<le> MAX_DEPTH \<Longrightarrow> \<not> wk_capped (sweep_items lower depth folder items w) \<Longrightarrow>
     wk_unread (sweep_items lower depth folder items w) = wk_unread w \<Longrightarrow>
     wk_found (sweep_items lower depth folder items w)
       = wk_found w @ programs_in lower (sweep_files (MAX_DEPTH - depth) folder items)"
proof (induction lower depth folder items w rule: sweep_items.induct)
  case (2 lower depth folder item rest w)
  have room: "\<not> MAX_LOOSE_CANDIDATES \<le> length (wk_found w)" using "2.prems"(2) by (auto split: if_splits)
  show ?case
  proof (cases item)
    case (WalkBroken e)
    then show ?thesis using "2.prems"(3) room by simp
  next
    case (WalkFolder nm inner)
    define v where "v = (if MAX_DEPTH < depth + 1 then w else sweep_items lower (depth + 1) (path_join folder nm) inner w)"
    have step: "sweep_items lower depth folder (item # rest) w = sweep_items lower depth folder rest v"
      using room by (simp add: WalkFolder v_def)
    have grows: "wk_unread v \<le> wk_unread (sweep_items lower depth folder rest v)"
      "\<not> wk_capped v" "wk_unread w \<le> wk_unread v"
      using sweep_items_grows [where w = v and items = rest and lower = lower and depth = depth and folder = folder]
        sweep_items_grows [where w = w and items = inner and lower = lower and depth = "depth + 1" and folder = "path_join folder nm"]
        "2.prems"(2) unfolding step by (auto simp: v_def split: if_splits)
    have same: "wk_unread v = wk_unread w" using grows "2.prems"(3) unfolding step by linarith
    have inner: "wk_found v = wk_found w
        @ programs_in lower (if MAX_DEPTH - depth = 0 then [] else sweep_files (MAX_DEPTH - depth - 1) (path_join folder nm) inner)"
      using "2.IH"(4) [OF room WalkFolder] grows same by (auto simp: v_def split: if_splits)
    have "wk_found (sweep_items lower depth folder rest v)
        = wk_found v @ programs_in lower (sweep_files (MAX_DEPTH - depth) folder rest)"
      using "2.IH"(5) [OF room WalkFolder] "2.prems" same unfolding step v_def by simp
    then show ?thesis unfolding step inner by (simp add: WalkFolder)
  next
    case (WalkClosed nm e)
    define v where "v = (if MAX_DEPTH < depth + 1 then w else note_closed (path_join folder nm) e w)"
    have step: "sweep_items lower depth folder (item # rest) w = sweep_items lower depth folder rest v"
      using room by (simp add: WalkClosed v_def)
    have "wk_unread v \<le> wk_unread (sweep_items lower depth folder rest v)" using sweep_items_grows by blast
    moreover have "wk_unread w \<le> wk_unread v" by (simp add: v_def)
    ultimately have same: "wk_unread v = wk_unread w" using "2.prems"(3) unfolding step by linarith
    have "wk_found (sweep_items lower depth folder rest v)
        = wk_found v @ programs_in lower (sweep_files (MAX_DEPTH - depth) folder rest)"
      using "2.IH"(6) [OF room WalkClosed] "2.prems" same unfolding step v_def by simp
    then show ?thesis unfolding step by (simp add: WalkClosed v_def)
  qed (use 2 room in auto)
qed simp

text \<open>
  A sweep that says nothing of what it left out found every program there is in the folder, six levels down: it did
  not stop at its cap, every folder opened, and no program's contents were elsewhere.
\<close>

theorem silent_sweep_is_complete:
  assumes "sweep_folder lower folder (Inr items) = (Some found, [])"
  shows "found = programs_in lower (sweep_files 6 folder items)"
  using assms sweep_items_complete [of 0 lower folder items nothing_walked]
  by (auto simp: sweep_folder_def Let_def nothing_walked_def MAX_DEPTH_def split: if_splits)

lemma sample_program: "is_executable ascii_lower (path_join ''d'' ''a.exe'')"
  by code_simp

theorem silent_sweep_is_complete_witness:
  "programs_in ascii_lower (sweep_files 6 ''d'' [WalkFile ''a.exe'' False]) = [path_join ''d'' ''a.exe'']"
  using silent_sweep_is_complete [of ascii_lower "''d''" "[WalkFile ''a.exe'' False]" "[path_join ''d'' ''a.exe'']", symmetric]
  by (simp add: sweep_folder_def nothing_walked_def walk_file_def sample_program MAX_LOOSE_CANDIDATES_def)

text \<open>A sweep takes at most its four thousand programs, each of them a program that lies there, on this machine.\<close>

theorem sweep_is_bounded:
  "length (unwrap_or [] (fst (sweep_folder lower folder (Inr items)))) \<le> 4000
   \<and> set (unwrap_or [] (fst (sweep_folder lower folder (Inr items)))) \<subseteq> set (programs_in lower (sweep_files 6 folder items))"
  using sweep_items_bounded [of nothing_walked lower 0 folder items] sweep_items_sound [of 0 lower folder items nothing_walked]
  by (simp add: sweep_folder_def Let_def nothing_walked_def unwrap_or_def MAX_LOOSE_CANDIDATES_def MAX_DEPTH_def)

text \<open>A program seven levels down is left out without a word.\<close>

primrec nested_folders :: "nat \<Rightarrow> walk_item list" where
  "nested_folders 0 = [WalkFile ''a.exe'' False]"
| "nested_folders (Suc n) = [WalkFolder ''d'' (nested_folders n)]"

theorem deep_programs_are_not_mentioned:
  "sweep_folder lower folder (Inr (nested_folders 7)) = (Some [], [])"
  by (simp add: sweep_folder_def nothing_walked_def eval_nat_numeral MAX_LOOSE_CANDIDATES_def MAX_DEPTH_def)

section \<open>What is judged\<close>

lemma examine_all_unstopped:
  assumes "\<And>i. \<not> jb_stopped jb (AtFile i)"
  shows "examine_all pv jb user candidates = map (examine pv user) candidates"
proof -
  have one: "examine_batch pv jb user batch = map (\<lambda>(i, c). examine pv user c) batch" for batch
  proof -
    have "takeWhile (\<lambda>(i, c). \<not> jb_stopped jb (AtFile i)) batch = batch"
      unfolding takeWhile_eq_all_conv using assms by auto
    then show ?thesis by (simp only: examine_batch_def)
  qed
  have "examine_all pv jb user candidates
      = map (\<lambda>(i, c). examine pv user c) (concat (chunks (chunk_size (length candidates) (jb_threads jb)) (enumerate 0 candidates)))"
    unfolding examine_all_def one by (simp add: map_concat)
  also have "\<dots> = map (examine pv user) (map snd (enumerate 0 candidates))"
    unfolding concat_chunks [OF chunk_size_pos] map_map by (rule map_cong) auto
  finally show ?thesis by simp
qed

text \<open>The programs a survey is about: what starts itself, and what of the swept files is kept.\<close>

definition loose_of :: "prov_system \<Rightarrow> prov_job \<Rightarrow> user_context \<Rightarrow> (str \<times> sweep_policy) list" where
  "loose_of pv jb user =
     concat (map (\<lambda>(fp, found, said). map (\<lambda>path. (path, snd fp)) (unwrap_or [] found)) (sweeps_of pv jb user))"

definition judged_candidates :: "prov_system \<Rightarrow> prov_job \<Rightarrow> user_context \<Rightarrow> (str \<times> start_entry list) list" where
  "judged_candidates pv jb user =
     (let anchored = anchored_programs (pv_lower pv) (sv_entries (survey_for (pv_survey pv) [user]))
      in anchored @ loose_candidates pv ((\<lambda>c. prov_canonical (pv_lower pv) (fst c)) ` set anchored) (loose_of pv jb user))"

lemma kept_by_map_filter: "x \<in> set xs \<Longrightarrow> f x = Some y \<Longrightarrow> y \<in> set (List.map_filter f xs)"
  by (auto simp: set_map_filter)

lemma prov_survey_outcomes:
  assumes "prov_survey pv jb user = Some r" and "\<And>i. jb_stopped jb (AtFile i) \<Longrightarrow> jb_stopped jb AtEnd"
    and "c \<in> set (judged_candidates pv jb user)"
  shows "(\<exists>f \<in> set (pr_findings r). examine pv user c = Inr f)
    \<or> (\<exists>why. examine pv user c = Inl why \<and> why @ '', so it was not examined.'' \<in> set (pr_unreadable r))"
proof -
  have "\<not> jb_stopped jb AtEnd" using assms(1) by (auto simp: prov_survey_def Let_def split: if_splits)
  then have run: "examine_all pv jb user cs = map (examine pv user) cs" for cs
    using assms(2) by (intro examine_all_unstopped) blast
  let ?outcomes = "map (examine pv user) (judged_candidates pv jb user)"
  have "\<exists>gaps. pr_findings r = sort_key (finding_order (pv_lower pv))
        (List.map_filter (\<lambda>r. case r of Inr f \<Rightarrow> Some f | Inl e \<Rightarrow> None) ?outcomes)
      \<and> pr_unreadable r = gaps @ map (\<lambda>why. why @ '', so it was not examined.'')
        (List.map_filter (\<lambda>r. case r of Inl why \<Rightarrow> Some why | Inr f \<Rightarrow> None) ?outcomes)"
    using assms(1) unfolding prov_survey_def Let_def run judged_candidates_def loose_of_def by (auto split: if_splits)
  then obtain gaps where found: "pr_findings r = sort_key (finding_order (pv_lower pv))
        (List.map_filter (\<lambda>r. case r of Inr f \<Rightarrow> Some f | Inl e \<Rightarrow> None) ?outcomes)"
    and failed: "pr_unreadable r = gaps @ map (\<lambda>why. why @ '', so it was not examined.'')
        (List.map_filter (\<lambda>r. case r of Inl why \<Rightarrow> Some why | Inr f \<Rightarrow> None) ?outcomes)" by blast
  have here: "examine pv user c \<in> set ?outcomes" using assms(3) by simp
  show ?thesis
  proof (cases "examine pv user c")
    case (Inl why)
    then have "Inl why \<in> set ?outcomes" using here by simp
    then have "why \<in> set (List.map_filter (\<lambda>r. case r of Inl why \<Rightarrow> Some why | Inr f \<Rightarrow> None) ?outcomes)"
      by (rule kept_by_map_filter) simp
    then show ?thesis using Inl by (simp add: failed)
  next
    case (Inr f)
    then have "Inr f \<in> set ?outcomes" using here by simp
    then have "f \<in> set (List.map_filter (\<lambda>r. case r of Inr f \<Rightarrow> Some f | Inl e \<Rightarrow> None) ?outcomes)"
      by (rule kept_by_map_filter) simp
    then show ?thesis using Inr by (simp add: found)
  qed
qed

lemma weigh_keeps [simp]:
  "pf_path (weigh f) = pf_path f" "pf_persistence (weigh f) = pf_persistence f"
  by (simp_all add: weigh_def)

lemma examine_outcome:
  "examine pv user (path, anchored) = Inr f \<Longrightarrow> pf_path f = path \<and> pf_persistence f = anchored"
  "examine pv user (path, anchored) = Inl why \<Longrightarrow> \<exists>e. pv_metadata pv path = Inl e \<and> why = path @ '' could not be read ('' @ io_error_text e @ '')''"
  by (auto simp: examine_def Let_def split: sum.splits)

lemma anchored_holds:
  assumes "e \<in> set es" and "entry_target e = Some t"
  shows "\<exists>path mine. (path, mine) \<in> set (anchored_programs lower es) \<and> prov_canonical lower path = prov_canonical lower t \<and> e \<in> set mine"
proof -
  let ?key = "\<lambda>e. map_option (prov_canonical lower) (entry_target e)"
  define mine where "mine = filter (\<lambda>d. ?key d = Some (prov_canonical lower t)) es"
  have e: "e \<in> set mine" using assms by (simp add: mine_def)
  then have "hd mine \<in> set mine" by (cases mine) auto
  then obtain p where p: "entry_target (hd mine) = Some p" "prov_canonical lower p = prov_canonical lower t"
    by (auto simp: mine_def)
  have "prov_canonical lower t \<in> set (List.map_filter ?key es)" using assms by (force simp: set_map_filter)
  then have "(the (entry_target (hd mine)), mine) \<in> set (anchored_programs lower es)"
    by (force simp: anchored_programs_def Let_def mine_def)
  then show ?thesis using p e by auto
qed

text \<open>C18: whatever starts itself is accounted for: its program is judged, together with that way of starting, or the report
  says why it was not read, or that what it runs could not be found.
\<close>

theorem everything_that_starts_is_accounted:
  assumes "prov_survey pv jb user = Some r" and "\<And>i. jb_stopped jb (AtFile i) \<Longrightarrow> jb_stopped jb AtEnd"
    and "e \<in> set (sv_entries (survey_for (pv_survey pv) [user]))"
  shows "case entry_target e of
      Some t \<Rightarrow>
        (\<exists>f \<in> set (pr_findings r). prov_canonical (pv_lower pv) (pf_path f) = prov_canonical (pv_lower pv) t
           \<and> e \<in> set (pf_persistence f))
        \<or> (\<exists>path err. prov_canonical (pv_lower pv) path = prov_canonical (pv_lower pv) t \<and> pv_metadata pv path = Inl err
           \<and> path @ '' could not be read ('' @ io_error_text err @ ''), so it was not examined.'' \<in> set (pr_unreadable r))
    | None \<Rightarrow> (\<exists>said. unresolved (pv_machine pv) e = Some said \<and> said @ '' It was not examined.'' \<in> set (pr_unreadable r))"
proof (cases "entry_target e")
  case None
  then obtain said where said: "unresolved (pv_machine pv) e = Some said" by (simp add: unresolved_def)
  then have "said @ '' It was not examined.'' \<in> set (pr_unreadable r)"
    using assms(1,3) by (force simp: prov_survey_def Let_def set_map_filter split: if_splits)
  with None said show ?thesis by simp
next
  case (Some t)
  obtain path mine where c: "(path, mine) \<in> set (judged_candidates pv jb user)" and
    p: "prov_canonical (pv_lower pv) path = prov_canonical (pv_lower pv) t" "e \<in> set mine"
    using anchored_holds [OF assms(3) Some, of "pv_lower pv"] by (auto simp: judged_candidates_def Let_def)
  from prov_survey_outcomes [OF assms(1,2) c] show ?thesis
  proof
    assume "\<exists>f \<in> set (pr_findings r). examine pv user (path, mine) = Inr f"
    with p Some show ?thesis by (auto dest!: examine_outcome(1))
  next
    assume "\<exists>why. examine pv user (path, mine) = Inl why \<and> why @ '', so it was not examined.'' \<in> set (pr_unreadable r)"
    with p Some show ?thesis by (fastforce dest!: examine_outcome(2))
  qed
qed

text \<open>The same for every program a sweep of the Downloads or of the Desktop came upon.\<close>

theorem every_download_is_accounted:
  assumes "prov_survey pv jb user = Some r" and "\<And>i. jb_stopped jb (AtFile i) \<Longrightarrow> jb_stopped jb AtEnd"
    and "(folder, SweepEverything) \<in> set (sweep_folders (mc_env (pv_machine pv)) (jb_stored jb) user)"
    and "sweep_folder (pv_lower pv) folder (jb_listing jb folder) = (Some found, said)" and "t \<in> set found"
  shows "\<exists>path. prov_canonical (pv_lower pv) path = prov_canonical (pv_lower pv) t
    \<and> (path \<in> pf_path ` set (pr_findings r)
       \<or> (\<exists>err. pv_metadata pv path = Inl err
           \<and> path @ '' could not be read ('' @ io_error_text err @ ''), so it was not examined.'' \<in> set (pr_unreadable r)))"
proof -
  let ?anchored = "anchored_programs (pv_lower pv) (sv_entries (survey_for (pv_survey pv) [user]))"
  have loose: "(t, SweepEverything) \<in> set (loose_of pv jb user)"
    using assms(3,4,5) by (force simp: loose_of_def sweeps_of_def unwrap_or_def)
  obtain path mine where c: "(path, mine) \<in> set (judged_candidates pv jb user)"
    and p: "prov_canonical (pv_lower pv) path = prov_canonical (pv_lower pv) t"
  proof (cases "prov_canonical (pv_lower pv) t \<in> (\<lambda>c. prov_canonical (pv_lower pv) (fst c)) ` set ?anchored")
    case True
    then obtain c where "c \<in> set ?anchored" and "prov_canonical (pv_lower pv) t = prov_canonical (pv_lower pv) (fst c)" by blast
    then show ?thesis using that [of "fst c" "snd c"] by (simp add: judged_candidates_def Let_def)
  next
    case False
    then have "(t, []) \<in> set (loose_candidates pv ((\<lambda>c. prov_canonical (pv_lower pv) (fst c)) ` set ?anchored) (loose_of pv jb user))"
      using loose by (force simp: loose_candidates_def)
    then show ?thesis using that [of t "[]"] by (simp add: judged_candidates_def Let_def)
  qed
  from prov_survey_outcomes [OF assms(1,2) c] show ?thesis
    using p by (fastforce dest!: examine_outcome)
qed

section \<open>A machine with a sign-in entry and a download\<close>

definition sample_prov :: prov_system where
  "sample_prov =
     \<lparr>pv_survey = sample_survey, pv_signature = (\<lambda>path. SigUnsigned), pv_lossy = (\<lambda>bs. []), pv_streams = (\<lambda>path. None),
      pv_metadata = (\<lambda>path. Inr (1, None)), pv_directory = None, pv_now = 0\<rparr>"

definition sample_job :: prov_job where
  "sample_job =
     \<lparr>jb_stopped = (\<lambda>p. False), jb_threads = 2, jb_stored = (\<lambda>nm. None),
      jb_listing = (\<lambda>folder. Inr [WalkFile ''a.exe'' False])\<rparr>"

definition sample_person :: user_context where
  "sample_person = \<lparr>uc_sid = None, uc_profile = slashes ''C:/Users/ari''\<rparr>"

lemma sample_job_ends: "\<exists>r. prov_survey sample_prov sample_job sample_person = Some r"
  by (simp add: prov_survey_def Let_def sample_job_def list_ex_iff)

theorem everything_that_starts_is_accounted_witness:
  "\<exists>r e. prov_survey sample_prov sample_job sample_person = Some r
     \<and> e \<in> set (sv_entries (survey_for (pv_survey sample_prov) [sample_person])) \<and> se_name e = ''Updater''
     \<and> (case entry_target e of
          Some t \<Rightarrow> (\<exists>f \<in> set (pr_findings r). prov_canonical (pv_lower sample_prov) (pf_path f) = prov_canonical (pv_lower sample_prov) t)
        | None \<Rightarrow> pr_unreadable r \<noteq> [])"
proof -
  have p: "sample_run_place \<in> set (run_places [sample_person])"
    by (simp add: run_places_def sample_run_place_def user_hive_def RUN_KEYS_def slashes_def)
  have g: "good_place (rp_named sample_run_place)" by code_simp
  have a: "sy_values sample_survey (rp_hive sample_run_place) (rp_path sample_run_place) (rp_view sample_run_place)
      = Inr \<lparr>vs_values = [sample_value], vs_whole = False\<rparr>" by (simp add: sample_survey_def)
  obtain e where e: "e \<in> set (sv_entries (survey_for (pv_survey sample_prov) [sample_person]))" "se_name e = ''Updater''"
    using every_run_value_accounted [OF sample_survey_lower p g a]
    by (auto simp: sample_value_def sample_run_place_def sample_prov_def make_entry_def Let_def)
  obtain r where r: "prov_survey sample_prov sample_job sample_person = Some r" using sample_job_ends by blast
  have latched: "\<And>i. jb_stopped sample_job (AtFile i) \<Longrightarrow> jb_stopped sample_job AtEnd" by (simp add: sample_job_def)
  have read: "pv_metadata sample_prov path \<noteq> Inl err" for path err by (simp add: sample_prov_def)
  from everything_that_starts_is_accounted [OF r latched e(1)] r e show ?thesis
    using read by (fastforce split: option.splits)
qed

theorem every_download_is_accounted_witness:
  "\<exists>r. prov_survey sample_prov sample_job sample_person = Some r \<and> pr_findings r \<noteq> []"
proof -
  obtain r where r: "prov_survey sample_prov sample_job sample_person = Some r" using sample_job_ends by blast
  have latched: "\<And>i. jb_stopped sample_job (AtFile i) \<Longrightarrow> jb_stopped sample_job AtEnd" by (simp add: sample_job_def)
  have folder: "(user_folder sample_person ''Downloads'', SweepEverything)
      \<in> set (sweep_folders (mc_env (pv_machine sample_prov)) (jb_stored sample_job) sample_person)"
    by (simp add: sweep_folders_def shell_folder_def sample_job_def sample_person_def slashes_def)
  have low: "pv_lower sample_prov = ascii_lower"
    by (simp add: pv_lower_def pv_machine_def sample_prov_def sy_machine_def sample_survey_def sample_tasks_def sample_machine_def)
  have program: "is_executable ascii_lower (path_join (user_folder sample_person ''Downloads'') ''a.exe'')" by code_simp
  have swept: "sweep_folder (pv_lower sample_prov) (user_folder sample_person ''Downloads'')
      (jb_listing sample_job (user_folder sample_person ''Downloads''))
      = (Some [path_join (user_folder sample_person ''Downloads'') ''a.exe''], [])"
    by (simp add: low sweep_folder_def sample_job_def nothing_walked_def walk_file_def program MAX_LOOSE_CANDIDATES_def)
  have read: "pv_metadata sample_prov path \<noteq> Inl err" for path err by (simp add: sample_prov_def)
  from every_download_is_accounted [OF r latched folder swept, where t = "path_join (user_folder sample_person ''Downloads'') ''a.exe''"]
  show ?thesis using r read by auto
qed

end
