(* ===== verification/Kam_Version.thy ===== *)
theory Kam_Version
  imports Kam_Env
begin

text \<open>
  What a program says about itself, \<open>crates/kam-core/src/version.rs\<close>. The version block of a file and what
  \<open>VerQueryValueW\<close> answers about it are parameters: a place relative to the start of the block, which may be outside of
  it, and a length, neither of which is trusted.
\<close>

section \<open>Claims\<close>

record claims =
  cl_description :: "str option"
  cl_product :: "str option"
  cl_company :: "str option"

definition claims_empty :: "claims \<Rightarrow> bool" where
  "claims_empty c \<longleftrightarrow> cl_description c = None \<and> cl_product c = None \<and> cl_company c = None"

definition claims_best :: "claims \<Rightarrow> str option" where
  "claims_best c =
     (case (case cl_description c of Some t \<Rightarrow> Some t | None \<Rightarrow> cl_product c) of
        Some t \<Rightarrow> if t = [] then None else Some t
      | None \<Rightarrow> None)"

section \<open>Reading the block\<close>

record version_answer =
  qa_found :: bool
  qa_at :: "int option"
  qa_length :: u32

text \<open>How many units of a size can be read at a place; the product of the two cannot overflow 64 bits.\<close>

definition fits :: "bytes \<Rightarrow> int \<Rightarrow> nat \<Rightarrow> nat \<Rightarrow> nat option" where
  "fits block at unit_size n =
     (if at < 0 \<or> int (length block) < at then None
      else if n * unit_size \<le> length block - nat at then Some n else None)"

fun units_at :: "bytes \<Rightarrow> u16 list" where
  "units_at (a # b # rest) = from_le [a, b] # units_at rest"
| "units_at rest = []"

definition is_nul :: "char \<Rightarrow> bool" where "is_nul c \<longleftrightarrow> c = CHR 0x00"

definition string_value :: "bytes \<Rightarrow> (str \<Rightarrow> version_answer) \<Rightarrow> str \<Rightarrow> str \<Rightarrow> str option" where
  "string_value block ask language nm =
     (let answer = ask (slashes ''/StringFileInfo/'' @ language @ [CHR 0x5C] @ nm) in
      if \<not> qa_found answer \<or> qa_length answer = 0 then None
      else (case qa_at answer of
              None \<Rightarrow> None
            | Some at \<Rightarrow>
              (case fits block at 2 (unat (qa_length answer)) of
                 None \<Rightarrow> None
               | Some n \<Rightarrow>
                 (let t = trim (trim_end_matches is_nul (from_utf16_lossy (units_at (take (2 * n) (drop (nat at) block)))))
                  in if t = [] then None else Some t))))"

definition hex_digit :: "nat \<Rightarrow> char" where
  "hex_digit d = (if d < 10 then digit_char d else char_of (87 + d))"

definition hex4 :: "u16 \<Rightarrow> str" where
  "hex4 w = (let n = unat w in map hex_digit [n div 4096, n div 256 mod 16, n div 16 mod 16, n mod 16])"

definition block_language :: "bytes \<Rightarrow> (str \<Rightarrow> version_answer) \<Rightarrow> str" where
  "block_language block ask =
     (let answer = ask (slashes ''/VarFileInfo/Translation'') in
      case qa_at answer of
        Some at \<Rightarrow>
          if qa_found answer \<and> 4 \<le> qa_length answer \<and> fits block at 2 2 \<noteq> None
          then concat (map hex4 (units_at (take 4 (drop (nat at) block))))
          else ''040904b0''
      | None \<Rightarrow> ''040904b0'')"

text \<open>The size the file's resource has, the block when it loads, and the answers about it.\<close>

record version_file =
  vf_size :: u32
  vf_block :: "bytes option"
  vf_ask :: "str \<Rightarrow> version_answer"

definition claims_of :: "version_file \<Rightarrow> claims option" where
  "claims_of vf =
     (if vf_size vf = 0 \<or> 4 * 1024 * 1024 < vf_size vf then None
      else (case vf_block vf of
              None \<Rightarrow> None
            | Some loaded \<Rightarrow>
              (let block = take (unat (vf_size vf)) (loaded @ replicate (unat (vf_size vf)) 0);
                   language = block_language block (vf_ask vf);
                   found = \<lparr>cl_description = string_value block (vf_ask vf) language ''FileDescription'',
                            cl_product = string_value block (vf_ask vf) language ''ProductName'',
                            cl_company = string_value block (vf_ask vf) language ''CompanyName''\<rparr>
               in if claims_empty found then None else Some found)))"

section \<open>Nothing outside the block is read\<close>

text \<open>
  A length and a place are accepted exactly when everything they span lies inside the block, whatever the system
  answered, so what is read does not depend on anything that follows the block in memory.
\<close>

theorem fits_exactly:
  "fits block at unit_size n = Some m \<longleftrightarrow> m = n \<and> 0 \<le> at \<and> at + int (n * unit_size) \<le> int (length block)"
proof -
  have "0 \<le> int (n * unit_size)" by simp
  then show ?thesis unfolding fits_def by (auto simp del: of_nat_mult simp: nat_le_iff le_diff_conv2; linarith)
qed

text \<open>A claim that is kept says something: no field of it is empty text, and its best line is one of its own.\<close>

lemma string_value_nonempty: "string_value block ask language nm \<noteq> Some []"
  by (auto simp: string_value_def Let_def split: option.splits if_splits)

theorem claims_say_something:
  "case claims_of vf of
     None \<Rightarrow> True
   | Some c \<Rightarrow> \<not> claims_empty c \<and> [] \<notin> set_option (cl_description c) \<union> set_option (cl_product c) \<union> set_option (cl_company c)
       \<and> claims_best c = (if cl_description c = None then cl_product c else cl_description c)"
  by (auto simp: claims_of_def claims_best_def string_value_nonempty Let_def split: option.split if_splits)

end
