(* ===== verification/Kam_Connections.thy ===== *)
theory Kam_Connections
  imports Kam_Provenance Kam_Version "HOL-Library.Option_ord"
begin

text \<open>
  Every open socket and the program that owns it, \<open>crates/kam-firewall/src/connections.rs\<close>. The tables are parsed from
  the bytes Windows returns; the calls for them, the image of a process, the signature and the version resource of a
  file are parameters. An address is judged by its bytes, which parsing its own text gives back.
\<close>

section \<open>Sockets\<close>

datatype socket_state = Listening | Established | Transient | Connectionless

definition state_from_tcp :: "nat \<Rightarrow> socket_state" where
  "state_from_tcp n = (if n = 2 then Listening else if n = 5 then Established else Transient)"

fun state_label :: "socket_state \<Rightarrow> str" where
  "state_label Listening = ''listening''"
| "state_label Established = ''connected''"
| "state_label Transient = ''opening or closing''"
| "state_label Connectionless = ''UDP''"

record connection =
  cn_protocol :: str
  cn_state :: socket_state
  cn_local_address :: str
  cn_local_port :: nat
  cn_remote_address :: "str option"
  cn_remote_port :: "nat option"
  cn_process_id :: nat
  cn_image_path :: "str option"
  cn_name :: "str option"
  cn_description :: "str option"
  cn_company :: "str option"
  cn_signer :: "str option"
  cn_unsigned :: "bool option"
  cn_external :: bool
  cn_ours :: bool

record connection_report =
  cp_connections :: "connection list"
  cp_established :: nat
  cp_listening :: nat
  cp_external :: nat
  cp_programs :: nat
  cp_closing :: nat
  cp_unread :: "str list"

section \<open>Addresses\<close>

text \<open>\<open>u16::from_be\<close> of the low two bytes.\<close>

definition port :: "nat \<Rightarrow> nat" where
  "port raw = (raw mod 256) * 256 + raw div 256 mod 256"

definition ipv4_text :: "bytes \<Rightarrow> str" where
  "ipv4_text octets = join_with ''.'' (map (\<lambda>b. show_nat (unat b)) octets)"

text \<open>The eight segments of an address, in network order.\<close>

fun segments :: "bytes \<Rightarrow> nat list" where
  "segments (a # b # rest) = (unat a * 256 + unat b) # segments rest"
| "segments rest = []"

fun show_hex :: "nat \<Rightarrow> str" where
  "show_hex n = (if n < 16 then [hex_digit n] else show_hex (n div 16) @ [hex_digit (n mod 16)])"

declare show_hex.simps [simp del]

text \<open>The longest run of zero segments, the first of several: its start and its length.\<close>

fun zero_run :: "nat \<Rightarrow> nat list \<Rightarrow> nat \<times> nat \<Rightarrow> nat \<times> nat \<Rightarrow> nat \<times> nat" where
  "zero_run i [] current longest = longest"
| "zero_run i (s # ss) current longest =
     (if s = 0
      then (let current = (if snd current = 0 then i else fst current, snd current + 1)
            in zero_run (i + 1) ss current (if snd longest < snd current then current else longest))
      else zero_run (i + 1) ss (0, 0) longest)"

definition ipv6_text :: "bytes \<Rightarrow> str" where
  "ipv6_text octets =
     (let ss = segments octets in
      if take 6 ss = [0, 0, 0, 0, 0, 0xFFFF] then ''::ffff:'' @ ipv4_text (drop 12 octets)
      else (case zero_run 0 ss (0, 0) (0, 0) of
              (start, len) \<Rightarrow>
                if 1 < len
                then join_with '':'' (map show_hex (take start ss)) @ ''::''
                  @ join_with '':'' (map show_hex (drop (start + len) ss))
                else join_with '':'' (map show_hex ss)))"

text \<open>
  Loopback, private, link-local, broadcast, unspecified and multicast addresses are on this machine or this network.
\<close>

definition is_external_v4 :: "bytes \<Rightarrow> bool" where
  "is_external_v4 octets =
     (case map unat octets of
        [a, b, c, d] \<Rightarrow>
          \<not> (a = 127
             \<or> a = 10 \<or> a = 172 \<and> 16 \<le> b \<and> b \<le> 31 \<or> a = 192 \<and> b = 168
             \<or> a = 169 \<and> b = 254
             \<or> a = 255 \<and> b = 255 \<and> c = 255 \<and> d = 255
             \<or> a = 0 \<and> b = 0 \<and> c = 0 \<and> d = 0
             \<or> 224 \<le> a \<and> a \<le> 239)
      | _ \<Rightarrow> False)"

definition is_external_v6 :: "bytes \<Rightarrow> bool" where
  "is_external_v6 octets =
     (case segments octets of
        s # rest \<Rightarrow>
          \<not> (s # rest = [0, 0, 0, 0, 0, 0, 0, 1]
             \<or> s # rest = [0, 0, 0, 0, 0, 0, 0, 0]
             \<or> s div 256 = 0xFF
             \<or> s div 512 = 0x7E
             \<or> s div 64 = 0x3FA)
      | [] \<Rightarrow> False)"

section \<open>Tables\<close>

definition NO_ERROR :: nat where "NO_ERROR = 0"
definition ERROR_INSUFFICIENT_BUFFER :: nat where "ERROR_INSUFFICIENT_BUFFER = 122"

text \<open>
  A call for a table: the first answers with a code and a size; call \<open>n\<close> with room for a table, with a code, the size
  that is needed and the bytes it put there.
\<close>

record table_api =
  ta_size :: "nat \<times> nat"
  ta_fetch :: "nat \<Rightarrow> nat \<Rightarrow> nat \<times> nat \<times> bytes"

fun table_tries :: "nat \<Rightarrow> table_api \<Rightarrow> nat \<Rightarrow> nat \<Rightarrow> nat + bytes" where
  "table_tries 0 ta n room = Inl ERROR_INSUFFICIENT_BUFFER"
| "table_tries (Suc left) ta n room =
     (case ta_fetch ta n room of
        (outcome, needed, put) \<Rightarrow>
          if outcome = NO_ERROR then Inr (take room (put @ replicate room 0))
          else if outcome \<noteq> ERROR_INSUFFICIENT_BUFFER then Inl outcome
          else table_tries left ta (n + 1) needed)"

definition table_bytes :: "table_api \<Rightarrow> nat + bytes" where
  "table_bytes ta =
     (case ta_size ta of
        (outcome, room) \<Rightarrow>
          if outcome \<noteq> ERROR_INSUFFICIENT_BUFFER \<or> room = 0 then Inl outcome else table_tries 3 ta 0 room)"

definition unread_table :: "str \<Rightarrow> nat \<Rightarrow> str" where
  "unread_table what code =
     what @ '' could not be read (Windows error '' @ show_nat code @ ''), so any connections in it are not shown''"

text \<open>The rows behind the count, as many as it says and never more than were returned.\<close>

definition table_rows :: "nat \<Rightarrow> bytes \<Rightarrow> bytes list" where
  "table_rows row_size bs =
     (if length bs < 4 + row_size then []
      else map (\<lambda>i. take row_size (drop (4 + i * row_size) bs))
             [0..<min (le_nat (take 4 bs)) ((length bs - (4 + row_size) + row_size) div row_size)])"

definition dword_at :: "bytes \<Rightarrow> nat \<Rightarrow> nat" where "dword_at row i = le_nat (take 4 (drop i row))"

definition socket :: "str \<Rightarrow> socket_state \<Rightarrow> str \<Rightarrow> nat \<Rightarrow> nat \<Rightarrow> connection" where
  "socket protocol st address at_port pid =
     \<lparr>cn_protocol = protocol, cn_state = st, cn_local_address = address, cn_local_port = at_port,
      cn_remote_address = None, cn_remote_port = None, cn_process_id = pid, cn_image_path = None, cn_name = None,
      cn_description = None, cn_company = None, cn_signer = None, cn_unsigned = None, cn_external = False, cn_ours = False\<rparr>"

definition with_peer :: "str \<Rightarrow> nat \<Rightarrow> bool \<Rightarrow> connection \<Rightarrow> connection" where
  "with_peer address at_port outside c =
     (if cn_state c = Listening then c
      else c\<lparr>cn_remote_address := Some address, cn_remote_port := Some at_port, cn_external := outside\<rparr>)"

text \<open>The rows of the four tables: 24, 56, 12 and 28 bytes.\<close>

definition tcp4_socket :: "bytes \<Rightarrow> connection" where
  "tcp4_socket row =
     with_peer (ipv4_text (take 4 (drop 12 row))) (port (dword_at row 16)) (is_external_v4 (take 4 (drop 12 row)))
       (socket ''TCP'' (state_from_tcp (dword_at row 0)) (ipv4_text (take 4 (drop 4 row))) (port (dword_at row 8))
         (dword_at row 20))"

definition tcp6_socket :: "bytes \<Rightarrow> connection" where
  "tcp6_socket row =
     with_peer (ipv6_text (take 16 (drop 24 row))) (port (dword_at row 44)) (is_external_v6 (take 16 (drop 24 row)))
       (socket ''TCP'' (state_from_tcp (dword_at row 48)) (ipv6_text (take 16 row)) (port (dword_at row 20))
         (dword_at row 52))"

definition udp4_socket :: "bytes \<Rightarrow> connection" where
  "udp4_socket row = socket ''UDP'' Connectionless (ipv4_text (take 4 row)) (port (dword_at row 4)) (dword_at row 8)"

definition udp6_socket :: "bytes \<Rightarrow> connection" where
  "udp6_socket row = socket ''UDP'' Connectionless (ipv6_text (take 16 row)) (port (dword_at row 20)) (dword_at row 24)"

record socket_system =
  so_tcp4 :: table_api
  so_tcp6 :: table_api
  so_udp4 :: table_api
  so_udp6 :: table_api
  so_opens :: "nat \<Rightarrow> bool"
  so_image :: "nat \<Rightarrow> u16 list option"
  so_signature :: "str \<Rightarrow> file_signature"
  so_version :: "str \<Rightarrow> version_file"
  so_lower :: "str \<Rightarrow> str"
  so_directory :: "str option"

definition read_table :: "str \<Rightarrow> nat \<Rightarrow> (bytes \<Rightarrow> connection) \<Rightarrow> table_api \<Rightarrow> connection list \<times> str list" where
  "read_table what row_size socket_of ta =
     (case table_bytes ta of
        Inl code \<Rightarrow> ([], [unread_table what code])
      | Inr bs \<Rightarrow> (map socket_of (table_rows row_size bs), []))"

definition tables :: "socket_system \<Rightarrow> (connection list \<times> str list) list" where
  "tables so =
     [read_table ''The table of TCP connections over IPv4'' 24 tcp4_socket (so_tcp4 so),
      read_table ''The table of TCP connections over IPv6'' 56 tcp6_socket (so_tcp6 so),
      read_table ''The table of UDP ports over IPv4'' 12 udp4_socket (so_udp4 so),
      read_table ''The table of UDP ports over IPv6'' 28 udp6_socket (so_udp6 so)]"

section \<open>Joining\<close>

definition image_of :: "socket_system \<Rightarrow> nat \<Rightarrow> str option" where
  "image_of so pid =
     (if pid = 0 \<or> \<not> so_opens so pid then None
      else (case so_image so pid of
              None \<Rightarrow> None
            | Some units \<Rightarrow> (let path = from_utf16_lossy units in if path = [] then None else Some path)))"

definition joined :: "socket_system \<Rightarrow> connection \<Rightarrow> connection" where
  "joined so c =
     (case image_of so (cn_process_id c) of
        None \<Rightarrow> c
      | Some path \<Rightarrow>
        (let sig = so_signature so path; said = claims_of (so_version so path)
         in c\<lparr>cn_ours := is_our_file (so_lower so) (so_directory so) path, cn_name := file_name path,
              cn_description := Option.bind said claims_best, cn_company := Option.bind said cl_company,
              cn_image_path := Some path, cn_signer := signer_of sig, cn_unsigned := Some (\<not> sig_is_valid sig)\<rparr>))"

definition connection_order :: "connection \<Rightarrow> bool \<times> bool \<times> bool \<times> str option \<times> nat" where
  "connection_order c =
     (\<not> cn_external c, cn_unsigned c \<noteq> Some True, cn_state c \<noteq> Established, cn_name c, cn_local_port c)"

definition survey_connections :: "socket_system \<Rightarrow> connection_report" where
  "survey_connections so =
     (let read = tables so;
          everything = map (joined so) (concat (map fst read));
          found = sort_key connection_order (filter (\<lambda>c. cn_process_id c \<noteq> 0) everything)
      in \<lparr>cp_connections = found,
          cp_established = length (filter (\<lambda>c. cn_state c = Established) found),
          cp_listening = length (filter (\<lambda>c. cn_state c = Listening) found),
          cp_external = length (filter cn_external found),
          cp_programs = length (remdups (List.map_filter cn_image_path found)),
          cp_closing = length (filter (\<lambda>c. cn_process_id c = 0) everything),
          cp_unread = concat (map snd read)\<rparr>)"

section \<open>The rows\<close>

lemma concat_slices: "concat (map (\<lambda>i. take k (drop (i * k) xs)) [0..<n]) = take (n * k) xs"
proof (induction n)
  case (Suc n)
  have "take (n * k) xs @ take k (drop (n * k) xs) = take (n * k + k) xs" by (simp add: take_add)
  with Suc show ?case by (simp add: add.commute)
qed simp

text \<open>
  A table is parsed inside what Windows returned, whatever the count in it says: the rows are one behind the other from
  the count on, each of the size of a row.
\<close>

theorem rows_stay_inside:
  "concat (table_rows row_size bs) = take (length (table_rows row_size bs) * row_size) (drop 4 bs)
   \<and> map length (table_rows row_size bs) = replicate (length (table_rows row_size bs)) row_size
   \<and> length (table_rows row_size bs) \<le> le_nat (take 4 bs)"
proof (cases "length bs < 4 + row_size")
  case False
  define n where "n = min (le_nat (take 4 bs)) ((length bs - (4 + row_size) + row_size) div row_size)"
  have rows: "table_rows row_size bs = map (\<lambda>i. take row_size (drop (i * row_size) (drop 4 bs))) [0..<n]"
    using False by (simp add: table_rows_def n_def add.commute)
  have room: "n * row_size \<le> length bs - 4"
  proof -
    have "n * row_size \<le> (length bs - 4) div row_size * row_size" using False by (intro mult_right_mono) (auto simp: n_def)
    also have "\<dots> \<le> length bs - 4" by (rule div_times_less_eq_dividend)
    finally show ?thesis .
  qed
  have "length (take row_size (drop (i * row_size) (drop 4 bs))) = row_size" if "i < n" for i
  proof -
    have "(i + 1) * row_size \<le> n * row_size" using that by (intro mult_right_mono) auto
    then show ?thesis using room by simp
  qed
  then have "map length (table_rows row_size bs) = replicate n row_size"
    unfolding rows by (intro replicate_eqI) auto
  then show ?thesis unfolding rows concat_slices by (simp add: n_def)
qed (simp add: table_rows_def)

lemma port_parts: "h < 256 \<Longrightarrow> l < 256 \<Longrightarrow> m = l + 256 * r \<Longrightarrow> port (h + 256 * m) = h * 256 + l"
proof -
  assume h: "h < 256" and l: "l < 256" and m: "m = l + 256 * r"
  have "(h + 256 * m) mod 256 = h" "(h + 256 * m) div 256 = m" using h by simp_all
  moreover have "m mod 256 = l" using l by (simp add: m)
  ultimately show ?thesis by (simp only: port_def)
qed

text \<open>A port is read in network order: the first byte of the two is the high one.\<close>

theorem port_in_network_order: "port (le_nat [hi, lo, x, y]) = unat hi * 256 + unat lo"
proof -
  have "le_nat [hi, lo, x, y] = unat hi + 256 * (unat lo + 256 * le_nat [x, y])" by simp
  moreover have "unat hi < 256" "unat lo < 256" using unat_bound [of hi] unat_bound [of lo] by simp_all
  ultimately show ?thesis using port_parts [OF _ _ refl, of "unat hi" "unat lo" "le_nat [x, y]"] by (simp only:)
qed

section \<open>The report\<close>

definition everything :: "socket_system \<Rightarrow> connection list" where
  "everything so = map (joined so) (concat (map fst (tables so)))"

lemma report_parts:
  "cp_connections (survey_connections so) = sort_key connection_order (filter (\<lambda>c. cn_process_id c \<noteq> 0) (everything so))"
  "cp_closing (survey_connections so) = length (filter (\<lambda>c. cn_process_id c = 0) (everything so))"
  "cp_external (survey_connections so) = length (filter cn_external (cp_connections (survey_connections so)))"
  "cp_unread (survey_connections so) = concat (map snd (tables so))"
  unfolding survey_connections_def Let_def everything_def by (simp_all only: connection_report.simps)

lemma report_counts:
  "cp_established (survey_connections so) = length (filter (\<lambda>c. cn_state c = Established) (cp_connections (survey_connections so)))"
  "cp_listening (survey_connections so) = length (filter (\<lambda>c. cn_state c = Listening) (cp_connections (survey_connections so)))"
  "cp_programs (survey_connections so) = length (remdups (List.map_filter cn_image_path (cp_connections (survey_connections so))))"
  unfolding survey_connections_def Let_def by (simp_all only: connection_report.simps)

lemma joined_process [simp]: "cn_process_id (joined so c) = cn_process_id c"
  by (simp add: joined_def Let_def split: option.split)

text \<open>What a table that was not read leaves behind: one sentence, with its name and the code.\<close>

definition gap_sentences :: "socket_system \<Rightarrow> str list" where
  "gap_sentences so =
     concat (map (\<lambda>(what, ta). case table_bytes ta of Inl code \<Rightarrow> [unread_table what code] | Inr bs \<Rightarrow> [])
       [(''The table of TCP connections over IPv4'', so_tcp4 so), (''The table of TCP connections over IPv6'', so_tcp6 so),
        (''The table of UDP ports over IPv4'', so_udp4 so), (''The table of UDP ports over IPv6'', so_udp6 so)])"

lemma unread_sentences: "concat (map snd (tables so)) = gap_sentences so"
  by (simp add: tables_def gap_sentences_def read_table_def split: sum.split)

lemma distinct_paths: "set (List.map_filter cn_image_path cs) = {path. \<exists>c \<in> set cs. cn_image_path c = Some path}"
  by (induction cs) (auto simp: List.map_filter_simps split: option.splits)

text \<open>C31: no socket that was read is lost and the numbers of the report are the numbers of its list. The list holds, each
  once, exactly the rows of the four tables that a process owns, joined with its program; the other rows are counted as
  closing; the connected, the listening and the external are those of the list, the programs the different image paths
  in it; and the sentences are those of the tables that were not read, one each.
\<close>

theorem every_socket_is_counted:
  "mset (cp_connections (survey_connections so))
     = image_mset (joined so) (filter_mset (\<lambda>c. cn_process_id c \<noteq> 0) (\<Sum>t \<leftarrow> tables so. mset (fst t)))
   \<and> cp_closing (survey_connections so) = size (filter_mset (\<lambda>c. cn_process_id c = 0) (\<Sum>t \<leftarrow> tables so. mset (fst t)))
   \<and> cp_established (survey_connections so) = length (filter (\<lambda>c. cn_state c = Established) (cp_connections (survey_connections so)))
   \<and> cp_listening (survey_connections so) = length (filter (\<lambda>c. cn_state c = Listening) (cp_connections (survey_connections so)))
   \<and> cp_external (survey_connections so) = length (filter cn_external (cp_connections (survey_connections so)))
   \<and> cp_programs (survey_connections so) = card {path. \<exists>c \<in> set (cp_connections (survey_connections so)). cn_image_path c = Some path}
   \<and> cp_unread (survey_connections so) = gap_sentences so"
proof (intro conjI)
  have rows: "(\<Sum>t \<leftarrow> tables so. mset (fst t)) = mset (concat (map fst (tables so)))"
    by (simp add: mset_concat comp_def)
  show "mset (cp_connections (survey_connections so))
      = image_mset (joined so) (filter_mset (\<lambda>c. cn_process_id c \<noteq> 0) (\<Sum>t \<leftarrow> tables so. mset (fst t)))"
    unfolding rows by (simp only: report_parts(1) everything_def mset_sort filter_map mset_map mset_filter comp_def joined_process)
  show "cp_closing (survey_connections so) = size (filter_mset (\<lambda>c. cn_process_id c = 0) (\<Sum>t \<leftarrow> tables so. mset (fst t)))"
    unfolding rows mset_filter [symmetric] size_mset
    by (simp only: report_parts(2) everything_def filter_map length_map comp_def joined_process)
  show "cp_programs (survey_connections so) = card {path. \<exists>c \<in> set (cp_connections (survey_connections so)). cn_image_path c = Some path}"
    unfolding distinct_paths [symmetric] by (simp only: report_counts length_remdups_card_conv)
qed (simp_all only: report_counts report_parts unread_sentences)

text \<open>What talks to the internet stands first, and of that what is unsigned.\<close>

lemma sorted_lead:
  assumes "sorted (map (\<lambda>c. (\<not> P c, rest c)) cs)"
  shows "takeWhile P cs = filter P cs"
  using assms
proof (induction cs)
  case (Cons c cs)
  then show ?case by (auto simp: filter_empty_conv less_eq_prod_def)
qed simp

theorem internet_sockets_lead:
  "takeWhile cn_external (cp_connections (survey_connections so)) = filter cn_external (cp_connections (survey_connections so))
   \<and> length (takeWhile cn_external (cp_connections (survey_connections so))) = cp_external (survey_connections so)"
proof -
  have "sorted (map connection_order (cp_connections (survey_connections so)))"
    unfolding report_parts by (rule sorted_sort_key)
  then have "takeWhile cn_external (cp_connections (survey_connections so)) = filter cn_external (cp_connections (survey_connections so))"
    unfolding connection_order_def by (rule sorted_lead)
  then show ?thesis by (simp only: report_parts(3))
qed

text \<open>
  What is said of a socket's program is said exactly when the program is known: without its path there is no word on its
  signature, its name or its maker, and a socket that waits for others has no peer.
\<close>

definition well_attributed :: "connection \<Rightarrow> bool" where
  "well_attributed c \<longleftrightarrow>
     (cn_unsigned c = None \<longleftrightarrow> cn_image_path c = None)
     \<and> (cn_image_path c = None \<longrightarrow> cn_name c = None \<and> cn_signer c = None \<and> cn_company c = None \<and> cn_description c = None \<and> \<not> cn_ours c)
     \<and> (cn_state c \<in> {Listening, Connectionless} \<longrightarrow> cn_remote_address c = None \<and> cn_remote_port c = None \<and> \<not> cn_external c)"

lemma socket_attributed: "well_attributed (socket protocol st address at_port pid)"
  by (simp add: well_attributed_def socket_def)

lemma peer_attributed: "cn_state c \<noteq> Connectionless \<Longrightarrow> well_attributed c \<Longrightarrow> well_attributed (with_peer address at_port x c)"
  by (simp add: well_attributed_def with_peer_def)

lemma tcp_state: "cn_state (socket protocol (state_from_tcp n) address at_port pid) \<noteq> Connectionless"
  by (simp add: socket_def state_from_tcp_def)

lemma sockets_attributed:
  "well_attributed (tcp4_socket row)" "well_attributed (tcp6_socket row)"
  "well_attributed (udp4_socket row)" "well_attributed (udp6_socket row)"
  unfolding tcp4_socket_def tcp6_socket_def udp4_socket_def udp6_socket_def
  by (rule peer_attributed tcp_state socket_attributed)+

lemma joined_attributed: "well_attributed c \<Longrightarrow> well_attributed (joined so c)"
  by (simp add: well_attributed_def joined_def Let_def split: option.split)

theorem sockets_are_well_attributed:
  "list_all well_attributed (cp_connections (survey_connections so))"
proof -
  have "list_all well_attributed (fst (read_table what row_size socket_of ta))" if "\<And>row. well_attributed (socket_of row)"
    for what row_size socket_of ta
    using that by (auto simp: read_table_def list_all_iff split: sum.split)
  then have "list_all well_attributed (concat (map fst (tables so)))"
    by (auto simp: tables_def sockets_attributed list_all_append)
  then show ?thesis by (auto simp: report_parts everything_def list_all_iff intro!: joined_attributed)
qed

text \<open>
  A program whose signature could not be checked is reported as unsigned, and the signer of a rejected signature as the
  signer; an IPv4 address inside an IPv6 one is on the internet wherever it is.
\<close>

theorem unchecked_counts_as_unsigned:
  "cn_unsigned (joined so c) =
     (case image_of so (cn_process_id c) of
        None \<Rightarrow> cn_unsigned c
      | Some path \<Rightarrow> Some (case so_signature so path of SigValid signer catalogue \<Rightarrow> False | SigInvalid signer why \<Rightarrow> True
          | SigUnsigned \<Rightarrow> True | SigUnknown why \<Rightarrow> True))"
  by (simp add: joined_def Let_def split: option.split file_signature.split)

lemma mapped_private_address_is_external:
  "is_external_v6 ([0, 0, 0, 0, 0, 0, 0, 0, 0, 0, 0xFF, 0xFF] @ [192, 168, 0, 1])
   \<and> is_external_v6 ([0, 0, 0, 0, 0, 0, 0, 0, 0, 0, 0xFF, 0xFF] @ [127, 0, 0, 1])
   \<and> \<not> is_external_v4 [192, 168, 0, 1] \<and> \<not> is_external_v4 [127, 0, 0, 1]"
  by (simp add: is_external_v6_def is_external_v4_def)

end
