(* ===== verification/Kam_Extensions.thy ===== *)
theory Kam_Extensions
  imports Kam_Commands "HOL-Library.Char_ord" "HOL-Library.List_Lexorder" "HOL-Library.Product_Lexorder"
begin

text \<open>
  What is installed in the browsers and what it may read, \<open>crates/kam-scanner/src/extensions.rs\<close>. Listing a folder,
  reading a file's text, when a folder was made and last changed, and parsing text as JSON are parameters; an object is
  held as the parser's map iterates it, each key once.
\<close>

section \<open>JSON\<close>

datatype json =
    JNull
  | JBool bool
  | JNumber int
  | JText str
  | JArray "json list"
  | JObject "(str \<times> json) list"

fun json_get :: "str \<Rightarrow> json \<Rightarrow> json option" where
  "json_get key (JObject members) = map_of members key"
| "json_get key v = None"

fun json_text :: "json \<Rightarrow> str option" where
  "json_text (JText t) = Some t"
| "json_text v = None"

fun json_array :: "json \<Rightarrow> json list option" where
  "json_array (JArray vs) = Some vs"
| "json_array v = None"

text \<open>The strings of an array, and nothing for anything else.\<close>

definition json_strings :: "json option \<Rightarrow> str list" where
  "json_strings v = (case Option.bind v json_array of None \<Rightarrow> [] | Some items \<Rightarrow> List.map_filter json_text items)"

definition text_at :: "str \<Rightarrow> json \<Rightarrow> str option" where
  "text_at key v = Option.bind (json_get key v) json_text"

section \<open>The catalogue\<close>

definition BROWSERS :: "(str \<times> str) list" where
  "BROWSERS =
     [(''Chrome'', slashes ''Google/Chrome/User Data''), (''Edge'', slashes ''Microsoft/Edge/User Data''),
      (''Brave'', slashes ''BraveSoftware/Brave-Browser/User Data''), (''Vivaldi'', slashes ''Vivaldi/User Data''),
      (''Opera'', slashes ''Programs/Opera/User Data''), (''Chromium'', slashes ''Chromium/User Data'')]"

definition EVERY_SITE :: "str list" where
  "EVERY_SITE = [''<all_urls>'', ''*://*/*'', ''http://*/*'', ''https://*/*'', ''*://*/'']"

definition SENSITIVE :: "(str \<times> str) list" where
  "SENSITIVE =
     [(''webRequest'', ''can watch every request the browser makes''),
      (''webRequestBlocking'', ''can change or block requests as they happen''),
      (''cookies'', ''can read your cookies, which are what keep you signed in''),
      (''debugger'', ''can drive the browser's own debugger, which sees everything''),
      (''proxy'', ''can route your traffic through a server of its choosing''),
      (''history'', ''can read your browsing history''),
      (''downloads'', ''can see and start downloads''),
      (''clipboardRead'', ''can read what you copy''),
      (''nativeMessaging'', ''can talk to a program installed outside the browser''),
      (''management'', ''can enable, disable and remove other extensions''),
      (''privacy'', ''can change your privacy settings''),
      (''scripting'', ''can run its own code on pages''),
      (''tabs'', ''can see the address of every tab'')]"

datatype extension_source = FromStore | Sideloaded

fun source_label :: "extension_source \<Rightarrow> str" where
  "source_label FromStore = ''installed from a store''"
| "source_label Sideloaded = ''not from a store''"

record browser_extension =
  xt_browser :: str
  xt_profile :: str
  xt_id :: str
  xt_name :: str
  xt_version :: str
  xt_description :: str
  xt_permissions :: "str list"
  xt_hosts :: "str list"
  xt_source :: extension_source
  xt_reads_every_page :: bool
  xt_notes :: "str list"
  xt_path :: str
  xt_added_days_ago :: "nat option"

definition extension_worth_reading :: "browser_extension \<Rightarrow> bool" where
  "extension_worth_reading x \<longleftrightarrow> xt_source x = Sideloaded \<or> xt_reads_every_page x \<and> xt_notes x \<noteq> []"

record extension_report =
  xr_extensions :: "browser_extension list"
  xr_examined :: "str list"
  xr_unreadable :: "str list"

section \<open>What Windows answers\<close>

record extension_system =
  es_is_dir :: "str \<Rightarrow> bool"
  es_listing :: "str \<Rightarrow> io_error + str list"
  es_text :: "str \<Rightarrow> io_error + str"
  es_modified :: "str \<Rightarrow> nat option"
  es_created :: "str \<Rightarrow> nat option"
  es_parse :: "str \<Rightarrow> str + json"
  es_lower :: "str \<Rightarrow> str"
  es_now :: nat

definition BYTE_ORDER_MARK :: str where "BYTE_ORDER_MARK = [CHR 0xEF, CHR 0xBB, CHR 0xBF]"

definition read_json :: "extension_system \<Rightarrow> str \<Rightarrow> str + json" where
  "read_json es path =
     (case es_text es path of
        Inl e \<Rightarrow> Inl (io_error_text e)
      | Inr t \<Rightarrow> es_parse es (case strip_prefix BYTE_ORDER_MARK t of Some rest \<Rightarrow> rest | None \<Rightarrow> t))"

definition strip_tail :: "str \<Rightarrow> str \<Rightarrow> str option" where
  "strip_tail tail s = map_option rev (strip_prefix (rev tail) (rev s))"

section \<open>Names\<close>

text \<open>The message of a locale file: the first entry of that name, in any case, that has one with something in it.\<close>

definition message_in :: "str \<Rightarrow> json \<Rightarrow> str option" where
  "message_in key v =
     (case v of
        JObject members \<Rightarrow>
          (case List.map_filter (\<lambda>(nm, entry). if ascii_lower nm = ascii_lower key
                   then Option.bind (text_at ''message'' entry) (\<lambda>m. if trim m \<noteq> [] then Some m else None) else None) members of
             m # rest \<Rightarrow> Some m
           | [] \<Rightarrow> None)
      | _ \<Rightarrow> None)"

definition locale_candidates :: "extension_system \<Rightarrow> str \<Rightarrow> str option \<Rightarrow> str list" where
  "locale_candidates es locales default_locale =
     (case default_locale of Some l \<Rightarrow> [l] | None \<Rightarrow> []) @ [''en'', ''en_US'', ''en_GB'']
     @ (case es_listing es locales of Inr names \<Rightarrow> names | Inl e \<Rightarrow> [])"

definition resolve_name :: "extension_system \<Rightarrow> str \<Rightarrow> str \<Rightarrow> str option \<Rightarrow> str" where
  "resolve_name es version_dir raw default_locale =
     (case Option.bind (strip_prefix ''__MSG_'' raw) (strip_tail ''__'') of
        None \<Rightarrow> raw
      | Some key \<Rightarrow>
        (let locales = path_join version_dir ''_locales'';
             found = List.map_filter
               (\<lambda>l. case read_json es (path_join (path_join locales l) ''messages.json'') of
                      Inl e \<Rightarrow> None
                    | Inr v \<Rightarrow> message_in key v)
               (locale_candidates es locales default_locale)
         in case found of m # rest \<Rightarrow> m | [] \<Rightarrow> raw))"

section \<open>One extension\<close>

definition content_script_sites :: "json \<Rightarrow> str list" where
  "content_script_sites manifest =
     (case Option.bind (json_get ''content_scripts'' manifest) json_array of
        None \<Rightarrow> []
      | Some scripts \<Rightarrow> concat (map (\<lambda>script. json_strings (json_get ''matches'' script)) scripts))"

text \<open>\<open>max_by_key\<close> takes the last of the greatest; a time that cannot be read counts as the earliest.\<close>

fun newest :: "(str \<Rightarrow> nat) \<Rightarrow> str list \<Rightarrow> str option" where
  "newest age [] = None"
| "newest age (x # xs) = (case newest age xs of None \<Rightarrow> Some x | Some y \<Rightarrow> if age x \<le> age y then Some y else Some x)"

definition is_site :: "str \<Rightarrow> bool" where
  "is_site item \<longleftrightarrow> contains item ''://'' \<or> item = ''<all_urls>''"

definition asked_permissions :: "json \<Rightarrow> str list" where
  "asked_permissions manifest =
     json_strings (json_get ''permissions'' manifest) @ json_strings (json_get ''optional_permissions'' manifest)"

definition plain_permissions :: "json \<Rightarrow> str list" where
  "plain_permissions manifest = sort (remdups (filter (\<lambda>i. \<not> is_site i) (asked_permissions manifest)))"

definition host_patterns :: "json \<Rightarrow> str list" where
  "host_patterns manifest =
     sort (remdups (json_strings (json_get ''host_permissions'' manifest)
       @ json_strings (json_get ''optional_host_permissions'' manifest)
       @ filter is_site (asked_permissions manifest) @ content_script_sites manifest))"

definition reads_all :: "str list \<Rightarrow> bool" where
  "reads_all hosts \<longleftrightarrow> list_ex (\<lambda>h. h \<in> set EVERY_SITE) hosts \<or> list_ex (prefix ''*://*'') hosts"

definition extension_notes :: "json \<Rightarrow> str list" where
  "extension_notes manifest =
     (if reads_all (host_patterns manifest)
      then [''It can read and change every page you visit, including pages you are signed in to.''] else [])
     @ map (\<lambda>(permission, meaning). ''It '' @ meaning @ ''.'')
         (filter (\<lambda>(permission, meaning). permission \<in> set (plain_permissions manifest)) SENSITIVE)
     @ (if json_get ''update_url'' manifest = None
        then [''It carries no store update address, so it was loaded from a folder rather than installed from a store.'']
        else [])"

definition age_days :: "extension_system \<Rightarrow> str \<Rightarrow> nat option" where
  "age_days es path = map_option (\<lambda>seconds. (es_now es - seconds) div 86400) (es_created es path)"

definition manifest_extension ::
  "extension_system \<Rightarrow> str \<Rightarrow> str \<Rightarrow> str \<Rightarrow> str \<Rightarrow> str \<Rightarrow> json \<Rightarrow> browser_extension" where
  "manifest_extension es browser profile id_text extension_dir version_dir manifest =
     (let default_locale = text_at ''default_locale'' manifest
      in \<lparr>xt_browser = browser, xt_profile = profile, xt_id = id_text,
          xt_name = resolve_name es version_dir (unwrap_or id_text (text_at ''name'' manifest)) default_locale,
          xt_version = unwrap_or [] (text_at ''version'' manifest),
          xt_description = (case text_at ''description'' manifest of
             Some t \<Rightarrow> resolve_name es version_dir t default_locale | None \<Rightarrow> []),
          xt_permissions = plain_permissions manifest, xt_hosts = host_patterns manifest,
          xt_source = (if json_get ''update_url'' manifest \<noteq> None then FromStore else Sideloaded),
          xt_reads_every_page = reads_all (host_patterns manifest), xt_notes = extension_notes manifest,
          xt_path = version_dir, xt_added_days_ago = age_days es extension_dir\<rparr>)"

definition read_extension ::
  "extension_system \<Rightarrow> str \<Rightarrow> str \<Rightarrow> str \<Rightarrow> str \<Rightarrow> str + browser_extension option" where
  "read_extension es browser profile id_text extension_dir =
     (case es_listing es extension_dir of
        Inl e \<Rightarrow> Inl (''its folder could not be listed ('' @ io_error_text e @ '')'')
      | Inr names \<Rightarrow>
        (case newest (\<lambda>path. unwrap_or 0 (es_modified es path)) (filter (es_is_dir es) (map (path_join extension_dir) names)) of
           None \<Rightarrow> Inr None
         | Some version_dir \<Rightarrow>
           (case read_json es (path_join version_dir ''manifest.json'') of
              Inl why \<Rightarrow> Inl (''its manifest could not be read ('' @ why @ '')'')
            | Inr manifest \<Rightarrow> Inr (Some (manifest_extension es browser profile id_text extension_dir version_dir manifest)))))"

definition is_extension_id :: "str \<Rightarrow> bool" where
  "is_extension_id nm \<longleftrightarrow> length nm = 32 \<and> list_all (\<lambda>c. c \<in> set ''abcdefghijklmnop'') nm"

section \<open>The survey\<close>

text \<open>\<open>{root:?}\<close> of a path: quoted, with its separators doubled.\<close>

definition debug_path :: "str \<Rightarrow> str" where
  "debug_path path =
     [CHR 0x22] @ concat (map (\<lambda>c. if c = CHR 0x5C \<or> c = CHR 0x22 then [CHR 0x5C, c] else [c]) path) @ [CHR 0x22]"

definition add_extension :: "browser_extension \<Rightarrow> extension_report \<Rightarrow> extension_report" where
  "add_extension x r = r\<lparr>xr_extensions := xr_extensions r @ [x]\<rparr>"

definition add_unreadable_extension :: "str \<Rightarrow> extension_report \<Rightarrow> extension_report" where
  "add_unreadable_extension s r = r\<lparr>xr_unreadable := xr_unreadable r @ [s]\<rparr>"

definition look_at_extension :: "extension_system \<Rightarrow> str \<Rightarrow> str \<Rightarrow> str \<Rightarrow> extension_report \<Rightarrow> str \<Rightarrow> extension_report" where
  "look_at_extension es browser profile extensions r id_text =
     (let id_dir = path_join extensions id_text in
      if \<not> es_is_dir es id_dir then r
      else (case read_extension es browser profile id_text id_dir of
              Inr (Some x) \<Rightarrow> add_extension x r
            | Inr None \<Rightarrow> r
            | Inl why \<Rightarrow>
                if \<not> is_extension_id id_text then r
                else add_unreadable_extension (''In '' @ browser @ '' ('' @ profile @ ''), the extension '' @ id_text
                       @ '' could not be read: '' @ why @ ''. What it is allowed to do is not shown.'') r))"

definition look_at_profile :: "extension_system \<Rightarrow> str \<Rightarrow> str \<Rightarrow> extension_report \<Rightarrow> str \<Rightarrow> extension_report" where
  "look_at_profile es browser rt r profile =
     (let profile_dir = path_join rt profile; extensions = path_join profile_dir ''Extensions'' in
      if \<not> es_is_dir es profile_dir then r
      else if profile \<noteq> ''Default'' \<and> \<not> prefix ''Profile '' profile then r
      else if \<not> es_is_dir es extensions then r
      else (let r = r\<lparr>xr_examined := xr_examined r @ [browser @ '' '' @ em_dash @ '' '' @ profile]\<rparr>
            in case es_listing es extensions of
                 Inl e \<Rightarrow> add_unreadable_extension (browser @ '' '' @ em_dash @ '' '' @ profile
                            @ '': the extension folder could not be read'') r
               | Inr ids \<Rightarrow> foldl (look_at_extension es browser profile extensions) r ids))"

definition look_at_browser :: "extension_system \<Rightarrow> user_context \<Rightarrow> extension_report \<Rightarrow> str \<times> str \<Rightarrow> extension_report" where
  "look_at_browser es user r b =
     (case b of (browser, relative) \<Rightarrow>
      (let rt = path_join (local_app_data user) relative in
       if \<not> es_is_dir es rt then r
       else (case es_listing es rt of
               Inl e \<Rightarrow> add_unreadable_extension (browser @ '': '' @ debug_path rt @ '' could not be read ('' @ io_error_text e @ '')'') r
             | Inr profiles \<Rightarrow> foldl (look_at_profile es browser rt) r profiles)))"

definition extension_order :: "(str \<Rightarrow> str) \<Rightarrow> browser_extension \<Rightarrow> bool \<times> str" where
  "extension_order lower x = (\<not> extension_worth_reading x, lower (xt_name x))"

definition survey_extensions :: "extension_system \<Rightarrow> user_context \<Rightarrow> extension_report" where
  "survey_extensions es user =
     (let r = foldl (look_at_browser es user) \<lparr>xr_extensions = [], xr_examined = [], xr_unreadable = []\<rparr> BROWSERS
      in r\<lparr>xr_extensions := sort_key (extension_order (es_lower es)) (xr_extensions r)\<rparr>)"

section \<open>What is said of an extension\<close>

lemma sites_sorted: "set (host_patterns manifest) = set (json_strings (json_get ''host_permissions'' manifest))
    \<union> set (json_strings (json_get ''optional_host_permissions'' manifest))
    \<union> {i \<in> set (asked_permissions manifest). is_site i} \<union> set (content_script_sites manifest)"
  by (auto simp: host_patterns_def)

text \<open>C32: every pattern that covers all pages is seen, wherever the manifest asks for it: among the permissions, required or
  optional, among the host permissions, or as where a script is put into pages.
\<close>

theorem broad_reach_is_never_missed:
  assumes "site \<in> set EVERY_SITE"
    and "site \<in> set (asked_permissions manifest) \<union> set (json_strings (json_get ''host_permissions'' manifest))
      \<union> set (json_strings (json_get ''optional_host_permissions'' manifest)) \<union> set (content_script_sites manifest)"
  shows "xt_reads_every_page (manifest_extension es browser profile id_text extension_dir version_dir manifest)
    \<and> xt_notes (manifest_extension es browser profile id_text extension_dir version_dir manifest) \<noteq> []"
proof -
  have "list_all is_site EVERY_SITE" by code_simp
  then have "is_site site" using assms(1) by (simp add: list_all_iff)
  then have "site \<in> set (host_patterns manifest)" using assms(2) by (auto simp: sites_sorted)
  then have "reads_all (host_patterns manifest)" using assms(1) by (auto simp: reads_all_def list_ex_iff)
  then show ?thesis by (simp add: manifest_extension_def extension_notes_def Let_def)
qed

definition plain_system :: extension_system where
  "plain_system =
     \<lparr>es_is_dir = (\<lambda>path. True), es_listing = (\<lambda>path. Inr []), es_text = (\<lambda>path. Inr []), es_modified = (\<lambda>path. None),
      es_created = (\<lambda>path. None), es_parse = (\<lambda>t. Inr JNull), es_lower = ascii_lower, es_now = 0\<rparr>"

theorem broad_reach_is_never_missed_witness:
  "xt_reads_every_page (manifest_extension plain_system ''Chrome'' ''Default'' ''x'' ''d'' ''v''
     (JObject [(''content_scripts'', JArray [JObject [(''matches'', JArray [JText ''*://*/*''])]])]))"
  using broad_reach_is_never_missed [of "''*://*/*''"
      "JObject [(''content_scripts'', JArray [JObject [(''matches'', JArray [JText ''*://*/*''])]])]"
      plain_system "''Chrome''" "''Default''" "''x''" "''d''" "''v''"]
  by (simp add: EVERY_SITE_def content_script_sites_def json_strings_def List.map_filter_def)

text \<open>
  An extension that came from no store is always among those worth reading, and says why; one from a store is exactly
  when it reads every page.
\<close>

theorem worth_reading_exactly:
  "extension_worth_reading (manifest_extension es browser profile id_text extension_dir version_dir manifest)
     \<longleftrightarrow> json_get ''update_url'' manifest = None \<or> reads_all (host_patterns manifest)"
  by (auto simp: extension_worth_reading_def manifest_extension_def extension_notes_def Let_def)

section \<open>Nothing is left out in silence\<close>

definition report_grows :: "extension_report \<Rightarrow> extension_report \<Rightarrow> bool" where
  "report_grows r s \<longleftrightarrow> set (xr_extensions r) \<subseteq> set (xr_extensions s) \<and> set (xr_unreadable r) \<subseteq> set (xr_unreadable s)
     \<and> set (xr_examined r) \<subseteq> set (xr_examined s)"

lemma report_grows_refl [simp]: "report_grows r r"
  by (simp add: report_grows_def)

lemma report_grows_trans: "report_grows r s \<Longrightarrow> report_grows s t \<Longrightarrow> report_grows r t"
  by (auto simp: report_grows_def)

lemma foldl_grows: "(\<And>r x. report_grows r (f r x)) \<Longrightarrow> report_grows r (foldl f r xs)"
proof (induction xs arbitrary: r)
  case (Cons x xs)
  then show ?case using report_grows_trans [of r "f r x" "foldl f (f r x) xs"] by simp
qed simp

lemma report_reaches:
  assumes "x \<in> set xs" and "\<And>r x. report_grows r (f r x)"
  shows "\<exists>r'. report_grows r r' \<and> report_grows (f r' x) (foldl f r xs)"
  using assms(1)
proof (induction xs arbitrary: r)
  case (Cons y xs)
  show ?case
  proof (cases "x = y")
    case True
    then show ?thesis using foldl_grows [of f "f r y" xs] assms(2) by (intro exI [of _ r]) simp
  next
    case False
    with Cons obtain r' where "report_grows (f r y) r'" "report_grows (f r' x) (foldl f (f r y) xs)" by fastforce
    then show ?thesis using assms(2) report_grows_trans by fastforce
  qed
qed simp

lemma add_grows: "report_grows r (add_extension x r)" "report_grows r (add_unreadable_extension s r)"
  by (auto simp: report_grows_def add_extension_def add_unreadable_extension_def)

lemma look_at_extension_grows: "report_grows r (look_at_extension es browser profile extensions r id_text)"
  by (auto simp: look_at_extension_def Let_def add_grows split: sum.split option.split)

lemma look_at_profile_grows: "report_grows r (look_at_profile es browser rt r profile)"
proof -
  have start: "report_grows r (r\<lparr>xr_examined := xr_examined r @ [what]\<rparr>)" for what by (auto simp: report_grows_def)
  show ?thesis
    unfolding look_at_profile_def Let_def
    by (auto split: sum.split intro: report_grows_trans [OF start add_grows(2)]
        report_grows_trans [OF start foldl_grows [OF look_at_extension_grows]])
qed

lemma look_at_browser_grows: "report_grows r (look_at_browser es user r b)"
  by (auto simp: look_at_browser_def Let_def add_grows foldl_grows [OF look_at_profile_grows] split: prod.split sum.split)

lemma survey_extensions_sets:
  "set (xr_extensions (survey_extensions es user))
     = set (xr_extensions (foldl (look_at_browser es user) \<lparr>xr_extensions = [], xr_examined = [], xr_unreadable = []\<rparr> BROWSERS))"
  "xr_unreadable (survey_extensions es user)
     = xr_unreadable (foldl (look_at_browser es user) \<lparr>xr_extensions = [], xr_examined = [], xr_unreadable = []\<rparr> BROWSERS)"
  by (simp_all add: survey_extensions_def Let_def)

text \<open>
  An extension installed in a profile of one of the browsers, under an identifier of the right shape and with a version
  in its folder, is in the list or named as one that could not be read.
\<close>

theorem installed_extension_is_shown:
  assumes "(browser, relative) \<in> set BROWSERS" and "rt = path_join (local_app_data user) relative" and "es_is_dir es rt"
    and "es_listing es rt = Inr profiles" and "profile \<in> set profiles" and "profile = ''Default'' \<or> prefix ''Profile '' profile"
    and "es_is_dir es (path_join rt profile)" and "extensions = path_join (path_join rt profile) ''Extensions''"
    and "es_is_dir es extensions" and "es_listing es extensions = Inr ids" and "id_text \<in> set ids"
    and "es_is_dir es (path_join extensions id_text)" and "is_extension_id id_text"
    and "read_extension es browser profile id_text (path_join extensions id_text) \<noteq> Inr None"
  shows "(\<exists>x \<in> set (xr_extensions (survey_extensions es user)).
        read_extension es browser profile id_text (path_join extensions id_text) = Inr (Some x))
    \<or> (\<exists>why. read_extension es browser profile id_text (path_join extensions id_text) = Inl why
        \<and> ''In '' @ browser @ '' ('' @ profile @ ''), the extension '' @ id_text @ '' could not be read: '' @ why
            @ ''. What it is allowed to do is not shown.'' \<in> set (xr_unreadable (survey_extensions es user)))"
proof -
  let ?start = "\<lparr>xr_extensions = [], xr_examined = [], xr_unreadable = []\<rparr>"
  let ?last = "foldl (look_at_browser es user) ?start BROWSERS"
  obtain r1 where r1: "report_grows (look_at_browser es user r1 (browser, relative)) ?last"
    using report_reaches [of _ _ "look_at_browser es user", OF assms(1) look_at_browser_grows] by blast
  have browser_step: "look_at_browser es user r1 (browser, relative) = foldl (look_at_profile es browser rt) r1 profiles"
    using assms(2,3,4) by (simp add: look_at_browser_def)
  obtain r2 where r2: "report_grows (look_at_profile es browser rt r2 profile) (foldl (look_at_profile es browser rt) r1 profiles)"
    using report_reaches [of _ _ "look_at_profile es browser rt", OF assms(5) look_at_profile_grows] by blast
  have "look_at_profile es browser rt r2 profile
      = foldl (look_at_extension es browser profile extensions)
          (r2\<lparr>xr_examined := xr_examined r2 @ [browser @ '' '' @ em_dash @ '' '' @ profile]\<rparr>) ids"
    using assms(6,7,9,10) by (auto simp: look_at_profile_def Let_def assms(8) [symmetric])
  then obtain r3 where "report_grows (look_at_extension es browser profile extensions r3 id_text) (look_at_profile es browser rt r2 profile)"
    using report_reaches [of _ _ "look_at_extension es browser profile extensions", OF assms(11) look_at_extension_grows] by metis
  then have step: "report_grows (look_at_extension es browser profile extensions r3 id_text) ?last"
    using r1 r2 unfolding browser_step by (blast intro: report_grows_trans)
  show ?thesis
  proof (cases "read_extension es browser profile id_text (path_join extensions id_text)")
    case (Inl why)
    then show ?thesis
      using step assms(12,13)
      by (auto simp: look_at_extension_def Let_def report_grows_def add_unreadable_extension_def survey_extensions_sets)
  next
    case (Inr found)
    with assms(14) obtain x where "found = Some x" by auto
    with Inr show ?thesis
      using step assms(12) by (auto simp: look_at_extension_def Let_def report_grows_def add_extension_def survey_extensions_sets)
  qed
qed

definition sample_browser :: extension_system where
  "sample_browser = plain_system\<lparr>es_listing := (\<lambda>path. Inr [''Default'', replicate 32 (CHR ''a'')])\<rparr>"

theorem installed_extension_is_shown_witness:
  "xr_extensions (survey_extensions sample_browser \<lparr>uc_sid = None, uc_profile = ''C:''\<rparr>) \<noteq> []"
proof -
  let ?id = "replicate 32 (CHR ''a'')"
  have b: "(''Chrome'', slashes ''Google/Chrome/User Data'') \<in> set BROWSERS" by (simp add: BROWSERS_def)
  have dirs: "es_is_dir sample_browser path" for path by (simp add: sample_browser_def plain_system_def)
  have lists: "es_listing sample_browser path = Inr [''Default'', ?id]" for path by (simp add: sample_browser_def)
  have i: "is_extension_id ?id" by (simp add: is_extension_id_def list_all_iff)
  have parses: "read_json sample_browser path = Inr JNull" for path
    by (simp add: read_json_def sample_browser_def plain_system_def)
  have reads: "\<exists>x. read_extension sample_browser browser profile id_text dir = Inr (Some x)" for browser profile id_text dir
    by (simp add: read_extension_def lists dirs parses split: option.split)
  have p: "''Default'' \<in> set [''Default'', ?id]" "?id \<in> set [''Default'', ?id]" by simp_all
  have shown: "read_extension sample_browser browser profile id_text dir \<noteq> Inr None"
    "read_extension sample_browser browser profile id_text dir \<noteq> Inl why" for browser profile id_text dir why
    using reads [of browser profile id_text dir] by auto
  show ?thesis
    using installed_extension_is_shown [where user = "\<lparr>uc_sid = None, uc_profile = ''C:''\<rparr>", OF b refl dirs lists p(1) disjI1 [OF refl] dirs refl dirs lists p(2) dirs i shown(1)]
      shown(2) by (metis empty_iff list.set(1))
qed

text \<open>A pattern for the pages below one domain is taken for one that covers every page.\<close>

theorem one_domain_counts_as_every_page:
  "reads_all [''*://*.example.com/*''] \<and> ''*://*.example.com/*'' \<notin> set EVERY_SITE"
  by (simp add: reads_all_def EVERY_SITE_def)

end
