(* ===== verification/Kam_Ipc.thy ===== *)
theory Kam_Ipc
  imports Kam_Check Kam_Hardening Kam_Provenance Kam_Connections Kam_Extensions Kam_Canary Kam_Watch Kam_Caches Kam_Organise
    Kam_Schedule Kam_Defender_Scan Kam_Remnants Kam_Duplicates_Find Kam_Fence Kam_Quarantine Kam_Scan Kam_Firewall Kam_Downloads
begin

text \<open>
  \<open>kam-ipc/src/lib.rs\<close> and the parts of \<open>kam-agent/src/dispatch.rs\<close> that every handler uses: the requests and
  the responses with the source's constructors, sizes as people read them, the state of the agent, its audit log and
  its running jobs. The state holds everything a request can change on the machine: the store, the files and the
  registry keys of the decoys, the firewall policy, the folder of scheduled tasks, the audit policy, the registry that
  Defender's settings live in, the watcher's log and the jobs.
\<close>

section \<open>The protocol\<close>

definition PROTOCOL_VERSION :: nat where "PROTOCOL_VERSION = 20"

definition MAX_PIPE_INSTANCES :: nat where "MAX_PIPE_INSTANCES = 16"

definition MAX_AUDIT_ROWS :: nat where "MAX_AUDIT_ROWS = 500"

datatype request =
    GetSystemStatus
  | GetRecentAudit nat
  | ListVolumes
  | ScanPath str
  | ListApplications str
  | QuarantinePath str str
  | ListQuarantine
  | RestoreQuarantined str
  | DeleteQuarantined str
  | EmptyQuarantine
  | SweepForChanges
  | RecordLookup str str
  | DefenderScan scan_kind str
  | RecordRecycle str bool
  | GetSchedule
  | SetSchedule bool str u8
  | RunCheck
  | SurveyCaches
  | ClearCache str
  | QuarantineCopy str str bool
  | FindDuplicates str str
  | FindOrganiseProposals str
  | ApplyMove str str
  | UndoMove str
  | ListMoves
  | FindRemnants str "str list" "location_kind list"
  | GetFirewall
  | GetConnections
  | BlockProgram str
  | UnblockProgram str
  | CancelJob str
  | GetDefenderStatus
  | GetDefenderThreats
  | SurveyProvenance str
  | NoteUninstallLaunched str str
  | GetBehaviourEvents
  | GetExtensions
  | GetHardening
  | SetHardening str wanted_mode
  | GetCanaries
  | SetCanaries bool
  | SetCanaryAuditing bool
  | GetProtection
  | SetProtection bool

record system_status =
  ss_protocol_version :: nat
  ss_agent_version :: str
  ss_running_as_service :: bool
  ss_hostname :: str

record check_finding =
  cf_summary :: str
  cf_serious :: bool

datatype response =
    RSystemStatus system_status
  | RRecentAudit "audit_record list"
  | RVolumes "drive_volume list"
  | RScan scan_result
  | RApplications storage_report
  | RDuplicates "duplicate_group list" duplicate_summary
  | RSchedule schedule
  | RChecked "check_finding list"
  | RCaches "cache_entry list"
  | RCacheCleared cleared
  | ROrganise "proposal list" organise_summary
  | RMoved move_record
  | RDefender defender_status "str list"
  | RDefenderThreats "threat list"
  | RProvenance prov_report
  | RRemnants remnants
  | RFirewall firewall_report
  | RConnections connection_report
  | RBlocked str
  | RStopped
  | RMoves "move_record list"
  | RQuarantined manifest
  | RDeleted nat u64 "str list"
  | RDefenderScanned scan_outcome
  | RChanges sweep_result
  | RAcknowledged
  | RQuarantineList "manifest list"
  | RBehaviourEvents "observation list" bool "str option"
  | RExtensions extension_report
  | RCanaries canary_report
  | RProtection bool
  | RHardening hardening_report
  | RError str

section \<open>Sizes as people read them\<close>

text \<open>
  The conversion to a double keeps 53 bits and rounds the rest to even; divisions by 1024 are exact, and one decimal
  is shown, a tie going to the even digit.
\<close>

definition round_even :: "nat \<Rightarrow> nat \<Rightarrow> nat" where
  "round_even n d =
     (let q = n div d; r = n mod d in if 2 * r < d \<or> 2 * r = d \<and> even q then q else q + 1)"

fun spare_bits :: "nat \<Rightarrow> nat" where
  "spare_bits n = (if n < 2 ^ 53 then 0 else Suc (spare_bits (n div 2)))"

definition double_of :: "nat \<Rightarrow> nat" where
  "double_of n = (let s = spare_bits n in round_even n (2 ^ s) * 2 ^ s)"

definition UNITS :: "str list" where "UNITS = [''B'', ''KB'', ''MB'', ''GB'', ''TB'']"

definition unit_of :: "nat \<Rightarrow> nat" where
  "unit_of v = length (takeWhile (\<lambda>u. 1024 ^ u \<le> v) [1..<length UNITS])"

definition human_bytes :: "nat \<Rightarrow> str" where
  "human_bytes n =
     (let v = double_of n; u = unit_of v in
      if u = 0 then show_nat n @ '' B''
      else (let tenths = round_even (v * 10) (1024 ^ u)
            in show_nat (tenths div 10) @ ''.'' @ show_nat (tenths mod 10) @ '' '' @ UNITS ! u))"

section \<open>The state of the agent\<close>

record agent =
  ag_db :: db
  ag_world :: canary_world
  ag_firewall :: firewall
  ag_tasks :: task_folder
  ag_policy :: "nat list"
  ag_keys :: machine_keys
  ag_watch :: watch_log
  ag_jobs :: "(str \<times> nat) list"
  ag_stopped :: "nat list"

abbreviation ag_fs :: "agent \<Rightarrow> file_system" where "ag_fs a \<equiv> cw_fs (ag_world a)"

definition with_fs :: "file_system \<Rightarrow> agent \<Rightarrow> agent" where
  "with_fs fs a = a\<lparr>ag_world := (ag_world a)\<lparr>cw_fs := fs\<rparr>\<rparr>"

section \<open>The audit log\<close>

definition audit_with_token :: "audit_sink \<Rightarrow> str \<Rightarrow> str \<Rightarrow> effect \<Rightarrow> str \<Rightarrow> str option \<Rightarrow> agent \<Rightarrow> agent" where
  "audit_with_token ax md ac ef detail token a =
     a\<lparr>ag_db := server_record ax \<lparr>e_module = md, e_action = ac, e_effect = ef, e_detail = detail, e_undo_token = token\<rparr> (ag_db a)\<rparr>"

definition audit_note :: "audit_sink \<Rightarrow> str \<Rightarrow> str \<Rightarrow> effect \<Rightarrow> str \<Rightarrow> agent \<Rightarrow> agent" where
  "audit_note ax md ac ef detail a = audit_with_token ax md ac ef detail None a"

section \<open>Running jobs\<close>

text \<open>
  A job is named by the caller, and its token is the flag its reporter watches. Inserting replaces the token of
  another job of the same name.
\<close>

definition register_job :: "str \<Rightarrow> nat \<Rightarrow> agent \<Rightarrow> agent" where
  "register_job job token a = a\<lparr>ag_jobs := (job, token) # filter (\<lambda>(j, t). j \<noteq> job) (ag_jobs a)\<rparr>"

definition finish_job :: "str \<Rightarrow> agent \<Rightarrow> agent" where
  "finish_job job a = a\<lparr>ag_jobs := filter (\<lambda>(j, t). j \<noteq> job) (ag_jobs a)\<rparr>"

definition stop_job :: "str \<Rightarrow> agent \<Rightarrow> bool \<times> agent" where
  "stop_job job a =
     (case map_of (ag_jobs a) job of
        Some token \<Rightarrow> (True, a\<lparr>ag_stopped := token # ag_stopped a\<rparr>)
      | None \<Rightarrow> (False, a))"

section \<open>The audit policy of Windows\<close>

text \<open>
  \<open>kam-canary/src/audit.rs\<close>. The policy is the setting of the two subcategories, and bit 0 is the recording of
  successes. Whether the privilege is granted, the query answers and the change is taken is up to Windows.
\<close>

record policy_access =
  pa_privilege :: "kam_error option"
  pa_answers :: bool
  pa_takes :: bool

definition auditing_enabled :: "policy_access \<Rightarrow> nat list \<Rightarrow> bool" where
  "auditing_enabled pa policy \<longleftrightarrow> pa_privilege pa = None \<and> pa_answers pa \<and> list_all odd policy"

definition AUDIT_SUCCESS :: nat where "AUDIT_SUCCESS = 1"

definition AUDIT_NONE :: nat where "AUDIT_NONE = 4"

definition set_auditing :: "policy_access \<Rightarrow> bool \<Rightarrow> nat list \<Rightarrow> (kam_error + unit) \<times> nat list" where
  "set_auditing pa on policy =
     (case pa_privilege pa of
        Some e \<Rightarrow> (Inl e, policy)
      | None \<Rightarrow>
          if \<not> pa_takes pa
          then (Inl (Privileged ''Windows refused to change the audit policy. This needs the agent to be running as a service.''), policy)
          else (Inr (), replicate 2 (if on then AUDIT_SUCCESS else AUDIT_NONE)))"

end
