(* ===== verification/Kam_Dispatch.thy ===== *)
theory Kam_Dispatch
  imports Kam_Ipc Kam_Baseline Kam_Env
begin

text \<open>
  The handlers of \<open>kam-agent/src/dispatch.rs\<close>: what each request does to the agent, what it answers and what it
  writes to the audit log. A handler gives the response, or no value where the source panics, and the agent after it.
  What the machine, the clock and other programs answer is one record; what depends on the files is a function of them.
  A job can be stopped while it runs: what other connections do between its registration and its end is a function of
  the agent, and a stop is seen only if the job's token was set by then.
\<close>

record agent_system =
  as_audit :: audit_sink
  as_service :: bool
  as_version :: str
  as_machine :: machine
  as_text :: text_rules
  as_lower_char :: "str \<Rightarrow> str"
  as_store :: store
  as_claim :: u64
  as_stamp :: u64
  as_now :: nat
  as_audit_read :: "kam_error option"
  as_setting_read :: "kam_error option"
  as_setting_write :: "kam_error option"
  as_drives :: drives
  as_tree :: "file_system \<Rightarrow> str \<Rightarrow> dirent"
  as_threads :: nat
  as_order :: "counter_add list \<Rightarrow> counter_add list"
  as_elapsed :: u64
  as_storage :: "file_system \<Rightarrow> storage_machine"
  as_hash :: "bytes \<Rightarrow> bytes"
  as_opener :: "file_system \<Rightarrow> opener"
  as_order_sizes :: "u32 list list \<Rightarrow> u32 list list"
  as_order_paths :: "str list list \<Rightarrow> str list list"
  as_turns :: "nat list"
  as_stop1 :: bool
  as_stop2 :: bool
  as_profiles :: "profile_list option"
  as_caches :: cache_machine
  as_scheduler :: scheduler
  as_scheduler_back :: scheduler
  as_program :: "str option"
  as_check :: "file_system \<Rightarrow> check_system"
  as_indirect :: "str \<Rightarrow> str option"
  as_wmi :: wmi
  as_scan :: "file_system \<Rightarrow> scan_world"
  as_prov :: "file_system \<Rightarrow> prov_system"
  as_prov_job :: "file_system \<Rightarrow> prov_job"
  as_survey :: "file_system \<Rightarrow> survey_system"
  as_signature :: "str \<Rightarrow> signature"
  as_admins :: "str + str"
  as_profile_keys :: "key_listing option"
  as_for_sid :: "str \<Rightarrow> user_context option"
  as_users :: "user_context list"
  as_sweep_at :: str
  as_cutoff :: str
  as_sweep_failure :: "str option"
  as_shell :: shell
  as_sockets :: "file_system \<Rightarrow> socket_system"
  as_extensions :: "file_system \<Rightarrow> extension_system"
  as_run :: "str \<Rightarrow> str list \<Rightarrow> machine_keys \<Rightarrow> (str + command_output) \<times> machine_keys"
  as_canary :: canary_system
  as_policy :: policy_access

definition machine_now :: "agent_system \<Rightarrow> agent \<Rightarrow> machine" where
  "machine_now sy a = (as_machine sy)\<lparr>mc_fs := ag_fs a\<rparr>"

definition as_lower :: "agent_system \<Rightarrow> str \<Rightarrow> str" where "as_lower sy = mc_lower (as_machine sy)"

definition as_env :: "agent_system \<Rightarrow> environment" where "as_env sy = mc_env (as_machine sy)"

definition canary_now :: "agent_system \<Rightarrow> agent \<Rightarrow> canary_system" where
  "canary_now sy a = (as_canary sy)\<lparr>cs_auditing := auditing_enabled (as_policy sy) (ag_policy a)\<rparr>"

definition noted :: "agent_system \<Rightarrow> str \<Rightarrow> str \<Rightarrow> effect \<Rightarrow> str \<Rightarrow> agent \<Rightarrow> agent" where
  "noted sy = audit_note (as_audit sy)"

definition noted_with :: "agent_system \<Rightarrow> str \<Rightarrow> str \<Rightarrow> effect \<Rightarrow> str \<Rightarrow> str option \<Rightarrow> agent \<Rightarrow> agent" where
  "noted_with sy = audit_with_token (as_audit sy)"

section \<open>Who may ask\<close>

fun needs_administrator :: "cache_machine \<Rightarrow> file_system \<Rightarrow> request \<Rightarrow> user_context \<Rightarrow> bool" where
  "needs_administrator cm fs (SetHardening i w) user = True"
| "needs_administrator cm fs (SetCanaryAuditing on) user = True"
| "needs_administrator cm fs (BlockProgram path) user = True"
| "needs_administrator cm fs (UnblockProgram rl) user = True"
| "needs_administrator cm fs (SetProtection on) user = True"
| "needs_administrator cm fs (ClearCache i) user = is_machine_wide cm fs i user"
| "needs_administrator cm fs request user = False"

definition NEEDS_ADMINISTRATOR :: str where
  "NEEDS_ADMINISTRATOR = ''Changing this needs administrator rights, the same as changing it in Windows itself.''"

section \<open>Status, history and volumes\<close>

definition hostname :: "environment \<Rightarrow> str" where
  "hostname env = (case env_lookup env ''COMPUTERNAME'' of Some h \<Rightarrow> h | None \<Rightarrow> ''unknown'')"

definition get_system_status :: "agent_system \<Rightarrow> response" where
  "get_system_status sy =
     RSystemStatus \<lparr>ss_protocol_version = PROTOCOL_VERSION, ss_agent_version = as_version sy,
       ss_running_as_service = as_service sy, ss_hostname = hostname (as_env sy)\<rparr>"

definition get_recent_audit :: "agent_system \<Rightarrow> nat \<Rightarrow> agent \<Rightarrow> response" where
  "get_recent_audit sy limit a =
     (case (case as_audit_read sy of Some e \<Rightarrow> Inl e | None \<Rightarrow> recent_audit (ag_db a) (min limit MAX_AUDIT_ROWS)) of
        Inr rows \<Rightarrow> RRecentAudit rows
      | Inl e \<Rightarrow> RError ''the audit log could not be read'')"

definition list_drives :: "agent_system \<Rightarrow> response option" where
  "list_drives sy =
     (case list_volumes (as_drives sy) of
        None \<Rightarrow> None
      | Some (Inr volumes) \<Rightarrow> Some (RVolumes volumes)
      | Some (Inl e) \<Rightarrow> Some (RError ''the drives on this machine could not be listed''))"

section \<open>Scanning and measuring\<close>

text \<open>
  A Windows path is absolute when it has a drive and a root, or one of the prefixes that hold a root: a verbatim or
  device prefix, or a server and a share.
\<close>

definition path_is_absolute :: "str \<Rightarrow> bool" where
  "path_is_absolute path \<longleftrightarrow>
     has_drive path \<and> has_root (drop 2 path)
     \<or> has_root path \<and> has_root (drop 1 path)
       \<and> (let rest = drop 2 path in
          has_root (drop 1 rest) \<and> take 1 rest = ''?'' \<and> CHR ''/'' \<notin> set (take 4 path)
          \<or> has_root (drop 1 rest) \<and> take 1 rest = ''.''
          \<or> (case split_on is_path_separator rest of
               server # share # others \<Rightarrow> server \<noteq> [] \<and> share \<noteq> []
             | _ \<Rightarrow> False))"

definition scan_path :: "agent_system \<Rightarrow> str \<Rightarrow> agent \<Rightarrow> response \<times> agent" where
  "scan_path sy path a =
     (if \<not> path_is_absolute path
      then (RError ''give an absolute path to scan'',
            noted sy ''storage'' ''scan'' EffectRefused (''refused to scan a relative path: '' @ path) a)
      else (let r = scan (sm_table (as_storage sy (ag_fs a))) path (as_tree sy (ag_fs a) path) (as_threads sy) (as_order sy) (as_elapsed sy)
            in (RScan r,
                noted sy ''storage'' ''scan'' Observed
                  (''scanned '' @ scan_root r @ '' '' @ em_dash @ '' '' @ human_bytes (unat (scan_total_bytes r)) @ '' in ''
                   @ show_nat (unat (scan_file_count r)) @ '' files, '' @ show_nat (unat (unreadable r)) @ '' unreadable, ''
                   @ show_nat (unat (elapsed_ms r)) @ '' ms'') a)))"

definition drive_letter :: "str \<Rightarrow> char option" where
  "drive_letter drive = (case drive of [] \<Rightarrow> None | c # cs \<Rightarrow> if is_ascii_alphabetic c then Some c else None)"

definition NO_LETTER :: response where "NO_LETTER = RError ''give a drive letter, such as C:''"

definition survey_text :: "char \<Rightarrow> storage_report \<Rightarrow> str" where
  "survey_text letter r =
     (let tm = st_timings r in
      ''surveyed '' @ [letter] @ '': '' @ em_dash @ '' '' @ show_nat (fs_applications (st_summary r)) @ '' applications using ''
      @ human_bytes (unat (fs_measured_bytes (st_summary r))) @ '', '' @ show_nat (os_found (st_orphan_summary r))
      @ '' leftover directories holding '' @ human_bytes (unat (os_total_bytes (st_orphan_summary r))) @ '', ''
      @ show_nat (do_found (st_download_summary r)) @ '' downloads holding ''
      @ human_bytes (unat (do_total_bytes (st_download_summary r))) @ '', in '' @ show_nat (unat (tm_total tm)) @ '' ms (table ''
      @ show_nat (unat (tm_read_table tm)) @ '', index '' @ show_nat (unat (tm_build_index tm)) @ '', applications ''
      @ show_nat (unat (tm_applications tm)) @ '', leftovers '' @ show_nat (unat (tm_orphans tm)) @ '', downloads ''
      @ show_nat (unat (tm_downloads tm)) @ '')'')"

definition list_applications :: "agent_system \<Rightarrow> user_context \<Rightarrow> str \<Rightarrow> agent \<Rightarrow> response option \<times> agent" where
  "list_applications sy user drive a =
     (case drive_letter drive of
        None \<Rightarrow> (Some NO_LETTER, a)
      | Some letter \<Rightarrow>
        (case survey_storage (as_storage sy (ag_fs a)) (to_ascii_uppercase letter) (as_now sy) user of
           None \<Rightarrow> (None, a)
         | Some (Inr r) \<Rightarrow> (Some (RApplications r), noted sy ''storage'' ''survey'' Observed (survey_text letter r) a)
         | Some (Inl e) \<Rightarrow>
             (Some (RError (''application sizes need the master file table, which the agent                              could not read: ''
                @ show_error e)), a)))"

definition survey_duplicates :: "agent_system \<Rightarrow> user_context \<Rightarrow> bool \<Rightarrow> char \<Rightarrow> agent \<Rightarrow> kam_error + duplicate_group list \<times> duplicate_summary" where
  "survey_duplicates sy user cancelled letter a =
     (case sm_table (as_storage sy (ag_fs a)) letter of
        Inl e \<Rightarrow> Inl e
      | Inr snap \<Rightarrow>
        (case find_duplicates (as_lower sy) user (as_order_sizes sy) (as_order_paths sy) (as_hash sy) (as_opener sy (ag_fs a))
                (as_turns sy) (as_stop1 sy \<and> cancelled) (as_stop2 sy \<and> cancelled) (build snap) [letter, CHR '':''] of
           None \<Rightarrow> Inl (kam_error.Refused ''stopped at your request'')
         | Some r \<Rightarrow> Inr r))"

text \<open>
  A job reads the machine as it was when it started. Between its registration and its end the other connections go
  on, and its token may be set.
\<close>

definition during :: "(agent \<Rightarrow> agent) \<Rightarrow> str \<Rightarrow> nat \<Rightarrow> agent \<Rightarrow> bool \<times> agent" where
  "during meanwhile job token a =
     (let b = meanwhile (register_job job token a)
      in (token \<in> set (ag_stopped b), finish_job job b))"

definition look_for_duplicates ::
  "agent_system \<Rightarrow> (agent \<Rightarrow> agent) \<Rightarrow> nat \<Rightarrow> user_context \<Rightarrow> str \<Rightarrow> str \<Rightarrow> agent \<Rightarrow> response \<times> agent" where
  "look_for_duplicates sy meanwhile token user drive job a =
     (case drive_letter drive of
        None \<Rightarrow> (NO_LETTER, a)
      | Some letter \<Rightarrow>
        (let (cancelled, b) = during meanwhile job token a in
         if cancelled then (RStopped, b)
         else (case survey_duplicates sy user cancelled (to_ascii_uppercase letter) a of
                 Inr (groups, su) \<Rightarrow>
                   (RDuplicates groups su,
                    noted sy ''storage'' ''find_duplicates'' Observed
                      (''found '' @ show_nat (ds_groups su) @ '' duplicate sets on '' @ [letter] @ '': ''
                       @ human_bytes (unat (ds_wasted_bytes su)) @ '' duplicated, '' @ human_bytes (unat (ds_reclaimable_bytes su))
                       @ '' of it reclaimable across '' @ show_nat (ds_actionable su) @ '' sets, reading ''
                       @ show_nat (ds_fully_hashed su) @ '' files in full'') b)
               | Inl e \<Rightarrow>
                   (RError (''duplicate detection needs the master file table, which the agent could not read: '' @ show_error e), b))))"

definition find_proposals_for :: "agent_system \<Rightarrow> user_context \<Rightarrow> str \<Rightarrow> agent \<Rightarrow> response" where
  "find_proposals_for sy user drive a =
     (case drive_letter drive of
        None \<Rightarrow> NO_LETTER
      | Some letter \<Rightarrow>
        (case survey_loose (as_text sy) (sm_table (as_storage sy (ag_fs a)) (to_ascii_uppercase letter)) user of
           Inr (proposals, su) \<Rightarrow> ROrganise proposals su
         | Inl e \<Rightarrow> RError (''loose files could not be looked for: '' @ show_error e)))"

section \<open>The weekly check\<close>

definition get_schedule :: "agent_system \<Rightarrow> agent \<Rightarrow> response option" where
  "get_schedule sy a =
     (case current (as_scheduler sy) (ag_tasks a) of
        None \<Rightarrow> None
      | Some (Inr sc) \<Rightarrow> Some (RSchedule sc)
      | Some (Inl e) \<Rightarrow> Some (RError (''whether a weekly check is registered could not be read: '' @ show_error e)))"

definition unset_schedule :: "agent_system \<Rightarrow> agent \<Rightarrow> response option \<times> agent" where
  "unset_schedule sy a =
     (case disable (as_scheduler sy) (ag_tasks a) of
        (Inr u, tf) \<Rightarrow>
          (let b = noted sy ''schedule'' ''disable'' Changed ''removed the weekly check'' (a\<lparr>ag_tasks := tf\<rparr>)
           in case current (as_scheduler_back sy) tf of
                None \<Rightarrow> (None, b)
              | Some (Inr sc) \<Rightarrow> (Some (RSchedule sc), b)
              | Some (Inl e) \<Rightarrow>
                  (Some (RError (''the weekly check was removed, but reading the schedule back failed: '' @ show_error e)), b))
      | (Inl e, tf) \<Rightarrow>
          (Some (RError (show_error e)),
           noted sy ''schedule'' ''disable'' EffectRefused (''could not remove the weekly check: '' @ show_error e) (a\<lparr>ag_tasks := tf\<rparr>)))"

definition set_schedule :: "agent_system \<Rightarrow> user_context \<Rightarrow> bool \<Rightarrow> str \<Rightarrow> u8 \<Rightarrow> agent \<Rightarrow> response option \<times> agent" where
  "set_schedule sy user on day hour a =
     (if \<not> on then unset_schedule sy a
      else if 23 < hour then (Some (RError ''give an hour between 0 and 23''), a)
      else case as_program sy of
             None \<Rightarrow> (Some (RError ''the agent could not find its own path''), a)
           | Some program \<Rightarrow>
             (case uc_sid user of
                None \<Rightarrow> (Some (RError ''the caller could not be identified''), a)
              | Some account \<Rightarrow>
                (case enable (as_scheduler sy) (as_scheduler_back sy) program account day hour (ag_tasks a) of
                   (None, tf) \<Rightarrow> (None, a\<lparr>ag_tasks := tf\<rparr>)
                 | (Some (Inr sc), tf) \<Rightarrow>
                     (Some (RSchedule sc),
                      noted sy ''schedule'' ''enable'' Changed
                        (''weekly check registered for '' @ unwrap_or day (sc_day sc) @ '' at ''
                         @ unwrap_or ''an unknown time'' (sc_at sc)) (a\<lparr>ag_tasks := tf\<rparr>))
                 | (Some (Inl e), tf) \<Rightarrow>
                     (Some (RError (show_error e)),
                      noted sy ''schedule'' ''enable'' EffectRefused (''could not register the weekly check: '' @ show_error e)
                        (a\<lparr>ag_tasks := tf\<rparr>)))))"

definition run_weekly_check :: "agent_system \<Rightarrow> user_context \<Rightarrow> agent \<Rightarrow> response option \<times> agent" where
  "run_weekly_check sy user a =
     (case run_and_record (as_audit sy) ((as_check sy (ag_fs a))\<lparr>ck_firewall := ag_firewall a\<rparr>) user (ag_db a) of
        (results, d) \<Rightarrow>
          (map_option (\<lambda>fs. RChecked (map (\<lambda>f. \<lparr>cf_summary = fi_summary f, cf_serious = fi_serious f\<rparr>) fs)) results,
           a\<lparr>ag_db := d\<rparr>))"

section \<open>Caches\<close>

definition look_at_caches :: "agent_system \<Rightarrow> user_context \<Rightarrow> agent \<Rightarrow> response \<times> agent" where
  "look_at_caches sy user a =
     (let results = survey_caches (as_caches sy) (ag_fs a) user
      in (RCaches results,
          noted sy ''storage'' ''survey_caches'' Observed
            (show_nat (length results) @ '' caches holding '' @ human_bytes (sum_list (map ch_bytes results)) @ '' for '' @ uc_profile user) a))"

definition clear_one_cache :: "agent_system \<Rightarrow> user_context \<Rightarrow> str \<Rightarrow> agent \<Rightarrow> response \<times> agent" where
  "clear_one_cache sy user i a =
     (case clear_cache (as_caches sy) i user (ag_fs a) of
        (Inr c, fs) \<Rightarrow>
          (RCacheCleared c,
           noted sy ''storage'' ''clear_cache'' Changed
             (''cleared '' @ i @ '': freed '' @ human_bytes (cd_bytes_freed c) @ '' across '' @ show_nat (cd_files_removed c)
              @ '' files, '' @ show_nat (cd_files_in_use c) @ '' still in use'') (with_fs fs a))
      | (Inl why_not, fs) \<Rightarrow>
          (RError why_not,
           noted sy ''storage'' ''clear_cache'' EffectRefused (''refused to clear '' @ i @ '': '' @ why_not) (with_fs fs a)))"

section \<open>Moving files\<close>

definition file_length :: "file_system \<Rightarrow> str \<Rightarrow> u64" where
  "file_length fs path = (case object_metadata fs path of Inr (FileNode contents) \<Rightarrow> word_of_nat (length contents) | _ \<Rightarrow> 0)"

definition apply_move :: "agent_system \<Rightarrow> user_context \<Rightarrow> str \<Rightarrow> str \<Rightarrow> agent \<Rightarrow> response \<times> agent" where
  "apply_move sy user from_path to_path a =
     (case check_movable (as_lower sy) (ag_fs a) from_path to_path user of
        Inl why_not \<Rightarrow>
          (RError why_not,
           noted sy ''storage'' ''move_file'' EffectRefused (''refused to move '' @ from_path @ '': '' @ why_not) a)
      | Inr u \<Rightarrow>
        (case move_file (as_store sy) from_path to_path (file_length (ag_fs a) from_path) (as_claim sy) (as_stamp sy) (ag_fs a) of
           (Inr record_of, fs) \<Rightarrow>
             (RMoved record_of,
              noted_with sy ''storage'' ''move_file'' Changed
                (''moved '' @ from_path @ '' to '' @ to_path @ '' ('' @ human_bytes (unat (mv_bytes record_of)) @ '')'')
                (Some (mv_id record_of)) (with_fs fs a))
         | (Inl e, fs) \<Rightarrow>
             (RError (show_error e),
              noted sy ''storage'' ''move_file'' EffectRefused (''could not move '' @ from_path @ '': '' @ show_error e) (with_fs fs a))))"

definition take_back_move :: "agent_system \<Rightarrow> str \<Rightarrow> agent \<Rightarrow> response \<times> agent" where
  "take_back_move sy i a =
     (case undo_move (as_store sy) i (ag_fs a) of
        (Inr record_of, fs) \<Rightarrow>
          (RMoved record_of,
           noted_with sy ''storage'' ''undo_move'' Changed (''put '' @ mv_from record_of @ '' back'') (Some (mv_id record_of)) (with_fs fs a))
      | (Inl e, fs) \<Rightarrow>
          (RError (show_error e),
           noted sy ''storage'' ''undo_move'' EffectRefused (''could not undo '' @ i @ '': '' @ show_error e) (with_fs fs a)))"

section \<open>Quarantine\<close>

definition taken_answer :: "agent_system \<Rightarrow> str \<Rightarrow> (manifest \<Rightarrow> str) \<Rightarrow> str \<Rightarrow> (kam_error + manifest) \<times> file_system \<Rightarrow> agent \<Rightarrow> response \<times> agent" where
  "taken_answer sy verb done_text failed_text taken a =
     (case taken of
        (Inr man, fs) \<Rightarrow>
          (RQuarantined man, noted_with sy ''quarantine'' verb Changed (done_text man) (Some (man_id man)) (with_fs fs a))
      | (Inl e, fs) \<Rightarrow>
          (RError (show_error e), noted sy ''quarantine'' verb EffectRefused (failed_text @ show_error e) (with_fs fs a)))"

definition quarantine_path :: "agent_system \<Rightarrow> user_context \<Rightarrow> str \<Rightarrow> str \<Rightarrow> agent \<Rightarrow> response \<times> agent" where
  "quarantine_path sy user path why a =
     (case check_quarantinable (as_text sy) (as_env sy) (ag_fs a) path user of
        Inl why_not \<Rightarrow>
          (RError why_not, noted sy ''quarantine'' ''take'' EffectRefused (''refused to quarantine '' @ path @ '': '' @ why_not) a)
      | Inr u \<Rightarrow>
          (let took = scan_total_bytes (walk_scan path (as_tree sy (ag_fs a) path) (as_threads sy) (as_order sy) (as_elapsed sy))
           in taken_answer sy ''take''
                (\<lambda>man. ''quarantined '' @ original_path man @ '' ('' @ human_bytes (unat (man_bytes man)) @ '') -- '' @ why)
                (''could not quarantine '' @ path @ '': '')
                (take_item (as_store sy) path took why (as_claim sy) (as_stamp sy) (ag_fs a)) a))"

definition quarantine_copy :: "agent_system \<Rightarrow> user_context \<Rightarrow> str \<Rightarrow> str \<Rightarrow> bool \<Rightarrow> agent \<Rightarrow> response \<times> agent" where
  "quarantine_copy sy user path why chosen a =
     (case check_removable (as_lower sy) (as_env sy) (ag_fs a) (as_profiles sy) user (if chosen then Chosen else Suggested) path of
        Inl why_not \<Rightarrow>
          (RError why_not, noted sy ''quarantine'' ''take_copy'' EffectRefused (''refused to remove '' @ path @ '': '' @ why_not) a)
      | Inr u \<Rightarrow>
          taken_answer sy ''take_copy''
            (\<lambda>man. ''held a duplicate copy: '' @ original_path man @ '' ('' @ human_bytes (unat (man_bytes man)) @ '')'')
            (''could not hold '' @ path @ '': '')
            (take_item (as_store sy) path (file_length (ag_fs a) path) why (as_claim sy) (as_stamp sy) (ag_fs a)) a)"

definition put_back :: "agent_system \<Rightarrow> str \<Rightarrow> agent \<Rightarrow> response \<times> agent" where
  "put_back sy i a =
     taken_answer sy ''restore'' (\<lambda>man. ''restored '' @ man_id man @ '' to '' @ original_path man)
       (''could not restore '' @ i @ '': '') (restore (as_store sy) i (ag_fs a)) a"

text \<open>The counter of freed bytes wraps in a release build.\<close>

definition delete_one :: "agent_system \<Rightarrow> (nat \<times> u64 \<times> str list) \<times> agent \<Rightarrow> str \<Rightarrow> (nat \<times> u64 \<times> str list) \<times> agent" where
  "delete_one sy st i =
     (case st of ((items, freed, refused), a) \<Rightarrow>
       (case delete_now (as_store sy) i (ag_fs a) of
          (Inr took, fs) \<Rightarrow>
            ((items + 1, freed + took, refused),
             noted sy ''quarantine'' ''delete'' Changed
               (''deleted '' @ i @ '' for good, freeing '' @ human_bytes (unat took)) (with_fs fs a))
        | (Inl e, fs) \<Rightarrow>
            ((items, freed, refused @ [show_error e]),
             noted sy ''quarantine'' ''delete'' EffectRefused (''could not delete '' @ i @ '': '' @ show_error e) (with_fs fs a))))"

definition delete_quarantined :: "agent_system \<Rightarrow> str list \<Rightarrow> agent \<Rightarrow> response \<times> agent" where
  "delete_quarantined sy ids a =
     (case foldl (delete_one sy) ((0, 0, []), a) ids of
        ((items, freed, refused), b) \<Rightarrow> (RDeleted items freed refused, b))"

definition empty_quarantine :: "agent_system \<Rightarrow> agent \<Rightarrow> response \<times> agent" where
  "empty_quarantine sy a = delete_quarantined sy (map man_id (list_items (as_store sy) (ag_fs a))) a"

section \<open>Firewall and protection\<close>

definition get_firewall :: "agent_system \<Rightarrow> agent \<Rightarrow> response" where
  "get_firewall sy a =
     (case Kam_Firewall.survey (as_lower sy) (as_indirect sy) (ag_firewall a) of
        Inr r \<Rightarrow> RFirewall r
      | Inl e \<Rightarrow> RError (show_error e))"

definition block_one :: "agent_system \<Rightarrow> str \<Rightarrow> agent \<Rightarrow> response \<times> agent" where
  "block_one sy path a =
     (case block_program (ag_fs a) path (ag_firewall a) of
        (Inr rl, fw) \<Rightarrow>
          (RBlocked rl,
           noted_with sy ''firewall'' ''block_program'' Changed (''blocked outgoing connections from '' @ path) (Some rl)
             (a\<lparr>ag_firewall := fw\<rparr>))
      | (Inl e, fw) \<Rightarrow>
          (RError (show_error e),
           noted sy ''firewall'' ''block_program'' EffectRefused (''could not block '' @ path @ '': '' @ show_error e)
             (a\<lparr>ag_firewall := fw\<rparr>)))"

definition unblock_one :: "agent_system \<Rightarrow> str \<Rightarrow> agent \<Rightarrow> response \<times> agent" where
  "unblock_one sy rl a =
     (case remove_our_rule (as_lower sy) rl (ag_firewall a) of
        (Inr u, fw) \<Rightarrow>
          (RAcknowledged, noted sy ''firewall'' ''unblock_program'' Changed (''removed the block rule '' @ rl) (a\<lparr>ag_firewall := fw\<rparr>))
      | (Inl e, fw) \<Rightarrow>
          (RError (show_error e),
           noted sy ''firewall'' ''unblock_program'' EffectRefused (''could not remove '' @ rl @ '': '' @ show_error e)
             (a\<lparr>ag_firewall := fw\<rparr>)))"

fun wanted_text :: "wanted_mode \<Rightarrow> str" where
  "wanted_text WantAudit = ''Audit''"
| "wanted_text WantBlock = ''Block''"
| "wanted_text WantOff = ''Off''"

definition set_hardening :: "agent_system \<Rightarrow> str \<Rightarrow> wanted_mode \<Rightarrow> agent \<Rightarrow> response \<times> agent" where
  "set_hardening sy i w a =
     (case hardening_request \<lparr>hm_machine = machine_now sy a, hm_run = as_run sy\<rparr> i w (ag_keys a) of
        (Inr r, keys) \<Rightarrow>
          (RHardening r,
           noted sy ''scanner'' ''set_hardening'' Changed (''asked Defender to set '' @ i @ '' to '' @ wanted_text w) (a\<lparr>ag_keys := keys\<rparr>))
      | (Inl e, keys) \<Rightarrow>
          (RError (show_error e),
           noted sy ''scanner'' ''set_hardening'' EffectRefused
             (''could not set '' @ i @ '' to '' @ wanted_text w @ '': '' @ show_error e) (a\<lparr>ag_keys := keys\<rparr>)))"

definition get_protection :: "agent_system \<Rightarrow> agent \<Rightarrow> response" where
  "get_protection sy a =
     RProtection (protection_enabled (case as_setting_read sy of Some e \<Rightarrow> Inl e | None \<Rightarrow> Inr (setting (ag_db a) PROTECTION_SETTING)))"

definition set_protection :: "agent_system \<Rightarrow> bool \<Rightarrow> agent \<Rightarrow> response \<times> agent" where
  "set_protection sy on a =
     (case as_setting_write sy of
        None \<Rightarrow>
          (RProtection on,
           noted sy ''protection'' (if on then ''enable'' else ''disable'') Changed
             (''the protective work was switched '' @ (if on then ''on'' else ''off''))
             (a\<lparr>ag_db := set_protection_enabled (ag_db a) on\<rparr>))
      | Some e \<Rightarrow> (RError ''the setting could not be saved, so nothing was changed'', a))"

section \<open>Decoys\<close>

definition get_canaries :: "agent_system \<Rightarrow> user_context \<Rightarrow> agent \<Rightarrow> response" where
  "get_canaries sy user a = RCanaries (canary_status (canary_now sy a) user (ag_world a))"

definition set_canaries :: "agent_system \<Rightarrow> user_context \<Rightarrow> bool \<Rightarrow> agent \<Rightarrow> response \<times> agent" where
  "set_canaries sy user planted a =
     (if planted
      then (case plant (canary_now sy a) user (ag_world a) of
              (r, w) \<Rightarrow>
                (RCanaries r,
                 noted sy ''canary'' ''plant'' Changed
                   (''planted '' @ show_nat (length (cr_canaries r)) @ '' decoy files for '' @ uc_profile user @ ''; ''
                    @ show_nat (length (filter cn_armed (cr_canaries r))) @ '' armed'') (a\<lparr>ag_world := w\<rparr>)))
      else (case remove_canaries (canary_now sy a) user (ag_world a) of
              ((removed, refused), w) \<Rightarrow>
                (let b = noted sy ''canary'' ''remove'' Changed
                           (''removed '' @ show_nat removed @ '' decoy files for '' @ uc_profile user) (a\<lparr>ag_world := w\<rparr>);
                     r = canary_status (canary_now sy b) user w
                 in (RCanaries (r\<lparr>cr_problems := cr_problems r @ refused\<rparr>), b))))"

definition set_canary_auditing :: "agent_system \<Rightarrow> user_context \<Rightarrow> bool \<Rightarrow> agent \<Rightarrow> response \<times> agent" where
  "set_canary_auditing sy user on a =
     (case set_auditing (as_policy sy) on (ag_policy a) of
        (Inr u, policy) \<Rightarrow>
          (let b = noted sy ''canary'' ''set_auditing'' Changed
                     (''turned Windows file-access auditing '' @ (if on then ''on'' else ''off'')) (a\<lparr>ag_policy := policy\<rparr>)
           in (get_canaries sy user b, b))
      | (Inl e, policy) \<Rightarrow>
          (RError (show_error e),
           noted sy ''canary'' ''set_auditing'' EffectRefused (''could not change the audit policy: '' @ show_error e)
             (a\<lparr>ag_policy := policy\<rparr>)))"

section \<open>Surveys of the scanner\<close>

definition survey_programs :: "agent_system \<Rightarrow> (agent \<Rightarrow> agent) \<Rightarrow> nat \<Rightarrow> user_context \<Rightarrow> str \<Rightarrow> agent \<Rightarrow> response \<times> agent" where
  "survey_programs sy meanwhile token user job a =
     (let (cancelled, b) = during meanwhile job token a;
          jb = (as_prov_job sy (ag_fs a))\<lparr>jb_stopped := (\<lambda>p. jb_stopped (as_prov_job sy (ag_fs a)) p \<and> cancelled)\<rparr>
      in case prov_survey (as_prov sy (ag_fs a)) jb user of
           Some r \<Rightarrow>
             (RProvenance r,
              noted sy ''scanner'' ''survey_provenance'' Observed
                (''examined '' @ show_nat (pr_examined r) @ '' programs that start themselves and '' @ show_nat (pr_swept_files r)
                 @ '' files that arrived from outside; '' @ show_nat (length (prov_worth_reading r)) @ '' worth reading'') b)
         | None \<Rightarrow>
             (RStopped, noted sy ''scanner'' ''survey_provenance'' Observed ''the survey was stopped before it finished'' b))"

definition survey_browsers :: "agent_system \<Rightarrow> user_context \<Rightarrow> agent \<Rightarrow> response \<times> agent" where
  "survey_browsers sy user a =
     (let r = survey_extensions (as_extensions sy (ag_fs a)) user
      in (RExtensions r,
          noted sy ''scanner'' ''survey_extensions'' Observed
            (''read '' @ show_nat (length (xr_extensions r)) @ '' browser extensions across ''
             @ join_with '', '' (xr_examined r) @ ''; ''
             @ show_nat (length (filter extension_worth_reading (xr_extensions r))) @ '' worth reading'') a))"

definition sweep_text :: "nat \<Rightarrow> sweep_result \<Rightarrow> str" where
  "sweep_text seen sw =
     ''compared '' @ show_nat seen @ '' things against the last sweep: '' @ show_nat (length (sw_differences sw)) @ '' ''
     @ (if sw_baseline sw then ''differences (this was the first, so nothing was compared)''
        else if length (sw_differences sw) = 1 then ''difference'' else ''differences'')
     @ (if sw_unreadable sw = [] then [] else ''; '' @ show_nat (length (sw_unreadable sw)) @ '' source(s) could not be read'')"

definition sweep_machine :: "agent_system \<Rightarrow> agent \<Rightarrow> response \<times> agent" where
  "sweep_machine sy a =
     (case collect (as_survey sy (ag_fs a)) (as_signature sy) (as_admins sy) (as_profile_keys sy) (as_for_sid sy) (as_users sy) of
        (seen, gaps) \<Rightarrow>
          (case sweep (as_lower_char sy) seen gaps (as_sweep_at sy) (as_cutoff sy) (as_sweep_failure sy) (ag_db a) of
             (Inr sw, d) \<Rightarrow> (RChanges sw, noted sy ''changes'' ''sweep'' Observed (sweep_text (length seen) sw) (a\<lparr>ag_db := d\<rparr>))
           | (Inl e, d) \<Rightarrow> (RError (''what changed could not be worked out: '' @ show_error e), a\<lparr>ag_db := d\<rparr>)))"

section \<open>What the window reports\<close>

definition is_hex_digit :: "char \<Rightarrow> bool" where
  "is_hex_digit c \<longleftrightarrow> c \<in> set ''0123456789abcdefABCDEF''"

definition record_lookup :: "agent_system \<Rightarrow> str \<Rightarrow> str \<Rightarrow> agent \<Rightarrow> response \<times> agent" where
  "record_lookup sy sha256 outcome a =
     (let digest = take 64 (filter is_hex_digit sha256) in
      if length digest \<noteq> 64 then (RError ''a lookup record needs the file's SHA-256'', a)
      else (RAcknowledged,
            noted sy ''virustotal'' ''look_up'' Changed
              (''sent the hash '' @ digest @ '' to VirusTotal: '' @ concat (take 120 (utf8_chars outcome))) a))"

definition record_recycle :: "agent_system \<Rightarrow> str \<Rightarrow> bool \<Rightarrow> agent \<Rightarrow> agent" where
  "record_recycle sy path in_bin a =
     noted sy ''cleanup'' ''recycle'' Changed
       (if in_bin then ''the window reported sending '' @ path @ '' to the Recycle Bin''
        else ''the window reported removing '' @ path @ '', which did not reach the Recycle Bin and cannot be restored from it'') a"

definition note_uninstall :: "agent_system \<Rightarrow> str \<Rightarrow> str \<Rightarrow> agent \<Rightarrow> agent" where
  "note_uninstall sy nm command a =
     noted sy ''applications'' ''launch_uninstaller'' Changed (''launched the uninstaller for '' @ nm @ '': '' @ command) a"

section \<open>Defender\<close>

text \<open>As many turns of the wait as its time allows, and two more: its own end is shown in the theory of the scan.\<close>

definition SCAN_TURNS :: nat where "SCAN_TURNS = 57602"

definition scan_text :: "scan_outcome \<Rightarrow> str" where
  "scan_text so =
     so_label so @ '' '' @ (if so_completed so then ''finished'' else ''was stopped before finishing'') @ '' in ''
     @ show_nat (so_seconds so) @ '' seconds; '' @ show_nat (length (so_found so)) @ '' new ''
     @ (if length (so_found so) = 1 then ''detection'' else ''detections'') @ '' recorded by Defender''"

definition scan_with_defender ::
  "agent_system \<Rightarrow> (agent \<Rightarrow> agent) \<Rightarrow> nat \<Rightarrow> scan_kind \<Rightarrow> str \<Rightarrow> agent \<Rightarrow> response option \<times> agent" where
  "scan_with_defender sy meanwhile token kind job a =
     (let (cancelled, b) = during meanwhile job token a;
          sn = as_scan sy (ag_fs a);
          polls = (\<lambda>i. (sn_polls sn i)\<lparr>pl_cancelled := pl_cancelled (sn_polls sn i) \<and> cancelled\<rparr>)
      in case run_scan SCAN_TURNS (sn\<lparr>sn_polls := polls\<rparr>) kind of
           None \<Rightarrow> (None, b)
         | Some (Inr so) \<Rightarrow> (Some (RDefenderScanned so), noted sy ''defender'' ''scan'' Observed (scan_text so) b)
         | Some (Inl e) \<Rightarrow>
             (Some (RError (show_error e)),
              noted sy ''defender'' ''scan'' EffectRefused (''could not run '' @ scan_label kind @ '': '' @ show_error e) b))"

definition get_defender_status :: "agent_system \<Rightarrow> response" where
  "get_defender_status sy =
     (case read_status (as_wmi sy) of
        Inr st \<Rightarrow> RDefender st (defender_concerns st)
      | Inl e \<Rightarrow> RError (''Defender did not answer: '' @ show_error e))"

definition get_defender_threats :: "agent_system \<Rightarrow> response" where
  "get_defender_threats sy =
     (case threats (as_wmi sy) of
        Inr ts \<Rightarrow> RDefenderThreats ts
      | Inl e \<Rightarrow> RError (''Defender's threat history could not be read: '' @ show_error e))"

definition get_behaviour :: "agent \<Rightarrow> response" where
  "get_behaviour a = (case log_snapshot (ag_watch a) of (obs, watching, since) \<Rightarrow> RBehaviourEvents obs watching since)"

section \<open>The table\<close>

text \<open>
  The requests that only answer, then those that change something. \<open>read_answer\<close> is no value for a request that is
  not one of the first, and its own value is no value where the source panics.
\<close>

fun read_answer :: "agent_system \<Rightarrow> user_context \<Rightarrow> request \<Rightarrow> agent \<Rightarrow> response option option" where
  "read_answer sy user GetSystemStatus a = Some (Some (get_system_status sy))"
| "read_answer sy user (GetRecentAudit limit) a = Some (Some (get_recent_audit sy limit a))"
| "read_answer sy user ListVolumes a = Some (list_drives sy)"
| "read_answer sy user GetSchedule a = Some (get_schedule sy a)"
| "read_answer sy user (FindOrganiseProposals drive) a = Some (Some (find_proposals_for sy user drive a))"
| "read_answer sy user ListMoves a = Some (Some (RMoves (list_moves (as_store sy) (ag_fs a))))"
| "read_answer sy user ListQuarantine a = Some (Some (RQuarantineList (list_items (as_store sy) (ag_fs a))))"
| "read_answer sy user (FindRemnants nm paths kinds) a =
     Some (Some (RRemnants (remnants_of (as_text sy) (machine_now sy a) (as_shell sy) nm paths kinds user)))"
| "read_answer sy user GetFirewall a = Some (Some (get_firewall sy a))"
| "read_answer sy user GetConnections a = Some (Some (RConnections (survey_connections (as_sockets sy (ag_fs a)))))"
| "read_answer sy user GetDefenderStatus a = Some (Some (get_defender_status sy))"
| "read_answer sy user GetDefenderThreats a = Some (Some (get_defender_threats sy))"
| "read_answer sy user GetBehaviourEvents a = Some (Some (get_behaviour a))"
| "read_answer sy user GetHardening a = Some (Some (RHardening (hardening_survey (as_lower sy) (ag_keys a))))"
| "read_answer sy user GetCanaries a = Some (Some (get_canaries sy user a))"
| "read_answer sy user GetProtection a = Some (Some (get_protection sy a))"
| "read_answer sy user request a = None"

definition finished :: "response \<times> agent \<Rightarrow> response option \<times> agent" where
  "finished r = (Some (fst r), snd r)"

fun act :: "agent_system \<Rightarrow> (agent \<Rightarrow> agent) \<Rightarrow> nat \<Rightarrow> user_context \<Rightarrow> request \<Rightarrow> agent \<Rightarrow> response option \<times> agent" where
  "act sy meanwhile token user (ScanPath path) a = finished (scan_path sy path a)"
| "act sy meanwhile token user (ListApplications drive) a = list_applications sy user drive a"
| "act sy meanwhile token user (QuarantinePath path why) a = finished (quarantine_path sy user path why a)"
| "act sy meanwhile token user (RestoreQuarantined i) a = finished (put_back sy i a)"
| "act sy meanwhile token user (DeleteQuarantined i) a = finished (delete_quarantined sy [i] a)"
| "act sy meanwhile token user EmptyQuarantine a = finished (empty_quarantine sy a)"
| "act sy meanwhile token user SweepForChanges a = finished (sweep_machine sy a)"
| "act sy meanwhile token user (RecordLookup sha256 outcome) a = finished (record_lookup sy sha256 outcome a)"
| "act sy meanwhile token user (DefenderScan kind job) a = scan_with_defender sy meanwhile token kind job a"
| "act sy meanwhile token user (RecordRecycle path in_bin) a = (Some RAcknowledged, record_recycle sy path in_bin a)"
| "act sy meanwhile token user (SetSchedule on day hour) a = set_schedule sy user on day hour a"
| "act sy meanwhile token user RunCheck a = run_weekly_check sy user a"
| "act sy meanwhile token user SurveyCaches a = finished (look_at_caches sy user a)"
| "act sy meanwhile token user (ClearCache i) a = finished (clear_one_cache sy user i a)"
| "act sy meanwhile token user (QuarantineCopy path why chosen) a = finished (quarantine_copy sy user path why chosen a)"
| "act sy meanwhile token user (FindDuplicates drive job) a = finished (look_for_duplicates sy meanwhile token user drive job a)"
| "act sy meanwhile token user (ApplyMove from_path to_path) a = finished (apply_move sy user from_path to_path a)"
| "act sy meanwhile token user (UndoMove i) a = finished (take_back_move sy i a)"
| "act sy meanwhile token user (BlockProgram path) a = finished (block_one sy path a)"
| "act sy meanwhile token user (UnblockProgram rl) a = finished (unblock_one sy rl a)"
| "act sy meanwhile token user (CancelJob job) a = (Some RAcknowledged, snd (stop_job job a))"
| "act sy meanwhile token user (SurveyProvenance job) a = finished (survey_programs sy meanwhile token user job a)"
| "act sy meanwhile token user (NoteUninstallLaunched nm command) a = (Some RAcknowledged, note_uninstall sy nm command a)"
| "act sy meanwhile token user GetExtensions a = finished (survey_browsers sy user a)"
| "act sy meanwhile token user (SetHardening i w) a = finished (set_hardening sy i w a)"
| "act sy meanwhile token user (SetCanaries planted) a = finished (set_canaries sy user planted a)"
| "act sy meanwhile token user (SetCanaryAuditing on) a = finished (set_canary_auditing sy user on a)"
| "act sy meanwhile token user (SetProtection on) a = finished (set_protection sy on a)"
| "act sy meanwhile token user request a = (None, a)"

definition handle :: "agent_system \<Rightarrow> (agent \<Rightarrow> agent) \<Rightarrow> nat \<Rightarrow> user_context \<Rightarrow> request \<Rightarrow> agent \<Rightarrow> response option \<times> agent" where
  "handle sy meanwhile token user request a =
     (case read_answer sy user request a of
        Some answer \<Rightarrow> (answer, a)
      | None \<Rightarrow> act sy meanwhile token user request a)"

end
