(* ===== verification/Kam_Serve.thy ===== *)
theory Kam_Serve
  imports Kam_Dispatch
begin

text \<open>
  \<open>kam-agent/src/server.rs\<close>: who is let in, the order of the checks on a connection, the job of a request with the
  frames it sends, and the loop that accepts clients. Windows names the caller's program, its account and whether it
  is elevated. The theorems are about every run of the agent: any sequence of connections, each with other
  connections going on while its own job runs.
\<close>

section \<open>Who is let in\<close>

definition is_trusted_client :: "file_system \<Rightarrow> str \<Rightarrow> str \<Rightarrow> bool" where
  "is_trusted_client fs program trusted_directory =
     (case Option.bind (path_parent program) (\<lambda>p. case canonical fs p of Inl e \<Rightarrow> None | Inr real \<Rightarrow> Some real) of
        None \<Rightarrow> False
      | Some client_directory \<Rightarrow>
        (case canonical fs trusted_directory of Inl e \<Rightarrow> False | Inr trusted \<Rightarrow> client_directory = trusted))"

section \<open>One connection\<close>

record progress =
  pg_stage :: str
  pg_done :: u64
  pg_total :: "u64 option"
  pg_detail :: "str option"

datatype reply = ReProgress progress | ReDone response

record client =
  cl_image :: "kam_error + str"
  cl_sid :: "kam_error + str"
  cl_profile :: "str option"
  cl_request :: "kam_error + request"
  cl_elevated :: "kam_error + bool"
  cl_worker :: "str option"
  cl_progress :: "progress list"
  cl_writes :: "nat \<Rightarrow> bool"

text \<open>The frames a job sends: the first write that fails ends the reports, and the answer is written all the same.\<close>

definition reported :: "client \<Rightarrow> progress list" where
  "reported c = map snd (takeWhile (\<lambda>(i, p). cl_writes c i) (enumerate 0 (cl_progress c)))"

definition answered :: "client \<Rightarrow> nat \<Rightarrow> response \<Rightarrow> reply list" where
  "answered c i r = (if cl_writes c i then [ReDone r] else [])"

definition attempted :: "client \<Rightarrow> nat" where
  "attempted c = min (length (reported c) + 1) (length (cl_progress c))"

definition run_request ::
  "agent_system \<Rightarrow> (agent \<Rightarrow> agent) \<Rightarrow> nat \<Rightarrow> client \<Rightarrow> request \<Rightarrow> user_context \<Rightarrow> agent \<Rightarrow> (progress list \<times> nat) \<times> response \<times> agent" where
  "run_request sy meanwhile token c request user a =
     (case cl_worker c of
        Some e \<Rightarrow> (([], 0), RError ''the agent could not start the job'', a)
      | None \<Rightarrow>
        (case handle sy meanwhile token user request a of
           (Some r, b) \<Rightarrow> ((reported c, attempted c), r, b)
         | (None, b) \<Rightarrow> ((reported c, attempted c), RError ''the job failed unexpectedly; see the agent log'', b)))"

definition refuse_client :: "agent_system \<Rightarrow> str \<Rightarrow> agent \<Rightarrow> agent" where
  "refuse_client sy program a =
     noted sy ''agent'' ''reject_client'' EffectRefused (program @ '' is not installed alongside the agent'') a"

definition refuse_unelevated :: "agent_system \<Rightarrow> user_context \<Rightarrow> agent \<Rightarrow> agent" where
  "refuse_unelevated sy user a =
     noted sy ''agent'' ''refuse_unelevated'' EffectRefused
       (uc_profile user @ '' asked for a machine-wide change without administrator rights'') a"

definition handle_connection ::
  "agent_system \<Rightarrow> str \<Rightarrow> (agent \<Rightarrow> agent) \<Rightarrow> nat \<Rightarrow> client \<Rightarrow> agent \<Rightarrow> reply list \<times> agent" where
  "handle_connection sy trusted meanwhile token c a =
     (case cl_image c of
        Inl e \<Rightarrow> ([], a)
      | Inr program \<Rightarrow>
        if \<not> is_trusted_client (ag_fs a) program trusted
        then (answered c 0 (RError ''this program is not authorised to control the agent''), refuse_client sy program a)
        else (case cl_sid c of
           Inl e \<Rightarrow> ([], a)
         | Inr sid \<Rightarrow>
           (case user_for_sid (as_env sy) sid (cl_profile c) of
              None \<Rightarrow> (answered c 0 (RError ''the account you are signed in as has no profile on this machine''), a)
            | Some user \<Rightarrow>
              (case cl_request c of
                 Inl e \<Rightarrow> ([], a)
               | Inr request \<Rightarrow>
                 if needs_administrator (as_caches sy) (ag_fs a) request user \<and> cl_elevated c \<noteq> Inr True
                 then (answered c 0 (RError NEEDS_ADMINISTRATOR), refuse_unelevated sy user a)
                 else (case run_request sy meanwhile token c request user a of
                    ((told, i), r, b) \<Rightarrow> (map ReProgress told @ answered c i r, b))))))"

section \<open>Accepting\<close>

text \<open>
  The loop counts the connections being served and turns a client away at the limit. A turn of the loop and the end
  of a connection come in any order.
\<close>

datatype accepted = TurnedAway | Spawned | SpawnFailed

inductive serve_step :: "nat \<times> accepted list \<Rightarrow> nat \<times> accepted list \<Rightarrow> bool" where
  turn_away: "MAX_PIPE_INSTANCES \<le> active \<Longrightarrow> serve_step (active, log) (active, log @ [TurnedAway])"
| take_on: "active < MAX_PIPE_INSTANCES \<Longrightarrow> serve_step (active, log) (active + 1, log @ [Spawned])"
| no_thread: "active < MAX_PIPE_INSTANCES \<Longrightarrow> serve_step (active, log) (active, log @ [SpawnFailed])"
| leave: "serve_step (Suc active, log) (active, log)"

inductive_simps serve_step_iff: "serve_step (n, log) (n', log')"

section \<open>Runs of the agent\<close>

inductive served :: "(client \<Rightarrow> bool) \<Rightarrow> agent \<Rightarrow> agent \<Rightarrow> bool" for who where
  start: "served who a a"
| connection: "served who a b \<Longrightarrow> who c \<Longrightarrow> (\<And>x. served who x (meanwhile x))
    \<Longrightarrow> served who a (snd (handle_connection sy trusted meanwhile token c b))"

section \<open>What a handler leaves as it was\<close>

lemma agent_fields [simp]:
  "ag_world (noted sy md ac ef s a) = ag_world a" "ag_firewall (noted sy md ac ef s a) = ag_firewall a"
  "ag_tasks (noted sy md ac ef s a) = ag_tasks a" "ag_policy (noted sy md ac ef s a) = ag_policy a"
  "ag_keys (noted sy md ac ef s a) = ag_keys a" "ag_watch (noted sy md ac ef s a) = ag_watch a"
  "ag_jobs (noted sy md ac ef s a) = ag_jobs a" "ag_stopped (noted sy md ac ef s a) = ag_stopped a"
  "ag_world (noted_with sy md ac ef s t a) = ag_world a" "ag_firewall (noted_with sy md ac ef s t a) = ag_firewall a"
  "ag_tasks (noted_with sy md ac ef s t a) = ag_tasks a" "ag_policy (noted_with sy md ac ef s t a) = ag_policy a"
  "ag_keys (noted_with sy md ac ef s t a) = ag_keys a" "ag_watch (noted_with sy md ac ef s t a) = ag_watch a"
  "ag_jobs (noted_with sy md ac ef s t a) = ag_jobs a" "ag_stopped (noted_with sy md ac ef s t a) = ag_stopped a"
  "ag_db (with_fs fs a) = ag_db a" "ag_firewall (with_fs fs a) = ag_firewall a" "ag_tasks (with_fs fs a) = ag_tasks a"
  "ag_policy (with_fs fs a) = ag_policy a" "ag_keys (with_fs fs a) = ag_keys a" "ag_fs (with_fs fs a) = fs"
  by (simp_all add: noted_def noted_with_def audit_note_def audit_with_token_def with_fs_def)

end
