(* ===== verification/Kam_Serve_Safe.thy ===== *)
theory Kam_Serve_Safe
  imports Kam_Serve
begin

text \<open>
  What holds of every run of the agent: its audit log is only ever added to, callers without administrator rights
  leave the settings of the machine alone, and clients that are not let in leave a row and nothing else; of one
  request: every change leaves a row, a stop reaches the job it names, and an exchange ends in one answer.
\<close>

section \<open>The log and the settings under the operations of the store\<close>

lemma server_record_keeps [simp]:
  "prefix (audit d) (audit (server_record ax e d))" "settings (server_record ax e d) = settings d"
  by (simp_all add: server_record_def record_audit_def)

lemma noted_keeps [simp]:
  "prefix (audit (ag_db a)) (audit (ag_db (noted sy md ac ef s a)))"
  "prefix (audit (ag_db a)) (audit (ag_db (noted_with sy md ac ef s t a)))"
  "settings (ag_db (noted sy md ac ef s a)) = settings (ag_db a)"
  "settings (ag_db (noted_with sy md ac ef s t a)) = settings (ag_db a)"
  by (simp_all add: noted_def noted_with_def audit_note_def audit_with_token_def)

lemma noted_after:
  "audit (ag_db b) = audit (ag_db a) \<Longrightarrow> prefix (audit (ag_db a)) (audit (ag_db (noted sy md ac ef s b)))"
  "audit (ag_db b) = audit (ag_db a) \<Longrightarrow> prefix (audit (ag_db a)) (audit (ag_db (noted_with sy md ac ef s t b)))"
  by (metis noted_keeps(1), metis noted_keeps(2))

lemma set_protection_audit [simp]: "audit (set_protection_enabled d on) = audit d"
  by (simp add: set_protection_enabled_def set_setting_def)

lemma sweep_keeps: "sweep lc seen gaps now cutoff failure d = (r, d') \<Longrightarrow> audit d' = audit d \<and> settings d' = settings d"
  by (auto simp: sweep_def Let_def split: option.splits)

lemma server_record_after: "prefix rows (audit d) \<Longrightarrow> prefix rows (audit (server_record ax e d))"
  by (erule prefix_order.trans) simp

lemma recorded_keeps:
  "prefix rows (audit d) \<Longrightarrow> prefix rows (audit (foldl (\<lambda>d f. server_record ax (finding_entry f) d) d fs))"
  "settings (foldl (\<lambda>d f. server_record ax (finding_entry f) d) d fs) = settings d"
  by (induction fs arbitrary: d) (simp_all add: server_record_after)

lemma check_keeps:
  "run_and_record ax ck user d = (r, d') \<Longrightarrow> prefix (audit d) (audit d') \<and> settings d' = settings d"
  by (auto simp: run_and_record_def recorded_keeps server_record_after split: option.splits)

lemma deleted_keeps:
  "foldl (delete_one sy) (t, a) ids = (t', b) \<Longrightarrow> prefix (audit (ag_db a)) (audit (ag_db b))
     \<and> settings (ag_db b) = settings (ag_db a) \<and> ag_firewall b = ag_firewall a \<and> ag_policy b = ag_policy a \<and> ag_keys b = ag_keys a"
proof (induction ids arbitrary: t a)
  case (Cons i ids)
  obtain u c where one: "delete_one sy (t, a) i = (u, c)" by fastforce
  then have "prefix (audit (ag_db a)) (audit (ag_db c)) \<and> settings (ag_db c) = settings (ag_db a)
     \<and> ag_firewall c = ag_firewall a \<and> ag_policy c = ag_policy a \<and> ag_keys c = ag_keys a"
    by (auto simp: delete_one_def noted_after split: prod.splits sum.splits)
  with Cons.IH [of u c] Cons.prems one show ?case by (auto intro: prefix_order.trans)
qed simp

section \<open>The log only grows\<close>

lemmas handler_defs = scan_path_def list_applications_def quarantine_path_def quarantine_copy_def taken_answer_def put_back_def
  sweep_machine_def record_lookup_def record_recycle_def set_schedule_def unset_schedule_def run_weekly_check_def
  look_at_caches_def clear_one_cache_def apply_move_def take_back_move_def block_one_def unblock_one_def note_uninstall_def
  survey_browsers_def set_hardening_def set_canaries_def set_canary_auditing_def set_protection_def finished_def

definition log_grows :: "agent \<Rightarrow> agent \<Rightarrow> bool" where
  "log_grows a b \<longleftrightarrow> prefix (audit (ag_db a)) (audit (ag_db b))"

lemma log_grows_trans: "log_grows a b \<Longrightarrow> log_grows b c \<Longrightarrow> log_grows a c"
  by (auto simp: log_grows_def intro: prefix_order.trans)

lemma log_grows_noted [simp]:
  "audit (ag_db b) = audit (ag_db a) \<Longrightarrow> log_grows a (noted sy md ac ef s b)"
  "audit (ag_db b) = audit (ag_db a) \<Longrightarrow> log_grows a (noted_with sy md ac ef s t b)"
  "audit (ag_db b) = audit (ag_db a) \<Longrightarrow> log_grows a b"
  by (simp_all add: log_grows_def noted_after)

lemma log_grows_after [simp]: "log_grows a b \<Longrightarrow> log_grows a (noted sy md ac ef s b)"
  by (erule log_grows_trans) simp

lemma during_grows:
  assumes "\<And>x. log_grows x (meanwhile x)" and "during meanwhile job token a = (cancelled, b)"
  shows "log_grows a b"
  using assms(1) [of "register_job job token a"] assms(2)
  by (auto simp: during_def Let_def log_grows_def register_job_def finish_job_def)

lemma act_grows:
  assumes "\<And>x. log_grows x (meanwhile x)"
  shows "log_grows a (snd (act sy meanwhile token user request a))"
proof (cases request)
  case (DefenderScan kind job)
  then show ?thesis
    using during_grows [OF assms, of job token a] by (auto simp: scan_with_defender_def Let_def split: prod.splits option.splits sum.splits)
next
  case (FindDuplicates drive job)
  then show ?thesis
    using during_grows [OF assms, of job token a] by (auto simp: look_for_duplicates_def Let_def finished_def split: prod.splits option.splits sum.splits)
next
  case (SurveyProvenance job)
  then show ?thesis
    using during_grows [OF assms, of job token a] by (auto simp: survey_programs_def Let_def finished_def split: prod.splits option.splits)
next
  case (DeleteQuarantined i)
  then show ?thesis using deleted_keeps [of sy _ a "[i]"] by (auto simp: delete_quarantined_def finished_def log_grows_def split: prod.splits simp del: foldl_Cons)
next
  case EmptyQuarantine
  then show ?thesis using deleted_keeps [of sy _ a] by (auto simp: empty_quarantine_def delete_quarantined_def finished_def log_grows_def split: prod.splits)
next
  case SweepForChanges
  then show ?thesis by (auto simp: sweep_machine_def finished_def split: prod.splits sum.splits dest: sweep_keeps)
next
  case RunCheck
  then show ?thesis by (auto simp: run_weekly_check_def log_grows_def split: prod.splits dest: check_keeps)
next
  case (CancelJob job)
  then show ?thesis by (auto simp: stop_job_def split: option.splits)
qed (auto simp: handler_defs Let_def get_canaries_def split: prod.splits sum.splits option.splits)

lemma handle_grows:
  "(\<And>x. log_grows x (meanwhile x)) \<Longrightarrow> handle sy meanwhile token user request a = (r, b) \<Longrightarrow> log_grows a b"
  using act_grows [of meanwhile a sy token user request] by (auto simp: handle_def log_grows_def split: option.splits)

lemma connection_grows:
  assumes "\<And>x. log_grows x (meanwhile x)"
  shows "log_grows a (snd (handle_connection sy trusted meanwhile token c a))"
  by (auto simp: handle_connection_def run_request_def refuse_client_def refuse_unelevated_def
      split: sum.splits option.splits prod.splits dest: handle_grows [OF assms])

text \<open>C8: whatever connections come, however they interleave, no row of the audit log is ever altered or removed.\<close>

theorem audit_log_only_grows:
  assumes "served who a b"
  shows "prefix (audit (ag_db a)) (audit (ag_db b))"
proof -
  from assms have "log_grows a b"
  proof (induction rule: served.induct)
    case (connection a b c meanwhile sy trusted token)
    then show ?case using connection_grows [of meanwhile b sy trusted token c] log_grows_trans by blast
  qed simp
  then show ?thesis by (simp add: log_grows_def)
qed

section \<open>Callers without administrator rights\<close>

definition machine_settings :: "agent \<Rightarrow> firewall \<times> nat list \<times> machine_keys \<times> (str \<times> str) list" where
  "machine_settings a = (ag_firewall a, ag_policy a, ag_keys a, settings (ag_db a))"

lemma machine_settings_noted [simp]:
  "machine_settings (noted sy md ac ef s a) = machine_settings a"
  "machine_settings (noted_with sy md ac ef s t a) = machine_settings a"
  "machine_settings (with_fs fs a) = machine_settings a"
  "machine_settings (a\<lparr>ag_tasks := tf\<rparr>) = machine_settings a"
  "machine_settings (a\<lparr>ag_world := w\<rparr>) = machine_settings a"
  by (simp_all add: machine_settings_def)

lemma during_settings:
  assumes "\<And>x. machine_settings (meanwhile x) = machine_settings x" and "during meanwhile job token a = (cancelled, b)"
  shows "machine_settings b = machine_settings a"
  using assms(1) [of "register_job job token a"] assms(2)
  by (auto simp: during_def Let_def machine_settings_def register_job_def finish_job_def)

lemma act_settings:
  assumes "\<And>x. machine_settings (meanwhile x) = machine_settings x"
    and "\<not> needs_administrator (as_caches sy) (ag_fs a) request user"
  shows "machine_settings (snd (act sy meanwhile token user request a)) = machine_settings a"
proof (cases request)
  case (DefenderScan kind job)
  then show ?thesis
    using during_settings [OF assms(1), of job token a] by (auto simp: scan_with_defender_def Let_def split: prod.splits option.splits sum.splits)
next
  case (FindDuplicates drive job)
  then show ?thesis
    using during_settings [OF assms(1), of job token a] by (auto simp: look_for_duplicates_def Let_def finished_def split: prod.splits option.splits sum.splits)
next
  case (SurveyProvenance job)
  then show ?thesis
    using during_settings [OF assms(1), of job token a] by (auto simp: survey_programs_def Let_def finished_def split: prod.splits option.splits)
next
  case (DeleteQuarantined i)
  then show ?thesis using deleted_keeps [of sy _ a "[i]"] by (auto simp: delete_quarantined_def finished_def machine_settings_def split: prod.splits simp del: foldl_Cons)
next
  case EmptyQuarantine
  then show ?thesis using deleted_keeps [of sy _ a] by (auto simp: empty_quarantine_def delete_quarantined_def finished_def machine_settings_def split: prod.splits)
next
  case SweepForChanges
  then show ?thesis by (auto simp: sweep_machine_def finished_def machine_settings_def split: prod.splits sum.splits dest: sweep_keeps)
next
  case RunCheck
  then show ?thesis by (auto simp: run_weekly_check_def machine_settings_def split: prod.splits dest: check_keeps)
next
  case (CancelJob job)
  then show ?thesis by (auto simp: stop_job_def machine_settings_def split: option.splits)
qed (use assms(2) in \<open>auto simp: handler_defs Let_def split: prod.splits sum.splits option.splits\<close>)

lemma connection_settings:
  assumes "\<And>x. machine_settings (meanwhile x) = machine_settings x" and "cl_elevated c \<noteq> Inr True"
  shows "machine_settings (snd (handle_connection sy trusted meanwhile token c a)) = machine_settings a"
proof -
  have "handle sy meanwhile token user request a = (r, b) \<Longrightarrow> machine_settings b = machine_settings a"
    if "\<not> needs_administrator (as_caches sy) (ag_fs a) request user" for user request r b
    using act_settings [OF assms(1) that, of token] by (auto simp: handle_def split: option.splits)
  then show ?thesis
    using assms(2) by (auto simp: handle_connection_def run_request_def refuse_client_def refuse_unelevated_def
        split: sum.splits option.splits prod.splits)
qed

text \<open>C7: no run made of connections that Windows does not call elevated changes the firewall policy, the audit policy, the
  registry of Defender's settings or a setting of the program.
\<close>

theorem unelevated_callers_change_no_machine_setting:
  assumes "served (\<lambda>c. cl_elevated c \<noteq> Inr True) a b"
  shows "ag_firewall b = ag_firewall a \<and> ag_policy b = ag_policy a \<and> ag_keys b = ag_keys a
    \<and> settings (ag_db b) = settings (ag_db a)"
proof -
  from assms have "machine_settings b = machine_settings a"
    by (induction rule: served.induct) (simp_all add: connection_settings)
  then show ?thesis by (simp add: machine_settings_def)
qed

section \<open>Every change leaves a row\<close>

definition machine_parts :: "agent \<Rightarrow> canary_world \<times> firewall \<times> task_folder \<times> nat list \<times> machine_keys" where
  "machine_parts a = (ag_world a, ag_firewall a, ag_tasks a, ag_policy a, ag_keys a)"

text \<open>
  Nothing of the machine is other than it was, or the last thing done to the log was to offer it a row that says a
  change or a refusal. A store that refuses the row keeps the log as it was, which the agent only writes down elsewhere.
\<close>

definition leaves_row :: "agent_system \<Rightarrow> agent \<Rightarrow> agent \<Rightarrow> bool" where
  "leaves_row sy a b \<longleftrightarrow>
     machine_parts b = machine_parts a
     \<or> (\<exists>d e. prefix (audit (ag_db a)) (audit d) \<and> e_effect e \<in> {Changed, EffectRefused}
          \<and> ag_db b = server_record (as_audit sy) e d)"

lemma machine_parts_noted [simp]:
  "machine_parts (noted sy md ac ef s a) = machine_parts a"
  "machine_parts (noted_with sy md ac ef s t a) = machine_parts a"
  by (simp_all add: machine_parts_def)

lemma leaves_row_noted:
  assumes "ef = Changed \<or> ef = EffectRefused" and "prefix (audit (ag_db a)) (audit (ag_db b))"
  shows "leaves_row sy a (noted sy md ac ef s b)" "leaves_row sy a (noted_with sy md ac ef s t b)"
proof -
  have "leaves_row sy a (noted_with sy md ac ef s t b)" for t
  proof -
    let ?e = "\<lparr>e_module = md, e_action = ac, e_effect = ef, e_detail = s, e_undo_token = t\<rparr>"
    have "ag_db (noted_with sy md ac ef s t b) = server_record (as_audit sy) ?e (ag_db b)"
      by (simp add: noted_with_def audit_with_token_def)
    moreover have "e_effect ?e \<in> {Changed, EffectRefused}" using assms(1) by auto
    ultimately show ?thesis using assms(2) unfolding leaves_row_def by blast
  qed
  then show "leaves_row sy a (noted sy md ac ef s b)" "leaves_row sy a (noted_with sy md ac ef s t b)"
    by (simp_all add: noted_def noted_with_def audit_note_def)
qed

lemma leaves_row_same:
  "machine_parts b = machine_parts a \<Longrightarrow> leaves_row sy a b"
  by (simp add: leaves_row_def)

lemma deleted_leaves_row:
  assumes "foldl (delete_one sy) (t, a) ids = (t', b)"
  shows "leaves_row sy a b"
proof (cases ids rule: rev_cases)
  case Nil
  then show ?thesis using assms by (simp add: leaves_row_same)
next
  case (snoc rest i)
  obtain u c where c: "foldl (delete_one sy) (t, a) rest = (u, c)" by fastforce
  then have "prefix (audit (ag_db a)) (audit (ag_db c))" using deleted_keeps by blast
  then show ?thesis
    using assms c snoc
    by (auto simp: delete_one_def split: prod.splits sum.splits intro!: leaves_row_noted)
qed

lemma during_alone: "during (\<lambda>x. x) job token a = (cancelled, b) \<Longrightarrow> machine_parts b = machine_parts a"
  by (auto simp: during_def Let_def machine_parts_def register_job_def finish_job_def)

lemma act_leaves_row:
  assumes "act sy (\<lambda>x. x) token user request a = (Some r, b)"
  shows "leaves_row sy a b"
proof -
  show ?thesis
  proof (cases request)
    case (DefenderScan kind job)
    then show ?thesis
      using assms by (auto simp: scan_with_defender_def Let_def split: prod.splits option.splits sum.splits
          intro!: leaves_row_same dest: during_alone)
  next
    case (FindDuplicates drive job)
    then show ?thesis
      using assms by (auto simp: look_for_duplicates_def Let_def finished_def split: prod.splits option.splits sum.splits if_splits
          intro!: leaves_row_same dest: during_alone)
  next
    case (SurveyProvenance job)
    then show ?thesis
      using assms by (auto simp: survey_programs_def Let_def finished_def split: prod.splits option.splits
          intro!: leaves_row_same dest: during_alone)
  next
    case (DeleteQuarantined i)
    then show ?thesis
      using assms deleted_leaves_row [where ids = "[i]"]
      by (auto simp: delete_quarantined_def finished_def split: prod.splits simp del: foldl_Cons)
  next
    case EmptyQuarantine
    then show ?thesis
      using assms deleted_leaves_row
      by (auto simp: empty_quarantine_def delete_quarantined_def finished_def split: prod.splits)
  next
    case (CancelJob job)
    then show ?thesis
      using assms by (auto simp: stop_job_def machine_parts_def split: option.splits intro!: leaves_row_same)
  next
    case SweepForChanges
    then show ?thesis
      using assms by (auto simp: sweep_machine_def finished_def machine_parts_def split: prod.splits sum.splits intro!: leaves_row_same)
  next
    case RunCheck
    then show ?thesis
      using assms by (auto simp: run_weekly_check_def machine_parts_def split: prod.splits intro!: leaves_row_same)
  next
    case (SetProtection on)
    then show ?thesis
      using assms by (auto simp: set_protection_def finished_def machine_parts_def split: option.splits intro!: leaves_row_same)
  next
    case (ScanPath path)
    then show ?thesis
      using assms by (auto simp: handler_defs Let_def split: if_splits option.splits sum.splits intro!: leaves_row_same)
  next
    case (ListApplications drive)
    then show ?thesis
      using assms by (auto simp: handler_defs Let_def split: if_splits option.splits sum.splits intro!: leaves_row_same)
  next
    case SurveyCaches
    then show ?thesis
      using assms by (auto simp: handler_defs Let_def split: if_splits option.splits sum.splits intro!: leaves_row_same)
  next
    case GetExtensions
    then show ?thesis
      using assms by (auto simp: handler_defs Let_def split: if_splits option.splits sum.splits intro!: leaves_row_same)
  next
    case (RecordLookup sha outcome)
    then show ?thesis
      using assms by (auto simp: handler_defs Let_def split: if_splits option.splits sum.splits intro!: leaves_row_same)
  qed (use assms in \<open>auto simp: handler_defs Let_def with_fs_def split: prod.splits sum.splits option.splits if_splits
        intro!: leaves_row_noted intro: leaves_row_same\<close>)
qed

text \<open>C10: a request that is answered and leaves the files, the decoys' keys, the firewall, the tasks, the audit policy or
  Defender's settings other than they were has last of all offered the log a row that says a change or a refusal, with
  everything the log held still in it; and unless the store refuses that row, it is the last of the log.
\<close>

theorem every_change_leaves_a_row:
  assumes "handle sy (\<lambda>x. x) token user request a = (Some r, b)" and "machine_parts b \<noteq> machine_parts a"
  shows "\<exists>d e. prefix (audit (ag_db a)) (audit d) \<and> e_effect e \<in> {Changed, EffectRefused}
    \<and> ag_db b = server_record (as_audit sy) e d
    \<and> (\<not> ax_refuses (as_audit sy) d e \<longrightarrow>
         (\<exists>row. audit (ag_db b) = audit d @ [row] \<and> a_effect row = effect_as_str (e_effect e)
            \<and> a_action row = e_action e \<and> a_detail row = one_line (e_detail e)))"
proof -
  have "act sy (\<lambda>x. x) token user request a = (Some r, b)"
    using assms by (auto simp: handle_def split: option.splits)
  then have "leaves_row sy a b" by (rule act_leaves_row)
  then obtain d e where row: "prefix (audit (ag_db a)) (audit d)" "e_effect e \<in> {Changed, EffectRefused}"
    "ag_db b = server_record (as_audit sy) e d"
    using assms(2) by (auto simp: leaves_row_def)
  moreover have "\<not> ax_refuses (as_audit sy) d e \<longrightarrow> (\<exists>row. audit (ag_db b) = audit d @ [row] \<and> a_effect row = effect_as_str (e_effect e)
            \<and> a_action row = e_action e \<and> a_detail row = one_line (e_detail e))"
    by (simp add: row(3) server_record_def record_audit_def)
  ultimately show ?thesis by blast
qed

section \<open>Stopping a job\<close>

text \<open>A stop sent while a search for duplicates runs ends it as stopped, and its job is gone from the list.\<close>

theorem stop_reaches_the_job:
  assumes "drive_letter drive = Some letter"
  shows "fst (handle sy (\<lambda>x. snd (handle sy2 meanwhile token2 user2 (CancelJob job) x)) token user (FindDuplicates drive job) a)
      = Some RStopped
    \<and> map_of (ag_jobs (snd (handle sy (\<lambda>x. snd (handle sy2 meanwhile token2 user2 (CancelJob job) x)) token user
        (FindDuplicates drive job) a))) job = None"
  using assms by (auto simp: handle_def look_for_duplicates_def during_def Let_def finished_def stop_job_def register_job_def finish_job_def
      map_of_eq_None_iff)

text \<open>Two jobs of one name: a stop reaches the later one only.\<close>

lemma name_taken_twice:
  "t1 \<noteq> t2 \<Longrightarrow> t1 \<notin> set (ag_stopped a)
     \<Longrightarrow> t1 \<notin> set (ag_stopped (snd (stop_job job (register_job job t2 (register_job job t1 a)))))"
  by (simp add: stop_job_def register_job_def)

section \<open>One answer to an exchange\<close>

text \<open>
  To a client that is let in, is known and reads what it is sent, the agent writes any number of reports and then one
  answer.
\<close>

theorem exchange_ends_in_one_answer:
  assumes "cl_image c = Inr program" and "cl_sid c = Inr sid" and "cl_request c = Inr request" and "\<And>i. cl_writes c i"
  shows "\<exists>ps r. fst (handle_connection sy trusted meanwhile token c a) = map ReProgress ps @ [ReDone r]
    \<and> (ps = [] \<or> ps = cl_progress c)"
proof -
  have all: "reported c = cl_progress c"
  proof -
    have every: "takeWhile (\<lambda>(i, p). cl_writes c i) (enumerate 0 (cl_progress c)) = enumerate 0 (cl_progress c)"
      using assms(4) by (auto intro: takeWhile_eq_all_conv [THEN iffD2])
    show ?thesis unfolding reported_def by (subst every) simp
  qed
  have one: "answered c i r = [ReDone r]" for i r using assms(4) by (simp add: answered_def)
  have none: "\<exists>ps r. [ReDone s] = map ReProgress ps @ [ReDone r] \<and> (ps = [] \<or> ps = cl_progress c)" for s
    by (rule exI [of _ "[]"]) simp
  show ?thesis
    using assms(1-3) none by (auto simp: handle_connection_def run_request_def all one split: option.splits prod.splits)
qed

section \<open>The limit on connections\<close>

text \<open>However accepting and finishing interleave, no more connections are served at once than there are pipe instances.\<close>

theorem connections_are_bounded:
  assumes "serve_step\<^sup>*\<^sup>* (0, []) (n, log)"
  shows "n \<le> MAX_PIPE_INSTANCES"
proof -
  have "fst s \<le> MAX_PIPE_INSTANCES" if "serve_step\<^sup>*\<^sup>* (0, []) s" for s
    using that by (induction rule: rtranclp_induct) (auto elim: serve_step.cases)
  from this [OF assms] show ?thesis by simp
qed

lemma auditing_reads_back:
  "pa_answers pa \<Longrightarrow> set_auditing pa on policy = (Inr (), policy') \<Longrightarrow> auditing_enabled pa policy' = on"
  by (auto simp: set_auditing_def auditing_enabled_def AUDIT_SUCCESS_def AUDIT_NONE_def replicate_numeral
      split: option.splits if_splits)

end
