(* ===== verification/Kam_Serve_Files.thy ===== *)
theory Kam_Serve_Files
  imports Kam_Serve_Safe Kam_Caches_Safe Kam_Canary_Safe Kam_Quarantine_Removal
begin

text \<open>
  Which places of the disk a request may change. For every request there is a set of places, spelt out from what the
  request names, what its fence said of it and what the store holds, and the folders that may be made on the way to
  them; whatever else is on the disk is afterwards as it was.
\<close>

section \<open>Changes inside a region\<close>

text \<open>
  Every place is as it was, or lies in the region, or is a folder made where nothing was, on one of the ways.
\<close>

definition touches :: "(str list \<Rightarrow> bool) \<Rightarrow> (str list \<Rightarrow> bool) \<Rightarrow> file_system \<Rightarrow> file_system \<Rightarrow> bool" where
  "touches region ways fs fs' \<longleftrightarrow>
     (\<forall>k. look fs' k = look fs k \<or> region k \<or> ways k \<and> look fs k = None \<and> look fs' k = Some DirNode)"

lemma touches_refl [simp, intro]: "touches region ways fs fs"
  by (simp add: touches_def)




lemma touches_set_node: "region k \<Longrightarrow> touches region ways fs (set_node k v fs)"
  by (simp add: touches_def look_set_node)





lemma touches_create_dir: "region (key_of path) \<Longrightarrow> touches region ways fs (snd (create_dir path fs))"
  by (simp add: create_dir_def touches_set_node split: option.split)





lemma touches_plain [simp]:
  "touches region ways fs (snd (refuse why fs))" "touches region ways fs (snd (from_sum x fs))"
  by (simp_all add: refuse_def from_sum_def)


section \<open>The places of the store\<close>















section \<open>Recorded moves\<close>





section \<open>Decoys\<close>











section \<open>What a request may change\<close>






















end
