(* ===== verification/Kam_Serve_Samples.thy ===== *)
theory Kam_Serve_Samples
  imports Kam_Serve_Files Kam_Provenance_Sound Kam_Apps_Exact Kam_Schedule_Safe
    Kam_Survey_Complete
begin

text \<open>
  A machine, an agent and clients on which the theorems about the agent are applied: the agent holds one quarantined
  file and one row of history, nothing is audited, and three clients come: a program from elsewhere, a person without
  administrator rights and an administrator.
\<close>

definition silent_wmi :: wmi where
  "silent_wmi = \<lparr>wm_com = Some ''closed'', wm_locator = None, wm_connect = (\<lambda>ns. None), wm_blanket = None, wm_exec = (\<lambda>q. None),
     wm_next = (\<lambda>q. [])\<rparr>"

definition no_table :: table_api where "no_table = \<lparr>ta_size = (0, 0), ta_fetch = (\<lambda>i n. (0, n, []))\<rparr>"

definition no_sockets :: socket_system where
  "no_sockets = \<lparr>so_tcp4 = no_table, so_tcp6 = no_table, so_udp4 = no_table, so_udp6 = no_table, so_opens = (\<lambda>pid. False),
     so_image = (\<lambda>pid. None), so_signature = (\<lambda>path. SigUnsigned),
     so_version = (\<lambda>path. \<lparr>vf_size = 0, vf_block = None, vf_ask = (\<lambda>q. \<lparr>qa_found = False, qa_at = None, qa_length = 0\<rparr>)\<rparr>),
     so_lower = ascii_lower, so_directory = None\<rparr>"

definition plain_storage :: storage_machine where
  "plain_storage = \<lparr>sm_apps = sample_apps, sm_env = [], sm_lossy = plain_lossy, sm_streams = (\<lambda>path. None), sm_tracked = None,
     sm_table = (\<lambda>letter. Inl (Privileged ''no table'')),
     sm_timings = (\<lambda>letter. \<lparr>tm_read_table = 0, tm_read_table_io = 0, tm_records = 0, tm_build_index = 0, tm_applications = 0,
        tm_orphans = 0, tm_downloads = 0, tm_total = 0\<rparr>)\<rparr>"

definition sample_system :: agent_system where
  "sample_system =
     \<lparr>as_audit = \<lparr>ax_stamp = (\<lambda>i. ''2026-01-01T00:00:00Z''), ax_refuses = (\<lambda>d e. False)\<rparr>,
      as_service = True, as_version = ''1.0.0'', as_machine = thing_machine, as_text = thing_rules, as_lower_char = ascii_lower,
      as_store = q_store, as_claim = 17, as_stamp = 18, as_now = 0, as_audit_read = None, as_setting_read = None,
      as_setting_write = None, as_drives = one_drive, as_tree = (\<lambda>fs path. DirOpen path []), as_threads = 2,
      as_order = (\<lambda>adds. adds), as_elapsed = 0, as_storage = (\<lambda>fs. plain_storage), as_hash = (\<lambda>bs. bs),
      as_opener = (\<lambda>fs path. None), as_order_sizes = (\<lambda>gs. gs), as_order_paths = (\<lambda>gs. gs), as_turns = [], as_stop1 = False,
      as_stop2 = False, as_profiles = None,
      as_caches = \<lparr>cm_env = [], cm_lower = ascii_lower, cm_steam = (\<lambda>user. None)\<rparr>,
      as_scheduler = willing, as_scheduler_back = willing, as_program = None,
      as_check = (\<lambda>fs. \<lparr>ck_wmi = silent_wmi, ck_firewall = fw_one, ck_indirect = (\<lambda>s. None), ck_survey = sample_survey,
         ck_signature = (\<lambda>path. Unsigned), ck_directory = None, ck_drives = one_drive\<rparr>),
      as_indirect = (\<lambda>s. None), as_wmi = silent_wmi, as_scan = (\<lambda>fs. clean_scan), as_prov = (\<lambda>fs. sample_prov),
      as_prov_job = (\<lambda>fs. sample_job), as_survey = (\<lambda>fs. sample_survey), as_signature = (\<lambda>path. Unsigned),
      as_admins = Inl ''no answer'', as_profile_keys = None, as_for_sid = (\<lambda>sid. None), as_users = [],
      as_sweep_at = ''2026-01-01T00:00:00Z'', as_cutoff = ''2025-01-01T00:00:00Z'', as_sweep_failure = None,
      as_shell = thing_shell, as_sockets = (\<lambda>fs. no_sockets), as_extensions = (\<lambda>fs. plain_system),
      as_run = (\<lambda>program arguments keys. (Inl ''no shell'', keys)), as_canary = sample_canary_system,
      as_policy = \<lparr>pa_privilege = None, pa_answers = True, pa_takes = True\<rparr>\<rparr>"

definition sample_agent :: agent where
  "sample_agent =
     \<lparr>ag_db = empty_db, ag_world = \<lparr>cw_fs = q_held, cw_keys = []\<rparr>, ag_firewall = fw_one, ag_tasks = None, ag_policy = [4, 4],
      ag_keys = (\<lambda>path. None), ag_watch = \<lparr>wl_observations = [], wl_watching = False, wl_since = None\<rparr>, ag_jobs = [],
      ag_stopped = []\<rparr>"

definition sample_client :: "str \<Rightarrow> bool \<Rightarrow> request \<Rightarrow> client" where
  "sample_client program elevated request =
     \<lparr>cl_image = Inr program, cl_sid = Inr ''S-1-5-21-1'', cl_profile = Some ''c:/u'', cl_request = Inr request,
      cl_elevated = Inr elevated, cl_worker = None, cl_progress = [], cl_writes = (\<lambda>i. True)\<rparr>"

lemma sample_db: "audit (ag_db sample_agent) = []"
  by (simp add: sample_agent_def empty_db_def)

lemma sample_files: "canonical (ag_fs sample_agent) = Inr"
  by (simp add: sample_agent_def q_held_def q_files_def)

lemma sample_trust: "is_trusted_client (ag_fs sample_agent) ''c:/kam/x.exe'' ''c:/kam''"
  "\<not> is_trusted_client (ag_fs sample_agent) ''c:/other/x.exe'' ''c:/kam''"
  by (simp_all add: is_trusted_client_def sample_files path_parent_def trim_end_matches_def is_path_separator_def)

lemma sample_user: "user_for_sid (as_env sample_system) ''S-1-5-21-1'' (Some ''c:/u'') = Some \<lparr>uc_sid = Some ''S-1-5-21-1'', uc_profile = ''c:/u''\<rparr>"
  by (simp add: user_for_sid_def expand_def expand_with_none user_new_def trim_end_matches_def is_backslash_def)

lemma one_connection: "who c \<Longrightarrow> served who a (snd (handle_connection sy trusted (\<lambda>x. x) token c a))"
  by (rule served.connection [where b = a]) (simp_all add: served.start)

theorem audit_log_only_grows_witness:
  "\<exists>b. served (\<lambda>c. True) sample_agent b \<and> length (audit (ag_db b)) = 1 \<and> prefix (audit (ag_db sample_agent)) (audit (ag_db b))"
proof -
  let ?c = "sample_client ''c:/other/x.exe'' True EmptyQuarantine"
  let ?b = "snd (handle_connection sample_system ''c:/kam'' (\<lambda>x. x) 0 ?c sample_agent)"
  have run: "served (\<lambda>c. True) sample_agent ?b" by (rule one_connection) simp
  have "length (audit (ag_db ?b)) = 1"
    by (simp add: handle_connection_def sample_client_def sample_trust refuse_client_def noted_def audit_note_def
        audit_with_token_def server_record_def record_audit_def sample_db sample_system_def)
  with run audit_log_only_grows [OF run] show ?thesis by blast
qed

theorem unelevated_callers_change_no_machine_setting_witness:
  "\<exists>b. served (\<lambda>c. cl_elevated c \<noteq> Inr True) sample_agent b \<and> length (audit (ag_db b)) = 1
     \<and> ag_firewall b = ag_firewall sample_agent \<and> ag_policy b = ag_policy sample_agent \<and> ag_keys b = ag_keys sample_agent
     \<and> settings (ag_db b) = settings (ag_db sample_agent)"
proof -
  let ?c = "sample_client ''c:/kam/x.exe'' False (SetProtection False)"
  let ?b = "snd (handle_connection sample_system ''c:/kam'' (\<lambda>x. x) 0 ?c sample_agent)"
  have run: "served (\<lambda>c. cl_elevated c \<noteq> Inr True) sample_agent ?b" by (rule one_connection) (simp add: sample_client_def)
  have "length (audit (ag_db ?b)) = 1"
    by (simp add: handle_connection_def sample_client_def sample_trust sample_user refuse_unelevated_def noted_def audit_note_def
        audit_with_token_def server_record_def record_audit_def sample_db) (simp add: sample_system_def)
  with run unelevated_callers_change_no_machine_setting [OF run] show ?thesis by blast
qed

theorem every_change_leaves_a_row_witness:
  "\<exists>b. handle sample_system (\<lambda>x. x) 0 \<lparr>uc_sid = None, uc_profile = ''c:/u''\<rparr> (BlockProgram ''c:/a'') sample_agent
       = (Some (RBlocked (block_rule_name ''c:/a'')), b)
     \<and> 0 < length (audit (ag_db b))
     \<and> a_effect (last (audit (ag_db b))) \<in> {effect_as_str Changed, effect_as_str EffectRefused}"
proof -
  let ?user = "\<lparr>uc_sid = None, uc_profile = ''c:/u''\<rparr>"
  have "resolve_node q_held ''c:/a'' = Some (FileNode ''hello'')"
    using follow_plain [OF q_held_a, of 63] by (simp add: resolve_node_def key_samples del: follow.simps)
  moreover have "trim ''c:/a'' \<noteq> []" by code_simp
  moreover have "com_enter fw_one = Inr ()" "open_policy fw_one = Inr ()" "fw_rules_error fw_one = None"
    "fw_new fw_one = Inr (com_sample [] [])" "fw_add_error fw_one = None"
    by (simp_all add: fw_one_def fw_sample_def com_enter_def open_policy_def)
  ultimately obtain fw where block: "block_program q_held ''c:/a'' fw_one = (Inr (block_rule_name ''c:/a''), fw)"
      "fw_items fw \<noteq> fw_items fw_one"
    by (simp add: block_program_def)
  obtain b where b: "handle sample_system (\<lambda>x. x) 0 ?user (BlockProgram ''c:/a'') sample_agent = (Some (RBlocked (block_rule_name ''c:/a'')), b)"
      "ag_firewall b = fw"
    using block(1) by (simp add: handle_def block_one_def finished_def sample_agent_def)
  have "ag_firewall b \<noteq> ag_firewall sample_agent" using b(2) block(2) by (auto simp: sample_agent_def)
  then have "machine_parts b \<noteq> machine_parts sample_agent" by (simp add: machine_parts_def)
  then obtain d e where row: "e_effect e \<in> {Changed, EffectRefused}" "\<not> ax_refuses (as_audit sample_system) d e \<longrightarrow>
      (\<exists>row. audit (ag_db b) = audit d @ [row] \<and> a_effect row = effect_as_str (e_effect e)
         \<and> a_action row = e_action e \<and> a_detail row = one_line (e_detail e))"
    using every_change_leaves_a_row [OF b(1)] by blast
  then show ?thesis using b(1) by (auto simp: sample_system_def)
qed


theorem stop_reaches_the_job_witness:
  "fst (handle sample_system (\<lambda>x. snd (handle sample_system (\<lambda>x. x) 1 \<lparr>uc_sid = None, uc_profile = ''c:/u''\<rparr> (CancelJob ''job'') x)) 0
      \<lparr>uc_sid = None, uc_profile = ''c:/u''\<rparr> (FindDuplicates ''C:'' ''job'') sample_agent) = Some RStopped"
proof -
  have "drive_letter ''C:'' = Some CHR ''C''" by (simp add: drive_letter_def is_ascii_alphabetic_def)
  then show ?thesis by (rule stop_reaches_the_job [THEN conjunct1])
qed

theorem exchange_ends_in_one_answer_witness:
  "\<exists>ps r. fst (handle_connection sample_system ''c:/kam'' (\<lambda>x. x) 0 (sample_client ''c:/kam/x.exe'' False GetProtection) sample_agent)
      = map ReProgress ps @ [ReDone r]"
proof -
  let ?c = "sample_client ''c:/kam/x.exe'' False GetProtection"
  have c: "cl_image ?c = Inr ''c:/kam/x.exe''" "cl_sid ?c = Inr ''S-1-5-21-1''" "cl_request ?c = Inr GetProtection" "cl_writes ?c i" for i
    by (simp_all add: sample_client_def)
  from exchange_ends_in_one_answer [OF c(1-3), of sample_system "''c:/kam''" "\<lambda>x. x" 0 sample_agent] c(4) show ?thesis by blast
qed

theorem connections_are_bounded_witness: "serve_step\<^sup>*\<^sup>* (0, []) (1, [Spawned]) \<and> (1 :: nat) \<le> MAX_PIPE_INSTANCES"
proof -
  have "serve_step (0, []) (0 + 1, [] @ [Spawned])" by (rule serve_step.take_on) (simp add: MAX_PIPE_INSTANCES_def)
  then have run: "serve_step\<^sup>*\<^sup>* (0, []) (1, [Spawned])" by (auto intro: r_into_rtranclp)
  then show ?thesis using connections_are_bounded [OF run] by blast
qed

end
