(* ===== verification/Spec2Isabelle.thy ===== *)
theory Spec2Isabelle
  imports Kam_Mft_Format Kam_Mft_Stream Kam_Index_Paths Kam_Scan_Totals Kam_Quarantine_Removal Kam_Firewall
    Kam_Changes_Samples Kam_Frame Kam_Attribution Kam_Trust Kam_Duplicates_Exact Kam_Task_Actions
    Kam_Registry_Walk Kam_Baseline_Sound Kam_Watch_Sound Kam_Canary_Safe Kam_Caches_Safe Kam_Orphans_Views
    Kam_Organise Kam_Schedule_Safe Kam_Defender_Scan Kam_Remnants Kam_Downloads Kam_Check Kam_Hardening
    Kam_Provenance_Sound Kam_Connections Kam_Extensions Kam_Serve_Samples
begin

text \<open>
  A verification library for KAM Security, a Windows security tool in Rust (\<open>crates/\<close>): an agent that
  runs as a service and answers a window over a named pipe, looks for what starts itself, measures
  disks, finds duplicates, keeps a quarantine and manages a few firewall rules.

  \<^bold>\<open>Parts and how they interact.\<close> The storage side reads the master file table of a volume
  (\<open>mft.rs\<close>) into records, builds an index of directories from them (\<open>index.rs\<close>), scans the index or
  the directory tree for sizes (\<open>scan.rs\<close>) and finds files with the same contents
  (\<open>duplicates.rs\<close>, \<open>paths.rs\<close>); what a person removes goes to the quarantine store
  (\<open>kam-quarantine\<close>). The security side reads the registry (\<open>registry.rs\<close>), the task store and the
  Startup folders into a survey of what starts itself (\<open>persistence.rs\<close>); the baseline turns the
  survey into sightings (\<open>baseline.rs\<close>), the store compares them with the last sweep (\<open>db.rs\<close>,
  \<open>changes.rs\<close>), the audit log explains changes (\<open>attribution.rs\<close>), and the watcher judges what is
  new (\<open>behaviour.rs\<close>, \<open>places.rs\<close>, \<open>watch.rs\<close>). Requests travel as frames (\<open>frame.rs\<close>), and the agent
  refuses to install where others can write (\<open>trust.rs\<close>).

  \<^bold>\<open>Theories.\<close> \<open>Kam_Prelude\<close> has the integers, byte and text operations, errors and sorting the rest
  shares; \<open>Kam_Files\<close> is the part of the file system the sources use, on an explicit store with
  injected faults.

  \<^item> \<open>Kam_Mft\<close>, \<open>Kam_Mft_Format\<close>, \<open>Kam_Mft_Stream\<close>: \<open>kam-storage/src/mft.rs\<close>. Boot sector, fix-ups, mapping
    pairs and records on bytes and words; the chunked, parallel reader against a sequential parse.
  \<^item> \<open>Kam_Index\<close>, \<open>Kam_Index_Totals\<close>, \<open>Kam_Index_Paths\<close>: \<open>index.rs\<close>. Directory maps, totals by repeated
    passes against a recursive sum over the forest, and the walks from a record to its path and back.
  \<^item> \<open>Kam_Scan\<close>, \<open>Kam_Scan_Totals\<close>: \<open>scan.rs\<close>. Both walks, shared counters as orders of additions,
    the largest files and the pruning of the tree.
  \<^item> \<open>Kam_Duplicates\<close>, \<open>Kam_Fence\<close>, \<open>Kam_Duplicates_Find\<close>, \<open>Kam_Duplicates_Exact\<close>: \<open>duplicates.rs\<close>. Who owns
    a copy, which copies may go and the fence the agent checks again; the three passes over
    threads, refining the partition of all files into equal contents.
  \<^item> \<open>Kam_Env\<close>, \<open>Kam_Paths\<close>: \<open>kam-core/src/user.rs\<close>, \<open>env.rs\<close> and \<open>kam-storage/src/paths.rs\<close>.
  \<^item> \<open>Kam_Quarantine\<close>, \<open>Kam_Quarantine_Safety\<close>, \<open>Kam_Quarantine_Removal\<close>: \<open>kam-quarantine/src/lib.rs\<close>. Identifiers,
    taking, restoring, purging, deleting and recorded moves on the store.
  \<^item> \<open>Kam_Firewall\<close>: \<open>kam-firewall/src/policy.rs\<close> on the COM policy as an interface.
  \<^item> \<open>Kam_Changes\<close>, \<open>Kam_Sweep\<close>, \<open>Kam_Changes_Samples\<close>, \<open>Kam_Clock\<close>: \<open>changes.rs\<close>, \<open>audit.rs\<close>, \<open>db.rs\<close>, \<open>clock.rs\<close>.
    Settings, audit log, migrations, the sweep, places and times.
  \<^item> \<open>Kam_Commands\<close>: command lines of \<open>persistence.rs\<close>: tokens, launchers, payloads, console hosts.
  \<^item> \<open>Kam_Tasks\<close>, \<open>Kam_Tasks_Read\<close>, \<open>Kam_Task_Actions\<close>: the walk of the task store and task definitions.
  \<^item> \<open>Kam_Registry\<close>, \<open>Kam_Registry_Walk\<close>: \<open>kam-core/src/registry.rs\<close>. A key is a history, one state per
    call; the interface to it is a locale, interpreted on a key that is served as documented by a
    clock of any grain. Nothing is assumed of the write time: a write in the tick of the one before
    it slips past the check, as the source says; only \<open>stamped_history\<close> excludes that.
  \<^item> \<open>Kam_Survey\<close>, \<open>Kam_Survey_Complete\<close>, \<open>Kam_Baseline\<close>, \<open>Kam_Baseline_Sound\<close>: the survey and \<open>baseline.rs\<close>,
    up to the sweep that uses them.
  \<^item> \<open>Kam_Behaviour\<close>, \<open>Kam_Watch\<close>, \<open>Kam_Watch_Sound\<close>: judging entries and processes; the watcher's loop
    as a step relation over answered turns.
  \<^item> \<open>Kam_Attribution\<close>, \<open>Kam_Trust\<close>, \<open>Kam_Frame\<close>: \<open>attribution.rs\<close>, \<open>trust.rs\<close>, \<open>kam-ipc/src/frame.rs\<close>.
  \<^item> \<open>Kam_Canary\<close>, \<open>Kam_Canary_Events\<close>, \<open>Kam_Canary_Safe\<close>: \<open>kam-canary/src\<close>. Planting and removing decoys on
    the file store, and reading who opened them from the event log.
  \<^item> \<open>Kam_Links\<close>, \<open>Kam_Caches\<close>, \<open>Kam_Caches_Safe\<close>: \<open>caches.rs\<close>. What may be cleared and where clearing stays.
  \<^item> \<open>Kam_Steam\<close>, \<open>Kam_Shortcuts\<close>, \<open>Kam_Usage\<close>, \<open>Kam_Apps\<close>, \<open>Kam_Apps_Exact\<close>: \<open>steam.rs\<close>, \<open>shortcuts.rs\<close>, \<open>usage.rs\<close>
    and \<open>apps.rs\<close>. Installed software, its size and its last launch.
  \<^item> \<open>Kam_Orphans\<close>, \<open>Kam_Orphans_Views\<close>, \<open>Kam_Resolved\<close>, \<open>Kam_Organise\<close>, \<open>Kam_Remnants\<close>: \<open>orphans.rs\<close>, \<open>organise.rs\<close> and
    \<open>remnants.rs\<close>. Leftovers, homes for loose files and what an uninstalled program left, with their fences.
  \<^item> \<open>Kam_Downloads\<close>: \<open>kam-storage/src/provenance.rs\<close>, \<open>volumes.rs\<close> and the survey of a volume.
  \<^item> \<open>Kam_Schedule\<close>, \<open>Kam_Schedule_Safe\<close>: \<open>kam-schedule\<close>. The weekly task and every call that can fail on the way.
  \<^item> \<open>Kam_Defender\<close>, \<open>Kam_Defender_Scan\<close>, \<open>Kam_Hardening\<close>: \<open>wmi.rs\<close>, \<open>defender.rs\<close>, \<open>defender_scan.rs\<close>, \<open>hardening.rs\<close>.
  \<^item> \<open>Kam_Provenance\<close>, \<open>Kam_Provenance_Sound\<close>, \<open>Kam_Extensions\<close>: \<open>kam-scanner/src/provenance.rs\<close> and \<open>extensions.rs\<close>.
    Weighing programs and what browser extensions reach.
  \<^item> \<open>Kam_Version\<close>, \<open>Kam_Ours\<close>, \<open>Kam_Connections\<close>: \<open>version.rs\<close>, \<open>ourselves.rs\<close> and \<open>connections.rs\<close>.
  \<^item> \<open>Kam_Check\<close>: \<open>check.rs\<close>, the weekly check and its rows.
  \<^item> \<open>Kam_Ipc\<close>, \<open>Kam_Dispatch\<close>, \<open>Kam_Serve\<close>, \<open>Kam_Serve_Safe\<close>, \<open>Kam_Serve_Files\<close>, \<open>Kam_Serve_Samples\<close>:
    \<open>kam-ipc/src/lib.rs\<close>, \<open>dispatch.rs\<close> and \<open>server.rs\<close>. One handler for each request on the state of the
    agent, the order of the checks on a connection, and what holds of every run of the agent;
    \<open>Kam_Serve_Files\<close> spells out, request by request, the places of the disk it may change.

  \<^bold>\<open>State and effects.\<close> A structure is a record and an enumeration a datatype with the source's
  variants. State is passed explicitly: the file store, the database (rows as lists), the firewall
  policy, the watcher; the agent's state puts them together, and a run of the agent is an inductive
  relation over connections, each with what other connections do while its job runs. Errors are values of \<open>kam_error\<close> or of the component's own type. Integers
  that can wrap are words (\<open>u16\<close>, \<open>u32\<close>, \<open>u64\<close>); counters that cannot are natural numbers. Text is a list
  of bytes as characters; where characters matter it is cut into UTF-8 characters. Threads are
  orders: a claim about parallel work holds for every order of its steps or additions.

  \<^bold>\<open>Parameters.\<close> What Windows or a library answers is an argument: lower-casing of non-ASCII text,
  the SHA-256 digest, the serialisation of manifests, registry and directory calls with their
  failures, COM objects, signature verdicts, the clock and the database's own clock. What is
  relied on is a hypothesis or a law of a locale, and each locale is interpreted on the model. The
  digest of duplicates is asked to tell apart the contents of the volume at hand and no others; text and
  characters are lower-cased alike but for the capital sigma, as the standard library documents.

  \<^bold>\<open>What the lemmas show.\<close> For the readers: exactness on well-formed input and refusal of torn input.
  For index, scan and duplicates: agreement with a plain definition, independent of chunking and
  threads. For quarantine, fence and firewall: nothing outside is touched, and what is taken can be
  put back. For survey, baseline and sweep: each thing is read or is covered by a named gap, and
  nothing is concluded from a gap. For the watcher: bounded memory, one judgement for each new key,
  a truthful switch and a prompt wait. For decoys, caches, moves and the schedule: only what is their
  own is touched, and a decoy is written only where the system says nothing is or will not say. For the agent: the audit log
  only grows, every change offers the log a row, which is its last unless the store refuses it, a request changes only the
  places its fence passed or the agent's own records name, and callers without administrator rights change no setting of the machine.

  \<^bold>\<open>Bounds and fuel.\<close> Path reconstruction follows at most the sources' own limit of steps, and
  following links in the file store stops after 64 of them, beyond what the system follows. The
  walk of the task store stops at depth 8 as the source does, shortcuts are looked for five folders deep,
  homes for loose files three, programs six and at most 4000 of them, a Defender scan waits at most
  57602 turns (shown to be enough for its two limits of time), following links to a place takes at most 256 steps, the console host is unwrapped at most twice, a value is
  tried four times and a key walked four times, as in the source. The loops over a key are
  partial, because a key that grows as fast as it is read keeps them going; they are shown to
  return for every key of bounded size. All other loops terminate by a measure.

  \<^bold>\<open>Not modelled.\<close> The pipe and its client, the service, the access list of the store and the process
  entry (calls of Windows), the shared counters behind progress, the YARA rules (compiled and run by
  a third-party engine), the check of signatures (a sequence of calls of Windows; its verdict is a
  parameter), the HTTP transport and the protection of its key, string resources, and the window,
  which forwards to the agent. Within modelled parts: opening and closing handles, COM calls that
  read shortcuts, the deadline of the administrator query, raw binary registry values, logging, and
  the poisoning of locks.
\<close>

end
